(* ===== verification/MPF_Prelude.thy ===== *)
theory MPF_Prelude
  imports Main "HOL-Library.Word" "HOL-Library.List_Lexorder" "HOL-Library.Char_ord"
    "HOL-Library.Product_Lexorder"
begin

text \<open>
  Shared vocabulary of the development: the machine integer types of the C++ sources, the
  rendering of unsigned integers (\<open>std::to_string\<close>), the wrapper \<open>msg\<close> around operator-facing
  message text, and generic lemmas on lists and partial maps that the component theories use.
\<close>

section \<open>Collections of facts\<close>

named_theorems mpf_defs \<open>definitions the component proofs unfold\<close>
named_theorems mpf_frame \<open>which fields a helper leaves alone\<close>
named_theorems mpf_inv \<open>preservation of the engine invariant\<close>

section \<open>Machine integers\<close>

type_synonym u8 = "8 word"
type_synonym u16 = "16 word"
type_synonym u32 = "32 word"
type_synonym u64 = "64 word"

abbreviation u64_max :: u64 where
  "u64_max \<equiv> - 1"

lemma unat_u64_max: "unat u64_max = 2 ^ 64 - 1"
  by (simp add: unsigned_minus_1_eq_mask mask_eq_exp_minus_1)

lemma unat_u64_lt: "unat (a :: u64) < 2 ^ 64"
  using unsigned_less [of a, where 'a = nat] by simp

lemma unat_u32_lt: "unat (a :: u32) < 2 ^ 32"
  using unsigned_less [of a, where 'a = nat] by simp

lemma unat_u8_lt: "unat (a :: u8) < 256"
  using unsigned_less [of a, where 'a = nat] by simp

lemma unat_Suc_u64: "a \<noteq> u64_max \<Longrightarrow> unat (a + 1) = Suc (unat (a :: u64))"
  by (metis add.commute add_cancel_right_right add_diff_cancel_left' diff_0 unatSuc)

section \<open>Message text\<close>

text \<open>
  Outcomes and history entries carry text for operators. The text is written out where the code
  builds it, wrapped in \<open>msg\<close>, which the simplifier does not look into: no decision of the code
  depends on it.
\<close>

definition msg :: "string \<Rightarrow> string" where
  "msg s = s"

lemma msg_cong [cong]: "msg s = msg s"
  by (rule refl)

section \<open>Decimal rendering of unsigned integers\<close>

text \<open>\<open>std::to_string\<close> on an unsigned integer: its decimal digits, most significant first.\<close>

definition digit_char :: "nat \<Rightarrow> char" where
  "digit_char d = char_of (48 + d)"

fun nat_string :: "nat \<Rightarrow> string" where
  "nat_string n = (if n < 10 then [digit_char n] else nat_string (n div 10) @ [digit_char (n mod 10)])"

declare nat_string.simps [simp del]

definition u64_string :: "u64 \<Rightarrow> string" where
  "u64_string w = nat_string (unat w)"

definition digit_val :: "char \<Rightarrow> nat" where
  "digit_val c = of_char c - 48"

lemma digit_val_char [simp]: "d < 10 \<Longrightarrow> digit_val (digit_char d) = d"
  by (simp add: digit_val_def digit_char_def)

lemma digit_char_range: "d < 10 \<Longrightarrow> 48 \<le> (of_char (digit_char d) :: nat) \<and> (of_char (digit_char d) :: nat) \<le> 57"
  by (simp add: digit_char_def)

fun digits_val :: "nat \<Rightarrow> string \<Rightarrow> nat" where
  "digits_val acc [] = acc"
| "digits_val acc (c # cs) = digits_val (acc * 10 + digit_val c) cs"

lemma digits_val_append: "digits_val acc (xs @ ys) = digits_val (digits_val acc xs) ys"
  by (induction xs arbitrary: acc) auto

lemma digits_val_nat_string: "digits_val 0 (nat_string n) = n"
proof (induction n rule: nat_string.induct)
  case (1 n)
  show ?case
  proof (cases "n < 10")
    case True
    then show ?thesis by (simp add: nat_string.simps [of n])
  next
    case False
    with "1.IH" have "digits_val 0 (nat_string (n div 10)) = n div 10" by simp
    with False show ?thesis
      by (simp add: nat_string.simps [of n] digits_val_append)
  qed
qed

lemma nat_string_inject [simp]: "nat_string m = nat_string n \<longleftrightarrow> m = n"
  by (metis digits_val_nat_string)

lemma u64_string_inject [simp]: "u64_string a = u64_string b \<longleftrightarrow> a = b"
  by (auto simp: u64_string_def word_unat_eq_iff)

lemma nat_string_nonempty [simp]: "nat_string n \<noteq> []"
  by (simp add: nat_string.simps [of n])

lemma nat_string_digits: "c \<in> set (nat_string n) \<Longrightarrow> \<exists>d < 10. c = digit_char d"
proof (induction n rule: nat_string.induct)
  case (1 n)
  show ?case
  proof (cases "n < 10")
    case True
    with "1.prems" show ?thesis by (auto simp: nat_string.simps [of n])
  next
    case False
    with "1.prems" have "c \<in> set (nat_string (n div 10)) \<or> c = digit_char (n mod 10)"
      by (auto simp: nat_string.simps [of n])
    then show ?thesis
    proof
      assume "c \<in> set (nat_string (n div 10))"
      with False "1.IH" show ?thesis by blast
    next
      assume "c = digit_char (n mod 10)"
      then show ?thesis by (intro exI [of _ "n mod 10"]) simp
    qed
  qed
qed

lemma length_nat_string_le: "n < 10 ^ k \<Longrightarrow> 0 < k \<Longrightarrow> length (nat_string n) \<le> k"
proof (induction k arbitrary: n)
  case 0
  then show ?case by simp
next
  case (Suc k)
  show ?case
  proof (cases "n < 10")
    case True
    then show ?thesis by (simp add: nat_string.simps [of n])
  next
    case False
    have "n div 10 < 10 ^ k" using Suc.prems by (simp add: less_mult_imp_div_less mult.commute)
    moreover have "0 < k" using False Suc.prems by (cases k) auto
    ultimately have "length (nat_string (n div 10)) \<le> k" by (rule Suc.IH)
    with False show ?thesis by (simp add: nat_string.simps [of n])
  qed
qed

section \<open>Lists\<close>

text \<open>Dropping from the front until a bound holds: the \<open>while (size > bound) pop_front\<close> loops.\<close>

definition keep_last :: "nat \<Rightarrow> 'a list \<Rightarrow> 'a list" where
  "keep_last n xs = drop (length xs - n) xs"

lemma length_keep_last [simp]: "length (keep_last n xs) = min n (length xs)"
  by (simp add: keep_last_def)

lemma set_keep_last: "set (keep_last n xs) \<subseteq> set xs"
  by (simp add: keep_last_def set_drop_subset)

lemma keep_last_id [simp]: "length xs \<le> n \<Longrightarrow> keep_last n xs = xs"
  by (simp add: keep_last_def)

lemma length_filter_map_eq:
  "(\<And>x. x \<in> set xs \<Longrightarrow> P (f x) = P x) \<Longrightarrow> length (filter P (map f xs)) = length (filter P xs)"
  by (induction xs) auto

section \<open>A table with a secondary index\<close>

text \<open>
  Two containers of the engine come in pairs: a table and an index from a field of its values
  back to its keys (members by path with the member identity index; sets by identity with the
  semantic key index). \<open>index_ok\<close> says that such a pair agrees.
\<close>

definition index_ok :: "('v \<Rightarrow> 'i) \<Rightarrow> ('k \<Rightarrow> 'v option) \<Rightarrow> ('i \<Rightarrow> 'k option) \<Rightarrow> bool" where
  "index_ok field tbl idx \<longleftrightarrow>
     (\<forall>k v. tbl k = Some v \<longrightarrow> idx (field v) = Some k) \<and>
     (\<forall>i k. idx i = Some k \<longrightarrow> (\<exists>v. tbl k = Some v \<and> field v = i))"

lemma index_okI:
  assumes "\<And>k v. tbl k = Some v \<Longrightarrow> idx (field v) = Some k"
    and "\<And>i k. idx i = Some k \<Longrightarrow> \<exists>v. tbl k = Some v \<and> field v = i"
  shows "index_ok field tbl idx"
  using assms by (auto simp: index_ok_def)

lemma index_ok_tblD: "index_ok field tbl idx \<Longrightarrow> tbl k = Some v \<Longrightarrow> idx (field v) = Some k"
  by (simp add: index_ok_def)

lemma index_ok_idxD: "index_ok field tbl idx \<Longrightarrow> idx i = Some k \<Longrightarrow> \<exists>v. tbl k = Some v \<and> field v = i"
  by (simp add: index_ok_def)

lemma index_ok_empty [simp]: "index_ok field (\<lambda>_. None) (\<lambda>_. None)"
  by (simp add: index_ok_def)

lemma index_ok_inj:
  "index_ok field tbl idx \<Longrightarrow> tbl k = Some v \<Longrightarrow> tbl k' = Some v' \<Longrightarrow> field v = field v' \<Longrightarrow> k = k'"
  by (metis index_ok_tblD option.inject)

text \<open>Replacing a value by one with the same indexed field.\<close>

lemma index_ok_update:
  assumes ok: "index_ok field tbl idx" and k: "tbl k = Some v" and f: "field v' = field v"
  shows "index_ok field (tbl(k := Some v')) idx"
proof (rule index_okI)
  fix k' w assume "(tbl(k := Some v')) k' = Some w"
  then show "idx (field w) = Some k'"
    using index_ok_tblD [OF ok] k f by (auto split: if_splits)
next
  fix i k' assume "idx i = Some k'"
  then obtain w where "tbl k' = Some w" "field w = i" using index_ok_idxD [OF ok] by blast
  then show "\<exists>w. (tbl(k := Some v')) k' = Some w \<and> field w = i"
    using k f by (cases "k' = k") auto
qed

text \<open>Removing a key together with its index entry.\<close>

lemma index_ok_delete:
  assumes ok: "index_ok field tbl idx" and k: "tbl k = Some v"
  shows "index_ok field (tbl(k := None)) (idx(field v := None))"
proof (rule index_okI)
  fix k' w assume "(tbl(k := None)) k' = Some w"
  then have "k' \<noteq> k" and w: "tbl k' = Some w" by (auto split: if_splits)
  with index_ok_inj [OF ok w k] have "field w \<noteq> field v" by blast
  with w show "(idx(field v := None)) (field w) = Some k'"
    using index_ok_tblD [OF ok] by simp
next
  fix i k' assume "(idx(field v := None)) i = Some k'"
  then have i: "i \<noteq> field v" and "idx i = Some k'" by (auto split: if_splits)
  then obtain w where "tbl k' = Some w" "field w = i" using index_ok_idxD [OF ok] by blast
  with i k show "\<exists>w. (tbl(k := None)) k' = Some w \<and> field w = i" by auto
qed

text \<open>Inserting under a fresh field value; an old value under the key leaves the index first.\<close>

lemma index_ok_insert_fresh:
  assumes ok: "index_ok field tbl idx" and k: "tbl k = None" and i: "idx (field v) = None"
  shows "index_ok field (tbl(k := Some v)) (idx(field v := Some k))"
proof (rule index_okI)
  fix k' w assume w: "(tbl(k := Some v)) k' = Some w"
  show "(idx(field v := Some k)) (field w) = Some k'"
  proof (cases "k' = k")
    case True
    with w show ?thesis by simp
  next
    case False
    with w have "idx (field w) = Some k'" using index_ok_tblD [OF ok] by simp
    with i show ?thesis by auto
  qed
next
  fix i' k' assume "(idx(field v := Some k)) i' = Some k'"
  then show "\<exists>w. (tbl(k := Some v)) k' = Some w \<and> field w = i'"
    using index_ok_idxD [OF ok, of i' k'] k by (auto split: if_splits)
qed

lemma index_ok_replace:
  assumes ok: "index_ok field tbl idx" and k: "tbl k = Some w" and i: "idx (field v) = None"
  shows "index_ok field (tbl(k := Some v)) (idx(field w := None, field v := Some k))"
proof -
  have "index_ok field (tbl(k := None)) (idx(field w := None))"
    using ok k by (rule index_ok_delete)
  then have "index_ok field ((tbl(k := None))(k := Some v)) ((idx(field w := None))(field v := Some k))"
    by (rule index_ok_insert_fresh) (auto simp: i)
  then show ?thesis by simp
qed

lemma index_ok_map:
  assumes "index_ok field tbl idx"
    and "\<And>k. tbl' k = map_option (f k) (tbl k)"
    and "\<And>k v. tbl k = Some v \<Longrightarrow> field (f k v) = field v"
  shows "index_ok field tbl' idx"
  using assms by (fastforce simp: index_ok_def)

end
