(* ===== verification/Ordered_Map.thy ===== *)
theory Ordered_Map
  imports MPF_Prelude
begin

text \<open>
  \<open>std::map\<close> as the engine uses it: a finite map whose iteration order is the key order. The
  value is its list of entries, strictly sorted by key, so two maps with the same bindings are
  equal. \<open>om_find\<close>, \<open>om_put\<close>, \<open>om_del\<close> are \<open>find\<close>, assignment through \<open>operator[]\<close>, and
  \<open>erase(key)\<close>; \<open>om_entries\<close> is iteration from \<open>begin()\<close> to \<open>end()\<close>; \<open>om_map\<close> is a loop that
  updates every value in place. A \<open>std::set\<close> is a map to \<open>unit\<close>.
\<close>

section \<open>Entry lists\<close>

fun ins_entry :: "'k::linorder \<Rightarrow> 'v \<Rightarrow> ('k \<times> 'v) list \<Rightarrow> ('k \<times> 'v) list" where
  "ins_entry k v [] = [(k, v)]"
| "ins_entry k v ((a, b) # xs) =
     (if k < a then (k, v) # (a, b) # xs
      else if k = a then (k, v) # xs
      else (a, b) # ins_entry k v xs)"

fun del_entry :: "'k::linorder \<Rightarrow> ('k \<times> 'v) list \<Rightarrow> ('k \<times> 'v) list" where
  "del_entry k [] = []"
| "del_entry k ((a, b) # xs) = (if k = a then xs else (a, b) # del_entry k xs)"

abbreviation ascending :: "('k::linorder \<times> 'v) list \<Rightarrow> bool" where
  "ascending xs \<equiv> sorted_wrt (<) (map fst xs)"

lemma set_ins_entry_keys: "fst ` set (ins_entry k v xs) = insert k (fst ` set xs)"
  by (induction xs rule: ins_entry.induct) auto

lemma ascending_ins_entry: "ascending xs \<Longrightarrow> ascending (ins_entry k v xs)"
proof (induction k v xs rule: ins_entry.induct)
  case (2 k v a b xs)
  have "\<forall>c \<in> fst ` set (ins_entry k v xs). a < c" if "a < k"
    using that "2.prems" by (simp only: set_ins_entry_keys) auto
  with 2 show ?case by (auto simp: not_less_iff_gr_or_eq)
qed simp

lemma set_del_entry_subset: "set (del_entry k xs) \<subseteq> set xs"
  by (induction xs rule: del_entry.induct) auto

lemma ascending_del_entry: "ascending xs \<Longrightarrow> ascending (del_entry k xs)"
proof (induction k xs rule: del_entry.induct)
  case (2 k a b xs)
  have "c \<in> set xs" if "c \<in> set (del_entry k xs)" for c
    using that set_del_entry_subset by blast
  with 2 show ?case by auto
qed simp

lemma map_of_ins_entry: "map_of (ins_entry k v xs) = (map_of xs)(k := Some v)"
  by (induction xs rule: ins_entry.induct) (auto simp: fun_eq_iff)

lemma map_of_below: "\<forall>c \<in> fst ` set xs. (a :: 'k::linorder) < c \<Longrightarrow> map_of xs a = None"
  by (metis less_irrefl map_of_eq_None_iff)

lemma map_of_del_entry: "ascending xs \<Longrightarrow> map_of (del_entry k xs) = (map_of xs)(k := None)"
proof (induction k xs rule: del_entry.induct)
  case (2 k a b xs)
  then have "map_of xs a = None" by (intro map_of_below) auto
  with 2 show ?case by (auto simp: fun_eq_iff)
qed simp

lemma ascending_Cons_map_of:
  assumes "ascending ((a, b) # xs)"
  shows "map_of xs a = None" and "map_of xs k = Some v \<Longrightarrow> a < k"
proof -
  have below: "\<forall>c \<in> fst ` set xs. a < c" using assms by auto
  then show "map_of xs a = None" by (rule map_of_below)
  show "a < k" if "map_of xs k = Some v"
    using below map_of_SomeD [OF that] by force
qed

lemma ascending_map_of_inject:
  "ascending xs \<Longrightarrow> ascending ys \<Longrightarrow> map_of xs = map_of ys \<Longrightarrow> xs = ys"
proof (induction xs arbitrary: ys)
  case Nil
  then have "map_of ys k = None" for k by (metis map_of.simps(1))
  then show ?case by (cases ys) (metis list.exhaust, metis fst_conv map_of_Cons_code(2) option.distinct(1) surj_pair)
next
  case (Cons x xs)
  obtain a b where x: "x = (a, b)" by (cases x)
  have "map_of ys a = Some b" using Cons.prems(3) x by (metis map_of_Cons_code(2))
  then obtain c d ys' where ys: "ys = (c, d) # ys'"
    by (cases ys) auto
  have ax: "ascending ((a, b) # xs)" and ay: "ascending ((c, d) # ys')"
    using Cons.prems x ys by simp_all
  have eq: "(if a = k then Some b else map_of xs k) = (if c = k then Some d else map_of ys' k)" for k
    using Cons.prems(3) x ys by (metis map_of_Cons_code(2))
  have "a = c"
  proof (rule ccontr)
    assume "a \<noteq> c"
    with eq [of a] eq [of c] have "map_of ys' a = Some b" and "map_of xs c = Some d"
      by (auto split: if_splits)
    then have "c < a" and "a < c"
      by (blast intro: ascending_Cons_map_of(2) ax ay)+
    then show False by (rule less_asym)
  qed
  moreover from eq [of a] \<open>a = c\<close> have "b = d" by simp
  moreover have "map_of xs = map_of ys'"
  proof
    fix k show "map_of xs k = map_of ys' k"
      using eq [of k] \<open>a = c\<close> ascending_Cons_map_of(1) [OF ax] ascending_Cons_map_of(1) [OF ay]
      by (auto split: if_splits)
  qed
  then have "xs = ys'"
    using ax ay by (intro Cons.IH) auto
  ultimately show ?case using x ys by simp
qed

lemma map_of_map_entries: "map_of (map (\<lambda>(k, v). (k, f k v)) xs) k = map_option (f k) (map_of xs k)"
  by (induction xs) auto

section \<open>The type\<close>

typedef (overloaded) ('k, 'v) omap = "{xs :: ('k::linorder \<times> 'v) list. ascending xs}"
  morphisms om_entries OMap
  by (rule exI [of _ "[]"]) simp

setup_lifting type_definition_omap

lift_definition om_empty :: "('k::linorder, 'v) omap" is "[]"
  by simp

lift_definition om_put :: "'k::linorder \<Rightarrow> 'v \<Rightarrow> ('k, 'v) omap \<Rightarrow> ('k, 'v) omap" is ins_entry
  by (rule ascending_ins_entry)

lift_definition om_del :: "'k::linorder \<Rightarrow> ('k, 'v) omap \<Rightarrow> ('k, 'v) omap" is del_entry
  by (rule ascending_del_entry)

lift_definition om_map :: "('k::linorder \<Rightarrow> 'v \<Rightarrow> 'w) \<Rightarrow> ('k, 'v) omap \<Rightarrow> ('k, 'w) omap"
  is "\<lambda>f. map (\<lambda>(k, v). (k, f k v))"
  by (simp add: case_prod_unfold comp_def)

lift_definition om_filter :: "('k::linorder \<Rightarrow> 'v \<Rightarrow> bool) \<Rightarrow> ('k, 'v) omap \<Rightarrow> ('k, 'v) omap"
  is "\<lambda>P. filter (\<lambda>(k, v). P k v)"
  by (simp add: sorted_wrt_map sorted_wrt_filter)

lift_definition om_find :: "('k::linorder, 'v) omap \<Rightarrow> 'k \<Rightarrow> 'v option" is map_of .

definition om_keys :: "('k::linorder, 'v) omap \<Rightarrow> 'k list" where
  "om_keys m = map fst (om_entries m)"

definition om_values :: "('k::linorder, 'v) omap \<Rightarrow> 'v list" where
  "om_values m = map snd (om_entries m)"

definition om_size :: "('k::linorder, 'v) omap \<Rightarrow> nat" where
  "om_size m = length (om_entries m)"

definition om_has :: "('k::linorder, 'v) omap \<Rightarrow> 'k \<Rightarrow> bool" where
  "om_has m k = (om_find m k \<noteq> None)"

type_synonym 'k oset = "('k, unit) omap"

section \<open>Evaluation rules\<close>

lemma om_entries_empty [simp]: "om_entries om_empty = []"
  by transfer simp

lemma om_entries_put [simp]: "om_entries (om_put k v m) = ins_entry k v (om_entries m)"
  by transfer simp

lemma om_entries_del [simp]: "om_entries (om_del k m) = del_entry k (om_entries m)"
  by transfer simp

lemma om_entries_map [simp]: "om_entries (om_map f m) = map (\<lambda>(k, v). (k, f k v)) (om_entries m)"
  by transfer simp

lemma om_entries_filter [simp]: "om_entries (om_filter P m) = filter (\<lambda>(k, v). P k v) (om_entries m)"
  by transfer simp

lemma ascending_entries [simp]: "ascending (om_entries m)"
  using om_entries [of m] by simp

lemma distinct_om_keys [simp]: "distinct (map fst (om_entries m))"
  using ascending_entries [of m] strict_sorted_iff by blast

lemma om_find_empty [simp]: "om_find om_empty k = None"
  by transfer simp

lemma om_find_put [simp]: "om_find (om_put k v m) = (om_find m)(k := Some v)"
  by transfer (rule map_of_ins_entry)

lemma om_find_del [simp]: "om_find (om_del k m) = (om_find m)(k := None)"
  by transfer (rule map_of_del_entry)

lemma om_find_map [simp]: "om_find (om_map f m) k = map_option (f k) (om_find m k)"
  by transfer (simp add: map_of_map_entries)

lemma om_find_eq_map_of: "om_find m = map_of (om_entries m)"
  by transfer simp

lemma om_find_iff: "om_find m k = Some v \<longleftrightarrow> (k, v) \<in> set (om_entries m)"
  by (simp only: om_find_eq_map_of map_of_eq_Some_iff [OF distinct_om_keys])

lemma om_find_filter [simp]:
  "om_find (om_filter P m) k = (case om_find m k of None \<Rightarrow> None | Some v \<Rightarrow> if P k v then Some v else None)"
proof -
  have iff: "om_find (om_filter P m) k = Some v \<longleftrightarrow> om_find m k = Some v \<and> P k v" for v
    unfolding om_find_iff by (subst om_entries_filter) auto
  show ?thesis
  proof (cases "om_find m k")
    case None
    with iff show ?thesis by (metis not_None_eq option.simps(4))
  next
    case (Some v)
    show ?thesis
    proof (cases "P k v")
      case True
      with Some iff show ?thesis by simp
    next
      case False
      with Some iff have "om_find (om_filter P m) k = None" by (metis not_None_eq option.inject)
      with Some False show ?thesis by simp
    qed
  qed
qed

lemma omap_eqI: "(\<And>k. om_find a k = om_find b k) \<Longrightarrow> a = b"
  by (metis ascending_entries ascending_map_of_inject ext om_entries_inject om_find_eq_map_of)

lemma om_put_same: "om_find m k = Some v \<Longrightarrow> om_put k v m = m"
  by (rule omap_eqI) auto

lemma om_put_put [simp]: "om_put k v (om_put k w m) = om_put k v m"
  by (rule omap_eqI) auto

lemma om_del_absent: "om_find m k = None \<Longrightarrow> om_del k m = m"
  by (rule omap_eqI) auto

lemma set_om_keys: "set (om_keys m) = {k. om_find m k \<noteq> None}"
  by (auto simp: om_keys_def om_find_eq_map_of map_of_eq_None_iff)

lemma set_om_keys_dom: "set (om_keys m) = dom (om_find m)"
  by (auto simp: set_om_keys)

lemma om_keys_map [simp]: "om_keys (om_map f m) = om_keys m"
  by (simp add: om_keys_def comp_def case_prod_unfold)

lemma om_size_empty [simp]: "om_size om_empty = 0"
  by (simp add: om_size_def)

lemma om_size_map [simp]: "om_size (om_map f m) = om_size m"
  by (simp add: om_size_def)

lemma length_om_keys [simp]: "length (om_keys m) = om_size m"
  by (simp add: om_keys_def om_size_def)

lemma card_dom_om_find: "card (dom (om_find m)) = om_size m"
  by (metis distinct_card distinct_om_keys length_om_keys om_keys_def set_om_keys_dom)

lemma finite_dom_om_find [simp]: "finite (dom (om_find m))"
  by (metis List.finite_set set_om_keys_dom)

lemma om_size_put:
  "om_size (om_put k v m) = (if om_find m k = None then Suc (om_size m) else om_size m)"
  by (simp add: card_dom_om_find [symmetric] card_insert_if domIff)

lemma om_size_del:
  "om_size (om_del k m) = (if om_find m k = None then om_size m else om_size m - 1)"
  by (simp add: card_dom_om_find [symmetric] domIff)

lemma om_size_del_Suc: "om_find m k = Some v \<Longrightarrow> Suc (om_size (om_del k m)) = om_size m"
proof -
  assume k: "om_find m k = Some v"
  then have "(k, v) \<in> set (om_entries m)" by (simp add: om_find_iff)
  then have "om_size m \<noteq> 0" by (auto simp: om_size_def)
  with k show ?thesis by (simp add: om_size_del)
qed

lemma om_map_cong:
  "(\<And>k v. om_find m k = Some v \<Longrightarrow> f k v = g k v) \<Longrightarrow> om_map f m = om_map g m"
  by (rule omap_eqI) (auto intro: map_option_cong)

lemma om_map_ident: "(\<And>k v. om_find m k = Some v \<Longrightarrow> f k v = v) \<Longrightarrow> om_map f m = m"
proof (rule omap_eqI)
  fix k assume "\<And>k v. om_find m k = Some v \<Longrightarrow> f k v = v"
  then show "om_find (om_map f m) k = om_find m k" by (cases "om_find m k") auto
qed

section \<open>Counting values\<close>

definition om_count :: "('v \<Rightarrow> bool) \<Rightarrow> ('k::linorder, 'v) omap \<Rightarrow> nat" where
  "om_count P m = length (filter P (om_values m))"

lemma om_count_empty [simp]: "om_count P om_empty = 0"
  by (simp add: om_count_def om_values_def)

lemma om_count_card: "om_count P m = card {k. \<exists>v. om_find m k = Some v \<and> P v}"
proof -
  have "om_count P m = length (filter (\<lambda>e. P (snd e)) (om_entries m))"
    by (simp add: om_count_def om_values_def filter_map comp_def)
  also have "\<dots> = length (om_keys (om_filter (\<lambda>_. P) m))"
    by (simp add: om_keys_def case_prod_unfold)
  also have "\<dots> = card (dom (om_find (om_filter (\<lambda>_. P) m)))"
    by (simp add: card_dom_om_find)
  also have "dom (om_find (om_filter (\<lambda>_. P) m)) = {k. \<exists>v. om_find m k = Some v \<and> P v}"
    by (auto split: option.splits if_splits)
  finally show ?thesis .
qed

lemma om_count_le_size: "om_count P m \<le> om_size m"
  by (metis length_filter_le length_map om_count_def om_size_def om_values_def)

lemma om_count_mono: "(\<And>k v. om_find m k = Some v \<Longrightarrow> P v \<Longrightarrow> Q v) \<Longrightarrow> om_count P m \<le> om_count Q m"
  unfolding om_count_card
  by (rule card_mono) (auto intro: finite_subset [OF _ finite_dom_om_find [of m]])

lemma om_count_map: "(\<And>k v. P (f k v) = P v) \<Longrightarrow> om_count P (om_map f m) = om_count P m"
proof -
  assume "\<And>k v. P (f k v) = P v"
  then have "{k. \<exists>v. om_find (om_map f m) k = Some v \<and> P v} = {k. \<exists>v. om_find m k = Some v \<and> P v}"
    by auto
  then show "om_count P (om_map f m) = om_count P m" by (simp only: om_count_card)
qed

lemma om_count_pos: "om_count P m > 0 \<longleftrightarrow> (\<exists>k v. om_find m k = Some v \<and> P v)"
proof -
  have "finite {k. \<exists>v. om_find m k = Some v \<and> P v}"
    by (rule finite_subset [OF _ finite_dom_om_find [of m]]) auto
  then show ?thesis by (auto simp: om_count_card card_gt_0_iff)
qed

lemma om_count_add: "om_count P m + om_count (\<lambda>v. \<not> P v) m = om_size m"
proof -
  have "length (filter P xs) + length (filter (\<lambda>v. \<not> P v) xs) = length xs" for xs :: "'a list"
    by (rule sum_length_filter_compl)
  from this [of "om_values m"] show ?thesis
    by (simp only: om_count_def) (simp add: om_values_def om_size_def)
qed

section \<open>The map interface\<close>

text \<open>
  What the clients of a map rely on, as a locale: the laws of lookup after an insertion and
  after a removal. The client lemmas are the table-with-index facts of the prelude over any two
  maps with these laws.
\<close>

locale finite_map =
  fixes find :: "'m \<Rightarrow> 'k \<Rightarrow> 'v option"
    and put :: "'k \<Rightarrow> 'v \<Rightarrow> 'm \<Rightarrow> 'm"
    and del :: "'k \<Rightarrow> 'm \<Rightarrow> 'm"
  assumes find_put: "find (put k v m) = (find m)(k := Some v)"
    and find_del: "find (del k m) = (find m)(k := None)"
begin

lemma find_put_same: "find (put k v m) k = Some v"
  by (simp add: find_put)

lemma find_put_other: "k' \<noteq> k \<Longrightarrow> find (put k v m) k' = find m k'"
  by (simp add: find_put)

lemma find_del_same: "find (del k m) k = None"
  by (simp add: find_del)

end

locale indexed_table =
  table: finite_map tfind tput tdel + idx: finite_map ifind iput idel
  for tfind :: "'t \<Rightarrow> 'k \<Rightarrow> 'v option" and tput :: "'k \<Rightarrow> 'v \<Rightarrow> 't \<Rightarrow> 't" and tdel :: "'k \<Rightarrow> 't \<Rightarrow> 't"
    and ifind :: "'x \<Rightarrow> 'i \<Rightarrow> 'k option" and iput :: "'i \<Rightarrow> 'k \<Rightarrow> 'x \<Rightarrow> 'x" and idel :: "'i \<Rightarrow> 'x \<Rightarrow> 'x" +
  fixes field :: "'v \<Rightarrow> 'i"
begin

abbreviation agrees :: "'t \<Rightarrow> 'x \<Rightarrow> bool" where
  "agrees t x \<equiv> index_ok field (tfind t) (ifind x)"

lemma agrees_insert:
  "agrees t x \<Longrightarrow> tfind t k = None \<Longrightarrow> ifind x (field v) = None \<Longrightarrow>
   agrees (tput k v t) (iput (field v) k x)"
  by (simp add: table.find_put idx.find_put index_ok_insert_fresh)

lemma agrees_replace:
  "agrees t x \<Longrightarrow> tfind t k = Some w \<Longrightarrow> ifind x (field v) = None \<Longrightarrow>
   agrees (tput k v t) (iput (field v) k (idel (field w) x))"
  by (simp add: table.find_put idx.find_put idx.find_del index_ok_replace)

lemma agrees_modify:
  "agrees t x \<Longrightarrow> tfind t k = Some w \<Longrightarrow> field v = field w \<Longrightarrow> agrees (tput k v t) x"
  by (simp add: table.find_put index_ok_update)

lemma agrees_remove:
  "agrees t x \<Longrightarrow> tfind t k = Some w \<Longrightarrow> agrees (tdel k t) (idel (field w) x)"
  by (simp add: table.find_del idx.find_del index_ok_delete)

end

interpretation om: finite_map om_find om_put om_del
  by unfold_locales simp_all

end
