(* ===== verification/Ids.thy ===== *)
theory Ids
  imports Checked Ordered_Map
begin

text \<open>
  \<open>include/multipath_fabric/ids.hpp\<close> and \<open>src/ids.cpp\<close>: strongly typed identities,
  generations, watermarks and the identity factory.

  \<open>StrongId<Tag>\<close> is \<open>'tag strong_id\<close>, a bounded text under a phantom tag, so identities of
  different domains have different types. The empty text is the default-constructed, invalid
  identity. \<open>Generation<Tag>\<close> is \<open>'tag generation\<close>, a 64-bit counter whose zero is invalid.
\<close>

section \<open>Textual identities\<close>

definition id_char_allowed :: "char \<Rightarrow> bool" where
  "id_char_allowed c =
     (let upper = CHR ''A'' \<le> c \<and> c \<le> CHR ''Z'';
          lower = CHR ''a'' \<le> c \<and> c \<le> CHR ''z'';
          digit = CHR ''0'' \<le> c \<and> c \<le> CHR ''9'';
          punct = c = CHR ''.'' \<or> c = CHR ''_'' \<or> c = CHR ''-'' \<or> c = CHR '':'' \<or> c = CHR ''@'' \<or>
                  c = CHR ''#'' \<or> c = CHR ''+'' \<or> c = CHR ''/''
      in upper \<or> lower \<or> digit \<or> punct)"

definition id_edge_char_allowed :: "char \<Rightarrow> bool" where
  "id_edge_char_allowed c =
     (c \<noteq> CHR ''.'' \<and> c \<noteq> CHR ''-'' \<and> c \<noteq> CHR '':'' \<and> c \<noteq> CHR ''@'' \<and> c \<noteq> CHR ''#'' \<and>
      c \<noteq> CHR ''+'' \<and> c \<noteq> CHR ''/'' \<and> c \<noteq> CHR ''_'')"

datatype 'tag strong_id = StrongId (id_text: string)

definition parse_strong_id :: "nat \<Rightarrow> string \<Rightarrow> 'tag strong_id option" where
  "parse_strong_id max_length text =
     (if text = [] \<or> length text > max_length then None
      else if \<not> list_all id_char_allowed text then None
      else if \<not> id_edge_char_allowed (hd text) \<or> \<not> id_edge_char_allowed (last text) then None
      else Some (StrongId text))"

datatype id_error = IdError string

definition require_strong_id :: "nat \<Rightarrow> string \<Rightarrow> string \<Rightarrow> id_error + 'tag strong_id" where
  "require_strong_id max_length domain_name text =
     (case parse_strong_id max_length text of
        None \<Rightarrow> Inl (IdError (''malformed '' @ domain_name @ '' encoding''))
      | Some parsed \<Rightarrow> Inr parsed)"

definition id_valid :: "'tag strong_id \<Rightarrow> bool" where
  "id_valid i \<longleftrightarrow> length (id_text i) \<noteq> 0"

definition invalid_id :: "'tag strong_id" where
  "invalid_id = StrongId []"

text \<open>The comparison loop of \<open>operator<\<close>: byte-wise, a proper prefix is smaller.\<close>

fun bytes_less :: "string \<Rightarrow> string \<Rightarrow> bool" where
  "bytes_less (x # xs) (y # ys) = (if x \<noteq> y then x < y else bytes_less xs ys)"
| "bytes_less xs ys = (length xs < length ys)"

lemma bytes_less_iff: "bytes_less xs ys \<longleftrightarrow> xs < ys"
proof (induction xs arbitrary: ys)
  case Nil
  then show ?case by (cases ys) auto
next
  case (Cons x xs)
  then show ?case by (cases ys) auto
qed

instantiation strong_id :: (type) linorder
begin

definition less_strong_id :: "'a strong_id \<Rightarrow> 'a strong_id \<Rightarrow> bool" where
  "less_strong_id a b = bytes_less (id_text a) (id_text b)"

definition less_eq_strong_id :: "'a strong_id \<Rightarrow> 'a strong_id \<Rightarrow> bool" where
  "less_eq_strong_id a b = (\<not> bytes_less (id_text b) (id_text a))"

instance
  by standard
    (auto simp: less_strong_id_def less_eq_strong_id_def bytes_less_iff strong_id.expand)

end

lemma less_strong_id_simp [simp]: "StrongId a < StrongId b \<longleftrightarrow> a < b"
  by (simp add: less_strong_id_def bytes_less_iff)

lemma less_eq_strong_id_simp [simp]: "StrongId a \<le> StrongId b \<longleftrightarrow> a \<le> b"
  by (simp add: less_eq_strong_id_def bytes_less_iff not_less)

definition strong_id_hash :: "'tag strong_id \<Rightarrow> u64" where
  "strong_id_hash i =
     foldl (\<lambda>state c. (xor state (of_nat (of_char c))) * 1099511628211) 14695981039346656037 (id_text i)"

lemma parse_strong_id_valid: "parse_strong_id n text = Some i \<Longrightarrow> id_valid i \<and> id_text i = text"
  by (auto simp: parse_strong_id_def id_valid_def split: if_splits)

lemma parse_strong_id_Some_iff:
  "parse_strong_id n text = Some i \<longleftrightarrow>
     i = StrongId text \<and> text \<noteq> [] \<and> length text \<le> n \<and> list_all id_char_allowed text \<and>
     id_edge_char_allowed (hd text) \<and> id_edge_char_allowed (last text)"
  by (auto simp: parse_strong_id_def)

text \<open>
  What an identity object can hold: nothing, or a text the grammar accepts. Parsing gives back
  exactly such an identity.
\<close>

definition id_wf :: "nat \<Rightarrow> 'tag strong_id \<Rightarrow> bool" where
  "id_wf max_length i \<longleftrightarrow> id_text i = [] \<or> parse_strong_id max_length (id_text i) = Some i"

lemma parse_strong_id_wf: "parse_strong_id n text = Some i \<Longrightarrow> id_wf n i"
  by (auto simp: id_wf_def parse_strong_id_Some_iff)

lemma parse_id_text: "id_wf n i \<Longrightarrow> id_valid i \<Longrightarrow> parse_strong_id n (id_text i) = Some i"
  by (auto simp: id_wf_def id_valid_def)

section \<open>Generations\<close>

datatype 'tag generation = Generation (gen_value: u64)

definition gen_from_value :: "u64 \<Rightarrow> 'tag generation option" where
  "gen_from_value value = (if value = 0 then None else Some (Generation value))"

definition gen_first :: "'tag generation" where
  "gen_first = Generation 1"

definition gen_invalid :: "'tag generation" where
  "gen_invalid = Generation 0"

definition gen_valid :: "'tag generation \<Rightarrow> bool" where
  "gen_valid g \<longleftrightarrow> gen_value g \<noteq> 0"

definition gen_next :: "'tag generation \<Rightarrow> 'tag generation option" where
  "gen_next g = (case checked_increment (gen_value g) of None \<Rightarrow> None | Some advanced \<Rightarrow> gen_from_value advanced)"

instantiation generation :: (type) linorder
begin

definition less_generation :: "'a generation \<Rightarrow> 'a generation \<Rightarrow> bool" where
  "less_generation a b = (gen_value a < gen_value b)"

definition less_eq_generation :: "'a generation \<Rightarrow> 'a generation \<Rightarrow> bool" where
  "less_eq_generation a b = (gen_value a \<le> gen_value b)"

instance
  by standard (auto simp: less_generation_def less_eq_generation_def generation.expand)

end

lemma gen_next_Some: "gen_next g = Some h \<Longrightarrow> unat (gen_value h) = Suc (unat (gen_value g))"
  by (auto simp: gen_next_def gen_from_value_def split: option.splits if_splits
      dest: checked_increment_Some)

lemma gen_next_gt: "gen_next g = Some h \<Longrightarrow> g < h"
  by (drule gen_next_Some) (simp add: less_generation_def word_less_nat_alt)

lemma gen_next_valid: "gen_next g = Some h \<Longrightarrow> gen_valid h"
  by (drule gen_next_Some) (auto simp: gen_valid_def)

lemma gen_next_None: "gen_next g = None \<longleftrightarrow> gen_value g = u64_max"
proof (cases "checked_increment (gen_value g)")
  case None
  then show ?thesis by (auto simp: gen_next_def checked_increment_def split: if_splits)
next
  case (Some a)
  then have "a \<noteq> 0" and "gen_value g \<noteq> u64_max"
    by (auto simp: checked_increment_def checked_increment_nonzero dest: checked_increment_nonzero)
  with Some show ?thesis by (simp add: gen_next_def gen_from_value_def)
qed

lemma gen_next_eq: "gen_value g \<noteq> u64_max \<Longrightarrow> gen_next g = Some (Generation (gen_value g + 1))"
  using gen_next_None [of g]
  by (auto simp: gen_next_def gen_from_value_def checked_increment_def split: option.splits if_splits)

lemma gen_first_valid [simp]: "gen_valid gen_first"
  by (simp add: gen_first_def gen_valid_def)

section \<open>Watermarks\<close>

datatype watermark = Watermark (wm_value: u64)

definition wm_initial :: watermark where
  "wm_initial = Watermark 0"

definition wm_next :: "watermark \<Rightarrow> watermark option" where
  "wm_next w = (case checked_increment (wm_value w) of None \<Rightarrow> None | Some advanced \<Rightarrow> Some (Watermark advanced))"

instantiation watermark :: linorder
begin

definition less_watermark :: "watermark \<Rightarrow> watermark \<Rightarrow> bool" where
  "less_watermark a b = (wm_value a < wm_value b)"

definition less_eq_watermark :: "watermark \<Rightarrow> watermark \<Rightarrow> bool" where
  "less_eq_watermark a b = (wm_value a \<le> wm_value b)"

instance
  by standard (auto simp: less_watermark_def less_eq_watermark_def watermark.expand)

end

lemma wm_next_gt: "wm_next w = Some v \<Longrightarrow> w < v"
  by (auto simp: wm_next_def less_watermark_def split: option.splits dest: checked_increment_gt)

lemma wm_next_None: "wm_next w = None \<longleftrightarrow> wm_value w = u64_max"
  by (auto simp: wm_next_def checked_increment_def split: option.splits if_splits)

section \<open>Identity domains\<close>

datatype set_id_tag = MultipathSetIdTag
datatype member_id_tag = MultipathMemberIdTag
datatype path_id_tag = PathIdTag
datatype snapshot_id_tag = SnapshotIdTag
datatype publisher_id_tag = PublisherIdTag
datatype worker_boot_id_tag = WorkerBootIdTag
datatype attempt_id_tag = MutationAttemptIdTag
datatype revalidation_attempt_id_tag = RevalidationAttemptIdTag
datatype fabric_id_tag = FabricIdTag
datatype namespace_tag = MultipathNamespaceTag
datatype set_name_tag = MultipathSetNameTag
datatype session_id_tag = SessionIdTag

type_synonym set_id = "set_id_tag strong_id"
type_synonym member_id = "member_id_tag strong_id"
type_synonym path_id = "path_id_tag strong_id"
type_synonym snapshot_id = "snapshot_id_tag strong_id"
type_synonym publisher_id = "publisher_id_tag strong_id"
type_synonym worker_boot_id = "worker_boot_id_tag strong_id"
type_synonym attempt_id = "attempt_id_tag strong_id"
type_synonym revalidation_attempt_id = "revalidation_attempt_id_tag strong_id"
type_synonym fabric_id = "fabric_id_tag strong_id"
type_synonym namespace_id = "namespace_tag strong_id"
type_synonym set_name = "set_name_tag strong_id"
type_synonym session_id = "session_id_tag strong_id"

definition parse_set_id :: "string \<Rightarrow> set_id option" where
  "parse_set_id = parse_strong_id 96"
definition parse_member_id :: "string \<Rightarrow> member_id option" where
  "parse_member_id = parse_strong_id 128"
definition parse_path_id :: "string \<Rightarrow> path_id option" where
  "parse_path_id = parse_strong_id 128"
definition parse_snapshot_id :: "string \<Rightarrow> snapshot_id option" where
  "parse_snapshot_id = parse_strong_id 96"
definition parse_publisher_id :: "string \<Rightarrow> publisher_id option" where
  "parse_publisher_id = parse_strong_id 64"
definition parse_worker_boot_id :: "string \<Rightarrow> worker_boot_id option" where
  "parse_worker_boot_id = parse_strong_id 64"
definition parse_attempt_id :: "string \<Rightarrow> attempt_id option" where
  "parse_attempt_id = parse_strong_id 64"
definition parse_revalidation_attempt_id :: "string \<Rightarrow> revalidation_attempt_id option" where
  "parse_revalidation_attempt_id = parse_strong_id 64"
definition parse_fabric_id :: "string \<Rightarrow> fabric_id option" where
  "parse_fabric_id = parse_strong_id 64"
definition parse_namespace_id :: "string \<Rightarrow> namespace_id option" where
  "parse_namespace_id = parse_strong_id 64"
definition parse_set_name :: "string \<Rightarrow> set_name option" where
  "parse_set_name = parse_strong_id 64"
definition parse_session_id :: "string \<Rightarrow> session_id option" where
  "parse_session_id = parse_strong_id 64"

datatype set_generation_tag = MultipathSetGenerationTag
datatype member_generation_tag = MultipathMemberGenerationTag
datatype membership_generation_tag = MembershipGenerationTag
datatype authority_generation_tag = MultipathAuthorityGenerationTag
datatype path_authority_generation_tag = PathAuthorityGenerationTag
datatype epoch_tag = CoordinatorEpochTag

type_synonym set_generation = "set_generation_tag generation"
type_synonym member_generation = "member_generation_tag generation"
type_synonym membership_generation = "membership_generation_tag generation"
type_synonym authority_generation = "authority_generation_tag generation"
type_synonym path_authority_generation = "path_authority_generation_tag generation"
type_synonym coordinator_epoch = "epoch_tag generation"

section \<open>The identity factory\<close>

text \<open>
  \<open>f_nonce\<close> is the process nonce, a random hexadecimal string that stays fixed for the life of
  the process; the model takes it as a parameter. The factory functions are \<open>noexcept\<close> and pass
  the composed text through \<open>require\<close>: \<open>require_or_terminate\<close> returns the empty identity where
  the C++ terminates, and \<open>compose_accepted\<close> shows that this never happens.
\<close>

record id_factory =
  f_prefix :: string
  f_nonce :: string
  f_counter :: u64

definition factory_compose :: "id_factory \<Rightarrow> string \<Rightarrow> u64 \<Rightarrow> string" where
  "factory_compose f kind counter =
     f_prefix f @ ''-'' @ kind @ ''-'' @ f_nonce f @ ''-'' @ u64_string counter"

definition require_or_terminate :: "id_error + 'tag strong_id \<Rightarrow> 'tag strong_id" where
  "require_or_terminate r = (case r of Inl _ \<Rightarrow> invalid_id | Inr i \<Rightarrow> i)"

definition next_set_id :: "id_factory \<Rightarrow> set_id \<times> id_factory" where
  "next_set_id f =
     (let value = f_counter f + 1
      in (require_or_terminate (require_strong_id 96 ''MultipathSetId'' (factory_compose f ''set'' value)),
          f\<lparr>f_counter := value\<rparr>))"

definition next_member_id :: "id_factory \<Rightarrow> member_id \<times> id_factory" where
  "next_member_id f =
     (let value = f_counter f + 1
      in (require_or_terminate (require_strong_id 128 ''MultipathMemberId'' (factory_compose f ''mem'' value)),
          f\<lparr>f_counter := value\<rparr>))"

definition next_worker_boot_id :: "id_factory \<Rightarrow> worker_boot_id \<times> id_factory" where
  "next_worker_boot_id f =
     (let value = f_counter f + 1
      in (require_or_terminate (require_strong_id 64 ''WorkerBootId'' (factory_compose f ''boot'' value)),
          f\<lparr>f_counter := value\<rparr>))"

definition next_session_id :: "id_factory \<Rightarrow> session_id \<times> id_factory" where
  "next_session_id f =
     (let value = f_counter f + 1
      in (require_or_terminate (require_strong_id 64 ''SessionId'' (factory_compose f ''sess'' value)),
          f\<lparr>f_counter := value\<rparr>))"

text \<open>
  The engine's factory has the prefix \<open>mpf\<close>, the coordinator's the prefix \<open>sess\<close>; the nonce is \<open>std::hex\<close> of a
  64-bit value.
\<close>

definition hex_char :: "char \<Rightarrow> bool" where
  "hex_char c \<longleftrightarrow> CHR ''0'' \<le> c \<and> c \<le> CHR ''9'' \<or> CHR ''a'' \<le> c \<and> c \<le> CHR ''f''"

definition factory_ok :: "id_factory \<Rightarrow> bool" where
  "factory_ok f \<longleftrightarrow> (f_prefix f = ''mpf'' \<or> f_prefix f = ''sess'') \<and>
     f_nonce f \<noteq> [] \<and> length (f_nonce f) \<le> 16 \<and> list_all hex_char (f_nonce f)"

lemma less_eq_char_code: "c \<le> d \<longleftrightarrow> (of_char c :: nat) \<le> of_char d"
  by (simp add: less_eq_char_def)

lemma hex_char_allowed: "hex_char c \<Longrightarrow> id_char_allowed c"
  by (auto simp: hex_char_def id_char_allowed_def less_eq_char_code Let_def)

lemma digit_char_allowed: "d < 10 \<Longrightarrow> id_char_allowed (digit_char d) \<and> id_edge_char_allowed (digit_char d)"
proof -
  assume "d < 10"
  note r = digit_char_range [OF this]
  have "of_char c \<noteq> (of_char (digit_char d) :: nat) \<Longrightarrow> digit_char d \<noteq> c" for c by auto
  with r show ?thesis
    by (auto simp: id_char_allowed_def id_edge_char_allowed_def less_eq_char_code Let_def)
qed

lemma last_append_digits: "last (xs @ nat_string n) \<in> set (nat_string n)"
  by (simp add: last_append)

lemma length_u64_string: "length (u64_string w) \<le> 20"
proof -
  have "unat w < 10 ^ 20" using unat_u64_lt [of w] by simp
  then show ?thesis unfolding u64_string_def by (rule length_nat_string_le) simp
qed

lemma u64_string_allowed: "c \<in> set (u64_string w) \<Longrightarrow> id_char_allowed c \<and> id_edge_char_allowed c"
  unfolding u64_string_def using nat_string_digits digit_char_allowed by metis

text \<open>Every text the factory composes is accepted by the identity grammar of its domain.\<close>

lemma compose_accepted:
  assumes f: "factory_ok f" and k: "kind \<in> {''set'', ''mem'', ''boot'', ''sess''}" and n: "64 \<le> n"
  shows "parse_strong_id n (factory_compose f kind c) = Some (StrongId (factory_compose f kind c))"
proof -
  let ?t = "factory_compose f kind c"
  have len: "length ?t \<le> n"
    using f k n length_u64_string [of c] by (auto simp: factory_ok_def factory_compose_def)
  have kind: "list_all id_char_allowed kind" and sep: "id_char_allowed CHR ''-''"
    using k by (auto simp: id_char_allowed_def less_eq_char_code)
  have prefix: "list_all id_char_allowed (f_prefix f)" and edge: "id_edge_char_allowed (hd (f_prefix f))" "f_prefix f \<noteq> []"
    using f by (auto simp: factory_ok_def id_char_allowed_def id_edge_char_allowed_def less_eq_char_code)
  have all: "list_all id_char_allowed ?t"
    using f kind sep prefix u64_string_allowed hex_char_allowed
    by (auto simp: factory_ok_def factory_compose_def list_all_iff)
  have first: "id_edge_char_allowed (hd ?t)" using edge by (simp add: factory_compose_def)
  have "last ?t = last (u64_string c)"
    by (simp add: factory_compose_def u64_string_def last_append)
  then have "last ?t \<in> set (u64_string c)" by (simp add: u64_string_def)
  then have "id_edge_char_allowed (last ?t)" using u64_string_allowed by blast
  with len all first show ?thesis
    by (simp add: parse_strong_id_Some_iff) (simp add: factory_compose_def)
qed

lemma compose_inject: "factory_compose f kind c = factory_compose f kind d \<longleftrightarrow> c = d"
  by (simp add: factory_compose_def)

lemma next_set_id_eq:
  "factory_ok f \<Longrightarrow> next_set_id f =
     (StrongId (factory_compose f ''set'' (f_counter f + 1)), f\<lparr>f_counter := f_counter f + 1\<rparr>)"
  by (simp add: next_set_id_def require_strong_id_def require_or_terminate_def compose_accepted Let_def)

lemma next_member_id_eq:
  "factory_ok f \<Longrightarrow> next_member_id f =
     (StrongId (factory_compose f ''mem'' (f_counter f + 1)), f\<lparr>f_counter := f_counter f + 1\<rparr>)"
  by (simp add: next_member_id_def require_strong_id_def require_or_terminate_def compose_accepted Let_def)

lemma next_session_id_eq:
  "factory_ok f \<Longrightarrow> next_session_id f =
     (StrongId (factory_compose f ''sess'' (f_counter f + 1)), f\<lparr>f_counter := f_counter f + 1\<rparr>)"
  by (simp add: next_session_id_def require_strong_id_def require_or_terminate_def compose_accepted Let_def)

lemma compose_counter [simp]: "factory_compose (f\<lparr>f_counter := c\<rparr>) = factory_compose f"
  by (rule ext)+ (simp add: factory_compose_def)

lemma factory_ok_counter [simp]: "factory_ok (f\<lparr>f_counter := c\<rparr>) = factory_ok f"
  by (simp add: factory_ok_def)

text \<open>
  No identity of the given kind with a counter value above the factory's is in use: what makes
  the next identity fresh.
\<close>

definition ids_below :: "id_factory \<Rightarrow> string \<Rightarrow> 'tag strong_id set \<Rightarrow> bool" where
  "ids_below f kind used \<longleftrightarrow> (\<forall>c. StrongId (factory_compose f kind c) \<in> used \<longrightarrow> c \<le> f_counter f)"

lemma ids_below_fresh:
  "ids_below f kind used \<Longrightarrow> f_counter f \<noteq> u64_max \<Longrightarrow> StrongId (factory_compose f kind (f_counter f + 1)) \<notin> used"
  by (metis checked_increment_def checked_increment_gt ids_below_def leD)

lemma counter_le_next: "f_counter f \<noteq> u64_max \<Longrightarrow> f_counter f \<le> f_counter f + 1"
  by (metis checked_increment_def checked_increment_gt less_imp_le)

lemma ids_below_step:
  "ids_below f kind used \<Longrightarrow> f_counter f \<noteq> u64_max \<Longrightarrow> used' \<subseteq> insert (StrongId (factory_compose f kind (f_counter f + 1))) used \<Longrightarrow>
   ids_below (f\<lparr>f_counter := f_counter f + 1\<rparr>) kind used'"
  unfolding ids_below_def using counter_le_next [of f]
  by (auto simp: compose_inject dest!: subsetD)

lemma ids_below_mono: "ids_below f kind used \<Longrightarrow> used' \<subseteq> used \<Longrightarrow> ids_below f kind used'"
  by (auto simp: ids_below_def)

end
