(* ===== verification/Bytes.thy ===== *)
theory Bytes
  imports Ids
begin

unbundle bit_operations_syntax

text \<open>
  \<open>include/multipath_fabric/detail/bytes.hpp\<close> and \<open>src/detail/bytes.cpp\<close>: the FNV checksums,
  the two-lane structural digest, and the little-endian byte writer and reader that every
  persistence record and wire payload goes through.

  A byte buffer is a \<open>u8 list\<close>. The writer and the reader are records passed along; a failed
  write or read leaves the \<open>ok\<close> flag false, as in the code. The lemmas at the end are the codec
  laws: what a writer that did not overflow has appended, and that a reader positioned on these
  bytes gives the value back and stops right after them.
\<close>

section \<open>Bytes and characters\<close>

definition byte_of_char :: "char \<Rightarrow> u8" where
  "byte_of_char c = of_nat (of_char c)"

definition char_of_byte :: "u8 \<Rightarrow> char" where
  "char_of_byte b = char_of (unat b)"

definition string_bytes :: "string \<Rightarrow> u8 list" where
  "string_bytes s = map byte_of_char s"

definition bytes_string :: "u8 list \<Rightarrow> string" where
  "bytes_string bs = map char_of_byte bs"

lemma char_of_byte_of_char [simp]: "char_of_byte (byte_of_char c) = c"
  by (simp add: byte_of_char_def char_of_byte_def unsigned_of_nat take_bit_nat_eq_self)

lemma byte_of_char_of_byte [simp]: "byte_of_char (char_of_byte b) = b"
proof -
  have "unat b mod 256 = unat b" using unat_u8_lt [of b] by simp
  then show ?thesis by (simp add: byte_of_char_def char_of_byte_def of_char_of)
qed

lemma bytes_string_bytes [simp]: "bytes_string (string_bytes s) = s"
  by (simp add: string_bytes_def bytes_string_def comp_def map_idI)

lemma string_bytes_string [simp]: "string_bytes (bytes_string s) = s"
  by (simp add: string_bytes_def bytes_string_def comp_def map_idI)

lemma length_string_bytes [simp]: "length (string_bytes s) = length s"
  by (simp add: string_bytes_def)

lemma length_bytes_string [simp]: "length (bytes_string s) = length s"
  by (simp add: bytes_string_def)

section \<open>Checksums\<close>

definition fnv1a64_offset_basis :: u64 where
  "fnv1a64_offset_basis = 14695981039346656037"

definition fnv1a64_prime :: u64 where
  "fnv1a64_prime = 1099511628211"

definition digest64_offset_basis_b :: u64 where
  "digest64_offset_basis_b = 0x9E3779B97F4A7C15"

definition digest64_prime_b :: u64 where
  "digest64_prime_b = 0x100000001B3"

definition fnv1a64_roll :: "u64 \<Rightarrow> u8 \<Rightarrow> u64" where
  "fnv1a64_roll state byte = (state XOR ucast byte) * fnv1a64_prime"

definition fnv1a64 :: "u64 \<Rightarrow> u8 list \<Rightarrow> u64" where
  "fnv1a64 seed bytes = foldl fnv1a64_roll seed bytes"

definition fnv1a64_string :: "string \<Rightarrow> u64" where
  "fnv1a64_string text = fnv1a64 fnv1a64_offset_basis (string_bytes text)"

definition fnv1a32 :: "u32 \<Rightarrow> u8 list \<Rightarrow> u32" where
  "fnv1a32 seed bytes = foldl (\<lambda>state b. (state XOR ucast b) * 16777619) seed bytes"

lemma fnv1a64_append: "fnv1a64 seed (xs @ ys) = fnv1a64 (fnv1a64 seed xs) ys"
  by (simp add: fnv1a64_def)

section \<open>The 128-bit structural digest\<close>

datatype digest128 = Digest128 (dg_high: u64) (dg_low: u64)

definition hex_digit :: "u64 \<Rightarrow> char" where
  "hex_digit n = ''0123456789abcdef'' ! unat n"

definition lane_hex :: "u64 \<Rightarrow> string" where
  "lane_hex v = map (\<lambda>i. hex_digit (drop_bit (60 - 4 * i) v AND 0xF)) [0..<16]"

definition digest_to_hex :: "digest128 \<Rightarrow> string" where
  "digest_to_hex d = lane_hex (dg_high d) @ lane_hex (dg_low d)"

record digest_builder =
  lane_a :: u64
  lane_b :: u64

definition digest_start :: digest_builder where
  "digest_start = \<lparr>lane_a = fnv1a64_offset_basis, lane_b = digest64_offset_basis_b\<rparr>"

definition rotate_left_13 :: "u64 \<Rightarrow> u64" where
  "rotate_left_13 v = (push_bit 13 v OR drop_bit 51 v)"

definition absorb_byte :: "u8 \<Rightarrow> digest_builder \<Rightarrow> digest_builder" where
  "absorb_byte value d =
     d\<lparr>lane_a := fnv1a64_roll (lane_a d) value,
       lane_b := rotate_left_13 ((lane_b d XOR (ucast value + 0x9E3779B97F4A7C15)) * digest64_prime_b)\<rparr>"

definition le_bytes :: "nat \<Rightarrow> 'a::len word \<Rightarrow> u8 list" where
  "le_bytes n value = map (\<lambda>i. ucast (drop_bit (8 * i) value AND 0xFF)) [0..<n]"

definition absorb_list :: "u8 list \<Rightarrow> digest_builder \<Rightarrow> digest_builder" where
  "absorb_list bs d = fold absorb_byte bs d"

definition absorb_u8 :: "u8 \<Rightarrow> digest_builder \<Rightarrow> digest_builder" where
  "absorb_u8 value = absorb_byte value"

definition absorb_u16 :: "u16 \<Rightarrow> digest_builder \<Rightarrow> digest_builder" where
  "absorb_u16 value = absorb_list (le_bytes 2 value)"

definition absorb_u32 :: "u32 \<Rightarrow> digest_builder \<Rightarrow> digest_builder" where
  "absorb_u32 value = absorb_list (le_bytes 4 value)"

definition absorb_u64 :: "u64 \<Rightarrow> digest_builder \<Rightarrow> digest_builder" where
  "absorb_u64 value = absorb_list (le_bytes 8 value)"

definition absorb_raw :: "u8 list \<Rightarrow> digest_builder \<Rightarrow> digest_builder" where
  "absorb_raw bs d = absorb_list bs (absorb_u64 (of_nat (length bs)) d)"

definition absorb_bytes :: "string \<Rightarrow> digest_builder \<Rightarrow> digest_builder" where
  "absorb_bytes value = absorb_raw (string_bytes value)"

definition absorb_bool :: "bool \<Rightarrow> digest_builder \<Rightarrow> digest_builder" where
  "absorb_bool value = absorb_byte (if value then 1 else 0)"

definition absorb_tagged :: "string \<Rightarrow> string \<Rightarrow> digest_builder \<Rightarrow> digest_builder" where
  "absorb_tagged tag value d = absorb_bytes value (absorb_bytes tag d)"

definition digest_finish :: "digest_builder \<Rightarrow> digest128" where
  "digest_finish d =
     (let high = lane_a d; low = lane_b d;
          high = high XOR drop_bit 33 high;
          high = high * 0xFF51AFD7ED558CCD;
          high = high XOR drop_bit 33 high;
          low = low XOR drop_bit 29 low;
          low = low * 0xC4CEB9FE1A85EC53;
          low = low XOR drop_bit 32 low;
          high = high XOR low
      in Digest128 high low)"

section \<open>The byte writer\<close>

record byte_writer =
  bw_buffer :: "u8 list"
  bw_limit :: nat
  bw_ok :: bool

definition new_writer :: "nat \<Rightarrow> byte_writer" where
  "new_writer limit = \<lparr>bw_buffer = [], bw_limit = limit, bw_ok = True\<rparr>"

definition bw_overflowed :: "byte_writer \<Rightarrow> bool" where
  "bw_overflowed w = (\<not> bw_ok w)"

definition bw_reserve :: "nat \<Rightarrow> byte_writer \<Rightarrow> bool \<times> byte_writer" where
  "bw_reserve count w =
     (if \<not> bw_ok w then (False, w)
      else if count > bw_limit w \<or> length (bw_buffer w) > bw_limit w - count
      then (False, w\<lparr>bw_ok := False\<rparr>)
      else (True, w))"

definition bw_raw :: "u8 list \<Rightarrow> byte_writer \<Rightarrow> byte_writer" where
  "bw_raw bs w =
     (case bw_reserve (length bs) w of
        (False, w') \<Rightarrow> w'
      | (True, w') \<Rightarrow> w'\<lparr>bw_buffer := bw_buffer w' @ bs\<rparr>)"

definition bw_u8 :: "u8 \<Rightarrow> byte_writer \<Rightarrow> byte_writer" where
  "bw_u8 value = bw_raw [value]"

definition bw_u16 :: "u16 \<Rightarrow> byte_writer \<Rightarrow> byte_writer" where
  "bw_u16 value = bw_raw (le_bytes 2 value)"

definition bw_u32 :: "u32 \<Rightarrow> byte_writer \<Rightarrow> byte_writer" where
  "bw_u32 value = bw_raw (le_bytes 4 value)"

definition bw_u64 :: "u64 \<Rightarrow> byte_writer \<Rightarrow> byte_writer" where
  "bw_u64 value = bw_raw (le_bytes 8 value)"

definition bw_boolean :: "bool \<Rightarrow> byte_writer \<Rightarrow> byte_writer" where
  "bw_boolean value = bw_u8 (if value then 1 else 0)"

text \<open>\<open>value.size()\<close> is a \<open>size_t\<close>; the length of a string is below \<open>2^64\<close> in any run.\<close>

definition bw_string :: "nat \<Rightarrow> string \<Rightarrow> byte_writer \<Rightarrow> byte_writer" where
  "bw_string bound value w =
     (if length value > bound then w\<lparr>bw_ok := False\<rparr>
      else case narrow_u32 (of_nat (length value)) of
        None \<Rightarrow> w\<lparr>bw_ok := False\<rparr>
      | Some len \<Rightarrow> bw_raw (string_bytes value) (bw_u32 len w))"

section \<open>The byte reader\<close>

record byte_reader =
  rd_data :: "u8 list"
  rd_offset :: nat
  rd_ok :: bool

definition new_reader :: "u8 list \<Rightarrow> byte_reader" where
  "new_reader data = \<lparr>rd_data = data, rd_offset = 0, rd_ok = True\<rparr>"

definition rd_at_end :: "byte_reader \<Rightarrow> bool" where
  "rd_at_end r \<longleftrightarrow> rd_ok r \<and> rd_offset r = length (rd_data r)"

definition rd_remaining :: "byte_reader \<Rightarrow> nat" where
  "rd_remaining r = (if rd_ok r then length (rd_data r) - rd_offset r else 0)"

definition rd_fail :: "byte_reader \<Rightarrow> byte_reader" where
  "rd_fail r = r\<lparr>rd_ok := False\<rparr>"

definition rd_require :: "nat \<Rightarrow> byte_reader \<Rightarrow> bool \<times> byte_reader" where
  "rd_require count r =
     (if \<not> rd_ok r then (False, r)
      else if count > length (rd_data r) - rd_offset r then (False, r\<lparr>rd_ok := False\<rparr>)
      else (True, r))"

definition le_value :: "nat \<Rightarrow> u8 list \<Rightarrow> 'a::len word" where
  "le_value n bs = foldl (\<lambda>value i. value OR push_bit (8 * i) (ucast (bs ! i))) 0 [0..<n]"

definition rd_word :: "nat \<Rightarrow> byte_reader \<Rightarrow> 'a::len word option \<times> byte_reader" where
  "rd_word n r =
     (case rd_require n r of
        (False, r') \<Rightarrow> (None, r')
      | (True, r') \<Rightarrow> (Some (le_value n (drop (rd_offset r') (rd_data r'))),
                       r'\<lparr>rd_offset := rd_offset r' + n\<rparr>))"

definition rd_u8 :: "byte_reader \<Rightarrow> u8 option \<times> byte_reader" where
  "rd_u8 r =
     (case rd_require 1 r of
        (False, r') \<Rightarrow> (None, r')
      | (True, r') \<Rightarrow> (Some (rd_data r' ! rd_offset r'), r'\<lparr>rd_offset := rd_offset r' + 1\<rparr>))"

definition rd_u16 :: "byte_reader \<Rightarrow> u16 option \<times> byte_reader" where
  "rd_u16 = rd_word 2"

definition rd_u32 :: "byte_reader \<Rightarrow> u32 option \<times> byte_reader" where
  "rd_u32 = rd_word 4"

definition rd_u64 :: "byte_reader \<Rightarrow> u64 option \<times> byte_reader" where
  "rd_u64 = rd_word 8"

definition rd_boolean :: "byte_reader \<Rightarrow> bool option \<times> byte_reader" where
  "rd_boolean r =
     (case rd_u8 r of
        (None, r') \<Rightarrow> (None, r')
      | (Some value, r') \<Rightarrow>
          if value > 1 then (None, r'\<lparr>rd_ok := False\<rparr>) else (Some (value = 1), r'))"

definition rd_raw :: "nat \<Rightarrow> byte_reader \<Rightarrow> u8 list option \<times> byte_reader" where
  "rd_raw count r =
     (case rd_require count r of
        (False, r') \<Rightarrow> (None, r')
      | (True, r') \<Rightarrow> (Some (take count (drop (rd_offset r') (rd_data r'))),
                       r'\<lparr>rd_offset := rd_offset r' + count\<rparr>))"

definition rd_string :: "nat \<Rightarrow> byte_reader \<Rightarrow> string option \<times> byte_reader" where
  "rd_string bound r =
     (case rd_u32 r of
        (None, r') \<Rightarrow> (None, r')
      | (Some len, r') \<Rightarrow>
          if unat len > bound then (None, r'\<lparr>rd_ok := False\<rparr>)
          else case rd_require (unat len) r' of
            (False, r'') \<Rightarrow> (None, r''\<lparr>rd_ok := False\<rparr>)
          | (True, r'') \<Rightarrow>
              (Some (bytes_string (take (unat len) (drop (rd_offset r'') (rd_data r'')))),
               r''\<lparr>rd_offset := rd_offset r'' + unat len\<rparr>))"

section \<open>Little-endian words\<close>

lemma length_le_bytes [simp]: "length (le_bytes n v) = n"
  by (simp add: le_bytes_def)

lemma bit_foldl_or:
  "bit (foldl (\<lambda>a i. a OR f i) z xs) k \<longleftrightarrow> bit z k \<or> (\<exists>i \<in> set xs. bit (f i :: 'a::len word) k)"
  by (induction xs arbitrary: z) (auto simp: bit_or_iff)

lemma bit_le_byte:
  "bit (ucast (drop_bit m v AND 0xFF) :: u8) k \<longleftrightarrow> k < 8 \<and> bit (v :: 'a::len word) (m + k)"
proof -
  have "bit (0xFF :: 'a word) k \<longleftrightarrow> k < 8" if "k < LENGTH('a)"
  proof -
    have "(0xFF :: 'a word) = mask 8" by (simp add: mask_eq_exp_minus_1)
    then have "bit (0xFF :: 'a word) k = bit (mask 8 :: 'a word) k" by (rule arg_cong)
    also have "\<dots> \<longleftrightarrow> k < 8" using that by (simp only: bit_mask_iff) auto
    finally show ?thesis .
  qed
  then show ?thesis
    by (auto simp: bit_and_iff bit_drop_bit_eq bit_ucast_iff dest: bit_imp_le_length)
qed

lemma le_value_le_bytes:
  fixes v :: "'a::len word"
  assumes "LENGTH('a) = 8 * n"
  shows "le_value n (le_bytes n v @ rest) = v"
proof (rule bit_word_eqI)
  fix k assume k: "k < LENGTH('a)"
  have "bit (le_value n (le_bytes n v @ rest) :: 'a word) k \<longleftrightarrow>
        (\<exists>i < n. 8 * i \<le> k \<and> k - 8 * i < 8 \<and> bit v (8 * i + (k - 8 * i)))"
  proof -
    have byte: "bit (ucast ((le_bytes n v @ rest) ! i) :: 'a word) (k - 8 * i) \<longleftrightarrow>
        k - 8 * i < 8 \<and> bit v (8 * i + (k - 8 * i))" if "i < n" for i
    proof -
      have "(le_bytes n v @ rest) ! i = ucast (drop_bit (8 * i) v AND 0xFF)"
        using that by (simp add: le_bytes_def nth_append)
      moreover have "bit (ucast b :: 'a word) (k - 8 * i) \<longleftrightarrow> bit b (k - 8 * i)" for b :: u8
        using k by (auto simp: bit_ucast_iff)
      ultimately show ?thesis by (simp only: bit_le_byte)
    qed
    show ?thesis
      using k by (auto simp: le_value_def bit_foldl_or bit_push_bit_iff byte)
  qed
  also have "\<dots> \<longleftrightarrow> bit v k"
  proof
    assume "bit v k"
    moreover have "k div 8 < n" using k assms by (simp add: less_mult_imp_div_less mult.commute)
    moreover have "8 * (k div 8) \<le> k" and "k - 8 * (k div 8) < 8" by simp_all
    ultimately show "\<exists>i < n. 8 * i \<le> k \<and> k - 8 * i < 8 \<and> bit v (8 * i + (k - 8 * i))"
      by (intro exI [of _ "k div 8"]) simp
  qed auto
  finally show "bit (le_value n (le_bytes n v @ rest) :: 'a word) k = bit v k" .
qed

section \<open>Writer laws\<close>

text \<open>
  \<open>appends f bs\<close>: whenever the step \<open>f\<close> leaves the writer good, the writer was good before and
  exactly the bytes \<open>bs\<close> were appended; the limit is untouched.
\<close>

definition appends :: "(byte_writer \<Rightarrow> byte_writer) \<Rightarrow> u8 list \<Rightarrow> bool" where
  "appends f bs \<longleftrightarrow> (\<forall>w. bw_limit (f w) = bw_limit w \<and>
     (bw_ok (f w) \<longrightarrow> bw_ok w \<and> bw_buffer (f w) = bw_buffer w @ bs))"

lemma bw_raw_eq:
  "bw_raw bs w =
     (if \<not> bw_ok w then w
      else if length bs > bw_limit w \<or> length (bw_buffer w) > bw_limit w - length bs
      then w\<lparr>bw_ok := False\<rparr>
      else w\<lparr>bw_buffer := bw_buffer w @ bs\<rparr>)"
  by (simp add: bw_raw_def bw_reserve_def)

lemma appends_raw: "appends (bw_raw bs) bs"
  by (simp add: appends_def bw_raw_eq)

lemma appends_comp: "appends f bs \<Longrightarrow> appends g cs \<Longrightarrow> appends (\<lambda>w. g (f w)) (bs @ cs)"
  unfolding appends_def by (metis append_assoc)

lemma appends_id: "appends (\<lambda>w. w) []"
  by (simp add: appends_def)

lemma appends_fold:
  "(\<And>x. x \<in> set xs \<Longrightarrow> appends (f x) (g x)) \<Longrightarrow> appends (fold f xs) (concat (map g xs))"
proof (induction xs)
  case Nil
  then show ?case by (simp add: appends_def)
next
  case (Cons x xs)
  then have "appends (\<lambda>w. fold f xs (f x w)) (g x @ concat (map g xs))"
    by (intro appends_comp) auto
  then show ?case by (simp add: comp_def)
qed

lemma appends_u8: "appends (bw_u8 v) [v]"
  unfolding bw_u8_def by (rule appends_raw)

lemma appends_u16: "appends (bw_u16 v) (le_bytes 2 v)"
  unfolding bw_u16_def by (rule appends_raw)

lemma appends_u32: "appends (bw_u32 v) (le_bytes 4 v)"
  unfolding bw_u32_def by (rule appends_raw)

lemma appends_u64: "appends (bw_u64 v) (le_bytes 8 v)"
  unfolding bw_u64_def by (rule appends_raw)

lemma appends_boolean: "appends (bw_boolean b) [if b then 1 else 0]"
  unfolding bw_boolean_def by (rule appends_u8)

definition string_field :: "string \<Rightarrow> u8 list" where
  "string_field s = le_bytes 4 (of_nat (length s) :: u32) @ string_bytes s"

lemma ucast_of_nat_u32: "n < 2 ^ 32 \<Longrightarrow> (ucast (of_nat n :: u64) :: u32) = of_nat n"
  by (simp add: word_unat_eq_iff unsigned_ucast_eq unsigned_of_nat take_bit_nat_eq_self)

lemma appends_string: "length s < 2 ^ 32 \<Longrightarrow> appends (bw_string bound s) (string_field s)"
proof -
  assume len: "length s < 2 ^ 32"
  then have narrow: "narrow_u32 (of_nat (length s)) = Some (of_nat (length s))"
    by (simp only: narrow_u32_Some) (simp add: unsigned_of_nat take_bit_nat_eq_self)
  have "appends (\<lambda>w. bw_raw (string_bytes s) (bw_u32 (of_nat (length s)) w)) (string_field s)"
    unfolding string_field_def by (rule appends_comp [OF appends_u32 appends_raw])
  then show ?thesis
    unfolding appends_def bw_string_def narrow by auto
qed

text \<open>A writer never holds more than its limit.\<close>

lemma bw_raw_bound:
  "length (bw_buffer w) \<le> bw_limit w \<Longrightarrow> length (bw_buffer (bw_raw bs w)) \<le> bw_limit (bw_raw bs w)"
  by (auto simp: bw_raw_eq)

section \<open>Reader laws\<close>

text \<open>\<open>at r bs\<close>: the reader is good and \<open>bs\<close> is what it has left.\<close>

definition reads :: "byte_reader \<Rightarrow> u8 list \<Rightarrow> bool" where
  "reads r bs \<longleftrightarrow> rd_ok r \<and> rd_offset r \<le> length (rd_data r) \<and> drop (rd_offset r) (rd_data r) = bs"

lemma reads_new: "reads (new_reader bs) bs"
  by (simp add: reads_def new_reader_def)

lemma reads_end: "reads r [] \<Longrightarrow> rd_at_end r"
  by (simp add: reads_def rd_at_end_def)

lemma reads_advance:
  "reads r (bs @ rest) \<Longrightarrow> reads (r\<lparr>rd_offset := rd_offset r + length bs\<rparr>) rest"
proof -
  assume r: "reads r (bs @ rest)"
  then have d: "drop (rd_offset r) (rd_data r) = bs @ rest" by (simp add: reads_def)
  then have "length (rd_data r) - rd_offset r = length bs + length rest"
    by (metis length_append length_drop)
  moreover have "drop (length bs + rd_offset r) (rd_data r) = rest"
    using d by (metis append_eq_conv_conj drop_drop)
  ultimately show ?thesis using r by (auto simp: reads_def add.commute)
qed

lemma reads_require: "reads r (bs @ rest) \<Longrightarrow> rd_require (length bs) r = (True, r)"
proof -
  assume r: "reads r (bs @ rest)"
  then have "length (rd_data r) - rd_offset r = length bs + length rest"
    by (metis length_append length_drop reads_def)
  with r show ?thesis by (simp add: rd_require_def reads_def)
qed

text \<open>
  The codec contract: on the bytes written for a value of its domain, the reader gives the value
  back and stops right after them.
\<close>

locale codec =
  fixes enc :: "'a \<Rightarrow> u8 list"
    and dec :: "byte_reader \<Rightarrow> 'a option \<times> byte_reader"
    and dom :: "'a \<Rightarrow> bool"
  assumes dec_enc: "dom x \<Longrightarrow> reads r (enc x @ rest) \<Longrightarrow> \<exists>r'. dec r = (Some x, r') \<and> reads r' rest"
begin

lemma dec_new: "dom x \<Longrightarrow> \<exists>r'. dec (new_reader (enc x)) = (Some x, r') \<and> rd_at_end r'"
  using dec_enc [of x "new_reader (enc x)" "[]"] reads_new [of "enc x"] by (auto intro: reads_end)

lemma enc_prefix_free:
  "dom x \<Longrightarrow> dom y \<Longrightarrow> enc x @ xs = enc y @ ys \<Longrightarrow> x = y \<and> xs = ys"
proof -
  assume x: "dom x" and y: "dom y" and eq: "enc x @ xs = enc y @ ys"
  let ?r = "new_reader (enc x @ xs)"
  have rx: "reads ?r (enc x @ xs)" and ry: "reads ?r (enc y @ ys)"
    using reads_new eq by metis+
  from dec_enc [OF x rx] dec_enc [OF y ry] show ?thesis
    by (auto simp: reads_def)
qed

end

lemma rd_word_le_bytes:
  fixes v :: "'a::len word"
  assumes "LENGTH('a) = 8 * n" and r: "reads r (le_bytes n v @ rest)"
  shows "\<exists>r'. rd_word n r = (Some v, r') \<and> reads r' rest"
proof -
  have req: "rd_require n r = (True, r)" using reads_require [OF r] by simp
  have "drop (rd_offset r) (rd_data r) = le_bytes n v @ rest" using r by (simp add: reads_def)
  then have "rd_word n r = (Some v, r\<lparr>rd_offset := rd_offset r + n\<rparr>)"
    using req le_value_le_bytes [OF assms(1)] by (simp add: rd_word_def)
  moreover have "reads (r\<lparr>rd_offset := rd_offset r + n\<rparr>) rest"
    using reads_advance [OF r] by simp
  ultimately show ?thesis by blast
qed

lemma rd_u8_byte: "reads r ([v] @ rest) \<Longrightarrow> rd_u8 r = (Some v, r\<lparr>rd_offset := rd_offset r + 1\<rparr>)"
proof -
  assume r: "reads r ([v] @ rest)"
  have "rd_require 1 r = (True, r)" using reads_require [OF r] by simp
  moreover have "rd_data r ! rd_offset r = v"
    using r by (auto simp: reads_def) (metis Cons_nth_drop_Suc drop_all leI list.distinct(1) list.inject)
  ultimately show ?thesis by (simp add: rd_u8_def)
qed

interpretation u8_codec: codec "\<lambda>v. [v]" rd_u8 "\<lambda>_. True"
proof
  fix x r rest assume r: "reads r ([x] @ rest)"
  from rd_u8_byte [OF r] reads_advance [OF r]
  show "\<exists>r'. rd_u8 r = (Some x, r') \<and> reads r' rest" by simp
qed

interpretation u16_codec: codec "le_bytes 2" rd_u16 "\<lambda>_. True"
  by unfold_locales (simp add: rd_u16_def rd_word_le_bytes)

interpretation u32_codec: codec "le_bytes 4" rd_u32 "\<lambda>_. True"
  by unfold_locales (simp add: rd_u32_def rd_word_le_bytes)

interpretation u64_codec: codec "le_bytes 8" rd_u64 "\<lambda>_. True"
  by unfold_locales (simp add: rd_u64_def rd_word_le_bytes)

interpretation boolean_codec: codec "\<lambda>b. [if b then 1 else 0]" rd_boolean "\<lambda>_. True"
proof
  fix b r rest assume r: "reads r ([if b then 1 else 0] @ rest)"
  from rd_u8_byte [OF r] reads_advance [OF r]
  show "\<exists>r'. rd_boolean r = (Some b, r') \<and> reads r' rest"
    by (cases b) (simp_all add: rd_boolean_def)
qed

lemma rd_string_field:
  assumes len: "length s \<le> bound" "length s < 2 ^ 32" and r: "reads r (string_field s @ rest)"
  shows "\<exists>r'. rd_string bound r = (Some s, r') \<and> reads r' rest"
proof -
  have un: "unat (of_nat (length s) :: u32) = length s"
    using len(2) by (simp add: unsigned_of_nat take_bit_nat_eq_self)
  obtain r1 where r1: "rd_u32 r = (Some (of_nat (length s)), r1)" "reads r1 (string_bytes s @ rest)"
    using u32_codec.dec_enc [where x = "of_nat (length s)" and r = r and rest = "string_bytes s @ rest"] r
    by (auto simp: string_field_def)
  have req: "rd_require (length s) r1 = (True, r1)"
    using reads_require [OF r1(2)] by simp
  have "take (length s) (drop (rd_offset r1) (rd_data r1)) = string_bytes s"
    using r1(2) by (simp add: reads_def)
  then have "rd_string bound r = (Some s, r1\<lparr>rd_offset := rd_offset r1 + length s\<rparr>)"
    using r1(1) req un len(1) by (simp add: rd_string_def)
  moreover have "reads (r1\<lparr>rd_offset := rd_offset r1 + length s\<rparr>) rest"
    using reads_advance [OF r1(2)] by simp
  ultimately show ?thesis by blast
qed

interpretation string128_codec: codec string_field "rd_string 128" "\<lambda>s. length s \<le> 128"
  by unfold_locales (rule rd_string_field, simp_all)

end
