(* ===== verification/Lifecycle.thy ===== *)
theory Lifecycle
  imports MPF_Prelude
begin

text \<open>
  \<open>include/multipath_fabric/lifecycle.hpp\<close> and \<open>src/lifecycle.cpp\<close>: the lifecycle, event,
  currentness and readiness enumerations, the two transition tables, the derivation of the
  published lifecycle and of the route readiness, and the text and numeric codecs of the
  enumerations.

  A C++ \<open>enum class\<close> is a datatype; \<open>all_...\<close> lists its enumerators in the order of their numeric
  values \<open>1, 2, ...\<close> and \<open>..._raw\<close> is the numeric value. The range checks of the C++ functions
  against casts of numbers outside the enumeration are the \<open>valid_...\<close> and \<open>..._of_raw\<close>
  functions here; a datatype has no such values.
\<close>

section \<open>Numbered enumerations\<close>

text \<open>
  The position of a value in the list of enumerators, and the enumerator at a number: what
  \<open>static_cast\<close> does in each direction for an enumeration whose values are \<open>base, base + 1, ...\<close>.
\<close>

fun enum_index :: "'a list \<Rightarrow> 'a \<Rightarrow> nat" where
  "enum_index [] v = 0"
| "enum_index (x # xs) v = (if x = v then 0 else Suc (enum_index xs v))"

definition enum_raw :: "nat \<Rightarrow> 'a list \<Rightarrow> 'a \<Rightarrow> u8" where
  "enum_raw base xs v = of_nat (base + enum_index xs v)"

definition enum_of_raw :: "nat \<Rightarrow> 'a list \<Rightarrow> u8 \<Rightarrow> 'a option" where
  "enum_of_raw base xs raw =
     (if base \<le> unat raw \<and> unat raw < base + length xs then Some (xs ! (unat raw - base)) else None)"

lemma enum_index_less: "v \<in> set xs \<Longrightarrow> enum_index xs v < length xs"
  by (induction xs) auto

lemma nth_enum_index: "v \<in> set xs \<Longrightarrow> xs ! enum_index xs v = v"
  by (induction xs) auto

lemma enum_index_nth: "distinct xs \<Longrightarrow> i < length xs \<Longrightarrow> enum_index xs (xs ! i) = i"
  by (induction xs arbitrary: i) (auto simp: nth_Cons split: nat.splits)

lemma unat_enum_raw: "v \<in> set xs \<Longrightarrow> base + length xs \<le> 256 \<Longrightarrow> unat (enum_raw base xs v) = base + enum_index xs v"
  using enum_index_less [of v xs] by (simp add: enum_raw_def unsigned_of_nat take_bit_nat_eq_self del: of_nat_add)

lemma enum_of_raw_raw:
  "v \<in> set xs \<Longrightarrow> base + length xs \<le> 256 \<Longrightarrow> enum_of_raw base xs (enum_raw base xs v) = Some v"
  using enum_index_less [of v xs] by (simp add: enum_of_raw_def unat_enum_raw nth_enum_index)

lemma enum_raw_of_raw:
  "distinct xs \<Longrightarrow> enum_of_raw base xs raw = Some v \<Longrightarrow> base + length xs \<le> 256 \<Longrightarrow> enum_raw base xs v = raw"
  by (auto simp: enum_of_raw_def enum_raw_def enum_index_nth word_unat_eq_iff unsigned_of_nat
      take_bit_nat_eq_self split: if_splits simp del: of_nat_add)

lemma find_text:
  "inj_on text (set xs) \<Longrightarrow> v \<in> set xs \<Longrightarrow> List.find (\<lambda>c. text c = text v) xs = Some v"
  by (induction xs) (auto simp: inj_on_def)

section \<open>Set lifecycle\<close>

datatype set_lifecycle =
  SL_DECLARED
| SL_ACTIVE
| SL_DEGRADED
| SL_EXHAUSTED
| SL_ADMIN_DISABLED
| SL_WITHDRAWING
| SL_WITHDRAWN
| SL_SUPERSEDED
| SL_REVOKED
| SL_RETIRED

datatype set_event =
  SE_DECLARE
| SE_PUBLISH
| SE_MEMBER_ADDED
| SE_MEMBER_REMOVED
| SE_MEMBER_REPLACED
| SE_MEMBERSHIP_RECHECK
| SE_MINIMUM_CHANGED
| SE_POLICY_CHANGED
| SE_ADMIN_DISABLED
| SE_ADMIN_ENABLED
| SE_REVALIDATE_SET
| SE_EPOCH_ADVANCE
| SE_BEGIN_WITHDRAW
| SE_COMPLETE_WITHDRAW
| SE_SUPERSEDE
| SE_REVOKE
| SE_RETIRE
| SE_DEPENDENCY_INVALIDATED

datatype set_transition_action =
  SA_REJECT
| SA_STAY
| SA_RECOMPUTE
| SA_BECOME_PUBLISHED
| SA_BECOME_ADMIN_DISABLED
| SA_BECOME_WITHDRAWING
| SA_BECOME_WITHDRAWN
| SA_BECOME_SUPERSEDED
| SA_BECOME_REVOKED
| SA_BECOME_RETIRED

text \<open>
  The columns of \<open>kTable\<close> follow the events 1 to 18; a row is the list of the actions of one
  lifecycle state.
\<close>

definition set_transition_row :: "set_lifecycle \<Rightarrow> set_transition_action list" where
  "set_transition_row state =
     (let R = SA_REJECT; S = SA_STAY; C = SA_RECOMPUTE; P = SA_BECOME_PUBLISHED;
          W = SA_BECOME_WITHDRAWING; D = SA_BECOME_WITHDRAWN; U = SA_BECOME_SUPERSEDED;
          V = SA_BECOME_REVOKED; T = SA_BECOME_RETIRED; X = SA_BECOME_ADMIN_DISABLED
      in case state of
          SL_DECLARED \<Rightarrow> [R, P, S, S, S, S, S, S, S, S, S, S, C, R, U, V, T, S]
        | SL_ACTIVE \<Rightarrow> [R, R, C, C, C, C, C, C, X, C, C, S, W, R, U, V, T, C]
        | SL_DEGRADED \<Rightarrow> [R, R, C, C, C, C, C, C, X, C, C, S, W, R, U, V, T, C]
        | SL_EXHAUSTED \<Rightarrow> [R, R, C, C, C, C, C, C, X, C, C, S, W, R, U, V, T, C]
        | SL_ADMIN_DISABLED \<Rightarrow> [R, R, S, S, S, S, S, S, R, C, S, S, W, R, U, V, T, S]
        | SL_WITHDRAWING \<Rightarrow> [R, R, R, S, R, S, R, R, R, R, R, S, R, D, U, V, T, S]
        | SL_WITHDRAWN \<Rightarrow> [R, R, R, R, R, R, R, R, R, R, R, S, R, R, R, V, T, R]
        | SL_SUPERSEDED \<Rightarrow> [R, R, R, R, R, R, R, R, R, R, R, S, R, R, R, R, T, R]
        | SL_REVOKED \<Rightarrow> [R, R, R, R, R, R, R, R, R, R, R, S, R, R, R, R, T, R]
        | SL_RETIRED \<Rightarrow> [R, R, R, R, R, R, R, R, R, R, R, S, R, R, R, R, R, R])"

definition all_set_events :: "set_event list" where
  "all_set_events =
     [SE_DECLARE, SE_PUBLISH, SE_MEMBER_ADDED, SE_MEMBER_REMOVED, SE_MEMBER_REPLACED, SE_MEMBERSHIP_RECHECK, SE_MINIMUM_CHANGED, SE_POLICY_CHANGED, SE_ADMIN_DISABLED, SE_ADMIN_ENABLED, SE_REVALIDATE_SET, SE_EPOCH_ADVANCE, SE_BEGIN_WITHDRAW, SE_COMPLETE_WITHDRAW, SE_SUPERSEDE, SE_REVOKE, SE_RETIRE, SE_DEPENDENCY_INVALIDATED]"

lemma all_set_events_complete [simp]: "v \<in> set all_set_events"
  by (cases v) (simp_all add: all_set_events_def)

lemma all_set_events_distinct [simp]: "distinct all_set_events"
  by (simp add: all_set_events_def)

fun set_event_text :: "set_event \<Rightarrow> string" where
  "set_event_text SE_DECLARE = ''DECLARE''"
| "set_event_text SE_PUBLISH = ''PUBLISH''"
| "set_event_text SE_MEMBER_ADDED = ''MEMBER_ADDED''"
| "set_event_text SE_MEMBER_REMOVED = ''MEMBER_REMOVED''"
| "set_event_text SE_MEMBER_REPLACED = ''MEMBER_REPLACED''"
| "set_event_text SE_MEMBERSHIP_RECHECK = ''MEMBERSHIP_RECHECK''"
| "set_event_text SE_MINIMUM_CHANGED = ''MINIMUM_CHANGED''"
| "set_event_text SE_POLICY_CHANGED = ''POLICY_CHANGED''"
| "set_event_text SE_ADMIN_DISABLED = ''ADMIN_DISABLED''"
| "set_event_text SE_ADMIN_ENABLED = ''ADMIN_ENABLED''"
| "set_event_text SE_REVALIDATE_SET = ''REVALIDATE_SET''"
| "set_event_text SE_EPOCH_ADVANCE = ''EPOCH_ADVANCE''"
| "set_event_text SE_BEGIN_WITHDRAW = ''BEGIN_WITHDRAW''"
| "set_event_text SE_COMPLETE_WITHDRAW = ''COMPLETE_WITHDRAW''"
| "set_event_text SE_SUPERSEDE = ''SUPERSEDE''"
| "set_event_text SE_REVOKE = ''REVOKE''"
| "set_event_text SE_RETIRE = ''RETIRE''"
| "set_event_text SE_DEPENDENCY_INVALIDATED = ''DEPENDENCY_INVALIDATED''"

definition set_event_raw :: "set_event \<Rightarrow> u8" where
  "set_event_raw = enum_raw 1 all_set_events"

definition valid_set_event :: "u8 \<Rightarrow> bool" where
  "valid_set_event raw \<longleftrightarrow> raw \<ge> 1 \<and> raw \<le> 18"

definition set_event_of_raw :: "u8 \<Rightarrow> set_event option" where
  "set_event_of_raw = enum_of_raw 1 all_set_events"

definition parse_set_event :: "string \<Rightarrow> set_event option" where
  "parse_set_event text = List.find (\<lambda>candidate. set_event_text candidate = text) all_set_events"

definition set_transition :: "set_lifecycle \<Rightarrow> set_event \<Rightarrow> set_transition_action" where
  "set_transition state event = set_transition_row state ! enum_index all_set_events event"

definition all_set_lifecycles :: "set_lifecycle list" where
  "all_set_lifecycles =
     [SL_DECLARED, SL_ACTIVE, SL_DEGRADED, SL_EXHAUSTED, SL_ADMIN_DISABLED, SL_WITHDRAWING, SL_WITHDRAWN, SL_SUPERSEDED, SL_REVOKED, SL_RETIRED]"

lemma all_set_lifecycles_complete [simp]: "v \<in> set all_set_lifecycles"
  by (cases v) (simp_all add: all_set_lifecycles_def)

lemma all_set_lifecycles_distinct [simp]: "distinct all_set_lifecycles"
  by (simp add: all_set_lifecycles_def)

fun set_lifecycle_text :: "set_lifecycle \<Rightarrow> string" where
  "set_lifecycle_text SL_DECLARED = ''DECLARED''"
| "set_lifecycle_text SL_ACTIVE = ''ACTIVE''"
| "set_lifecycle_text SL_DEGRADED = ''DEGRADED''"
| "set_lifecycle_text SL_EXHAUSTED = ''EXHAUSTED''"
| "set_lifecycle_text SL_ADMIN_DISABLED = ''ADMIN_DISABLED''"
| "set_lifecycle_text SL_WITHDRAWING = ''WITHDRAWING''"
| "set_lifecycle_text SL_WITHDRAWN = ''WITHDRAWN''"
| "set_lifecycle_text SL_SUPERSEDED = ''SUPERSEDED''"
| "set_lifecycle_text SL_REVOKED = ''REVOKED''"
| "set_lifecycle_text SL_RETIRED = ''RETIRED''"

definition set_lifecycle_raw :: "set_lifecycle \<Rightarrow> u8" where
  "set_lifecycle_raw = enum_raw 1 all_set_lifecycles"

definition valid_set_lifecycle :: "u8 \<Rightarrow> bool" where
  "valid_set_lifecycle raw \<longleftrightarrow> raw \<ge> 1 \<and> raw \<le> 10"

definition set_lifecycle_of_raw :: "u8 \<Rightarrow> set_lifecycle option" where
  "set_lifecycle_of_raw = enum_of_raw 1 all_set_lifecycles"

definition parse_set_lifecycle :: "string \<Rightarrow> set_lifecycle option" where
  "parse_set_lifecycle text = List.find (\<lambda>candidate. set_lifecycle_text candidate = text) all_set_lifecycles"

fun set_transition_action_text :: "set_transition_action \<Rightarrow> string" where
  "set_transition_action_text SA_REJECT = ''REJECT''"
| "set_transition_action_text SA_STAY = ''STAY''"
| "set_transition_action_text SA_RECOMPUTE = ''RECOMPUTE''"
| "set_transition_action_text SA_BECOME_PUBLISHED = ''BECOME_PUBLISHED''"
| "set_transition_action_text SA_BECOME_ADMIN_DISABLED = ''BECOME_ADMIN_DISABLED''"
| "set_transition_action_text SA_BECOME_WITHDRAWING = ''BECOME_WITHDRAWING''"
| "set_transition_action_text SA_BECOME_WITHDRAWN = ''BECOME_WITHDRAWN''"
| "set_transition_action_text SA_BECOME_SUPERSEDED = ''BECOME_SUPERSEDED''"
| "set_transition_action_text SA_BECOME_REVOKED = ''BECOME_REVOKED''"
| "set_transition_action_text SA_BECOME_RETIRED = ''BECOME_RETIRED''"

definition derive_published_lifecycle :: "nat \<Rightarrow> nat \<Rightarrow> bool \<Rightarrow> set_lifecycle" where
  "derive_published_lifecycle usable_members minimum_usable admin_enabled =
     (if \<not> admin_enabled then SL_ADMIN_DISABLED
      else if usable_members \<ge> minimum_usable then SL_ACTIVE
      else if usable_members \<ge> 1 then SL_DEGRADED
      else SL_EXHAUSTED)"

section \<open>Set currentness\<close>

datatype set_currentness =
  SC_CURRENT
| SC_REVALIDATION_REQUIRED

definition all_set_currentnesses :: "set_currentness list" where
  "all_set_currentnesses =
     [SC_CURRENT, SC_REVALIDATION_REQUIRED]"

lemma all_set_currentnesses_complete [simp]: "v \<in> set all_set_currentnesses"
  by (cases v) (simp_all add: all_set_currentnesses_def)

lemma all_set_currentnesses_distinct [simp]: "distinct all_set_currentnesses"
  by (simp add: all_set_currentnesses_def)

fun set_currentness_text :: "set_currentness \<Rightarrow> string" where
  "set_currentness_text SC_CURRENT = ''CURRENT''"
| "set_currentness_text SC_REVALIDATION_REQUIRED = ''REVALIDATION_REQUIRED''"

definition set_currentness_raw :: "set_currentness \<Rightarrow> u8" where
  "set_currentness_raw = enum_raw 1 all_set_currentnesses"

definition valid_set_currentness :: "u8 \<Rightarrow> bool" where
  "valid_set_currentness raw \<longleftrightarrow> raw \<ge> 1 \<and> raw \<le> 2"

definition set_currentness_of_raw :: "u8 \<Rightarrow> set_currentness option" where
  "set_currentness_of_raw = enum_of_raw 1 all_set_currentnesses"

definition parse_set_currentness :: "string \<Rightarrow> set_currentness option" where
  "parse_set_currentness text = List.find (\<lambda>candidate. set_currentness_text candidate = text) all_set_currentnesses"

section \<open>Member lifecycle\<close>

datatype member_lifecycle =
  ML_PENDING
| ML_CURRENT
| ML_REVALIDATION_REQUIRED
| ML_UNUSABLE
| ML_WITHDRAWN
| ML_SUPERSEDED
| ML_RETIRED

datatype member_event =
  ME_ADMITTED
| ME_INPUTS_USABLE
| ME_INPUTS_STALE_AUTHORITY
| ME_INPUTS_NOT_USABLE
| ME_REVALIDATED_OK
| ME_REVALIDATED_STALE
| ME_WITHDRAW
| ME_SUPERSEDE
| ME_RETIRE

definition member_transition_row :: "member_lifecycle \<Rightarrow> member_lifecycle option list" where
  "member_transition_row state =
     (let N = None; MP = Some ML_PENDING; MC = Some ML_CURRENT; MR = Some ML_REVALIDATION_REQUIRED;
          MU = Some ML_UNUSABLE; MW = Some ML_WITHDRAWN; MS = Some ML_SUPERSEDED; MT = Some ML_RETIRED
      in case state of
          ML_PENDING \<Rightarrow> [MP, MC, MR, MU, MC, MR, MW, MS, MT]
        | ML_CURRENT \<Rightarrow> [N, MC, MR, MU, MC, MR, MW, MS, MT]
        | ML_REVALIDATION_REQUIRED \<Rightarrow> [N, N, MR, MU, MC, MR, MW, MS, MT]
        | ML_UNUSABLE \<Rightarrow> [N, N, MR, MU, MC, MR, MW, MS, MT]
        | ML_WITHDRAWN \<Rightarrow> [N, N, N, N, N, N, N, MS, MT]
        | ML_SUPERSEDED \<Rightarrow> [N, N, N, N, N, N, N, N, MT]
        | ML_RETIRED \<Rightarrow> [N, N, N, N, N, N, N, N, N])"

definition all_member_events :: "member_event list" where
  "all_member_events =
     [ME_ADMITTED, ME_INPUTS_USABLE, ME_INPUTS_STALE_AUTHORITY, ME_INPUTS_NOT_USABLE, ME_REVALIDATED_OK, ME_REVALIDATED_STALE, ME_WITHDRAW, ME_SUPERSEDE, ME_RETIRE]"

lemma all_member_events_complete [simp]: "v \<in> set all_member_events"
  by (cases v) (simp_all add: all_member_events_def)

lemma all_member_events_distinct [simp]: "distinct all_member_events"
  by (simp add: all_member_events_def)

fun member_event_text :: "member_event \<Rightarrow> string" where
  "member_event_text ME_ADMITTED = ''ADMITTED''"
| "member_event_text ME_INPUTS_USABLE = ''INPUTS_USABLE''"
| "member_event_text ME_INPUTS_STALE_AUTHORITY = ''INPUTS_STALE_AUTHORITY''"
| "member_event_text ME_INPUTS_NOT_USABLE = ''INPUTS_NOT_USABLE''"
| "member_event_text ME_REVALIDATED_OK = ''REVALIDATED_OK''"
| "member_event_text ME_REVALIDATED_STALE = ''REVALIDATED_STALE''"
| "member_event_text ME_WITHDRAW = ''WITHDRAW''"
| "member_event_text ME_SUPERSEDE = ''SUPERSEDE''"
| "member_event_text ME_RETIRE = ''RETIRE''"

definition member_event_raw :: "member_event \<Rightarrow> u8" where
  "member_event_raw = enum_raw 1 all_member_events"

definition member_event_of_raw :: "u8 \<Rightarrow> member_event option" where
  "member_event_of_raw = enum_of_raw 1 all_member_events"

definition member_transition :: "member_lifecycle \<Rightarrow> member_event \<Rightarrow> member_lifecycle option" where
  "member_transition state event = member_transition_row state ! enum_index all_member_events event"

definition all_member_lifecycles :: "member_lifecycle list" where
  "all_member_lifecycles =
     [ML_PENDING, ML_CURRENT, ML_REVALIDATION_REQUIRED, ML_UNUSABLE, ML_WITHDRAWN, ML_SUPERSEDED, ML_RETIRED]"

lemma all_member_lifecycles_complete [simp]: "v \<in> set all_member_lifecycles"
  by (cases v) (simp_all add: all_member_lifecycles_def)

lemma all_member_lifecycles_distinct [simp]: "distinct all_member_lifecycles"
  by (simp add: all_member_lifecycles_def)

fun member_lifecycle_text :: "member_lifecycle \<Rightarrow> string" where
  "member_lifecycle_text ML_PENDING = ''PENDING''"
| "member_lifecycle_text ML_CURRENT = ''CURRENT''"
| "member_lifecycle_text ML_REVALIDATION_REQUIRED = ''REVALIDATION_REQUIRED''"
| "member_lifecycle_text ML_UNUSABLE = ''UNUSABLE''"
| "member_lifecycle_text ML_WITHDRAWN = ''WITHDRAWN''"
| "member_lifecycle_text ML_SUPERSEDED = ''SUPERSEDED''"
| "member_lifecycle_text ML_RETIRED = ''RETIRED''"

definition member_lifecycle_raw :: "member_lifecycle \<Rightarrow> u8" where
  "member_lifecycle_raw = enum_raw 1 all_member_lifecycles"

definition valid_member_lifecycle :: "u8 \<Rightarrow> bool" where
  "valid_member_lifecycle raw \<longleftrightarrow> raw \<ge> 1 \<and> raw \<le> 7"

definition member_lifecycle_of_raw :: "u8 \<Rightarrow> member_lifecycle option" where
  "member_lifecycle_of_raw = enum_of_raw 1 all_member_lifecycles"

definition parse_member_lifecycle :: "string \<Rightarrow> member_lifecycle option" where
  "parse_member_lifecycle text = List.find (\<lambda>candidate. member_lifecycle_text candidate = text) all_member_lifecycles"

section \<open>Member currentness\<close>

datatype member_currentness =
  MC_CURRENT
| MC_STALE_PATH_AUTHORITY
| MC_PATH_CONDITIONALLY_NOT_PERMITTED
| MC_PATH_REVALIDATION_REQUIRED
| MC_PATH_REJECTED
| MC_PATH_REVOKED
| MC_PATH_STALE
| MC_PATH_RETIRED
| MC_PATH_AUTHORITY_UNKNOWN
| MC_ADMIN_DISABLED
| MC_SET_NOT_USABLE
| MC_EPOCH_STALE
| MC_AUTHORITY_FENCED
| MC_PENDING_EVALUATION

definition all_member_currentnesses :: "member_currentness list" where
  "all_member_currentnesses =
     [MC_CURRENT, MC_STALE_PATH_AUTHORITY, MC_PATH_CONDITIONALLY_NOT_PERMITTED, MC_PATH_REVALIDATION_REQUIRED, MC_PATH_REJECTED, MC_PATH_REVOKED, MC_PATH_STALE, MC_PATH_RETIRED, MC_PATH_AUTHORITY_UNKNOWN, MC_ADMIN_DISABLED, MC_SET_NOT_USABLE, MC_EPOCH_STALE, MC_AUTHORITY_FENCED, MC_PENDING_EVALUATION]"

lemma all_member_currentnesses_complete [simp]: "v \<in> set all_member_currentnesses"
  by (cases v) (simp_all add: all_member_currentnesses_def)

lemma all_member_currentnesses_distinct [simp]: "distinct all_member_currentnesses"
  by (simp add: all_member_currentnesses_def)

fun member_currentness_text :: "member_currentness \<Rightarrow> string" where
  "member_currentness_text MC_CURRENT = ''CURRENT''"
| "member_currentness_text MC_STALE_PATH_AUTHORITY = ''STALE_PATH_AUTHORITY''"
| "member_currentness_text MC_PATH_CONDITIONALLY_NOT_PERMITTED = ''PATH_CONDITIONALLY_NOT_PERMITTED''"
| "member_currentness_text MC_PATH_REVALIDATION_REQUIRED = ''PATH_REVALIDATION_REQUIRED''"
| "member_currentness_text MC_PATH_REJECTED = ''PATH_REJECTED''"
| "member_currentness_text MC_PATH_REVOKED = ''PATH_REVOKED''"
| "member_currentness_text MC_PATH_STALE = ''PATH_STALE''"
| "member_currentness_text MC_PATH_RETIRED = ''PATH_RETIRED''"
| "member_currentness_text MC_PATH_AUTHORITY_UNKNOWN = ''PATH_AUTHORITY_UNKNOWN''"
| "member_currentness_text MC_ADMIN_DISABLED = ''ADMIN_DISABLED''"
| "member_currentness_text MC_SET_NOT_USABLE = ''SET_NOT_USABLE''"
| "member_currentness_text MC_EPOCH_STALE = ''EPOCH_STALE''"
| "member_currentness_text MC_AUTHORITY_FENCED = ''AUTHORITY_FENCED''"
| "member_currentness_text MC_PENDING_EVALUATION = ''PENDING_EVALUATION''"

definition member_currentness_raw :: "member_currentness \<Rightarrow> u8" where
  "member_currentness_raw = enum_raw 1 all_member_currentnesses"

definition valid_member_currentness :: "u8 \<Rightarrow> bool" where
  "valid_member_currentness raw \<longleftrightarrow> raw \<ge> 1 \<and> raw \<le> 14"

definition member_currentness_of_raw :: "u8 \<Rightarrow> member_currentness option" where
  "member_currentness_of_raw = enum_of_raw 1 all_member_currentnesses"

definition parse_member_currentness :: "string \<Rightarrow> member_currentness option" where
  "parse_member_currentness text = List.find (\<lambda>candidate. member_currentness_text candidate = text) all_member_currentnesses"

definition member_is_usable :: "member_lifecycle \<Rightarrow> member_currentness \<Rightarrow> bool" where
  "member_is_usable lifecycle currentness \<longleftrightarrow> lifecycle = ML_CURRENT \<and> currentness = MC_CURRENT"

section \<open>Route readiness\<close>

datatype route_readiness_value =
  RR_READY
| RR_DEGRADED_BUT_READY
| RR_INSUFFICIENT_MEMBERS
| RR_REVALIDATION_REQUIRED
| RR_NOT_PUBLISHED
| RR_ADMIN_DISABLED
| RR_WITHDRAWN
| RR_SUPERSEDED
| RR_REVOKED
| RR_RETIRED

definition all_route_readiness_values :: "route_readiness_value list" where
  "all_route_readiness_values =
     [RR_READY, RR_DEGRADED_BUT_READY, RR_INSUFFICIENT_MEMBERS, RR_REVALIDATION_REQUIRED, RR_NOT_PUBLISHED, RR_ADMIN_DISABLED, RR_WITHDRAWN, RR_SUPERSEDED, RR_REVOKED, RR_RETIRED]"

lemma all_route_readiness_values_complete [simp]: "v \<in> set all_route_readiness_values"
  by (cases v) (simp_all add: all_route_readiness_values_def)

lemma all_route_readiness_values_distinct [simp]: "distinct all_route_readiness_values"
  by (simp add: all_route_readiness_values_def)

fun route_readiness_value_text :: "route_readiness_value \<Rightarrow> string" where
  "route_readiness_value_text RR_READY = ''READY''"
| "route_readiness_value_text RR_DEGRADED_BUT_READY = ''DEGRADED_BUT_READY''"
| "route_readiness_value_text RR_INSUFFICIENT_MEMBERS = ''INSUFFICIENT_MEMBERS''"
| "route_readiness_value_text RR_REVALIDATION_REQUIRED = ''REVALIDATION_REQUIRED''"
| "route_readiness_value_text RR_NOT_PUBLISHED = ''NOT_PUBLISHED''"
| "route_readiness_value_text RR_ADMIN_DISABLED = ''ADMIN_DISABLED''"
| "route_readiness_value_text RR_WITHDRAWN = ''WITHDRAWN''"
| "route_readiness_value_text RR_SUPERSEDED = ''SUPERSEDED''"
| "route_readiness_value_text RR_REVOKED = ''REVOKED''"
| "route_readiness_value_text RR_RETIRED = ''RETIRED''"

definition route_readiness_value_raw :: "route_readiness_value \<Rightarrow> u8" where
  "route_readiness_value_raw = enum_raw 1 all_route_readiness_values"

definition valid_route_readiness_value :: "u8 \<Rightarrow> bool" where
  "valid_route_readiness_value raw \<longleftrightarrow> raw \<ge> 1 \<and> raw \<le> 10"

definition route_readiness_value_of_raw :: "u8 \<Rightarrow> route_readiness_value option" where
  "route_readiness_value_of_raw = enum_of_raw 1 all_route_readiness_values"

definition parse_route_readiness_value :: "string \<Rightarrow> route_readiness_value option" where
  "parse_route_readiness_value text = List.find (\<lambda>candidate. route_readiness_value_text candidate = text) all_route_readiness_values"

definition route_readiness :: "set_lifecycle \<Rightarrow> set_currentness \<Rightarrow> route_readiness_value" where
  "route_readiness lifecycle currentness =
     (case lifecycle of
        SL_RETIRED \<Rightarrow> RR_RETIRED
      | SL_REVOKED \<Rightarrow> RR_REVOKED
      | SL_SUPERSEDED \<Rightarrow> RR_SUPERSEDED
      | SL_WITHDRAWN \<Rightarrow> RR_WITHDRAWN
      | SL_WITHDRAWING \<Rightarrow> RR_WITHDRAWN
      | SL_DECLARED \<Rightarrow> RR_NOT_PUBLISHED
      | SL_ADMIN_DISABLED \<Rightarrow> RR_ADMIN_DISABLED
      | SL_EXHAUSTED \<Rightarrow> (if currentness = SC_CURRENT then RR_INSUFFICIENT_MEMBERS else RR_REVALIDATION_REQUIRED)
      | SL_DEGRADED \<Rightarrow> (if currentness = SC_CURRENT then RR_DEGRADED_BUT_READY else RR_REVALIDATION_REQUIRED)
      | SL_ACTIVE \<Rightarrow> (if currentness = SC_CURRENT then RR_READY else RR_REVALIDATION_REQUIRED))"

section \<open>Facts about the tables\<close>

text \<open>The lifecycle states that \<open>recompute_locked\<close> derives, and the ones nothing leaves.\<close>

definition derived_lifecycle :: "set_lifecycle \<Rightarrow> bool" where
  "derived_lifecycle l \<longleftrightarrow> l = SL_ACTIVE \<or> l = SL_DEGRADED \<or> l = SL_EXHAUSTED \<or> l = SL_ADMIN_DISABLED"

definition terminal_lifecycle :: "set_lifecycle \<Rightarrow> bool" where
  "terminal_lifecycle l \<longleftrightarrow> l = SL_WITHDRAWN \<or> l = SL_SUPERSEDED \<or> l = SL_REVOKED \<or> l = SL_RETIRED"

definition member_terminal_lifecycle :: "member_lifecycle \<Rightarrow> bool" where
  "member_terminal_lifecycle l \<longleftrightarrow> l = ML_WITHDRAWN \<or> l = ML_SUPERSEDED \<or> l = ML_RETIRED"

lemmas set_table_defs = set_transition_def set_transition_row_def all_set_events_def Let_def
lemmas member_table_defs = member_transition_def member_transition_row_def all_member_events_def Let_def

lemma set_transition_eval [simp]:
  "set_transition SL_DECLARED SE_PUBLISH = SA_BECOME_PUBLISHED"
  "set_transition SL_DECLARED SE_BEGIN_WITHDRAW = SA_RECOMPUTE"
  "set_transition l SE_DECLARE = SA_REJECT"
  "set_transition l SE_EPOCH_ADVANCE = SA_STAY"
  by (cases l; simp add: set_table_defs)+

lemma set_transition_terminal:
  "terminal_lifecycle l \<Longrightarrow>
   set_transition l e = (if e = SE_EPOCH_ADVANCE then SA_STAY
                         else if e = SE_RETIRE \<and> l \<noteq> SL_RETIRED then SA_BECOME_RETIRED
                         else if e = SE_REVOKE \<and> l = SL_WITHDRAWN then SA_BECOME_REVOKED
                         else SA_REJECT)"
  by (cases l; cases e; simp add: set_table_defs terminal_lifecycle_def)

lemma set_transition_published:
  "set_transition l e = SA_BECOME_PUBLISHED \<longleftrightarrow> l = SL_DECLARED \<and> e = SE_PUBLISH"
  by (cases l; cases e; simp add: set_table_defs)

lemma set_transition_recompute:
  "set_transition l e = SA_RECOMPUTE \<Longrightarrow> derived_lifecycle l \<or> l = SL_DECLARED \<and> e = SE_BEGIN_WITHDRAW"
  by (cases l; cases e; simp add: set_table_defs derived_lifecycle_def)

lemma set_transition_admin_disabled:
  "set_transition l e = SA_BECOME_ADMIN_DISABLED \<longleftrightarrow>
     e = SE_ADMIN_DISABLED \<and> (l = SL_ACTIVE \<or> l = SL_DEGRADED \<or> l = SL_EXHAUSTED)"
  by (cases l; cases e; simp add: set_table_defs)

lemma member_transition_terminal:
  "member_terminal_lifecycle l \<Longrightarrow> member_transition l e = Some l' \<Longrightarrow> member_terminal_lifecycle l'"
  by (cases l; cases e; simp add: member_table_defs member_terminal_lifecycle_def)

lemma member_transition_to_current:
  "member_transition l e = Some ML_CURRENT \<Longrightarrow>
     e = ME_REVALIDATED_OK \<or> e = ME_INPUTS_USABLE \<and> (l = ML_PENDING \<or> l = ML_CURRENT)"
  by (cases l; cases e; simp add: member_table_defs)

lemma member_transition_inputs:
  "\<not> member_terminal_lifecycle l \<Longrightarrow> member_transition l ME_INPUTS_NOT_USABLE = Some ML_UNUSABLE"
  "\<not> member_terminal_lifecycle l \<Longrightarrow> member_transition l ME_INPUTS_STALE_AUTHORITY = Some ML_REVALIDATION_REQUIRED"
  "\<not> member_terminal_lifecycle l \<Longrightarrow> member_transition l ME_REVALIDATED_STALE = Some ML_REVALIDATION_REQUIRED"
  "\<not> member_terminal_lifecycle l \<Longrightarrow> member_transition l ME_REVALIDATED_OK = Some ML_CURRENT"
  "member_transition l ME_INPUTS_USABLE = (if l = ML_PENDING \<or> l = ML_CURRENT then Some ML_CURRENT else None)"
  by (cases l; simp add: member_table_defs member_terminal_lifecycle_def)+

lemma derive_published_derived: "derived_lifecycle (derive_published_lifecycle u n a)"
  by (simp add: derive_published_lifecycle_def derived_lifecycle_def)

lemma derived_not_terminal: "derived_lifecycle l \<Longrightarrow> \<not> terminal_lifecycle l"
  by (auto simp: derived_lifecycle_def terminal_lifecycle_def)

lemma route_readiness_ready_iff:
  "route_readiness l c = RR_READY \<longleftrightarrow> l = SL_ACTIVE \<and> c = SC_CURRENT"
  by (cases l; cases c; simp add: route_readiness_def)

text \<open>The text of an enumerator determines it, so parsing inverts rendering.\<close>

lemma set_lifecycle_text_inject: "set_lifecycle_text a = set_lifecycle_text b \<longleftrightarrow> a = b"
  by (cases a; cases b; simp)

lemma set_event_text_inject: "set_event_text a = set_event_text b \<longleftrightarrow> a = b"
  by (cases a; cases b; simp)

lemma member_lifecycle_text_inject: "member_lifecycle_text a = member_lifecycle_text b \<longleftrightarrow> a = b"
  by (cases a; cases b; simp)

lemma member_currentness_text_inject: "member_currentness_text a = member_currentness_text b \<longleftrightarrow> a = b"
  by (cases a; cases b; simp)

lemma set_currentness_text_inject: "set_currentness_text a = set_currentness_text b \<longleftrightarrow> a = b"
  by (cases a; cases b; simp)

lemma route_readiness_value_text_inject: "route_readiness_value_text a = route_readiness_value_text b \<longleftrightarrow> a = b"
  by (cases a; cases b; simp)

lemma parse_set_lifecycle_text: "parse_set_lifecycle (set_lifecycle_text v) = Some v"
  unfolding parse_set_lifecycle_def
  by (rule find_text) (simp_all add: inj_on_def set_lifecycle_text_inject)

lemma parse_set_event_text: "parse_set_event (set_event_text v) = Some v"
  unfolding parse_set_event_def
  by (rule find_text) (simp_all add: inj_on_def set_event_text_inject)

lemma parse_member_lifecycle_text: "parse_member_lifecycle (member_lifecycle_text v) = Some v"
  unfolding parse_member_lifecycle_def
  by (rule find_text) (simp_all add: inj_on_def member_lifecycle_text_inject)

lemma parse_member_currentness_text: "parse_member_currentness (member_currentness_text v) = Some v"
  unfolding parse_member_currentness_def
  by (rule find_text) (simp_all add: inj_on_def member_currentness_text_inject)

lemma parse_set_currentness_text: "parse_set_currentness (set_currentness_text v) = Some v"
  unfolding parse_set_currentness_def
  by (rule find_text) (simp_all add: inj_on_def set_currentness_text_inject)

lemma parse_route_readiness_text: "parse_route_readiness_value (route_readiness_value_text v) = Some v"
  unfolding parse_route_readiness_value_def
  by (rule find_text) (simp_all add: inj_on_def route_readiness_value_text_inject)

lemma set_lifecycle_of_raw_raw: "set_lifecycle_of_raw (set_lifecycle_raw v) = Some v"
  unfolding set_lifecycle_of_raw_def set_lifecycle_raw_def
  by (rule enum_of_raw_raw) (simp_all add: all_set_lifecycles_def, cases v, simp_all)

lemma set_currentness_of_raw_raw: "set_currentness_of_raw (set_currentness_raw v) = Some v"
  unfolding set_currentness_of_raw_def set_currentness_raw_def
  by (rule enum_of_raw_raw) (simp_all add: all_set_currentnesses_def, cases v, simp_all)

lemma member_lifecycle_of_raw_raw: "member_lifecycle_of_raw (member_lifecycle_raw v) = Some v"
  unfolding member_lifecycle_of_raw_def member_lifecycle_raw_def
  by (rule enum_of_raw_raw) (simp_all add: all_member_lifecycles_def, cases v, simp_all)

lemma member_currentness_of_raw_raw: "member_currentness_of_raw (member_currentness_raw v) = Some v"
  unfolding member_currentness_of_raw_def member_currentness_raw_def
  by (rule enum_of_raw_raw) (simp_all add: all_member_currentnesses_def, cases v, simp_all)

lemma valid_set_lifecycle_iff: "valid_set_lifecycle raw \<longleftrightarrow> set_lifecycle_of_raw raw \<noteq> None"
  by (auto simp: valid_set_lifecycle_def set_lifecycle_of_raw_def enum_of_raw_def all_set_lifecycles_def word_le_nat_alt)

lemma valid_member_lifecycle_iff: "valid_member_lifecycle raw \<longleftrightarrow> member_lifecycle_of_raw raw \<noteq> None"
  by (auto simp: valid_member_lifecycle_def member_lifecycle_of_raw_def enum_of_raw_def all_member_lifecycles_def word_le_nat_alt)

lemma valid_member_currentness_iff: "valid_member_currentness raw \<longleftrightarrow> member_currentness_of_raw raw \<noteq> None"
  by (auto simp: valid_member_currentness_def member_currentness_of_raw_def enum_of_raw_def all_member_currentnesses_def word_le_nat_alt)

end
