(* ===== verification/Outcome.thy ===== *)
theory Outcome
  imports Bytes Lifecycle Ids
begin

text \<open>
  \<open>include/multipath_fabric/outcome.hpp\<close> and \<open>src/outcome.cpp\<close>: the outcome codes with their frozen
  numeric values, the rejection stages, the classification of codes by stage, and the outcome
  record that every operation of the engine returns. \<open>std::optional\<close> fields are \<open>option\<close> fields.
\<close>

section \<open>Outcome codes\<close>

datatype (plugins only: code) outcome_code =
  OC_OK
| OC_CREATED
| OC_UPDATED
| OC_IDEMPOTENT
| OC_MEMBER_ADDED
| OC_MEMBER_REMOVED
| OC_MEMBER_REPLACED
| OC_MEMBER_REVALIDATED
| OC_SET_REVALIDATED
| OC_SET_PUBLISHED
| OC_SET_DEGRADED
| OC_SET_EXHAUSTED
| OC_SET_ACTIVE
| OC_SET_WITHDRAWING
| OC_SET_WITHDRAWN
| OC_SET_SUPERSEDED
| OC_SET_REVOKED
| OC_SET_RETIRED
| OC_PUBLISHER_REGISTERED
| OC_PUBLISHER_UNREGISTERED
| OC_WORKER_FENCED
| OC_EPOCH_ADVANCED
| OC_PATH_INVALIDATED
| OC_MEMBER_WITHDRAWN
| OC_RECOVERED
| OC_STORE_SAVED
| OC_MEMBER_REVALIDATION_NEGATIVE
| OC_SET_REVALIDATION_INCOMPLETE
| OC_MALFORMED_REQUEST
| OC_UNAUTHORIZED_CALLER
| OC_UNKNOWN_PUBLISHER
| OC_STALE_EPOCH
| OC_STALE_WORKER
| OC_UNAUTHORIZED_SCOPE
| OC_ATTEMPT_CONFLICT
| OC_SET_NOT_FOUND
| OC_MEMBER_NOT_FOUND
| OC_SET_KEY_CONFLICT
| OC_STALE_SET_GENERATION
| OC_STALE_MEMBER_GENERATION
| OC_INVALID_LIFECYCLE_TRANSITION
| OC_REVOKED
| OC_RETIRED
| OC_WITHDRAWN
| OC_SUPERSEDED
| OC_STALE_PATH_AUTHORITY
| OC_PATH_NOT_USABLE
| OC_DUPLICATE_MEMBER
| OC_INSUFFICIENT_MEMBERS
| OC_RESOURCE_LIMIT
| OC_GENERATION_OVERFLOW
| OC_STALE_REVALIDATION
| OC_REVALIDATION_REQUIRED
| OC_PATH_AUTHORITY_UNKNOWN
| OC_SET_ADMIN_DISABLED
| OC_INVALID_THRESHOLD
| OC_BATCH_ABORTED
| OC_UNSUPPORTED_OPERATION
| OC_FRAMING_ERROR
| OC_INTEGRITY_ERROR
| OC_UNSUPPORTED_WIRE_VERSION
| OC_PROTOCOL_ERROR
| OC_SESSION_TIMEOUT
| OC_SESSION_LIMIT
| OC_STORE_CORRUPT
| OC_STORE_VERSION_UNSUPPORTED
| OC_STORE_IO_ERROR
| OC_STORE_DUPLICATE_SET
| OC_STORE_DUPLICATE_MEMBER
| OC_STORE_DANGLING_MEMBER
| OC_DETACHED_AUTHORITY
| OC_INTERNAL_ERROR

primrec outcome_raw :: "outcome_code \<Rightarrow> u16" where
  "outcome_raw OC_OK = 0"
| "outcome_raw OC_CREATED = 1"
| "outcome_raw OC_UPDATED = 2"
| "outcome_raw OC_IDEMPOTENT = 3"
| "outcome_raw OC_MEMBER_ADDED = 4"
| "outcome_raw OC_MEMBER_REMOVED = 5"
| "outcome_raw OC_MEMBER_REPLACED = 6"
| "outcome_raw OC_MEMBER_REVALIDATED = 7"
| "outcome_raw OC_SET_REVALIDATED = 8"
| "outcome_raw OC_SET_PUBLISHED = 9"
| "outcome_raw OC_SET_DEGRADED = 10"
| "outcome_raw OC_SET_EXHAUSTED = 11"
| "outcome_raw OC_SET_ACTIVE = 12"
| "outcome_raw OC_SET_WITHDRAWING = 13"
| "outcome_raw OC_SET_WITHDRAWN = 14"
| "outcome_raw OC_SET_SUPERSEDED = 15"
| "outcome_raw OC_SET_REVOKED = 16"
| "outcome_raw OC_SET_RETIRED = 17"
| "outcome_raw OC_PUBLISHER_REGISTERED = 18"
| "outcome_raw OC_PUBLISHER_UNREGISTERED = 19"
| "outcome_raw OC_WORKER_FENCED = 20"
| "outcome_raw OC_EPOCH_ADVANCED = 21"
| "outcome_raw OC_PATH_INVALIDATED = 22"
| "outcome_raw OC_MEMBER_WITHDRAWN = 23"
| "outcome_raw OC_RECOVERED = 24"
| "outcome_raw OC_STORE_SAVED = 25"
| "outcome_raw OC_MEMBER_REVALIDATION_NEGATIVE = 26"
| "outcome_raw OC_SET_REVALIDATION_INCOMPLETE = 27"
| "outcome_raw OC_MALFORMED_REQUEST = 100"
| "outcome_raw OC_UNAUTHORIZED_CALLER = 101"
| "outcome_raw OC_UNKNOWN_PUBLISHER = 102"
| "outcome_raw OC_STALE_EPOCH = 103"
| "outcome_raw OC_STALE_WORKER = 104"
| "outcome_raw OC_UNAUTHORIZED_SCOPE = 105"
| "outcome_raw OC_ATTEMPT_CONFLICT = 106"
| "outcome_raw OC_SET_NOT_FOUND = 107"
| "outcome_raw OC_MEMBER_NOT_FOUND = 108"
| "outcome_raw OC_SET_KEY_CONFLICT = 109"
| "outcome_raw OC_STALE_SET_GENERATION = 110"
| "outcome_raw OC_STALE_MEMBER_GENERATION = 111"
| "outcome_raw OC_INVALID_LIFECYCLE_TRANSITION = 112"
| "outcome_raw OC_REVOKED = 113"
| "outcome_raw OC_RETIRED = 114"
| "outcome_raw OC_WITHDRAWN = 115"
| "outcome_raw OC_SUPERSEDED = 116"
| "outcome_raw OC_STALE_PATH_AUTHORITY = 117"
| "outcome_raw OC_PATH_NOT_USABLE = 118"
| "outcome_raw OC_DUPLICATE_MEMBER = 119"
| "outcome_raw OC_INSUFFICIENT_MEMBERS = 120"
| "outcome_raw OC_RESOURCE_LIMIT = 121"
| "outcome_raw OC_GENERATION_OVERFLOW = 122"
| "outcome_raw OC_STALE_REVALIDATION = 123"
| "outcome_raw OC_REVALIDATION_REQUIRED = 124"
| "outcome_raw OC_PATH_AUTHORITY_UNKNOWN = 125"
| "outcome_raw OC_SET_ADMIN_DISABLED = 126"
| "outcome_raw OC_INVALID_THRESHOLD = 127"
| "outcome_raw OC_BATCH_ABORTED = 128"
| "outcome_raw OC_UNSUPPORTED_OPERATION = 129"
| "outcome_raw OC_FRAMING_ERROR = 130"
| "outcome_raw OC_INTEGRITY_ERROR = 131"
| "outcome_raw OC_UNSUPPORTED_WIRE_VERSION = 132"
| "outcome_raw OC_PROTOCOL_ERROR = 133"
| "outcome_raw OC_SESSION_TIMEOUT = 134"
| "outcome_raw OC_SESSION_LIMIT = 135"
| "outcome_raw OC_STORE_CORRUPT = 136"
| "outcome_raw OC_STORE_VERSION_UNSUPPORTED = 137"
| "outcome_raw OC_STORE_IO_ERROR = 138"
| "outcome_raw OC_STORE_DUPLICATE_SET = 139"
| "outcome_raw OC_STORE_DUPLICATE_MEMBER = 140"
| "outcome_raw OC_STORE_DANGLING_MEMBER = 141"
| "outcome_raw OC_DETACHED_AUTHORITY = 142"
| "outcome_raw OC_INTERNAL_ERROR = 143"

primrec outcome_text :: "outcome_code \<Rightarrow> string" where
  "outcome_text OC_OK = ''OK''"
| "outcome_text OC_CREATED = ''CREATED''"
| "outcome_text OC_UPDATED = ''UPDATED''"
| "outcome_text OC_IDEMPOTENT = ''IDEMPOTENT''"
| "outcome_text OC_MEMBER_ADDED = ''MEMBER_ADDED''"
| "outcome_text OC_MEMBER_REMOVED = ''MEMBER_REMOVED''"
| "outcome_text OC_MEMBER_REPLACED = ''MEMBER_REPLACED''"
| "outcome_text OC_MEMBER_REVALIDATED = ''MEMBER_REVALIDATED''"
| "outcome_text OC_SET_REVALIDATED = ''SET_REVALIDATED''"
| "outcome_text OC_SET_PUBLISHED = ''SET_PUBLISHED''"
| "outcome_text OC_SET_DEGRADED = ''SET_DEGRADED''"
| "outcome_text OC_SET_EXHAUSTED = ''SET_EXHAUSTED''"
| "outcome_text OC_SET_ACTIVE = ''SET_ACTIVE''"
| "outcome_text OC_SET_WITHDRAWING = ''SET_WITHDRAWING''"
| "outcome_text OC_SET_WITHDRAWN = ''SET_WITHDRAWN''"
| "outcome_text OC_SET_SUPERSEDED = ''SET_SUPERSEDED''"
| "outcome_text OC_SET_REVOKED = ''SET_REVOKED''"
| "outcome_text OC_SET_RETIRED = ''SET_RETIRED''"
| "outcome_text OC_PUBLISHER_REGISTERED = ''PUBLISHER_REGISTERED''"
| "outcome_text OC_PUBLISHER_UNREGISTERED = ''PUBLISHER_UNREGISTERED''"
| "outcome_text OC_WORKER_FENCED = ''WORKER_FENCED''"
| "outcome_text OC_EPOCH_ADVANCED = ''EPOCH_ADVANCED''"
| "outcome_text OC_PATH_INVALIDATED = ''PATH_INVALIDATED''"
| "outcome_text OC_MEMBER_WITHDRAWN = ''MEMBER_WITHDRAWN''"
| "outcome_text OC_RECOVERED = ''RECOVERED''"
| "outcome_text OC_STORE_SAVED = ''STORE_SAVED''"
| "outcome_text OC_MEMBER_REVALIDATION_NEGATIVE = ''MEMBER_REVALIDATION_NEGATIVE''"
| "outcome_text OC_SET_REVALIDATION_INCOMPLETE = ''SET_REVALIDATION_INCOMPLETE''"
| "outcome_text OC_MALFORMED_REQUEST = ''MALFORMED_REQUEST''"
| "outcome_text OC_UNAUTHORIZED_CALLER = ''UNAUTHORIZED_CALLER''"
| "outcome_text OC_UNKNOWN_PUBLISHER = ''UNKNOWN_PUBLISHER''"
| "outcome_text OC_STALE_EPOCH = ''STALE_EPOCH''"
| "outcome_text OC_STALE_WORKER = ''STALE_WORKER''"
| "outcome_text OC_UNAUTHORIZED_SCOPE = ''UNAUTHORIZED_SCOPE''"
| "outcome_text OC_ATTEMPT_CONFLICT = ''ATTEMPT_CONFLICT''"
| "outcome_text OC_SET_NOT_FOUND = ''SET_NOT_FOUND''"
| "outcome_text OC_MEMBER_NOT_FOUND = ''MEMBER_NOT_FOUND''"
| "outcome_text OC_SET_KEY_CONFLICT = ''SET_KEY_CONFLICT''"
| "outcome_text OC_STALE_SET_GENERATION = ''STALE_SET_GENERATION''"
| "outcome_text OC_STALE_MEMBER_GENERATION = ''STALE_MEMBER_GENERATION''"
| "outcome_text OC_INVALID_LIFECYCLE_TRANSITION = ''INVALID_LIFECYCLE_TRANSITION''"
| "outcome_text OC_REVOKED = ''REVOKED''"
| "outcome_text OC_RETIRED = ''RETIRED''"
| "outcome_text OC_WITHDRAWN = ''WITHDRAWN''"
| "outcome_text OC_SUPERSEDED = ''SUPERSEDED''"
| "outcome_text OC_STALE_PATH_AUTHORITY = ''STALE_PATH_AUTHORITY''"
| "outcome_text OC_PATH_NOT_USABLE = ''PATH_NOT_USABLE''"
| "outcome_text OC_DUPLICATE_MEMBER = ''DUPLICATE_MEMBER''"
| "outcome_text OC_INSUFFICIENT_MEMBERS = ''INSUFFICIENT_MEMBERS''"
| "outcome_text OC_RESOURCE_LIMIT = ''RESOURCE_LIMIT''"
| "outcome_text OC_GENERATION_OVERFLOW = ''GENERATION_OVERFLOW''"
| "outcome_text OC_STALE_REVALIDATION = ''STALE_REVALIDATION''"
| "outcome_text OC_REVALIDATION_REQUIRED = ''REVALIDATION_REQUIRED''"
| "outcome_text OC_PATH_AUTHORITY_UNKNOWN = ''PATH_AUTHORITY_UNKNOWN''"
| "outcome_text OC_SET_ADMIN_DISABLED = ''SET_ADMIN_DISABLED''"
| "outcome_text OC_INVALID_THRESHOLD = ''INVALID_THRESHOLD''"
| "outcome_text OC_BATCH_ABORTED = ''BATCH_ABORTED''"
| "outcome_text OC_UNSUPPORTED_OPERATION = ''UNSUPPORTED_OPERATION''"
| "outcome_text OC_FRAMING_ERROR = ''FRAMING_ERROR''"
| "outcome_text OC_INTEGRITY_ERROR = ''INTEGRITY_ERROR''"
| "outcome_text OC_UNSUPPORTED_WIRE_VERSION = ''UNSUPPORTED_WIRE_VERSION''"
| "outcome_text OC_PROTOCOL_ERROR = ''PROTOCOL_ERROR''"
| "outcome_text OC_SESSION_TIMEOUT = ''SESSION_TIMEOUT''"
| "outcome_text OC_SESSION_LIMIT = ''SESSION_LIMIT''"
| "outcome_text OC_STORE_CORRUPT = ''STORE_CORRUPT''"
| "outcome_text OC_STORE_VERSION_UNSUPPORTED = ''STORE_VERSION_UNSUPPORTED''"
| "outcome_text OC_STORE_IO_ERROR = ''STORE_IO_ERROR''"
| "outcome_text OC_STORE_DUPLICATE_SET = ''STORE_DUPLICATE_SET''"
| "outcome_text OC_STORE_DUPLICATE_MEMBER = ''STORE_DUPLICATE_MEMBER''"
| "outcome_text OC_STORE_DANGLING_MEMBER = ''STORE_DANGLING_MEMBER''"
| "outcome_text OC_DETACHED_AUTHORITY = ''DETACHED_AUTHORITY''"
| "outcome_text OC_INTERNAL_ERROR = ''INTERNAL_ERROR''"

definition all_outcome_codes :: "outcome_code list" where
  "all_outcome_codes =
     [OC_OK, OC_CREATED, OC_UPDATED, OC_IDEMPOTENT,
      OC_MEMBER_ADDED, OC_MEMBER_REMOVED, OC_MEMBER_REPLACED, OC_MEMBER_REVALIDATED,
      OC_SET_REVALIDATED, OC_SET_PUBLISHED, OC_SET_DEGRADED, OC_SET_EXHAUSTED,
      OC_SET_ACTIVE, OC_SET_WITHDRAWING, OC_SET_WITHDRAWN, OC_SET_SUPERSEDED,
      OC_SET_REVOKED, OC_SET_RETIRED, OC_PUBLISHER_REGISTERED, OC_PUBLISHER_UNREGISTERED,
      OC_WORKER_FENCED, OC_EPOCH_ADVANCED, OC_PATH_INVALIDATED, OC_MEMBER_WITHDRAWN,
      OC_RECOVERED, OC_STORE_SAVED, OC_MEMBER_REVALIDATION_NEGATIVE, OC_SET_REVALIDATION_INCOMPLETE,
      OC_MALFORMED_REQUEST, OC_UNAUTHORIZED_CALLER, OC_UNKNOWN_PUBLISHER, OC_STALE_EPOCH,
      OC_STALE_WORKER, OC_UNAUTHORIZED_SCOPE, OC_ATTEMPT_CONFLICT, OC_SET_NOT_FOUND,
      OC_MEMBER_NOT_FOUND, OC_SET_KEY_CONFLICT, OC_STALE_SET_GENERATION, OC_STALE_MEMBER_GENERATION,
      OC_INVALID_LIFECYCLE_TRANSITION, OC_REVOKED, OC_RETIRED, OC_WITHDRAWN,
      OC_SUPERSEDED, OC_STALE_PATH_AUTHORITY, OC_PATH_NOT_USABLE, OC_DUPLICATE_MEMBER,
      OC_INSUFFICIENT_MEMBERS, OC_RESOURCE_LIMIT, OC_GENERATION_OVERFLOW, OC_STALE_REVALIDATION,
      OC_REVALIDATION_REQUIRED, OC_PATH_AUTHORITY_UNKNOWN, OC_SET_ADMIN_DISABLED, OC_INVALID_THRESHOLD,
      OC_BATCH_ABORTED, OC_UNSUPPORTED_OPERATION, OC_FRAMING_ERROR, OC_INTEGRITY_ERROR,
      OC_UNSUPPORTED_WIRE_VERSION, OC_PROTOCOL_ERROR, OC_SESSION_TIMEOUT, OC_SESSION_LIMIT,
      OC_STORE_CORRUPT, OC_STORE_VERSION_UNSUPPORTED, OC_STORE_IO_ERROR, OC_STORE_DUPLICATE_SET,
      OC_STORE_DUPLICATE_MEMBER, OC_STORE_DANGLING_MEMBER, OC_DETACHED_AUTHORITY, OC_INTERNAL_ERROR]"

definition valid_outcome_code :: "u16 \<Rightarrow> bool" where
  "valid_outcome_code raw = (if raw \<le> 27 then True else raw \<ge> 100 \<and> raw \<le> 143)"

definition outcome_of_raw :: "u16 \<Rightarrow> outcome_code option" where
  "outcome_of_raw raw = List.find (\<lambda>c. outcome_raw c = raw) all_outcome_codes"

text \<open>
  \<open>parse_outcome_code\<close> tries the numbers 0 to 200 in turn and skips those that name no code, which
  leaves the enumerators in their numeric order.
\<close>

definition parse_outcome_code :: "string \<Rightarrow> outcome_code option" where
  "parse_outcome_code text = List.find (\<lambda>candidate. outcome_text candidate = text) all_outcome_codes"

definition outcome_is_success :: "outcome_code \<Rightarrow> bool" where
  "outcome_is_success code \<longleftrightarrow> outcome_raw code < 100"

section \<open>Rejection stages\<close>

datatype rejection_stage =
  ST_NONE
| ST_DECODE
| ST_CALLER_IDENTITY
| ST_EPOCH
| ST_WORKER_AUTHORITY
| ST_SCOPE
| ST_ATTEMPT
| ST_SET_STATE
| ST_GENERATION
| ST_PATH_AUTHORITY
| ST_RESOURCE_LIMIT
| ST_SEMANTIC
| ST_COMMIT

definition all_rejection_stages :: "rejection_stage list" where
  "all_rejection_stages =
     [ST_NONE, ST_DECODE, ST_CALLER_IDENTITY, ST_EPOCH, ST_WORKER_AUTHORITY,
      ST_SCOPE, ST_ATTEMPT, ST_SET_STATE, ST_GENERATION, ST_PATH_AUTHORITY,
      ST_RESOURCE_LIMIT, ST_SEMANTIC, ST_COMMIT]"

fun rejection_stage_text :: "rejection_stage \<Rightarrow> string" where
  "rejection_stage_text ST_NONE = ''NONE''"
| "rejection_stage_text ST_DECODE = ''DECODE''"
| "rejection_stage_text ST_CALLER_IDENTITY = ''CALLER_IDENTITY''"
| "rejection_stage_text ST_EPOCH = ''EPOCH''"
| "rejection_stage_text ST_WORKER_AUTHORITY = ''WORKER_AUTHORITY''"
| "rejection_stage_text ST_SCOPE = ''SCOPE''"
| "rejection_stage_text ST_ATTEMPT = ''ATTEMPT''"
| "rejection_stage_text ST_SET_STATE = ''SET_STATE''"
| "rejection_stage_text ST_GENERATION = ''GENERATION''"
| "rejection_stage_text ST_PATH_AUTHORITY = ''PATH_AUTHORITY''"
| "rejection_stage_text ST_RESOURCE_LIMIT = ''RESOURCE_LIMIT''"
| "rejection_stage_text ST_SEMANTIC = ''SEMANTIC''"
| "rejection_stage_text ST_COMMIT = ''COMMIT''"

definition rejection_stage_raw :: "rejection_stage \<Rightarrow> u8" where
  "rejection_stage_raw = enum_raw 0 all_rejection_stages"

primrec stage_of :: "outcome_code \<Rightarrow> rejection_stage" where
  "stage_of OC_OK = ST_NONE"
| "stage_of OC_CREATED = ST_NONE"
| "stage_of OC_UPDATED = ST_NONE"
| "stage_of OC_IDEMPOTENT = ST_NONE"
| "stage_of OC_MEMBER_ADDED = ST_NONE"
| "stage_of OC_MEMBER_REMOVED = ST_NONE"
| "stage_of OC_MEMBER_REPLACED = ST_NONE"
| "stage_of OC_MEMBER_REVALIDATED = ST_NONE"
| "stage_of OC_SET_REVALIDATED = ST_NONE"
| "stage_of OC_SET_PUBLISHED = ST_NONE"
| "stage_of OC_SET_DEGRADED = ST_NONE"
| "stage_of OC_SET_EXHAUSTED = ST_NONE"
| "stage_of OC_SET_ACTIVE = ST_NONE"
| "stage_of OC_SET_WITHDRAWING = ST_NONE"
| "stage_of OC_SET_WITHDRAWN = ST_NONE"
| "stage_of OC_SET_SUPERSEDED = ST_NONE"
| "stage_of OC_SET_REVOKED = ST_NONE"
| "stage_of OC_SET_RETIRED = ST_NONE"
| "stage_of OC_PUBLISHER_REGISTERED = ST_NONE"
| "stage_of OC_PUBLISHER_UNREGISTERED = ST_NONE"
| "stage_of OC_WORKER_FENCED = ST_NONE"
| "stage_of OC_EPOCH_ADVANCED = ST_NONE"
| "stage_of OC_PATH_INVALIDATED = ST_NONE"
| "stage_of OC_MEMBER_WITHDRAWN = ST_NONE"
| "stage_of OC_RECOVERED = ST_NONE"
| "stage_of OC_STORE_SAVED = ST_NONE"
| "stage_of OC_MEMBER_REVALIDATION_NEGATIVE = ST_NONE"
| "stage_of OC_SET_REVALIDATION_INCOMPLETE = ST_NONE"
| "stage_of OC_MALFORMED_REQUEST = ST_DECODE"
| "stage_of OC_UNAUTHORIZED_CALLER = ST_CALLER_IDENTITY"
| "stage_of OC_UNKNOWN_PUBLISHER = ST_WORKER_AUTHORITY"
| "stage_of OC_STALE_EPOCH = ST_EPOCH"
| "stage_of OC_STALE_WORKER = ST_WORKER_AUTHORITY"
| "stage_of OC_UNAUTHORIZED_SCOPE = ST_SCOPE"
| "stage_of OC_ATTEMPT_CONFLICT = ST_ATTEMPT"
| "stage_of OC_SET_NOT_FOUND = ST_SET_STATE"
| "stage_of OC_MEMBER_NOT_FOUND = ST_SET_STATE"
| "stage_of OC_SET_KEY_CONFLICT = ST_SET_STATE"
| "stage_of OC_STALE_SET_GENERATION = ST_GENERATION"
| "stage_of OC_STALE_MEMBER_GENERATION = ST_GENERATION"
| "stage_of OC_INVALID_LIFECYCLE_TRANSITION = ST_SET_STATE"
| "stage_of OC_REVOKED = ST_SET_STATE"
| "stage_of OC_RETIRED = ST_SET_STATE"
| "stage_of OC_WITHDRAWN = ST_SET_STATE"
| "stage_of OC_SUPERSEDED = ST_SET_STATE"
| "stage_of OC_STALE_PATH_AUTHORITY = ST_PATH_AUTHORITY"
| "stage_of OC_PATH_NOT_USABLE = ST_PATH_AUTHORITY"
| "stage_of OC_DUPLICATE_MEMBER = ST_SEMANTIC"
| "stage_of OC_INSUFFICIENT_MEMBERS = ST_SEMANTIC"
| "stage_of OC_RESOURCE_LIMIT = ST_RESOURCE_LIMIT"
| "stage_of OC_GENERATION_OVERFLOW = ST_GENERATION"
| "stage_of OC_STALE_REVALIDATION = ST_PATH_AUTHORITY"
| "stage_of OC_REVALIDATION_REQUIRED = ST_SEMANTIC"
| "stage_of OC_PATH_AUTHORITY_UNKNOWN = ST_PATH_AUTHORITY"
| "stage_of OC_SET_ADMIN_DISABLED = ST_SEMANTIC"
| "stage_of OC_INVALID_THRESHOLD = ST_SEMANTIC"
| "stage_of OC_BATCH_ABORTED = ST_SEMANTIC"
| "stage_of OC_UNSUPPORTED_OPERATION = ST_SEMANTIC"
| "stage_of OC_FRAMING_ERROR = ST_DECODE"
| "stage_of OC_INTEGRITY_ERROR = ST_DECODE"
| "stage_of OC_UNSUPPORTED_WIRE_VERSION = ST_DECODE"
| "stage_of OC_PROTOCOL_ERROR = ST_DECODE"
| "stage_of OC_SESSION_TIMEOUT = ST_DECODE"
| "stage_of OC_SESSION_LIMIT = ST_RESOURCE_LIMIT"
| "stage_of OC_STORE_CORRUPT = ST_COMMIT"
| "stage_of OC_STORE_VERSION_UNSUPPORTED = ST_COMMIT"
| "stage_of OC_STORE_IO_ERROR = ST_COMMIT"
| "stage_of OC_STORE_DUPLICATE_SET = ST_COMMIT"
| "stage_of OC_STORE_DUPLICATE_MEMBER = ST_COMMIT"
| "stage_of OC_STORE_DANGLING_MEMBER = ST_COMMIT"
| "stage_of OC_DETACHED_AUTHORITY = ST_WORKER_AUTHORITY"
| "stage_of OC_INTERNAL_ERROR = ST_COMMIT"

section \<open>The outcome record\<close>

record fabric_outcome =
  o_code :: outcome_code
  o_stage :: rejection_stage
  o_detail :: string
  o_set_id :: "set_id option"
  o_member_id :: "member_id option"
  o_path_id :: "path_id option"
  o_set_generation :: "set_generation option"
  o_membership_generation :: "membership_generation option"
  o_member_generation :: "member_generation option"
  o_authority_generation :: "authority_generation option"
  o_lifecycle :: "set_lifecycle option"
  o_currentness :: "set_currentness option"
  o_usable_members :: "nat option"
  o_minimum_usable_members :: "nat option"
  o_digest :: "digest128 option"

definition make_outcome :: "outcome_code \<Rightarrow> string \<Rightarrow> fabric_outcome" where
  "make_outcome code detail =
     \<lparr>o_code = code,
      o_stage = (if outcome_is_success code then ST_NONE else stage_of code),
      o_detail = detail,
      o_set_id = None, o_member_id = None, o_path_id = None, o_set_generation = None,
      o_membership_generation = None, o_member_generation = None, o_authority_generation = None,
      o_lifecycle = None, o_currentness = None, o_usable_members = None,
      o_minimum_usable_members = None, o_digest = None\<rparr>"

definition make_rejection :: "outcome_code \<Rightarrow> string \<Rightarrow> fabric_outcome" where
  "make_rejection code detail = make_outcome code detail"

definition succeeded :: "fabric_outcome \<Rightarrow> bool" where
  "succeeded outcome = outcome_is_success (o_code outcome)"

text \<open>One \<open>if (field.has_value()) stream << ...\<close> of \<open>render\<close>.\<close>

definition render_opt :: "string \<Rightarrow> ('a \<Rightarrow> string) \<Rightarrow> 'a option \<Rightarrow> string" where
  "render_opt label f v = (case v of None \<Rightarrow> [] | Some x \<Rightarrow> label @ f x)"

definition gen_text :: "'tag generation \<Rightarrow> string" where
  "gen_text g = u64_string (gen_value g)"

definition outcome_render :: "fabric_outcome \<Rightarrow> string" where
  "outcome_render outcome =
     outcome_text (o_code outcome) @
     (if outcome_is_success (o_code outcome) then [] else '' stage='' @ rejection_stage_text (o_stage outcome)) @
     render_opt '' set='' id_text (o_set_id outcome) @
     render_opt '' member='' id_text (o_member_id outcome) @
     render_opt '' path='' id_text (o_path_id outcome) @
     render_opt '' set_gen='' gen_text (o_set_generation outcome) @
     render_opt '' membership_gen='' gen_text (o_membership_generation outcome) @
     render_opt '' member_gen='' gen_text (o_member_generation outcome) @
     render_opt '' authority_gen='' gen_text (o_authority_generation outcome) @
     render_opt '' lifecycle='' set_lifecycle_text (o_lifecycle outcome) @
     render_opt '' currentness='' set_currentness_text (o_currentness outcome) @
     render_opt '' usable='' nat_string (o_usable_members outcome) @
     render_opt '' minimum='' nat_string (o_minimum_usable_members outcome) @
     render_opt '' digest='' digest_to_hex (o_digest outcome) @
     (if o_detail outcome = [] then [] else '' detail='' @ [CHR 0x22] @ o_detail outcome @ [CHR 0x22])"

section \<open>Facts about outcomes\<close>

lemma all_outcome_codes_complete [simp]: "c \<in> set all_outcome_codes"
  by (cases c; simp add: all_outcome_codes_def)

lemma outcome_raw_range: "outcome_raw c \<le> 27 \<or> 100 \<le> outcome_raw c \<and> outcome_raw c \<le> 143"
  by (cases c; simp)

lemma outcome_code_table:
  "map outcome_raw all_outcome_codes = map of_nat ([0..<28] @ [100..<144])"
  by code_simp

lemma outcome_raw_inject: "outcome_raw a = outcome_raw b \<longleftrightarrow> a = b"
proof -
  have "distinct (map outcome_raw all_outcome_codes)" by code_simp
  then have "inj_on outcome_raw (set all_outcome_codes)" by (simp only: distinct_map)
  then show ?thesis by (auto simp: inj_on_def)
qed

lemma outcome_text_inject: "outcome_text a = outcome_text b \<longleftrightarrow> a = b"
proof -
  have "distinct (map outcome_text all_outcome_codes)" by code_simp
  then have "inj_on outcome_text (set all_outcome_codes)" by (simp only: distinct_map)
  then show ?thesis by (auto simp: inj_on_def)
qed

lemma parse_outcome_code_text: "parse_outcome_code (outcome_text c) = Some c"
  unfolding parse_outcome_code_def
  by (rule find_text) (simp_all add: inj_on_def outcome_text_inject)

lemma outcome_of_raw_raw: "outcome_of_raw (outcome_raw c) = Some c"
  unfolding outcome_of_raw_def
  by (rule find_text) (simp_all add: inj_on_def outcome_raw_inject)

lemma stage_of_success: "outcome_is_success c \<Longrightarrow> stage_of c = ST_NONE"
  by (cases c; simp add: outcome_is_success_def)

lemma stage_of_rejection: "\<not> outcome_is_success c \<Longrightarrow> stage_of c \<noteq> ST_NONE"
  by (cases c; simp add: outcome_is_success_def)

lemma make_outcome_simps [simp]:
  "o_code (make_outcome c d) = c"
  "o_stage (make_outcome c d) = stage_of c"
  "o_detail (make_outcome c d) = d"
  "o_set_id (make_outcome c d) = None"
  "o_set_generation (make_outcome c d) = None"
  "o_lifecycle (make_outcome c d) = None"
  "o_currentness (make_outcome c d) = None"
  by (simp_all add: make_outcome_def stage_of_success)

lemma make_rejection_simps [simp]:
  "o_code (make_rejection c d) = c"
  "o_stage (make_rejection c d) = stage_of c"
  by (simp_all add: make_rejection_def)

end
