(* ===== verification/Authority.thy ===== *)
theory Authority
  imports Outcome
begin

text \<open>
  \<open>include/multipath_fabric/authority.hpp\<close> and \<open>src/authority.cpp\<close>: authority scopes, publisher
  registrations, fences, revocation records, membership provenance and the mutation context that
  binds every mutation to an epoch, a publisher, a worker boot, a session and an attempt.
\<close>

section \<open>Authority scope\<close>

record authority_scope =
  sc_fabric :: fabric_id
  sc_name_space :: namespace_id
  sc_set_ids :: "set_id list"

definition scope_well_formed :: "authority_scope \<Rightarrow> bool" where
  "scope_well_formed sc \<longleftrightarrow> id_valid (sc_fabric sc) \<and> id_valid (sc_name_space sc)"

definition covers_namespace :: "authority_scope \<Rightarrow> fabric_id \<Rightarrow> namespace_id \<Rightarrow> bool" where
  "covers_namespace sc fabric name_space =
     (if \<not> scope_well_formed sc then False
      else if sc_set_ids sc \<noteq> [] then False
      else sc_fabric sc = fabric \<and> sc_name_space sc = name_space)"

definition covers :: "authority_scope \<Rightarrow> fabric_id \<Rightarrow> namespace_id \<Rightarrow> set_id \<Rightarrow> bool" where
  "covers sc fabric name_space set_id =
     (if \<not> scope_well_formed sc \<or> \<not> id_valid set_id then False
      else if \<not> (sc_fabric sc = fabric) \<or> \<not> (sc_name_space sc = name_space) then False
      else if sc_set_ids sc = [] then True
      else set_id \<in> set (sc_set_ids sc))"

definition covers_all_in_scope :: "authority_scope \<Rightarrow> bool" where
  "covers_all_in_scope sc \<longleftrightarrow> sc_set_ids sc = []"

definition id_or_unset :: "'tag strong_id \<Rightarrow> string" where
  "id_or_unset i = (if id_valid i then id_text i else ''<unset>'')"

fun comma_separated :: "string list \<Rightarrow> string" where
  "comma_separated [] = []"
| "comma_separated [x] = x"
| "comma_separated (x # y # zs) = x @ '','' @ comma_separated (y # zs)"

definition scope_render :: "authority_scope \<Rightarrow> string" where
  "scope_render sc =
     id_or_unset (sc_fabric sc) @ ''/'' @ id_or_unset (sc_name_space sc) @
     (if sc_set_ids sc = [] then '' sets=*''
      else '' sets='' @ comma_separated (map id_text (sort (sc_set_ids sc))))"

section \<open>Registrations and fences\<close>

record publisher_registration =
  pr_publisher :: publisher_id
  pr_worker_boot :: worker_boot_id
  pr_scope :: authority_scope
  pr_epoch :: coordinator_epoch
  pr_authority_generation :: authority_generation
  pr_session :: session_id

definition registration_render :: "publisher_registration \<Rightarrow> string" where
  "registration_render r =
     ''publisher='' @ id_text (pr_publisher r) @ '' boot='' @ id_text (pr_worker_boot r) @
     '' epoch='' @ gen_text (pr_epoch r) @ '' authority_gen='' @ gen_text (pr_authority_generation r) @
     '' session='' @ id_text (pr_session r) @ '' scope='' @ scope_render (pr_scope r)"

record fence_record =
  fr_publisher :: publisher_id
  fr_worker_boot :: worker_boot_id
  fr_epoch :: coordinator_epoch
  fr_cause :: string

definition fence_render :: "fence_record \<Rightarrow> string" where
  "fence_render f =
     ''publisher='' @ id_text (fr_publisher f) @ '' boot='' @ id_text (fr_worker_boot f) @
     '' epoch='' @ gen_text (fr_epoch f) @ '' cause='' @ fr_cause f"

section \<open>Revocation\<close>

datatype revocation_reason =
  RVR_ADMINISTRATIVE
| RVR_SECURITY
| RVR_POLICY_VIOLATION
| RVR_AUTHORITY_REVOKED
| RVR_OPERATOR_REQUEST

definition all_revocation_reasons :: "revocation_reason list" where
  "all_revocation_reasons =
     [RVR_ADMINISTRATIVE, RVR_SECURITY, RVR_POLICY_VIOLATION,
      RVR_AUTHORITY_REVOKED, RVR_OPERATOR_REQUEST]"

fun revocation_reason_text :: "revocation_reason \<Rightarrow> string" where
  "revocation_reason_text RVR_ADMINISTRATIVE = ''ADMINISTRATIVE''"
| "revocation_reason_text RVR_SECURITY = ''SECURITY''"
| "revocation_reason_text RVR_POLICY_VIOLATION = ''POLICY_VIOLATION''"
| "revocation_reason_text RVR_AUTHORITY_REVOKED = ''AUTHORITY_REVOKED''"
| "revocation_reason_text RVR_OPERATOR_REQUEST = ''OPERATOR_REQUEST''"

definition revocation_reason_raw :: "revocation_reason \<Rightarrow> u8" where
  "revocation_reason_raw = enum_raw 1 all_revocation_reasons"

definition revocation_reason_of_raw :: "u8 \<Rightarrow> revocation_reason option" where
  "revocation_reason_of_raw = enum_of_raw 1 all_revocation_reasons"

definition valid_revocation_reason :: "u8 \<Rightarrow> bool" where
  "valid_revocation_reason raw \<longleftrightarrow> raw \<ge> 1 \<and> raw \<le> 5"

definition parse_revocation_reason :: "string \<Rightarrow> revocation_reason option" where
  "parse_revocation_reason text =
     List.find (\<lambda>candidate. revocation_reason_text candidate = text) all_revocation_reasons"

record revocation_record =
  rv_set_id :: set_id
  rv_generation :: set_generation
  rv_authority_generation :: authority_generation
  rv_epoch :: coordinator_epoch
  rv_publisher :: publisher_id
  rv_reason :: revocation_reason
  rv_detail :: string

definition revocation_render :: "revocation_record \<Rightarrow> string" where
  "revocation_render r =
     ''set='' @ id_text (rv_set_id r) @ '' generation='' @ gen_text (rv_generation r) @
     '' authority_gen='' @ gen_text (rv_authority_generation r) @ '' epoch='' @ gen_text (rv_epoch r) @
     '' publisher='' @ id_text (rv_publisher r) @ '' reason='' @ revocation_reason_text (rv_reason r) @
     (if rv_detail r = [] then [] else '' detail='' @ [CHR 0x22] @ rv_detail r @ [CHR 0x22])"

section \<open>Provenance\<close>

datatype membership_cause =
  CA_DECLARED
| CA_MEMBER_ADDED
| CA_MEMBER_REVALIDATED
| CA_MEMBER_REPLACED
| CA_MEMBER_REMOVED
| CA_PATH_INVALIDATED
| CA_MINIMUM_CHANGED
| CA_POLICY_CHANGED
| CA_ADMIN_ENABLED
| CA_ADMIN_DISABLED
| CA_SET_PUBLISHED
| CA_SET_REVALIDATED
| CA_SET_WITHDRAWN
| CA_SET_SUPERSEDED
| CA_SET_REVOKED
| CA_SET_RETIRED
| CA_EPOCH_ADVANCE
| CA_RECOVERED

definition all_membership_causes :: "membership_cause list" where
  "all_membership_causes =
     [CA_DECLARED, CA_MEMBER_ADDED, CA_MEMBER_REVALIDATED,
      CA_MEMBER_REPLACED, CA_MEMBER_REMOVED, CA_PATH_INVALIDATED,
      CA_MINIMUM_CHANGED, CA_POLICY_CHANGED, CA_ADMIN_ENABLED,
      CA_ADMIN_DISABLED, CA_SET_PUBLISHED, CA_SET_REVALIDATED,
      CA_SET_WITHDRAWN, CA_SET_SUPERSEDED, CA_SET_REVOKED,
      CA_SET_RETIRED, CA_EPOCH_ADVANCE, CA_RECOVERED]"

fun membership_cause_text :: "membership_cause \<Rightarrow> string" where
  "membership_cause_text CA_DECLARED = ''DECLARED''"
| "membership_cause_text CA_MEMBER_ADDED = ''MEMBER_ADDED''"
| "membership_cause_text CA_MEMBER_REVALIDATED = ''MEMBER_REVALIDATED''"
| "membership_cause_text CA_MEMBER_REPLACED = ''MEMBER_REPLACED''"
| "membership_cause_text CA_MEMBER_REMOVED = ''MEMBER_REMOVED''"
| "membership_cause_text CA_PATH_INVALIDATED = ''PATH_INVALIDATED''"
| "membership_cause_text CA_MINIMUM_CHANGED = ''MINIMUM_CHANGED''"
| "membership_cause_text CA_POLICY_CHANGED = ''POLICY_CHANGED''"
| "membership_cause_text CA_ADMIN_ENABLED = ''ADMIN_ENABLED''"
| "membership_cause_text CA_ADMIN_DISABLED = ''ADMIN_DISABLED''"
| "membership_cause_text CA_SET_PUBLISHED = ''SET_PUBLISHED''"
| "membership_cause_text CA_SET_REVALIDATED = ''SET_REVALIDATED''"
| "membership_cause_text CA_SET_WITHDRAWN = ''SET_WITHDRAWN''"
| "membership_cause_text CA_SET_SUPERSEDED = ''SET_SUPERSEDED''"
| "membership_cause_text CA_SET_REVOKED = ''SET_REVOKED''"
| "membership_cause_text CA_SET_RETIRED = ''SET_RETIRED''"
| "membership_cause_text CA_EPOCH_ADVANCE = ''EPOCH_ADVANCE''"
| "membership_cause_text CA_RECOVERED = ''RECOVERED''"

definition membership_cause_raw :: "membership_cause \<Rightarrow> u8" where
  "membership_cause_raw = enum_raw 1 all_membership_causes"

definition membership_cause_of_raw :: "u8 \<Rightarrow> membership_cause option" where
  "membership_cause_of_raw = enum_of_raw 1 all_membership_causes"

definition valid_membership_cause :: "u8 \<Rightarrow> bool" where
  "valid_membership_cause raw \<longleftrightarrow> raw \<ge> 1 \<and> raw \<le> 18"

record membership_provenance =
  pv_publisher :: publisher_id
  pv_worker_boot :: worker_boot_id
  pv_epoch :: coordinator_epoch
  pv_attempt :: attempt_id
  pv_set_generation :: set_generation
  pv_cause :: membership_cause

definition provenance_render :: "membership_provenance \<Rightarrow> string" where
  "provenance_render p =
     ''publisher='' @ id_text (pv_publisher p) @ '' boot='' @ id_text (pv_worker_boot p) @
     '' epoch='' @ gen_text (pv_epoch p) @ '' attempt='' @ id_text (pv_attempt p) @
     '' set_gen='' @ gen_text (pv_set_generation p) @ '' cause='' @ membership_cause_text (pv_cause p)"

section \<open>Mutation context\<close>

record mutation_context =
  cx_epoch :: coordinator_epoch
  cx_publisher :: publisher_id
  cx_worker_boot :: worker_boot_id
  cx_session :: session_id
  cx_attempt :: attempt_id
  cx_expected_set_generation :: "set_generation option"
  cx_expected_member_generation :: "member_generation option"

definition has_caller_identity :: "mutation_context \<Rightarrow> bool" where
  "has_caller_identity c \<longleftrightarrow>
     gen_valid (cx_epoch c) \<and> id_valid (cx_publisher c) \<and> id_valid (cx_worker_boot c) \<and>
     id_valid (cx_session c) \<and> id_valid (cx_attempt c)"

definition context_render :: "mutation_context \<Rightarrow> string" where
  "context_render c =
     ''epoch='' @ (if gen_valid (cx_epoch c) then gen_text (cx_epoch c) else ''<unset>'') @
     '' publisher='' @ id_or_unset (cx_publisher c) @
     '' boot='' @ id_or_unset (cx_worker_boot c) @
     '' session='' @ id_or_unset (cx_session c) @
     '' attempt='' @ id_or_unset (cx_attempt c) @
     render_opt '' expected_set_gen='' gen_text (cx_expected_set_generation c) @
     render_opt '' expected_member_gen='' gen_text (cx_expected_member_generation c)"

record authority_description =
  ad_epoch :: coordinator_epoch
  ad_authority_generation :: authority_generation
  ad_registrations :: "publisher_registration list"
  ad_fence_records :: "fence_record list"

definition description_render :: "authority_description \<Rightarrow> string" where
  "description_render d =
     ''epoch='' @ gen_text (ad_epoch d) @ '' authority_gen='' @ gen_text (ad_authority_generation d) @
     '' registrations='' @ nat_string (length (ad_registrations d)) @
     '' fences='' @ nat_string (length (ad_fence_records d)) @
     concat (map (\<lambda>r. [CHR 0x0A] @ ''  registration '' @ registration_render r) (ad_registrations d)) @
     concat (map (\<lambda>f. [CHR 0x0A] @ ''  fence '' @ fence_render f) (ad_fence_records d))"

section \<open>Facts\<close>

lemma all_revocation_reasons_complete [simp]: "v \<in> set all_revocation_reasons"
  by (cases v) (simp_all add: all_revocation_reasons_def)

lemma all_revocation_reasons_distinct [simp]: "distinct all_revocation_reasons"
  by (simp add: all_revocation_reasons_def)

lemma revocation_reason_text_inject: "revocation_reason_text a = revocation_reason_text b \<longleftrightarrow> a = b"
  by (cases a; cases b; simp)

lemma revocation_reason_of_raw_raw: "revocation_reason_of_raw (revocation_reason_raw v) = Some v"
  unfolding revocation_reason_of_raw_def revocation_reason_raw_def
  by (rule enum_of_raw_raw) (simp_all add: all_revocation_reasons_def, cases v, simp_all)

lemma valid_revocation_reason_iff: "valid_revocation_reason raw \<longleftrightarrow> revocation_reason_of_raw raw \<noteq> None"
  by (auto simp: valid_revocation_reason_def revocation_reason_of_raw_def enum_of_raw_def all_revocation_reasons_def word_le_nat_alt)

lemma all_membership_causes_complete [simp]: "v \<in> set all_membership_causes"
  by (cases v) (simp_all add: all_membership_causes_def)

lemma all_membership_causes_distinct [simp]: "distinct all_membership_causes"
  by (simp add: all_membership_causes_def)

lemma membership_cause_text_inject: "membership_cause_text a = membership_cause_text b \<longleftrightarrow> a = b"
  by (cases a; cases b; simp)

lemma membership_cause_of_raw_raw: "membership_cause_of_raw (membership_cause_raw v) = Some v"
  unfolding membership_cause_of_raw_def membership_cause_raw_def
  by (rule enum_of_raw_raw) (simp_all add: all_membership_causes_def, cases v, simp_all)

lemma valid_membership_cause_iff: "valid_membership_cause raw \<longleftrightarrow> membership_cause_of_raw raw \<noteq> None"
  by (auto simp: valid_membership_cause_def membership_cause_of_raw_def enum_of_raw_def all_membership_causes_def word_le_nat_alt)

lemma parse_revocation_reason_text: "parse_revocation_reason (revocation_reason_text v) = Some v"
  unfolding parse_revocation_reason_def
  by (rule find_text) (simp_all add: inj_on_def revocation_reason_text_inject)

lemma covers_iff:
  "covers sc fabric name_space set_id \<longleftrightarrow>
     scope_well_formed sc \<and> id_valid set_id \<and> sc_fabric sc = fabric \<and> sc_name_space sc = name_space \<and>
     (sc_set_ids sc = [] \<or> set_id \<in> set (sc_set_ids sc))"
  by (auto simp: covers_def)

text \<open>Authority over the namespace is authority over each of its sets, never the other way round.\<close>

lemma covers_namespace_covers:
  "covers_namespace sc fabric name_space \<Longrightarrow> id_valid set_id \<Longrightarrow> covers sc fabric name_space set_id"
  by (simp add: covers_namespace_def covers_iff split: if_splits)

end
