(* ===== verification/Path_Authority.thy ===== *)
theory Path_Authority
  imports Ids Lifecycle
begin

text \<open>
  \<open>include/multipath_fabric/path_authority.hpp\<close> and \<open>src/path_authority.cpp\<close>: the view of the
  external Path Authority that the engine consumes, the reference directory of such views, and
  the classification of the inputs of a member.

  Another source than the directory is code outside this repository; it is a lookup function
  passed to the operations. The locale \<open>authority_source\<close> is the interface \<open>PathAuthoritySource\<close>:
  a view that a lookup returns is the view of the exact path asked for.
\<close>

section \<open>States and views\<close>

datatype path_authority_state =
  PA_AUTHORIZED
| PA_CONDITIONALLY_AUTHORIZED
| PA_REVALIDATION_REQUIRED
| PA_REJECTED
| PA_REVOKED
| PA_STALE
| PA_RETIRED

definition all_path_authority_states :: "path_authority_state list" where
  "all_path_authority_states =
     [PA_AUTHORIZED, PA_CONDITIONALLY_AUTHORIZED, PA_REVALIDATION_REQUIRED,
      PA_REJECTED, PA_REVOKED, PA_STALE,
      PA_RETIRED]"

fun path_authority_state_text :: "path_authority_state \<Rightarrow> string" where
  "path_authority_state_text PA_AUTHORIZED = ''AUTHORIZED''"
| "path_authority_state_text PA_CONDITIONALLY_AUTHORIZED = ''CONDITIONALLY_AUTHORIZED''"
| "path_authority_state_text PA_REVALIDATION_REQUIRED = ''REVALIDATION_REQUIRED''"
| "path_authority_state_text PA_REJECTED = ''REJECTED''"
| "path_authority_state_text PA_REVOKED = ''REVOKED''"
| "path_authority_state_text PA_STALE = ''STALE''"
| "path_authority_state_text PA_RETIRED = ''RETIRED''"

definition path_authority_state_raw :: "path_authority_state \<Rightarrow> u8" where
  "path_authority_state_raw = enum_raw 1 all_path_authority_states"

definition path_authority_state_of_raw :: "u8 \<Rightarrow> path_authority_state option" where
  "path_authority_state_of_raw = enum_of_raw 1 all_path_authority_states"

definition valid_path_authority_state :: "u8 \<Rightarrow> bool" where
  "valid_path_authority_state raw \<longleftrightarrow> raw \<ge> 1 \<and> raw \<le> 7"

definition parse_path_authority_state :: "string \<Rightarrow> path_authority_state option" where
  "parse_path_authority_state text =
     List.find (\<lambda>candidate. path_authority_state_text candidate = text) all_path_authority_states"

record path_authority_view =
  v_path :: path_id
  v_generation :: path_authority_generation
  v_state :: path_authority_state

section \<open>The reference directory\<close>

type_synonym directory = "(path_id, path_authority_view) omap"

definition dir_set_view :: "path_authority_view \<Rightarrow> directory \<Rightarrow> directory" where
  "dir_set_view view d = om_put (v_path view) view d"

definition dir_set :: "path_id \<Rightarrow> path_authority_generation \<Rightarrow> path_authority_state \<Rightarrow> directory \<Rightarrow> directory" where
  "dir_set path generation state d =
     om_put path \<lparr>v_path = path, v_generation = generation, v_state = state\<rparr> d"

definition dir_advance ::
  "path_id \<Rightarrow> path_authority_state \<Rightarrow> directory \<Rightarrow> path_authority_generation option \<times> directory" where
  "dir_advance path state d =
     (let advanced = (case om_find d path of None \<Rightarrow> Some gen_first | Some view \<Rightarrow> gen_next (v_generation view))
      in case advanced of
           None \<Rightarrow> (None, d)
         | Some current \<Rightarrow>
             (Some current, om_put path \<lparr>v_path = path, v_generation = current, v_state = state\<rparr> d))"

definition dir_set_state :: "path_id \<Rightarrow> path_authority_state \<Rightarrow> directory \<Rightarrow> bool \<times> directory" where
  "dir_set_state path state d =
     (case om_find d path of
        None \<Rightarrow> (False, d)
      | Some view \<Rightarrow> (True, om_put path (view\<lparr>v_state := state\<rparr>) d))"

definition dir_erase :: "path_id \<Rightarrow> directory \<Rightarrow> bool \<times> directory" where
  "dir_erase path d = (om_has d path, om_del path d)"

definition dir_lookup :: "directory \<Rightarrow> path_id \<Rightarrow> path_authority_view option" where
  "dir_lookup d path = om_find d path"

definition dir_size :: "directory \<Rightarrow> nat" where
  "dir_size d = om_size d"

section \<open>Classification\<close>

definition classify_path_authority ::
  "path_authority_view option \<Rightarrow> path_authority_generation \<Rightarrow> bool \<Rightarrow> member_currentness" where
  "classify_path_authority view bound_generation conditional_authority_permitted =
     (case view of
        None \<Rightarrow> MC_PATH_AUTHORITY_UNKNOWN
      | Some v \<Rightarrow>
          if v_generation v \<noteq> bound_generation then MC_STALE_PATH_AUTHORITY
          else case v_state v of
            PA_AUTHORIZED \<Rightarrow> MC_CURRENT
          | PA_CONDITIONALLY_AUTHORIZED \<Rightarrow>
              if conditional_authority_permitted then MC_CURRENT else MC_PATH_CONDITIONALLY_NOT_PERMITTED
          | PA_REVALIDATION_REQUIRED \<Rightarrow> MC_PATH_REVALIDATION_REQUIRED
          | PA_REJECTED \<Rightarrow> MC_PATH_REJECTED
          | PA_REVOKED \<Rightarrow> MC_PATH_REVOKED
          | PA_STALE \<Rightarrow> MC_PATH_STALE
          | PA_RETIRED \<Rightarrow> MC_PATH_RETIRED)"

section \<open>Facts about the enumeration\<close>

lemma all_path_authority_states_complete [simp]: "v \<in> set all_path_authority_states"
  by (cases v) (simp_all add: all_path_authority_states_def)

lemma all_path_authority_states_distinct [simp]: "distinct all_path_authority_states"
  by (simp add: all_path_authority_states_def)

lemma path_authority_state_text_inject: "path_authority_state_text a = path_authority_state_text b \<longleftrightarrow> a = b"
  by (cases a; cases b; simp)

lemma path_authority_state_of_raw_raw: "path_authority_state_of_raw (path_authority_state_raw v) = Some v"
  unfolding path_authority_state_of_raw_def path_authority_state_raw_def
  by (rule enum_of_raw_raw) (simp_all add: all_path_authority_states_def, cases v, simp_all)

lemma valid_path_authority_state_iff: "valid_path_authority_state raw \<longleftrightarrow> path_authority_state_of_raw raw \<noteq> None"
  by (auto simp: valid_path_authority_state_def path_authority_state_of_raw_def enum_of_raw_def all_path_authority_states_def word_le_nat_alt)

lemma parse_path_authority_state_text:
  "parse_path_authority_state (path_authority_state_text v) = Some v"
  unfolding parse_path_authority_state_def
  by (rule find_text) (simp_all add: inj_on_def path_authority_state_text_inject)

section \<open>Facts about the directory\<close>

definition dir_ok :: "directory \<Rightarrow> bool" where
  "dir_ok d \<longleftrightarrow> (\<forall>path view. om_find d path = Some view \<longrightarrow> v_path view = path)"

lemma dir_okD: "dir_ok d \<Longrightarrow> om_find d path = Some view \<Longrightarrow> v_path view = path"
  by (simp add: dir_ok_def)

lemma dir_ok_empty [simp]: "dir_ok om_empty"
  by (simp add: dir_ok_def)

lemma dir_ok_put: "dir_ok d \<Longrightarrow> v_path view = path \<Longrightarrow> dir_ok (om_put path view d)"
  by (simp add: dir_ok_def)

lemma dir_ok_ops:
  assumes "dir_ok d"
  shows "dir_ok (dir_set_view view d)"
    and "dir_ok (dir_set path generation state d)"
    and "dir_ok (snd (dir_advance path state d))"
    and "dir_ok (snd (dir_set_state path state d))"
    and "dir_ok (snd (dir_erase path d))"
  using assms
  by (auto simp: dir_set_view_def dir_set_def dir_advance_def dir_set_state_def dir_erase_def Let_def
      dir_ok_put dir_okD split: option.splits) (auto simp: dir_ok_def)

text \<open>\<open>advance\<close> never lowers the generation of a path and leaves the other paths alone.\<close>

lemma dir_advance_monotone:
  assumes "dir_advance path state d = (Some g, d')"
  shows "dir_lookup d' path = Some \<lparr>v_path = path, v_generation = g, v_state = state\<rparr>"
    and "dir_lookup d path = Some view \<Longrightarrow> v_generation view < g"
    and "other \<noteq> path \<Longrightarrow> dir_lookup d' other = dir_lookup d other"
  using assms
  by (auto simp: dir_advance_def dir_lookup_def Let_def gen_next_gt split: option.splits)

lemma dir_advance_exhausted: "dir_advance path state d = (None, d') \<Longrightarrow> d' = d"
  by (auto simp: dir_advance_def Let_def split: option.splits)

section \<open>The interface of a Path Authority source\<close>

locale authority_source =
  fixes look :: "'s \<Rightarrow> path_id \<Rightarrow> path_authority_view option"
    and source_ok :: "'s \<Rightarrow> bool"
  assumes exact: "source_ok s \<Longrightarrow> look s path = Some view \<Longrightarrow> v_path view = path"
begin

lemma current_bound:
  assumes "source_ok s" and "classify_path_authority (look s path) bound cond = MC_CURRENT"
  obtains view where "look s path = Some view" "v_path view = path" "v_generation view = bound"
    "v_state view = PA_AUTHORIZED \<or> cond \<and> v_state view = PA_CONDITIONALLY_AUTHORIZED"
  using assms exact [of s path]
  by (auto simp: classify_path_authority_def split: option.splits if_splits path_authority_state.splits)

end

interpretation dir: authority_source dir_lookup dir_ok
  by unfold_locales (auto simp: dir_lookup_def dir_okD)

text \<open>The classification, case by case.\<close>

lemma classify_current_iff:
  "classify_path_authority view bound cond = MC_CURRENT \<longleftrightarrow>
     (\<exists>v. view = Some v \<and> v_generation v = bound \<and>
        (v_state v = PA_AUTHORIZED \<or> cond \<and> v_state v = PA_CONDITIONALLY_AUTHORIZED))"
  by (auto simp: classify_path_authority_def split: option.splits path_authority_state.splits)

lemma classify_unknown_iff:
  "classify_path_authority view bound cond = MC_PATH_AUTHORITY_UNKNOWN \<longleftrightarrow> view = None"
  by (auto simp: classify_path_authority_def split: option.splits if_splits path_authority_state.splits)

lemma classify_stale_iff:
  "classify_path_authority view bound cond = MC_STALE_PATH_AUTHORITY \<longleftrightarrow>
     (\<exists>v. view = Some v \<and> v_generation v \<noteq> bound)"
  by (auto simp: classify_path_authority_def split: option.splits path_authority_state.splits)

end
