(* ===== verification/Records.thy ===== *)
theory Records
  imports Authority Path_Authority
begin

text \<open>
  \<open>include/multipath_fabric/detail/records.hpp\<close>, \<open>src/detail/records.cpp\<close> and
  \<open>include/multipath_fabric/snapshot.hpp\<close>: the semantic key, the member, history and set records
  the engine keeps, their digests, the request fingerprint and the snapshot values.

  \<open>std::map\<close> is \<open>omap\<close> (ordered, one value per key). Counts and thresholds (\<open>std::uint64_t\<close> in the
  code) are \<open>nat\<close>; \<open>pending_revalidations\<close> keeps its 32 bits.
\<close>

section \<open>The semantic key of a set\<close>

datatype set_key = SetKey (k_fabric: fabric_id) (k_name_space: namespace_id) (k_name: set_name)

definition key_valid :: "set_key \<Rightarrow> bool" where
  "key_valid k \<longleftrightarrow> id_valid (k_fabric k) \<and> id_valid (k_name_space k) \<and> id_valid (k_name k)"

definition key_less :: "set_key \<Rightarrow> set_key \<Rightarrow> bool" where
  "key_less a b =
     (if \<not> (k_fabric a = k_fabric b) then k_fabric a < k_fabric b
      else if \<not> (k_name_space a = k_name_space b) then k_name_space a < k_name_space b
      else k_name a < k_name b)"

instantiation set_key :: linorder
begin

definition less_set_key :: "set_key \<Rightarrow> set_key \<Rightarrow> bool" where
  "less_set_key a b = key_less a b"

definition less_eq_set_key :: "set_key \<Rightarrow> set_key \<Rightarrow> bool" where
  "less_eq_set_key a b = (\<not> key_less b a)"

instance
  by standard
    (auto simp: less_set_key_def less_eq_set_key_def key_less_def set_key.expand split: if_splits)

end

definition key_render :: "set_key \<Rightarrow> string" where
  "key_render k = id_or_unset (k_fabric k) @ ''/'' @ id_or_unset (k_name_space k) @ ''/'' @ id_or_unset (k_name k)"

section \<open>Member records\<close>

record member_record =
  m_id :: member_id
  m_path_id :: path_id
  m_bound :: path_authority_generation
  m_generation :: member_generation
  m_lifecycle :: member_lifecycle
  m_currentness :: member_currentness
  m_admin_enabled :: bool
  m_watermark :: watermark
  m_pending :: u32
  m_provenance :: membership_provenance
  m_predecessor :: "member_id option"
  m_successor :: "member_id option"
  m_observed_generation :: "path_authority_generation option"
  m_observed_state :: "path_authority_state option"

definition m_usable :: "member_record \<Rightarrow> bool" where
  "m_usable m = member_is_usable (m_lifecycle m) (m_currentness m)"

section \<open>History entries\<close>

record history_entry =
  h_set_generation :: set_generation
  h_event :: set_event
  h_cause :: membership_cause
  h_publisher :: publisher_id
  h_epoch :: coordinator_epoch
  h_member_id :: "member_id option"
  h_path_id :: "path_id option"
  h_summary :: string

definition history_render :: "history_entry \<Rightarrow> string" where
  "history_render h =
     ''gen='' @ gen_text (h_set_generation h) @ '' event='' @ set_event_text (h_event h) @
     '' cause='' @ membership_cause_text (h_cause h) @ '' publisher='' @ id_text (h_publisher h) @
     '' epoch='' @ gen_text (h_epoch h) @
     render_opt '' member='' id_text (h_member_id h) @
     render_opt '' path='' id_text (h_path_id h) @
     (if h_summary h = [] then [] else '' summary='' @ [CHR 0x22] @ h_summary h @ [CHR 0x22])"

section \<open>Set records\<close>

record set_record =
  s_id :: set_id
  s_key :: set_key
  s_generation :: set_generation
  s_membership_generation :: membership_generation
  s_authority_generation :: authority_generation
  s_lifecycle :: set_lifecycle
  s_currentness :: set_currentness
  s_admin_enabled :: bool
  s_minimum :: nat
  s_conditional :: bool
  s_governing_epoch :: coordinator_epoch
  s_provenance :: membership_provenance
  s_superseded_by :: "set_id option"
  s_supersedes :: "set_id option"
  s_revocation :: "revocation_record option"
  s_withdrawal_reason :: string
  s_history :: "history_entry list"
  s_watermark :: watermark
  s_members :: "(path_id, member_record) omap"
  s_member_index :: "(member_id, path_id) omap"
  s_usable :: nat

definition s_published :: "set_record \<Rightarrow> bool" where
  "s_published r \<longleftrightarrow> s_lifecycle r \<noteq> SL_DECLARED"

definition s_terminal :: "set_record \<Rightarrow> bool" where
  "s_terminal r \<longleftrightarrow> s_lifecycle r = SL_WITHDRAWN \<or> s_lifecycle r = SL_SUPERSEDED \<or>
     s_lifecycle r = SL_REVOKED \<or> s_lifecycle r = SL_RETIRED"

definition recompute_usable_members :: "set_record \<Rightarrow> nat" where
  "recompute_usable_members r = om_count m_usable (s_members r)"

lemma s_terminal_iff: "s_terminal r = terminal_lifecycle (s_lifecycle r)"
  by (simp add: s_terminal_def terminal_lifecycle_def)

section \<open>Digests\<close>

text \<open>A sequence of \<open>builder.absorb_...\<close> statements is the list of the updates, applied in order.\<close>

definition absorb_all :: "(digest_builder \<Rightarrow> digest_builder) list \<Rightarrow> digest_builder \<Rightarrow> digest_builder" where
  "absorb_all fs d = fold (\<lambda>f. f) fs d"

definition id_or_dash :: "'tag strong_id option \<Rightarrow> string" where
  "id_or_dash i = (case i of None \<Rightarrow> ''-'' | Some j \<Rightarrow> id_text j)"

definition compute_member_digest :: "member_record \<Rightarrow> digest128" where
  "compute_member_digest m =
     digest_finish (absorb_all
       [absorb_tagged ''domain'' ''multipath-fabric.member.v1'',
        absorb_tagged ''member_id'' (id_text (m_id m)),
        absorb_tagged ''path_id'' (id_text (m_path_id m)),
        absorb_tagged ''path_authority_generation'' (gen_text (m_bound m)),
        absorb_tagged ''member_generation'' (gen_text (m_generation m)),
        absorb_u8 (member_lifecycle_raw (m_lifecycle m)),
        absorb_u8 (member_currentness_raw (m_currentness m)),
        absorb_bool (m_admin_enabled m),
        absorb_tagged ''predecessor'' (id_or_dash (m_predecessor m)),
        absorb_tagged ''successor'' (id_or_dash (m_successor m))] digest_start)"

definition absorb_set_member :: "member_record \<Rightarrow> digest_builder \<Rightarrow> digest_builder" where
  "absorb_set_member m = absorb_all
     [absorb_tagged ''member'' (id_text (m_id m)),
      absorb_tagged ''member_path'' (id_text (m_path_id m)),
      absorb_tagged ''member_path_authority_generation'' (gen_text (m_bound m)),
      absorb_tagged ''member_generation'' (gen_text (m_generation m)),
      absorb_u8 (member_lifecycle_raw (m_lifecycle m)),
      absorb_u8 (member_currentness_raw (m_currentness m)),
      absorb_bool (m_admin_enabled m)]"

definition compute_set_digest :: "set_record \<Rightarrow> digest128" where
  "compute_set_digest r =
     digest_finish (absorb_all
       ([absorb_tagged ''domain'' ''multipath-fabric.set.v1'',
         absorb_tagged ''set_id'' (id_text (s_id r)),
         absorb_tagged ''fabric'' (id_text (k_fabric (s_key r))),
         absorb_tagged ''namespace'' (id_text (k_name_space (s_key r))),
         absorb_tagged ''name'' (id_text (k_name (s_key r))),
         absorb_tagged ''set_generation'' (gen_text (s_generation r)),
         absorb_tagged ''membership_generation'' (gen_text (s_membership_generation r)),
         absorb_tagged ''authority_generation'' (gen_text (s_authority_generation r)),
         absorb_u8 (set_lifecycle_raw (s_lifecycle r)),
         absorb_u8 (set_currentness_raw (s_currentness r)),
         absorb_bool (s_admin_enabled r),
         absorb_tagged ''minimum_usable_members'' (nat_string (s_minimum r)),
         absorb_bool (s_conditional r),
         absorb_tagged ''governing_epoch'' (gen_text (s_governing_epoch r)),
         absorb_tagged ''superseded_by'' (id_or_dash (s_superseded_by r)),
         absorb_tagged ''supersedes'' (id_or_dash (s_supersedes r))] @
        (case s_revocation r of
           Some v \<Rightarrow>
             [absorb_bool True,
              absorb_u8 (revocation_reason_raw (rv_reason v)),
              absorb_tagged ''revocation_detail'' (rv_detail v),
              absorb_tagged ''revocation_generation'' (gen_text (rv_generation v))]
         | None \<Rightarrow> [absorb_bool False]) @
        [absorb_tagged ''member_count'' (nat_string (om_size (s_members r)))] @
        map absorb_set_member (om_values (s_members r))) digest_start)"

definition fingerprint_request :: "string \<Rightarrow> string list \<Rightarrow> digest128" where
  "fingerprint_request operation flds =
     digest_finish (absorb_all
       ([absorb_tagged ''domain'' ''multipath-fabric.request.v1'',
         absorb_tagged ''operation'' operation,
         absorb_tagged ''field_count'' (nat_string (length flds))] @
        map (absorb_tagged ''field'') flds) digest_start)"

section \<open>Snapshots\<close>

record member_snapshot =
  ms_id :: member_id
  ms_path_id :: path_id
  ms_bound :: path_authority_generation
  ms_generation :: member_generation
  ms_lifecycle :: member_lifecycle
  ms_currentness :: member_currentness
  ms_admin_enabled :: bool
  ms_usable :: bool
  ms_watermark :: watermark
  ms_pending :: u32
  ms_predecessor :: "member_id option"
  ms_successor :: "member_id option"
  ms_provenance :: membership_provenance

record set_snapshot =
  ss_snapshot_id :: snapshot_id
  ss_set_id :: set_id
  ss_key :: set_key
  ss_generation :: set_generation
  ss_membership_generation :: membership_generation
  ss_authority_generation :: authority_generation
  ss_lifecycle :: set_lifecycle
  ss_currentness :: set_currentness
  ss_readiness :: route_readiness_value
  ss_admin_enabled :: bool
  ss_minimum :: nat
  ss_conditional :: bool
  ss_usable_count :: nat
  ss_member_count :: nat
  ss_governing_epoch :: coordinator_epoch
  ss_provenance :: membership_provenance
  ss_superseded_by :: "set_id option"
  ss_supersedes :: "set_id option"
  ss_revocation :: "revocation_record option"
  ss_withdrawal_reason :: string
  ss_members :: "member_snapshot list"
  ss_history :: "history_entry list"
  ss_digest :: digest128

definition find_member_by_path :: "path_id \<Rightarrow> set_snapshot \<Rightarrow> member_snapshot option" where
  "find_member_by_path path s = List.find (\<lambda>m. ms_path_id m = path) (ss_members s)"

definition find_member_by_id :: "member_id \<Rightarrow> set_snapshot \<Rightarrow> member_snapshot option" where
  "find_member_by_id i s = List.find (\<lambda>m. ms_id m = i) (ss_members s)"

section \<open>The indexed tables of the records\<close>

text \<open>
  The member table with the member identity index, and the set table with the semantic key index,
  as instances of \<open>indexed_table\<close>.
\<close>

interpretation member_table: indexed_table om_find om_put om_del om_find om_put om_del m_id
  by unfold_locales

interpretation set_table: indexed_table om_find om_put om_del om_find om_put om_del s_key
  by unfold_locales

end
