(* ===== verification/Set_State.thy ===== *)
theory Set_State
  imports Records
begin

text \<open>
  The operations on one set record and on one member record that \<open>src/fabric_engine.cpp\<close> and
  \<open>src/fabric_commit.cpp\<close> share between all mutations: the transition of a set, generations and
  watermarks, the derived state, history, the evaluation of a member against a Path Authority
  view, and the member side of a set transition. They are the methods of \<open>FabricEngine::Impl\<close>
  that touch nothing but the record they are given (and read the limits and the epoch).

  A C++ method that changes its record argument is a function to the changed record. The facts
  about these operations are in \<open>Set_Invariant\<close>.
\<close>

section \<open>Limits\<close>

record limits =
  max_sets :: nat
  max_members_per_set :: nat
  max_total_members :: nat
  max_history_per_set :: nat
  max_archived_members_per_set :: nat
  max_frame_bytes :: nat
  max_batch_size :: nat
  max_publishers :: nat
  max_sessions :: nat
  max_explanation_entries :: nat
  max_persistence_record_bytes :: nat
  max_store_bytes :: nat
  max_attempts :: nat
  max_pending_revalidations_per_set :: nat
  max_path_dependencies_per_path :: nat
  max_snapshot_history :: nat
  max_scope_set_ids :: nat

definition default_limits :: limits where
  "default_limits =
     \<lparr>max_sets = 100000, max_members_per_set = 64, max_total_members = 1000000,
      max_history_per_set = 64, max_archived_members_per_set = 64, max_frame_bytes = 2 ^ 20,
      max_batch_size = 256, max_publishers = 64, max_sessions = 128,
      max_explanation_entries = 512, max_persistence_record_bytes = 16 * 2 ^ 20,
      max_store_bytes = 64 * 2 ^ 20, max_attempts = 8192,
      max_pending_revalidations_per_set = 64, max_path_dependencies_per_path = 4096,
      max_snapshot_history = 16, max_scope_set_ids = 256\<rparr>"

definition limits_describe :: "limits \<Rightarrow> (string \<times> nat) list" where
  "limits_describe l =
     [(''max_sets'', max_sets l),
      (''max_members_per_set'', max_members_per_set l),
      (''max_total_members'', max_total_members l),
      (''max_history_per_set'', max_history_per_set l),
      (''max_archived_members_per_set'', max_archived_members_per_set l),
      (''max_frame_bytes'', max_frame_bytes l),
      (''max_batch_size'', max_batch_size l),
      (''max_publishers'', max_publishers l),
      (''max_sessions'', max_sessions l),
      (''max_explanation_entries'', max_explanation_entries l),
      (''max_persistence_record_bytes'', max_persistence_record_bytes l),
      (''max_store_bytes'', max_store_bytes l),
      (''max_attempts'', max_attempts l),
      (''max_pending_revalidations_per_set'', max_pending_revalidations_per_set l),
      (''max_path_dependencies_per_path'', max_path_dependencies_per_path l),
      (''max_snapshot_history'', max_snapshot_history l),
      (''max_scope_set_ids'', max_scope_set_ids l)]"

section \<open>Predicates and counts\<close>

definition member_inputs_usable :: "member_record \<Rightarrow> bool" where
  "member_inputs_usable m \<longleftrightarrow> member_is_usable (m_lifecycle m) (m_currentness m) \<and> m_admin_enabled m"

definition set_is_consumable :: "set_record \<Rightarrow> bool" where
  "set_is_consumable r =
     (if \<not> s_published r \<or> \<not> s_admin_enabled r then False
      else if s_currentness r \<noteq> SC_CURRENT then False
      else s_lifecycle r = SL_ACTIVE \<or> s_lifecycle r = SL_DEGRADED)"

definition consumable_member_count :: "set_record \<Rightarrow> nat" where
  "consumable_member_count r = (if set_is_consumable r then s_usable r else 0)"

definition currentness_is_revalidation_recoverable :: "member_currentness \<Rightarrow> bool" where
  "currentness_is_revalidation_recoverable value =
     (case value of
        MC_STALE_PATH_AUTHORITY \<Rightarrow> True
      | MC_PATH_REVALIDATION_REQUIRED \<Rightarrow> True
      | MC_PATH_STALE \<Rightarrow> True
      | MC_PATH_AUTHORITY_UNKNOWN \<Rightarrow> True
      | MC_EPOCH_STALE \<Rightarrow> True
      | MC_PENDING_EVALUATION \<Rightarrow> True
      | _ \<Rightarrow> False)"

definition member_is_terminal :: "member_record \<Rightarrow> bool" where
  "member_is_terminal m \<longleftrightarrow>
     m_lifecycle m = ML_WITHDRAWN \<or> m_lifecycle m = ML_SUPERSEDED \<or> m_lifecycle m = ML_RETIRED"

definition live_member_count :: "set_record \<Rightarrow> nat" where
  "live_member_count r = om_count (\<lambda>m. \<not> member_is_terminal m) (s_members r)"

definition archived_member_count :: "set_record \<Rightarrow> nat" where
  "archived_member_count r = om_count member_is_terminal (s_members r)"

section \<open>Generations and watermarks\<close>

definition advance_set_generation :: "set_record \<Rightarrow> set_record option" where
  "advance_set_generation r =
     (case gen_next (s_generation r) of None \<Rightarrow> None | Some g \<Rightarrow> Some (r\<lparr>s_generation := g\<rparr>))"

definition advance_membership_generation :: "set_record \<Rightarrow> set_record option" where
  "advance_membership_generation r =
     (case gen_next (s_membership_generation r) of
        None \<Rightarrow> None | Some g \<Rightarrow> Some (r\<lparr>s_membership_generation := g\<rparr>))"

definition bump_member_watermark :: "member_record \<Rightarrow> member_record" where
  "bump_member_watermark m =
     (case wm_next (m_watermark m) of None \<Rightarrow> m | Some w \<Rightarrow> m\<lparr>m_watermark := w\<rparr>)"

definition bump_set_watermark_only :: "set_record \<Rightarrow> set_record" where
  "bump_set_watermark_only r =
     (case wm_next (s_watermark r) of None \<Rightarrow> r | Some w \<Rightarrow> r\<lparr>s_watermark := w\<rparr>)"

definition map_members :: "(member_record \<Rightarrow> member_record) \<Rightarrow> set_record \<Rightarrow> set_record" where
  "map_members f r = r\<lparr>s_members := om_map (\<lambda>_. f) (s_members r)\<rparr>"

definition bump_set_watermark :: "set_record \<Rightarrow> set_record" where
  "bump_set_watermark r = map_members bump_member_watermark (bump_set_watermark_only r)"

text \<open>
  \<open>if (const auto next = g.next()) g = *next;\<close> -- the advance that leaves an exhausted counter alone.
\<close>

definition gen_advance :: "'tag generation \<Rightarrow> 'tag generation" where
  "gen_advance g = (case gen_next g of None \<Rightarrow> g | Some h \<Rightarrow> h)"

section \<open>Derived state\<close>

definition recompute :: "set_record \<Rightarrow> set_record" where
  "recompute r =
     (let r' = r\<lparr>s_usable := recompute_usable_members r\<rparr>
      in if s_lifecycle r' = SL_ACTIVE \<or> s_lifecycle r' = SL_DEGRADED \<or> s_lifecycle r' = SL_EXHAUSTED \<or>
            s_lifecycle r' = SL_ADMIN_DISABLED
         then r'\<lparr>s_lifecycle :=
                 derive_published_lifecycle (s_usable r') (s_minimum r') (s_admin_enabled r')\<rparr>
         else r')"

section \<open>Set transitions and rejections\<close>

definition lifecycle_rejection :: "set_lifecycle \<Rightarrow> set_id \<Rightarrow> fabric_outcome" where
  "lifecycle_rejection lifecycle sid =
     (let subject = ''set '' @ id_text sid
      in case lifecycle of
           SL_RETIRED \<Rightarrow> make_rejection OC_RETIRED (msg (subject @ '' is retired''))
         | SL_REVOKED \<Rightarrow> make_rejection OC_REVOKED (msg (subject @ '' is revoked''))
         | SL_WITHDRAWN \<Rightarrow> make_rejection OC_WITHDRAWN (msg (subject @ '' is withdrawn''))
         | SL_WITHDRAWING \<Rightarrow> make_rejection OC_WITHDRAWN (msg (subject @ '' is withdrawing''))
         | SL_SUPERSEDED \<Rightarrow> make_rejection OC_SUPERSEDED (msg (subject @ '' is superseded''))
         | _ \<Rightarrow> make_rejection OC_INVALID_LIFECYCLE_TRANSITION
                (msg (subject @ '' does not accept this event in lifecycle '' @ set_lifecycle_text lifecycle)))"

definition currentness_rejection :: "member_currentness \<Rightarrow> path_id \<Rightarrow> fabric_outcome" where
  "currentness_rejection currentness path =
     (case currentness of
        MC_STALE_PATH_AUTHORITY \<Rightarrow>
          make_rejection OC_STALE_PATH_AUTHORITY
            (msg (''path '' @ id_text path @ '' is bound at a Path Authority generation that is no longer '' @
                  ''current; explicit revalidation is required''))
      | MC_PATH_AUTHORITY_UNKNOWN \<Rightarrow>
          make_rejection OC_PATH_AUTHORITY_UNKNOWN
            (msg (''Path Authority has no record for path '' @ id_text path))
      | _ \<Rightarrow> make_rejection OC_PATH_NOT_USABLE
            (msg (''path '' @ id_text path @ '' is not usable: '' @ member_currentness_text currentness)))"

text \<open>\<open>Inl code\<close> is the rejection, \<open>Inr\<close> the changed record.\<close>

definition apply_transition :: "set_record \<Rightarrow> set_event \<Rightarrow> outcome_code + set_record" where
  "apply_transition r event =
     (case set_transition (s_lifecycle r) event of
        SA_REJECT \<Rightarrow> Inl (o_code (lifecycle_rejection (s_lifecycle r) (s_id r)))
      | SA_STAY \<Rightarrow> Inr r
      | SA_RECOMPUTE \<Rightarrow> Inr (recompute r)
      | SA_BECOME_PUBLISHED \<Rightarrow>
          let r' = r\<lparr>s_usable := recompute_usable_members r\<rparr>
          in Inr (r'\<lparr>s_lifecycle :=
                   derive_published_lifecycle (s_usable r') (s_minimum r') (s_admin_enabled r')\<rparr>)
      | SA_BECOME_ADMIN_DISABLED \<Rightarrow> Inr (r\<lparr>s_lifecycle := SL_ADMIN_DISABLED\<rparr>)
      | SA_BECOME_WITHDRAWING \<Rightarrow> Inr (r\<lparr>s_lifecycle := SL_WITHDRAWING\<rparr>)
      | SA_BECOME_WITHDRAWN \<Rightarrow>
          Inr (r\<lparr>s_lifecycle := SL_WITHDRAWN, s_currentness := SC_REVALIDATION_REQUIRED\<rparr>)
      | SA_BECOME_SUPERSEDED \<Rightarrow>
          Inr (r\<lparr>s_lifecycle := SL_SUPERSEDED, s_currentness := SC_REVALIDATION_REQUIRED\<rparr>)
      | SA_BECOME_REVOKED \<Rightarrow>
          Inr (r\<lparr>s_lifecycle := SL_REVOKED, s_currentness := SC_REVALIDATION_REQUIRED\<rparr>)
      | SA_BECOME_RETIRED \<Rightarrow>
          Inr (r\<lparr>s_lifecycle := SL_RETIRED, s_currentness := SC_REVALIDATION_REQUIRED\<rparr>))"

definition transition_allowed :: "set_lifecycle \<Rightarrow> set_event \<Rightarrow> bool" where
  "transition_allowed state event \<longleftrightarrow> set_transition state event \<noteq> SA_REJECT"

section \<open>History and provenance\<close>

definition make_provenance :: "mutation_context \<Rightarrow> membership_cause \<Rightarrow> set_record \<Rightarrow> membership_provenance" where
  "make_provenance ctx cause r =
     \<lparr>pv_publisher = cx_publisher ctx, pv_worker_boot = cx_worker_boot ctx, pv_epoch = cx_epoch ctx,
      pv_attempt = cx_attempt ctx, pv_set_generation = s_generation r, pv_cause = cause\<rparr>"

definition append_history ::
  "limits \<Rightarrow> coordinator_epoch \<Rightarrow> set_event \<Rightarrow> membership_cause \<Rightarrow> mutation_context option \<Rightarrow>
   member_id option \<Rightarrow> path_id option \<Rightarrow> string \<Rightarrow> set_record \<Rightarrow> set_record" where
  "append_history lim current_epoch event cause ctx member path summary r =
     (let entry = \<lparr>h_set_generation = s_generation r, h_event = event, h_cause = cause,
                   h_publisher = (case ctx of Some c \<Rightarrow> cx_publisher c | None \<Rightarrow> invalid_id),
                   h_epoch = (case ctx of Some c \<Rightarrow> cx_epoch c | None \<Rightarrow> current_epoch),
                   h_member_id = member, h_path_id = path, h_summary = summary\<rparr>
      in r\<lparr>s_history := keep_last (max_history_per_set lim) (s_history r @ [entry])\<rparr>)"

section \<open>Evaluation of a member\<close>

text \<open>
  The steps of \<open>evaluate_member_locked\<close> in the order of its statements: the observation recorded in
  the member, the currentness observed, its assignment (which bumps the watermark when it differs),
  the member event it raises, and the lifecycle transition (which bumps the watermark as well).
\<close>

definition record_observation :: "path_authority_view option \<Rightarrow> member_record \<Rightarrow> member_record" where
  "record_observation view m =
     (case view of
        Some v \<Rightarrow> m\<lparr>m_observed_generation := Some (v_generation v), m_observed_state := Some (v_state v)\<rparr>
      | None \<Rightarrow> m\<lparr>m_observed_generation := None, m_observed_state := None\<rparr>)"

definition observed_currentness :: "bool \<Rightarrow> path_authority_view option \<Rightarrow> member_record \<Rightarrow> member_currentness" where
  "observed_currentness conditional view m =
     (if \<not> m_admin_enabled m then MC_ADMIN_DISABLED
      else classify_path_authority view (m_bound m) conditional)"

definition note_currentness :: "member_currentness \<Rightarrow> member_record \<Rightarrow> member_record" where
  "note_currentness observed m =
     (let m' = (if m_currentness m \<noteq> observed then bump_member_watermark m else m)
      in m'\<lparr>m_currentness := observed\<rparr>)"

definition evaluation_event :: "bool \<Rightarrow> member_currentness \<Rightarrow> member_event" where
  "evaluation_event explicit_revalidation observed =
     (if observed = MC_CURRENT
      then (if explicit_revalidation then ME_REVALIDATED_OK else ME_INPUTS_USABLE)
      else if currentness_is_revalidation_recoverable observed
      then (if explicit_revalidation then ME_REVALIDATED_STALE else ME_INPUTS_STALE_AUTHORITY)
      else ME_INPUTS_NOT_USABLE)"

definition apply_member_event :: "member_event \<Rightarrow> member_record \<Rightarrow> member_record" where
  "apply_member_event event m =
     (case member_transition (m_lifecycle m) event of
        None \<Rightarrow> m
      | Some next \<Rightarrow>
          (let m' = (if next \<noteq> m_lifecycle m then bump_member_watermark m else m)
           in m'\<lparr>m_lifecycle := next\<rparr>))"

definition evaluate_member ::
  "bool \<Rightarrow> path_authority_view option \<Rightarrow> bool \<Rightarrow> member_record \<Rightarrow> member_record" where
  "evaluate_member conditional view explicit_revalidation m =
     (if m_lifecycle m = ML_WITHDRAWN \<or> m_lifecycle m = ML_SUPERSEDED \<or> m_lifecycle m = ML_RETIRED
      then m\<lparr>m_currentness := observed_currentness conditional view m\<rparr>
      else
        (let m = record_observation view m;
             observed = observed_currentness conditional view m;
             m = note_currentness observed m
         in apply_member_event (evaluation_event explicit_revalidation observed) m))"

definition observation_of :: "member_record \<Rightarrow> path_authority_view option" where
  "observation_of m =
     (case (m_observed_generation m, m_observed_state m) of
        (Some g, Some s) \<Rightarrow> Some \<lparr>v_path = m_path_id m, v_generation = g, v_state = s\<rparr>
      | _ \<Rightarrow> None)"

definition reevaluate_members_from_observations :: "set_record \<Rightarrow> set_record" where
  "reevaluate_members_from_observations r =
     recompute (map_members
       (\<lambda>m. if member_is_terminal m then m
            else evaluate_member (s_conditional r) (observation_of m) True m) r)"

section \<open>Member consequences of set transitions\<close>

definition mark_set_not_usable :: "member_record \<Rightarrow> member_record" where
  "mark_set_not_usable m =
     (if m_currentness m \<noteq> MC_SET_NOT_USABLE
      then bump_member_watermark (m\<lparr>m_currentness := MC_SET_NOT_USABLE\<rparr>) else m)"

definition refresh_usable :: "set_record \<Rightarrow> set_record" where
  "refresh_usable r = r\<lparr>s_usable := recompute_usable_members r\<rparr>"

definition consequence_event :: "set_lifecycle \<Rightarrow> member_event option" where
  "consequence_event to_state =
     (case to_state of
        SL_WITHDRAWING \<Rightarrow> Some ME_WITHDRAW
      | SL_WITHDRAWN \<Rightarrow> Some ME_WITHDRAW
      | SL_SUPERSEDED \<Rightarrow> Some ME_SUPERSEDE
      | SL_RETIRED \<Rightarrow> Some ME_RETIRE
      | _ \<Rightarrow> None)"

definition apply_member_consequences ::
  "limits \<Rightarrow> coordinator_epoch \<Rightarrow> set_lifecycle \<Rightarrow> set_lifecycle \<Rightarrow> mutation_context option \<Rightarrow>
   set_record \<Rightarrow> set_record" where
  "apply_member_consequences lim current_epoch from_state to_state ctx r =
     (if from_state = to_state then r
      else if \<not> (from_state = SL_ACTIVE \<or> from_state = SL_DEGRADED \<or> from_state = SL_EXHAUSTED) then r
      else if to_state = SL_REVOKED then
        append_history lim current_epoch SE_REVOKE CA_SET_REVOKED ctx None None
          (msg ''members marked SET_NOT_USABLE by revocation'')
          (refresh_usable (bump_set_watermark (map_members mark_set_not_usable r)))
      else case consequence_event to_state of
        None \<Rightarrow> r
      | Some member_event \<Rightarrow>
          refresh_usable (bump_set_watermark (map_members (apply_member_event member_event) r)))"

end
