(* ===== verification/Set_Invariant.thy ===== *)
theory Set_Invariant
  imports Set_State
begin

text \<open>
  What the record operations of \<open>Set_State\<close> keep. \<open>member_frame\<close> and \<open>set_frame\<close> are the preorders
  every operation moves along: identities and the membership table stay, generations and
  watermarks only grow. \<open>set_core\<close> is the invariant of a stored set record: its two member tables
  agree, a member that counts as usable has current evidence for it, the usable count and the
  published lifecycle are the ones derived from the members, and a terminal set is not current.
\<close>

section \<open>The frame of an operation\<close>

definition member_frame :: "member_record \<Rightarrow> member_record \<Rightarrow> bool" where
  "member_frame m m' \<longleftrightarrow> m_id m' = m_id m \<and> m_path_id m' = m_path_id m \<and>
     m_watermark m \<le> m_watermark m' \<and> m_generation m \<le> m_generation m'"

definition members_frame :: "set_record \<Rightarrow> set_record \<Rightarrow> bool" where
  "members_frame r r' \<longleftrightarrow> s_member_index r' = s_member_index r \<and>
     (\<forall>p. rel_option member_frame (om_find (s_members r) p) (om_find (s_members r') p))"

definition clocks_frame :: "set_record \<Rightarrow> set_record \<Rightarrow> bool" where
  "clocks_frame r r' \<longleftrightarrow> s_id r' = s_id r \<and> s_key r' = s_key r \<and>
     s_generation r \<le> s_generation r' \<and> s_membership_generation r \<le> s_membership_generation r' \<and>
     s_watermark r \<le> s_watermark r'"

definition set_frame :: "set_record \<Rightarrow> set_record \<Rightarrow> bool" where
  "set_frame r r' \<longleftrightarrow> clocks_frame r r' \<and> members_frame r r'"

lemma member_frame_refl [simp]: "member_frame m m"
  by (simp add: member_frame_def)

lemma member_frame_trans: "member_frame a b \<Longrightarrow> member_frame b c \<Longrightarrow> member_frame a c"
  by (auto simp: member_frame_def)

lemma clocks_frame_refl [simp]: "clocks_frame r r"
  by (simp add: clocks_frame_def)

lemma clocks_frame_trans: "clocks_frame a b \<Longrightarrow> clocks_frame b c \<Longrightarrow> clocks_frame a c"
  by (auto simp: clocks_frame_def)

lemma members_frame_same: "s_members r' = s_members r \<Longrightarrow> s_member_index r' = s_member_index r \<Longrightarrow> members_frame r r'"
  by (simp add: members_frame_def option.rel_refl)

lemma members_frame_trans: "members_frame a b \<Longrightarrow> members_frame b c \<Longrightarrow> members_frame a c"
  unfolding members_frame_def
  by (metis (no_types, lifting) member_frame_trans option.rel_compp relcompp.simps option.rel_sel)

lemma set_frame_refl [simp]: "set_frame r r"
  by (simp add: set_frame_def members_frame_same)

lemma set_frame_trans: "set_frame a b \<Longrightarrow> set_frame b c \<Longrightarrow> set_frame a c"
  by (auto simp: set_frame_def intro: clocks_frame_trans members_frame_trans)

lemma set_frame_same:
  "s_id r' = s_id r \<Longrightarrow> s_key r' = s_key r \<Longrightarrow> s_generation r' = s_generation r \<Longrightarrow>
   s_membership_generation r' = s_membership_generation r \<Longrightarrow> s_watermark r' = s_watermark r \<Longrightarrow>
   s_members r' = s_members r \<Longrightarrow> s_member_index r' = s_member_index r \<Longrightarrow> set_frame r r'"
  by (simp add: set_frame_def clocks_frame_def members_frame_same)

lemma members_frame_map:
  assumes "\<And>m. member_frame m (f m)"
  shows "members_frame r (map_members f r)"
  using assms by (auto simp: members_frame_def map_members_def option.rel_map option.rel_refl split: option.splits)

lemma set_frame_map: "(\<And>m. member_frame m (f m)) \<Longrightarrow> set_frame r (map_members f r)"
  by (simp add: set_frame_def members_frame_map) (simp add: clocks_frame_def map_members_def)

lemma set_frame_put_member:
  assumes "om_find (s_members r) p = Some m" and "member_frame m m'"
  shows "set_frame r (r\<lparr>s_members := om_put p m' (s_members r)\<rparr>)"
  using assms by (auto simp: set_frame_def clocks_frame_def members_frame_def option.rel_refl)

section \<open>The operations stay in the frame\<close>

lemma bump_member_watermark_simps [simp]:
  "m_id (bump_member_watermark m) = m_id m"
  "m_path_id (bump_member_watermark m) = m_path_id m"
  "m_bound (bump_member_watermark m) = m_bound m"
  "m_generation (bump_member_watermark m) = m_generation m"
  "m_lifecycle (bump_member_watermark m) = m_lifecycle m"
  "m_currentness (bump_member_watermark m) = m_currentness m"
  "m_admin_enabled (bump_member_watermark m) = m_admin_enabled m"
  "m_pending (bump_member_watermark m) = m_pending m"
  "m_observed_generation (bump_member_watermark m) = m_observed_generation m"
  "m_observed_state (bump_member_watermark m) = m_observed_state m"
  by (simp_all add: bump_member_watermark_def split: option.splits)

lemma bump_member_watermark_ge: "m_watermark m \<le> m_watermark (bump_member_watermark m)"
  by (auto simp: bump_member_watermark_def dest: wm_next_gt split: option.splits)

lemma bump_member_watermark_frame [simp]: "member_frame m (bump_member_watermark m)"
  by (simp add: member_frame_def bump_member_watermark_ge)

lemma gen_advance_ge [simp]: "g \<le> gen_advance g"
  by (auto simp: gen_advance_def dest: gen_next_gt split: option.splits)

lemma bump_set_watermark_only_ge: "s_watermark r \<le> s_watermark (bump_set_watermark_only r)"
  by (auto simp: bump_set_watermark_only_def dest: wm_next_gt split: option.splits)

lemma bump_set_watermark_only_simps [simp]:
  "s_id (bump_set_watermark_only r) = s_id r"
  "s_key (bump_set_watermark_only r) = s_key r"
  "s_generation (bump_set_watermark_only r) = s_generation r"
  "s_membership_generation (bump_set_watermark_only r) = s_membership_generation r"
  "s_lifecycle (bump_set_watermark_only r) = s_lifecycle r"
  "s_currentness (bump_set_watermark_only r) = s_currentness r"
  "s_admin_enabled (bump_set_watermark_only r) = s_admin_enabled r"
  "s_minimum (bump_set_watermark_only r) = s_minimum r"
  "s_conditional (bump_set_watermark_only r) = s_conditional r"
  "s_members (bump_set_watermark_only r) = s_members r"
  "s_member_index (bump_set_watermark_only r) = s_member_index r"
  "s_usable (bump_set_watermark_only r) = s_usable r"
  "s_history (bump_set_watermark_only r) = s_history r"
  by (simp_all add: bump_set_watermark_only_def split: option.splits)

lemma bump_set_watermark_only_frame [simp]: "set_frame r (bump_set_watermark_only r)"
  by (simp add: set_frame_def clocks_frame_def members_frame_same bump_set_watermark_only_ge)

lemma bump_set_watermark_frame [simp]: "set_frame r (bump_set_watermark r)"
  unfolding bump_set_watermark_def
  by (rule set_frame_trans [OF bump_set_watermark_only_frame set_frame_map]) simp

lemma map_members_simps [simp]:
  "s_id (map_members f r) = s_id r"
  "s_key (map_members f r) = s_key r"
  "s_generation (map_members f r) = s_generation r"
  "s_membership_generation (map_members f r) = s_membership_generation r"
  "s_lifecycle (map_members f r) = s_lifecycle r"
  "s_currentness (map_members f r) = s_currentness r"
  "s_admin_enabled (map_members f r) = s_admin_enabled r"
  "s_minimum (map_members f r) = s_minimum r"
  "s_conditional (map_members f r) = s_conditional r"
  "s_member_index (map_members f r) = s_member_index r"
  "s_usable (map_members f r) = s_usable r"
  "s_history (map_members f r) = s_history r"
  "s_watermark (map_members f r) = s_watermark r"
  "om_find (s_members (map_members f r)) p = map_option f (om_find (s_members r) p)"
  by (simp_all add: map_members_def)

lemma recompute_simps [simp]:
  "s_id (recompute r) = s_id r"
  "s_key (recompute r) = s_key r"
  "s_generation (recompute r) = s_generation r"
  "s_membership_generation (recompute r) = s_membership_generation r"
  "s_currentness (recompute r) = s_currentness r"
  "s_admin_enabled (recompute r) = s_admin_enabled r"
  "s_minimum (recompute r) = s_minimum r"
  "s_conditional (recompute r) = s_conditional r"
  "s_members (recompute r) = s_members r"
  "s_member_index (recompute r) = s_member_index r"
  "s_history (recompute r) = s_history r"
  "s_watermark (recompute r) = s_watermark r"
  "s_usable (recompute r) = recompute_usable_members r"
  by (simp_all add: recompute_def Let_def)

lemma recompute_frame [simp]: "set_frame r (recompute r)"
  by (rule set_frame_same) simp_all

lemma append_history_simps [simp]:
  "s_id (append_history l e ev c cx m p s r) = s_id r"
  "s_key (append_history l e ev c cx m p s r) = s_key r"
  "s_generation (append_history l e ev c cx m p s r) = s_generation r"
  "s_membership_generation (append_history l e ev c cx m p s r) = s_membership_generation r"
  "s_lifecycle (append_history l e ev c cx m p s r) = s_lifecycle r"
  "s_currentness (append_history l e ev c cx m p s r) = s_currentness r"
  "s_admin_enabled (append_history l e ev c cx m p s r) = s_admin_enabled r"
  "s_minimum (append_history l e ev c cx m p s r) = s_minimum r"
  "s_conditional (append_history l e ev c cx m p s r) = s_conditional r"
  "s_members (append_history l e ev c cx m p s r) = s_members r"
  "s_member_index (append_history l e ev c cx m p s r) = s_member_index r"
  "s_watermark (append_history l e ev c cx m p s r) = s_watermark r"
  "s_usable (append_history l e ev c cx m p s r) = s_usable r"
  "s_provenance (append_history l e ev c cx m p s r) = s_provenance r"
  by (simp_all add: append_history_def Let_def)

lemma append_history_frame [simp]: "set_frame r (append_history l e ev c cx m p s r)"
  by (rule set_frame_same) simp_all

lemma append_history_bound: "length (s_history (append_history l e ev c cx m p s r)) \<le> max_history_per_set l"
  by (simp add: append_history_def Let_def)

lemma member_frame_upd [simp]:
  "member_frame m (m'\<lparr>m_lifecycle := l\<rparr>) = member_frame m m'"
  "member_frame m (m'\<lparr>m_currentness := c\<rparr>) = member_frame m m'"
  "member_frame m (m'\<lparr>m_bound := b\<rparr>) = member_frame m m'"
  "member_frame m (m'\<lparr>m_pending := k\<rparr>) = member_frame m m'"
  "member_frame m (m'\<lparr>m_admin_enabled := a\<rparr>) = member_frame m m'"
  "member_frame m (m'\<lparr>m_observed_generation := og\<rparr>) = member_frame m m'"
  "member_frame m (m'\<lparr>m_observed_state := os\<rparr>) = member_frame m m'"
  "member_frame m (m'\<lparr>m_predecessor := pr\<rparr>) = member_frame m m'"
  "member_frame m (m'\<lparr>m_successor := su\<rparr>) = member_frame m m'"
  by (simp_all add: member_frame_def)

lemma member_frame_bump: "member_frame m m' \<Longrightarrow> member_frame m (bump_member_watermark m')"
  by (erule member_frame_trans) simp

lemma member_frame_generation:
  "member_frame m m' \<Longrightarrow> m_generation m' \<le> g \<Longrightarrow> member_frame m (m'\<lparr>m_generation := g\<rparr>)"
  by (auto simp: member_frame_def)

lemma record_observation_simps [simp]:
  "m_id (record_observation view m) = m_id m"
  "m_path_id (record_observation view m) = m_path_id m"
  "m_bound (record_observation view m) = m_bound m"
  "m_generation (record_observation view m) = m_generation m"
  "m_lifecycle (record_observation view m) = m_lifecycle m"
  "m_admin_enabled (record_observation view m) = m_admin_enabled m"
  "m_watermark (record_observation view m) = m_watermark m"
  "m_pending (record_observation view m) = m_pending m"
  "m_observed_generation (record_observation view m) = map_option v_generation view"
  "m_observed_state (record_observation view m) = map_option v_state view"
  "observed_currentness cond w (record_observation view m) = observed_currentness cond w m"
  "member_frame m0 (record_observation view m) = member_frame m0 m"
  by (simp_all add: record_observation_def observed_currentness_def split: option.splits)

lemma note_currentness_simps [simp]:
  "m_id (note_currentness c m) = m_id m"
  "m_path_id (note_currentness c m) = m_path_id m"
  "m_bound (note_currentness c m) = m_bound m"
  "m_generation (note_currentness c m) = m_generation m"
  "m_lifecycle (note_currentness c m) = m_lifecycle m"
  "m_currentness (note_currentness c m) = c"
  "m_admin_enabled (note_currentness c m) = m_admin_enabled m"
  "m_pending (note_currentness c m) = m_pending m"
  "m_observed_generation (note_currentness c m) = m_observed_generation m"
  "m_observed_state (note_currentness c m) = m_observed_state m"
  by (simp_all add: note_currentness_def Let_def)

lemma note_currentness_frame: "member_frame m m' \<Longrightarrow> member_frame m (note_currentness c m')"
  by (simp add: note_currentness_def Let_def member_frame_bump)

lemma apply_member_event_simps [simp]:
  "m_id (apply_member_event ev m) = m_id m"
  "m_path_id (apply_member_event ev m) = m_path_id m"
  "m_bound (apply_member_event ev m) = m_bound m"
  "m_generation (apply_member_event ev m) = m_generation m"
  "m_currentness (apply_member_event ev m) = m_currentness m"
  "m_admin_enabled (apply_member_event ev m) = m_admin_enabled m"
  "m_pending (apply_member_event ev m) = m_pending m"
  "m_observed_generation (apply_member_event ev m) = m_observed_generation m"
  "m_observed_state (apply_member_event ev m) = m_observed_state m"
  by (simp_all add: apply_member_event_def Let_def split: option.splits)

lemma apply_member_event_lifecycle:
  "m_lifecycle (apply_member_event ev m) =
     (case member_transition (m_lifecycle m) ev of None \<Rightarrow> m_lifecycle m | Some l \<Rightarrow> l)"
  by (simp add: apply_member_event_def Let_def split: option.splits)

lemma apply_member_event_frame: "member_frame m m' \<Longrightarrow> member_frame m (apply_member_event ev m')"
  by (simp add: apply_member_event_def Let_def member_frame_bump split: option.splits)

lemma evaluate_member_frame [simp]: "member_frame m (evaluate_member cond view ex m)"
  by (simp add: evaluate_member_def Let_def apply_member_event_frame note_currentness_frame)

lemma evaluate_member_simps [simp]:
  "m_id (evaluate_member cond view ex m) = m_id m"
  "m_path_id (evaluate_member cond view ex m) = m_path_id m"
  "m_bound (evaluate_member cond view ex m) = m_bound m"
  "m_generation (evaluate_member cond view ex m) = m_generation m"
  "m_admin_enabled (evaluate_member cond view ex m) = m_admin_enabled m"
  "m_pending (evaluate_member cond view ex m) = m_pending m"
  by (simp_all add: evaluate_member_def Let_def)

lemma evaluate_member_currentness [simp]:
  "m_currentness (evaluate_member cond view ex m) = observed_currentness cond view m"
  by (simp add: evaluate_member_def Let_def)

lemma mark_set_not_usable_frame [simp]: "member_frame m (mark_set_not_usable m)"
  by (simp add: mark_set_not_usable_def member_frame_bump)

lemma mark_set_not_usable_currentness [simp]:
  "m_currentness (mark_set_not_usable m) = MC_SET_NOT_USABLE"
  "m_lifecycle (mark_set_not_usable m) = m_lifecycle m"
  by (simp_all add: mark_set_not_usable_def)

section \<open>The invariant of a set record\<close>

definition tables_ok :: "set_record \<Rightarrow> bool" where
  "tables_ok r \<longleftrightarrow>
     (\<forall>p m. om_find (s_members r) p = Some m \<longrightarrow> m_path_id m = p) \<and>
     index_ok m_id (om_find (s_members r)) (om_find (s_member_index r))"

text \<open>
  A member counts only on evidence: it is enabled, the last observation of its path was at the
  generation it is bound to, and the observed state authorises it under the policy of the set.
\<close>

definition member_evidence :: "bool \<Rightarrow> member_record \<Rightarrow> bool" where
  "member_evidence cond m \<longleftrightarrow> (m_usable m \<longrightarrow>
     m_admin_enabled m \<and> m_observed_generation m = Some (m_bound m) \<and>
     (m_observed_state m = Some PA_AUTHORIZED \<or>
      cond \<and> m_observed_state m = Some PA_CONDITIONALLY_AUTHORIZED))"

definition evidence_ok :: "set_record \<Rightarrow> bool" where
  "evidence_ok r \<longleftrightarrow> (\<forall>p m. om_find (s_members r) p = Some m \<longrightarrow> member_evidence (s_conditional r) m)"

text \<open>
  The published lifecycle is the derived one. The exception is real: disabling a set whose
  generation counter is exhausted is rejected after the lifecycle was already changed.
\<close>

definition lifecycle_ok :: "set_record \<Rightarrow> bool" where
  "lifecycle_ok r \<longleftrightarrow> (derived_lifecycle (s_lifecycle r) \<longrightarrow>
     s_lifecycle r = derive_published_lifecycle (s_usable r) (s_minimum r) (s_admin_enabled r) \<or>
     s_lifecycle r = SL_ADMIN_DISABLED \<and> gen_next (s_generation r) = None)"

definition derived_ok :: "set_record \<Rightarrow> bool" where
  "derived_ok r \<longleftrightarrow> s_usable r = recompute_usable_members r \<and> lifecycle_ok r"

definition terminal_ok :: "set_record \<Rightarrow> bool" where
  "terminal_ok r \<longleftrightarrow> (terminal_lifecycle (s_lifecycle r) \<longrightarrow> s_currentness r = SC_REVALIDATION_REQUIRED)"

definition set_core :: "limits \<Rightarrow> set_record \<Rightarrow> bool" where
  "set_core lim r \<longleftrightarrow> tables_ok r \<and> evidence_ok r \<and> derived_ok r \<and> terminal_ok r \<and>
     s_minimum r \<le> max_members_per_set lim \<and> gen_valid (s_generation r) \<and> key_valid (s_key r)"

lemma set_coreD:
  assumes "set_core lim r"
  shows "tables_ok r" "evidence_ok r" "derived_ok r" "terminal_ok r"
    "s_minimum r \<le> max_members_per_set lim" "gen_valid (s_generation r)" "key_valid (s_key r)"
  using assms by (simp_all add: set_core_def)

lemma set_coreI:
  "tables_ok r \<Longrightarrow> evidence_ok r \<Longrightarrow> derived_ok r \<Longrightarrow> terminal_ok r \<Longrightarrow>
   s_minimum r \<le> max_members_per_set lim \<Longrightarrow> gen_valid (s_generation r) \<Longrightarrow> key_valid (s_key r) \<Longrightarrow>
   set_core lim r"
  by (simp add: set_core_def)

lemma tables_okD:
  assumes "tables_ok r"
  shows "om_find (s_members r) p = Some m \<Longrightarrow> m_path_id m = p"
    and "om_find (s_members r) p = Some m \<Longrightarrow> om_find (s_member_index r) (m_id m) = Some p"
    and "om_find (s_member_index r) i = Some p \<Longrightarrow> \<exists>m. om_find (s_members r) p = Some m \<and> m_id m = i"
  using assms by (auto simp: tables_ok_def index_ok_def)

lemma members_frame_back:
  assumes "members_frame r r'" and "om_find (s_members r') p = Some m'"
  obtains m where "om_find (s_members r) p = Some m" "member_frame m m'"
proof -
  have "rel_option member_frame (om_find (s_members r) p) (Some m')"
    using assms by (simp add: members_frame_def flip: assms(2))
  then show ?thesis using that by (auto simp: option_rel_Some2)
qed

lemma members_frame_forth:
  assumes "members_frame r r'" and "om_find (s_members r) p = Some m"
  obtains m' where "om_find (s_members r') p = Some m'" "member_frame m m'"
proof -
  have "rel_option member_frame (Some m) (om_find (s_members r') p)"
    using assms by (simp add: members_frame_def flip: assms(2))
  then show ?thesis using that by (auto simp: option_rel_Some1)
qed

lemma members_frame_None:
  "members_frame r r' \<Longrightarrow> om_find (s_members r') p = None \<longleftrightarrow> om_find (s_members r) p = None"
  by (auto simp: members_frame_def elim!: allE [of _ p] option.rel_cases)

lemma tables_ok_frame:
  assumes "tables_ok r" and fr: "members_frame r r'"
  shows "tables_ok r'"
  unfolding tables_ok_def
proof (intro conjI allI impI index_okI)
  fix p m' assume m': "om_find (s_members r') p = Some m'"
  then obtain m where m: "om_find (s_members r) p = Some m" "member_frame m m'"
    using fr members_frame_back by blast
  show "m_path_id m' = p" and "om_find (s_member_index r') (m_id m') = Some p"
    using m tables_okD (1, 2) [OF assms(1) m(1)] fr by (simp_all add: member_frame_def members_frame_def)
next
  fix i p assume "om_find (s_member_index r') i = Some p"
  then have "om_find (s_member_index r) i = Some p" using fr by (simp add: members_frame_def)
  then obtain m where m: "om_find (s_members r) p = Some m" "m_id m = i"
    using tables_okD(3) [OF assms(1)] by blast
  then obtain m' where "om_find (s_members r') p = Some m'" "member_frame m m'"
    using fr members_frame_forth by blast
  with m show "\<exists>v. om_find (s_members r') p = Some v \<and> m_id v = i" by (auto simp: member_frame_def)
qed

lemma tables_ok_set_frame: "tables_ok r \<Longrightarrow> set_frame r r' \<Longrightarrow> tables_ok r'"
  by (simp add: set_frame_def tables_ok_frame)

section \<open>Evidence of members\<close>

lemma member_evidence_not_usable: "\<not> m_usable m \<Longrightarrow> member_evidence cond m"
  by (simp add: member_evidence_def)

lemma terminal_not_usable: "member_is_terminal m \<Longrightarrow> \<not> m_usable m"
  by (auto simp: member_is_terminal_def m_usable_def member_is_usable_def)

lemma evaluate_member_evidence: "member_evidence cond (evaluate_member cond view ex m)"
proof (cases "m_lifecycle m = ML_WITHDRAWN \<or> m_lifecycle m = ML_SUPERSEDED \<or> m_lifecycle m = ML_RETIRED")
  case True
  then show ?thesis
    by (auto simp: evaluate_member_def member_evidence_def m_usable_def member_is_usable_def)
next
  case False
  then show ?thesis
    by (auto simp: evaluate_member_def Let_def member_evidence_def m_usable_def member_is_usable_def
        observed_currentness_def classify_current_iff split: if_splits)
qed

lemma member_evidence_cong:
  "m_lifecycle m' = m_lifecycle m \<Longrightarrow> m_currentness m' = m_currentness m \<Longrightarrow>
   m_admin_enabled m' = m_admin_enabled m \<Longrightarrow> m_bound m' = m_bound m \<Longrightarrow>
   m_observed_generation m' = m_observed_generation m \<Longrightarrow> m_observed_state m' = m_observed_state m \<Longrightarrow>
   member_evidence cond m' = member_evidence cond m"
  by (simp add: member_evidence_def m_usable_def)

lemma bump_member_watermark_evidence [simp]:
  "member_evidence cond (bump_member_watermark m) = member_evidence cond m"
  by (rule member_evidence_cong) simp_all

lemma bump_member_watermark_usable [simp]: "m_usable (bump_member_watermark m) = m_usable m"
  by (simp add: m_usable_def)

lemma mark_set_not_usable_usable [simp]: "\<not> m_usable (mark_set_not_usable m)"
  by (simp add: m_usable_def member_is_usable_def)

lemma consequence_event_not_usable:
  "consequence_event l = Some ev \<Longrightarrow> \<not> m_usable m \<or> \<not> m_usable (apply_member_event ev m)"
  by (cases "m_lifecycle m"; cases l;
      simp add: consequence_event_def m_usable_def member_is_usable_def apply_member_event_lifecycle member_table_defs)

lemma consequence_event_usable: "consequence_event l = Some ev \<Longrightarrow> \<not> m_usable (apply_member_event ev m)"
  by (cases "m_lifecycle m"; cases l;
      simp add: consequence_event_def m_usable_def member_is_usable_def apply_member_event_lifecycle member_table_defs;
      blast?)

lemma evidence_ok_same: "s_members r' = s_members r \<Longrightarrow> s_conditional r' = s_conditional r \<Longrightarrow> evidence_ok r' = evidence_ok r"
  by (simp add: evidence_ok_def)

lemma evidence_ok_map:
  "(\<And>m. member_evidence (s_conditional r) m \<Longrightarrow> member_evidence (s_conditional r) (f m)) \<Longrightarrow>
   evidence_ok r \<Longrightarrow> evidence_ok (map_members f r)"
  by (auto simp: evidence_ok_def)

lemma evidence_ok_put:
  "evidence_ok r \<Longrightarrow> member_evidence (s_conditional r) m \<Longrightarrow> evidence_ok (r\<lparr>s_members := om_put p m (s_members r)\<rparr>)"
  by (simp add: evidence_ok_def)

section \<open>Derived state\<close>

lemma recompute_usable_same: "s_members r' = s_members r \<Longrightarrow> recompute_usable_members r' = recompute_usable_members r"
  by (simp add: recompute_usable_members_def)

lemma recompute_usable_upd [simp]:
  "recompute_usable_members (recompute r) = recompute_usable_members r"
  "recompute_usable_members (append_history l e ev c cx m p s r) = recompute_usable_members r"
  "recompute_usable_members (bump_set_watermark_only r) = recompute_usable_members r"
  "recompute_usable_members (r\<lparr>s_lifecycle := lc\<rparr>) = recompute_usable_members r"
  "recompute_usable_members (r\<lparr>s_currentness := cu\<rparr>) = recompute_usable_members r"
  "recompute_usable_members (r\<lparr>s_generation := g\<rparr>) = recompute_usable_members r"
  "recompute_usable_members (r\<lparr>s_usable := n\<rparr>) = recompute_usable_members r"
  by (rule recompute_usable_same; simp)+

lemma recompute_lifecycle:
  "s_lifecycle (recompute r) =
     (if derived_lifecycle (s_lifecycle r)
      then derive_published_lifecycle (recompute_usable_members r) (s_minimum r) (s_admin_enabled r)
      else s_lifecycle r)"
  by (simp add: recompute_def Let_def derived_lifecycle_def)

lemma derived_ok_recompute [simp]: "derived_ok (recompute r)"
  by (simp add: derived_ok_def lifecycle_ok_def recompute_lifecycle)

lemma derived_ok_same:
  "s_members r' = s_members r \<Longrightarrow> s_usable r' = s_usable r \<Longrightarrow> s_lifecycle r' = s_lifecycle r \<Longrightarrow>
   s_minimum r' = s_minimum r \<Longrightarrow> s_admin_enabled r' = s_admin_enabled r \<Longrightarrow>
   s_generation r' = s_generation r \<Longrightarrow> derived_ok r' = derived_ok r"
  by (simp add: derived_ok_def lifecycle_ok_def recompute_usable_members_def)

lemma terminal_ok_same:
  "s_lifecycle r' = s_lifecycle r \<Longrightarrow> s_currentness r' = s_currentness r \<Longrightarrow> terminal_ok r' = terminal_ok r"
  by (simp add: terminal_ok_def)

lemma terminal_recompute [simp]: "terminal_lifecycle (s_lifecycle (recompute r)) = terminal_lifecycle (s_lifecycle r)"
  using derived_not_terminal [OF derive_published_derived] derived_not_terminal
  by (auto simp: recompute_lifecycle)

lemma terminal_ok_recompute [simp]: "terminal_ok (recompute r) = terminal_ok r"
  by (simp add: terminal_ok_def)

text \<open>Away from an exhausted counter, recomputing a stored record is the identity.\<close>

lemma recompute_stored: "derived_ok r \<Longrightarrow> gen_next (s_generation r) \<noteq> None \<Longrightarrow> recompute r = r"
  by (auto simp: derived_ok_def lifecycle_ok_def recompute_def Let_def derived_lifecycle_def)

lemma derived_ok_generation:
  assumes "derived_ok r" and "gen_next (s_generation r) \<noteq> None \<or> g = s_generation r"
  shows "derived_ok (r\<lparr>s_generation := g\<rparr>)"
  using assms by (auto simp: derived_ok_def lifecycle_ok_def recompute_usable_members_def)

lemma gen_advance_exhausted: "gen_next g = None \<Longrightarrow> gen_advance g = g"
  by (simp add: gen_advance_def)

lemma derived_ok_advance: "derived_ok r \<Longrightarrow> derived_ok (r\<lparr>s_generation := gen_advance (s_generation r)\<rparr>)"
  by (rule derived_ok_generation) (auto simp: gen_advance_def split: option.splits)

lemma recompute_usable_map:
  "(\<And>m. m_usable (f m) = m_usable m) \<Longrightarrow> recompute_usable_members (map_members f r) = recompute_usable_members r"
  by (simp add: recompute_usable_members_def map_members_def om_count_map)

lemma derived_ok_bump [simp]: "derived_ok (bump_set_watermark r) = derived_ok r"
proof -
  have "recompute_usable_members (bump_set_watermark r) = recompute_usable_members r"
    by (simp add: bump_set_watermark_def recompute_usable_map)
  then show ?thesis by (simp add: derived_ok_def lifecycle_ok_def bump_set_watermark_def)
qed

section \<open>The operations keep the invariant\<close>

lemma set_core_same:
  "s_members r' = s_members r \<Longrightarrow> s_member_index r' = s_member_index r \<Longrightarrow> s_key r' = s_key r \<Longrightarrow>
   s_conditional r' = s_conditional r \<Longrightarrow> s_usable r' = s_usable r \<Longrightarrow> s_lifecycle r' = s_lifecycle r \<Longrightarrow>
   s_currentness r' = s_currentness r \<Longrightarrow> s_minimum r' = s_minimum r \<Longrightarrow>
   s_admin_enabled r' = s_admin_enabled r \<Longrightarrow> s_generation r' = s_generation r \<Longrightarrow>
   set_core lim r' = set_core lim r"
  by (simp add: set_core_def derived_ok_same [of r' r] terminal_ok_same [of r' r]
      evidence_ok_same [of r' r] tables_ok_def)

lemma set_core_upd [simp]:
  "set_core lim (append_history l e ev c cx m p s r) = set_core lim r"
  "set_core lim (r\<lparr>s_provenance := pv\<rparr>) = set_core lim r"
  "set_core lim (r\<lparr>s_revocation := rv\<rparr>) = set_core lim r"
  "set_core lim (r\<lparr>s_withdrawal_reason := wr\<rparr>) = set_core lim r"
  "set_core lim (r\<lparr>s_superseded_by := sb\<rparr>) = set_core lim r"
  "set_core lim (r\<lparr>s_supersedes := sp\<rparr>) = set_core lim r"
  "set_core lim (r\<lparr>s_membership_generation := mg\<rparr>) = set_core lim r"
  "set_core lim (r\<lparr>s_authority_generation := ag\<rparr>) = set_core lim r"
  "set_core lim (r\<lparr>s_governing_epoch := ge\<rparr>) = set_core lim r"
  "set_core lim (bump_set_watermark_only r) = set_core lim r"
  by (rule set_core_same; simp)+

lemma tables_ok_same:
  "s_members r' = s_members r \<Longrightarrow> s_member_index r' = s_member_index r \<Longrightarrow> tables_ok r' = tables_ok r"
  by (simp add: tables_ok_def)

lemma set_core_recompute:
  "tables_ok r \<Longrightarrow> evidence_ok r \<Longrightarrow> terminal_ok r \<Longrightarrow> s_minimum r \<le> max_members_per_set lim \<Longrightarrow>
   gen_valid (s_generation r) \<Longrightarrow> key_valid (s_key r) \<Longrightarrow> set_core lim (recompute r)"
  by (simp add: set_core_def tables_ok_same [of "recompute r" r] evidence_ok_same [of "recompute r" r])

lemma set_core_generation:
  assumes "set_core lim r" and "gen_next (s_generation r) \<noteq> None \<or> g = s_generation r" and "gen_valid g"
  shows "set_core lim (r\<lparr>s_generation := g\<rparr>)"
  using assms
  by (simp add: set_core_def derived_ok_generation tables_ok_def evidence_ok_def terminal_ok_def)

lemma set_core_advance:
  assumes "set_core lim r"
  shows "set_core lim (r\<lparr>s_generation := gen_advance (s_generation r)\<rparr>)"
  using assms set_coreD(6) [OF assms]
  by (intro set_core_generation) (auto simp: gen_advance_def gen_next_valid split: option.splits)

lemma advance_set_generation_Some:
  "advance_set_generation r = Some r' \<longleftrightarrow>
     (\<exists>g. gen_next (s_generation r) = Some g \<and> r' = r\<lparr>s_generation := g\<rparr>)"
  by (auto simp: advance_set_generation_def split: option.splits)

lemma advance_membership_generation_Some:
  "advance_membership_generation r = Some r' \<longleftrightarrow>
     (\<exists>g. gen_next (s_membership_generation r) = Some g \<and> r' = r\<lparr>s_membership_generation := g\<rparr>)"
  by (auto simp: advance_membership_generation_def split: option.splits)

lemma set_core_advance_set:
  "set_core lim r \<Longrightarrow> advance_set_generation r = Some r' \<Longrightarrow> set_core lim r'"
  by (auto simp: advance_set_generation_Some gen_next_valid intro: set_core_generation)

lemma set_core_currentness:
  "set_core lim r \<Longrightarrow> \<not> terminal_lifecycle (s_lifecycle r) \<or> c = SC_REVALIDATION_REQUIRED \<Longrightarrow>
   set_core lim (r\<lparr>s_currentness := c\<rparr>)"
  by (auto simp: set_core_def tables_ok_def evidence_ok_def terminal_ok_def derived_ok_def lifecycle_ok_def)

lemma bump_set_watermark_simps [simp]:
  "s_id (bump_set_watermark r) = s_id r"
  "s_key (bump_set_watermark r) = s_key r"
  "s_generation (bump_set_watermark r) = s_generation r"
  "s_lifecycle (bump_set_watermark r) = s_lifecycle r"
  "s_currentness (bump_set_watermark r) = s_currentness r"
  "s_conditional (bump_set_watermark r) = s_conditional r"
  "s_minimum (bump_set_watermark r) = s_minimum r"
  "s_admin_enabled (bump_set_watermark r) = s_admin_enabled r"
  "om_find (s_members (bump_set_watermark r)) p = map_option bump_member_watermark (om_find (s_members r) p)"
  by (simp_all add: bump_set_watermark_def)

lemma evidence_ok_bump: "evidence_ok r \<Longrightarrow> evidence_ok (bump_set_watermark r)"
  by (auto simp: evidence_ok_def)

lemma set_core_bump: "set_core lim r \<Longrightarrow> set_core lim (bump_set_watermark r)"
  by (simp add: set_core_def evidence_ok_bump tables_ok_set_frame [OF _ bump_set_watermark_frame] terminal_ok_def)

subsection \<open>Transitions\<close>

lemma apply_transition_rejects: "(\<exists>c. apply_transition r ev = Inl c) \<longleftrightarrow> \<not> transition_allowed (s_lifecycle r) ev"
  by (auto simp: apply_transition_def transition_allowed_def Let_def split: set_transition_action.splits)

lemma apply_transition_allowed: "apply_transition r ev = Inr r' \<Longrightarrow> transition_allowed (s_lifecycle r) ev"
  using apply_transition_rejects [of r ev] by auto

lemma apply_transition_keeps:
  assumes "apply_transition r ev = Inr r'"
  shows "s_members r' = s_members r" "s_member_index r' = s_member_index r" "s_id r' = s_id r"
    "s_key r' = s_key r" "s_generation r' = s_generation r"
    "s_membership_generation r' = s_membership_generation r" "s_watermark r' = s_watermark r"
    "s_minimum r' = s_minimum r" "s_admin_enabled r' = s_admin_enabled r"
    "s_conditional r' = s_conditional r" "s_history r' = s_history r"
  using assms
  by (auto simp: apply_transition_def Let_def split: set_transition_action.splits)

lemma apply_transition_frame: "apply_transition r ev = Inr r' \<Longrightarrow> set_frame r r'"
  by (rule set_frame_same) (simp_all add: apply_transition_keeps)

lemma apply_transition_terminal_ok:
  assumes ok: "terminal_ok r" and step: "apply_transition r ev = Inr r'"
  shows "terminal_ok r'"
proof (cases "set_transition (s_lifecycle r) ev")
  case SA_BECOME_PUBLISHED
  then have "derived_lifecycle (s_lifecycle r')"
    using step by (auto simp: apply_transition_def Let_def derive_published_derived)
  then show ?thesis using derived_not_terminal by (simp add: terminal_ok_def)
next
  case SA_RECOMPUTE
  then show ?thesis using ok step by (auto simp: apply_transition_def)
next
  case SA_STAY
  then show ?thesis using ok step by (simp add: apply_transition_def)
qed (use step in \<open>auto simp: apply_transition_def terminal_ok_def terminal_lifecycle_def\<close>)

lemma derived_okD: "derived_ok r \<Longrightarrow> s_usable r = recompute_usable_members r"
  by (simp add: derived_ok_def)

lemma derived_ok_lifecycle:
  "s_usable r = recompute_usable_members r \<Longrightarrow> \<not> derived_lifecycle l \<Longrightarrow> derived_ok (r\<lparr>s_lifecycle := l\<rparr>)"
  by (simp add: derived_ok_def lifecycle_ok_def)

lemma derived_ok_currentness [simp]: "derived_ok (r\<lparr>s_currentness := c\<rparr>) = derived_ok r"
  by (rule derived_ok_same) simp_all

lemma derived_ok_published:
  "derived_ok (r\<lparr>s_usable := recompute_usable_members r,
      s_lifecycle := derive_published_lifecycle (recompute_usable_members r) (s_minimum r) (s_admin_enabled r)\<rparr>)"
  by (simp add: derived_ok_def lifecycle_ok_def)

lemma apply_transition_derived_ok:
  assumes ok: "derived_ok r" and step: "apply_transition r ev = Inr r'"
    and ex: "ev = SE_ADMIN_DISABLED \<Longrightarrow> gen_next (s_generation r) = None"
  shows "derived_ok r'"
proof (cases "set_transition (s_lifecycle r) ev")
  case SA_BECOME_ADMIN_DISABLED
  then have "r' = r\<lparr>s_lifecycle := SL_ADMIN_DISABLED\<rparr>" using step by (simp add: apply_transition_def)
  moreover have "gen_next (s_generation r) = None"
    using SA_BECOME_ADMIN_DISABLED ex by (simp add: set_transition_admin_disabled)
  ultimately show ?thesis using ok by (simp add: derived_ok_def lifecycle_ok_def)
next
  case SA_BECOME_PUBLISHED
  with step have "r' = r\<lparr>s_usable := recompute_usable_members r,
      s_lifecycle := derive_published_lifecycle (recompute_usable_members r) (s_minimum r) (s_admin_enabled r)\<rparr>"
    by (simp add: apply_transition_def Let_def)
  then show ?thesis by (simp only: derived_ok_published)
next
  case SA_RECOMPUTE
  then show ?thesis using step by (auto simp: apply_transition_def)
next
  case SA_STAY
  then show ?thesis using ok step by (simp add: apply_transition_def)
qed (use derived_okD [OF ok] step in \<open>auto simp: apply_transition_def derived_lifecycle_def derived_ok_def lifecycle_ok_def\<close>)

lemma apply_transition_core:
  assumes core: "set_core lim r" and step: "apply_transition r ev = Inr r'"
    and ex: "ev = SE_ADMIN_DISABLED \<Longrightarrow> gen_next (s_generation r) = None"
  shows "set_core lim r'"
proof (rule set_coreI)
  show "derived_ok r'" and "terminal_ok r'"
    using set_coreD [OF core] step ex by (blast intro: apply_transition_derived_ok apply_transition_terminal_ok)+
  show "tables_ok r'" using set_coreD(1) [OF core] apply_transition_keeps(1,2) [OF step] by (simp add: tables_ok_def)
  show "evidence_ok r'" using set_coreD(2) [OF core] apply_transition_keeps(1,10) [OF step] by (simp add: evidence_ok_def)
qed (use set_coreD [OF core] apply_transition_keeps [OF step] in simp_all)

text \<open>A transition that stays or recomputes changes nothing in a stored record that can still advance.\<close>

lemma apply_transition_stored:
  assumes "derived_ok r" and "gen_next (s_generation r) \<noteq> None"
    and "set_transition (s_lifecycle r) ev = SA_STAY \<or> set_transition (s_lifecycle r) ev = SA_RECOMPUTE"
  shows "apply_transition r ev = Inr r"
  using assms recompute_stored [OF assms(1,2)] by (auto simp: apply_transition_def)

subsection \<open>Member consequences\<close>

lemma refresh_usable_simps [simp]:
  "s_members (refresh_usable r) = s_members r" "s_member_index (refresh_usable r) = s_member_index r"
  "s_id (refresh_usable r) = s_id r" "s_key (refresh_usable r) = s_key r"
  "s_generation (refresh_usable r) = s_generation r"
  "s_lifecycle (refresh_usable r) = s_lifecycle r" "s_currentness (refresh_usable r) = s_currentness r"
  "s_minimum (refresh_usable r) = s_minimum r" "s_conditional (refresh_usable r) = s_conditional r"
  "s_admin_enabled (refresh_usable r) = s_admin_enabled r"
  "recompute_usable_members (refresh_usable r) = recompute_usable_members r"
  by (simp_all add: refresh_usable_def)

lemma refresh_usable_frame [simp]: "set_frame r (refresh_usable r)"
  by (rule set_frame_same) (simp_all add: refresh_usable_def)

lemma set_core_refresh:
  assumes "tables_ok r" "evidence_ok r" "terminal_ok r" "s_minimum r \<le> max_members_per_set lim"
    "gen_valid (s_generation r)" "key_valid (s_key r)" "\<not> derived_lifecycle (s_lifecycle r)"
  shows "set_core lim (refresh_usable r)"
  using assms
  by (simp add: set_core_def tables_ok_same [of "refresh_usable r" r] evidence_ok_same [of "refresh_usable r" r]
      derived_ok_def lifecycle_ok_def terminal_ok_same [of "refresh_usable r" r]) (simp add: refresh_usable_def)

lemma apply_member_consequences_frame [simp]:
  "set_frame r (apply_member_consequences lim ep l l' ctx r)"
proof -
  have "set_frame r (refresh_usable (bump_set_watermark (map_members f r)))"
    if "\<And>m. member_frame m (f m)" for f
    by (rule set_frame_trans [OF set_frame_map [OF that] set_frame_trans [OF bump_set_watermark_frame refresh_usable_frame]])
  from this [of mark_set_not_usable] this [of "apply_member_event ev" for ev] show ?thesis
    unfolding apply_member_consequences_def
    by (auto simp: apply_member_event_frame intro: set_frame_trans [OF _ append_history_frame] split: option.splits)
qed

lemma set_core_member_map:
  assumes core: "set_core lim r" and f: "\<And>m. member_frame m (f m)"
    and u: "\<And>m. \<not> m_usable (f m)" and l: "\<not> derived_lifecycle (s_lifecycle r)"
  shows "set_core lim (refresh_usable (bump_set_watermark (map_members f r)))"
proof (rule set_core_refresh)
  show "tables_ok (bump_set_watermark (map_members f r))"
    using set_coreD(1) [OF core] set_frame_map [OF f] by (blast intro: tables_ok_set_frame bump_set_watermark_frame)
  show "evidence_ok (bump_set_watermark (map_members f r))"
    by (rule evidence_ok_bump) (auto simp: evidence_ok_def u intro: member_evidence_not_usable)
qed (use set_coreD [OF core] l in \<open>simp_all add: terminal_ok_def\<close>)

lemma apply_member_consequences_core:
  assumes "set_core lim r" and "to_state = s_lifecycle r"
  shows "set_core lim (apply_member_consequences lim ep from_state to_state ctx r)"
proof -
  have "\<not> derived_lifecycle (s_lifecycle r)" if "s_lifecycle r = SL_REVOKED \<or> consequence_event (s_lifecycle r) \<noteq> None"
    using that by (auto simp: consequence_event_def derived_lifecycle_def split: set_lifecycle.splits)
  then show ?thesis
    using assms consequence_event_usable
    by (auto simp: apply_member_consequences_def apply_member_event_frame
        intro!: set_core_member_map split: option.splits)
qed

subsection \<open>Re-evaluation\<close>

lemma reevaluate_frame [simp]: "set_frame r (reevaluate_members_from_observations r)"
  unfolding reevaluate_members_from_observations_def
  by (rule set_frame_trans [OF set_frame_map recompute_frame]) simp

lemma reevaluate_core:
  assumes "set_core lim r"
  shows "set_core lim (reevaluate_members_from_observations (r\<lparr>s_conditional := c\<rparr>))"
proof -
  define f where "f = (\<lambda>m. if member_is_terminal m then m else evaluate_member c (observation_of m) True m)"
  let ?r = "r\<lparr>s_conditional := c\<rparr>"
  have frame: "member_frame m (f m)" and ev: "member_evidence c (f m)" for m
    by (simp_all add: f_def evaluate_member_evidence member_evidence_not_usable terminal_not_usable)
  have "tables_ok ?r" using set_coreD(1) [OF assms] by (simp add: tables_ok_def)
  then have "tables_ok (map_members f ?r)"
    by (rule tables_ok_set_frame) (rule set_frame_map, rule frame)
  moreover have "evidence_ok (map_members f ?r)" by (auto simp: evidence_ok_def ev)
  ultimately have "set_core lim (recompute (map_members f ?r))"
    using set_coreD [OF assms] by (intro set_core_recompute) (simp_all add: terminal_ok_def)
  moreover have "reevaluate_members_from_observations ?r = recompute (map_members f ?r)"
    by (simp add: reevaluate_members_from_observations_def f_def cong: if_cong)
  ultimately show ?thesis by simp
qed

end
