(* ===== verification/Engine.thy ===== *)
theory Engine
  imports Set_Invariant "HOL-Library.Product_Lexorder"
begin

text \<open>
  \<open>src/engine_impl.hpp\<close>, \<open>src/fabric_engine.cpp\<close>, \<open>src/fabric_commit.cpp\<close> and the snapshot part of
  \<open>src/fabric_query.cpp\<close>: the state of the engine and the helpers that every operation is built
  from -- authority, attempt and lookup checks, the path index, history and snapshot capture, the
  commit, and the application of a Path Authority view to the dependent sets.

  The engine's lock makes every critical section atomic; a critical section is a function from
  the state to the outcome and the next state. A set record that the C++ changes through a
  reference into \<open>sets\<close> is a value here that \<open>put_set\<close> writes back under its own identity.
  \<open>std::string\<close> arguments of outcomes are written out under \<open>msg\<close>.
\<close>

section \<open>State\<close>

record attempt_record =
  at_attempt :: attempt_id
  at_fingerprint :: digest128
  at_outcome :: fabric_outcome

type_synonym worker_key = "publisher_id \<times> worker_boot_id"

text \<open>
  \<open>path_authority\<close> points to the engine's own directory or to an external source that
  \<open>bind_path_authority\<close> installed; \<open>e_external\<close> tells which. What an external source answers is not
  engine state: it is a function passed to the operations that look paths up.
\<close>

record engine =
  e_limits :: limits
  e_epoch :: coordinator_epoch
  e_authority_generation :: authority_generation
  e_sets :: "(set_id, set_record) omap"
  e_key_index :: "(set_key, set_id) omap"
  e_path_dependents :: "(path_id, set_id oset) omap"
  e_registrations :: "(worker_key, publisher_registration) omap"
  e_fences :: "(worker_key, fence_record) omap"
  e_attempts :: "attempt_record list"
  e_attempt_index :: "(attempt_id, digest128) omap"
  e_snapshots :: "(set_id, set_snapshot list) omap"
  e_directory :: directory
  e_external :: bool
  e_ids :: id_factory
  e_total_members :: nat

type_synonym answer = "fabric_outcome \<times> engine"

record fabric_config =
  fc_limits :: limits
  fc_initial_epoch :: coordinator_epoch
  fc_initial_authority_generation :: authority_generation

definition engine_init :: "string \<Rightarrow> fabric_config \<Rightarrow> engine" where
  "engine_init nonce config =
     \<lparr>e_limits = fc_limits config,
      e_epoch = (if gen_valid (fc_initial_epoch config) then fc_initial_epoch config else gen_first),
      e_authority_generation =
        (if gen_valid (fc_initial_authority_generation config)
         then fc_initial_authority_generation config else gen_first),
      e_sets = om_empty, e_key_index = om_empty, e_path_dependents = om_empty,
      e_registrations = om_empty, e_fences = om_empty, e_attempts = [], e_attempt_index = om_empty,
      e_snapshots = om_empty, e_directory = om_empty, e_external = False,
      e_ids = \<lparr>f_prefix = ''mpf'', f_nonce = nonce, f_counter = 0\<rparr>, e_total_members = 0\<rparr>"

definition put_set :: "set_record \<Rightarrow> engine \<Rightarrow> engine" where
  "put_set r e = e\<lparr>e_sets := om_put (s_id r) r (e_sets e)\<rparr>"

section \<open>Authority, attempts and lookup\<close>

definition worker_of :: "mutation_context \<Rightarrow> worker_key" where
  "worker_of ctx = (cx_publisher ctx, cx_worker_boot ctx)"

text \<open>Stages 2 to 5 of the rejection precedence.\<close>

definition authority_check ::
  "mutation_context \<Rightarrow> set_key option \<Rightarrow> set_id option \<Rightarrow> engine \<Rightarrow> fabric_outcome" where
  "authority_check ctx key sid e =
     (if \<not> gen_valid (cx_epoch ctx) \<or> \<not> id_valid (cx_publisher ctx) \<or> \<not> id_valid (cx_worker_boot ctx) \<or>
         \<not> id_valid (cx_session ctx) \<or> \<not> id_valid (cx_attempt ctx)
      then make_rejection OC_UNAUTHORIZED_CALLER
             (msg (''mutation context is missing a required caller identity element: '' @ context_render ctx))
      else if \<not> (cx_epoch ctx = e_epoch e)
      then make_rejection OC_STALE_EPOCH
             (msg (''request epoch '' @ gen_text (cx_epoch ctx) @ '' is not the governing epoch '' @
                   gen_text (e_epoch e)))
      else case om_find (e_fences e) (worker_of ctx) of
        Some fence \<Rightarrow> make_rejection OC_STALE_WORKER (msg (''worker boot is fenced: '' @ fence_render fence))
      | None \<Rightarrow>
        (case om_find (e_registrations e) (worker_of ctx) of
           None \<Rightarrow> make_rejection OC_UNKNOWN_PUBLISHER
             (msg (''publisher/boot is not registered at the governing epoch: '' @
                   id_text (cx_publisher ctx) @ ''/'' @ id_text (cx_worker_boot ctx)))
         | Some registration \<Rightarrow>
           if \<not> (pr_epoch registration = e_epoch e)
           then make_rejection OC_STALE_WORKER
             (msg (''registration for '' @ id_text (cx_publisher ctx) @ ''/'' @ id_text (cx_worker_boot ctx) @
                   '' belongs to epoch '' @ gen_text (pr_epoch registration) @
                   '', not the governing epoch '' @ gen_text (e_epoch e)))
           else let scope = pr_scope registration in
             (case key of
                Some k \<Rightarrow>
                  if \<not> covers_namespace scope (k_fabric k) (k_name_space k)
                  then make_rejection OC_UNAUTHORIZED_SCOPE
                    (msg (''scope '' @ scope_render scope @ '' does not cover namespace '' @ key_render k))
                  else make_outcome OC_OK []
              | None \<Rightarrow>
                (case sid of
                   None \<Rightarrow> make_rejection OC_UNAUTHORIZED_SCOPE
                     (msg ''operation requires a set identity to evaluate authority scope'')
                 | Some set_id \<Rightarrow>
                   (case om_find (e_sets e) set_id of
                      None \<Rightarrow>
                        if \<not> covers_all_in_scope scope \<and> set_id \<notin> set (sc_set_ids scope)
                        then make_rejection OC_UNAUTHORIZED_SCOPE
                          (msg (''set '' @ id_text set_id @ '' is outside scope '' @ scope_render scope))
                        else make_rejection OC_SET_NOT_FOUND (msg (''no such set: '' @ id_text set_id))
                    | Some record \<Rightarrow>
                        if \<not> covers scope (k_fabric (s_key record)) (k_name_space (s_key record)) (s_id record)
                        then make_rejection OC_UNAUTHORIZED_SCOPE
                          (msg (''scope '' @ scope_render scope @ '' does not cover set '' @
                                key_render (s_key record)))
                        else make_outcome OC_OK [])))))"

text \<open>Stage 6: an attempt that is known already.\<close>

definition attempt_check :: "mutation_context \<Rightarrow> string \<Rightarrow> string list \<Rightarrow> engine \<Rightarrow> fabric_outcome option" where
  "attempt_check ctx operation flds e =
     (case om_find (e_attempt_index e) (cx_attempt ctx) of
        None \<Rightarrow> None
      | Some known \<Rightarrow>
          if \<not> (known = fingerprint_request operation flds)
          then Some (make_rejection OC_ATTEMPT_CONFLICT
            (msg (''attempt '' @ id_text (cx_attempt ctx) @
                  '' was already used for a different semantic request'')))
          else (case List.find (\<lambda>a. at_attempt a = cx_attempt ctx) (e_attempts e) of
                  Some a \<Rightarrow> Some ((at_outcome a)\<lparr>o_code := OC_IDEMPOTENT, o_stage := ST_NONE,
                     o_detail := msg (''exact replay of an already-committed attempt; original outcome '' @
                                      outcome_text (o_code (at_outcome a)))\<rparr>)
                | None \<Rightarrow> Some (make_rejection OC_ATTEMPT_CONFLICT
                    (msg (''attempt index and attempt log disagree for '' @ id_text (cx_attempt ctx))))))"

fun trim_attempts ::
  "nat \<Rightarrow> attempt_record list \<Rightarrow> (attempt_id, digest128) omap \<Rightarrow>
   attempt_record list \<times> (attempt_id, digest128) omap" where
  "trim_attempts limit [] idx = ([], idx)"
| "trim_attempts limit (front # rest) idx =
     (if length (front # rest) > limit
      then trim_attempts limit rest
             (if om_find idx (at_attempt front) = Some (at_fingerprint front)
              then om_del (at_attempt front) idx else idx)
      else (front # rest, idx))"

definition record_attempt ::
  "mutation_context \<Rightarrow> string \<Rightarrow> string list \<Rightarrow> fabric_outcome \<Rightarrow> engine \<Rightarrow> engine" where
  "record_attempt ctx operation flds outcome e =
     (let entry = \<lparr>at_attempt = cx_attempt ctx, at_fingerprint = fingerprint_request operation flds,
                   at_outcome = outcome\<rparr>;
          idx = om_put (cx_attempt ctx) (fingerprint_request operation flds) (e_attempt_index e);
          trimmed = trim_attempts (max_attempts (e_limits e)) (e_attempts e @ [entry]) idx
      in e\<lparr>e_attempts := fst trimmed, e_attempt_index := snd trimmed\<rparr>)"

definition require_set :: "set_id \<Rightarrow> engine \<Rightarrow> fabric_outcome + set_record" where
  "require_set sid e =
     (case om_find (e_sets e) sid of
        None \<Rightarrow> Inl (make_rejection OC_SET_NOT_FOUND (msg (''no such set: '' @ id_text sid)))
      | Some r \<Rightarrow> Inr r)"

text \<open>
  The opening statements that the set operations have in common: \<open>authority_check_locked\<close>, then
  \<open>attempt_check_locked\<close>, then \<open>require_set_locked\<close>, each of which may return.
\<close>

definition admit ::
  "mutation_context \<Rightarrow> set_id \<Rightarrow> string \<Rightarrow> string list \<Rightarrow> engine \<Rightarrow> fabric_outcome + set_record" where
  "admit ctx sid operation flds e =
     (let authority = authority_check ctx None (Some sid) e
      in if \<not> succeeded authority then Inl authority
         else case attempt_check ctx operation flds e of
                Some replay \<Rightarrow> Inl replay
              | None \<Rightarrow> require_set sid e)"

definition expected_set_generation_matches :: "mutation_context \<Rightarrow> set_record \<Rightarrow> bool" where
  "expected_set_generation_matches ctx r =
     (case cx_expected_set_generation ctx of None \<Rightarrow> True | Some g \<Rightarrow> s_generation r = g)"

definition stale_set_generation :: "mutation_context \<Rightarrow> set_record \<Rightarrow> fabric_outcome" where
  "stale_set_generation ctx r =
     make_rejection OC_STALE_SET_GENERATION
       (msg (''expected set generation '' @
             (case cx_expected_set_generation ctx of None \<Rightarrow> [] | Some g \<Rightarrow> gen_text g) @
             '' but the set is at '' @ gen_text (s_generation r)))"

definition expected_member_generation_matches :: "mutation_context \<Rightarrow> member_record \<Rightarrow> bool" where
  "expected_member_generation_matches ctx m =
     (case cx_expected_member_generation ctx of None \<Rightarrow> True | Some g \<Rightarrow> m_generation m = g)"

definition stale_member_generation :: "mutation_context \<Rightarrow> member_record \<Rightarrow> fabric_outcome" where
  "stale_member_generation ctx m =
     make_rejection OC_STALE_MEMBER_GENERATION
       (msg (''expected member generation '' @
             (case cx_expected_member_generation ctx of None \<Rightarrow> [] | Some g \<Rightarrow> gen_text g) @
             '' but the member is at '' @ gen_text (m_generation m)))"

definition set_generation_available :: "set_record \<Rightarrow> bool" where
  "set_generation_available r \<longleftrightarrow> gen_next (s_generation r) \<noteq> None"

definition membership_generation_available :: "set_record \<Rightarrow> bool" where
  "membership_generation_available r \<longleftrightarrow> gen_next (s_membership_generation r) \<noteq> None"

section \<open>Path index\<close>

definition dependents_of :: "path_id \<Rightarrow> engine \<Rightarrow> set_id oset" where
  "dependents_of path e = (case om_find (e_path_dependents e) path of None \<Rightarrow> om_empty | Some s \<Rightarrow> s)"

definition index_path :: "set_id \<Rightarrow> path_id \<Rightarrow> engine \<Rightarrow> engine" where
  "index_path sid path e =
     e\<lparr>e_path_dependents := om_put path (om_put sid () (dependents_of path e)) (e_path_dependents e)\<rparr>"

definition unindex_path :: "set_id \<Rightarrow> path_id \<Rightarrow> engine \<Rightarrow> engine" where
  "unindex_path sid path e =
     (case om_find (e_path_dependents e) path of
        None \<Rightarrow> e
      | Some s \<Rightarrow>
          (let s' = om_del sid s
           in if om_size s' = 0 then e\<lparr>e_path_dependents := om_del path (e_path_dependents e)\<rparr>
              else e\<lparr>e_path_dependents := om_put path s' (e_path_dependents e)\<rparr>))"

section \<open>Snapshots\<close>

definition snapshot_id_for :: "digest128 \<Rightarrow> snapshot_id" where
  "snapshot_id_for digest =
     require_or_terminate (require_strong_id 96 ''SnapshotId'' (''snap-'' @ digest_to_hex digest))"

definition make_member_snapshot :: "member_record \<Rightarrow> member_snapshot" where
  "make_member_snapshot m =
     \<lparr>ms_id = m_id m, ms_path_id = m_path_id m, ms_bound = m_bound m, ms_generation = m_generation m,
      ms_lifecycle = m_lifecycle m, ms_currentness = m_currentness m,
      ms_admin_enabled = m_admin_enabled m, ms_usable = member_inputs_usable m,
      ms_watermark = m_watermark m, ms_pending = m_pending m, ms_predecessor = m_predecessor m,
      ms_successor = m_successor m, ms_provenance = m_provenance m\<rparr>"

definition make_snapshot :: "set_record \<Rightarrow> set_snapshot" where
  "make_snapshot r =
     \<lparr>ss_snapshot_id = snapshot_id_for (compute_set_digest r),
      ss_set_id = s_id r, ss_key = s_key r, ss_generation = s_generation r,
      ss_membership_generation = s_membership_generation r,
      ss_authority_generation = s_authority_generation r,
      ss_lifecycle = s_lifecycle r, ss_currentness = s_currentness r,
      ss_readiness = route_readiness (s_lifecycle r) (s_currentness r),
      ss_admin_enabled = s_admin_enabled r, ss_minimum = s_minimum r, ss_conditional = s_conditional r,
      ss_usable_count = s_usable r, ss_member_count = om_size (s_members r),
      ss_governing_epoch = s_governing_epoch r, ss_provenance = s_provenance r,
      ss_superseded_by = s_superseded_by r, ss_supersedes = s_supersedes r,
      ss_revocation = s_revocation r, ss_withdrawal_reason = s_withdrawal_reason r,
      ss_members = map make_member_snapshot (om_values (s_members r)),
      ss_history = s_history r, ss_digest = compute_set_digest r\<rparr>"

definition snapshots_of :: "set_id \<Rightarrow> engine \<Rightarrow> set_snapshot list" where
  "snapshots_of sid e = (case om_find (e_snapshots e) sid of None \<Rightarrow> [] | Some h \<Rightarrow> h)"

definition capture_snapshot :: "set_record \<Rightarrow> engine \<Rightarrow> engine" where
  "capture_snapshot r e =
     (let snapshot = make_snapshot r; history = snapshots_of (s_id r) e
      in if history \<noteq> [] \<and> ss_snapshot_id (last history) = ss_snapshot_id snapshot then e
         else e\<lparr>e_snapshots := om_put (s_id r)
                 (keep_last (max_snapshot_history (e_limits e)) (history @ [snapshot])) (e_snapshots e)\<rparr>)"

section \<open>Commit\<close>

definition finalize_outcome :: "set_record \<Rightarrow> fabric_outcome \<Rightarrow> fabric_outcome" where
  "finalize_outcome r outcome =
     outcome\<lparr>o_set_id := Some (s_id r), o_set_generation := Some (s_generation r),
       o_membership_generation := Some (s_membership_generation r),
       o_authority_generation := Some (s_authority_generation r),
       o_lifecycle := Some (s_lifecycle r), o_currentness := Some (s_currentness r),
       o_usable_members := Some (consumable_member_count r),
       o_minimum_usable_members := Some (s_minimum r),
       o_digest := Some (compute_set_digest r)\<rparr>"

text \<open>
  \<open>prune_archive_locked\<close>: the relations dropped are the first of the terminal ones in path order,
  as many as exceed the bound; then lineage references to them are cleared.
\<close>

definition archived_paths :: "set_record \<Rightarrow> path_id list" where
  "archived_paths r = map fst (filter (\<lambda>(p, m). member_is_terminal m) (om_entries (s_members r)))"

definition prune_victim :: "path_id \<Rightarrow> member_id list \<times> set_record \<times> engine \<Rightarrow> member_id list \<times> set_record \<times> engine" where
  "prune_victim victim acc =
     (case acc of (pruned, r, e) \<Rightarrow>
        (case om_find (s_members r) victim of
           None \<Rightarrow> acc
         | Some m \<Rightarrow>
             (pruned @ [m_id m],
              r\<lparr>s_member_index := om_del (m_id m) (s_member_index r), s_members := om_del victim (s_members r)\<rparr>,
              (unindex_path (s_id r) victim e)\<lparr>e_total_members := e_total_members e - 1\<rparr>)))"

definition clear_lineage :: "member_id list \<Rightarrow> member_record \<Rightarrow> member_record" where
  "clear_lineage pruned m =
     (let m1 = (case m_predecessor m of
                  Some p \<Rightarrow> if p \<in> set pruned then m\<lparr>m_predecessor := None\<rparr> else m | None \<Rightarrow> m)
      in case m_successor m1 of
           Some s \<Rightarrow> if s \<in> set pruned then m1\<lparr>m_successor := None\<rparr> else m1 | None \<Rightarrow> m1)"

definition prune_archive :: "set_record \<Rightarrow> engine \<Rightarrow> set_record \<times> engine" where
  "prune_archive r e =
     (let archived = archived_paths r;
          victims = take (length archived - max_archived_members_per_set (e_limits e)) archived
      in case fold prune_victim victims ([], r, e) of
           (pruned, r', e') \<Rightarrow>
             if pruned = [] then (r', e') else (map_members (clear_lineage pruned) r', e'))"

record commit_spec =
  cs_advance_set_generation :: bool
  cs_advance_membership_generation :: bool
  cs_event :: set_event
  cs_cause :: membership_cause
  cs_member_id :: "member_id option"
  cs_path_id :: "path_id option"
  cs_summary :: string

definition commit_spec_for :: "set_event \<Rightarrow> membership_cause \<Rightarrow> string \<Rightarrow> commit_spec" where
  "commit_spec_for event cause summary =
     \<lparr>cs_advance_set_generation = True, cs_advance_membership_generation = False, cs_event = event,
      cs_cause = cause, cs_member_id = None, cs_path_id = None, cs_summary = summary\<rparr>"

text \<open>The part of \<open>commit_locked\<close> after both generations were advanced.\<close>

definition commit_advanced ::
  "set_record \<Rightarrow> mutation_context \<Rightarrow> string \<Rightarrow> string list \<Rightarrow> commit_spec \<Rightarrow> fabric_outcome \<Rightarrow> engine \<Rightarrow> answer" where
  "commit_advanced r ctx operation flds spec outcome e =
     (let r = r\<lparr>s_provenance := make_provenance ctx (cs_cause spec) r\<rparr>;
          (r, e) = prune_archive r e;
          r = append_history (e_limits e) (e_epoch e) (cs_event spec) (cs_cause spec) (Some ctx)
                (cs_member_id spec) (cs_path_id spec) (cs_summary spec) r;
          e = capture_snapshot r (put_set r e);
          outcome = finalize_outcome r outcome
      in (outcome, record_attempt ctx operation flds outcome e))"

definition commit ::
  "set_record \<Rightarrow> mutation_context \<Rightarrow> string \<Rightarrow> string list \<Rightarrow> commit_spec \<Rightarrow> fabric_outcome \<Rightarrow> engine \<Rightarrow> answer" where
  "commit r ctx operation flds spec outcome e =
     (case (if cs_advance_set_generation spec then advance_set_generation r else Some r) of
        None \<Rightarrow> (make_rejection OC_GENERATION_OVERFLOW
                  (msg (''multipath set generation is exhausted for '' @ id_text (s_id r))), put_set r e)
      | Some r \<Rightarrow>
        (case (if cs_advance_membership_generation spec then advance_membership_generation r else Some r) of
           None \<Rightarrow> (make_rejection OC_GENERATION_OVERFLOW
                     (msg (''membership generation is exhausted for '' @ id_text (s_id r))), put_set r e)
         | Some r \<Rightarrow> commit_advanced r ctx operation flds spec outcome e))"

text \<open>
  The other way an operation ends well: it found nothing to change, fills the state of the record
  into the outcome and remembers the attempt.
\<close>

definition answer_unchanged ::
  "set_record \<Rightarrow> mutation_context \<Rightarrow> string \<Rightarrow> string list \<Rightarrow> fabric_outcome \<Rightarrow> engine \<Rightarrow> answer" where
  "answer_unchanged r ctx operation flds outcome e =
     (let outcome = finalize_outcome r outcome
      in (outcome, record_attempt ctx operation flds outcome (put_set r e)))"

section \<open>Lookups for the phases outside the lock\<close>

definition lookup_path :: "(path_id \<Rightarrow> path_authority_view option) \<Rightarrow> engine \<Rightarrow> path_id \<Rightarrow> path_authority_view option" where
  "lookup_path external e path = (if e_external e then external path else dir_lookup (e_directory e) path)"

definition member_path :: "set_id \<Rightarrow> member_id \<Rightarrow> engine \<Rightarrow> path_id option" where
  "member_path sid mid e =
     (case om_find (e_sets e) sid of None \<Rightarrow> None | Some r \<Rightarrow> om_find (s_member_index r) mid)"

definition live_member_paths :: "set_id \<Rightarrow> engine \<Rightarrow> path_id list" where
  "live_member_paths sid e =
     (case om_find (e_sets e) sid of
        None \<Rightarrow> []
      | Some r \<Rightarrow> map fst (filter (\<lambda>(p, m). \<not> member_is_terminal m) (om_entries (s_members r))))"

section \<open>Applying a Path Authority view\<close>

text \<open>
  The record that a changed observation leaves behind: \<open>apply_view_locked\<close> from \<open>recompute_locked\<close> on.
\<close>

definition viewed_record ::
  "engine \<Rightarrow> path_id \<Rightarrow> mutation_context option \<Rightarrow> membership_cause \<Rightarrow> set_record \<Rightarrow> set_record" where
  "viewed_record e path ctx cause r1 =
     (let r2 = recompute r1;
          r3 = (if s_lifecycle r2 \<noteq> s_lifecycle r1
                then r2\<lparr>s_generation := gen_advance (s_generation r2)\<rparr> else r2);
          r4 = bump_set_watermark_only r3
      in append_history (e_limits e) (e_epoch e) SE_DEPENDENCY_INVALIDATED cause ctx None (Some path)
           (msg (''dependency invalidation for path '' @ id_text path @ '' -> '' @
                 set_lifecycle_text (s_lifecycle r4))) r4)"

definition apply_view_to_set ::
  "path_id \<Rightarrow> path_authority_view option \<Rightarrow> mutation_context option \<Rightarrow> membership_cause \<Rightarrow>
   set_id \<Rightarrow> nat \<times> engine \<Rightarrow> nat \<times> engine" where
  "apply_view_to_set path view ctx cause sid acc =
     (case acc of (changed, e) \<Rightarrow>
        (case om_find (e_sets e) sid of
           None \<Rightarrow> acc
         | Some r \<Rightarrow>
           if s_lifecycle r = SL_WITHDRAWN \<or> s_lifecycle r = SL_SUPERSEDED \<or>
              s_lifecycle r = SL_REVOKED \<or> s_lifecycle r = SL_RETIRED then acc
           else (case om_find (s_members r) path of
             None \<Rightarrow> acc
           | Some m \<Rightarrow>
             (let m' = evaluate_member (s_conditional r) view False m;
                  r1 = r\<lparr>s_members := om_put path m' (s_members r)\<rparr>
              in if \<not> (m_lifecycle m \<noteq> m_lifecycle m' \<or> m_currentness m \<noteq> m_currentness m')
                 then (changed, put_set r1 e)
                 else
                   (let r5 = viewed_record e path ctx cause r1
                    in (changed + 1, capture_snapshot r5 (put_set r5 e)))))))"

definition apply_view ::
  "path_id \<Rightarrow> path_authority_view option \<Rightarrow> mutation_context option \<Rightarrow> membership_cause \<Rightarrow> engine \<Rightarrow>
   nat \<times> engine" where
  "apply_view path view ctx cause e =
     fold (apply_view_to_set path view ctx cause) (om_keys (dependents_of path e)) (0, e)"

text \<open>
  \<open>reconcile_path\<close> reads the source again after the commit; \<open>observed\<close> is what that second lookup
  returns.
\<close>

definition reconcile_path :: "path_id \<Rightarrow> path_authority_view option \<Rightarrow> path_authority_view option \<Rightarrow> engine \<Rightarrow> engine" where
  "reconcile_path path used observed e =
     (if observed = used then e else snd (apply_view path observed None CA_PATH_INVALIDATED e))"

end
