(* ===== verification/Engine_Invariant.thy ===== *)
theory Engine_Invariant
  imports Engine
begin

text \<open>
  The invariant of the engine state, \<open>engine_ok\<close>, as one predicate per component of the state:
  the set table, the key index, the path index, the authority tables, the attempt log, the
  snapshot rings, the identity factory and the member counter. The lemmas say for each building
  block of the operations that it keeps the invariant; the operations compose them.
\<close>

section \<open>What the building blocks leave alone\<close>

lemma put_set_frame [simp]:
  "e_limits (put_set r e) = e_limits e"
  "e_epoch (put_set r e) = e_epoch e"
  "e_authority_generation (put_set r e) = e_authority_generation e"
  "e_key_index (put_set r e) = e_key_index e"
  "e_path_dependents (put_set r e) = e_path_dependents e"
  "e_registrations (put_set r e) = e_registrations e"
  "e_fences (put_set r e) = e_fences e"
  "e_attempts (put_set r e) = e_attempts e"
  "e_attempt_index (put_set r e) = e_attempt_index e"
  "e_snapshots (put_set r e) = e_snapshots e"
  "e_directory (put_set r e) = e_directory e"
  "e_external (put_set r e) = e_external e"
  "e_ids (put_set r e) = e_ids e"
  "e_total_members (put_set r e) = e_total_members e"
  by (simp_all add: put_set_def)

lemma record_attempt_frame [simp]:
  "e_limits (record_attempt ctx operation flds outcome e) = e_limits e"
  "e_epoch (record_attempt ctx operation flds outcome e) = e_epoch e"
  "e_authority_generation (record_attempt ctx operation flds outcome e) = e_authority_generation e"
  "e_sets (record_attempt ctx operation flds outcome e) = e_sets e"
  "e_key_index (record_attempt ctx operation flds outcome e) = e_key_index e"
  "e_path_dependents (record_attempt ctx operation flds outcome e) = e_path_dependents e"
  "e_registrations (record_attempt ctx operation flds outcome e) = e_registrations e"
  "e_fences (record_attempt ctx operation flds outcome e) = e_fences e"
  "e_snapshots (record_attempt ctx operation flds outcome e) = e_snapshots e"
  "e_directory (record_attempt ctx operation flds outcome e) = e_directory e"
  "e_external (record_attempt ctx operation flds outcome e) = e_external e"
  "e_ids (record_attempt ctx operation flds outcome e) = e_ids e"
  "e_total_members (record_attempt ctx operation flds outcome e) = e_total_members e"
  by (simp_all add: record_attempt_def Let_def)

lemma index_path_frame [simp]:
  "e_limits (index_path sid path e) = e_limits e"
  "e_epoch (index_path sid path e) = e_epoch e"
  "e_authority_generation (index_path sid path e) = e_authority_generation e"
  "e_sets (index_path sid path e) = e_sets e"
  "e_key_index (index_path sid path e) = e_key_index e"
  "e_registrations (index_path sid path e) = e_registrations e"
  "e_fences (index_path sid path e) = e_fences e"
  "e_attempts (index_path sid path e) = e_attempts e"
  "e_attempt_index (index_path sid path e) = e_attempt_index e"
  "e_snapshots (index_path sid path e) = e_snapshots e"
  "e_directory (index_path sid path e) = e_directory e"
  "e_external (index_path sid path e) = e_external e"
  "e_ids (index_path sid path e) = e_ids e"
  "e_total_members (index_path sid path e) = e_total_members e"
  by (simp_all add: index_path_def)

lemma unindex_path_frame [simp]:
  "e_limits (unindex_path sid path e) = e_limits e"
  "e_epoch (unindex_path sid path e) = e_epoch e"
  "e_authority_generation (unindex_path sid path e) = e_authority_generation e"
  "e_sets (unindex_path sid path e) = e_sets e"
  "e_key_index (unindex_path sid path e) = e_key_index e"
  "e_registrations (unindex_path sid path e) = e_registrations e"
  "e_fences (unindex_path sid path e) = e_fences e"
  "e_attempts (unindex_path sid path e) = e_attempts e"
  "e_attempt_index (unindex_path sid path e) = e_attempt_index e"
  "e_snapshots (unindex_path sid path e) = e_snapshots e"
  "e_directory (unindex_path sid path e) = e_directory e"
  "e_external (unindex_path sid path e) = e_external e"
  "e_ids (unindex_path sid path e) = e_ids e"
  "e_total_members (unindex_path sid path e) = e_total_members e"
  by (simp_all add: unindex_path_def Let_def split: option.splits)

lemma capture_snapshot_frame [simp]:
  "e_limits (capture_snapshot r e) = e_limits e"
  "e_epoch (capture_snapshot r e) = e_epoch e"
  "e_authority_generation (capture_snapshot r e) = e_authority_generation e"
  "e_sets (capture_snapshot r e) = e_sets e"
  "e_key_index (capture_snapshot r e) = e_key_index e"
  "e_path_dependents (capture_snapshot r e) = e_path_dependents e"
  "e_registrations (capture_snapshot r e) = e_registrations e"
  "e_fences (capture_snapshot r e) = e_fences e"
  "e_attempts (capture_snapshot r e) = e_attempts e"
  "e_attempt_index (capture_snapshot r e) = e_attempt_index e"
  "e_directory (capture_snapshot r e) = e_directory e"
  "e_external (capture_snapshot r e) = e_external e"
  "e_ids (capture_snapshot r e) = e_ids e"
  "e_total_members (capture_snapshot r e) = e_total_members e"
  by (simp_all add: capture_snapshot_def Let_def)

lemma put_set_find [simp]: "om_find (e_sets (put_set r e)) = (om_find (e_sets e))(s_id r := Some r)"
  by (simp add: put_set_def)

lemma put_set_put_set [simp]: "s_id r' = s_id r \<Longrightarrow> put_set r' (put_set r e) = put_set r' e"
  by (simp add: put_set_def)

lemma put_set_stored: "om_find (e_sets e) (s_id r) = Some r \<Longrightarrow> put_set r e = e"
  by (simp add: put_set_def om_put_same)

section \<open>The invariant\<close>

definition sets_ok :: "engine \<Rightarrow> bool" where
  "sets_ok e \<longleftrightarrow> (\<forall>sid r. om_find (e_sets e) sid = Some r \<longrightarrow>
     s_id r = sid \<and> id_valid sid \<and> set_core (e_limits e) r)"

definition keys_ok :: "engine \<Rightarrow> bool" where
  "keys_ok e \<longleftrightarrow> index_ok s_key (om_find (e_sets e)) (om_find (e_key_index e))"

text \<open>A path has an entry exactly for the sets that hold a membership relation on it.\<close>

definition dependents_ok :: "engine \<Rightarrow> bool" where
  "dependents_ok e \<longleftrightarrow>
     (\<forall>p s. om_find (e_path_dependents e) p = Some s \<longrightarrow> om_size s \<noteq> 0) \<and>
     (\<forall>p sid. om_has (dependents_of p e) sid \<longleftrightarrow>
        (\<exists>r. om_find (e_sets e) sid = Some r \<and> om_has (s_members r) p))"

text \<open>
  Live registrations belong to the governing epoch, carry a well-formed scope, are not fenced, and
  a session owns at most one of them.
\<close>

definition authority_ok :: "engine \<Rightarrow> bool" where
  "authority_ok e \<longleftrightarrow>
     gen_valid (e_epoch e) \<and> gen_valid (e_authority_generation e) \<and>
     (\<forall>k reg. om_find (e_registrations e) k = Some reg \<longrightarrow>
        (pr_publisher reg, pr_worker_boot reg) = k \<and> pr_epoch reg = e_epoch e \<and>
        scope_well_formed (pr_scope reg) \<and> om_find (e_fences e) k = None) \<and>
     (\<forall>k f. om_find (e_fences e) k = Some f \<longrightarrow> (fr_publisher f, fr_worker_boot f) = k) \<and>
     (\<forall>k reg k' reg'. om_find (e_registrations e) k = Some reg \<longrightarrow>
        om_find (e_registrations e) k' = Some reg' \<longrightarrow> pr_session reg = pr_session reg' \<longrightarrow> k = k') \<and>
     om_size (e_registrations e) \<le> max_publishers (e_limits e)"

definition log_covers :: "attempt_record list \<Rightarrow> (attempt_id, digest128) omap \<Rightarrow> bool" where
  "log_covers log idx \<longleftrightarrow> (\<forall>a fp. om_find idx a = Some fp \<longrightarrow>
     (\<exists>entry \<in> set log. at_attempt entry = a \<and> at_fingerprint entry = fp))"

definition attempts_ok :: "engine \<Rightarrow> bool" where
  "attempts_ok e \<longleftrightarrow> length (e_attempts e) \<le> max_attempts (e_limits e) \<and>
     log_covers (e_attempts e) (e_attempt_index e)"

definition snapshots_ok :: "engine \<Rightarrow> bool" where
  "snapshots_ok e \<longleftrightarrow> (\<forall>sid h. om_find (e_snapshots e) sid = Some h \<longrightarrow>
     length h \<le> max_snapshot_history (e_limits e) \<and> (\<forall>s \<in> set h. ss_set_id s = sid))"

definition member_ids :: "engine \<Rightarrow> member_id set" where
  "member_ids e = {i. \<exists>sid r. om_find (e_sets e) sid = Some r \<and> om_has (s_member_index r) i}"

definition ids_ok :: "engine \<Rightarrow> bool" where
  "ids_ok e \<longleftrightarrow> factory_ok (e_ids e) \<and> ids_below (e_ids e) ''set'' (dom (om_find (e_sets e))) \<and>
     ids_below (e_ids e) ''mem'' (member_ids e)"

definition relation_count :: "engine \<Rightarrow> nat" where
  "relation_count e =
     (\<Sum>sid \<in> dom (om_find (e_sets e)). om_size (s_members (the (om_find (e_sets e) sid))))"

definition counts_ok :: "engine \<Rightarrow> bool" where
  "counts_ok e \<longleftrightarrow> relation_count e \<le> e_total_members e \<and>
     e_total_members e \<le> max_total_members (e_limits e) \<and> om_size (e_sets e) \<le> max_sets (e_limits e)"

definition engine_ok :: "engine \<Rightarrow> bool" where
  "engine_ok e \<longleftrightarrow> sets_ok e \<and> keys_ok e \<and> dependents_ok e \<and> authority_ok e \<and> attempts_ok e \<and>
     snapshots_ok e \<and> ids_ok e \<and> counts_ok e \<and> dir_ok (e_directory e)"

lemma engine_okD:
  assumes "engine_ok e"
  shows "sets_ok e" "keys_ok e" "dependents_ok e" "authority_ok e" "attempts_ok e" "snapshots_ok e"
    "ids_ok e" "counts_ok e" "dir_ok (e_directory e)"
  using assms by (simp_all add: engine_ok_def)

lemma engine_okI:
  "sets_ok e \<Longrightarrow> keys_ok e \<Longrightarrow> dependents_ok e \<Longrightarrow> authority_ok e \<Longrightarrow> attempts_ok e \<Longrightarrow> snapshots_ok e \<Longrightarrow>
   ids_ok e \<Longrightarrow> counts_ok e \<Longrightarrow> dir_ok (e_directory e) \<Longrightarrow> engine_ok e"
  by (simp add: engine_ok_def)

lemma stored_set:
  assumes "engine_ok e" and "om_find (e_sets e) sid = Some r"
  shows "s_id r = sid" "id_valid sid" "set_core (e_limits e) r"
  using assms by (auto simp: engine_ok_def sets_ok_def)

text \<open>The component predicates depend on their component only.\<close>

lemma sets_ok_cong: "e_sets e' = e_sets e \<Longrightarrow> e_limits e' = e_limits e \<Longrightarrow> sets_ok e' = sets_ok e"
  by (simp add: sets_ok_def)

lemma keys_ok_cong: "e_sets e' = e_sets e \<Longrightarrow> e_key_index e' = e_key_index e \<Longrightarrow> keys_ok e' = keys_ok e"
  by (simp add: keys_ok_def)

lemma dependents_ok_cong:
  "e_sets e' = e_sets e \<Longrightarrow> e_path_dependents e' = e_path_dependents e \<Longrightarrow> dependents_ok e' = dependents_ok e"
  by (simp add: dependents_ok_def dependents_of_def)

lemma authority_ok_cong:
  "e_limits e' = e_limits e \<Longrightarrow> e_epoch e' = e_epoch e \<Longrightarrow> e_authority_generation e' = e_authority_generation e \<Longrightarrow>
   e_registrations e' = e_registrations e \<Longrightarrow> e_fences e' = e_fences e \<Longrightarrow> authority_ok e' = authority_ok e"
  by (simp add: authority_ok_def)

lemma attempts_ok_cong:
  "e_limits e' = e_limits e \<Longrightarrow> e_attempts e' = e_attempts e \<Longrightarrow> e_attempt_index e' = e_attempt_index e \<Longrightarrow>
   attempts_ok e' = attempts_ok e"
  by (simp add: attempts_ok_def)

lemma snapshots_ok_cong:
  "e_limits e' = e_limits e \<Longrightarrow> e_snapshots e' = e_snapshots e \<Longrightarrow> snapshots_ok e' = snapshots_ok e"
  by (simp add: snapshots_ok_def)

lemma ids_ok_cong: "e_sets e' = e_sets e \<Longrightarrow> e_ids e' = e_ids e \<Longrightarrow> ids_ok e' = ids_ok e"
  by (simp add: ids_ok_def member_ids_def)

lemma counts_ok_cong:
  "e_limits e' = e_limits e \<Longrightarrow> e_sets e' = e_sets e \<Longrightarrow> e_total_members e' = e_total_members e \<Longrightarrow>
   counts_ok e' = counts_ok e"
  by (simp add: counts_ok_def relation_count_def)

text \<open>Changes of the attempt log and of the snapshot rings leave the rest of the invariant alone.\<close>

lemma engine_ok_logs:
  assumes ok: "engine_ok e" and logs: "attempts_ok e'" "snapshots_ok e'"
    and same: "e_limits e' = e_limits e" "e_epoch e' = e_epoch e"
      "e_authority_generation e' = e_authority_generation e" "e_sets e' = e_sets e"
      "e_key_index e' = e_key_index e" "e_path_dependents e' = e_path_dependents e"
      "e_registrations e' = e_registrations e" "e_fences e' = e_fences e"
      "e_directory e' = e_directory e" "e_ids e' = e_ids e" "e_total_members e' = e_total_members e"
  shows "engine_ok e'"
proof (rule engine_okI)
  note D = engine_okD [OF ok]
  show "sets_ok e'" using D(1) by (simp add: sets_ok_cong [OF same(4,1)])
  show "keys_ok e'" using D(2) by (simp add: keys_ok_cong [OF same(4,5)])
  show "dependents_ok e'" using D(3) by (simp add: dependents_ok_cong [OF same(4,6)])
  show "authority_ok e'" using D(4) by (simp add: authority_ok_cong [OF same(1-3,7,8)])
  show "ids_ok e'" using D(7) by (simp add: ids_ok_cong [OF same(4,10)])
  show "counts_ok e'" using D(8) by (simp add: counts_ok_cong [OF same(1,4,11)])
  show "dir_ok (e_directory e')" using D(9) same(9) by simp
qed (use logs in simp_all)

section \<open>The attempt log\<close>

lemma trim_attempts_covers:
  "log_covers log idx \<Longrightarrow> log_covers (fst (trim_attempts limit log idx)) (snd (trim_attempts limit log idx))"
proof (induction limit log idx rule: trim_attempts.induct)
  case (2 limit front rest idx)
  let ?idx = "if om_find idx (at_attempt front) = Some (at_fingerprint front)
              then om_del (at_attempt front) idx else idx"
  have "log_covers rest ?idx"
    unfolding log_covers_def
  proof (intro allI impI)
    fix a fp assume a: "om_find ?idx a = Some fp"
    then have "om_find idx a = Some fp" by (auto split: if_splits)
    then obtain entry where entry: "entry \<in> set (front # rest)" "at_attempt entry = a" "at_fingerprint entry = fp"
      using 2(2) by (auto simp: log_covers_def)
    with a have "entry \<noteq> front" by (auto split: if_splits)
    with entry show "\<exists>entry \<in> set rest. at_attempt entry = a \<and> at_fingerprint entry = fp" by auto
  qed
  with 2 show ?case by simp
qed simp

lemma trim_attempts_length: "length (fst (trim_attempts limit log idx)) \<le> limit"
  by (induction limit log idx rule: trim_attempts.induct) auto

lemma log_covers_add:
  "log_covers log idx \<Longrightarrow> log_covers (log @ [entry]) (om_put (at_attempt entry) (at_fingerprint entry) idx)"
  by (fastforce simp: log_covers_def split: if_splits)

lemma record_attempt_attempts_ok:
  assumes "attempts_ok e"
  shows "attempts_ok (record_attempt ctx operation flds outcome e)"
proof -
  let ?entry = "\<lparr>at_attempt = cx_attempt ctx, at_fingerprint = fingerprint_request operation flds, at_outcome = outcome\<rparr>"
  have "log_covers (e_attempts e @ [?entry])
          (om_put (cx_attempt ctx) (fingerprint_request operation flds) (e_attempt_index e))"
    using log_covers_add [of "e_attempts e" "e_attempt_index e" ?entry] assms by (simp add: attempts_ok_def)
  then show ?thesis
    by (simp add: attempts_ok_def record_attempt_def Let_def trim_attempts_length trim_attempts_covers)
qed

lemma record_attempt_ok:
  assumes "engine_ok e"
  shows "engine_ok (record_attempt ctx operation flds outcome e)"
  by (rule engine_ok_logs [OF assms record_attempt_attempts_ok [OF engine_okD(5) [OF assms]]
        snapshots_ok_cong [THEN iffD2, OF _ _ engine_okD(6) [OF assms]]]) simp_all

section \<open>Snapshots\<close>

lemma set_keep_lastD: "x \<in> set (keep_last n xs) \<Longrightarrow> x \<in> set xs"
  using set_keep_last by fastforce

lemma capture_snapshot_snapshots_ok:
  assumes "snapshots_ok e"
  shows "snapshots_ok (capture_snapshot r e)"
proof -
  have "ss_set_id s = s_id r" if "s \<in> set (snapshots_of (s_id r) e)" for s
    using that assms by (cases "om_find (e_snapshots e) (s_id r)") (auto simp: snapshots_of_def snapshots_ok_def)
  moreover have "ss_set_id (make_snapshot r) = s_id r" by (simp add: make_snapshot_def)
  ultimately show ?thesis
    using assms by (auto simp: snapshots_ok_def capture_snapshot_def Let_def dest!: set_keep_lastD split: if_splits)
qed

lemma capture_snapshot_ok:
  assumes "engine_ok e"
  shows "engine_ok (capture_snapshot r e)"
  by (rule engine_ok_logs [OF assms attempts_ok_cong [THEN iffD2, OF _ _ _ engine_okD(5) [OF assms]]
        capture_snapshot_snapshots_ok [OF engine_okD(6) [OF assms]]]) simp_all

section \<open>Counting relations\<close>

lemma relation_count_put:
  assumes "om_find (e_sets e) (s_id r) = Some r0"
  shows "relation_count (put_set r e) + om_size (s_members r0) = relation_count e + om_size (s_members r)"
proof -
  let ?S = "om_find (e_sets e)" and ?size = "\<lambda>m sid. om_size (s_members (the (m sid)))"
  have mem: "s_id r \<in> dom ?S" using assms by blast
  have "sum (?size (?S(s_id r \<mapsto> r))) (dom ?S - {s_id r}) = sum (?size ?S) (dom ?S - {s_id r})"
    by (rule sum.cong) auto
  then show ?thesis
    using mem assms
    by (simp add: relation_count_def insert_absorb sum.remove [of "dom ?S" "s_id r"] del: fun_upd_apply) simp
qed

lemma relation_count_new:
  assumes "om_find (e_sets e) (s_id r) = None"
  shows "relation_count (put_set r e) = relation_count e + om_size (s_members r)"
proof -
  have "sum (\<lambda>sid. om_size (s_members (the (((om_find (e_sets e))(s_id r \<mapsto> r)) sid)))) (dom (om_find (e_sets e)))
      = relation_count e"
    unfolding relation_count_def using assms by (intro sum.cong) auto
  moreover have "s_id r \<notin> dom (om_find (e_sets e))" using assms by blast
  ultimately show ?thesis by (simp add: relation_count_def)
qed

lemma om_size_eq_dom: "dom (om_find a) = dom (om_find b) \<Longrightarrow> om_size a = om_size b"
  by (simp flip: card_dom_om_find)

lemma members_frame_size: "members_frame r r' \<Longrightarrow> om_size (s_members r') = om_size (s_members r)"
  by (rule om_size_eq_dom) (simp add: dom_def members_frame_None)

section \<open>Writing back a record that stayed in the frame\<close>

lemma put_set_frame_ok:
  assumes ok: "engine_ok e" and old: "om_find (e_sets e) (s_id r) = Some r0"
    and fr: "set_frame r0 r" and core: "set_core (e_limits e) r"
  shows "engine_ok (put_set r e)"
proof -
  note D = engine_okD [OF ok]
  have id: "s_id r0 = s_id r" and key: "s_key r = s_key r0" and mf: "members_frame r0 r"
    using fr by (auto simp: set_frame_def clocks_frame_def)
  have has: "om_has (s_members r) p = om_has (s_members r0) p" for p
    using members_frame_None [OF mf] by (simp add: om_has_def)
  have index: "s_member_index r = s_member_index r0" using mf by (simp add: members_frame_def)
  have "sets_ok (put_set r e)"
    using D(1) old core id stored_set(2) [OF ok old] by (auto simp: sets_ok_def)
  moreover have "keys_ok (put_set r e)"
    using set_table.agrees_modify [of "e_sets e" "e_key_index e" "s_id r" r0 r] D(2) old key
    by (simp add: keys_ok_def)
  moreover have "dependents_ok (put_set r e)"
    using D(3) old has by (auto simp: dependents_ok_def dependents_of_def)
  moreover have "dom (om_find (e_sets (put_set r e))) = dom (om_find (e_sets e))"
    using old by auto
  moreover have "member_ids (put_set r e) = member_ids e"
    using old index by (auto simp: member_ids_def split: if_splits) (metis option.inject)
  moreover have "relation_count (put_set r e) = relation_count e"
    using relation_count_put [OF old] members_frame_size [OF mf] by simp
  moreover have "om_size (e_sets (put_set r e)) = om_size (e_sets e)"
    using old by (simp add: put_set_def om_size_put)
  moreover have "authority_ok (put_set r e)" "attempts_ok (put_set r e)" "snapshots_ok (put_set r e)"
    by (simp_all add: authority_ok_cong [THEN iffD2, OF _ _ _ _ _ D(4)]
        attempts_ok_cong [THEN iffD2, OF _ _ _ D(5)] snapshots_ok_cong [THEN iffD2, OF _ _ D(6)])
  ultimately show ?thesis
    using D(7-9) by (intro engine_okI) (simp_all add: ids_ok_def counts_ok_def)
qed

lemma sets_okD:
  "sets_ok e \<Longrightarrow> om_find (e_sets e) sid = Some r \<Longrightarrow> s_id r = sid \<and> id_valid sid \<and> set_core (e_limits e) r"
  unfolding sets_ok_def by blast

lemma sets_ok_put:
  assumes "sets_ok (put_set r e)" and "s_id r' = s_id r" and "id_valid (s_id r)" and "set_core (e_limits e) r'"
  shows "sets_ok (put_set r' e)"
  unfolding sets_ok_def
proof (intro allI impI)
  fix sid q assume q: "om_find (e_sets (put_set r' e)) sid = Some q"
  show "s_id q = sid \<and> id_valid sid \<and> set_core (e_limits (put_set r' e)) q"
  proof (cases "sid = s_id r")
    case True
    with q assms show ?thesis by simp
  next
    case False
    with q assms(2) have "om_find (e_sets (put_set r e)) sid = Some q" by simp
    from sets_okD [OF assms(1) this] show ?thesis by simp
  qed
qed

section \<open>The path index\<close>

lemma om_has_del [simp]: "om_has (om_del k m) k' \<longleftrightarrow> k' \<noteq> k \<and> om_has m k'"
  by (auto simp: om_has_def)

lemma om_has_put [simp]: "om_has (om_put k v m) k' \<longleftrightarrow> k' = k \<or> om_has m k'"
  by (auto simp: om_has_def)

lemma om_has_empty [simp]: "\<not> om_has om_empty k"
  by (simp add: om_has_def)

lemma om_size_0_has: "om_size s = 0 \<Longrightarrow> \<not> om_has s k"
  by (auto simp: om_has_def om_find_iff om_size_def)

lemma om_size_has: "om_has s k \<Longrightarrow> om_size s \<noteq> 0"
  using om_size_0_has by blast

lemma om_size_pos: "om_has s k \<Longrightarrow> 0 < om_size s"
  using om_size_has by blast

lemma unindex_path_has:
  "om_has (dependents_of q (unindex_path sid p e)) s \<longleftrightarrow> om_has (dependents_of q e) s \<and> \<not> (q = p \<and> s = sid)"
proof (cases "om_find (e_path_dependents e) p")
  case None
  then show ?thesis by (auto simp: unindex_path_def dependents_of_def)
next
  case (Some d)
  then show ?thesis
    using om_size_0_has [of "om_del sid d" s]
    by (auto simp: unindex_path_def dependents_of_def Let_def)
qed

lemma index_path_has:
  "om_has (dependents_of q (index_path sid p e)) s \<longleftrightarrow> om_has (dependents_of q e) s \<or> q = p \<and> s = sid"
  by (auto simp: index_path_def dependents_of_def)

lemma index_path_nonempty:
  "\<forall>q s. om_find (e_path_dependents e) q = Some s \<longrightarrow> om_size s \<noteq> 0 \<Longrightarrow>
   om_find (e_path_dependents (index_path sid p e)) q = Some s \<Longrightarrow> om_size s \<noteq> 0"
  by (auto simp: index_path_def split: if_splits intro!: om_size_pos [of _ sid])

lemma unindex_path_nonempty:
  "\<forall>q s. om_find (e_path_dependents e) q = Some s \<longrightarrow> om_size s \<noteq> 0 \<Longrightarrow>
   om_find (e_path_dependents (unindex_path sid p e)) q = Some s \<Longrightarrow> om_size s \<noteq> 0"
  by (auto simp: unindex_path_def Let_def split: option.splits if_splits)

section \<open>Dropping a membership relation\<close>

definition drop_member :: "path_id \<Rightarrow> member_record \<Rightarrow> set_record \<Rightarrow> set_record" where
  "drop_member p m r =
     r\<lparr>s_member_index := om_del (m_id m) (s_member_index r), s_members := om_del p (s_members r)\<rparr>"

definition drop_relation :: "path_id \<Rightarrow> set_record \<Rightarrow> engine \<Rightarrow> engine" where
  "drop_relation p r e = (unindex_path (s_id r) p e)\<lparr>e_total_members := e_total_members e - 1\<rparr>"

lemma tables_ok_drop:
  assumes "tables_ok r" and "om_find (s_members r) p = Some m"
  shows "tables_ok (drop_member p m r)"
  using assms member_table.agrees_remove [of "s_members r" "s_member_index r" p m]
  by (auto simp: tables_ok_def drop_member_def)

lemma om_count_del_not: "om_find mp k = Some v \<Longrightarrow> \<not> P v \<Longrightarrow> om_count P (om_del k mp) = om_count P mp"
  unfolding om_count_card by (rule arg_cong [of _ _ card]) auto

lemma set_core_drop_terminal:
  assumes "set_core lim r" and m: "om_find (s_members r) p = Some m" and t: "member_is_terminal m"
  shows "set_core lim (drop_member p m r)"
proof -
  have "recompute_usable_members (drop_member p m r) = recompute_usable_members r"
    using om_count_del_not [of "s_members r" p m m_usable] m terminal_not_usable [OF t]
    by (simp add: recompute_usable_members_def drop_member_def)
  then show ?thesis
    using assms tables_ok_drop [OF _ m]
    by (auto simp: set_core_def evidence_ok_def derived_ok_def lifecycle_ok_def terminal_ok_def drop_member_def)
qed

lemma drop_relation_ok:
  assumes ok: "engine_ok (put_set r e)" and m: "om_find (s_members r) p = Some m"
    and r': "r' = drop_member p m r\<lparr>s_usable := u, s_lifecycle := l\<rparr>" and core: "set_core (e_limits e) r'"
  shows "engine_ok (put_set r' (drop_relation p r e))"
proof -
  let ?e = "put_set r' (drop_relation p r e)"
  note D = engine_okD [OF ok]
  have [simp]: "s_id r' = s_id r" "s_key r' = s_key r" by (simp_all add: r' drop_member_def)
  have mem: "s_members r' = om_del p (s_members r)"
    and idx: "s_member_index r' = om_del (m_id m) (s_member_index r)" by (simp_all add: r' drop_member_def)
  have valid: "id_valid (s_id r)" using sets_okD [OF D(1), of "s_id r" r] by simp
  have "sets_ok (put_set r' e)"
    by (rule sets_ok_put [OF D(1)]) (use core valid in simp_all)
  then have "sets_ok ?e" by (rule sets_ok_cong [THEN iffD2, rotated -1]) (simp_all add: put_set_def drop_relation_def)
  moreover have "keys_ok ?e"
    using set_table.agrees_modify [of "e_sets (put_set r e)" "e_key_index e" "s_id r" r r'] D(2)
    by (simp add: keys_ok_def drop_relation_def)
  moreover have "dependents_ok ?e"
  proof -
    have has: "om_has (dependents_of q ?e) s \<longleftrightarrow> om_has (dependents_of q e) s \<and> \<not> (q = p \<and> s = s_id r)" for q s
      using unindex_path_has [of q "s_id r" p e s] by (simp add: dependents_of_def drop_relation_def)
    have "dependents_of q (put_set r e) = dependents_of q e" for q by (simp add: dependents_of_def)
    with D(3) show ?thesis
      using unindex_path_nonempty [of e "s_id r" p]
      unfolding dependents_ok_def has by (auto simp: mem drop_relation_def)
  qed
  moreover have "ids_ok ?e"
  proof -
    have "member_ids ?e \<subseteq> member_ids (put_set r e)"
      by (auto simp: member_ids_def idx drop_relation_def split: if_splits)
    then show ?thesis using D(7) by (auto simp: ids_ok_def drop_relation_def intro: ids_below_mono)
  qed
  moreover have "counts_ok ?e"
  proof -
    have "relation_count (put_set r' (put_set r e)) + om_size (s_members r) =
          relation_count (put_set r e) + om_size (s_members r')"
      by (rule relation_count_put) simp
    moreover have "Suc (om_size (s_members r')) = om_size (s_members r)"
      using om_size_del_Suc [OF m] by (simp add: mem)
    moreover have "relation_count ?e = relation_count (put_set r' (put_set r e))"
      by (simp add: relation_count_def drop_relation_def)
    moreover have "om_size (e_sets ?e) = om_size (e_sets (put_set r e))"
      by (simp add: put_set_def om_size_put drop_relation_def)
    ultimately show ?thesis using D(8) by (simp add: counts_ok_def) (auto simp: drop_relation_def)
  qed
  moreover have "authority_ok ?e" "attempts_ok ?e" "snapshots_ok ?e"
    using D(4-6) by (simp_all add: authority_ok_def attempts_ok_def snapshots_ok_def drop_relation_def)
  ultimately show ?thesis
    using D(9) by (intro engine_okI) (simp_all add: drop_relation_def)
qed

section \<open>Pruning the archive\<close>

text \<open>
  \<open>narrowed\<close> is what pruning does to a record and the engine: only the two member tables, the path
  index and the counter change, and each surviving relation is an old one.
\<close>

definition without_members :: "set_record \<Rightarrow> set_record" where
  "without_members r = r\<lparr>s_members := om_empty, s_member_index := om_empty\<rparr>"

definition without_paths :: "engine \<Rightarrow> engine" where
  "without_paths e = e\<lparr>e_path_dependents := om_empty, e_total_members := 0\<rparr>"

definition narrowed :: "set_record \<Rightarrow> engine \<Rightarrow> set_record \<Rightarrow> engine \<Rightarrow> bool" where
  "narrowed r e r' e' \<longleftrightarrow>
     without_members r' = without_members r \<and> without_paths e' = without_paths e \<and>
     (\<forall>p m. om_find (s_members r') p = Some m \<longrightarrow>
        (\<exists>m0. om_find (s_members r) p = Some m0 \<and> member_frame m0 m \<and>
           m_lifecycle m = m_lifecycle m0 \<and> m_currentness m = m_currentness m0)) \<and>
     (\<forall>p m. om_find (s_members r) p = Some m \<longrightarrow> \<not> member_is_terminal m \<longrightarrow> om_has (s_members r') p)"

lemma narrowedD:
  assumes "narrowed r e r' e'"
  shows "without_members r' = without_members r \<and> without_paths e' = without_paths e"
    and "om_find (s_members r') p = Some m \<Longrightarrow>
           \<exists>m0. om_find (s_members r) p = Some m0 \<and> member_frame m0 m \<and>
             m_lifecycle m = m_lifecycle m0 \<and> m_currentness m = m_currentness m0"
    and "om_find (s_members r) p = Some m \<Longrightarrow> \<not> member_is_terminal m \<Longrightarrow> om_has (s_members r') p"
  using assms unfolding narrowed_def by blast+

lemma narrowedI:
  assumes "without_members r' = without_members r \<and> without_paths e' = without_paths e"
    and "\<And>p m. om_find (s_members r') p = Some m \<Longrightarrow>
           \<exists>m0. om_find (s_members r) p = Some m0 \<and> member_frame m0 m \<and>
             m_lifecycle m = m_lifecycle m0 \<and> m_currentness m = m_currentness m0"
    and "\<And>p m. om_find (s_members r) p = Some m \<Longrightarrow> \<not> member_is_terminal m \<Longrightarrow> om_has (s_members r') p"
  shows "narrowed r e r' e'"
  using assms unfolding narrowed_def by blast

lemma narrowed_refl: "narrowed r e r e"
proof (rule narrowedI)
qed (auto simp: om_has_def)

lemma narrowed_simps:
  assumes "narrowed r e r' e'"
  shows "s_id r' = s_id r" "s_key r' = s_key r" "s_generation r' = s_generation r"
    "s_membership_generation r' = s_membership_generation r" "s_watermark r' = s_watermark r"
    "s_lifecycle r' = s_lifecycle r" "s_currentness r' = s_currentness r" "s_usable r' = s_usable r"
    "s_minimum r' = s_minimum r" "s_conditional r' = s_conditional r" "s_admin_enabled r' = s_admin_enabled r"
    "s_authority_generation r' = s_authority_generation r"
    "e_limits e' = e_limits e" "e_epoch e' = e_epoch e" "e_sets e' = e_sets e"
    "e_registrations e' = e_registrations e" "e_fences e' = e_fences e"
    "e_authority_generation e' = e_authority_generation e" "e_ids e' = e_ids e"
    "e_attempts e' = e_attempts e" "e_attempt_index e' = e_attempt_index e"
    "e_directory e' = e_directory e" "e_key_index e' = e_key_index e" "e_snapshots e' = e_snapshots e"
    "e_external e' = e_external e"
proof -
  have r: "f (without_members r') = f (without_members r)" for f :: "set_record \<Rightarrow> 'x"
    using narrowedD(1) [OF assms] by simp
  show "s_id r' = s_id r" "s_key r' = s_key r" "s_generation r' = s_generation r"
    "s_membership_generation r' = s_membership_generation r" "s_watermark r' = s_watermark r"
    "s_lifecycle r' = s_lifecycle r" "s_currentness r' = s_currentness r" "s_usable r' = s_usable r"
    "s_minimum r' = s_minimum r" "s_conditional r' = s_conditional r" "s_admin_enabled r' = s_admin_enabled r"
    "s_authority_generation r' = s_authority_generation r"
    using r [of s_id] r [of s_key] r [of s_generation] r [of s_membership_generation] r [of s_watermark]
      r [of s_lifecycle] r [of s_currentness] r [of s_usable] r [of s_minimum] r [of s_conditional]
      r [of s_admin_enabled] r [of s_authority_generation] by (simp_all add: without_members_def)
  have e: "f (without_paths e') = f (without_paths e)" for f :: "engine \<Rightarrow> 'y"
    using narrowedD(1) [OF assms] by simp
  show "e_limits e' = e_limits e" "e_epoch e' = e_epoch e" "e_sets e' = e_sets e"
    "e_registrations e' = e_registrations e" "e_fences e' = e_fences e"
    "e_authority_generation e' = e_authority_generation e" "e_ids e' = e_ids e"
    "e_attempts e' = e_attempts e" "e_attempt_index e' = e_attempt_index e"
    "e_directory e' = e_directory e" "e_key_index e' = e_key_index e" "e_snapshots e' = e_snapshots e"
    "e_external e' = e_external e"
    using e [of e_limits] e [of e_epoch] e [of e_sets] e [of e_registrations] e [of e_fences]
      e [of e_authority_generation] e [of e_ids] e [of e_attempts] e [of e_attempt_index]
      e [of e_directory] e [of e_key_index] e [of e_snapshots] e [of e_external]
    by (simp_all add: without_paths_def)
qed

lemma clear_lineage_simps [simp]:
  "m_id (clear_lineage pr m) = m_id m" "m_path_id (clear_lineage pr m) = m_path_id m"
  "m_bound (clear_lineage pr m) = m_bound m" "m_generation (clear_lineage pr m) = m_generation m"
  "m_lifecycle (clear_lineage pr m) = m_lifecycle m" "m_currentness (clear_lineage pr m) = m_currentness m"
  "m_admin_enabled (clear_lineage pr m) = m_admin_enabled m" "m_watermark (clear_lineage pr m) = m_watermark m"
  "m_observed_generation (clear_lineage pr m) = m_observed_generation m"
  "m_observed_state (clear_lineage pr m) = m_observed_state m"
  "m_pending (clear_lineage pr m) = m_pending m"
  by (auto simp: clear_lineage_def Let_def split: option.splits)

lemma clear_lineage_member_frame [simp]: "member_frame m (clear_lineage pr m)"
  by (simp add: member_frame_def)

lemma set_core_map_same:
  assumes core: "set_core lim r" and fr: "\<And>m. member_frame m (f m)"
    and u: "\<And>m. m_usable (f m) = m_usable m" and ev: "\<And>c m. member_evidence c (f m) = member_evidence c m"
  shows "set_core lim (map_members f r)"
proof -
  have "tables_ok (map_members f r)"
    using set_coreD(1) [OF core] set_frame_map [OF fr] by (rule tables_ok_set_frame)
  moreover have "recompute_usable_members (map_members f r) = recompute_usable_members r"
    by (rule recompute_usable_map) (rule u)
  ultimately show ?thesis
    using set_coreD [OF core]
    by (auto simp: set_core_def evidence_ok_def ev derived_ok_def lifecycle_ok_def terminal_ok_def)
qed

lemma clear_lineage_core: "set_core lim r \<Longrightarrow> set_core lim (map_members (clear_lineage pr) r)"
  by (rule set_core_map_same) (auto simp: m_usable_def member_evidence_cong [where m' = "clear_lineage pr _"])

lemma drop_member_without [simp]: "without_members (drop_member p m r) = without_members r"
  by (simp add: without_members_def drop_member_def)

lemma drop_relation_without [simp]: "without_paths (drop_relation p r e) = without_paths e"
  by (simp add: without_paths_def drop_relation_def unindex_path_def Let_def split: option.splits)

lemma map_members_without [simp]: "without_members (map_members f r) = without_members r"
  by (simp add: without_members_def map_members_def)

lemma drop_narrowed:
  assumes nr: "narrowed r e r1 e1" and m: "om_find (s_members r1) p = Some m" and t: "member_is_terminal m"
  shows "narrowed r e (drop_member p m r1) (drop_relation p r1 e1)"
proof (rule narrowedI)
  show "without_members (drop_member p m r1) = without_members r \<and>
      without_paths (drop_relation p r1 e1) = without_paths e"
    using narrowedD(1) [OF nr] by simp
next
  fix q m' assume "om_find (s_members (drop_member p m r1)) q = Some m'"
  then have "om_find (s_members r1) q = Some m'" by (auto simp: drop_member_def split: if_splits)
  then show "\<exists>m0. om_find (s_members r) q = Some m0 \<and> member_frame m0 m' \<and>
      m_lifecycle m' = m_lifecycle m0 \<and> m_currentness m' = m_currentness m0"
    by (rule narrowedD(2) [OF nr])
next
  fix q m0 assume q: "om_find (s_members r) q = Some m0" "\<not> member_is_terminal m0"
  have "q \<noteq> p"
  proof
    assume "q = p"
    with narrowedD(2) [OF nr m] q(1) have "m_lifecycle m = m_lifecycle m0" by auto
    with t q(2) show False by (simp add: member_is_terminal_def)
  qed
  then show "om_has (s_members (drop_member p m r1)) q"
    using narrowedD(3) [OF nr q] by (simp add: drop_member_def)
qed

lemma prune_victim_None: "om_find (s_members r) v = None \<Longrightarrow> prune_victim v (pr, r, e) = (pr, r, e)"
  by (simp add: prune_victim_def)

lemma prune_victim_Some:
  "om_find (s_members r) v = Some m \<Longrightarrow>
   prune_victim v (pr, r, e) = (pr @ [m_id m], drop_member v m r, drop_relation v r e)"
  by (simp add: prune_victim_def drop_member_def drop_relation_def)

lemma prune_victims_ok:
  assumes "engine_ok (put_set r e)" and "narrowed r0 e0 r e"
    and "\<And>v m. v \<in> set vs \<Longrightarrow> om_find (s_members r) v = Some m \<Longrightarrow> member_is_terminal m"
    and "fold prune_victim vs (pr, r, e) = (pr', r', e')"
  shows "engine_ok (put_set r' e') \<and> narrowed r0 e0 r' e'"
  using assms
proof (induction vs arbitrary: pr r e)
  case (Cons v vs)
  show ?case
  proof (cases "om_find (s_members r) v")
    case None
    then have "fold prune_victim vs (pr, r, e) = (pr', r', e')" using Cons.prems(4) by (simp add: prune_victim_None)
    with Cons.prems Cons.IH show ?thesis by (meson list.set_intros(2))
  next
    case (Some m)
    let ?r = "drop_member v m r" and ?e = "drop_relation v r e"
    have t: "member_is_terminal m" using Cons.prems(3) [OF _ Some] by simp
    have f: "fold prune_victim vs (pr @ [m_id m], ?r, ?e) = (pr', r', e')"
      using Cons.prems(4) Some by (simp add: prune_victim_Some)
    have core: "set_core (e_limits e) ?r"
      using sets_okD [OF engine_okD(1) [OF Cons.prems(1)], of "s_id r" r] Some t
      by (intro set_core_drop_terminal) simp_all
    have "?r = ?r\<lparr>s_usable := s_usable ?r, s_lifecycle := s_lifecycle ?r\<rparr>" by simp
    from drop_relation_ok [OF Cons.prems(1) Some this core]
    have "engine_ok (put_set ?r ?e)" .
    moreover have "narrowed r0 e0 ?r ?e" using Cons.prems(2) Some t by (rule drop_narrowed)
    moreover have "member_is_terminal m'" if "v' \<in> set vs" "om_find (s_members ?r) v' = Some m'" for v' m'
      using that Cons.prems(3) [of v' m'] by (auto simp: drop_member_def split: if_splits)
    ultimately show ?thesis using f by (rule Cons.IH)
  qed
qed simp

lemma map_members_narrowed:
  assumes nr: "narrowed r e r1 e1"
    and f: "\<And>m. member_frame m (f m)" "\<And>m. m_lifecycle (f m) = m_lifecycle m" "\<And>m. m_currentness (f m) = m_currentness m"
  shows "narrowed r e (map_members f r1) e1"
proof (rule narrowedI)
  show "without_members (map_members f r1) = without_members r \<and> without_paths e1 = without_paths e"
    using narrowedD(1) [OF nr] by simp
next
  fix p m assume "om_find (s_members (map_members f r1)) p = Some m"
  then obtain m1 where m1: "om_find (s_members r1) p = Some m1" "m = f m1" by auto
  from narrowedD(2) [OF nr m1(1)] obtain m0 where
    "om_find (s_members r) p = Some m0" "member_frame m0 m1" "m_lifecycle m1 = m_lifecycle m0"
    "m_currentness m1 = m_currentness m0" by blast
  then show "\<exists>m0. om_find (s_members r) p = Some m0 \<and> member_frame m0 m \<and>
      m_lifecycle m = m_lifecycle m0 \<and> m_currentness m = m_currentness m0"
    using f m1(2) member_frame_trans by metis
next
  fix p m assume "om_find (s_members r) p = Some m" "\<not> member_is_terminal m"
  from narrowedD(3) [OF nr this] show "om_has (s_members (map_members f r1)) p" by (simp add: om_has_def)
qed

lemma archived_paths_terminal:
  "v \<in> set (archived_paths r) \<Longrightarrow> om_find (s_members r) v = Some m \<Longrightarrow> member_is_terminal m"
  by (auto simp: archived_paths_def om_find_iff [symmetric])

lemma prune_archive_ok:
  assumes ok: "engine_ok (put_set r e)" and pr: "prune_archive r e = (r', e')"
  shows "engine_ok (put_set r' e')" "narrowed r e r' e'"
proof -
  obtain pd r1 e1 where f: "fold prune_victim (take (length (archived_paths r) - max_archived_members_per_set (e_limits e))
      (archived_paths r)) ([], r, e) = (pd, r1, e1)" by (metis prod_cases3)
  have 1: "engine_ok (put_set r1 e1) \<and> narrowed r e r1 e1"
    by (rule prune_victims_ok [OF ok narrowed_refl _ f]) (blast dest: in_set_takeD archived_paths_terminal)
  have core: "set_core (e_limits e1) r1"
    using sets_okD [OF engine_okD(1) [OF conjunct1 [OF 1]], of "s_id r1" r1] by simp
  have 2: "engine_ok (put_set (map_members (clear_lineage pd) r1) (put_set r1 e1))"
    by (rule put_set_frame_ok [OF conjunct1 [OF 1], where ?r0.0 = r1])
      (use core in \<open>simp_all add: set_frame_map clear_lineage_core\<close>)
  have "(r', e') = (if pd = [] then (r1, e1) else (map_members (clear_lineage pd) r1, e1))"
    using pr f by (auto simp: prune_archive_def Let_def)
  moreover have "narrowed r e (map_members (clear_lineage pd) r1) e1"
    by (rule map_members_narrowed [OF conjunct2 [OF 1]]) simp_all
  ultimately show "engine_ok (put_set r' e')" "narrowed r e r' e'"
    using 1 2 by (simp_all split: if_splits)
qed

section \<open>Commits\<close>

lemma commit_advanced_ok:
  assumes ok: "engine_ok (put_set r e)"
  shows "engine_ok (snd (commit_advanced r ctx operation flds spec outcome e))"
proof -
  let ?r1 = "r\<lparr>s_provenance := make_provenance ctx (cs_cause spec) r\<rparr>"
  obtain r2 e2 where pr: "prune_archive ?r1 e = (r2, e2)" by fastforce
  let ?r3 = "append_history (e_limits e2) (e_epoch e2) (cs_event spec) (cs_cause spec) (Some ctx)
      (cs_member_id spec) (cs_path_id spec) (cs_summary spec) r2"
  have core: "set_core (e_limits e) r" using sets_okD [OF engine_okD(1) [OF ok], of "s_id r" r] by simp
  have "engine_ok (put_set ?r1 (put_set r e))"
    by (rule put_set_frame_ok [OF ok, where ?r0.0 = r]) (use core in \<open>simp_all add: set_frame_same\<close>)
  then have ok2: "engine_ok (put_set r2 e2)" using prune_archive_ok(1) [OF _ pr] by simp
  have core2: "set_core (e_limits e2) r2" using sets_okD [OF engine_okD(1) [OF ok2], of "s_id r2" r2] by simp
  have "engine_ok (put_set ?r3 (put_set r2 e2))"
    by (rule put_set_frame_ok [OF ok2, where ?r0.0 = r2]) (use core2 in simp_all)
  then have "engine_ok (capture_snapshot ?r3 (put_set ?r3 e2))" by (simp add: capture_snapshot_ok)
  then show ?thesis using pr by (simp add: commit_advanced_def Let_def record_attempt_ok)
qed

lemma put_set_advance_ok:
  assumes ok: "engine_ok (put_set r e)" and g: "gen_next (s_generation r) = Some g"
  shows "engine_ok (put_set (r\<lparr>s_generation := g\<rparr>) e)"
proof -
  have core: "set_core (e_limits e) r" using sets_okD [OF engine_okD(1) [OF ok], of "s_id r" r] by simp
  have "engine_ok (put_set (r\<lparr>s_generation := g\<rparr>) (put_set r e))"
    by (rule put_set_frame_ok [OF ok, where ?r0.0 = r])
      (use core g gen_next_gt [OF g] in \<open>auto simp: set_frame_def clocks_frame_def members_frame_same gen_next_valid
        intro!: set_core_generation\<close>)
  then show ?thesis by simp
qed

lemma put_set_advance_membership_ok:
  assumes ok: "engine_ok (put_set r e)" and g: "gen_next (s_membership_generation r) = Some g"
  shows "engine_ok (put_set (r\<lparr>s_membership_generation := g\<rparr>) e)"
proof -
  have core: "set_core (e_limits e) r" using sets_okD [OF engine_okD(1) [OF ok], of "s_id r" r] by simp
  have "engine_ok (put_set (r\<lparr>s_membership_generation := g\<rparr>) (put_set r e))"
    by (rule put_set_frame_ok [OF ok, where ?r0.0 = r])
      (use core gen_next_gt [OF g] in \<open>auto simp: set_frame_def clocks_frame_def members_frame_same\<close>)
  then show ?thesis by simp
qed

lemma commit_ok:
  assumes "engine_ok (put_set r e)"
  shows "engine_ok (snd (commit r ctx operation flds spec outcome e))"
proof (cases "if cs_advance_set_generation spec then advance_set_generation r else Some r")
  case None
  then show ?thesis using assms by (simp add: commit_def)
next
  case (Some r1)
  then have ok1: "engine_ok (put_set r1 e)"
    using assms put_set_advance_ok by (auto simp: advance_set_generation_Some split: if_splits)
  show ?thesis
  proof (cases "if cs_advance_membership_generation spec then advance_membership_generation r1 else Some r1")
    case None
    with Some ok1 show ?thesis by (simp add: commit_def)
  next
    case 2: (Some r2)
    then have "engine_ok (put_set r2 e)"
      using ok1 put_set_advance_membership_ok by (auto simp: advance_membership_generation_Some split: if_splits)
    with Some 2 show ?thesis by (simp add: commit_def commit_advanced_ok)
  qed
qed

lemma answer_unchanged_ok:
  assumes "engine_ok (put_set r e)"
  shows "engine_ok (snd (answer_unchanged r ctx operation flds outcome e))"
  using assms by (simp add: answer_unchanged_def Let_def record_attempt_ok)

text \<open>A commit whose generations were checked beforehand does not fail.\<close>

lemma commit_available:
  assumes "gen_next (s_generation r) = Some g"
    and "cs_advance_set_generation spec" "\<not> cs_advance_membership_generation spec"
  shows "commit r ctx operation flds spec outcome e =
     commit_advanced (r\<lparr>s_generation := g\<rparr>) ctx operation flds spec outcome e"
  using assms by (simp add: commit_def advance_set_generation_def)

lemma commit_available_membership:
  assumes "gen_next (s_generation r) = Some g" "gen_next (s_membership_generation r) = Some h"
    and "cs_advance_set_generation spec" "cs_advance_membership_generation spec"
  shows "commit r ctx operation flds spec outcome e =
     commit_advanced (r\<lparr>s_generation := g, s_membership_generation := h\<rparr>) ctx operation flds spec outcome e"
  using assms by (simp add: commit_def advance_set_generation_def advance_membership_generation_def)

lemma finalize_outcome_simps [simp]:
  "o_code (finalize_outcome r o1) = o_code o1" "o_stage (finalize_outcome r o1) = o_stage o1"
  "succeeded (finalize_outcome r o1) = succeeded o1"
  "o_set_id (finalize_outcome r o1) = Some (s_id r)"
  "o_lifecycle (finalize_outcome r o1) = Some (s_lifecycle r)"
  "o_set_generation (finalize_outcome r o1) = Some (s_generation r)"
  "o_usable_members (finalize_outcome r o1) = Some (consumable_member_count r)"
  by (simp_all add: finalize_outcome_def succeeded_def)

lemma commit_advanced_code [simp]:
  "o_code (fst (commit_advanced r ctx operation flds spec o1 e)) = o_code o1"
  by (simp add: commit_advanced_def Let_def case_prod_unfold)

section \<open>Applying a view\<close>

lemma om_count_put_same:
  "om_find mp k = Some v \<Longrightarrow> P w = P v \<Longrightarrow> om_count P (om_put k w mp) = om_count P mp"
  unfolding om_count_card by (rule arg_cong [of _ _ card]) auto

lemma set_core_put_unchanged:
  assumes core: "set_core lim r" and m: "om_find (s_members r) p = Some m"
    and fr: "member_frame m m'" and ev: "member_evidence (s_conditional r) m'" and u: "m_usable m' = m_usable m"
  shows "set_core lim (r\<lparr>s_members := om_put p m' (s_members r)\<rparr>)"
proof -
  have "recompute_usable_members (r\<lparr>s_members := om_put p m' (s_members r)\<rparr>) = recompute_usable_members r"
    using om_count_put_same [of "s_members r" p m m_usable m'] m u by (simp add: recompute_usable_members_def)
  moreover have "tables_ok (r\<lparr>s_members := om_put p m' (s_members r)\<rparr>)"
    using set_coreD(1) [OF core] set_frame_put_member [OF m fr] by (rule tables_ok_set_frame)
  ultimately show ?thesis
    using set_coreD [OF core] evidence_ok_put [OF set_coreD(2) [OF core] ev]
    by (auto simp: set_core_def derived_ok_def lifecycle_ok_def terminal_ok_def)
qed

lemma set_core_put_recompute:
  assumes core: "set_core lim r" and m: "om_find (s_members r) p = Some m"
    and fr: "member_frame m m'" and ev: "member_evidence (s_conditional r) m'"
  shows "set_core lim (recompute (r\<lparr>s_members := om_put p m' (s_members r)\<rparr>))"
  using set_coreD [OF core] tables_ok_set_frame [OF _ set_frame_put_member [OF m fr]]
    evidence_ok_put [OF _ ev]
  by (intro set_core_recompute) (simp_all add: terminal_ok_def)

lemma set_frame_advance [simp]: "set_frame r (r\<lparr>s_generation := gen_advance (s_generation r)\<rparr>)"
  by (simp add: set_frame_def clocks_frame_def members_frame_same)

lemma viewed_record_frame: "set_frame r1 (viewed_record e path ctx cause r1)"
proof -
  have "set_frame r1 (if b then recompute r1\<lparr>s_generation := gen_advance (s_generation (recompute r1))\<rparr>
      else recompute r1)" for b
    using set_frame_trans [OF recompute_frame set_frame_advance, of r1] by simp
  then show ?thesis
    unfolding viewed_record_def Let_def
    by (rule set_frame_trans [OF set_frame_trans [OF _ bump_set_watermark_only_frame] append_history_frame])
qed

lemma viewed_record_core:
  assumes "set_core lim (recompute r1)"
  shows "set_core lim (viewed_record e path ctx cause r1)"
  using assms set_core_advance [OF assms] by (simp add: viewed_record_def Let_def)

lemma apply_view_to_set_cases:
  obtains (skip) "apply_view_to_set path view ctx cause sid (n, e) = (n, e)"
      "\<And>r. om_find (e_sets e) sid = Some r \<Longrightarrow> s_terminal r \<or> om_find (s_members r) path = None"
  | (same) r m where "om_find (e_sets e) sid = Some r" "\<not> s_terminal r" "om_find (s_members r) path = Some m"
      "m_usable (evaluate_member (s_conditional r) view False m) = m_usable m"
      "apply_view_to_set path view ctx cause sid (n, e) =
        (n, put_set (r\<lparr>s_members := om_put path (evaluate_member (s_conditional r) view False m) (s_members r)\<rparr>) e)"
  | (changed) r m r5 where "om_find (e_sets e) sid = Some r" "\<not> s_terminal r" "om_find (s_members r) path = Some m"
      "r5 = viewed_record e path ctx cause
        (r\<lparr>s_members := om_put path (evaluate_member (s_conditional r) view False m) (s_members r)\<rparr>)"
      "apply_view_to_set path view ctx cause sid (n, e) = (n + 1, capture_snapshot r5 (put_set r5 e))"
proof (cases "om_find (e_sets e) sid")
  case None
  then show thesis by (intro skip) (auto simp: apply_view_to_set_def)
next
  case (Some r)
  note r = Some
  show thesis
  proof (cases "s_terminal r")
    case True
    with r show thesis by (intro skip) (auto simp: apply_view_to_set_def s_terminal_def)
  next
    case False
    show thesis
    proof (cases "om_find (s_members r) path")
      case None
      with r show thesis by (intro skip) (auto simp: apply_view_to_set_def)
    next
      case (Some m)
      let ?m = "evaluate_member (s_conditional r) view False m"
      show thesis
      proof (cases "m_lifecycle m \<noteq> m_lifecycle ?m \<or> m_currentness m \<noteq> m_currentness ?m")
        case True
        with r Some False show thesis
          by (intro changed [OF r False Some refl])
            (simp add: apply_view_to_set_def Let_def s_terminal_def viewed_record_def)
      next
        case unchanged: False
        with r Some False show thesis
          by (intro same [OF r False Some])
            (simp_all add: apply_view_to_set_def Let_def s_terminal_def m_usable_def)
      qed
    qed
  qed
qed

lemma apply_view_to_set_ok:
  assumes ok: "engine_ok e"
  shows "engine_ok (snd (apply_view_to_set path view ctx cause sid (n, e)))"
proof (cases rule: apply_view_to_set_cases [of path view ctx cause sid n e])
  case skip
  with ok show ?thesis by simp
next
  case (same r m)
  let ?m = "evaluate_member (s_conditional r) view False m"
  let ?r = "r\<lparr>s_members := om_put path ?m (s_members r)\<rparr>"
  note stored = stored_set [OF ok same(1)]
  have "set_core (e_limits e) ?r"
    using stored(3) same(3) evaluate_member_frame evaluate_member_evidence same(4)
    by (rule set_core_put_unchanged)
  then have "engine_ok (put_set ?r e)"
    using same(1) stored(1) set_frame_put_member [OF same(3) evaluate_member_frame]
    by (intro put_set_frame_ok [OF ok]) simp_all
  then show ?thesis by (simp add: same(5))
next
  case (changed r m r5)
  let ?m = "evaluate_member (s_conditional r) view False m"
  let ?r = "r\<lparr>s_members := om_put path ?m (s_members r)\<rparr>"
  note stored = stored_set [OF ok changed(1)]
  have fr: "set_frame r r5"
    unfolding changed(4)
    by (rule set_frame_trans [OF set_frame_put_member [OF changed(3) evaluate_member_frame] viewed_record_frame])
  have "set_core (e_limits e) (recompute ?r)"
    using stored(3) changed(3) evaluate_member_frame evaluate_member_evidence by (rule set_core_put_recompute)
  then have "set_core (e_limits e) r5" unfolding changed(4) by (rule viewed_record_core)
  moreover have "s_id r5 = sid" using fr stored(1) by (simp add: set_frame_def clocks_frame_def)
  ultimately have "engine_ok (put_set r5 e)"
    using changed(1) fr by (intro put_set_frame_ok [OF ok]) simp_all
  then show ?thesis by (simp add: changed(5) capture_snapshot_ok)
qed

lemma apply_view_ok:
  assumes "engine_ok e"
  shows "engine_ok (snd (apply_view path view ctx cause e))"
proof -
  have "engine_ok (snd (fold (apply_view_to_set path view ctx cause) sids acc))" if "engine_ok (snd acc)" for sids acc
    using that
  proof (induction sids arbitrary: acc)
    case (Cons sid sids)
    then show ?case using apply_view_to_set_ok [of "snd acc" path view ctx cause sid "fst acc"] by simp
  qed simp
  then show ?thesis using assms by (simp add: apply_view_def)
qed

lemma reconcile_path_ok: "engine_ok e \<Longrightarrow> engine_ok (reconcile_path path used observed e)"
  by (simp add: reconcile_path_def apply_view_ok)

text \<open>What applying a view leaves alone.\<close>

definition without_sets :: "engine \<Rightarrow> engine" where
  "without_sets e = e\<lparr>e_sets := om_empty, e_snapshots := om_empty\<rparr>"

lemma without_sets_put [simp]: "without_sets (put_set r e) = without_sets e"
  by (simp add: without_sets_def put_set_def)

lemma without_sets_capture [simp]: "without_sets (capture_snapshot r e) = without_sets e"
  by (simp add: without_sets_def capture_snapshot_def Let_def)

lemma apply_view_to_set_without [simp]:
  "without_sets (snd (apply_view_to_set path view ctx cause sid acc)) = without_sets (snd acc)"
proof (cases acc)
  case (Pair n e)
  show ?thesis
    by (cases rule: apply_view_to_set_cases [of path view ctx cause sid n e]) (simp_all add: Pair)
qed

lemma apply_view_without [simp]: "without_sets (snd (apply_view path view ctx cause e)) = without_sets e"
proof -
  have "without_sets (snd (fold (apply_view_to_set path view ctx cause) sids acc)) = without_sets (snd acc)" for sids acc
    by (induction sids arbitrary: acc) simp_all
  then show ?thesis by (simp add: apply_view_def)
qed

lemma without_sets_fields:
  assumes "without_sets e' = without_sets e"
  shows "e_limits e' = e_limits e" "e_epoch e' = e_epoch e" "e_registrations e' = e_registrations e"
    "e_fences e' = e_fences e" "e_authority_generation e' = e_authority_generation e" "e_ids e' = e_ids e"
    "e_attempts e' = e_attempts e" "e_attempt_index e' = e_attempt_index e"
    "e_directory e' = e_directory e" "e_key_index e' = e_key_index e"
    "e_path_dependents e' = e_path_dependents e" "e_total_members e' = e_total_members e"
    "e_external e' = e_external e"
proof -
  have e: "f (without_sets e') = f (without_sets e)" for f :: "engine \<Rightarrow> 'y"
    using assms by simp
  show "e_limits e' = e_limits e" "e_epoch e' = e_epoch e" "e_registrations e' = e_registrations e"
    "e_fences e' = e_fences e" "e_authority_generation e' = e_authority_generation e" "e_ids e' = e_ids e"
    "e_attempts e' = e_attempts e" "e_attempt_index e' = e_attempt_index e"
    "e_directory e' = e_directory e" "e_key_index e' = e_key_index e"
    "e_path_dependents e' = e_path_dependents e" "e_total_members e' = e_total_members e"
    "e_external e' = e_external e"
    using e [of e_limits] e [of e_epoch] e [of e_registrations] e [of e_fences]
      e [of e_authority_generation] e [of e_ids] e [of e_attempts] e [of e_attempt_index]
      e [of e_directory] e [of e_key_index] e [of e_path_dependents] e [of e_total_members] e [of e_external]
    by (simp_all add: without_sets_def)
qed

lemmas apply_view_fields [simp] = without_sets_fields [OF apply_view_without]

text \<open>A set that does not depend on the path is not touched.\<close>

lemma apply_view_to_set_other:
  assumes "engine_ok e" and "other \<noteq> sid"
  shows "om_find (e_sets (snd (apply_view_to_set path view ctx cause sid (n, e)))) other = om_find (e_sets e) other"
proof (cases rule: apply_view_to_set_cases [of path view ctx cause sid n e])
  case (same r m)
  then show ?thesis using assms stored_set(1) [OF assms(1) same(1)] by simp
next
  case (changed r m r5)
  have "s_id r5 = s_id r"
    unfolding changed(4) using viewed_record_frame by (simp add: set_frame_def clocks_frame_def)
  then show ?thesis using changed(5) assms stored_set(1) [OF assms(1) changed(1)] by simp
qed simp

lemma apply_view_fold_other:
  "engine_ok (snd acc) \<Longrightarrow> other \<notin> set sids \<Longrightarrow>
   om_find (e_sets (snd (fold (apply_view_to_set path view ctx cause) sids acc))) other = om_find (e_sets (snd acc)) other"
proof (induction sids arbitrary: acc)
  case (Cons sid sids)
  then show ?case
    using apply_view_to_set_ok [of "snd acc" path view ctx cause sid "fst acc"]
      apply_view_to_set_other [of "snd acc" other sid path view ctx cause "fst acc"] by simp
qed simp

lemma set_om_keys_has: "k \<in> set (om_keys m) \<longleftrightarrow> om_has m k"
  by (simp add: set_om_keys om_has_def)

lemma apply_view_other:
  assumes "engine_ok e" and "\<not> om_has (dependents_of path e) other"
  shows "om_find (e_sets (snd (apply_view path view ctx cause e))) other = om_find (e_sets e) other"
  using apply_view_fold_other [of "(0, e)" other "om_keys (dependents_of path e)"] assms
  by (simp add: apply_view_def set_om_keys_has)

section \<open>What a commit leaves alone\<close>

lemma prune_archive_without:
  assumes "prune_archive r e = (r', e')"
  shows "without_members r' = without_members r" "without_paths e' = without_paths e"
proof -
  have "without_members (fst (snd (fold prune_victim vs acc))) = without_members (fst (snd acc)) \<and>
        without_paths (snd (snd (fold prune_victim vs acc))) = without_paths (snd (snd acc))" for vs acc
  proof (induction vs arbitrary: acc)
    case (Cons v vs)
    obtain pr q f where acc: "acc = (pr, q, f)" by (metis prod_cases3)
    show ?case
      using Cons.IH [of "prune_victim v acc"]
      by (cases "om_find (s_members q) v") (simp_all add: acc prune_victim_None prune_victim_Some)
  qed simp
  note fold = this
  obtain pd r1 e1 where f: "fold prune_victim (take (length (archived_paths r) - max_archived_members_per_set (e_limits e))
      (archived_paths r)) ([], r, e) = (pd, r1, e1)" by (metis prod_cases3)
  then have "without_members r1 = without_members r" "without_paths e1 = without_paths e"
    using fold [of _ "([], r, e)"] by (metis fst_conv snd_conv)+
  then show "without_members r' = without_members r" "without_paths e' = without_paths e"
    using assms f by (auto simp: prune_archive_def Let_def split: if_splits)
qed

lemma without_paths_fields:
  assumes "without_paths e' = without_paths e"
  shows "e_limits e' = e_limits e" "e_epoch e' = e_epoch e" "e_sets e' = e_sets e"
    "e_registrations e' = e_registrations e" "e_fences e' = e_fences e"
    "e_authority_generation e' = e_authority_generation e" "e_ids e' = e_ids e"
    "e_attempts e' = e_attempts e" "e_attempt_index e' = e_attempt_index e"
    "e_directory e' = e_directory e" "e_key_index e' = e_key_index e" "e_snapshots e' = e_snapshots e"
    "e_external e' = e_external e"
proof -
  have e: "f (without_paths e') = f (without_paths e)" for f :: "engine \<Rightarrow> 'y"
    using assms by simp
  show "e_limits e' = e_limits e" "e_epoch e' = e_epoch e" "e_sets e' = e_sets e"
    "e_registrations e' = e_registrations e" "e_fences e' = e_fences e"
    "e_authority_generation e' = e_authority_generation e" "e_ids e' = e_ids e"
    "e_attempts e' = e_attempts e" "e_attempt_index e' = e_attempt_index e"
    "e_directory e' = e_directory e" "e_key_index e' = e_key_index e" "e_snapshots e' = e_snapshots e"
    "e_external e' = e_external e"
    using e [of e_limits] e [of e_epoch] e [of e_sets] e [of e_registrations] e [of e_fences]
      e [of e_authority_generation] e [of e_ids] e [of e_attempts] e [of e_attempt_index]
      e [of e_directory] e [of e_key_index] e [of e_snapshots] e [of e_external]
    by (simp_all add: without_paths_def)
qed

lemma without_members_fields:
  assumes "without_members r' = without_members r"
  shows "s_id r' = s_id r" "s_key r' = s_key r" "s_generation r' = s_generation r"
    "s_membership_generation r' = s_membership_generation r" "s_watermark r' = s_watermark r"
    "s_lifecycle r' = s_lifecycle r" "s_currentness r' = s_currentness r" "s_usable r' = s_usable r"
    "s_minimum r' = s_minimum r" "s_conditional r' = s_conditional r" "s_admin_enabled r' = s_admin_enabled r"
    "s_authority_generation r' = s_authority_generation r" "s_revocation r' = s_revocation r"
    "s_superseded_by r' = s_superseded_by r" "s_provenance r' = s_provenance r"
    "s_governing_epoch r' = s_governing_epoch r"
proof -
  have r: "f (without_members r') = f (without_members r)" for f :: "set_record \<Rightarrow> 'x"
    using assms by simp
  show "s_id r' = s_id r" "s_key r' = s_key r" "s_generation r' = s_generation r"
    "s_membership_generation r' = s_membership_generation r" "s_watermark r' = s_watermark r"
    "s_lifecycle r' = s_lifecycle r" "s_currentness r' = s_currentness r" "s_usable r' = s_usable r"
    "s_minimum r' = s_minimum r" "s_conditional r' = s_conditional r" "s_admin_enabled r' = s_admin_enabled r"
    "s_authority_generation r' = s_authority_generation r" "s_revocation r' = s_revocation r"
    "s_superseded_by r' = s_superseded_by r" "s_provenance r' = s_provenance r"
    "s_governing_epoch r' = s_governing_epoch r"
    using r [of s_id] r [of s_key] r [of s_generation] r [of s_membership_generation] r [of s_watermark]
      r [of s_lifecycle] r [of s_currentness] r [of s_usable] r [of s_minimum] r [of s_conditional]
      r [of s_admin_enabled] r [of s_authority_generation] r [of s_revocation] r [of s_superseded_by]
      r [of s_provenance] r [of s_governing_epoch] by (simp_all add: without_members_def)
qed

text \<open>
  A commit writes one set record and the logs: \<open>commit_frame\<close> lists what stays, and the record
  committed is the given one up to generation, provenance, history and pruned relations.
\<close>

lemma commit_advanced_frame:
  defines "e' r ctx operation flds spec outcome e \<equiv> snd (commit_advanced r ctx operation flds spec outcome e)"
  shows "e_limits (e' r ctx operation flds spec outcome e) = e_limits e"
    "e_epoch (e' r ctx operation flds spec outcome e) = e_epoch e"
    "e_authority_generation (e' r ctx operation flds spec outcome e) = e_authority_generation e"
    "e_registrations (e' r ctx operation flds spec outcome e) = e_registrations e"
    "e_fences (e' r ctx operation flds spec outcome e) = e_fences e"
    "e_ids (e' r ctx operation flds spec outcome e) = e_ids e"
    "e_directory (e' r ctx operation flds spec outcome e) = e_directory e"
    "e_key_index (e' r ctx operation flds spec outcome e) = e_key_index e"
    "e_external (e' r ctx operation flds spec outcome e) = e_external e"
    "other \<noteq> s_id r \<Longrightarrow> om_find (e_sets (e' r ctx operation flds spec outcome e)) other = om_find (e_sets e) other"
proof -
  let ?r1 = "r\<lparr>s_provenance := make_provenance ctx (cs_cause spec) r\<rparr>"
  obtain r2 e2 where pr: "prune_archive ?r1 e = (r2, e2)" by fastforce
  note w = prune_archive_without [OF pr]
  note f = without_paths_fields [OF w(2)] without_members_fields [OF w(1)]
  show "e_limits (e' r ctx operation flds spec outcome e) = e_limits e"
    "e_epoch (e' r ctx operation flds spec outcome e) = e_epoch e"
    "e_authority_generation (e' r ctx operation flds spec outcome e) = e_authority_generation e"
    "e_registrations (e' r ctx operation flds spec outcome e) = e_registrations e"
    "e_fences (e' r ctx operation flds spec outcome e) = e_fences e"
    "e_ids (e' r ctx operation flds spec outcome e) = e_ids e"
    "e_directory (e' r ctx operation flds spec outcome e) = e_directory e"
    "e_key_index (e' r ctx operation flds spec outcome e) = e_key_index e"
    "e_external (e' r ctx operation flds spec outcome e) = e_external e"
    "other \<noteq> s_id r \<Longrightarrow> om_find (e_sets (e' r ctx operation flds spec outcome e)) other = om_find (e_sets e) other"
    unfolding e'_def using pr f by (simp_all add: commit_advanced_def Let_def)
qed

lemma commit_cases:
  obtains (fails) r1 where "commit r ctx operation flds spec outcome e = (fst (commit r ctx operation flds spec outcome e), put_set r1 e)"
      "\<not> succeeded (fst (commit r ctx operation flds spec outcome e))"
      "s_id r1 = s_id r" "s_lifecycle r1 = s_lifecycle r" "s_generation r \<le> s_generation r1"
      "s_members r1 = s_members r"
  | (commits) r1 where "commit r ctx operation flds spec outcome e = commit_advanced r1 ctx operation flds spec outcome e"
      "s_id r1 = s_id r" "s_key r1 = s_key r" "s_lifecycle r1 = s_lifecycle r" "s_generation r \<le> s_generation r1"
      "s_members r1 = s_members r" "s_member_index r1 = s_member_index r" "s_currentness r1 = s_currentness r"
      "s_admin_enabled r1 = s_admin_enabled r" "s_minimum r1 = s_minimum r" "s_usable r1 = s_usable r"
      "s_conditional r1 = s_conditional r" "s_revocation r1 = s_revocation r" "s_superseded_by r1 = s_superseded_by r"
      "cs_advance_set_generation spec \<Longrightarrow> gen_next (s_generation r) = Some (s_generation r1)"
      "\<not> cs_advance_set_generation spec \<Longrightarrow> s_generation r1 = s_generation r"
proof (cases "if cs_advance_set_generation spec then advance_set_generation r else Some r")
  case None
  then show thesis
    by (intro fails [of r]) (auto simp: commit_def succeeded_def outcome_is_success_def)
next
  case (Some r1)
  then have r1: "s_id r1 = s_id r" "s_key r1 = s_key r" "s_lifecycle r1 = s_lifecycle r" "s_generation r \<le> s_generation r1"
      "s_members r1 = s_members r" "s_member_index r1 = s_member_index r" "s_currentness r1 = s_currentness r"
      "s_admin_enabled r1 = s_admin_enabled r" "s_minimum r1 = s_minimum r" "s_usable r1 = s_usable r"
      "s_conditional r1 = s_conditional r" "s_revocation r1 = s_revocation r" "s_superseded_by r1 = s_superseded_by r"
      "cs_advance_set_generation spec \<Longrightarrow> gen_next (s_generation r) = Some (s_generation r1)"
      "\<not> cs_advance_set_generation spec \<Longrightarrow> s_generation r1 = s_generation r"
    by (auto simp: advance_set_generation_Some dest: gen_next_gt split: if_splits)
  show thesis
  proof (cases "if cs_advance_membership_generation spec then advance_membership_generation r1 else Some r1")
    case None
    with Some r1 show thesis
      by (intro fails [of r1]) (auto simp: commit_def succeeded_def outcome_is_success_def)
  next
    case 2: (Some r2)
    have c: "commit r ctx operation flds spec outcome e = commit_advanced r2 ctx operation flds spec outcome e"
      using Some 2 by (simp add: commit_def)
    have "r2 = r1\<lparr>s_membership_generation := s_membership_generation r2\<rparr>"
      using 2 by (auto simp: advance_membership_generation_Some split: if_splits)
    then obtain mg where r2: "r2 = r1\<lparr>s_membership_generation := mg\<rparr>" by blast
    show thesis by (rule commits [OF c]) (simp_all add: r2 r1)
  qed
qed

lemma commit_frame [simp]:
  "e_limits (snd (commit r ctx operation flds spec outcome e)) = e_limits e"
  "e_epoch (snd (commit r ctx operation flds spec outcome e)) = e_epoch e"
  "e_authority_generation (snd (commit r ctx operation flds spec outcome e)) = e_authority_generation e"
  "e_registrations (snd (commit r ctx operation flds spec outcome e)) = e_registrations e"
  "e_fences (snd (commit r ctx operation flds spec outcome e)) = e_fences e"
  "e_ids (snd (commit r ctx operation flds spec outcome e)) = e_ids e"
  "e_directory (snd (commit r ctx operation flds spec outcome e)) = e_directory e"
  "e_key_index (snd (commit r ctx operation flds spec outcome e)) = e_key_index e"
  "e_external (snd (commit r ctx operation flds spec outcome e)) = e_external e"
proof -
  let ?e = "snd (commit r ctx operation flds spec outcome e)"
  have "e_limits ?e = e_limits e \<and> e_epoch ?e = e_epoch e \<and> e_authority_generation ?e = e_authority_generation e \<and>
    e_registrations ?e = e_registrations e \<and> e_fences ?e = e_fences e \<and> e_ids ?e = e_ids e \<and>
    e_directory ?e = e_directory e \<and> e_key_index ?e = e_key_index e \<and> e_external ?e = e_external e"
  proof (cases rule: commit_cases [of r ctx operation flds spec outcome e])
    case (fails r1)
    from arg_cong [OF fails(1), of snd] have "?e = put_set r1 e" by (simp only: snd_conv)
    then show ?thesis by (simp only: put_set_frame simp_thms)
  next
    case (commits r1)
    then show ?thesis by (simp add: commit_advanced_frame)
  qed
  then show "e_limits ?e = e_limits e" "e_epoch ?e = e_epoch e"
    "e_authority_generation ?e = e_authority_generation e" "e_registrations ?e = e_registrations e"
    "e_fences ?e = e_fences e" "e_ids ?e = e_ids e" "e_directory ?e = e_directory e"
    "e_key_index ?e = e_key_index e" "e_external ?e = e_external e" by simp_all
qed

lemma commit_other:
  assumes "other \<noteq> s_id r"
  shows "om_find (e_sets (snd (commit r ctx operation flds spec outcome e))) other = om_find (e_sets e) other"
proof (cases rule: commit_cases [of r ctx operation flds spec outcome e])
  case (fails r1)
  from arg_cong [OF fails(1), of snd] have "snd (commit r ctx operation flds spec outcome e) = put_set r1 e"
    by (simp only: snd_conv)
  then show ?thesis using fails(3) assms by simp
next
  case (commits r1)
  then show ?thesis using assms by (simp add: commit_advanced_frame)
qed

end
