(* ===== verification/Set_Ops.thy ===== *)
theory Set_Ops
  imports Engine_Invariant
begin

text \<open>
  \<open>src/fabric_mutation.cpp\<close>: the construction-time and whole-set operations of the engine. Each is one
  critical section: the checks in the order of the code, then the changes to the record, then
  \<open>commit\<close>. A check that fails returns its rejection with the state as it is at that point.
\<close>

section \<open>Shared pieces\<close>

definition delta_detail :: "string \<Rightarrow> set_lifecycle \<Rightarrow> set_lifecycle \<Rightarrow> string" where
  "delta_detail prefix before after =
     prefix @ ''; lifecycle '' @ set_lifecycle_text before @ '' -> '' @ set_lifecycle_text after"

definition bool_field :: "bool \<Rightarrow> string" where
  "bool_field b = (if b then ''1'' else ''0'')"

definition bool_text :: "bool \<Rightarrow> string" where
  "bool_text b = (if b then ''true'' else ''false'')"

definition set_generation_exhausted :: "set_id \<Rightarrow> fabric_outcome" where
  "set_generation_exhausted sid =
     make_rejection OC_GENERATION_OVERFLOW (msg (''multipath set generation is exhausted for '' @ id_text sid))"

definition malformed :: "string \<Rightarrow> fabric_outcome" where
  "malformed text = make_rejection OC_MALFORMED_REQUEST (msg text)"

text \<open>
  \<open>declare_path_authority\<close> and \<open>apply_path_authority\<close> carry their own copy of stages 2 to 4; the
  registration found is used for the scope of the dependent sets.
\<close>

definition path_caller_check :: "mutation_context \<Rightarrow> engine \<Rightarrow> fabric_outcome + publisher_registration" where
  "path_caller_check ctx e =
     (if \<not> has_caller_identity ctx
      then Inl (make_rejection OC_UNAUTHORIZED_CALLER
             (msg (''mutation context is missing a required caller identity element: '' @ context_render ctx)))
      else if \<not> (cx_epoch ctx = e_epoch e)
      then Inl (make_rejection OC_STALE_EPOCH (msg ''request epoch is not the governing epoch''))
      else if om_find (e_fences e) (worker_of ctx) \<noteq> None
      then Inl (make_rejection OC_STALE_WORKER (msg ''worker boot is fenced''))
      else case om_find (e_registrations e) (worker_of ctx) of
        None \<Rightarrow> Inl (make_rejection OC_UNKNOWN_PUBLISHER
                  (msg ''publisher/boot is not registered at the governing epoch''))
      | Some registration \<Rightarrow>
          if \<not> (pr_epoch registration = e_epoch e)
          then Inl (make_rejection OC_UNKNOWN_PUBLISHER
                 (msg ''publisher/boot is not registered at the governing epoch''))
          else Inr registration)"

definition uncovered_dependent :: "authority_scope \<Rightarrow> path_id \<Rightarrow> engine \<Rightarrow> set_record option" where
  "uncovered_dependent scope path e =
     (case List.find (\<lambda>sid. case om_find (e_sets e) sid of
               None \<Rightarrow> False
             | Some r \<Rightarrow> \<not> covers scope (k_fabric (s_key r)) (k_name_space (s_key r)) (s_id r))
             (om_keys (dependents_of path e)) of
        None \<Rightarrow> None
      | Some sid \<Rightarrow> om_find (e_sets e) sid)"

definition scope_not_covering :: "set_record \<Rightarrow> fabric_outcome" where
  "scope_not_covering r =
     make_rejection OC_UNAUTHORIZED_SCOPE (msg (''scope does not cover dependent set '' @ key_render (s_key r)))"

definition view_fields :: "string \<Rightarrow> path_authority_view \<Rightarrow> string list" where
  "view_fields operation view =
     [operation, id_text (v_path view), gen_text (v_generation view), path_authority_state_text (v_state view)]"

section \<open>Path Authority binding and declaration\<close>

definition bind_path_authority :: "bool \<Rightarrow> engine \<Rightarrow> engine" where
  "bind_path_authority has_source e = e\<lparr>e_external := has_source\<rparr>"

definition declare_path_authority :: "mutation_context \<Rightarrow> path_authority_view \<Rightarrow> engine \<Rightarrow> answer" where
  "declare_path_authority ctx view e =
     (if \<not> id_valid (v_path view) \<or> \<not> gen_valid (v_generation view)
      then (malformed ''declare_path_authority requires a valid path and generation'', e)
      else let flds = view_fields ''declare_path_authority'' view
      in case path_caller_check ctx e of
        Inl rejection \<Rightarrow> (rejection, e)
      | Inr registration \<Rightarrow>
        (case attempt_check ctx ''declare_path_authority'' flds e of
           Some replay \<Rightarrow> (replay, e)
         | None \<Rightarrow>
           if e_external e
           then (make_rejection OC_UNSUPPORTED_OPERATION
                  (msg (''an external Path Authority source is installed; the coordinator does '' @
                        ''not own the Path Authority view for this path'')), e)
           else case uncovered_dependent (pr_scope registration) (v_path view) e of
             Some r \<Rightarrow> (scope_not_covering r, e)
           | None \<Rightarrow>
             (let e = e\<lparr>e_directory := dir_set_view view (e_directory e)\<rparr>;
                  (changed, e) = apply_view (v_path view) (Some view) (Some ctx) CA_PATH_INVALIDATED e;
                  detail = msg (''declared Path Authority view for '' @ id_text (v_path view) @
                    '' generation '' @ gen_text (v_generation view) @ '' state '' @
                    path_authority_state_text (v_state view) @ ''; '' @ nat_string changed @
                    '' dependent set(s) changed'');
                  outcome = (make_outcome (if changed > 0 then OC_PATH_INVALIDATED else OC_UPDATED) detail)
                    \<lparr>o_path_id := Some (v_path view)\<rparr>
              in (outcome, record_attempt ctx ''declare_path_authority'' flds outcome e))))"

section \<open>Creation\<close>

record set_options =
  so_minimum :: nat
  so_admin_enabled :: bool
  so_conditional :: bool

definition empty_provenance :: membership_provenance where
  "empty_provenance =
     \<lparr>pv_publisher = invalid_id, pv_worker_boot = invalid_id, pv_epoch = gen_invalid,
      pv_attempt = invalid_id, pv_set_generation = gen_invalid, pv_cause = CA_DECLARED\<rparr>"

definition new_set_record :: "set_id \<Rightarrow> set_key \<Rightarrow> set_options \<Rightarrow> engine \<Rightarrow> set_record" where
  "new_set_record sid key options e =
     \<lparr>s_id = sid, s_key = key, s_generation = gen_first, s_membership_generation = gen_first,
      s_authority_generation = e_authority_generation e, s_lifecycle = SL_DECLARED,
      s_currentness = SC_CURRENT, s_admin_enabled = so_admin_enabled options,
      s_minimum = so_minimum options, s_conditional = so_conditional options,
      s_governing_epoch = e_epoch e, s_provenance = empty_provenance, s_superseded_by = None,
      s_supersedes = None, s_revocation = None, s_withdrawal_reason = [], s_history = [],
      s_watermark = wm_initial, s_members = om_empty, s_member_index = om_empty, s_usable = 0\<rparr>"

text \<open>The identity drawn is fresh, so the two \<open>emplace\<close> calls insert.\<close>

definition create_set :: "mutation_context \<Rightarrow> set_key \<Rightarrow> set_options \<Rightarrow> engine \<Rightarrow> answer" where
  "create_set ctx key options e =
     (if \<not> key_valid key
      then (malformed (''set key requires a valid fabric, namespace and set name; received '' @ key_render key), e)
      else let flds = [''create_set'', key_render key, nat_string (so_minimum options),
                       bool_field (so_admin_enabled options), bool_field (so_conditional options)];
               authority = authority_check ctx (Some key) None e
      in if \<not> succeeded authority then (authority, e)
      else case attempt_check ctx ''create_set'' flds e of
        Some replay \<Rightarrow> (replay, e)
      | None \<Rightarrow>
        if om_find (e_key_index e) key \<noteq> None
        then (make_rejection OC_SET_KEY_CONFLICT (msg (''a set already exists for key '' @ key_render key)), e)
        else if om_size (e_sets e) \<ge> max_sets (e_limits e)
        then (make_rejection OC_RESOURCE_LIMIT
               (msg (''max_sets limit reached: '' @ nat_string (max_sets (e_limits e)))), e)
        else if so_minimum options > max_members_per_set (e_limits e)
        then (make_rejection OC_INVALID_THRESHOLD
               (msg (''minimum usable members '' @ nat_string (so_minimum options) @
                     '' exceeds max_members_per_set '' @ nat_string (max_members_per_set (e_limits e)))), e)
        else
          (let (sid, ids) = next_set_id (e_ids e);
               r = new_set_record sid key options e;
               r = r\<lparr>s_provenance := make_provenance ctx CA_DECLARED r\<rparr>;
               e = e\<lparr>e_ids := ids, e_key_index := om_put key sid (e_key_index e)\<rparr>;
               r = append_history (e_limits e) (e_epoch e) SE_DECLARE CA_DECLARED (Some ctx) None None
                     (msg (''declared set '' @ key_render key @ '' minimum='' @ nat_string (so_minimum options))) r;
               e = capture_snapshot r (put_set r e);
               outcome = finalize_outcome r (make_outcome OC_CREATED (msg (''created set '' @ key_render key)))
           in (outcome, record_attempt ctx ''create_set'' flds outcome e)))"

section \<open>Publication and configuration\<close>

definition publish_set :: "mutation_context \<Rightarrow> set_id \<Rightarrow> engine \<Rightarrow> answer" where
  "publish_set ctx sid e =
     (if \<not> id_valid sid then (malformed ''publish_set requires a set identity'', e)
      else let flds = [''publish_set'', id_text sid]
      in case admit ctx sid ''publish_set'' flds e of
        Inl answer \<Rightarrow> (answer, e)
      | Inr r \<Rightarrow>
        if \<not> expected_set_generation_matches ctx r then (stale_set_generation ctx r, e)
        else if \<not> set_generation_available r then (set_generation_exhausted sid, e)
        else case apply_transition r SE_PUBLISH of
          Inl _ \<Rightarrow> (lifecycle_rejection (s_lifecycle r) sid, e)
        | Inr r' \<Rightarrow>
          (let summary = msg (delta_detail ''published set'' (s_lifecycle r) (s_lifecycle r'))
           in commit r' ctx ''publish_set'' flds (commit_spec_for SE_PUBLISH CA_SET_PUBLISHED summary)
                (make_outcome OC_SET_PUBLISHED summary) e))"

definition set_minimum_usable_members :: "mutation_context \<Rightarrow> set_id \<Rightarrow> nat \<Rightarrow> engine \<Rightarrow> answer" where
  "set_minimum_usable_members ctx sid minimum e =
     (if \<not> id_valid sid then (malformed ''set_minimum_usable_members requires a set identity'', e)
      else let flds = [''set_minimum_usable_members'', id_text sid, nat_string minimum]
      in case admit ctx sid ''set_minimum_usable_members'' flds e of
        Inl answer \<Rightarrow> (answer, e)
      | Inr r \<Rightarrow>
        if \<not> expected_set_generation_matches ctx r then (stale_set_generation ctx r, e)
        else case apply_transition r SE_MINIMUM_CHANGED of
          Inl _ \<Rightarrow> (lifecycle_rejection (s_lifecycle r) sid, e)
        | Inr r1 \<Rightarrow>
          if minimum > max_members_per_set (e_limits e)
          then (make_rejection OC_INVALID_THRESHOLD
                 (msg (''minimum usable members '' @ nat_string minimum @ '' exceeds max_members_per_set '' @
                       nat_string (max_members_per_set (e_limits e)))), put_set r1 e)
          else if s_minimum r1 = minimum
          then answer_unchanged r1 ctx ''set_minimum_usable_members'' flds
                 (make_outcome OC_IDEMPOTENT (msg (''minimum usable members already '' @ nat_string minimum))) e
          else if \<not> set_generation_available r1 then (set_generation_exhausted sid, put_set r1 e)
          else
            (let before = s_minimum r1;
                 r2 = recompute (r1\<lparr>s_minimum := minimum\<rparr>);
                 summary = msg (''minimum usable members '' @ nat_string before @ '' -> '' @ nat_string minimum @
                                '' lifecycle='' @ set_lifecycle_text (s_lifecycle r2))
             in commit r2 ctx ''set_minimum_usable_members'' flds
                  (commit_spec_for SE_MINIMUM_CHANGED CA_MINIMUM_CHANGED summary)
                  (make_outcome OC_UPDATED summary) e))"

definition permitted_text :: "bool \<Rightarrow> string" where
  "permitted_text permitted = (if permitted then ''permitted'' else ''denied'')"

definition set_conditional_authority_policy :: "mutation_context \<Rightarrow> set_id \<Rightarrow> bool \<Rightarrow> engine \<Rightarrow> answer" where
  "set_conditional_authority_policy ctx sid permitted e =
     (if \<not> id_valid sid then (malformed ''set_conditional_authority_policy requires a set identity'', e)
      else let flds = [''set_conditional_authority_policy'', id_text sid, bool_field permitted]
      in case admit ctx sid ''set_conditional_authority_policy'' flds e of
        Inl answer \<Rightarrow> (answer, e)
      | Inr r \<Rightarrow>
        if \<not> expected_set_generation_matches ctx r then (stale_set_generation ctx r, e)
        else case apply_transition r SE_POLICY_CHANGED of
          Inl _ \<Rightarrow> (lifecycle_rejection (s_lifecycle r) sid, e)
        | Inr r1 \<Rightarrow>
          if s_conditional r1 = permitted
          then answer_unchanged r1 ctx ''set_conditional_authority_policy'' flds
                 (make_outcome OC_IDEMPOTENT
                   (msg (''conditional Path Authority policy already '' @ permitted_text permitted))) e
          else if \<not> set_generation_available r1 then (set_generation_exhausted sid, put_set r1 e)
          else
            (let r2 = reevaluate_members_from_observations (r1\<lparr>s_conditional := permitted\<rparr>);
                 summary = msg (''conditional Path Authority policy -> '' @ permitted_text permitted)
             in commit r2 ctx ''set_conditional_authority_policy'' flds
                  (commit_spec_for SE_POLICY_CHANGED CA_POLICY_CHANGED summary)
                  (make_outcome OC_UPDATED summary) e))"

definition set_admin_enabled :: "mutation_context \<Rightarrow> set_id \<Rightarrow> bool \<Rightarrow> engine \<Rightarrow> answer" where
  "set_admin_enabled ctx sid enabled e =
     (if \<not> id_valid sid then (malformed ''set_admin_enabled requires a set identity'', e)
      else let flds = [''set_admin_enabled'', id_text sid, bool_field enabled];
               event = (if enabled then SE_ADMIN_ENABLED else SE_ADMIN_DISABLED)
      in case admit ctx sid ''set_admin_enabled'' flds e of
        Inl answer \<Rightarrow> (answer, e)
      | Inr r \<Rightarrow>
        if \<not> expected_set_generation_matches ctx r then (stale_set_generation ctx r, e)
        else case apply_transition r event of
          Inl _ \<Rightarrow> (lifecycle_rejection (s_lifecycle r) sid, e)
        | Inr r1 \<Rightarrow>
          if s_admin_enabled r1 = enabled
          then answer_unchanged r1 ctx ''set_admin_enabled'' flds
                 (make_outcome OC_IDEMPOTENT
                   (msg (''administrative enablement already '' @ bool_text enabled))) e
          else if \<not> set_generation_available r1 then (set_generation_exhausted sid, put_set r1 e)
          else
            (let r2 = recompute (r1\<lparr>s_admin_enabled := enabled\<rparr>);
                 summary = msg (''administrative enablement -> '' @ bool_text enabled @ '' lifecycle='' @
                                set_lifecycle_text (s_lifecycle r2))
             in commit r2 ctx ''set_admin_enabled'' flds
                  (commit_spec_for event (if enabled then CA_ADMIN_ENABLED else CA_ADMIN_DISABLED) summary)
                  (make_outcome OC_UPDATED summary) e))"

section \<open>Withdrawal, revocation and retirement\<close>

definition withdraw_set :: "mutation_context \<Rightarrow> set_id \<Rightarrow> string \<Rightarrow> engine \<Rightarrow> answer" where
  "withdraw_set ctx sid reason e =
     (if \<not> id_valid sid then (malformed ''withdraw_set requires a set identity'', e)
      else if length reason > 256 then (malformed ''withdrawal reason exceeds the 256 character bound'', e)
      else let flds = [''withdraw_set'', id_text sid, reason]
      in case admit ctx sid ''withdraw_set'' flds e of
        Inl answer \<Rightarrow> (answer, e)
      | Inr r \<Rightarrow>
        if \<not> expected_set_generation_matches ctx r then (stale_set_generation ctx r, e)
        else if s_lifecycle r = SL_WITHDRAWING
        then (if s_withdrawal_reason r = reason
              then answer_unchanged r ctx ''withdraw_set'' flds
                     (make_outcome OC_IDEMPOTENT (msg ''set is already withdrawing for the same reason'')) e
              else (make_rejection OC_INVALID_LIFECYCLE_TRANSITION
                     (msg ''set is already withdrawing for a different reason''), e))
        else if \<not> set_generation_available r then (set_generation_exhausted sid, e)
        else case apply_transition r SE_BEGIN_WITHDRAW of
          Inl _ \<Rightarrow> (lifecycle_rejection (s_lifecycle r) sid, e)
        | Inr r1 \<Rightarrow>
          (let r2 = recompute (r1\<lparr>s_withdrawal_reason := reason\<rparr>);
               r3 = apply_member_consequences (e_limits e) (e_epoch e) (s_lifecycle r) (s_lifecycle r2) (Some ctx) r2;
               summary = msg (''withdrawal begun: '' @ reason)
           in commit r3 ctx ''withdraw_set'' flds (commit_spec_for SE_BEGIN_WITHDRAW CA_SET_WITHDRAWN summary)
                (make_outcome OC_SET_WITHDRAWING summary) e))"

definition complete_withdrawal :: "mutation_context \<Rightarrow> set_id \<Rightarrow> engine \<Rightarrow> answer" where
  "complete_withdrawal ctx sid e =
     (if \<not> id_valid sid then (malformed ''complete_withdrawal requires a set identity'', e)
      else let flds = [''complete_withdrawal'', id_text sid]
      in case admit ctx sid ''complete_withdrawal'' flds e of
        Inl answer \<Rightarrow> (answer, e)
      | Inr r \<Rightarrow>
        if \<not> set_generation_available r then (set_generation_exhausted sid, e)
        else case apply_transition r SE_COMPLETE_WITHDRAW of
          Inl _ \<Rightarrow> (lifecycle_rejection (s_lifecycle r) sid, e)
        | Inr r1 \<Rightarrow>
          (let summary = msg ''withdrawal completed''
           in commit r1 ctx ''complete_withdrawal'' flds
                (commit_spec_for SE_COMPLETE_WITHDRAW CA_SET_WITHDRAWN summary)
                (make_outcome OC_SET_WITHDRAWN summary) e))"

definition revoke_set :: "mutation_context \<Rightarrow> set_id \<Rightarrow> revocation_reason \<Rightarrow> string \<Rightarrow> engine \<Rightarrow> answer" where
  "revoke_set ctx sid reason detail e =
     (if \<not> id_valid sid then (malformed ''revoke_set requires a set identity'', e)
      else if length detail > 512 then (malformed ''revocation detail exceeds the 512 character bound'', e)
      else let flds = [''revoke_set'', id_text sid, revocation_reason_text reason, detail]
      in case admit ctx sid ''revoke_set'' flds e of
        Inl answer \<Rightarrow> (answer, e)
      | Inr r \<Rightarrow>
        if \<not> expected_set_generation_matches ctx r then (stale_set_generation ctx r, e)
        else case (if s_lifecycle r = SL_REVOKED then s_revocation r else None) of
          Some known \<Rightarrow>
            if rv_reason known = reason \<and> rv_detail known = detail
            then answer_unchanged r ctx ''revoke_set'' flds
                   (make_outcome OC_IDEMPOTENT (msg ''set is already revoked with the same reason code'')) e
            else (make_rejection OC_REVOKED
                   (msg (''set is already revoked with a different reason code: '' @ revocation_render known)), e)
        | None \<Rightarrow>
          (case gen_next (s_generation r) of
             None \<Rightarrow> (set_generation_exhausted sid, e)
           | Some next_generation \<Rightarrow>
             (case apply_transition r SE_REVOKE of
                Inl _ \<Rightarrow> (lifecycle_rejection (s_lifecycle r) sid, e)
              | Inr r1 \<Rightarrow>
                (let revocation = \<lparr>rv_set_id = sid, rv_generation = next_generation,
                       rv_authority_generation = e_authority_generation e, rv_epoch = cx_epoch ctx,
                       rv_publisher = cx_publisher ctx, rv_reason = reason, rv_detail = detail\<rparr>;
                     r2 = r1\<lparr>s_revocation := Some revocation\<rparr>;
                     r3 = apply_member_consequences (e_limits e) (e_epoch e) (s_lifecycle r) (s_lifecycle r2)
                            (Some ctx) r2;
                     summary = msg (''revoked: '' @ revocation_reason_text reason @
                       (if detail = [] then [] else '' ('' @ detail @ '')''))
                 in commit r3 ctx ''revoke_set'' flds (commit_spec_for SE_REVOKE CA_SET_REVOKED summary)
                      (make_outcome OC_SET_REVOKED summary) e))))"

definition retire_set :: "mutation_context \<Rightarrow> set_id \<Rightarrow> string \<Rightarrow> engine \<Rightarrow> answer" where
  "retire_set ctx sid reason e =
     (if \<not> id_valid sid then (malformed ''retire_set requires a set identity'', e)
      else if length reason > 256 then (malformed ''retirement reason exceeds the 256 character bound'', e)
      else let flds = [''retire_set'', id_text sid, reason]
      in case admit ctx sid ''retire_set'' flds e of
        Inl answer \<Rightarrow> (answer, e)
      | Inr r \<Rightarrow>
        if \<not> expected_set_generation_matches ctx r then (stale_set_generation ctx r, e)
        else if \<not> set_generation_available r then (set_generation_exhausted sid, e)
        else case apply_transition r SE_RETIRE of
          Inl _ \<Rightarrow> (lifecycle_rejection (s_lifecycle r) sid, e)
        | Inr r1 \<Rightarrow>
          (let r2 = apply_member_consequences (e_limits e) (e_epoch e) (s_lifecycle r) (s_lifecycle r1) (Some ctx) r1;
               summary = msg (''retired: '' @ reason)
           in commit r2 ctx ''retire_set'' flds (commit_spec_for SE_RETIRE CA_SET_RETIRED summary)
                (make_outcome OC_SET_RETIRED summary) e))"

section \<open>Supersession\<close>

definition supersede_records ::
  "mutation_context \<Rightarrow> string list \<Rightarrow> set_record \<Rightarrow> set_record \<Rightarrow> engine \<Rightarrow> answer" where
  "supersede_records ctx flds old new e =
     (let predecessor = s_id old; successor = s_id new
      in case apply_transition old SE_SUPERSEDE of
        Inl _ \<Rightarrow> (lifecycle_rejection (s_lifecycle old) predecessor, e)
      | Inr old1 \<Rightarrow>
        (let old2 = old1\<lparr>s_superseded_by := Some successor\<rparr>;
             new1 = new\<lparr>s_supersedes := Some predecessor\<rparr>;
             old3 = apply_member_consequences (e_limits e) (e_epoch e) (s_lifecycle old) (s_lifecycle old2)
                      (Some ctx) old2;
             summary = msg (''superseded by '' @ id_text successor);
             (committed, e) = commit old3 ctx ''supersede_set'' flds
               (commit_spec_for SE_SUPERSEDE CA_SET_SUPERSEDED summary)
               (make_outcome OC_SET_SUPERSEDED summary) (put_set new1 e)
         in if \<not> succeeded committed then (committed, e)
            else
              (let new2 = append_history (e_limits e) (e_epoch e) SE_SUPERSEDE CA_SET_SUPERSEDED (Some ctx) None None
                     (msg (''supersedes '' @ id_text predecessor)) new1
               in (committed, capture_snapshot new2 (put_set new2 e)))))"

definition supersede_set :: "mutation_context \<Rightarrow> set_id \<Rightarrow> set_id \<Rightarrow> engine \<Rightarrow> answer" where
  "supersede_set ctx predecessor successor e =
     (if \<not> id_valid predecessor \<or> \<not> id_valid successor
      then (malformed ''supersede_set requires two valid set identities'', e)
      else if predecessor = successor
      then (malformed (''a set cannot supersede itself: '' @ id_text predecessor), e)
      else let flds = [''supersede_set'', id_text predecessor, id_text successor];
               authority = authority_check ctx None (Some predecessor) e;
               successor_authority = authority_check ctx None (Some successor) e
      in if \<not> succeeded authority then (authority, e)
      else if \<not> succeeded successor_authority then (successor_authority, e)
      else case attempt_check ctx ''supersede_set'' flds e of
        Some replay \<Rightarrow> (replay, e)
      | None \<Rightarrow>
        (case require_set predecessor e of
           Inl missing \<Rightarrow> (missing, e)
         | Inr old \<Rightarrow>
           (case require_set successor e of
              Inl missing \<Rightarrow> (missing, e)
            | Inr new \<Rightarrow>
              if \<not> expected_set_generation_matches ctx old then (stale_set_generation ctx old, e)
              else if s_superseded_by old = Some successor
              then answer_unchanged old ctx ''supersede_set'' flds
                     (make_outcome OC_IDEMPOTENT (msg ''set is already superseded by the same successor'')) e
              else if \<not> set_generation_available old then (set_generation_exhausted predecessor, e)
              else supersede_records ctx flds old new e)))"

section \<open>The operations keep the invariant\<close>

lemma admit_InrD:
  "admit ctx sid operation flds e = Inr r \<Longrightarrow>
     om_find (e_sets e) sid = Some r \<and> succeeded (authority_check ctx None (Some sid) e) \<and>
     attempt_check ctx operation flds e = None"
  by (auto simp: admit_def require_set_def Let_def split: if_splits option.splits)

lemma require_set_Inr: "require_set sid e = Inr r \<longleftrightarrow> om_find (e_sets e) sid = Some r"
  by (auto simp: require_set_def split: option.splits)

lemma stored_update_ok:
  assumes "engine_ok e" and "om_find (e_sets e) sid = Some r" and "set_frame r r'"
    and "set_core (e_limits e) r'"
  shows "engine_ok (put_set r' e)"
proof -
  have "s_id r' = sid" using assms stored_set(1) by (simp add: set_frame_def clocks_frame_def)
  then show ?thesis using assms by (intro put_set_frame_ok [where ?r0.0 = r]) simp_all
qed

lemma set_frame_upd [simp]:
  "set_frame r (r'\<lparr>s_minimum := mi\<rparr>) = set_frame r r'"
  "set_frame r (r'\<lparr>s_admin_enabled := ad\<rparr>) = set_frame r r'"
  "set_frame r (r'\<lparr>s_conditional := co\<rparr>) = set_frame r r'"
  "set_frame r (r'\<lparr>s_withdrawal_reason := wr\<rparr>) = set_frame r r'"
  "set_frame r (r'\<lparr>s_revocation := rv\<rparr>) = set_frame r r'"
  "set_frame r (r'\<lparr>s_superseded_by := sb\<rparr>) = set_frame r r'"
  "set_frame r (r'\<lparr>s_supersedes := sp\<rparr>) = set_frame r r'"
  "set_frame r (r'\<lparr>s_currentness := cu\<rparr>) = set_frame r r'"
  "set_frame r (r'\<lparr>s_authority_generation := ag\<rparr>) = set_frame r r'"
  "set_frame r (r'\<lparr>s_governing_epoch := ge\<rparr>) = set_frame r r'"
  by (simp_all add: set_frame_def clocks_frame_def members_frame_def)

lemma set_frame_steps:
  "set_frame r r' \<Longrightarrow> set_frame r (recompute r')"
  "set_frame r r' \<Longrightarrow> set_frame r (append_history l e ev c cx m p s r')"
  "set_frame r r' \<Longrightarrow> set_frame r (apply_member_consequences l e lf lt cx r')"
  "set_frame r r' \<Longrightarrow> set_frame r (bump_set_watermark r')"
  "set_frame r r' \<Longrightarrow> set_frame r (reevaluate_members_from_observations r')"
  by (blast intro: set_frame_trans recompute_frame append_history_frame apply_member_consequences_frame
      bump_set_watermark_frame reevaluate_frame)+

text \<open>A set transition that may be undone by a rejection: disabling an exhausted set included.\<close>

lemma transition_core:
  "set_core lim r \<Longrightarrow> apply_transition r ev = Inr r' \<Longrightarrow> ev \<noteq> SE_ADMIN_DISABLED \<Longrightarrow> set_core lim r'"
  by (rule apply_transition_core) auto

lemma minimum_core:
  "set_core lim r \<Longrightarrow> n \<le> max_members_per_set lim \<Longrightarrow> set_core lim (recompute (r\<lparr>s_minimum := n\<rparr>))"
  using set_coreD [of lim r]
  by (intro set_core_recompute) (simp_all add: tables_ok_def evidence_ok_def terminal_ok_def)

lemma admin_core:
  assumes "set_core lim r" and "apply_transition r ev = Inr r'"
  shows "set_core lim (recompute (r'\<lparr>s_admin_enabled := b\<rparr>))"
proof -
  have "terminal_ok r'" using set_coreD(4) [OF assms(1)] assms(2) by (rule apply_transition_terminal_ok)
  then show ?thesis
    using set_coreD [OF assms(1)] apply_transition_keeps [OF assms(2)]
    by (intro set_core_recompute) (simp_all add: tables_ok_def evidence_ok_def terminal_ok_def)
qed

lemma recompute_core: "set_core lim r \<Longrightarrow> set_core lim (recompute r)"
  using set_coreD [of lim r] by (intro set_core_recompute) simp_all

text \<open>The facts that close the leaves of an operation.\<close>

lemmas leaf_intros = commit_ok answer_unchanged_ok stored_update_ok set_frame_steps

lemma stored_transition_core:
  "engine_ok e \<Longrightarrow> om_find (e_sets e) sid = Some r \<Longrightarrow> apply_transition r ev = Inr r' \<Longrightarrow>
   ev \<noteq> SE_ADMIN_DISABLED \<Longrightarrow> set_core (e_limits e) r'"
  by (rule transition_core [OF stored_set(3)])

lemma publish_set_ok: "engine_ok e \<Longrightarrow> engine_ok (snd (publish_set ctx sid e))"
  by (auto simp: publish_set_def Let_def dest!: admit_InrD intro!: leaf_intros
      intro: apply_transition_frame stored_transition_core stored_set(3) split: sum.splits)

lemma set_minimum_usable_members_ok:
  "engine_ok e \<Longrightarrow> engine_ok (snd (set_minimum_usable_members ctx sid n e))"
  by (auto simp: set_minimum_usable_members_def Let_def dest!: admit_InrD intro!: leaf_intros minimum_core
      intro: apply_transition_frame stored_transition_core stored_set(3) split: sum.splits)

lemma set_conditional_authority_policy_ok:
  "engine_ok e \<Longrightarrow> engine_ok (snd (set_conditional_authority_policy ctx sid b e))"
  by (auto simp: set_conditional_authority_policy_def Let_def dest!: admit_InrD
      intro!: leaf_intros reevaluate_core
      intro: apply_transition_frame stored_transition_core stored_set(3) split: sum.splits)

lemma complete_withdrawal_ok: "engine_ok e \<Longrightarrow> engine_ok (snd (complete_withdrawal ctx sid e))"
  by (auto simp: complete_withdrawal_def Let_def dest!: admit_InrD intro!: leaf_intros
      intro: apply_transition_frame stored_transition_core stored_set(3) split: sum.splits)

text \<open>An administrative transition of a record whose flag already has the value changes nothing.\<close>

lemma disable_disabled:
  assumes "derived_ok r" and "\<not> s_admin_enabled r" and "apply_transition r SE_ADMIN_DISABLED = Inr r'"
  shows "r' = r"
proof -
  have "\<not> (s_lifecycle r = SL_ACTIVE \<or> s_lifecycle r = SL_DEGRADED \<or> s_lifecycle r = SL_EXHAUSTED)"
    using assms(1,2) by (auto simp: derived_ok_def lifecycle_ok_def derived_lifecycle_def derive_published_lifecycle_def)
  then have "set_transition (s_lifecycle r) SE_ADMIN_DISABLED \<in> {SA_STAY, SA_REJECT}"
    by (cases "s_lifecycle r"; simp add: set_table_defs)
  then show ?thesis using assms(3) by (auto simp: apply_transition_def)
qed

lemma admin_transition_core:
  assumes core: "set_core lim r" and step: "apply_transition r ev = Inr r'"
    and ev: "ev = (if b then SE_ADMIN_ENABLED else SE_ADMIN_DISABLED)"
    and same: "s_admin_enabled r' = b \<or> gen_next (s_generation r') = None"
  shows "set_core lim r'"
proof (cases "gen_next (s_generation r) = None")
  case True
  then show ?thesis by (rule apply_transition_core [OF core step])
next
  case False
  then have b: "s_admin_enabled r = b" using same apply_transition_keeps [OF step] by auto
  show ?thesis
  proof (cases "ev = SE_ADMIN_DISABLED")
    case True
    with b ev have "\<not> s_admin_enabled r" by (auto split: if_splits)
    then have "r' = r" using disable_disabled [OF set_coreD(3) [OF core]] step True by blast
    then show ?thesis using core by simp
  next
    case False
    then show ?thesis by (rule transition_core [OF core step])
  qed
qed

lemma set_admin_enabled_ok:
  assumes "engine_ok e"
  shows "engine_ok (snd (set_admin_enabled ctx sid b e))"
proof -
  have "engine_ok (put_set r' e)"
    if "om_find (e_sets e) sid = Some r" "apply_transition r ev = Inr r'"
      "ev = (if b then SE_ADMIN_ENABLED else SE_ADMIN_DISABLED)"
      "s_admin_enabled r' = b \<or> gen_next (s_generation r') = None" for r r' ev
    using stored_update_ok [OF assms that(1) apply_transition_frame [OF that(2)]
        admin_transition_core [OF stored_set(3) [OF assms that(1)] that(2-4)]] .
  note keep = this
  define ev where "ev = (if b then SE_ADMIN_ENABLED else SE_ADMIN_DISABLED)"
  have change: "engine_ok (put_set (recompute (r'\<lparr>s_admin_enabled := b\<rparr>)) e)"
    if "om_find (e_sets e) sid = Some r" "apply_transition r ev = Inr r'" for r r'
    using apply_transition_frame [OF that(2)] admin_core [OF stored_set(3) [OF assms that(1)] that(2)]
    by (intro stored_update_ok [OF assms that(1)] set_frame_steps) simp_all
  show ?thesis
  proof (cases "admit ctx sid ''set_admin_enabled'' [''set_admin_enabled'', id_text sid, bool_field b] e")
    case (Inl o1)
    then show ?thesis using assms by (simp add: set_admin_enabled_def Let_def)
  next
    case (Inr r)
    note find = admit_InrD [OF Inr, THEN conjunct1]
    show ?thesis
    proof (cases "apply_transition r ev")
      case (Inl c)
      then show ?thesis using assms Inr by (simp add: set_admin_enabled_def Let_def ev_def)
    next
      case step: (Inr r')
      show ?thesis
        using assms Inr step keep [OF find step ev_def] change [OF find step]
        by (simp add: set_admin_enabled_def Let_def set_generation_available_def commit_ok answer_unchanged_ok
            flip: ev_def)
    qed
  qed
qed

lemma withdraw_set_ok: "engine_ok e \<Longrightarrow> engine_ok (snd (withdraw_set ctx sid reason e))"
  by (auto simp: withdraw_set_def Let_def put_set_stored stored_set(1) dest!: admit_InrD
      intro!: leaf_intros apply_member_consequences_core recompute_core
      intro: apply_transition_frame stored_transition_core stored_set(3) split: sum.splits)

lemma revoke_set_ok:
  assumes "engine_ok e"
  shows "engine_ok (snd (revoke_set ctx sid reason detail e))"
proof (cases "admit ctx sid ''revoke_set'' [''revoke_set'', id_text sid, revocation_reason_text reason, detail] e")
  case (Inl o1)
  then show ?thesis using assms by (simp add: revoke_set_def Let_def)
next
  case (Inr r)
  note find = admit_InrD [OF Inr, THEN conjunct1]
  have change: "engine_ok (put_set (apply_member_consequences (e_limits e) (e_epoch e) from_state (s_lifecycle r1)
      (Some ctx) (r1\<lparr>s_revocation := rv\<rparr>)) e)" if "apply_transition r SE_REVOKE = Inr r1" for r1 rv from_state
    using apply_transition_frame [OF that] stored_transition_core [OF assms find that]
    by (intro stored_update_ok [OF assms find] set_frame_steps apply_member_consequences_core) simp_all
  have same: "put_set r e = e" using find stored_set(1) [OF assms find] by (simp add: put_set_stored)
  show ?thesis
    using Inr assms same
    by (simp add: revoke_set_def Let_def commit_ok answer_unchanged_ok change split: sum.split option.split)
qed

lemma retire_set_ok: "engine_ok e \<Longrightarrow> engine_ok (snd (retire_set ctx sid reason e))"
  by (auto simp: retire_set_def Let_def dest!: admit_InrD
      intro!: leaf_intros apply_member_consequences_core
      intro: apply_transition_frame stored_transition_core stored_set(3) split: sum.splits)

lemma supersede_records_ok:
  assumes ok: "engine_ok e" and old: "om_find (e_sets e) p = Some old" and new: "om_find (e_sets e) q = Some new"
    and ne: "p \<noteq> q"
  shows "engine_ok (snd (supersede_records ctx flds old new e))"
proof (cases "apply_transition old SE_SUPERSEDE")
  case (Inl c)
  then show ?thesis using ok by (simp add: supersede_records_def)
next
  case (Inr old1)
  have ids [simp]: "s_id old = p" "s_id new = q" using stored_set(1) [OF ok] old new by auto
  let ?new1 = "new\<lparr>s_supersedes := Some p\<rparr>"
  let ?e1 = "put_set ?new1 e"
  let ?old2 = "old1\<lparr>s_superseded_by := Some q\<rparr>"
  let ?old3 = "apply_member_consequences (e_limits e) (e_epoch e) (s_lifecycle old) (s_lifecycle ?old2) (Some ctx) ?old2"
  have ok1: "engine_ok ?e1"
    by (rule stored_update_ok [OF ok new]) (use stored_set(3) [OF ok new] in simp_all)
  have find_old: "om_find (e_sets ?e1) p = Some old" using old ne by simp
  have id3: "s_id ?old3 = p"
  proof -
    have "set_frame old ?old3" using apply_transition_frame [OF Inr] by (intro set_frame_steps) simp
    then show ?thesis by (simp add: set_frame_def clocks_frame_def)
  qed
  have "set_core (e_limits e) old1" by (rule transition_core [OF stored_set(3) [OF ok old] Inr]) simp
  then have "set_core (e_limits e) ?old3" by (intro apply_member_consequences_core) simp_all
  then have ok2: "engine_ok (put_set ?old3 ?e1)"
    using apply_transition_frame [OF Inr]
    by (intro stored_update_ok [OF ok1 find_old] set_frame_steps) simp_all
  let ?spec = "commit_spec_for SE_SUPERSEDE CA_SET_SUPERSEDED (msg (''superseded by '' @ id_text q))"
  let ?o = "make_outcome OC_SET_SUPERSEDED (msg (''superseded by '' @ id_text q))"
  obtain c e2 where c: "commit ?old3 ctx ''supersede_set'' flds ?spec ?o ?e1 = (c, e2)" by fastforce
  have ok3: "engine_ok e2" using commit_ok [OF ok2] c by (metis snd_conv)
  have "om_find (e_sets e2) q = om_find (e_sets ?e1) q"
    using commit_other [of q ?old3 ctx "''supersede_set''" flds ?spec ?o ?e1] ne id3 c by auto
  then have find_new: "om_find (e_sets e2) q = Some ?new1" by simp
  have lim: "e_limits e2 = e_limits e"
    using arg_cong [OF c, of "\<lambda>x. e_limits (snd x)"] by simp
  have "engine_ok (put_set (append_history l ep ev ca cx m pa su ?new1) e2)" for l ep ev ca cx m pa su
    by (rule stored_update_ok [OF ok3 find_new]) (use stored_set(3) [OF ok new] lim in simp_all)
  then show ?thesis using Inr c ok3 by (simp add: supersede_records_def Let_def capture_snapshot_ok)
qed

lemma supersede_set_ok: "engine_ok e \<Longrightarrow> engine_ok (snd (supersede_set ctx p q e))"
  by (auto simp: supersede_set_def Let_def require_set_Inr put_set_stored stored_set(1)
      intro!: supersede_records_ok answer_unchanged_ok split: option.splits sum.splits)

lemma declare_path_authority_ok:
  assumes "engine_ok e"
  shows "engine_ok (snd (declare_path_authority ctx view e))"
proof -
  have "engine_ok (e\<lparr>e_directory := dir_set_view view (e_directory e)\<rparr>)"
    using engine_okD [OF assms]
    by (intro engine_okI)
      (simp_all add: dir_ok_ops sets_ok_def keys_ok_def dependents_ok_def dependents_of_def authority_ok_def
        attempts_ok_def snapshots_ok_def ids_ok_def member_ids_def counts_ok_def relation_count_def)
  then show ?thesis
    using assms
    by (auto simp: declare_path_authority_def Let_def case_prod_unfold apply_view_ok record_attempt_ok
        split: sum.splits option.splits)
qed

section \<open>Creation keeps the invariant\<close>

lemma next_set_id_fresh:
  assumes ok: "engine_ok e" and c: "f_counter (e_ids e) \<noteq> u64_max" and n: "next_set_id (e_ids e) = (sid, ids)"
  shows "om_find (e_sets e) sid = None" "id_valid sid" "factory_ok ids"
    "ids_below ids ''set'' (insert sid (dom (om_find (e_sets e))))" "ids_below ids ''mem'' (member_ids e)"
proof -
  let ?f = "e_ids e"
  have f: "factory_ok ?f" and s: "ids_below ?f ''set'' (dom (om_find (e_sets e)))"
    and m: "ids_below ?f ''mem'' (member_ids e)" using engine_okD(7) [OF ok] by (auto simp: ids_ok_def)
  have sid: "sid = StrongId (factory_compose ?f ''set'' (f_counter ?f + 1))"
    and ids: "ids = ?f\<lparr>f_counter := f_counter ?f + 1\<rparr>" using n next_set_id_eq [OF f] by auto
  show "om_find (e_sets e) sid = None" using ids_below_fresh [OF s c] sid by auto
  show "id_valid sid"
    using compose_accepted [OF f, of "''set''" 96 "f_counter ?f + 1"] parse_strong_id_valid sid by fastforce
  show "factory_ok ids" using f ids by simp
  show "ids_below ids ''set'' (insert sid (dom (om_find (e_sets e))))"
    unfolding ids sid by (rule ids_below_step [OF s c]) simp
  show "ids_below ids ''mem'' (member_ids e)"
    unfolding ids by (rule ids_below_step [OF m c]) blast
qed

lemma put_new_set_ok:
  assumes ok: "engine_ok e" and fresh: "om_find (e_sets e) (s_id r) = None" and valid: "id_valid (s_id r)"
    and core: "set_core (e_limits e) r" and empty: "s_members r = om_empty" "s_member_index r = om_empty"
    and key: "om_find (e_key_index e) (s_key r) = None" and size: "om_size (e_sets e) < max_sets (e_limits e)"
    and ids: "factory_ok ids" "ids_below ids ''set'' (insert (s_id r) (dom (om_find (e_sets e))))"
      "ids_below ids ''mem'' (member_ids e)"
  shows "engine_ok (put_set r (e\<lparr>e_ids := ids, e_key_index := om_put (s_key r) (s_id r) (e_key_index e)\<rparr>))"
    (is "engine_ok ?e")
proof -
  note D = engine_okD [OF ok]
  have "sets_ok ?e"
    unfolding sets_ok_def
  proof (intro allI impI)
    fix sid q assume "om_find (e_sets ?e) sid = Some q"
    then show "s_id q = sid \<and> id_valid sid \<and> set_core (e_limits ?e) q"
      using sets_okD [OF D(1), of sid q] valid core by (cases "sid = s_id r") auto
  qed
  moreover have "keys_ok ?e"
    using set_table.agrees_insert [of "e_sets e" "e_key_index e" "s_id r" r] D(2) fresh key
    by (simp add: keys_ok_def)
  moreover have "dependents_ok ?e"
    using D(3) fresh by (auto simp: dependents_ok_def dependents_of_def empty)
  moreover have "ids_ok ?e"
  proof -
    have "member_ids ?e \<subseteq> member_ids e" by (auto simp: member_ids_def empty split: if_splits)
    then show ?thesis using ids by (auto simp: ids_ok_def intro: ids_below_mono)
  qed
  moreover have "counts_ok ?e"
  proof -
    have "relation_count ?e = relation_count (put_set r e)" by (simp add: relation_count_def)
    then show ?thesis
      using D(8) size relation_count_new [OF fresh]
      by (simp add: counts_ok_def empty) (simp add: put_set_def om_size_put fresh)
  qed
  moreover have "authority_ok ?e" "attempts_ok ?e" "snapshots_ok ?e"
    using D(4-6) by (simp_all add: authority_ok_def attempts_ok_def snapshots_ok_def)
  ultimately show ?thesis using D(9) by (intro engine_okI) simp_all
qed

lemma empty_set_core:
  "key_valid (s_key r) \<Longrightarrow> s_members r = om_empty \<Longrightarrow> s_member_index r = om_empty \<Longrightarrow> s_usable r = 0 \<Longrightarrow>
   s_lifecycle r = SL_DECLARED \<Longrightarrow> s_minimum r \<le> max_members_per_set lim \<Longrightarrow> gen_valid (s_generation r) \<Longrightarrow>
   set_core lim r"
  by (simp add: set_core_def tables_ok_def evidence_ok_def derived_ok_def lifecycle_ok_def derived_lifecycle_def
      terminal_ok_def terminal_lifecycle_def recompute_usable_members_def index_ok_def)

lemma create_set_ok:
  assumes ok: "engine_ok e" and c: "f_counter (e_ids e) \<noteq> u64_max"
  shows "engine_ok (snd (create_set ctx key options e))"
proof -
  obtain sid ids where n: "next_set_id (e_ids e) = (sid, ids)" by fastforce
  note fresh = next_set_id_fresh [OF ok c n]
  have "engine_ok (put_set (append_history lim ep ev ca cx m p su (new_set_record sid key options e\<lparr>s_provenance := pv\<rparr>))
      (e\<lparr>e_ids := ids, e_key_index := om_put key sid (e_key_index e)\<rparr>))"
    if "key_valid key" "om_find (e_key_index e) key = None" "om_size (e_sets e) < max_sets (e_limits e)"
      "so_minimum options \<le> max_members_per_set (e_limits e)" for lim ep ev ca cx m p su pv
  proof -
    let ?r = "append_history lim ep ev ca cx m p su (new_set_record sid key options e\<lparr>s_provenance := pv\<rparr>)"
    have [simp]: "s_id ?r = sid" "s_key ?r = key" by (simp_all add: new_set_record_def)
    have core: "set_core (e_limits e) ?r" unfolding set_core_upd
      by (rule empty_set_core) (use that in \<open>simp_all add: new_set_record_def\<close>)
    show ?thesis
      using put_new_set_ok [of e ?r ids] ok fresh that core by (simp add: new_set_record_def)
  qed
  then show ?thesis
    using ok n
    by (auto simp: create_set_def Let_def not_le not_less record_attempt_ok capture_snapshot_ok split: option.splits)
qed

end
