(* ===== verification/Diff.thy ===== *)
theory Diff
  imports Set_Ops
begin

text \<open>
  \<open>src/diff.cpp\<close> and \<open>diff.hpp\<close>: the difference of two snapshots of one set. The C++ pushes entries
  onto one vector; here every statement is the list of the entries it pushes. \<open>std::stable_sort\<close> by
  \<open>DiffEntry::operator<\<close> is a sort by the tuple that operator compares.
\<close>

section \<open>Kinds and entries\<close>

datatype (plugins only: code) diff_kind =
    DK_SET_GENERATION_CHANGED
  | DK_MEMBERSHIP_GENERATION_CHANGED
  | DK_AUTHORITY_GENERATION_CHANGED
  | DK_SET_LIFECYCLE_CHANGED
  | DK_SET_CURRENTNESS_CHANGED
  | DK_READINESS_CHANGED
  | DK_SET_ADMIN_CHANGED
  | DK_MINIMUM_CHANGED
  | DK_CONDITIONAL_POLICY_CHANGED
  | DK_GOVERNING_EPOCH_CHANGED
  | DK_USABLE_COUNT_CHANGED
  | DK_SUPERSEDED_BY_CHANGED
  | DK_REVOCATION_CHANGED
  | DK_WITHDRAWAL_REASON_CHANGED
  | DK_MEMBER_ADDED
  | DK_MEMBER_REMOVED
  | DK_MEMBER_PATH_AUTHORITY_GENERATION_CHANGED
  | DK_MEMBER_LIFECYCLE_CHANGED
  | DK_MEMBER_CURRENTNESS_CHANGED
  | DK_MEMBER_ADMIN_CHANGED
  | DK_MEMBER_GENERATION_CHANGED
  | DK_MEMBER_PENDING_REVALIDATIONS_CHANGED

primrec diff_kind_raw :: "diff_kind \<Rightarrow> nat" where
  "diff_kind_raw DK_SET_GENERATION_CHANGED = 1"
| "diff_kind_raw DK_MEMBERSHIP_GENERATION_CHANGED = 2"
| "diff_kind_raw DK_AUTHORITY_GENERATION_CHANGED = 3"
| "diff_kind_raw DK_SET_LIFECYCLE_CHANGED = 4"
| "diff_kind_raw DK_SET_CURRENTNESS_CHANGED = 5"
| "diff_kind_raw DK_READINESS_CHANGED = 6"
| "diff_kind_raw DK_SET_ADMIN_CHANGED = 7"
| "diff_kind_raw DK_MINIMUM_CHANGED = 8"
| "diff_kind_raw DK_CONDITIONAL_POLICY_CHANGED = 9"
| "diff_kind_raw DK_GOVERNING_EPOCH_CHANGED = 10"
| "diff_kind_raw DK_USABLE_COUNT_CHANGED = 11"
| "diff_kind_raw DK_SUPERSEDED_BY_CHANGED = 12"
| "diff_kind_raw DK_REVOCATION_CHANGED = 13"
| "diff_kind_raw DK_WITHDRAWAL_REASON_CHANGED = 14"
| "diff_kind_raw DK_MEMBER_ADDED = 15"
| "diff_kind_raw DK_MEMBER_REMOVED = 16"
| "diff_kind_raw DK_MEMBER_PATH_AUTHORITY_GENERATION_CHANGED = 17"
| "diff_kind_raw DK_MEMBER_LIFECYCLE_CHANGED = 18"
| "diff_kind_raw DK_MEMBER_CURRENTNESS_CHANGED = 19"
| "diff_kind_raw DK_MEMBER_ADMIN_CHANGED = 20"
| "diff_kind_raw DK_MEMBER_GENERATION_CHANGED = 21"
| "diff_kind_raw DK_MEMBER_PENDING_REVALIDATIONS_CHANGED = 22"

primrec diff_kind_text :: "diff_kind \<Rightarrow> string" where
  "diff_kind_text DK_SET_GENERATION_CHANGED = ''SET_GENERATION_CHANGED''"
| "diff_kind_text DK_MEMBERSHIP_GENERATION_CHANGED = ''MEMBERSHIP_GENERATION_CHANGED''"
| "diff_kind_text DK_AUTHORITY_GENERATION_CHANGED = ''AUTHORITY_GENERATION_CHANGED''"
| "diff_kind_text DK_SET_LIFECYCLE_CHANGED = ''SET_LIFECYCLE_CHANGED''"
| "diff_kind_text DK_SET_CURRENTNESS_CHANGED = ''SET_CURRENTNESS_CHANGED''"
| "diff_kind_text DK_READINESS_CHANGED = ''READINESS_CHANGED''"
| "diff_kind_text DK_SET_ADMIN_CHANGED = ''SET_ADMIN_CHANGED''"
| "diff_kind_text DK_MINIMUM_CHANGED = ''MINIMUM_CHANGED''"
| "diff_kind_text DK_CONDITIONAL_POLICY_CHANGED = ''CONDITIONAL_POLICY_CHANGED''"
| "diff_kind_text DK_GOVERNING_EPOCH_CHANGED = ''GOVERNING_EPOCH_CHANGED''"
| "diff_kind_text DK_USABLE_COUNT_CHANGED = ''USABLE_COUNT_CHANGED''"
| "diff_kind_text DK_SUPERSEDED_BY_CHANGED = ''SUPERSEDED_BY_CHANGED''"
| "diff_kind_text DK_REVOCATION_CHANGED = ''REVOCATION_CHANGED''"
| "diff_kind_text DK_WITHDRAWAL_REASON_CHANGED = ''WITHDRAWAL_REASON_CHANGED''"
| "diff_kind_text DK_MEMBER_ADDED = ''MEMBER_ADDED''"
| "diff_kind_text DK_MEMBER_REMOVED = ''MEMBER_REMOVED''"
| "diff_kind_text DK_MEMBER_PATH_AUTHORITY_GENERATION_CHANGED = ''MEMBER_PATH_AUTHORITY_GENERATION_CHANGED''"
| "diff_kind_text DK_MEMBER_LIFECYCLE_CHANGED = ''MEMBER_LIFECYCLE_CHANGED''"
| "diff_kind_text DK_MEMBER_CURRENTNESS_CHANGED = ''MEMBER_CURRENTNESS_CHANGED''"
| "diff_kind_text DK_MEMBER_ADMIN_CHANGED = ''MEMBER_ADMIN_CHANGED''"
| "diff_kind_text DK_MEMBER_GENERATION_CHANGED = ''MEMBER_GENERATION_CHANGED''"
| "diff_kind_text DK_MEMBER_PENDING_REVALIDATIONS_CHANGED = ''MEMBER_PENDING_REVALIDATIONS_CHANGED''"

definition valid_diff_kind :: "nat \<Rightarrow> bool" where
  "valid_diff_kind raw \<longleftrightarrow> 1 \<le> raw \<and> raw \<le> 22"

record diff_entry =
  de_kind :: diff_kind
  de_subject :: string
  de_before :: string
  de_after :: string

definition diff_key :: "diff_entry \<Rightarrow> nat \<times> string \<times> string \<times> string" where
  "diff_key d = (diff_kind_raw (de_kind d), de_subject d, de_before d, de_after d)"

definition diff_entry_less :: "diff_entry \<Rightarrow> diff_entry \<Rightarrow> bool" where
  "diff_entry_less d d' =
     (if de_kind d \<noteq> de_kind d' then diff_kind_raw (de_kind d) < diff_kind_raw (de_kind d')
      else if de_subject d \<noteq> de_subject d' then de_subject d < de_subject d'
      else if de_before d \<noteq> de_before d' then de_before d < de_before d'
      else de_after d < de_after d')"

definition diff_entry_render :: "diff_entry \<Rightarrow> string" where
  "diff_entry_render d =
     diff_kind_text (de_kind d) @ '' subject='' @ de_subject d @ '' before='' @ [CHR 0x22] @ de_before d @
     [CHR 0x22] @ '' after='' @ [CHR 0x22] @ de_after d @ [CHR 0x22]"

definition add_entry :: "diff_kind \<Rightarrow> string \<Rightarrow> string \<Rightarrow> string \<Rightarrow> diff_entry list" where
  "add_entry kind subject before after =
     (if before = after then []
      else [\<lparr>de_kind = kind, de_subject = subject, de_before = before, de_after = after\<rparr>])"

section \<open>The diff\<close>

record snapshot_diff =
  sd_set_id :: set_id
  sd_before_snapshot :: snapshot_id
  sd_after_snapshot :: snapshot_id
  sd_before_generation :: set_generation
  sd_after_generation :: set_generation
  sd_before_digest :: digest128
  sd_after_digest :: digest128
  sd_identical :: bool
  sd_entries :: "diff_entry list"

definition revocation_or_dash :: "revocation_record option \<Rightarrow> string" where
  "revocation_or_dash v = (case v of None \<Rightarrow> ''-'' | Some w \<Rightarrow> revocation_render w)"

definition set_entries :: "set_snapshot \<Rightarrow> set_snapshot \<Rightarrow> diff_entry list" where
  "set_entries before after =
     add_entry DK_SET_GENERATION_CHANGED ''-'' (gen_text (ss_generation before)) (gen_text (ss_generation after)) @
     add_entry DK_MEMBERSHIP_GENERATION_CHANGED ''-''
       (gen_text (ss_membership_generation before)) (gen_text (ss_membership_generation after)) @
     add_entry DK_AUTHORITY_GENERATION_CHANGED ''-''
       (gen_text (ss_authority_generation before)) (gen_text (ss_authority_generation after)) @
     add_entry DK_SET_LIFECYCLE_CHANGED ''-''
       (set_lifecycle_text (ss_lifecycle before)) (set_lifecycle_text (ss_lifecycle after)) @
     add_entry DK_SET_CURRENTNESS_CHANGED ''-''
       (set_currentness_text (ss_currentness before)) (set_currentness_text (ss_currentness after)) @
     add_entry DK_READINESS_CHANGED ''-''
       (route_readiness_value_text (ss_readiness before)) (route_readiness_value_text (ss_readiness after)) @
     add_entry DK_SET_ADMIN_CHANGED ''-'' (bool_text (ss_admin_enabled before)) (bool_text (ss_admin_enabled after)) @
     add_entry DK_MINIMUM_CHANGED ''-'' (nat_string (ss_minimum before)) (nat_string (ss_minimum after)) @
     add_entry DK_CONDITIONAL_POLICY_CHANGED ''-''
       (bool_text (ss_conditional before)) (bool_text (ss_conditional after)) @
     add_entry DK_GOVERNING_EPOCH_CHANGED ''-''
       (gen_text (ss_governing_epoch before)) (gen_text (ss_governing_epoch after)) @
     add_entry DK_USABLE_COUNT_CHANGED ''-'' (nat_string (ss_usable_count before)) (nat_string (ss_usable_count after)) @
     add_entry DK_SUPERSEDED_BY_CHANGED ''-''
       (id_or_dash (ss_superseded_by before)) (id_or_dash (ss_superseded_by after)) @
     add_entry DK_REVOCATION_CHANGED ''-''
       (revocation_or_dash (ss_revocation before)) (revocation_or_dash (ss_revocation after)) @
     add_entry DK_WITHDRAWAL_REASON_CHANGED ''-'' (ss_withdrawal_reason before) (ss_withdrawal_reason after)"

definition members_by_path :: "set_snapshot \<Rightarrow> (path_id, member_snapshot) omap" where
  "members_by_path s = fold (\<lambda>m. om_put (ms_path_id m) m) (ss_members s) om_empty"

definition all_paths :: "(path_id, member_snapshot) omap \<Rightarrow> (path_id, member_snapshot) omap \<Rightarrow> path_id list" where
  "all_paths before after =
     remdups_adj (sort (om_keys before @ filter (\<lambda>p. \<not> om_has before p) (om_keys after)))"

definition member_changes :: "path_id \<Rightarrow> member_snapshot \<Rightarrow> member_snapshot \<Rightarrow> diff_entry list" where
  "member_changes path left right =
     (if \<not> (ms_id left = ms_id right)
      then add_entry DK_MEMBER_REMOVED (id_text path) (id_text (ms_id left)) ''-'' @
           add_entry DK_MEMBER_ADDED (id_text path) ''-'' (id_text (ms_id right))
      else []) @
     add_entry DK_MEMBER_PATH_AUTHORITY_GENERATION_CHANGED (id_text path)
       (gen_text (ms_bound left)) (gen_text (ms_bound right)) @
     add_entry DK_MEMBER_LIFECYCLE_CHANGED (id_text path)
       (member_lifecycle_text (ms_lifecycle left)) (member_lifecycle_text (ms_lifecycle right)) @
     add_entry DK_MEMBER_CURRENTNESS_CHANGED (id_text path)
       (member_currentness_text (ms_currentness left)) (member_currentness_text (ms_currentness right)) @
     add_entry DK_MEMBER_ADMIN_CHANGED (id_text path)
       (bool_text (ms_admin_enabled left)) (bool_text (ms_admin_enabled right)) @
     add_entry DK_MEMBER_GENERATION_CHANGED (id_text path)
       (gen_text (ms_generation left)) (gen_text (ms_generation right)) @
     add_entry DK_MEMBER_PENDING_REVALIDATIONS_CHANGED (id_text path)
       (nat_string (unat (ms_pending left))) (nat_string (unat (ms_pending right)))"

definition path_entries ::
  "(path_id, member_snapshot) omap \<Rightarrow> (path_id, member_snapshot) omap \<Rightarrow> path_id \<Rightarrow> diff_entry list" where
  "path_entries before after path =
     (case (om_find before path, om_find after path) of
        (Some left, None) \<Rightarrow> add_entry DK_MEMBER_REMOVED (id_text path) (id_text (ms_id left)) ''-''
      | (None, Some right) \<Rightarrow> add_entry DK_MEMBER_ADDED (id_text path) ''-'' (id_text (ms_id right))
      | (Some left, Some right) \<Rightarrow> member_changes path left right
      | (None, None) \<Rightarrow> [])"

definition diff_entries :: "set_snapshot \<Rightarrow> set_snapshot \<Rightarrow> diff_entry list" where
  "diff_entries before after =
     set_entries before after @
     concat (map (path_entries (members_by_path before) (members_by_path after))
                 (all_paths (members_by_path before) (members_by_path after)))"

definition diff_snapshots :: "set_snapshot \<Rightarrow> set_snapshot \<Rightarrow> snapshot_diff option" where
  "diff_snapshots before after =
     (if \<not> (ss_set_id before = ss_set_id after) then None
      else let entries = sort_key diff_key (diff_entries before after)
      in Some \<lparr>sd_set_id = ss_set_id before, sd_before_snapshot = ss_snapshot_id before,
               sd_after_snapshot = ss_snapshot_id after, sd_before_generation = ss_generation before,
               sd_after_generation = ss_generation after, sd_before_digest = ss_digest before,
               sd_after_digest = ss_digest after, sd_identical = (entries = []), sd_entries = entries\<rparr>)"

definition snapshot_diff_render :: "snapshot_diff \<Rightarrow> string" where
  "snapshot_diff_render d =
     ''diff set='' @ id_text (sd_set_id d) @ '' before='' @ id_text (sd_before_snapshot d) @ '' after='' @
     id_text (sd_after_snapshot d) @ '' generation '' @ gen_text (sd_before_generation d) @ '' -> '' @
     gen_text (sd_after_generation d) @ '' entries='' @ nat_string (length (sd_entries d)) @
     (if sd_identical d then '' (identical)'' else []) @
     concat (map (\<lambda>entry. [CHR 0x0A] @ ''  '' @ diff_entry_render entry) (sd_entries d))"

end
