(* ===== verification/Membership_Ops.thy ===== *)
theory Membership_Ops
  imports Set_Ops
begin

text \<open>
  \<open>src/fabric_membership.cpp\<close>: publication, removal, withdrawal, replacement and administrative state
  of members. The operations that need Path Authority look it up before they take the lock; the
  locked part is a definition of its own that takes the views found, and the operation composes the
  phases. \<open>before\<close> and \<open>after\<close> are what an external source answers in the phase before the lock and in
  the reconciliation after it.
\<close>

section \<open>Requests\<close>

record member_request =
  mr_path_id :: path_id
  mr_generation :: path_authority_generation

definition member_fields :: "string \<Rightarrow> set_id \<Rightarrow> path_id \<Rightarrow> path_authority_generation \<Rightarrow> string" where
  "member_fields operation sid path generation =
     operation @ ''|'' @ id_text sid @ ''|'' @ id_text path @ ''|'' @ gen_text generation"

definition bulk_fields :: "string \<Rightarrow> set_id \<Rightarrow> member_request list \<Rightarrow> string list" where
  "bulk_fields operation sid requests =
     [operation, id_text sid] @
     map (\<lambda>q. member_fields operation sid (mr_path_id q) (mr_generation q)) requests"

definition member_not_found :: "set_id \<Rightarrow> member_id \<Rightarrow> fabric_outcome" where
  "member_not_found sid mid =
     make_rejection OC_MEMBER_NOT_FOUND (msg (''no member '' @ id_text mid @ '' in set '' @ id_text sid))"

definition generations_exhausted :: "set_id \<Rightarrow> fabric_outcome" where
  "generations_exhausted sid =
     make_rejection OC_GENERATION_OVERFLOW (msg (''generation exhausted for set '' @ id_text sid))"

section \<open>A relation enters the tables\<close>

text \<open>The record a publication starts from, before the evaluation against the view.\<close>

definition new_member ::
  "member_id \<Rightarrow> path_id \<Rightarrow> path_authority_generation \<Rightarrow> member_id option \<Rightarrow> membership_provenance \<Rightarrow> member_record" where
  "new_member mid path bound predecessor provenance =
     \<lparr>m_id = mid, m_path_id = path, m_bound = bound, m_generation = gen_first,
      m_lifecycle = ML_PENDING, m_currentness = MC_PENDING_EVALUATION, m_admin_enabled = True,
      m_watermark = wm_initial, m_pending = 0, m_provenance = provenance,
      m_predecessor = predecessor, m_successor = None,
      m_observed_generation = None, m_observed_state = None\<rparr>"

text \<open>
  The member index entry of a relation that is replaced in place is erased first, then both tables
  take the new relation.
\<close>

definition install_member :: "path_id \<Rightarrow> member_record \<Rightarrow> set_record \<Rightarrow> set_record" where
  "install_member path m r =
     (let idx = (case om_find (s_members r) path of
                   None \<Rightarrow> s_member_index r | Some old \<Rightarrow> om_del (m_id old) (s_member_index r))
      in r\<lparr>s_member_index := om_put (m_id m) path idx, s_members := om_put path m (s_members r)\<rparr>)"

section \<open>Publication\<close>

definition stale_request :: "bool \<Rightarrow> (member_request \<times> path_authority_view option) list \<Rightarrow> fabric_outcome option" where
  "stale_request conditional inputs =
     (case List.find (\<lambda>(q, view). classify_path_authority view (mr_generation q) conditional \<noteq> MC_CURRENT) inputs of
        None \<Rightarrow> None
      | Some (q, view) \<Rightarrow>
          Some (currentness_rejection (classify_path_authority view (mr_generation q) conditional) (mr_path_id q)))"

text \<open>
  The duplicate scan: \<open>seen\<close> are the paths of the requests before; the result is the list of flags
  that say which requests replace a terminal relation in place.
\<close>

fun scan_duplicates ::
  "set_id \<Rightarrow> (path_id, member_record) omap \<Rightarrow> path_id list \<Rightarrow> member_request list \<Rightarrow> fabric_outcome + bool list" where
  "scan_duplicates sid members seen [] = Inr []"
| "scan_duplicates sid members seen (q # requests) =
     (let path = mr_path_id q
      in if path \<in> set seen
         then Inl (make_rejection OC_DUPLICATE_MEMBER
                (msg (''path '' @ id_text path @ '' appears more than once in the same batch'')))
         else case om_find members path of
           None \<Rightarrow> map_sum id (Cons False) (scan_duplicates sid members (seen @ [path]) requests)
         | Some existing \<Rightarrow>
             if \<not> member_is_terminal existing
             then Inl (make_rejection OC_DUPLICATE_MEMBER
                    (msg (''path '' @ id_text path @ '' is already a live member '' @
                          id_text (m_id existing) @ '' of set '' @ id_text sid)))
             else map_sum id (Cons True) (scan_duplicates sid members (seen @ [path]) requests))"

definition dependency_full :: "path_id \<Rightarrow> engine \<Rightarrow> bool" where
  "dependency_full path e \<longleftrightarrow>
     (case om_find (e_path_dependents e) path of
        None \<Rightarrow> False
      | Some dependents \<Rightarrow> om_size dependents \<ge> max_path_dependencies_per_path (e_limits e))"

definition full_dependency :: "(member_request \<times> bool) list \<Rightarrow> engine \<Rightarrow> path_id option" where
  "full_dependency flagged e =
     map_option (\<lambda>(q, replaced). mr_path_id q)
       (List.find (\<lambda>(q, replaced). \<not> replaced \<and> dependency_full (mr_path_id q) e) flagged)"

definition publish_member ::
  "mutation_context \<Rightarrow> member_request \<times> path_authority_view option \<Rightarrow>
   member_id list \<times> set_record \<times> engine \<Rightarrow> member_id list \<times> set_record \<times> engine" where
  "publish_member ctx input acc =
     (case input of (q, view) \<Rightarrow> case acc of (added, r, e) \<Rightarrow>
       (let path = mr_path_id q;
            (mid, ids) = next_member_id (e_ids e);
            m = new_member mid path (mr_generation q) None (make_provenance ctx CA_MEMBER_ADDED r);
            m = evaluate_member (s_conditional r) view False m;
            m = (case om_find (s_members r) path of
                   None \<Rightarrow> m | Some existing \<Rightarrow> m\<lparr>m_predecessor := Some (m_id existing)\<rparr>)
        in (added @ [mid], install_member path m r, index_path (s_id r) path (e\<lparr>e_ids := ids\<rparr>))))"

definition published_text :: "bool \<Rightarrow> member_request list \<Rightarrow> set_lifecycle \<Rightarrow> set_lifecycle \<Rightarrow> string" where
  "published_text bulk requests before after =
     (if bulk then ''bulk published '' else ''added '') @ nat_string (length requests) @ '' member(s):'' @
     concat (map (\<lambda>q. '' '' @ id_text (mr_path_id q) @ ''@'' @ gen_text (mr_generation q)) requests) @
     ''; lifecycle '' @ set_lifecycle_text before @ '' -> '' @ set_lifecycle_text after"

text \<open>The commit of a validated batch: every member is applied, then one commit.\<close>

definition publish_members ::
  "mutation_context \<Rightarrow> set_id \<Rightarrow> member_request list \<Rightarrow> string \<Rightarrow> bool \<Rightarrow> path_authority_view option list \<Rightarrow>
   set_lifecycle \<Rightarrow> nat \<Rightarrow> set_record \<Rightarrow> engine \<Rightarrow> answer" where
  "publish_members ctx sid requests operation bulk views before new_live r e =
     (let (added, r, e) = fold (publish_member ctx) (zip requests views) ([], r, e);
          e = e\<lparr>e_total_members := e_total_members e + new_live\<rparr>;
          r = recompute r;
          summary = msg (published_text bulk requests before (s_lifecycle r));
          member = (if length added = 1 then Some (hd added) else None);
          path = (if length requests = 1 then Some (mr_path_id (hd requests)) else None);
          spec = (commit_spec_for SE_MEMBER_ADDED CA_MEMBER_ADDED summary)
            \<lparr>cs_advance_membership_generation := True, cs_member_id := member, cs_path_id := path\<rparr>
      in commit r ctx operation (bulk_fields operation sid requests) spec
           ((make_outcome OC_MEMBER_ADDED summary)\<lparr>o_member_id := member, o_path_id := path\<rparr>) e)"

definition members_limit :: "set_id \<Rightarrow> string \<Rightarrow> engine \<Rightarrow> fabric_outcome" where
  "members_limit sid how e =
     make_rejection OC_RESOURCE_LIMIT
       (msg (''max_members_per_set limit of '' @ nat_string (max_members_per_set (e_limits e)) @
             '' would be exceeded by '' @ how @ ''set '' @ id_text sid))"

definition total_limit :: "string \<Rightarrow> engine \<Rightarrow> fabric_outcome" where
  "total_limit how e =
     make_rejection OC_RESOURCE_LIMIT
       (msg (''max_total_members limit of '' @ nat_string (max_total_members (e_limits e)) @
             '' would be exceeded'' @ how))"

definition dependency_limit :: "path_id \<Rightarrow> engine \<Rightarrow> fabric_outcome" where
  "dependency_limit path e =
     make_rejection OC_RESOURCE_LIMIT
       (msg (''max_path_dependencies_per_path limit of '' @
             nat_string (max_path_dependencies_per_path (e_limits e)) @ '' reached for path '' @ id_text path))"

text \<open>
  The critical section of \<open>add_members_internal\<close>. The flag tells whether its end was reached: a
  rejection returns from the function, past the reconciliation.
\<close>

definition add_members_locked ::
  "mutation_context \<Rightarrow> set_id \<Rightarrow> member_request list \<Rightarrow> string \<Rightarrow> bool \<Rightarrow> path_authority_view option list \<Rightarrow>
   engine \<Rightarrow> answer \<times> bool" where
  "add_members_locked ctx sid requests operation bulk views e =
     (case admit ctx sid operation (bulk_fields operation sid requests) e of
        Inl answer \<Rightarrow> ((answer, e), False)
      | Inr r \<Rightarrow>
        if \<not> transition_allowed (s_lifecycle r) SE_MEMBER_ADDED
        then ((lifecycle_rejection (s_lifecycle r) sid, e), False)
        else if \<not> expected_set_generation_matches ctx r then ((stale_set_generation ctx r, e), False)
        else case stale_request (s_conditional r) (zip requests views) of
          Some rejection \<Rightarrow> ((rejection, e), False)
        | None \<Rightarrow>
          (case scan_duplicates sid (s_members r) [] requests of
             Inl rejection \<Rightarrow> ((rejection, e), False)
           | Inr replaces \<Rightarrow>
             (let new_live = length (filter Not replaces)
              in if live_member_count r + new_live > max_members_per_set (e_limits e)
                 then ((members_limit sid [] e, e), False)
                 else if e_total_members e + new_live > max_total_members (e_limits e)
                 then ((total_limit [] e, e), False)
                 else case full_dependency (zip requests replaces) e of
                   Some path \<Rightarrow> ((dependency_limit path e, e), False)
                 | None \<Rightarrow>
                   if \<not> set_generation_available r \<or> \<not> membership_generation_available r
                   then ((generations_exhausted sid, e), False)
                   else case apply_transition r SE_MEMBER_ADDED of
                     Inl _ \<Rightarrow> ((lifecycle_rejection (s_lifecycle r) sid, e), False)
                   | Inr r1 \<Rightarrow>
                       (publish_members ctx sid requests operation bulk views (s_lifecycle r) new_live r1 e, True))))"

text \<open>The checks of the request itself, made before anything is looked up.\<close>

definition add_members_request_check ::
  "set_id \<Rightarrow> member_request list \<Rightarrow> string \<Rightarrow> bool \<Rightarrow> engine \<Rightarrow> fabric_outcome option" where
  "add_members_request_check sid requests operation bulk e =
     (if \<not> id_valid sid then Some (malformed (operation @ '' requires a set identity''))
      else if requests = [] then Some (malformed (operation @ '' requires at least one member request''))
      else if bulk \<and> length requests > max_batch_size (e_limits e)
      then Some (make_rejection OC_RESOURCE_LIMIT
             (msg (''batch of '' @ nat_string (length requests) @ '' exceeds max_batch_size '' @
                   nat_string (max_batch_size (e_limits e)))))
      else if \<exists>q \<in> set requests. \<not> id_valid (mr_path_id q) \<or> \<not> gen_valid (mr_generation q)
      then Some (malformed ''member request requires a valid PathId and PathAuthorityGeneration'')
      else None)"

definition reconcile_all ::
  "(path_id \<Rightarrow> path_authority_view option) \<Rightarrow> (path_id \<times> path_authority_view option) list \<Rightarrow> engine \<Rightarrow> engine" where
  "reconcile_all after used e =
     fold (\<lambda>(path, view) e. reconcile_path path view (lookup_path after e path) e) used e"

definition add_members_internal ::
  "(path_id \<Rightarrow> path_authority_view option) \<Rightarrow> (path_id \<Rightarrow> path_authority_view option) \<Rightarrow>
   mutation_context \<Rightarrow> set_id \<Rightarrow> member_request list \<Rightarrow> string \<Rightarrow> bool \<Rightarrow> engine \<Rightarrow> answer" where
  "add_members_internal before after ctx sid requests operation bulk e =
     (case add_members_request_check sid requests operation bulk e of
        Some rejection \<Rightarrow> (rejection, e)
      | None \<Rightarrow>
        (let views = map (\<lambda>q. lookup_path before e (mr_path_id q)) requests
         in case add_members_locked ctx sid requests operation bulk views e of
              ((result, e'), reached_end) \<Rightarrow>
                (result, if reached_end then reconcile_all after (zip (map mr_path_id requests) views) e' else e')))"

definition add_member ::
  "(path_id \<Rightarrow> path_authority_view option) \<Rightarrow> (path_id \<Rightarrow> path_authority_view option) \<Rightarrow>
   mutation_context \<Rightarrow> set_id \<Rightarrow> path_id \<Rightarrow> path_authority_generation \<Rightarrow> engine \<Rightarrow> answer" where
  "add_member before after ctx sid path generation e =
     add_members_internal before after ctx sid
       [\<lparr>mr_path_id = path, mr_generation = generation\<rparr>] ''add_member'' False e"

definition add_members ::
  "(path_id \<Rightarrow> path_authority_view option) \<Rightarrow> (path_id \<Rightarrow> path_authority_view option) \<Rightarrow>
   mutation_context \<Rightarrow> set_id \<Rightarrow> member_request list \<Rightarrow> engine \<Rightarrow> answer" where
  "add_members before after ctx sid requests e =
     add_members_internal before after ctx sid requests ''add_members'' True e"

section \<open>Removal and withdrawal\<close>

definition remove_member :: "mutation_context \<Rightarrow> set_id \<Rightarrow> member_id \<Rightarrow> string \<Rightarrow> engine \<Rightarrow> answer" where
  "remove_member ctx sid mid reason e =
     (if \<not> id_valid sid \<or> \<not> id_valid mid
      then (malformed ''remove_member requires a set identity and a member identity'', e)
      else if length reason > 256 then (malformed ''removal reason exceeds the 256 character bound'', e)
      else let flds = [''remove_member'', id_text sid, id_text mid, reason]
      in case admit ctx sid ''remove_member'' flds e of
        Inl answer \<Rightarrow> (answer, e)
      | Inr r \<Rightarrow>
        (case om_find (s_member_index r) mid of
           None \<Rightarrow> (member_not_found sid mid, e)
         | Some path \<Rightarrow>
           if \<not> transition_allowed (s_lifecycle r) SE_MEMBER_REMOVED
           then (lifecycle_rejection (s_lifecycle r) sid, e)
           else (case om_find (s_members r) path of
             None \<Rightarrow> (make_rejection OC_INTERNAL_ERROR
                       (msg (''member index and membership table disagree for '' @ id_text mid)), e)
           | Some m \<Rightarrow>
             if \<not> expected_set_generation_matches ctx r then (stale_set_generation ctx r, e)
             else if \<not> expected_member_generation_matches ctx m then (stale_member_generation ctx m, e)
             else if \<not> set_generation_available r \<or> \<not> membership_generation_available r
             then (generations_exhausted sid, e)
             else (case apply_transition r SE_MEMBER_REMOVED of
               Inl _ \<Rightarrow> (lifecycle_rejection (s_lifecycle r) sid, e)
             | Inr r1 \<Rightarrow>
               (let r2 = r1\<lparr>s_member_index := om_del mid (s_member_index r1), s_members := om_del path (s_members r1)\<rparr>;
                    e = unindex_path sid path e;
                    e = e\<lparr>e_total_members := e_total_members e - 1\<rparr>;
                    r3 = recompute r2;
                    summary = msg (''removed member '' @ id_text mid @ '' (path '' @ id_text path @ ''): '' @ reason);
                    spec = (commit_spec_for SE_MEMBER_REMOVED CA_MEMBER_REMOVED summary)
                      \<lparr>cs_advance_membership_generation := True, cs_member_id := Some mid, cs_path_id := Some path\<rparr>
                in commit r3 ctx ''remove_member'' flds spec
                     ((make_outcome OC_MEMBER_REMOVED summary)\<lparr>o_member_id := Some mid, o_path_id := Some path\<rparr>) e)))))"

text \<open>
  \<open>member_index.find(id)\<close> followed by \<open>members.at(path)\<close>, which throws when the tables disagree. They
  agree in every state the engine reaches (\<open>tables_ok\<close>); the model answers not-found there.
\<close>

definition member_at :: "set_record \<Rightarrow> member_id \<Rightarrow> (path_id \<times> member_record) option" where
  "member_at r mid =
     (case om_find (s_member_index r) mid of
        None \<Rightarrow> None
      | Some path \<Rightarrow> map_option (Pair path) (om_find (s_members r) path))"

definition withdraw_member :: "mutation_context \<Rightarrow> set_id \<Rightarrow> member_id \<Rightarrow> string \<Rightarrow> engine \<Rightarrow> answer" where
  "withdraw_member ctx sid mid reason e =
     (if \<not> id_valid sid \<or> \<not> id_valid mid
      then (malformed ''withdraw_member requires a set identity and a member identity'', e)
      else if length reason > 256 then (malformed ''withdrawal reason exceeds the 256 character bound'', e)
      else let flds = [''withdraw_member'', id_text sid, id_text mid, reason]
      in case admit ctx sid ''withdraw_member'' flds e of
        Inl answer \<Rightarrow> (answer, e)
      | Inr r \<Rightarrow>
        (case member_at r mid of
           None \<Rightarrow> (member_not_found sid mid, e)
         | Some (path, m) \<Rightarrow>
           if \<not> transition_allowed (s_lifecycle r) SE_MEMBER_REMOVED
           then (lifecycle_rejection (s_lifecycle r) sid, e)
           else if m_lifecycle m = ML_WITHDRAWN
           then answer_unchanged r ctx ''withdraw_member'' flds
                  (make_outcome OC_IDEMPOTENT (msg (''member '' @ id_text mid @ '' is already withdrawn''))) e
           else if \<not> expected_member_generation_matches ctx m then (stale_member_generation ctx m, e)
           else (case gen_next (m_generation m) of
             None \<Rightarrow> (generations_exhausted sid, e)
           | Some next_generation \<Rightarrow>
             if \<not> set_generation_available r \<or> \<not> membership_generation_available r
             then (generations_exhausted sid, e)
             else (case member_transition (m_lifecycle m) ME_WITHDRAW of
               None \<Rightarrow> (make_rejection OC_INVALID_LIFECYCLE_TRANSITION
                         (msg (''member '' @ id_text mid @ '' cannot be withdrawn from lifecycle '' @
                               member_lifecycle_text (m_lifecycle m))), e)
             | Some next_lifecycle \<Rightarrow>
               (case apply_transition r SE_MEMBER_REMOVED of
                  Inl _ \<Rightarrow> (lifecycle_rejection (s_lifecycle r) sid, e)
                | Inr r1 \<Rightarrow>
                  (let m' = bump_member_watermark (m\<lparr>m_lifecycle := next_lifecycle,
                              m_currentness := MC_SET_NOT_USABLE, m_generation := next_generation\<rparr>);
                       r2 = recompute (r1\<lparr>s_members := om_put path m' (s_members r1)\<rparr>);
                       summary = msg (''withdrew member '' @ id_text mid @ '' (path '' @ id_text path @ ''): '' @ reason);
                       spec = (commit_spec_for SE_MEMBER_REMOVED CA_MEMBER_REMOVED summary)
                         \<lparr>cs_advance_membership_generation := True, cs_member_id := Some mid, cs_path_id := Some path\<rparr>
                   in commit r2 ctx ''withdraw_member'' flds spec
                        ((make_outcome OC_MEMBER_WITHDRAWN summary)\<lparr>o_member_id := Some mid, o_path_id := Some path\<rparr>) e))))))"


section \<open>Replacement and administrative state\<close>

text \<open>
  The record after a replacement: the predecessor is superseded by the successor, which enters the
  tables with the predecessor's identity as its lineage.
\<close>

definition superseded_member :: "member_id \<Rightarrow> member_record \<Rightarrow> member_record" where
  "superseded_member successor m =
     bump_member_watermark (m\<lparr>m_lifecycle := ML_SUPERSEDED, m_currentness := MC_SET_NOT_USABLE,
       m_successor := Some successor, m_generation := gen_advance (m_generation m)\<rparr>)"

definition replace_member_locked ::
  "mutation_context \<Rightarrow> set_id \<Rightarrow> member_id \<Rightarrow> path_id \<Rightarrow> path_authority_generation \<Rightarrow> string \<Rightarrow>
   path_authority_view option \<Rightarrow> engine \<Rightarrow> answer" where
  "replace_member_locked ctx sid mid successor_path successor_generation reason view e =
     (let flds = [''replace_member'', id_text sid, id_text mid, id_text successor_path,
                  gen_text successor_generation, reason]
      in case admit ctx sid ''replace_member'' flds e of
        Inl answer \<Rightarrow> (answer, e)
      | Inr r \<Rightarrow>
        if \<not> transition_allowed (s_lifecycle r) SE_MEMBER_REPLACED
        then (lifecycle_rejection (s_lifecycle r) sid, e)
        else (case member_at r mid of
          None \<Rightarrow> (member_not_found sid mid, e)
        | Some (predecessor_path, predecessor) \<Rightarrow>
          if predecessor_path = successor_path
          then (malformed (''successor path equals the predecessor path; use revalidate_member to '' @
                  ''rebind the Path Authority generation of an existing member''), e)
          else if \<not> expected_set_generation_matches ctx r then (stale_set_generation ctx r, e)
          else if \<not> expected_member_generation_matches ctx predecessor
          then (stale_member_generation ctx predecessor, e)
          else let currentness = classify_path_authority view successor_generation (s_conditional r);
                   existing = om_find (s_members r) successor_path;
                   freed = (if member_is_terminal predecessor then 0 else 1)
          in if currentness \<noteq> MC_CURRENT then (currentness_rejection currentness successor_path, e)
          else if (case existing of Some old \<Rightarrow> \<not> member_is_terminal old | None \<Rightarrow> False)
          then (make_rejection OC_DUPLICATE_MEMBER
                 (msg (''successor path '' @ id_text successor_path @ '' is already a live member '' @
                       (case existing of Some old \<Rightarrow> id_text (m_id old) | None \<Rightarrow> []))), e)
          else let consumed = (if (case existing of None \<Rightarrow> True | Some old \<Rightarrow> member_is_terminal old)
                               then 1 else 0)
          in if live_member_count r + consumed - freed > max_members_per_set (e_limits e)
          then (members_limit sid ''replacement in '' e, e)
          else if consumed > 0 \<and> e_total_members e \<ge> max_total_members (e_limits e)
          then (total_limit '' by replacement'' e, e)
          else if consumed > 0 \<and> dependency_full successor_path e
          then (make_rejection OC_RESOURCE_LIMIT
                 (msg (''max_path_dependencies_per_path limit reached for path '' @ id_text successor_path)), e)
          else if \<not> set_generation_available r \<or> \<not> membership_generation_available r \<or>
                  gen_next (m_generation predecessor) = None
          then (generations_exhausted sid, e)
          else (case apply_transition r SE_MEMBER_REPLACED of
            Inl _ \<Rightarrow> (lifecycle_rejection (s_lifecycle r) sid, e)
          | Inr r1 \<Rightarrow>
            (let (successor_id, ids) = next_member_id (e_ids e);
                 successor = evaluate_member (s_conditional r1) view False
                   (new_member successor_id successor_path successor_generation (Some mid)
                     (make_provenance ctx CA_MEMBER_REPLACED r1));
                 r2 = r1\<lparr>s_members := om_put predecessor_path (superseded_member successor_id predecessor)
                                       (s_members r1)\<rparr>;
                 r3 = install_member successor_path successor r2;
                 e = index_path sid successor_path (e\<lparr>e_ids := ids\<rparr>);
                 e = e\<lparr>e_total_members := e_total_members e + consumed\<rparr>;
                 r4 = recompute r3;
                 summary = msg (''replaced member '' @ id_text mid @ '' (path '' @ id_text predecessor_path @
                   '') with member '' @ id_text successor_id @ '' (path '' @ id_text successor_path @ ''@'' @
                   gen_text successor_generation @ ''): '' @ reason);
                 spec = (commit_spec_for SE_MEMBER_REPLACED CA_MEMBER_REPLACED summary)
                   \<lparr>cs_advance_membership_generation := True, cs_member_id := Some successor_id,
                    cs_path_id := Some successor_path\<rparr>
             in commit r4 ctx ''replace_member'' flds spec (make_outcome OC_MEMBER_REPLACED summary) e))))"

definition replace_member ::
  "(path_id \<Rightarrow> path_authority_view option) \<Rightarrow> mutation_context \<Rightarrow> set_id \<Rightarrow> member_id \<Rightarrow> path_id \<Rightarrow>
   path_authority_generation \<Rightarrow> string \<Rightarrow> engine \<Rightarrow> answer" where
  "replace_member external ctx sid mid successor_path successor_generation reason e =
     (if \<not> id_valid sid \<or> \<not> id_valid mid \<or> \<not> id_valid successor_path \<or> \<not> gen_valid successor_generation
      then (malformed (''replace_member requires a set, a member, a successor PathId and a '' @
              ''successor PathAuthorityGeneration''), e)
      else if length reason > 256 then (malformed ''replacement reason exceeds the 256 character bound'', e)
      else replace_member_locked ctx sid mid successor_path successor_generation reason
             (lookup_path external e successor_path) e)"

definition set_member_admin_enabled_locked ::
  "mutation_context \<Rightarrow> set_id \<Rightarrow> member_id \<Rightarrow> bool \<Rightarrow> path_authority_view option \<Rightarrow> engine \<Rightarrow> answer" where
  "set_member_admin_enabled_locked ctx sid mid enabled view e =
     (let flds = [''set_member_admin_enabled'', id_text sid, id_text mid, bool_field enabled]
      in case admit ctx sid ''set_member_admin_enabled'' flds e of
        Inl answer \<Rightarrow> (answer, e)
      | Inr r \<Rightarrow>
        (case member_at r mid of
           None \<Rightarrow> (member_not_found sid mid, e)
         | Some (path, m) \<Rightarrow>
           if member_is_terminal m
           then (make_rejection OC_INVALID_LIFECYCLE_TRANSITION
                  (msg (''member '' @ id_text mid @ '' is '' @ member_lifecycle_text (m_lifecycle m) @
                        '' and cannot be administratively toggled'')), e)
           else if \<not> expected_member_generation_matches ctx m then (stale_member_generation ctx m, e)
           else if m_admin_enabled m = enabled
           then answer_unchanged r ctx ''set_member_admin_enabled'' flds
                  (make_outcome OC_IDEMPOTENT
                    (msg (''member administrative enablement already '' @ bool_text enabled))) e
           else if gen_next (m_generation m) = None \<or> \<not> set_generation_available r
           then (generations_exhausted sid, e)
           else
             (let m1 = bump_member_watermark (m\<lparr>m_admin_enabled := enabled,
                         m_generation := gen_advance (m_generation m)\<rparr>);
                  m2 = evaluate_member (s_conditional r) view enabled m1;
                  r1 = recompute (r\<lparr>s_members := om_put path m2 (s_members r)\<rparr>);
                  summary = msg (''member administrative enablement -> '' @ bool_text enabled @
                    ''; member lifecycle='' @ member_lifecycle_text (m_lifecycle m2) @ '' currentness='' @
                    member_currentness_text (m_currentness m2));
                  spec = (commit_spec_for SE_MEMBERSHIP_RECHECK
                            (if enabled then CA_ADMIN_ENABLED else CA_ADMIN_DISABLED) summary)
                    \<lparr>cs_member_id := Some mid, cs_path_id := Some (m_path_id m2)\<rparr>
              in commit r1 ctx ''set_member_admin_enabled'' flds spec (make_outcome OC_UPDATED summary) e)))"

text \<open>The path of the member is read in a critical section of its own, then looked up.\<close>

definition view_of_member ::
  "(path_id \<Rightarrow> path_authority_view option) \<Rightarrow> set_id \<Rightarrow> member_id \<Rightarrow> engine \<Rightarrow> path_authority_view option" where
  "view_of_member external sid mid e =
     (case member_path sid mid e of None \<Rightarrow> None | Some path \<Rightarrow> lookup_path external e path)"

definition set_member_admin_enabled ::
  "(path_id \<Rightarrow> path_authority_view option) \<Rightarrow> mutation_context \<Rightarrow> set_id \<Rightarrow> member_id \<Rightarrow> bool \<Rightarrow> engine \<Rightarrow> answer" where
  "set_member_admin_enabled external ctx sid mid enabled e =
     (if \<not> id_valid sid \<or> \<not> id_valid mid
      then (malformed ''set_member_admin_enabled requires a set and a member identity'', e)
      else set_member_admin_enabled_locked ctx sid mid enabled (view_of_member external sid mid e) e)"

section \<open>A new relation keeps the invariant\<close>

lemma install_member_simps [simp]:
  "s_id (install_member p m r) = s_id r" "s_key (install_member p m r) = s_key r"
  "s_generation (install_member p m r) = s_generation r"
  "s_membership_generation (install_member p m r) = s_membership_generation r"
  "s_watermark (install_member p m r) = s_watermark r"
  "s_lifecycle (install_member p m r) = s_lifecycle r" "s_currentness (install_member p m r) = s_currentness r"
  "s_conditional (install_member p m r) = s_conditional r" "s_minimum (install_member p m r) = s_minimum r"
  "s_admin_enabled (install_member p m r) = s_admin_enabled r"
  "s_members (install_member p m r) = om_put p m (s_members r)"
  by (simp_all add: install_member_def Let_def)

lemma install_member_index:
  "om_find (s_member_index (install_member p m r)) i = Some q \<Longrightarrow>
   i = m_id m \<or> om_find (s_member_index r) i = Some q"
  by (auto simp: install_member_def Let_def split: option.splits if_splits)

lemma install_member_derived:
  "install_member p m (r\<lparr>s_usable := u, s_lifecycle := l\<rparr>) = (install_member p m r)\<lparr>s_usable := u, s_lifecycle := l\<rparr>"
  by (cases "om_find (s_members r) p") (simp_all add: install_member_def)

lemma tables_ok_install:
  assumes ok: "tables_ok r" and path: "m_path_id m = p" and new: "om_find (s_member_index r) (m_id m) = None"
  shows "tables_ok (install_member p m r)"
proof (cases "om_find (s_members r) p")
  case None
  then show ?thesis
    using ok path member_table.agrees_insert [of "s_members r" "s_member_index r" p m] new
    by (simp add: tables_ok_def install_member_def)
next
  case (Some w)
  then show ?thesis
    using ok path member_table.agrees_replace [of "s_members r" "s_member_index r" p w m] new
    by (simp add: tables_ok_def install_member_def)
qed

lemma evidence_ok_install:
  "evidence_ok r \<Longrightarrow> member_evidence (s_conditional r) m \<Longrightarrow> evidence_ok (install_member p m r)"
  by (simp add: evidence_ok_def)

lemma install_ok:
  assumes ok: "engine_ok (put_set r e)"
    and r': "r' = (install_member p m r)\<lparr>s_usable := u, s_lifecycle := l\<rparr>" and core: "set_core (e_limits e) r'"
    and ids: "factory_ok ids" "ids_below ids ''set'' (dom (om_find (e_sets (put_set r e))))"
      "ids_below ids ''mem'' (insert (m_id m) (member_ids (put_set r e)))"
    and t: "e_total_members e + (if om_has (s_members r) p then 0 else 1) \<le> t" "t \<le> max_total_members (e_limits e)"
  shows "engine_ok (put_set r' ((index_path (s_id r) p e)\<lparr>e_ids := ids, e_total_members := t\<rparr>))"
    (is "engine_ok ?e")
proof -
  note D = engine_okD [OF ok]
  have [simp]: "s_id r' = s_id r" "s_key r' = s_key r" and mem: "s_members r' = om_put p m (s_members r)"
    and idx: "s_member_index r' = s_member_index (install_member p m r)" by (simp_all add: r')
  have valid: "id_valid (s_id r)" using sets_okD [OF D(1), of "s_id r" r] by simp
  have "sets_ok (put_set r' e)"
    by (rule sets_ok_put [OF D(1)]) (use core valid in simp_all)
  then have "sets_ok ?e" by (rule sets_ok_cong [THEN iffD2, rotated -1]) (simp_all add: put_set_def)
  moreover have "keys_ok ?e"
    using set_table.agrees_modify [of "e_sets (put_set r e)" "e_key_index e" "s_id r" r r'] D(2)
    by (simp add: keys_ok_def)
  moreover have "dependents_ok ?e"
  proof -
    have has: "om_has (dependents_of q ?e) s \<longleftrightarrow> om_has (dependents_of q e) s \<or> q = p \<and> s = s_id r" for q s
      using index_path_has [of q "s_id r" p e s] by (simp add: dependents_of_def)
    have same: "dependents_of q (put_set r e) = dependents_of q e" for q by (simp add: dependents_of_def)
    have "om_has (dependents_of q e) s \<longleftrightarrow>
        (\<exists>r0. om_find (e_sets (put_set r e)) s = Some r0 \<and> om_has (s_members r0) q)" for q s
      using D(3) by (simp add: dependents_ok_def same del: put_set_find)
    moreover have "om_find (e_path_dependents ?e) q = Some s \<Longrightarrow> om_size s \<noteq> 0" for q s
      using D(3) index_path_nonempty [of e "s_id r" p] by (simp add: dependents_ok_def)
    ultimately show ?thesis unfolding dependents_ok_def has by (auto simp: mem)
  qed
  moreover have "ids_ok ?e"
  proof -
    have "member_ids ?e \<subseteq> insert (m_id m) (member_ids (put_set r e))"
    proof
      fix i assume "i \<in> member_ids ?e"
      then obtain s q x where q: "om_find (e_sets ?e) s = Some q" "om_find (s_member_index q) i = Some x"
        by (auto simp: member_ids_def om_has_def)
      show "i \<in> insert (m_id m) (member_ids (put_set r e))"
      proof (cases "s = s_id r")
        case True
        then have "om_find (s_member_index (install_member p m r)) i = Some x" using q by (auto simp flip: idx)
        then show ?thesis using install_member_index [of p m r i x] by (auto simp: member_ids_def om_has_def)
      next
        case False
        then have "om_find (e_sets (put_set r e)) s = Some q" using q by simp
        then show ?thesis using q(2) by (auto simp: member_ids_def om_has_def simp del: put_set_find)
      qed
    qed
    then have "ids_below ids ''mem'' (member_ids ?e)" using ids(3) by (rule ids_below_mono [rotated])
    then show ?thesis using ids(1,2) by (simp add: ids_ok_def)
  qed
  moreover have "counts_ok ?e"
  proof -
    have "relation_count (put_set r' (put_set r e)) + om_size (s_members r) =
          relation_count (put_set r e) + om_size (s_members r')"
      by (rule relation_count_put) simp
    moreover have "relation_count ?e = relation_count (put_set r' (put_set r e))"
      by (simp add: relation_count_def)
    moreover have "om_size (e_sets ?e) = om_size (e_sets (put_set r e))"
      by (simp add: put_set_def om_size_put)
    moreover have "om_size (s_members r') = om_size (s_members r) + (if om_has (s_members r) p then 0 else 1)"
      by (simp add: mem om_size_put om_has_def)
    ultimately show ?thesis using D(8) t by (simp add: counts_ok_def)
  qed
  moreover have "authority_ok ?e" "attempts_ok ?e" "snapshots_ok ?e"
    using D(4-6) by (simp_all add: authority_ok_def attempts_ok_def snapshots_ok_def)
  ultimately show ?thesis using D(9) by (intro engine_okI) simp_all
qed

section \<open>Drawing member identities\<close>

definition counter_room :: "nat \<Rightarrow> engine \<Rightarrow> bool" where
  "counter_room n e \<longleftrightarrow> unat (f_counter (e_ids e)) + n \<le> unat u64_max"

lemma counter_room_Suc:
  assumes "counter_room (Suc n) e"
  shows "f_counter (e_ids e) \<noteq> u64_max"
    and "e_ids e' = e_ids e\<lparr>f_counter := f_counter (e_ids e) + 1\<rparr> \<Longrightarrow> counter_room n e'"
proof -
  show ne: "f_counter (e_ids e) \<noteq> u64_max" using assms by (auto simp: counter_room_def)
  have "checked_increment (f_counter (e_ids e)) = Some (f_counter (e_ids e) + 1)"
    using ne by (simp add: checked_increment_def)
  then have "unat (f_counter (e_ids e) + 1) = Suc (unat (f_counter (e_ids e)))"
    using ne by (metis gen_next_eq gen_next_Some generation.sel)
  then show "counter_room n e'" if "e_ids e' = e_ids e\<lparr>f_counter := f_counter (e_ids e) + 1\<rparr>"
    using assms that by (simp add: counter_room_def)
qed

lemma next_member_id_fresh:
  assumes ok: "engine_ok e" and c: "f_counter (e_ids e) \<noteq> u64_max" and n: "next_member_id (e_ids e) = (mid, ids)"
  shows "mid \<notin> member_ids e" "factory_ok ids" "ids_below ids ''set'' (dom (om_find (e_sets e)))"
    "ids_below ids ''mem'' (insert mid (member_ids e))" "ids = e_ids e\<lparr>f_counter := f_counter (e_ids e) + 1\<rparr>"
proof -
  let ?f = "e_ids e"
  have f: "factory_ok ?f" and s: "ids_below ?f ''set'' (dom (om_find (e_sets e)))"
    and m: "ids_below ?f ''mem'' (member_ids e)" using engine_okD(7) [OF ok] by (auto simp: ids_ok_def)
  have mid: "mid = StrongId (factory_compose ?f ''mem'' (f_counter ?f + 1))"
    and ids: "ids = ?f\<lparr>f_counter := f_counter ?f + 1\<rparr>" using n next_member_id_eq [OF f] by auto
  show "mid \<notin> member_ids e" using ids_below_fresh [OF m c] mid by simp
  show "factory_ok ids" using f ids by simp
  show "ids_below ids ''set'' (dom (om_find (e_sets e)))"
    unfolding ids by (rule ids_below_step [OF s c]) blast
  show "ids_below ids ''mem'' (insert mid (member_ids e))"
    unfolding ids mid by (rule ids_below_step [OF m c]) simp
  show "ids = ?f\<lparr>f_counter := f_counter ?f + 1\<rparr>" by (rule ids)
qed

section \<open>Publication keeps the invariant\<close>

text \<open>
  While a batch is applied the derived fields are stale and the member counter lags behind; the loop
  invariant is that recomputing and a counter of \<open>t\<close> would restore \<open>engine_ok\<close>.
\<close>

definition publishing :: "nat \<Rightarrow> set_record \<Rightarrow> engine \<Rightarrow> bool" where
  "publishing t r e \<longleftrightarrow> engine_ok (put_set (recompute r) (e\<lparr>e_total_members := t\<rparr>))"

lemma recompute_form: "recompute r = r\<lparr>s_usable := s_usable (recompute r), s_lifecycle := s_lifecycle (recompute r)\<rparr>"
  by (simp add: recompute_def Let_def)

lemma set_core_recomputeD:
  assumes "set_core lim (recompute r)"
  shows "tables_ok r" "evidence_ok r" "terminal_ok r" "s_minimum r \<le> max_members_per_set lim"
    "gen_valid (s_generation r)" "key_valid (s_key r)"
  using set_coreD [OF assms] by (simp_all add: tables_ok_same [of "recompute r" r] evidence_ok_same [of "recompute r" r])

lemma member_idsI: "om_find (e_sets e) sid = Some r \<Longrightarrow> om_has (s_member_index r) i \<Longrightarrow> i \<in> member_ids e"
  by (auto simp: member_ids_def)

lemma publishing_install:
  assumes inv: "publishing t r e" and n: "next_member_id (e_ids e) = (m_id m, ids)"
    and c: "f_counter (e_ids e) \<noteq> u64_max" and path: "m_path_id m = p"
    and ev: "member_evidence (s_conditional r) m"
    and t': "t + (if om_has (s_members r) p then 0 else 1) \<le> t'" and max: "t' \<le> max_total_members (e_limits e)"
  shows "publishing t' (install_member p m r) (index_path (s_id r) p (e\<lparr>e_ids := ids\<rparr>))"
proof -
  let ?e = "e\<lparr>e_total_members := t\<rparr>" and ?r = "install_member p m r"
  have ok: "engine_ok (put_set (recompute r) ?e)" using inv by (simp add: publishing_def)
  note fresh = next_member_id_fresh [OF ok, simplified, OF c n]
  have core: "set_core (e_limits e) (recompute r)"
    using sets_okD [OF engine_okD(1) [OF ok], of "s_id r" "recompute r"] by simp
  note cd = set_core_recomputeD [OF core]
  have "om_find (s_member_index r) (m_id m) = None"
    using fresh(1) member_idsI [of "put_set (recompute r) ?e" "s_id r" "recompute r" "m_id m"]
    by (cases "om_find (s_member_index r) (m_id m)") (auto simp: om_has_def)
  then have core': "set_core (e_limits e) (recompute ?r)"
    using cd ev tables_ok_install [OF cd(1) path]
    by (intro set_core_recompute) (simp_all add: evidence_ok_install terminal_ok_def)
  have form: "recompute ?r = (install_member p m (recompute r))
      \<lparr>s_usable := s_usable (recompute ?r), s_lifecycle := s_lifecycle (recompute ?r)\<rparr>"
  proof -
    have "recompute ?r = ?r\<lparr>s_usable := s_usable (recompute ?r), s_lifecycle := s_lifecycle (recompute ?r)\<rparr>"
      by (rule recompute_form)
    moreover have "install_member p m (recompute r) =
        ?r\<lparr>s_usable := s_usable (recompute r), s_lifecycle := s_lifecycle (recompute r)\<rparr>"
      by (subst recompute_form) (simp only: install_member_derived)
    ultimately show ?thesis by simp
  qed
  have "engine_ok (put_set (recompute ?r)
      ((index_path (s_id (recompute r)) p ?e)\<lparr>e_ids := ids, e_total_members := t'\<rparr>))"
    by (rule install_ok [OF ok form]) (use core' fresh t' max in simp_all)
  moreover have "put_set (recompute ?r) ((index_path (s_id (recompute r)) p ?e)\<lparr>e_ids := ids, e_total_members := t'\<rparr>) =
      put_set (recompute ?r) ((index_path (s_id r) p (e\<lparr>e_ids := ids\<rparr>))\<lparr>e_total_members := t'\<rparr>)"
    by (simp add: put_set_def index_path_def dependents_of_def)
  ultimately show ?thesis by (simp add: publishing_def)
qed

lemma publishing_ids:
  assumes "publishing t r e" and "f_counter (e_ids e) \<noteq> u64_max" and "next_member_id (e_ids e) = (mid, ids)"
  shows "ids = e_ids e\<lparr>f_counter := f_counter (e_ids e) + 1\<rparr>"
proof -
  have "engine_ok (put_set (recompute r) (e\<lparr>e_total_members := t\<rparr>))" using assms(1) by (simp add: publishing_def)
  from next_member_id_fresh(5) [OF this] assms(2,3) show ?thesis by simp
qed

lemma publishing_step:
  assumes inv: "publishing t r e" and room: "counter_room (Suc n) e"
    and step: "publish_member ctx (q, view) (added, r, e) = (added', r', e')"
    and t': "t' = t + (if om_has (s_members r) (mr_path_id q) then 0 else 1)" and max: "t' \<le> max_total_members (e_limits e)"
  shows "publishing t' r' e'" and "counter_room n e'" and "e_limits e' = e_limits e"
    and "e_total_members e' = e_total_members e" and "om_has (s_members r') p \<longleftrightarrow> p = mr_path_id q \<or> om_has (s_members r) p"
    and "s_id r' = s_id r" and "e_sets e' = e_sets e"
proof -
  let ?p = "mr_path_id q"
  obtain mid ids where n: "next_member_id (e_ids e) = (mid, ids)" by fastforce
  obtain m where m: "r' = install_member ?p m r" "m_id m = mid" "m_path_id m = ?p"
      "member_evidence (s_conditional r) m" and e': "e' = index_path (s_id r) ?p (e\<lparr>e_ids := ids\<rparr>)"
  proof -
    let ?m = "evaluate_member (s_conditional r) view False
        (new_member mid ?p (mr_generation q) None (make_provenance ctx CA_MEMBER_ADDED r))"
    have ev: "member_evidence (s_conditional r) (?m\<lparr>m_predecessor := pr\<rparr>)" for pr
      using evaluate_member_evidence [of "s_conditional r" view False
          "new_member mid ?p (mr_generation q) None (make_provenance ctx CA_MEMBER_ADDED r)"]
      by (simp add: member_evidence_def m_usable_def)
    show thesis
    proof (cases "om_find (s_members r) ?p")
      case None
      show thesis
        by (rule that [of ?m]) (use step n None evaluate_member_evidence in \<open>auto simp: publish_member_def Let_def new_member_def\<close>)
    next
      case (Some w)
      show thesis
        by (rule that [of "?m\<lparr>m_predecessor := Some (m_id w)\<rparr>"])
          (use step n Some ev in \<open>auto simp: publish_member_def Let_def new_member_def\<close>)
    qed
  qed
  note c = counter_room_Suc(1) [OF room]
  show "publishing t' r' e'"
    unfolding m(1) e' by (rule publishing_install [OF inv]) (use n c m t' max in simp_all)
  show "counter_room n e'" by (rule counter_room_Suc(2) [OF room]) (simp add: e' publishing_ids [OF inv c n])
  show "e_limits e' = e_limits e" "e_total_members e' = e_total_members e" "s_id r' = s_id r" "e_sets e' = e_sets e"
    "om_has (s_members r') p \<longleftrightarrow> p = ?p \<or> om_has (s_members r) p" by (simp_all add: e' m(1))
qed

lemma scan_duplicates_Cons:
  "scan_duplicates sid members seen (q # requests) = Inr flags \<longleftrightarrow>
     mr_path_id q \<notin> set seen \<and>
     (\<exists>rest. flags = om_has members (mr_path_id q) # rest \<and>
        scan_duplicates sid members (seen @ [mr_path_id q]) requests = Inr rest) \<and>
     (\<forall>w. om_find members (mr_path_id q) = Some w \<longrightarrow> member_is_terminal w)"
  by (cases "scan_duplicates sid members (seen @ [mr_path_id q]) requests")
    (auto simp: Let_def om_has_def split: option.splits)

lemma publish_fold:
  assumes "publishing t r e" and "counter_room (length requests + n) e"
    and "scan_duplicates sid members seen requests = Inr flags"
    and "\<And>p. p \<notin> set seen \<Longrightarrow> om_has (s_members r) p = om_has members p"
    and "length views = length requests" and "t + length (filter Not flags) \<le> max_total_members (e_limits e)"
    and "fold (publish_member ctx) (zip requests views) (added, r, e) = (added', r', e')"
  shows "publishing (t + length (filter Not flags)) r' e' \<and> counter_room n e' \<and>
    e_total_members e' = e_total_members e \<and> s_id r' = s_id r \<and> e_sets e' = e_sets e"
  using assms
proof (induction requests arbitrary: seen flags views t added r e)
  case (Cons q requests)
  obtain v vs where views: "views = v # vs" using Cons.prems(5) by (cases views) auto
  obtain rest where scan: "mr_path_id q \<notin> set seen" "flags = om_has members (mr_path_id q) # rest"
      "scan_duplicates sid members (seen @ [mr_path_id q]) requests = Inr rest"
    using Cons.prems(3) unfolding scan_duplicates_Cons by blast
  obtain added1 r1 e1 where step: "publish_member ctx (q, v) (added, r, e) = (added1, r1, e1)"
    by (metis prod_cases3)
  define t1 where "t1 = t + (if om_has (s_members r) (mr_path_id q) then 0 else 1)"
  have count: "t + length (filter Not flags) = t1 + length (filter Not rest)"
    using Cons.prems(4) [OF scan(1)] by (simp add: t1_def scan(2))
  have room: "counter_room (Suc (length requests + n)) e" using Cons.prems(2) by simp
  have max: "t1 \<le> max_total_members (e_limits e)" using Cons.prems(6) count by simp
  note s = publishing_step [OF Cons.prems(1) room step t1_def max]
  have "publishing (t1 + length (filter Not rest)) r' e' \<and> counter_room n e' \<and>
      e_total_members e' = e_total_members e1 \<and> s_id r' = s_id r1 \<and> e_sets e' = e_sets e1"
  proof (rule Cons.IH [OF s(1,2) scan(3)])
    show "om_has (s_members r1) p = om_has members p" if "p \<notin> set (seen @ [mr_path_id q])" for p
      using that s(5) Cons.prems(4) [of p] by simp
    show "fold (publish_member ctx) (zip requests vs) (added1, r1, e1) = (added', r', e')"
      using Cons.prems(7) step views by simp
  qed (use Cons.prems(5,6) views count s(3) in simp_all)
  then show ?case using s count by simp
qed simp

lemma engine_total_same: "e\<lparr>e_total_members := e_total_members e\<rparr> = e"
  by simp

lemma publish_members_ok:
  assumes ok: "engine_ok (put_set r e)" and room: "counter_room (length requests + n) e"
    and scan: "scan_duplicates sid (s_members r) [] requests = Inr flags" and len: "length views = length requests"
    and max: "e_total_members e + length (filter Not flags) \<le> max_total_members (e_limits e)"
  shows "engine_ok (snd (publish_members ctx sid requests operation bulk views l (length (filter Not flags)) r e))"
proof -
  obtain added r' e' where f: "fold (publish_member ctx) (zip requests views) ([], r, e) = (added, r', e')"
    by (metis prod_cases3)
  have "set_core (e_limits e) r" using sets_okD [OF engine_okD(1) [OF ok], of "s_id r" r] by simp
  then have "engine_ok (put_set (recompute r) (put_set r e))"
    by (intro put_set_frame_ok [OF ok, where ?r0.0 = r]) (simp_all add: recompute_core)
  then have "publishing (e_total_members e) r e" by (simp add: publishing_def)
  from publish_fold [OF this room scan _ len max f]
  have "publishing (e_total_members e + length (filter Not flags)) r' e'" and "e_total_members e' = e_total_members e"
    by simp_all
  then show ?thesis by (simp add: publish_members_def Let_def f publishing_def commit_ok)
qed

lemma add_members_locked_ok:
  assumes ok: "engine_ok e" and room: "counter_room (length requests + n) e" and len: "length views = length requests"
  shows "engine_ok (snd (fst (add_members_locked ctx sid requests operation bulk views e)))"
proof (cases "admit ctx sid operation (bulk_fields operation sid requests) e")
  case (Inl o1)
  then show ?thesis using ok by (simp add: add_members_locked_def)
next
  case (Inr r)
  note find = admit_InrD [OF Inr, THEN conjunct1]
  have "engine_ok (snd (publish_members ctx sid requests operation bulk views l (length (filter Not flags)) r1 e))"
    if scan: "scan_duplicates sid (s_members r) [] requests = Inr flags"
      and step: "apply_transition r SE_MEMBER_ADDED = Inr r1"
      and max: "\<not> max_total_members (e_limits e) < e_total_members e + length (filter Not flags)" for flags r1 l
  proof (rule publish_members_ok [OF _ room])
    show "engine_ok (put_set r1 e)"
      using stored_update_ok [OF ok find apply_transition_frame [OF step]] stored_transition_core [OF ok find step] by simp
  qed (use scan max len apply_transition_keeps(1) [OF step] in simp_all)
  then show ?thesis
    using Inr ok by (simp add: add_members_locked_def Let_def split: option.split sum.split)
qed

lemma reconcile_all_ok: "engine_ok e \<Longrightarrow> engine_ok (reconcile_all after used e)"
proof -
  have "engine_ok (fold (\<lambda>(path, view) e. reconcile_path path view (lookup_path after e path) e) xs e)"
    if "engine_ok e" for xs e
    using that by (induction xs arbitrary: e) (auto simp: reconcile_path_ok)
  then show "engine_ok e \<Longrightarrow> engine_ok (reconcile_all after used e)" by (simp add: reconcile_all_def)
qed

lemma add_members_internal_ok:
  assumes "engine_ok e" and "counter_room (length requests) e"
  shows "engine_ok (snd (add_members_internal before after ctx sid requests operation bulk e))"
  using assms add_members_locked_ok [of e requests 0 "map (\<lambda>q. lookup_path before e (mr_path_id q)) requests"
      ctx sid operation bulk]
  by (auto simp: add_members_internal_def Let_def reconcile_all_ok split: option.split prod.split)

lemma add_member_ok:
  "engine_ok e \<Longrightarrow> counter_room 1 e \<Longrightarrow> engine_ok (snd (add_member before after ctx sid path generation e))"
  by (simp add: add_member_def add_members_internal_ok)

lemma add_members_ok:
  "engine_ok e \<Longrightarrow> counter_room (length requests) e \<Longrightarrow> engine_ok (snd (add_members before after ctx sid requests e))"
  by (simp add: add_members_def add_members_internal_ok)

section \<open>Removal, withdrawal and administrative state keep the invariant\<close>

lemma member_at_SomeD:
  assumes "tables_ok r" and "member_at r mid = Some (path, m)"
  shows "om_find (s_member_index r) mid = Some path" "om_find (s_members r) path = Some m" "m_path_id m = path" "m_id m = mid"
proof -
  show i: "om_find (s_member_index r) mid = Some path" and f: "om_find (s_members r) path = Some m"
    using assms(2) by (auto simp: member_at_def split: option.splits)
  show "m_path_id m = path" "m_id m = mid" using tables_okD(1,3) [OF assms(1)] i f by fastforce+
qed

lemma drop_recompute_core:
  assumes "set_core lim r" and m: "om_find (s_members r) p = Some m"
  shows "set_core lim (recompute (drop_member p m r))"
  using set_coreD [OF assms(1)] tables_ok_drop [OF _ m]
  by (intro set_core_recompute) (auto simp: evidence_ok_def terminal_ok_def drop_member_def)

lemma remove_stored_ok:
  assumes ok: "engine_ok (put_set r e)" and m: "om_find (s_members r) p = Some m" and "m_id m = mid" and "s_id r = sid"
  shows "engine_ok (put_set (recompute (r\<lparr>s_member_index := om_del mid (s_member_index r), s_members := om_del p (s_members r)\<rparr>))
    ((unindex_path sid p e)\<lparr>e_total_members := e_total_members (unindex_path sid p e) - 1\<rparr>))"
proof -
  have core: "set_core (e_limits e) r" using sets_okD [OF engine_okD(1) [OF ok], of "s_id r" r] by simp
  have form: "recompute (drop_member p m r) = (drop_member p m r)
      \<lparr>s_usable := s_usable (recompute (drop_member p m r)), s_lifecycle := s_lifecycle (recompute (drop_member p m r))\<rparr>"
    by (rule recompute_form)
  from drop_relation_ok [OF ok m form drop_recompute_core [OF core m]]
  show ?thesis using assms(3,4) by (simp add: drop_relation_def drop_member_def)
qed

lemma transition_stored_ok:
  assumes "engine_ok e" and "om_find (e_sets e) sid = Some r" and "apply_transition r ev = Inr r1" and "ev \<noteq> SE_ADMIN_DISABLED"
  shows "engine_ok (put_set r1 e)" and "set_core (e_limits e) r1" and "s_id r1 = sid"
  using stored_update_ok [OF assms(1,2) apply_transition_frame [OF assms(3)]] stored_transition_core [OF assms]
    apply_transition_keeps(3) [OF assms(3)] stored_set(1) [OF assms(1,2)] by simp_all

lemma remove_member_ok:
  assumes "engine_ok e"
  shows "engine_ok (snd (remove_member ctx sid mid reason e))"
proof (cases "admit ctx sid ''remove_member'' [''remove_member'', id_text sid, id_text mid, reason] e")
  case (Inl o1)
  then show ?thesis using assms by (simp add: remove_member_def Let_def)
next
  case (Inr r)
  note find = admit_InrD [OF Inr, THEN conjunct1]
  have "engine_ok (put_set (recompute (r1\<lparr>s_member_index := om_del mid (s_member_index r1), s_members := om_del p (s_members r1)\<rparr>))
    ((unindex_path sid p e)\<lparr>e_total_members := e_total_members (unindex_path sid p e) - 1\<rparr>))"
    if "om_find (s_member_index r) mid = Some p" "om_find (s_members r) p = Some m"
      "apply_transition r SE_MEMBER_REMOVED = Inr r1" for p m r1
  proof -
    have "m_id m = mid"
      using tables_okD(3) [OF set_coreD(1) [OF stored_set(3) [OF assms find]] that(1)] that(2) by auto
    then show ?thesis
      using transition_stored_ok [OF assms find that(3)] that(2) apply_transition_keeps(1) [OF that(3)]
      by (intro remove_stored_ok [of r1 e p m]) simp_all
  qed
  then show ?thesis
    using assms Inr by (simp add: remove_member_def Let_def commit_ok split: option.split sum.split)
qed

text \<open>A stored record in which one member was changed in its frame and the derived state recomputed.\<close>

lemma update_member_ok:
  assumes ok: "engine_ok e" and find: "om_find (e_sets e) sid = Some r" and m: "om_find (s_members r) p = Some m"
    and fr: "member_frame m m'" and ev: "member_evidence (s_conditional r) m'"
  shows "engine_ok (put_set (recompute (r\<lparr>s_members := om_put p m' (s_members r)\<rparr>)) e)"
  using set_core_put_recompute [OF stored_set(3) [OF ok find] m fr ev]
  by (intro stored_update_ok [OF ok find] set_frame_trans [OF set_frame_put_member [OF m fr] recompute_frame])

lemma withdraw_member_ok:
  assumes "engine_ok e"
  shows "engine_ok (snd (withdraw_member ctx sid mid reason e))"
proof (cases "admit ctx sid ''withdraw_member'' [''withdraw_member'', id_text sid, id_text mid, reason] e")
  case (Inl o1)
  then show ?thesis using assms by (simp add: withdraw_member_def Let_def)
next
  case (Inr r)
  note find = admit_InrD [OF Inr, THEN conjunct1]
  have "engine_ok (put_set (recompute (r1\<lparr>s_members := om_put p (bump_member_watermark (m\<lparr>m_lifecycle := l,
      m_currentness := MC_SET_NOT_USABLE, m_generation := g\<rparr>)) (s_members r1)\<rparr>)) e)"
    if at: "member_at r mid = Some (p, m)" and g: "gen_next (m_generation m) = Some g"
      and step: "apply_transition r SE_MEMBER_REMOVED = Inr r1" for p m g r1 l
  proof -
    note t = transition_stored_ok [OF assms find step]
    have m: "om_find (s_members r1) p = Some m"
      using member_at_SomeD(2) [OF set_coreD(1) [OF stored_set(3) [OF assms find]] at]
      by (simp add: apply_transition_keeps(1) [OF step])
    have "engine_ok (put_set (recompute (r1\<lparr>s_members := om_put p (bump_member_watermark (m\<lparr>m_lifecycle := l,
      m_currentness := MC_SET_NOT_USABLE, m_generation := g\<rparr>)) (s_members r1)\<rparr>)) (put_set r1 e))"
      using t m gen_next_gt [OF g]
      by (intro update_member_ok [where sid = sid and m = m])
        (auto simp: member_frame_bump member_frame_generation member_evidence_def m_usable_def member_is_usable_def)
    then show ?thesis by simp
  qed
  moreover have "put_set r e = e" using stored_set(1) [OF assms find] find by (simp add: put_set_stored)
  ultimately show ?thesis
    using assms Inr
    by (simp add: withdraw_member_def Let_def commit_ok answer_unchanged_ok split: option.split sum.split prod.split)
qed

lemma set_member_admin_enabled_locked_ok:
  assumes "engine_ok e"
  shows "engine_ok (snd (set_member_admin_enabled_locked ctx sid mid enabled view e))"
proof (cases "admit ctx sid ''set_member_admin_enabled'' [''set_member_admin_enabled'', id_text sid, id_text mid, bool_field enabled] e")
  case (Inl o1)
  then show ?thesis using assms by (simp add: set_member_admin_enabled_locked_def Let_def)
next
  case (Inr r)
  note find = admit_InrD [OF Inr, THEN conjunct1]
  have "engine_ok (put_set (recompute (r\<lparr>s_members := om_put p (evaluate_member (s_conditional r) view en
      (bump_member_watermark (m\<lparr>m_admin_enabled := en, m_generation := gen_advance (m_generation m)\<rparr>)))
      (s_members r)\<rparr>)) e)"
    if at: "member_at r mid = Some (p, m)" for p m en
  proof (rule update_member_ok [OF assms find])
    show "om_find (s_members r) p = Some m"
      using member_at_SomeD(2) [OF set_coreD(1) [OF stored_set(3) [OF assms find]] at] .
    show "member_frame m (evaluate_member (s_conditional r) view en
        (bump_member_watermark (m\<lparr>m_admin_enabled := en, m_generation := gen_advance (m_generation m)\<rparr>)))"
      by (rule member_frame_trans [OF _ evaluate_member_frame]) (simp add: member_frame_bump member_frame_generation)
  qed (rule evaluate_member_evidence)
  moreover have "put_set r e = e" using stored_set(1) [OF assms find] find by (simp add: put_set_stored)
  ultimately show ?thesis
    using assms Inr
    by (simp add: set_member_admin_enabled_locked_def Let_def commit_ok answer_unchanged_ok
        split: option.split sum.split prod.split)
qed

lemma set_member_admin_enabled_ok:
  "engine_ok e \<Longrightarrow> engine_ok (snd (set_member_admin_enabled external ctx sid mid enabled e))"
  by (simp add: set_member_admin_enabled_def set_member_admin_enabled_locked_ok)

section \<open>Replacement keeps the invariant\<close>

lemma superseded_member_facts [simp]:
  "member_frame m (superseded_member i m)" "member_evidence cond (superseded_member i m)"
  by (simp_all add: superseded_member_def member_frame_bump member_frame_generation member_evidence_def
      m_usable_def member_is_usable_def)

lemma replaced_ok:
  assumes ok: "engine_ok (put_set r e)" and pred: "om_find (s_members r) q = Some m" and c: "f_counter (e_ids e) \<noteq> u64_max"
    and n: "next_member_id (e_ids e) = (mid, ids)" and max: "e_total_members e < max_total_members (e_limits e)"
  shows "engine_ok (put_set (recompute (install_member p (evaluate_member (s_conditional r) view ex
      (new_member mid p g pr pv)) (r\<lparr>s_members := om_put q (superseded_member mid m) (s_members r)\<rparr>)))
    ((index_path (s_id r) p (e\<lparr>e_ids := ids\<rparr>))\<lparr>e_total_members := e_total_members e + 1\<rparr>))"
proof -
  let ?r2 = "r\<lparr>s_members := om_put q (superseded_member mid m) (s_members r)\<rparr>"
  have "engine_ok (put_set (recompute ?r2) (put_set r e))"
    by (rule update_member_ok [where sid = "s_id r", OF ok _ pred]) simp_all
  then have inv: "publishing (e_total_members e) ?r2 e" by (simp add: publishing_def)
  have "publishing (e_total_members e + 1) (install_member p (evaluate_member (s_conditional r) view ex
      (new_member mid p g pr pv)) ?r2) (index_path (s_id ?r2) p (e\<lparr>e_ids := ids\<rparr>))"
    by (rule publishing_install [OF inv])
      (use n c max evaluate_member_evidence in \<open>simp_all add: new_member_def\<close>)
  then show ?thesis by (simp add: publishing_def)
qed

lemma replace_member_locked_ok:
  assumes ok: "engine_ok e" and c: "f_counter (e_ids e) \<noteq> u64_max"
  shows "engine_ok (snd (replace_member_locked ctx sid mid p g reason view e))"
proof (cases "admit ctx sid ''replace_member'' [''replace_member'', id_text sid, id_text mid, id_text p, gen_text g, reason] e")
  case (Inl o1)
  then show ?thesis using ok by (simp add: replace_member_locked_def Let_def)
next
  case (Inr r)
  note find = admit_InrD [OF Inr, THEN conjunct1]
  obtain nid ids where n: "next_member_id (e_ids e) = (nid, ids)" by fastforce
  have "engine_ok (put_set (recompute (install_member p (evaluate_member (s_conditional r1) view False
      (new_member nid p g pr pv)) (r1\<lparr>s_members := om_put q (superseded_member nid m) (s_members r1)\<rparr>)))
    ((index_path sid p (e\<lparr>e_ids := ids\<rparr>))\<lparr>e_total_members := Suc (e_total_members e)\<rparr>))"
    if at: "member_at r mid = Some (q, m)" and step: "apply_transition r SE_MEMBER_REPLACED = Inr r1"
      and max: "\<not> max_total_members (e_limits e) \<le> e_total_members e" for q m r1 pr pv
  proof -
    note t = transition_stored_ok [OF ok find step, simplified]
    have "om_find (s_members r1) q = Some m"
      using member_at_SomeD(2) [OF set_coreD(1) [OF stored_set(3) [OF ok find]] at]
      by (simp add: apply_transition_keeps(1) [OF step])
    from replaced_ok [OF t(1) this c n, of p view False g pr pv] max t(3) show ?thesis by simp
  qed
  then show ?thesis
    using ok Inr n
    by (simp add: replace_member_locked_def Let_def commit_ok split: option.split sum.split prod.split)
qed

lemma replace_member_ok:
  "engine_ok e \<Longrightarrow> f_counter (e_ids e) \<noteq> u64_max \<Longrightarrow>
   engine_ok (snd (replace_member external ctx sid mid p g reason e))"
  by (simp add: replace_member_def replace_member_locked_ok)

end
