(* ===== verification/Revalidation_Ops.thy ===== *)
theory Revalidation_Ops
  imports Membership_Ops
begin

text \<open>
  \<open>src/fabric_revalidation.cpp\<close>: revalidation of a whole set and of one member, the two-phase member
  revalidation with tickets, and the application of Path Authority changes. As in \<open>Membership_Ops\<close>, an
  operation that looks Path Authority up before it takes the lock is a locked part over the views
  found, composed with the phases around it.
\<close>

section \<open>Revalidating one member\<close>

text \<open>An explicit revalidation binds the member to the generation Path Authority reports.\<close>

definition rebind :: "path_authority_view option \<Rightarrow> member_record \<Rightarrow> member_record" where
  "rebind view m = (case view of Some v \<Rightarrow> m\<lparr>m_bound := v_generation v\<rparr> | None \<Rightarrow> m)"

definition revalidation_changed :: "member_record \<Rightarrow> member_record \<Rightarrow> bool" where
  "revalidation_changed before after \<longleftrightarrow>
     m_lifecycle before \<noteq> m_lifecycle after \<or> m_currentness before \<noteq> m_currentness after \<or>
     \<not> (m_bound before = m_bound after)"

definition revalidated_member :: "bool \<Rightarrow> path_authority_view option \<Rightarrow> member_record \<Rightarrow> member_record" where
  "revalidated_member conditional view m =
     (let m' = evaluate_member conditional view True (rebind view m)
      in if revalidation_changed m m'
         then bump_member_watermark (m'\<lparr>m_generation := gen_advance (m_generation m')\<rparr>)
         else m')"

section \<open>Whole-set revalidation\<close>

type_synonym view_table = "(path_id, path_authority_view option) omap"

definition collect_views :: "(path_id \<Rightarrow> path_authority_view option) \<Rightarrow> path_id list \<Rightarrow> view_table" where
  "collect_views lookup paths = fold (\<lambda>path. om_put path (lookup path)) paths om_empty"

definition revalidate_listed :: "bool \<Rightarrow> view_table \<Rightarrow> member_record \<Rightarrow> member_record" where
  "revalidate_listed conditional views m =
     (if member_is_terminal m then m
      else case om_find views (m_path_id m) of
        None \<Rightarrow> m
      | Some view \<Rightarrow> evaluate_member conditional view True (rebind view m))"

text \<open>
  A member that appeared after the lookup pass leaves the revalidation complete when it is current.
\<close>

definition revalidation_complete :: "view_table \<Rightarrow> set_record \<Rightarrow> bool" where
  "revalidation_complete views r \<longleftrightarrow>
     (\<forall>m \<in> set (om_values (s_members r)). member_is_terminal m \<or> om_has views (m_path_id m) \<or>
        m_currentness m = MC_CURRENT)"

definition revalidated_set :: "set_currentness \<Rightarrow> view_table \<Rightarrow> engine \<Rightarrow> set_record \<Rightarrow> set_record" where
  "revalidated_set target views e r =
     (recompute (map_members (revalidate_listed (s_conditional r) views) r))
       \<lparr>s_currentness := target, s_governing_epoch := e_epoch e,
        s_authority_generation := e_authority_generation e\<rparr>"

definition revalidate_set_locked :: "mutation_context \<Rightarrow> set_id \<Rightarrow> view_table \<Rightarrow> engine \<Rightarrow> answer \<times> bool" where
  "revalidate_set_locked ctx sid views e =
     (let flds = [''revalidate_set'', id_text sid]
      in case admit ctx sid ''revalidate_set'' flds e of
        Inl answer \<Rightarrow> ((answer, e), False)
      | Inr r \<Rightarrow>
        if \<not> transition_allowed (s_lifecycle r) SE_REVALIDATE_SET
        then ((lifecycle_rejection (s_lifecycle r) sid, e), False)
        else if \<not> expected_set_generation_matches ctx r then ((stale_set_generation ctx r, e), False)
        else
          (let complete = revalidation_complete views r;
               target = (if complete then SC_CURRENT else SC_REVALIDATION_REQUIRED);
               r1 = revalidated_set target views e r;
               changed = (s_lifecycle r \<noteq> s_lifecycle r1 \<or> s_currentness r \<noteq> target)
           in if \<not> changed
              then (answer_unchanged r1 ctx ''revalidate_set'' flds
                     (make_outcome OC_IDEMPOTENT
                       (msg (''revalidation changed nothing; set remains '' @ set_lifecycle_text (s_lifecycle r1) @
                             '' with '' @ nat_string (s_usable r1) @ '' usable member(s)''))) e, False)
              else if \<not> set_generation_available r1 then ((set_generation_exhausted sid, put_set r1 e), False)
              else
                (let summary = msg (''revalidated set: '' @ nat_string (s_usable r1) @ '' usable of '' @
                       nat_string (s_minimum r1) @ '' required; lifecycle '' @ set_lifecycle_text (s_lifecycle r) @
                       '' -> '' @ set_lifecycle_text (s_lifecycle r1) @ ''; currentness '' @
                       set_currentness_text (s_currentness r) @ '' -> '' @ set_currentness_text (s_currentness r1))
                 in (commit r1 ctx ''revalidate_set'' flds
                       (commit_spec_for SE_REVALIDATE_SET CA_SET_REVALIDATED summary)
                       (make_outcome (if complete then OC_SET_REVALIDATED else OC_SET_REVALIDATION_INCOMPLETE) summary) e,
                     True))))"

definition revalidate_set ::
  "(path_id \<Rightarrow> path_authority_view option) \<Rightarrow> (path_id \<Rightarrow> path_authority_view option) \<Rightarrow>
   mutation_context \<Rightarrow> set_id \<Rightarrow> engine \<Rightarrow> answer" where
  "revalidate_set before after ctx sid e =
     (if \<not> id_valid sid then (malformed ''revalidate_set requires a set identity'', e)
      else
        (let paths = live_member_paths sid e;
             views = collect_views (lookup_path before e) paths
         in case revalidate_set_locked ctx sid views e of
              ((result, e'), reached_end) \<Rightarrow>
                (result,
                 if reached_end
                 then reconcile_all after (map (\<lambda>path. (path, lookup_path before e path)) paths) e' else e')))"

section \<open>Member revalidation\<close>

text \<open>The identity fields that both forms of member revalidation fill into their outcome.\<close>

definition about_member :: "member_id \<Rightarrow> member_record \<Rightarrow> fabric_outcome \<Rightarrow> fabric_outcome" where
  "about_member mid m outcome =
     outcome\<lparr>o_member_id := Some mid, o_member_generation := Some (m_generation m), o_path_id := Some (m_path_id m)\<rparr>"

definition revalidate_member_locked ::
  "mutation_context \<Rightarrow> set_id \<Rightarrow> member_id \<Rightarrow> path_authority_view option \<Rightarrow> engine \<Rightarrow> answer \<times> bool" where
  "revalidate_member_locked ctx sid mid view e =
     (let flds = [''revalidate_member'', id_text sid, id_text mid]
      in case admit ctx sid ''revalidate_member'' flds e of
        Inl answer \<Rightarrow> ((answer, e), False)
      | Inr r \<Rightarrow>
        (case member_at r mid of
           None \<Rightarrow> ((member_not_found sid mid, e), False)
         | Some (path, m) \<Rightarrow>
           if \<not> transition_allowed (s_lifecycle r) SE_MEMBERSHIP_RECHECK
           then ((lifecycle_rejection (s_lifecycle r) sid, e), False)
           else if member_is_terminal m
           then ((make_rejection OC_INVALID_LIFECYCLE_TRANSITION
                   (msg (''member '' @ id_text mid @ '' is '' @ member_lifecycle_text (m_lifecycle m) @
                         '' and cannot be revalidated'')), e), False)
           else if \<not> expected_set_generation_matches ctx r then ((stale_set_generation ctx r, e), False)
           else if \<not> expected_member_generation_matches ctx m then ((stale_member_generation ctx m, e), False)
           else if gen_next (m_generation m) = None \<or> \<not> set_generation_available r
           then ((generations_exhausted sid, e), False)
           else
             (let m1 = revalidated_member (s_conditional r) view m;
                  r1 = recompute (r\<lparr>s_members := om_put path m1 (s_members r)\<rparr>)
              in if \<not> revalidation_changed m m1
                 then (answer_unchanged r1 ctx ''revalidate_member'' flds
                        (about_member mid m1
                          (make_outcome (if member_inputs_usable m1 then OC_IDEMPOTENT else OC_MEMBER_REVALIDATION_NEGATIVE)
                            (msg (''member '' @ id_text mid @ '' revalidation changed nothing; member remains '' @
                                  member_lifecycle_text (m_lifecycle m1) @ '' currentness '' @
                                  member_currentness_text (m_currentness m1))))) e, False)
                 else
                   (let summary = msg (''revalidated member '' @ id_text mid @ '' (path '' @ id_text (m_path_id m1) @
                          '') binding '' @ gen_text (m_bound m) @ '' -> '' @ gen_text (m_bound m1) @ ''; lifecycle '' @
                          member_lifecycle_text (m_lifecycle m) @ '' -> '' @ member_lifecycle_text (m_lifecycle m1) @
                          ''; currentness '' @ member_currentness_text (m_currentness m) @ '' -> '' @
                          member_currentness_text (m_currentness m1));
                        spec = (commit_spec_for SE_MEMBERSHIP_RECHECK CA_MEMBER_REVALIDATED summary)
                          \<lparr>cs_member_id := Some mid, cs_path_id := Some (m_path_id m1)\<rparr>
                    in (commit r1 ctx ''revalidate_member'' flds spec
                          (about_member mid m1
                            (make_outcome (if member_inputs_usable m1 then OC_MEMBER_REVALIDATED
                                           else OC_MEMBER_REVALIDATION_NEGATIVE) summary)) e, True)))))"

definition revalidate_member ::
  "(path_id \<Rightarrow> path_authority_view option) \<Rightarrow> (path_id \<Rightarrow> path_authority_view option) \<Rightarrow>
   mutation_context \<Rightarrow> set_id \<Rightarrow> member_id \<Rightarrow> engine \<Rightarrow> answer" where
  "revalidate_member before after ctx sid mid e =
     (if \<not> id_valid sid \<or> \<not> id_valid mid
      then (malformed ''revalidate_member requires a set identity and a member identity'', e)
      else case member_path sid mid e of
        None \<Rightarrow>
          (let authority = authority_check ctx None (Some sid) e
           in if \<not> succeeded authority then (authority, e) else (member_not_found sid mid, e))
      | Some path \<Rightarrow>
          (let view = lookup_path before e path
           in case revalidate_member_locked ctx sid mid view e of
                ((result, e'), reached_end) \<Rightarrow>
                  (result, if reached_end then reconcile_path path view (lookup_path after e' path) e' else e')))"

section \<open>Two-phase member revalidation\<close>

record revalidation_ticket =
  tk_set_id :: set_id
  tk_member_id :: member_id
  tk_attempt :: revalidation_attempt_id
  tk_member_generation :: member_generation
  tk_set_watermark :: watermark
  tk_member_watermark :: watermark
  tk_epoch :: coordinator_epoch
  tk_bound :: path_authority_generation
  tk_valid :: bool

record revalidation_begin =
  rb_outcome :: fabric_outcome
  rb_ticket :: "revalidation_ticket option"

definition begin_rejected :: "fabric_outcome \<Rightarrow> engine \<Rightarrow> revalidation_begin \<times> engine" where
  "begin_rejected rejection e = (\<lparr>rb_outcome = rejection, rb_ticket = None\<rparr>, e)"

definition issue_ticket ::
  "set_id \<Rightarrow> set_record \<Rightarrow> member_record \<Rightarrow> member_id \<Rightarrow> revalidation_attempt_id \<Rightarrow> engine \<Rightarrow> revalidation_ticket" where
  "issue_ticket sid r m mid attempt e =
     \<lparr>tk_set_id = sid, tk_member_id = mid, tk_attempt = attempt, tk_member_generation = m_generation m,
      tk_set_watermark = s_watermark r, tk_member_watermark = m_watermark m, tk_epoch = e_epoch e,
      tk_bound = m_bound m, tk_valid = True\<rparr>"

definition begin_member_revalidation ::
  "mutation_context \<Rightarrow> set_id \<Rightarrow> member_id \<Rightarrow> revalidation_attempt_id \<Rightarrow> engine \<Rightarrow> revalidation_begin \<times> engine" where
  "begin_member_revalidation ctx sid mid attempt e =
     (if \<not> id_valid sid \<or> \<not> id_valid mid \<or> \<not> id_valid attempt
      then begin_rejected (malformed (''begin_member_revalidation requires a set, a member and a '' @
             ''revalidation attempt identity'')) e
      else let authority = authority_check ctx None (Some sid) e
      in if \<not> succeeded authority then begin_rejected authority e
      else case require_set sid e of
        Inl missing \<Rightarrow> begin_rejected missing e
      | Inr r \<Rightarrow>
        (case member_at r mid of
           None \<Rightarrow> begin_rejected (member_not_found sid mid) e
         | Some (path, m) \<Rightarrow>
           if member_is_terminal m
           then begin_rejected (make_rejection OC_INVALID_LIFECYCLE_TRANSITION
                  (msg (''member '' @ id_text mid @ '' is '' @ member_lifecycle_text (m_lifecycle m) @
                        '' and cannot be revalidated''))) e
           else if unat (m_pending m) \<ge> max_pending_revalidations_per_set (e_limits e)
           then begin_rejected (make_rejection OC_RESOURCE_LIMIT
                  (msg (''max_pending_revalidations_per_set limit of '' @
                        nat_string (max_pending_revalidations_per_set (e_limits e)) @ '' reached''))) e
           else (case checked_add (ucast (m_pending m)) 1 of
             None \<Rightarrow> begin_rejected (make_rejection OC_GENERATION_OVERFLOW
                       (msg ''pending revalidation counter is exhausted'')) e
           | Some next_pending \<Rightarrow>
               (let m1 = m\<lparr>m_pending := ucast next_pending\<rparr>;
                    r1 = r\<lparr>s_members := om_put path m1 (s_members r)\<rparr>
                in (\<lparr>rb_outcome = make_outcome OC_OK
                       (msg (''revalidation ticket issued for member '' @ id_text mid @ '' at watermark '' @
                             u64_string (wm_value (m_watermark m1)))),
                     rb_ticket = Some (issue_ticket sid r1 m1 mid attempt e)\<rparr>, put_set r1 e)))))"

definition release_pending :: "member_record \<Rightarrow> member_record" where
  "release_pending m = (if m_pending m > 0 then m\<lparr>m_pending := m_pending m - 1\<rparr> else m)"

definition store_member :: "path_id \<Rightarrow> member_record \<Rightarrow> set_record \<Rightarrow> set_record" where
  "store_member path m r = r\<lparr>s_members := om_put path m (s_members r)\<rparr>"

text \<open>The part of the completion after its last check.\<close>

definition complete_revalidation ::
  "mutation_context \<Rightarrow> revalidation_ticket \<Rightarrow> path_authority_view option \<Rightarrow> path_id \<Rightarrow> member_record \<Rightarrow>
   set_record \<Rightarrow> engine \<Rightarrow> answer" where
  "complete_revalidation ctx ticket current path m r e =
     (let flds = [''complete_member_revalidation'', id_text (tk_set_id ticket), id_text (tk_member_id ticket),
                  id_text (tk_attempt ticket)];
          m1 = release_pending (revalidated_member (s_conditional r) current m);
          changed = revalidation_changed m m1;
          r1 = recompute (store_member path m1 r);
          summary = msg (''completed two-phase revalidation '' @ id_text (tk_attempt ticket) @ '' for member '' @
            id_text (tk_member_id ticket) @ ''; binding '' @ gen_text (m_bound m) @ '' -> '' @ gen_text (m_bound m1) @
            ''; lifecycle '' @ member_lifecycle_text (m_lifecycle m) @ '' -> '' @ member_lifecycle_text (m_lifecycle m1));
          spec = (commit_spec_for SE_MEMBERSHIP_RECHECK CA_MEMBER_REVALIDATED summary)
            \<lparr>cs_advance_set_generation := changed, cs_member_id := Some (tk_member_id ticket),
             cs_path_id := Some (m_path_id m1)\<rparr>
      in if \<not> changed
         then answer_unchanged r1 ctx ''complete_member_revalidation'' flds
                (about_member (tk_member_id ticket) m1
                  (make_outcome (if member_inputs_usable m1 then OC_IDEMPOTENT else OC_MEMBER_REVALIDATION_NEGATIVE)
                    summary)) e
         else commit r1 ctx ''complete_member_revalidation'' flds spec
                (about_member (tk_member_id ticket) m1
                  (make_outcome (if member_inputs_usable m1 then OC_MEMBER_REVALIDATED
                                 else OC_MEMBER_REVALIDATION_NEGATIVE) summary)) e)"

definition no_revalidation_pending :: "member_id \<Rightarrow> fabric_outcome" where
  "no_revalidation_pending mid = malformed (''no revalidation is pending for member '' @ id_text mid)"

definition complete_member_revalidation ::
  "mutation_context \<Rightarrow> revalidation_ticket \<Rightarrow> path_authority_view option \<Rightarrow> engine \<Rightarrow> answer" where
  "complete_member_revalidation ctx ticket current e =
     (if \<not> tk_valid ticket then (malformed ''revalidation ticket is not valid'', e)
      else if \<not> id_valid (tk_set_id ticket) \<or> \<not> id_valid (tk_member_id ticket)
      then (malformed ''revalidation ticket is missing an identity'', e)
      else let authority = authority_check ctx None (Some (tk_set_id ticket)) e
      in if \<not> succeeded authority then (authority, e)
      else case require_set (tk_set_id ticket) e of
        Inl missing \<Rightarrow> (missing, e)
      | Inr r \<Rightarrow>
        (case member_at r (tk_member_id ticket) of
           None \<Rightarrow> (member_not_found (tk_set_id ticket) (tk_member_id ticket), e)
         | Some (path, m) \<Rightarrow>
           let released = put_set (store_member path (release_pending m) r) e
           in if m_pending m = 0 then (no_revalidation_pending (tk_member_id ticket), e)
           else if \<not> (s_watermark r = tk_set_watermark ticket) \<or> \<not> (m_watermark m = tk_member_watermark ticket)
           then (make_rejection OC_STALE_REVALIDATION
                  (msg (''revalidation ticket is stale: issued at set watermark '' @
                        u64_string (wm_value (tk_set_watermark ticket)) @ ''/member watermark '' @
                        u64_string (wm_value (tk_member_watermark ticket)) @ '' but the member is now at '' @
                        u64_string (wm_value (s_watermark r)) @ ''/'' @ u64_string (wm_value (m_watermark m)))),
                 released)
           else if \<not> (tk_epoch ticket = e_epoch e)
           then (make_rejection OC_STALE_EPOCH
                  (msg (''revalidation ticket was issued at epoch '' @ gen_text (tk_epoch ticket) @
                        '' but the governing epoch is now '' @ gen_text (e_epoch e))), released)
           else if \<not> expected_member_generation_matches ctx m then (stale_member_generation ctx m, released)
           else if member_is_terminal m
           then (make_rejection OC_INVALID_LIFECYCLE_TRANSITION
                  (msg (''member '' @ id_text (tk_member_id ticket) @ '' became '' @
                        member_lifecycle_text (m_lifecycle m) @ '' while revalidation was in flight'')), released)
           else if gen_next (m_generation m) = None \<or> \<not> set_generation_available r
           then (generations_exhausted (tk_set_id ticket), released)
           else complete_revalidation ctx ticket current path m r e))"

definition abandon_member_revalidation :: "revalidation_ticket \<Rightarrow> engine \<Rightarrow> answer" where
  "abandon_member_revalidation ticket e =
     (if \<not> tk_valid ticket then (malformed ''revalidation ticket is not valid'', e)
      else case require_set (tk_set_id ticket) e of
        Inl missing \<Rightarrow> (missing, e)
      | Inr r \<Rightarrow>
        (case member_at r (tk_member_id ticket) of
           None \<Rightarrow> (member_not_found (tk_set_id ticket) (tk_member_id ticket), e)
         | Some (path, m) \<Rightarrow>
           if m_pending m = 0 then (no_revalidation_pending (tk_member_id ticket), e)
           else (make_outcome OC_OK (msg (''abandoned revalidation ticket '' @ id_text (tk_attempt ticket))),
                 put_set (store_member path (m\<lparr>m_pending := m_pending m - 1\<rparr>) r) e)))"

section \<open>Dependency invalidation\<close>

definition apply_path_authority :: "mutation_context \<Rightarrow> path_authority_view \<Rightarrow> engine \<Rightarrow> answer" where
  "apply_path_authority ctx view e =
     (if \<not> id_valid (v_path view) \<or> \<not> gen_valid (v_generation view)
      then (malformed ''apply_path_authority requires a valid path and generation'', e)
      else let flds = view_fields ''apply_path_authority'' view
      in case path_caller_check ctx e of
        Inl rejection \<Rightarrow> (rejection, e)
      | Inr registration \<Rightarrow>
        (case attempt_check ctx ''apply_path_authority'' flds e of
           Some replay \<Rightarrow> (replay, e)
         | None \<Rightarrow>
           (case uncovered_dependent (pr_scope registration) (v_path view) e of
              Some r \<Rightarrow> (scope_not_covering r, e)
            | None \<Rightarrow>
              (let (changed, e) = apply_view (v_path view) (Some view) (Some ctx) CA_PATH_INVALIDATED e;
                   detail = msg (''applied Path Authority view for '' @ id_text (v_path view) @ '' generation '' @
                     gen_text (v_generation view) @ '' state '' @ path_authority_state_text (v_state view) @ ''; '' @
                     nat_string changed @ '' dependent set(s) changed'');
                   outcome = (make_outcome OC_PATH_INVALIDATED detail)\<lparr>o_path_id := Some (v_path view)\<rparr>
               in (outcome, record_attempt ctx ''apply_path_authority'' flds outcome e)))))"

definition refresh_path ::
  "(path_id \<Rightarrow> path_authority_view option) \<Rightarrow> mutation_context \<Rightarrow> path_id \<Rightarrow> engine \<Rightarrow> answer" where
  "refresh_path external ctx path e =
     (if \<not> id_valid path then (malformed ''refresh_path requires a valid path identity'', e)
      else case lookup_path external e path of
        None \<Rightarrow> (make_rejection OC_PATH_AUTHORITY_UNKNOWN
                  (msg (''Path Authority has no record for path '' @ id_text path)), e)
      | Some view \<Rightarrow> apply_path_authority ctx view e)"

section \<open>The operations keep the invariant\<close>

lemma rebind_simps [simp]:
  "m_id (rebind view m) = m_id m" "m_path_id (rebind view m) = m_path_id m"
  "m_generation (rebind view m) = m_generation m" "m_lifecycle (rebind view m) = m_lifecycle m"
  "m_watermark (rebind view m) = m_watermark m" "m_pending (rebind view m) = m_pending m"
  "m_admin_enabled (rebind view m) = m_admin_enabled m" "member_frame m (rebind view m)"
  by (simp_all add: rebind_def split: option.splits)

lemma revalidate_listed_frame [simp]: "member_frame m (revalidate_listed c views m)"
  by (auto simp: revalidate_listed_def intro: member_frame_trans [OF rebind_simps(8) evaluate_member_frame]
      split: option.splits)

lemma revalidate_listed_evidence: "member_evidence c m \<Longrightarrow> member_evidence c (revalidate_listed c views m)"
  by (simp add: revalidate_listed_def evaluate_member_evidence split: option.splits)

lemma revalidate_allowed: "transition_allowed l SE_REVALIDATE_SET \<Longrightarrow> \<not> terminal_lifecycle l"
  by (cases l; simp add: transition_allowed_def terminal_lifecycle_def set_table_defs)

lemma revalidated_set_frame: "set_frame r (revalidated_set target views e r)"
  unfolding revalidated_set_def
  by (simp add: set_frame_trans [OF set_frame_map recompute_frame])

lemma revalidated_set_core:
  assumes core: "set_core lim r" and l: "transition_allowed (s_lifecycle r) SE_REVALIDATE_SET"
  shows "set_core lim (revalidated_set target views e r)"
proof -
  let ?r = "map_members (revalidate_listed (s_conditional r) views) r"
  have "tables_ok ?r"
    using set_coreD(1) [OF core] by (rule tables_ok_set_frame) (rule set_frame_map, rule revalidate_listed_frame)
  moreover have "evidence_ok ?r"
    using set_coreD(2) [OF core] by (rule evidence_ok_map [rotated]) (rule revalidate_listed_evidence)
  ultimately have "set_core lim (recompute ?r)"
    using set_coreD [OF core] by (intro set_core_recompute) (simp_all add: terminal_ok_def)
  then have "set_core lim ((recompute ?r)\<lparr>s_currentness := target\<rparr>)"
    using revalidate_allowed [OF l] by (intro set_core_currentness) simp_all
  then show ?thesis by (simp add: revalidated_set_def)
qed

lemma revalidate_set_locked_ok:
  assumes ok: "engine_ok e"
  shows "engine_ok (snd (fst (revalidate_set_locked ctx sid views e)))"
proof (cases "admit ctx sid ''revalidate_set'' [''revalidate_set'', id_text sid] e")
  case (Inl o1)
  then show ?thesis using ok by (simp add: revalidate_set_locked_def Let_def)
next
  case (Inr r)
  note find = admit_InrD [OF Inr, THEN conjunct1]
  have "engine_ok (put_set (revalidated_set target views e r) e)"
    if "transition_allowed (s_lifecycle r) SE_REVALIDATE_SET" for target
    using stored_update_ok [OF ok find revalidated_set_frame revalidated_set_core [OF stored_set(3) [OF ok find] that]] .
  then show ?thesis
    using ok Inr by (simp add: revalidate_set_locked_def Let_def commit_ok answer_unchanged_ok)
qed

lemma revalidate_set_ok: "engine_ok e \<Longrightarrow> engine_ok (snd (revalidate_set before after ctx sid e))"
  using revalidate_set_locked_ok [of e ctx sid "collect_views (lookup_path before e) (live_member_paths sid e)"]
  by (auto simp: revalidate_set_def Let_def reconcile_all_ok split: prod.split)

lemma revalidated_member_frame [simp]: "member_frame m (revalidated_member c view m)"
proof -
  have "member_frame m (evaluate_member c view True (rebind view m))"
    by (rule member_frame_trans [OF _ evaluate_member_frame]) simp
  then show ?thesis by (simp add: revalidated_member_def Let_def member_frame_bump member_frame_generation)
qed

lemma evidence_generation [simp]: "member_evidence c (m\<lparr>m_generation := g\<rparr>) = member_evidence c m"
  by (rule member_evidence_cong) simp_all

lemma revalidated_member_evidence: "member_evidence c (revalidated_member c view m)"
  by (simp add: revalidated_member_def Let_def evaluate_member_evidence)

lemma member_at_stored:
  assumes "engine_ok e" and "om_find (e_sets e) sid = Some r" and "member_at r mid = Some (p, m)"
  shows "om_find (s_members r) p = Some m"
  using member_at_SomeD(2) [OF set_coreD(1) [OF stored_set(3) [OF assms(1,2)]] assms(3)] .

lemma revalidate_member_locked_ok:
  assumes ok: "engine_ok e"
  shows "engine_ok (snd (fst (revalidate_member_locked ctx sid mid view e)))"
proof (cases "admit ctx sid ''revalidate_member'' [''revalidate_member'', id_text sid, id_text mid] e")
  case (Inl o1)
  then show ?thesis using ok by (simp add: revalidate_member_locked_def Let_def)
next
  case (Inr r)
  note find = admit_InrD [OF Inr, THEN conjunct1]
  have "engine_ok (put_set (recompute (r\<lparr>s_members := om_put p (revalidated_member (s_conditional r) view m) (s_members r)\<rparr>)) e)"
    if "member_at r mid = Some (p, m)" for p m
    by (rule update_member_ok [OF ok find member_at_stored [OF ok find that]])
      (simp_all add: revalidated_member_evidence)
  then show ?thesis
    using ok Inr
    by (simp add: revalidate_member_locked_def Let_def commit_ok answer_unchanged_ok split: option.split prod.split)
qed

lemma revalidate_member_ok: "engine_ok e \<Longrightarrow> engine_ok (snd (revalidate_member before after ctx sid mid e))"
  using revalidate_member_locked_ok [of e ctx sid mid]
  by (simp add: revalidate_member_def Let_def case_prod_unfold reconcile_path_ok split: option.split)

text \<open>The pending counter is outside of everything the invariant of a set looks at.\<close>

lemma store_pending_ok:
  assumes ok: "engine_ok e" and find: "om_find (e_sets e) sid = Some r" and m: "om_find (s_members r) p = Some m"
  shows "engine_ok (put_set (r\<lparr>s_members := om_put p (m\<lparr>m_pending := n\<rparr>) (s_members r)\<rparr>) e)"
proof -
  have "member_evidence (s_conditional r) (m\<lparr>m_pending := n\<rparr>)"
    using set_coreD(2) [OF stored_set(3) [OF ok find]] m
    by (simp add: evidence_ok_def member_evidence_cong [of "m\<lparr>m_pending := n\<rparr>" m])
  then have "set_core (e_limits e) (r\<lparr>s_members := om_put p (m\<lparr>m_pending := n\<rparr>) (s_members r)\<rparr>)"
    using stored_set(3) [OF ok find] m by (intro set_core_put_unchanged) (simp_all add: m_usable_def)
  then show ?thesis
    by (intro stored_update_ok [OF ok find] set_frame_put_member [OF m]) simp_all
qed

lemma release_pending_form: "\<exists>n. release_pending m = m\<lparr>m_pending := n\<rparr>"
  by (auto simp: release_pending_def intro: exI [of _ "m_pending m"])

lemma store_released_ok:
  assumes "engine_ok e" and "om_find (e_sets e) sid = Some r" and "om_find (s_members r) p = Some m"
  shows "engine_ok (put_set (store_member p (release_pending m) r) e)"
  using store_pending_ok [OF assms] release_pending_form [of m] by (auto simp: store_member_def)

lemma begin_member_revalidation_ok:
  assumes ok: "engine_ok e"
  shows "engine_ok (snd (begin_member_revalidation ctx sid mid attempt e))"
proof -
  have "engine_ok (put_set (r\<lparr>s_members := om_put p (m\<lparr>m_pending := n\<rparr>) (s_members r)\<rparr>) e)"
    if "om_find (e_sets e) sid = Some r" "member_at r mid = Some (p, m)" for r p m n
    by (rule store_pending_ok [OF ok that(1) member_at_stored [OF ok that]])
  then show ?thesis
    using ok
    by (simp add: begin_member_revalidation_def begin_rejected_def Let_def require_set_Inr
        split: sum.split option.split prod.split)
qed

lemma complete_revalidation_ok:
  assumes ok: "engine_ok e" and find: "om_find (e_sets e) sid = Some r" and m: "om_find (s_members r) p = Some m"
  shows "engine_ok (snd (complete_revalidation ctx ticket current p m r e))"
proof -
  let ?m = "release_pending (revalidated_member (s_conditional r) current m)"
  obtain n where n: "?m = (revalidated_member (s_conditional r) current m)\<lparr>m_pending := n\<rparr>"
    using release_pending_form by blast
  have "member_evidence (s_conditional r) ?m"
    using revalidated_member_evidence [of "s_conditional r" current m] unfolding n
    by (simp add: member_evidence_def m_usable_def)
  then have "engine_ok (put_set (recompute (r\<lparr>s_members := om_put p ?m (s_members r)\<rparr>)) e)"
    by (intro update_member_ok [OF ok find m]) (simp add: n)
  then show ?thesis
    by (simp add: complete_revalidation_def Let_def store_member_def commit_ok answer_unchanged_ok)
qed

lemma complete_member_revalidation_ok:
  assumes ok: "engine_ok e"
  shows "engine_ok (snd (complete_member_revalidation ctx ticket current e))"
proof -
  have "engine_ok (put_set (store_member p (release_pending m) r) e)"
      "engine_ok (snd (complete_revalidation ctx ticket current p m r e))"
    if "om_find (e_sets e) (tk_set_id ticket) = Some r" "member_at r (tk_member_id ticket) = Some (p, m)" for r p m
    using store_released_ok [OF ok that(1)] complete_revalidation_ok [OF ok that(1)] member_at_stored [OF ok that] by auto
  then show ?thesis
    using ok
    by (simp add: complete_member_revalidation_def Let_def require_set_Inr split: sum.split option.split prod.split)
qed

lemma abandon_member_revalidation_ok:
  assumes ok: "engine_ok e"
  shows "engine_ok (snd (abandon_member_revalidation ticket e))"
proof -
  have "engine_ok (put_set (store_member p (m\<lparr>m_pending := n\<rparr>) r) e)"
    if "om_find (e_sets e) (tk_set_id ticket) = Some r" "member_at r (tk_member_id ticket) = Some (p, m)" for r p m n
    using store_pending_ok [OF ok that(1) member_at_stored [OF ok that]] by (simp add: store_member_def)
  then show ?thesis
    using ok
    by (simp add: abandon_member_revalidation_def Let_def require_set_Inr split: sum.split option.split prod.split)
qed

lemma apply_path_authority_ok: "engine_ok e \<Longrightarrow> engine_ok (snd (apply_path_authority ctx view e))"
  by (auto simp: apply_path_authority_def Let_def case_prod_unfold apply_view_ok record_attempt_ok
      split: sum.splits option.splits)

lemma refresh_path_ok: "engine_ok e \<Longrightarrow> engine_ok (snd (refresh_path external ctx path e))"
  by (simp add: refresh_path_def apply_path_authority_ok split: option.split)

end
