(* ===== verification/Authority_Ops.thy ===== *)
theory Authority_Ops
  imports Revalidation_Ops
begin

text \<open>
  \<open>src/fabric_authority.cpp\<close>: registration of publishers, permanent fencing of worker boots, epoch
  advancement, and the queries on the authority tables. A loop over all sets is a fold over their
  identities in the order of the set table.
\<close>

section \<open>Registration\<close>

definition register_request_check :: "publisher_id \<Rightarrow> worker_boot_id \<Rightarrow> authority_scope \<Rightarrow> session_id \<Rightarrow> engine \<Rightarrow> fabric_outcome option" where
  "register_request_check publisher boot scope session e =
     (if \<not> id_valid publisher \<or> \<not> id_valid boot \<or> \<not> id_valid session
      then Some (malformed (''register_publisher requires a publisher, a worker boot and a session '' @ ''identity''))
      else if \<not> scope_well_formed scope
      then Some (make_rejection OC_UNAUTHORIZED_SCOPE
             (msg (''authority scope must name a fabric and a multipath namespace; '' @ ''default deny'')))
      else if length (sc_set_ids scope) > max_scope_set_ids (e_limits e)
      then Some (make_rejection OC_RESOURCE_LIMIT
             (msg (''scope lists '' @ nat_string (length (sc_set_ids scope)) @
                   '' set ids which exceeds max_scope_set_ids '' @ nat_string (max_scope_set_ids (e_limits e)))))
      else if \<exists>sid \<in> set (sc_set_ids scope). \<not> id_valid sid
      then Some (malformed ''authority scope contains an invalid set identity'')
      else None)"

text \<open>One session holds at most one publisher/boot registration.\<close>

definition drop_session_registrations :: "worker_key \<Rightarrow> session_id \<Rightarrow> engine \<Rightarrow> engine" where
  "drop_session_registrations key session e =
     e\<lparr>e_registrations := om_filter (\<lambda>k reg. \<not> (pr_session reg = session \<and> k \<noteq> key)) (e_registrations e)\<rparr>"

definition authority_exhausted :: fabric_outcome where
  "authority_exhausted = make_rejection OC_GENERATION_OVERFLOW (msg ''multipath authority generation is exhausted'')"

definition admit_registration ::
  "publisher_id \<Rightarrow> worker_boot_id \<Rightarrow> authority_scope \<Rightarrow> session_id \<Rightarrow> engine \<Rightarrow> answer" where
  "admit_registration publisher boot scope session e =
     (let key = (publisher, boot); e = drop_session_registrations key session e
      in case gen_next (e_authority_generation e) of
        None \<Rightarrow> (authority_exhausted, e)
      | Some next_authority \<Rightarrow>
        (let registration = \<lparr>pr_publisher = publisher, pr_worker_boot = boot, pr_scope = scope,
               pr_epoch = e_epoch e, pr_authority_generation = next_authority, pr_session = session\<rparr>
         in ((make_outcome OC_PUBLISHER_REGISTERED (msg (''registered '' @ registration_render registration)))
               \<lparr>o_authority_generation := Some next_authority\<rparr>,
             e\<lparr>e_authority_generation := next_authority,
               e_registrations := om_put key registration (e_registrations e)\<rparr>)))"

definition register_publisher ::
  "publisher_id \<Rightarrow> worker_boot_id \<Rightarrow> authority_scope \<Rightarrow> session_id \<Rightarrow> engine \<Rightarrow> answer" where
  "register_publisher publisher boot scope session e =
     (case register_request_check publisher boot scope session e of
        Some rejection \<Rightarrow> (rejection, e)
      | None \<Rightarrow>
        (case om_find (e_fences e) (publisher, boot) of
           Some fence \<Rightarrow> (make_rejection OC_STALE_WORKER
                           (msg (''worker boot is permanently fenced: '' @ fence_render fence)), e)
         | None \<Rightarrow>
           (case om_find (e_registrations e) (publisher, boot) of
              Some current \<Rightarrow>
                if pr_epoch current = e_epoch e \<and> pr_session current = session \<and>
                   sc_fabric (pr_scope current) = sc_fabric scope \<and>
                   sc_name_space (pr_scope current) = sc_name_space scope \<and>
                   sc_set_ids (pr_scope current) = sc_set_ids scope
                then (make_outcome OC_IDEMPOTENT
                       (msg (''publisher/boot is already registered with the same scope: '' @
                             registration_render current)), e)
                else admit_registration publisher boot scope session e
            | None \<Rightarrow>
                if om_size (e_registrations e) \<ge> max_publishers (e_limits e)
                then (make_rejection OC_RESOURCE_LIMIT
                       (msg (''max_publishers limit of '' @ nat_string (max_publishers (e_limits e)) @ '' reached'')), e)
                else admit_registration publisher boot scope session e)))"

definition unregister_publisher :: "publisher_id \<Rightarrow> worker_boot_id \<Rightarrow> engine \<Rightarrow> answer" where
  "unregister_publisher publisher boot e =
     (if \<not> id_valid publisher \<or> \<not> id_valid boot
      then (malformed ''unregister_publisher requires a publisher and a worker boot identity'', e)
      else case om_find (e_registrations e) (publisher, boot) of
        None \<Rightarrow> (make_rejection OC_UNKNOWN_PUBLISHER
                  (msg (''publisher/boot is not registered: '' @ id_text publisher @ ''/'' @ id_text boot)), e)
      | Some _ \<Rightarrow>
        (let authority = gen_advance (e_authority_generation e)
         in ((make_outcome OC_PUBLISHER_UNREGISTERED (msg (''unregistered '' @ id_text publisher @ ''/'' @ id_text boot)))
               \<lparr>o_authority_generation := Some authority\<rparr>,
             e\<lparr>e_registrations := om_del (publisher, boot) (e_registrations e), e_authority_generation := authority\<rparr>)))"

section \<open>Fencing\<close>

text \<open>One pass of the loop over the sets: \<open>acc\<close> is the count of affected sets with the state.\<close>

definition fenced_record :: "engine \<Rightarrow> set_record \<Rightarrow> set_record" where
  "fenced_record e r =
     bump_set_watermark (r\<lparr>s_currentness := SC_REVALIDATION_REQUIRED,
       s_authority_generation := e_authority_generation e, s_governing_epoch := e_epoch e\<rparr>)"

definition fence_set :: "publisher_id \<Rightarrow> set_id \<Rightarrow> nat \<times> engine \<Rightarrow> nat \<times> engine" where
  "fence_set publisher sid acc =
     (case acc of (affected, e) \<Rightarrow>
        (case om_find (e_sets e) sid of
           None \<Rightarrow> acc
         | Some r \<Rightarrow>
           if \<not> (pv_publisher (s_provenance r) = publisher) then acc
           else
             (if s_currentness r \<noteq> SC_REVALIDATION_REQUIRED then affected + 1 else affected,
              capture_snapshot (fenced_record e r) (put_set (fenced_record e r) e))))"

definition fence_worker :: "publisher_id \<Rightarrow> worker_boot_id \<Rightarrow> string \<Rightarrow> engine \<Rightarrow> answer" where
  "fence_worker publisher boot cause e =
     (if \<not> id_valid publisher \<or> \<not> id_valid boot
      then (malformed ''fence_worker requires a publisher and a worker boot identity'', e)
      else if cause = [] \<or> length cause > 64
      then (malformed ''fence cause must be a non-empty string of at most 64 characters'', e)
      else case om_find (e_fences e) (publisher, boot) of
        Some fence \<Rightarrow> (make_outcome OC_IDEMPOTENT (msg (''worker boot is already fenced: '' @ fence_render fence)), e)
      | None \<Rightarrow>
        (case gen_next (e_authority_generation e) of
           None \<Rightarrow> (authority_exhausted, e)
         | Some next_authority \<Rightarrow>
           (let fence = \<lparr>fr_publisher = publisher, fr_worker_boot = boot, fr_epoch = e_epoch e, fr_cause = cause\<rparr>;
                e = e\<lparr>e_fences := om_put (publisher, boot) fence (e_fences e),
                      e_registrations := om_del (publisher, boot) (e_registrations e),
                      e_authority_generation := next_authority\<rparr>;
                (affected, e) = fold (fence_set publisher) (om_keys (e_sets e)) (0, e);
                detail = msg (''fenced '' @ id_text publisher @ ''/'' @ id_text boot @ '' cause='' @ cause @ ''; '' @
                  nat_string affected @ '' set(s) moved to currentness REVALIDATION_REQUIRED'')
            in ((make_outcome OC_WORKER_FENCED detail)\<lparr>o_authority_generation := Some (e_authority_generation e)\<rparr>, e))))"

section \<open>Epoch advancement\<close>

definition fence_registrations :: "coordinator_epoch \<Rightarrow> engine \<Rightarrow> engine" where
  "fence_registrations next_epoch e =
     e\<lparr>e_fences := fold (\<lambda>key. om_put key
            \<lparr>fr_publisher = fst key, fr_worker_boot = snd key, fr_epoch = next_epoch, fr_cause = ''EPOCH_ADVANCE''\<rparr>)
          (om_keys (e_registrations e)) (e_fences e),
       e_registrations := om_empty\<rparr>"

definition epoch_record :: "engine \<Rightarrow> set_record \<Rightarrow> set_record" where
  "epoch_record e r =
     append_history (e_limits e) (e_epoch e) SE_EPOCH_ADVANCE CA_EPOCH_ADVANCE None None None
       (msg (''epoch advanced to '' @ gen_text (e_epoch e)))
       (bump_set_watermark (r\<lparr>s_authority_generation := e_authority_generation e,
          s_governing_epoch := e_epoch e, s_currentness := SC_REVALIDATION_REQUIRED\<rparr>))"

definition epoch_set :: "set_id \<Rightarrow> engine \<Rightarrow> engine" where
  "epoch_set sid e =
     (case om_find (e_sets e) sid of
        None \<Rightarrow> e
      | Some r \<Rightarrow> capture_snapshot (epoch_record e r) (put_set (epoch_record e r) e))"

definition enter_epoch :: "coordinator_epoch \<Rightarrow> authority_generation \<Rightarrow> engine \<Rightarrow> engine" where
  "enter_epoch next_epoch next_authority e =
     (let e = (fence_registrations next_epoch e)\<lparr>e_epoch := next_epoch, e_authority_generation := next_authority\<rparr>
      in fold epoch_set (om_keys (e_sets e)) e)"

definition advance_epoch ::
  "publisher_id \<Rightarrow> worker_boot_id \<Rightarrow> session_id \<Rightarrow> coordinator_epoch \<Rightarrow> attempt_id \<Rightarrow> engine \<Rightarrow> answer" where
  "advance_epoch publisher boot session expected attempt e =
     (if \<not> id_valid publisher \<or> \<not> id_valid boot \<or> \<not> id_valid session \<or> \<not> id_valid attempt \<or> \<not> gen_valid expected
      then (make_rejection OC_UNAUTHORIZED_CALLER
             (msg (''advance_epoch requires a publisher, worker boot, session, expected '' @
                   ''epoch and attempt identity'')), e)
      else case om_find (e_fences e) (publisher, boot) of
        Some fence \<Rightarrow> (make_rejection OC_STALE_WORKER (msg (''worker boot is fenced: '' @ fence_render fence)), e)
      | None \<Rightarrow>
        (case om_find (e_registrations e) (publisher, boot) of
           None \<Rightarrow> (make_rejection OC_UNKNOWN_PUBLISHER
                     (msg ''publisher/boot is not registered at the governing epoch''), e)
         | Some registration \<Rightarrow>
           if \<not> (pr_session registration = session)
           then (make_rejection OC_UNAUTHORIZED_CALLER
                  (msg (''session does not own the registration for '' @ id_text publisher @ ''/'' @ id_text boot)), e)
           else if \<not> (expected = e_epoch e)
           then (make_rejection OC_STALE_EPOCH
                  (msg (''expected epoch '' @ gen_text expected @ '' is not the governing epoch '' @
                        gen_text (e_epoch e))), e)
           else (case gen_next (e_epoch e) of
             None \<Rightarrow> (make_rejection OC_GENERATION_OVERFLOW (msg ''coordinator epoch is exhausted''), e)
           | Some next_epoch \<Rightarrow>
             (case gen_next (e_authority_generation e) of
                None \<Rightarrow> (authority_exhausted, e)
              | Some next_authority \<Rightarrow>
                (let e = enter_epoch next_epoch next_authority e;
                     detail = msg (''epoch advanced to '' @ gen_text (e_epoch e) @ ''; authority generation '' @
                       gen_text (e_authority_generation e) @ ''; all registrations fenced and '' @
                       nat_string (om_size (e_sets e)) @ '' set(s) moved to currentness REVALIDATION_REQUIRED'')
                 in ((make_outcome OC_EPOCH_ADVANCED detail)\<lparr>o_authority_generation := Some (e_authority_generation e)\<rparr>, e))))))"

section \<open>Queries\<close>

definition is_fenced :: "publisher_id \<Rightarrow> worker_boot_id \<Rightarrow> engine \<Rightarrow> bool" where
  "is_fenced publisher boot e \<longleftrightarrow> om_find (e_fences e) (publisher, boot) \<noteq> None"

definition find_registration :: "publisher_id \<Rightarrow> worker_boot_id \<Rightarrow> engine \<Rightarrow> publisher_registration option" where
  "find_registration publisher boot e = om_find (e_registrations e) (publisher, boot)"

definition describe_authority :: "engine \<Rightarrow> authority_description" where
  "describe_authority e =
     \<lparr>ad_epoch = e_epoch e, ad_authority_generation = e_authority_generation e,
      ad_registrations = om_values (e_registrations e), ad_fence_records = om_values (e_fences e)\<rparr>"


section \<open>The operations keep the invariant\<close>

lemma engine_ok_authority:
  assumes ok: "engine_ok e" and new: "authority_ok e'"
    and same: "e_limits e' = e_limits e" "e_sets e' = e_sets e" "e_key_index e' = e_key_index e"
      "e_path_dependents e' = e_path_dependents e" "e_attempts e' = e_attempts e"
      "e_attempt_index e' = e_attempt_index e" "e_snapshots e' = e_snapshots e"
      "e_directory e' = e_directory e" "e_ids e' = e_ids e" "e_total_members e' = e_total_members e"
  shows "engine_ok e'"
proof (rule engine_okI)
  note D = engine_okD [OF ok]
  show "sets_ok e'" using D(1) by (simp add: sets_ok_cong [OF same(2,1)])
  show "keys_ok e'" using D(2) by (simp add: keys_ok_cong [OF same(2,3)])
  show "dependents_ok e'" using D(3) by (simp add: dependents_ok_cong [OF same(2,4)])
  show "attempts_ok e'" using D(5) by (simp add: attempts_ok_cong [OF same(1,5,6)])
  show "snapshots_ok e'" using D(6) by (simp add: snapshots_ok_cong [OF same(1,7)])
  show "ids_ok e'" using D(7) by (simp add: ids_ok_cong [OF same(2,9)])
  show "counts_ok e'" using D(8) by (simp add: counts_ok_cong [OF same(1,2,10)])
  show "dir_ok (e_directory e')" using D(9) same(8) by simp
qed (rule new)

lemma om_size_filter_le: "om_size (om_filter P m) \<le> om_size m"
  by (simp add: om_size_def)

lemma authority_okD:
  assumes "authority_ok e"
  shows "gen_valid (e_epoch e)" "gen_valid (e_authority_generation e)"
    "om_find (e_registrations e) k = Some reg \<Longrightarrow>
       (pr_publisher reg, pr_worker_boot reg) = k \<and> pr_epoch reg = e_epoch e \<and>
       scope_well_formed (pr_scope reg) \<and> om_find (e_fences e) k = None"
    "om_find (e_fences e) k = Some f \<Longrightarrow> (fr_publisher f, fr_worker_boot f) = k"
    "om_find (e_registrations e) k = Some reg \<Longrightarrow> om_find (e_registrations e) k' = Some reg' \<Longrightarrow>
       pr_session reg = pr_session reg' \<Longrightarrow> k = k'"
    "om_size (e_registrations e) \<le> max_publishers (e_limits e)"
  using assms unfolding authority_ok_def by blast+

lemma authority_okI:
  assumes "gen_valid (e_epoch e)" "gen_valid (e_authority_generation e)"
    and "\<And>k reg. om_find (e_registrations e) k = Some reg \<Longrightarrow>
       (pr_publisher reg, pr_worker_boot reg) = k \<and> pr_epoch reg = e_epoch e \<and>
       scope_well_formed (pr_scope reg) \<and> om_find (e_fences e) k = None"
    and "\<And>k f. om_find (e_fences e) k = Some f \<Longrightarrow> (fr_publisher f, fr_worker_boot f) = k"
    and "\<And>k reg k' reg'. om_find (e_registrations e) k = Some reg \<Longrightarrow> om_find (e_registrations e) k' = Some reg' \<Longrightarrow>
       pr_session reg = pr_session reg' \<Longrightarrow> k = k'"
    and "om_size (e_registrations e) \<le> max_publishers (e_limits e)"
  shows "authority_ok e"
  using assms unfolding authority_ok_def by blast

lemma drop_session_frame [simp]:
  "e_limits (drop_session_registrations key session e) = e_limits e"
  "e_epoch (drop_session_registrations key session e) = e_epoch e"
  "e_authority_generation (drop_session_registrations key session e) = e_authority_generation e"
  "e_fences (drop_session_registrations key session e) = e_fences e"
  "e_sets (drop_session_registrations key session e) = e_sets e"
  by (simp_all add: drop_session_registrations_def)

lemma drop_session_find:
  "om_find (e_registrations (drop_session_registrations key session e)) k = Some reg \<Longrightarrow>
   om_find (e_registrations e) k = Some reg \<and> (pr_session reg = session \<longrightarrow> k = key)"
  by (auto simp: drop_session_registrations_def split: option.splits if_splits)

lemma drop_session_authority:
  assumes "authority_ok e"
  shows "authority_ok (drop_session_registrations key session e)"
proof (rule authority_okI)
  note D = authority_okD [OF assms] and f = drop_session_find [THEN conjunct1]
  let ?e = "drop_session_registrations key session e"
  show "gen_valid (e_epoch ?e)" "gen_valid (e_authority_generation ?e)" using D(1,2) by simp_all
  show "om_size (e_registrations ?e) \<le> max_publishers (e_limits ?e)"
    using D(6) order_trans [OF om_size_filter_le] by (simp add: drop_session_registrations_def)
  show "k = k'" if "om_find (e_registrations ?e) k = Some reg" "om_find (e_registrations ?e) k' = Some reg'"
      "pr_session reg = pr_session reg'" for k reg k' reg'
    using D(5) [OF f [OF that(1)] f [OF that(2)] that(3)] .
  show "(pr_publisher reg, pr_worker_boot reg) = k \<and> pr_epoch reg = e_epoch ?e \<and>
       scope_well_formed (pr_scope reg) \<and> om_find (e_fences ?e) k = None"
    if "om_find (e_registrations ?e) k = Some reg" for k reg
    using D(3) [OF f [OF that]] by simp
  show "(fr_publisher fence, fr_worker_boot fence) = k" if "om_find (e_fences ?e) k = Some fence" for k fence
    using D(4) [of k fence] that by simp
qed

lemma drop_session_size:
  assumes "om_size (e_registrations e) < n \<or> om_find (e_registrations e) key \<noteq> None \<and> om_size (e_registrations e) \<le> n"
  shows "om_size (om_put key reg (e_registrations (drop_session_registrations key session e))) \<le> n"
  using assms om_size_filter_le [of "\<lambda>k reg. \<not> (pr_session reg = session \<and> k \<noteq> key)" "e_registrations e"]
  by (auto simp: om_size_put drop_session_registrations_def split: option.splits)

lemma admit_registration_authority:
  assumes ok: "authority_ok e" and scope: "scope_well_formed scope" and free: "om_find (e_fences e) (publisher, boot) = None"
    and size: "om_size (e_registrations e) < max_publishers (e_limits e) \<or> om_find (e_registrations e) (publisher, boot) \<noteq> None"
  shows "authority_ok (snd (admit_registration publisher boot scope session e))"
proof (cases "gen_next (e_authority_generation e)")
  case None
  then show ?thesis using drop_session_authority [OF ok] by (simp add: admit_registration_def Let_def)
next
  case (Some g)
  let ?key = "(publisher, boot)"
  let ?e = "drop_session_registrations ?key session e"
  note D = authority_okD [OF drop_session_authority [OF ok, of ?key session]]
  note f = drop_session_find [of ?key session e]
  have "authority_ok (?e\<lparr>e_authority_generation := g, e_registrations := om_put ?key
      \<lparr>pr_publisher = publisher, pr_worker_boot = boot, pr_scope = scope, pr_epoch = e_epoch e,
       pr_authority_generation = g, pr_session = session\<rparr> (e_registrations ?e)\<rparr>)" (is "authority_ok ?e'")
  proof (rule authority_okI)
    show "gen_valid (e_epoch ?e')" "gen_valid (e_authority_generation ?e')"
      using D(1) gen_next_valid [OF Some] by simp_all
    show "om_size (e_registrations ?e') \<le> max_publishers (e_limits ?e')"
      using drop_session_size [of e "max_publishers (e_limits e)" ?key] size authority_okD(6) [OF ok] by simp
  next
    fix k reg assume "om_find (e_registrations ?e') k = Some reg"
    then show "(pr_publisher reg, pr_worker_boot reg) = k \<and> pr_epoch reg = e_epoch ?e' \<and>
       scope_well_formed (pr_scope reg) \<and> om_find (e_fences ?e') k = None"
      using D(3) [of k reg] scope free by (auto split: if_splits)
  next
    fix k fence assume "om_find (e_fences ?e') k = Some fence"
    then show "(fr_publisher fence, fr_worker_boot fence) = k" using D(4) by simp
  next
    fix k reg k' reg' assume a: "om_find (e_registrations ?e') k = Some reg" "om_find (e_registrations ?e') k' = Some reg'"
      and s: "pr_session reg = pr_session reg'"
    show "k = k'"
    proof (cases "k = ?key \<or> k' = ?key")
      case True
      then show ?thesis using a s f [of k reg] f [of k' reg'] by (cases "k = ?key"; cases "k' = ?key"; auto)
    next
      case False
      then show ?thesis using a D(5) [OF _ _ s, of k k'] by simp
    qed
  qed
  then show ?thesis using Some by (simp add: admit_registration_def Let_def)
qed

lemma admit_registration_ok:
  assumes ok: "engine_ok e" and "scope_well_formed scope" and "om_find (e_fences e) (publisher, boot) = None"
    and "om_size (e_registrations e) < max_publishers (e_limits e) \<or> om_find (e_registrations e) (publisher, boot) \<noteq> None"
  shows "engine_ok (snd (admit_registration publisher boot scope session e))"
  by (rule engine_ok_authority [OF ok admit_registration_authority [OF engine_okD(4) [OF ok] assms(2-4)]])
    (simp_all add: admit_registration_def drop_session_registrations_def Let_def split: option.split)

lemma register_publisher_ok:
  assumes "engine_ok e"
  shows "engine_ok (snd (register_publisher publisher boot scope session e))"
  using assms
  by (auto simp: register_publisher_def register_request_check_def not_le intro!: admit_registration_ok
      split: option.split)

lemma gen_advance_valid: "gen_valid g \<Longrightarrow> gen_valid (gen_advance g)"
  by (auto simp: gen_advance_def gen_next_valid split: option.split)

lemma unregister_authority:
  assumes ok: "authority_ok e" and g: "gen_valid g"
  shows "authority_ok (e\<lparr>e_registrations := om_del key (e_registrations e), e_authority_generation := g\<rparr>)"
proof (rule authority_okI)
  note D = authority_okD [OF ok]
  let ?e = "e\<lparr>e_registrations := om_del key (e_registrations e), e_authority_generation := g\<rparr>"
  show "gen_valid (e_epoch ?e)" "gen_valid (e_authority_generation ?e)" using D(1) g by simp_all
  show "om_size (e_registrations ?e) \<le> max_publishers (e_limits ?e)" using D(6) by (auto simp: om_size_del)
  show "k = k'" if "om_find (e_registrations ?e) k = Some reg" "om_find (e_registrations ?e) k' = Some reg'"
      "pr_session reg = pr_session reg'" for k reg k' reg'
    using that D(5) [of k reg k' reg'] by (auto split: if_splits)
qed (use authority_okD(3,4) [OF ok] in \<open>auto split: if_splits\<close>)

lemma unregister_publisher_ok:
  assumes "engine_ok e"
  shows "engine_ok (snd (unregister_publisher publisher boot e))"
proof -
  note A = engine_okD(4) [OF assms]
  have "engine_ok (e\<lparr>e_registrations := om_del (publisher, boot) (e_registrations e),
      e_authority_generation := gen_advance (e_authority_generation e)\<rparr>)"
    by (rule engine_ok_authority [OF assms unregister_authority [OF A gen_advance_valid [OF authority_okD(2) [OF A]]]])
      simp_all
  then show ?thesis using assms by (simp add: unregister_publisher_def Let_def split: option.split)
qed

section \<open>Fencing and epochs keep the invariant\<close>

lemma put_capture_ok:
  assumes "engine_ok e" and "om_find (e_sets e) sid = Some r" and "set_frame r r'" and "set_core (e_limits e) r'"
  shows "engine_ok (capture_snapshot r' (put_set r' e))"
  by (rule capture_snapshot_ok [OF stored_update_ok [OF assms]])

lemma fenced_record_frame [simp]: "set_frame r (fenced_record e r)"
  unfolding fenced_record_def by (rule set_frame_steps) simp

lemma fenced_record_core: "set_core lim r \<Longrightarrow> set_core lim (fenced_record e r)"
  unfolding fenced_record_def by (rule set_core_bump) (simp add: set_core_currentness)

lemma epoch_record_frame [simp]: "set_frame r (epoch_record e r)"
  unfolding epoch_record_def by (rule set_frame_steps)+ simp

lemma epoch_record_core:
  assumes "set_core lim r"
  shows "set_core lim (epoch_record e r)"
proof -
  let ?r = "r\<lparr>s_authority_generation := e_authority_generation e, s_governing_epoch := e_epoch e\<rparr>"
  have "set_core lim ?r" using assms by simp
  then have "set_core lim (?r\<lparr>s_currentness := SC_REVALIDATION_REQUIRED\<rparr>)" by (rule set_core_currentness) simp
  then show ?thesis by (simp add: epoch_record_def set_core_bump)
qed

lemma fence_set_ok:
  assumes "engine_ok (snd acc)"
  shows "engine_ok (snd (fence_set publisher sid acc))"
proof (cases "om_find (e_sets (snd acc)) sid")
  case None
  then show ?thesis using assms by (simp add: fence_set_def case_prod_unfold)
next
  case (Some r)
  then show ?thesis
    using assms put_capture_ok [OF assms Some fenced_record_frame fenced_record_core [OF stored_set(3) [OF assms Some]]]
    by (simp add: fence_set_def case_prod_unfold)
qed

lemma epoch_set_ok:
  assumes "engine_ok e"
  shows "engine_ok (epoch_set sid e)"
proof (cases "om_find (e_sets e) sid")
  case None
  then show ?thesis using assms by (simp add: epoch_set_def)
next
  case (Some r)
  then show ?thesis
    using assms put_capture_ok [OF assms Some epoch_record_frame epoch_record_core [OF stored_set(3) [OF assms Some]]]
    by (simp add: epoch_set_def)
qed

lemma fold_fence_ok: "engine_ok (snd acc) \<Longrightarrow> engine_ok (snd (fold (fence_set publisher) sids acc))"
  by (induction sids arbitrary: acc) (simp_all add: fence_set_ok)

lemma fold_epoch_ok: "engine_ok e \<Longrightarrow> engine_ok (fold epoch_set sids e)"
  by (induction sids arbitrary: e) (simp_all add: epoch_set_ok)

lemma fence_authority:
  assumes ok: "authority_ok e" and g: "gen_valid g"
  shows "authority_ok (e\<lparr>e_fences := om_put (p, b) \<lparr>fr_publisher = p, fr_worker_boot = b, fr_epoch = ep, fr_cause = c\<rparr> (e_fences e),
    e_registrations := om_del (p, b) (e_registrations e), e_authority_generation := g\<rparr>)" (is "authority_ok ?e")
proof (rule authority_okI)
  note D = authority_okD [OF ok]
  show "gen_valid (e_epoch ?e)" "gen_valid (e_authority_generation ?e)" using D(1) g by simp_all
  show "om_size (e_registrations ?e) \<le> max_publishers (e_limits ?e)" using D(6) by (auto simp: om_size_del)
  show "k = k'" if "om_find (e_registrations ?e) k = Some reg" "om_find (e_registrations ?e) k' = Some reg'"
      "pr_session reg = pr_session reg'" for k reg k' reg'
    using that D(5) [of k reg k' reg'] by (auto split: if_splits)
qed (use authority_okD(3,4) [OF ok] in \<open>auto split: if_splits\<close>)

lemma fence_worker_ok:
  assumes "engine_ok e"
  shows "engine_ok (snd (fence_worker publisher boot cause e))"
proof -
  have "engine_ok (e\<lparr>e_fences := om_put (publisher, boot)
        \<lparr>fr_publisher = publisher, fr_worker_boot = boot, fr_epoch = e_epoch e, fr_cause = cause\<rparr> (e_fences e),
      e_registrations := om_del (publisher, boot) (e_registrations e), e_authority_generation := g\<rparr>)"
    if "gen_next (e_authority_generation e) = Some g" for g
    by (rule engine_ok_authority [OF assms fence_authority [OF engine_okD(4) [OF assms] gen_next_valid [OF that]]]) simp_all
  then show ?thesis
    using assms by (auto simp: fence_worker_def Let_def case_prod_unfold fold_fence_ok split: option.split)
qed

definition epoch_fence :: "coordinator_epoch \<Rightarrow> worker_key \<Rightarrow> fence_record" where
  "epoch_fence next_epoch key =
     \<lparr>fr_publisher = fst key, fr_worker_boot = snd key, fr_epoch = next_epoch, fr_cause = ''EPOCH_ADVANCE''\<rparr>"

lemma fold_fences_find:
  "om_find (fold (\<lambda>key. om_put key (epoch_fence n key)) keys m) k =
     (if k \<in> set keys then Some (epoch_fence n k) else om_find m k)"
  by (induction keys arbitrary: m) auto

lemma fence_registrations_find:
  "om_find (e_fences (fence_registrations n e)) k =
     (if om_has (e_registrations e) k then Some (epoch_fence n k) else om_find (e_fences e) k)"
  using fold_fences_find [of n "om_keys (e_registrations e)" "e_fences e" k]
  by (simp add: fence_registrations_def epoch_fence_def set_om_keys_has)

lemma fence_registrations_frame [simp]:
  "e_registrations (fence_registrations n e) = om_empty" "e_limits (fence_registrations n e) = e_limits e"
  "e_sets (fence_registrations n e) = e_sets e" "e_epoch (fence_registrations n e) = e_epoch e"
  by (simp_all add: fence_registrations_def)

lemma enter_epoch_authority:
  assumes ok: "authority_ok e" and "gen_valid n" and "gen_valid g"
  shows "authority_ok ((fence_registrations n e)\<lparr>e_epoch := n, e_authority_generation := g\<rparr>)"
  using assms authority_okD(4) [OF ok]
  by (intro authority_okI) (auto simp: fence_registrations_find epoch_fence_def split: if_splits)

lemma enter_epoch_ok:
  assumes "engine_ok e" and "gen_valid n" and "gen_valid g"
  shows "engine_ok (enter_epoch n g e)"
proof -
  have "engine_ok ((fence_registrations n e)\<lparr>e_epoch := n, e_authority_generation := g\<rparr>)"
    by (rule engine_ok_authority [OF assms(1) enter_epoch_authority [OF engine_okD(4) [OF assms(1)] assms(2,3)]])
      (simp_all add: fence_registrations_def)
  then show ?thesis by (simp add: enter_epoch_def Let_def fold_epoch_ok)
qed

lemma advance_epoch_ok:
  "engine_ok e \<Longrightarrow> engine_ok (snd (advance_epoch publisher boot session expected attempt e))"
  by (simp add: advance_epoch_def Let_def enter_epoch_ok gen_next_valid split: option.split)

section \<open>What fencing and an epoch do to the sets\<close>

lemma fence_set_frame:
  "without_sets (snd (fence_set publisher sid acc)) = without_sets (snd acc)"
  by (simp add: fence_set_def case_prod_unfold split: option.split)

lemma epoch_set_frame: "without_sets (epoch_set sid e) = without_sets e"
  by (simp add: epoch_set_def split: option.split)

lemma fold_fence_frame: "without_sets (snd (fold (fence_set publisher) sids acc)) = without_sets (snd acc)"
  by (induction sids arbitrary: acc) (simp_all add: fence_set_frame)

lemma fold_epoch_frame: "without_sets (fold epoch_set sids e) = without_sets e"
  by (induction sids arbitrary: e) (simp_all add: epoch_set_frame)

lemma epoch_record_eq:
  assumes "e_limits e' = e_limits e" and "e_epoch e' = e_epoch e"
    and "e_authority_generation e' = e_authority_generation e"
  shows "epoch_record e' = epoch_record e"
  unfolding epoch_record_def assms by (rule refl)

lemma record_of_frame:
  assumes "without_sets e' = without_sets e"
  shows "epoch_record e' = epoch_record e" "fenced_record e' = fenced_record e"
  unfolding epoch_record_def fenced_record_def without_sets_fields(1,2,5) [OF assms] by (rule refl)+

lemma fold_epoch_find:
  assumes "engine_ok e" and "distinct sids"
  shows "om_find (e_sets (fold epoch_set sids e)) sid =
    (if sid \<in> set sids then map_option (epoch_record e) (om_find (e_sets e) sid) else om_find (e_sets e) sid)"
  using assms
proof (induction sids arbitrary: e)
  case (Cons s sids)
  have "om_find (e_sets (epoch_set s e)) = (om_find (e_sets e))(s := map_option (epoch_record e) (om_find (e_sets e) s))"
  proof (cases "om_find (e_sets e) s")
    case None
    then show ?thesis by (simp add: epoch_set_def fun_upd_idem)
  next
    case (Some r)
    have "s_id (epoch_record e r) = s"
      using epoch_record_frame [of r e] stored_set(1) [OF Cons.prems(1) Some]
      by (simp add: set_frame_def clocks_frame_def)
    then show ?thesis using Some by (simp add: epoch_set_def)
  qed
  then show ?case
    using Cons.IH [OF epoch_set_ok [OF Cons.prems(1)], of s] Cons.prems(2)
    by (auto simp: record_of_frame(1) [OF epoch_set_frame])
qed simp

lemma fold_fence_find:
  assumes "engine_ok (snd acc)" and "distinct sids"
  shows "om_find (e_sets (snd (fold (fence_set publisher) sids acc))) sid =
    (if sid \<in> set sids
     then map_option (\<lambda>r. if pv_publisher (s_provenance r) = publisher then fenced_record (snd acc) r else r)
            (om_find (e_sets (snd acc)) sid)
     else om_find (e_sets (snd acc)) sid)"
  using assms
proof (induction sids arbitrary: acc)
  case (Cons s sids)
  let ?f = "\<lambda>r. if pv_publisher (s_provenance r) = publisher then fenced_record (snd acc) r else r"
  have "om_find (e_sets (snd (fence_set publisher s acc))) = (om_find (e_sets (snd acc)))(s := map_option ?f (om_find (e_sets (snd acc)) s))"
  proof (cases "om_find (e_sets (snd acc)) s")
    case None
    then show ?thesis by (simp add: fence_set_def case_prod_unfold fun_upd_idem)
  next
    case (Some r)
    have "s_id (fenced_record (snd acc) r) = s"
      using fenced_record_frame [of r "snd acc"] stored_set(1) [OF Cons.prems(1) Some]
      by (simp add: set_frame_def clocks_frame_def)
    then show ?thesis using Some by (simp add: fence_set_def case_prod_unfold fun_upd_idem)
  qed
  then show ?case
    using Cons.IH [OF fence_set_ok [OF Cons.prems(1), of publisher s]] Cons.prems(2)
    by (auto simp: record_of_frame(2) [OF fence_set_frame] cong: if_cong)
qed simp

text \<open>Both touch every set of the table, and each set on its own.\<close>

lemma enter_epoch_find:
  assumes ok: "engine_ok e" and "gen_valid n" and "gen_valid g"
  shows "om_find (e_sets (enter_epoch n g e)) sid =
    map_option (epoch_record (e\<lparr>e_epoch := n, e_authority_generation := g\<rparr>)) (om_find (e_sets e) sid)"
proof -
  let ?e = "(fence_registrations n e)\<lparr>e_epoch := n, e_authority_generation := g\<rparr>"
  have e: "engine_ok ?e"
    by (rule engine_ok_authority [OF ok enter_epoch_authority [OF engine_okD(4) [OF ok] assms(2,3)]])
      (simp_all add: fence_registrations_def)
  have "epoch_record ?e = epoch_record (e\<lparr>e_epoch := n, e_authority_generation := g\<rparr>)"
    by (rule epoch_record_eq) simp_all
  moreover have "distinct (om_keys (e_sets e))" by (simp add: om_keys_def)
  ultimately show ?thesis
    using fold_epoch_find [OF e, of "om_keys (e_sets e)" sid]
    by (auto simp: enter_epoch_def Let_def set_om_keys)
qed

lemma enter_epoch_frame:
  "e_epoch (enter_epoch n g e) = n" "e_authority_generation (enter_epoch n g e) = g"
  "e_registrations (enter_epoch n g e) = om_empty"
  "e_fences (enter_epoch n g e) = e_fences (fence_registrations n e)"
  "e_limits (enter_epoch n g e) = e_limits e"
  using without_sets_fields [OF fold_epoch_frame [of "om_keys (e_sets e)" "(fence_registrations n e)
      \<lparr>e_epoch := n, e_authority_generation := g\<rparr>"]]
  by (simp_all add: enter_epoch_def Let_def)

end
