(* ===== verification/Fabric_Query.thy ===== *)
theory Fabric_Query
  imports Authority_Ops Diff
begin

text \<open>
  The queries of \<open>src/fabric_query.cpp\<close>: counts and lookups, current and historical snapshots, diffs of
  the retained history, the integrity check and the text renderings. A query reads the state under
  the shared lock, so it is a function of the state. The integrity check is the runtime counterpart of
  \<open>engine_ok\<close>; the last section relates the two.
\<close>

section \<open>Lookups\<close>

definition set_count :: "engine \<Rightarrow> nat" where
  "set_count e = om_size (e_sets e)"

definition total_member_count :: "engine \<Rightarrow> nat" where
  "total_member_count e = e_total_members e"

definition list_sets :: "engine \<Rightarrow> set_id list" where
  "list_sets e = om_keys (e_sets e)"

definition sets_for_path :: "path_id \<Rightarrow> engine \<Rightarrow> set_id list" where
  "sets_for_path path e = (case om_find (e_path_dependents e) path of None \<Rightarrow> [] | Some s \<Rightarrow> om_keys s)"

definition find_set_by_key :: "set_key \<Rightarrow> engine \<Rightarrow> set_id option" where
  "find_set_by_key key e = om_find (e_key_index e) key"

definition set_snapshot_of :: "set_id \<Rightarrow> engine \<Rightarrow> set_snapshot option" where
  "set_snapshot_of sid e = map_option make_snapshot (om_find (e_sets e) sid)"

definition snapshot_by_key :: "set_key \<Rightarrow> engine \<Rightarrow> set_snapshot option" where
  "snapshot_by_key key e =
     (case om_find (e_key_index e) key of None \<Rightarrow> None | Some sid \<Rightarrow> map_option make_snapshot (om_find (e_sets e) sid))"

definition readiness :: "set_id \<Rightarrow> engine \<Rightarrow> route_readiness_value option" where
  "readiness sid e =
     (case om_find (e_sets e) sid of None \<Rightarrow> None | Some r \<Rightarrow> Some (route_readiness (s_lifecycle r) (s_currentness r)))"

definition snapshot_history :: "set_id \<Rightarrow> engine \<Rightarrow> snapshot_id list" where
  "snapshot_history sid e = map ss_snapshot_id (snapshots_of sid e)"

definition historical_snapshot :: "set_id \<Rightarrow> snapshot_id \<Rightarrow> engine \<Rightarrow> set_snapshot option" where
  "historical_snapshot sid i e = List.find (\<lambda>s. ss_snapshot_id s = i) (snapshots_of sid e)"

definition diff_historical :: "set_id \<Rightarrow> snapshot_id \<Rightarrow> snapshot_id \<Rightarrow> engine \<Rightarrow> snapshot_diff option" where
  "diff_historical sid before after e =
     (case (historical_snapshot sid before e, historical_snapshot sid after e) of
        (Some b, Some a) \<Rightarrow> diff_snapshots b a
      | _ \<Rightarrow> None)"

definition diff_last_two :: "set_id \<Rightarrow> engine \<Rightarrow> snapshot_diff option" where
  "diff_last_two sid e =
     (let h = snapshots_of sid e
      in if length h < 2 then None else diff_snapshots (h ! (length h - 2)) (h ! (length h - 1)))"

definition set_history :: "set_id \<Rightarrow> engine \<Rightarrow> history_entry list" where
  "set_history sid e = (case om_find (e_sets e) sid of None \<Rightarrow> [] | Some r \<Rightarrow> s_history r)"

definition set_digests :: "engine \<Rightarrow> digest128 list" where
  "set_digests e = map compute_set_digest (om_values (e_sets e))"

section \<open>Integrity\<close>

record integrity_report =
  ir_consistent :: bool
  ir_problems :: "string list"
  ir_set_count :: nat
  ir_member_count :: nat
  ir_usable_member_count :: nat
  ir_path_index_entries :: nat
  ir_key_index_entries :: nat
  ir_registration_count :: nat
  ir_fence_count :: nat
  ir_retained_attempts :: nat

definition problem_if :: "bool \<Rightarrow> string \<Rightarrow> string list" where
  "problem_if b text = (if b then [text] else [])"

definition member_problems :: "engine \<Rightarrow> set_record \<Rightarrow> path_id \<times> member_record \<Rightarrow> string list" where
  "member_problems e r entry =
     (case entry of (path, m) \<Rightarrow>
        problem_if (\<not> (m_path_id m = path))
          (msg (''set '' @ id_text (s_id r) @ '': member '' @ id_text (m_id m) @ '' is stored under a different path key'')) @
        problem_if (om_find (s_member_index r) (m_id m) \<noteq> Some path)
          (msg (''set '' @ id_text (s_id r) @ '': member identity index does not resolve for '' @ id_text (m_id m))) @
        problem_if (case om_find (e_path_dependents e) path of None \<Rightarrow> True | Some s \<Rightarrow> \<not> om_has s (s_id r))
          (msg (''path index is missing set '' @ id_text (s_id r) @ '' for path '' @ id_text path)))"

definition set_problems :: "engine \<Rightarrow> set_record \<Rightarrow> string list" where
  "set_problems e r =
     problem_if (recompute_usable_members r \<noteq> s_usable r)
       (msg (''set '' @ id_text (s_id r) @ '': usable_member_count is stale ('' @ nat_string (s_usable r) @
             '' recorded, '' @ nat_string (recompute_usable_members r) @ '' actual)'')) @
     problem_if (om_size (s_members r) \<noteq> om_size (s_member_index r))
       (msg (''set '' @ id_text (s_id r) @ '': member table and member index have different sizes'')) @
     problem_if (s_minimum r > max_members_per_set (e_limits e))
       (msg (''set '' @ id_text (s_id r) @ '': minimum_usable_members exceeds max_members_per_set'')) @
     problem_if (\<not> s_published r \<and> s_lifecycle r \<noteq> SL_DECLARED)
       (msg (''set '' @ id_text (s_id r) @ '': impossible lifecycle/publication combination'')) @
     problem_if (s_lifecycle r = SL_RETIRED \<and> s_currentness r = SC_CURRENT)
       (msg (''set '' @ id_text (s_id r) @ '': a retired set must not report live currentness'')) @
     problem_if (om_find (e_key_index e) (s_key r) \<noteq> Some (s_id r))
       (msg (''set '' @ id_text (s_id r) @ '': semantic key index does not resolve to this set'')) @
     concat (map (member_problems e r) (om_entries (s_members r)))"

definition counted_members :: "engine \<Rightarrow> nat" where
  "counted_members e = sum_list (map (\<lambda>r. om_size (s_members r)) (om_values (e_sets e)))"

definition counter_problems :: "engine \<Rightarrow> string list" where
  "counter_problems e =
     problem_if (counted_members e \<noteq> e_total_members e)
       (msg (''total_members counter is '' @ nat_string (e_total_members e) @ '' but '' @
             nat_string (counted_members e) @ '' member records exist''))"

definition path_problems :: "engine \<Rightarrow> path_id \<times> set_id oset \<Rightarrow> string list" where
  "path_problems e entry =
     (case entry of (path, s) \<Rightarrow>
        concat (map (\<lambda>sid. case om_find (e_sets e) sid of
            None \<Rightarrow> [msg (''path index references unknown set '' @ id_text sid)]
          | Some r \<Rightarrow> problem_if (\<not> om_has (s_members r) path)
              (msg (''path index lists path '' @ id_text path @ '' for set '' @ id_text sid @
                    '' which has no such member''))) (om_keys s)))"

definition attempt_problems :: "engine \<Rightarrow> attempt_id \<Rightarrow> string list" where
  "attempt_problems e attempt =
     problem_if (\<not> (\<exists>entry \<in> set (e_attempts e). at_attempt entry = attempt))
       (msg ''attempt index references an evicted attempt record'')"

definition integrity_problems :: "engine \<Rightarrow> string list" where
  "integrity_problems e =
     concat (map (set_problems e) (om_values (e_sets e))) @ counter_problems e @
     concat (map (path_problems e) (om_entries (e_path_dependents e))) @
     concat (map (attempt_problems e) (om_keys (e_attempt_index e)))"

definition check_integrity :: "engine \<Rightarrow> integrity_report" where
  "check_integrity e =
     \<lparr>ir_consistent = (integrity_problems e = []), ir_problems = integrity_problems e,
      ir_set_count = om_size (e_sets e), ir_member_count = counted_members e,
      ir_usable_member_count = sum_list (map s_usable (om_values (e_sets e))),
      ir_path_index_entries = om_size (e_path_dependents e), ir_key_index_entries = om_size (e_key_index e),
      ir_registration_count = om_size (e_registrations e), ir_fence_count = om_size (e_fences e),
      ir_retained_attempts = length (e_attempts e)\<rparr>"

definition integrity_render :: "integrity_report \<Rightarrow> string" where
  "integrity_render p =
     (if ir_consistent p then ''CONSISTENT'' else ''INCONSISTENT'') @ '' sets='' @ nat_string (ir_set_count p) @
     '' members='' @ nat_string (ir_member_count p) @ '' usable='' @ nat_string (ir_usable_member_count p) @
     '' path_index='' @ nat_string (ir_path_index_entries p) @ '' key_index='' @ nat_string (ir_key_index_entries p) @
     '' registrations='' @ nat_string (ir_registration_count p) @ '' fences='' @ nat_string (ir_fence_count p) @
     '' attempts='' @ nat_string (ir_retained_attempts p) @
     concat (map (\<lambda>problem. [CHR 0x0A] @ ''  problem: '' @ problem) (ir_problems p))"

section \<open>The integrity check against the invariant\<close>

lemma problem_if_False [simp]: "problem_if False t = []"
  by (simp add: problem_if_def)

lemma in_om_values: "r \<in> set (om_values m) \<longleftrightarrow> (\<exists>k. om_find m k = Some r)"
  by (force simp: om_values_def om_find_iff)

lemma index_ok_size:
  assumes "index_ok field (om_find t) (om_find x)"
  shows "om_size t = om_size x"
proof -
  let ?f = "\<lambda>k. field (the (om_find t k))"
  have "inj_on ?f (dom (om_find t))"
    using index_ok_inj [OF assms] by (intro inj_onI) fastforce
  moreover have "?f ` dom (om_find t) = dom (om_find x)"
    using index_ok_tblD [OF assms] index_ok_idxD [OF assms] by (force simp: image_iff)
  ultimately have "card (dom (om_find t)) = card (dom (om_find x))"
    by (metis card_image)
  then show ?thesis by (simp add: card_dom_om_find)
qed

lemma om_values_keys: "om_values m = map (\<lambda>k. the (om_find m k)) (om_keys m)"
proof -
  have "snd x = the (om_find m (fst x))" if "x \<in> set (om_entries m)" for x
    using that om_find_iff [of m "fst x" "snd x"] by simp
  then show ?thesis by (simp add: om_values_def om_keys_def)
qed

lemma counted_members_relation: "counted_members e = relation_count e"
proof -
  have "distinct (om_keys (e_sets e))" by (simp add: om_keys_def)
  then show ?thesis
    by (simp add: counted_members_def relation_count_def om_values_keys comp_def sum_list_distinct_conv_sum_set
        set_om_keys_dom)
qed

lemma set_problems_none:
  assumes ok: "engine_ok e" and find: "om_find (e_sets e) sid = Some r"
  shows "set_problems e r = []"
proof -
  note stored = stored_set [OF ok find]
  note core = set_coreD [OF stored(3)]
  have key: "om_find (e_key_index e) (s_key r) = Some (s_id r)"
    using engine_okD(2) [OF ok] find stored(1) by (simp add: keys_ok_def index_ok_def)
  have size: "om_size (s_members r) = om_size (s_member_index r)"
    using core(1) by (intro index_ok_size [of m_id]) (simp add: tables_ok_def)
  have retired: "\<not> (s_lifecycle r = SL_RETIRED \<and> s_currentness r = SC_CURRENT)"
    using core(4) by (auto simp: terminal_ok_def terminal_lifecycle_def)
  have "member_problems e r (p, m) = []" if "(p, m) \<in> set (om_entries (s_members r))" for p m
  proof -
    have m: "om_find (s_members r) p = Some m" using that by (simp add: om_find_iff)
    have "om_has (dependents_of p e) sid"
      using engine_okD(3) [OF ok] find m by (auto simp: dependents_ok_def om_has_def)
    then show ?thesis
      using tables_okD(1,2) [OF core(1) m] stored(1)
      by (auto simp: member_problems_def dependents_of_def split: option.splits)
  qed
  then have "concat (map (member_problems e r) (om_entries (s_members r))) = []" by auto
  then show ?thesis
    using core(3,5) key size retired by (simp add: set_problems_def derived_ok_def s_published_def problem_if_def)
qed

lemma path_problems_none:
  assumes ok: "engine_ok e" and s: "(p, s) \<in> set (om_entries (e_path_dependents e))"
  shows "path_problems e (p, s) = []"
proof -
  have "\<exists>r. om_find (e_sets e) sid = Some r \<and> om_has (s_members r) p" if "sid \<in> set (om_keys s)" for sid
  proof -
    have "om_find (e_path_dependents e) p = Some s" using s by (simp add: om_find_iff)
    then have "om_has (dependents_of p e) sid" using that by (simp add: dependents_of_def set_om_keys_has)
    then show ?thesis using engine_okD(3) [OF ok] by (simp add: dependents_ok_def)
  qed
  then show ?thesis by (fastforce simp: path_problems_def)
qed

lemma attempt_problems_none:
  assumes ok: "engine_ok e" and a: "a \<in> set (om_keys (e_attempt_index e))"
  shows "attempt_problems e a = []"
  using engine_okD(5) [OF ok] a
  by (auto simp: attempts_ok_def log_covers_def attempt_problems_def problem_if_def set_om_keys)

text \<open>In a good state the only problem the check can report is the drift of the member counter.\<close>

lemma integrity_only_counter:
  assumes "engine_ok e"
  shows "integrity_problems e = counter_problems e"
proof -
  have "concat (map (set_problems e) (om_values (e_sets e))) = []"
    using set_problems_none [OF assms] by (auto simp: in_om_values)
  moreover have "concat (map (path_problems e) (om_entries (e_path_dependents e))) = []"
    using path_problems_none [OF assms] by auto
  moreover have "concat (map (attempt_problems e) (om_keys (e_attempt_index e))) = []"
    using attempt_problems_none [OF assms] by auto
  ultimately show ?thesis by (simp only: integrity_problems_def append_Nil append_Nil2)
qed

lemma consistent_iff_counter:
  assumes "engine_ok e"
  shows "ir_consistent (check_integrity e) \<longleftrightarrow> e_total_members e = relation_count e"
  using integrity_only_counter [OF assms]
  by (auto simp: check_integrity_def counter_problems_def problem_if_def counted_members_relation)

end
