(* ===== verification/Fabric_System.thy ===== *)
theory Fabric_System
  imports Fabric_Query
begin

text \<open>
  The engine as a transition system. An event is one critical section of the engine with the inputs
  it gets from outside: the request of the caller and, for an operation that looked Path Authority up
  before it took the lock, whatever views that lookup produced. Views are arbitrary, so every
  interleaving of concurrent callers with each other and with an external Path Authority source is
  a sequence of events.
\<close>

section \<open>Event systems\<close>

text \<open>States, labelled steps, and what holds along runs, for any system with these parts.\<close>

locale event_system =
  fixes start :: "'s \<Rightarrow> bool" and step :: "'s \<Rightarrow> 'l \<Rightarrow> 's \<Rightarrow> bool"
begin

inductive run :: "'s \<Rightarrow> 'l list \<Rightarrow> 's \<Rightarrow> bool" where
  run_nil: "run s [] s"
| run_cons: "step s l s' \<Longrightarrow> run s' ls s'' \<Longrightarrow> run s (l # ls) s''"

inductive_cases run_nilE: "run s [] s'"
inductive_cases run_consE: "run s (l # ls) s'"

definition reach :: "'s \<Rightarrow> bool" where
  "reach s \<longleftrightarrow> (\<exists>s0 ls. start s0 \<and> run s0 ls s)"

lemma run_append: "run s ls s' \<Longrightarrow> run s' ls' s'' \<Longrightarrow> run s (ls @ ls') s''"
  by (induction rule: run.induct) (auto intro: run_cons)

lemma reach_start: "start s \<Longrightarrow> reach s"
  unfolding reach_def using run_nil by blast

lemma reach_run: "reach s \<Longrightarrow> run s ls s' \<Longrightarrow> reach s'"
  unfolding reach_def using run_append by blast

lemma reach_step: "reach s \<Longrightarrow> step s l s' \<Longrightarrow> reach s'"
  using reach_run run_cons run_nil by blast

end

locale guarded_system = event_system start step
  for start :: "'s \<Rightarrow> bool" and step :: "'s \<Rightarrow> 'l \<Rightarrow> 's \<Rightarrow> bool" +
  fixes inv :: "'s \<Rightarrow> bool"
  assumes start_inv: "start s \<Longrightarrow> inv s"
    and step_inv: "inv s \<Longrightarrow> step s l s' \<Longrightarrow> inv s'"
begin

lemma run_inv: "run s ls s' \<Longrightarrow> inv s \<Longrightarrow> inv s'"
  by (induction rule: run.induct) (auto intro: step_inv)

lemma reach_inv: "reach s \<Longrightarrow> inv s"
  unfolding reach_def using run_inv start_inv by blast

end

locale monotone_system = guarded_system start step inv
  for start :: "'s \<Rightarrow> bool" and step :: "'s \<Rightarrow> 'l \<Rightarrow> 's \<Rightarrow> bool" and inv :: "'s \<Rightarrow> bool" +
  fixes leq :: "'s \<Rightarrow> 's \<Rightarrow> bool"
  assumes leq_refl: "leq s s"
    and leq_trans: "leq s s' \<Longrightarrow> leq s' s'' \<Longrightarrow> leq s s''"
    and step_leq: "inv s \<Longrightarrow> step s l s' \<Longrightarrow> leq s s'"
begin

lemma run_leq: "run s ls s' \<Longrightarrow> inv s \<Longrightarrow> leq s s'"
  by (induction rule: run.induct) (auto intro: leq_refl leq_trans step_leq step_inv)

lemma reach_run_leq: "reach s \<Longrightarrow> run s ls s' \<Longrightarrow> leq s s'"
  using run_leq reach_inv by blast

end

section \<open>The events of the engine\<close>

text \<open>
  All operations that change the state but one: \<open>load_store\<close>, which replaces the state by the content of a
  file, is added in \<open>Fabric_Life\<close>. \<open>save_store\<close> and the queries do not change the state.
\<close>

datatype (plugins only: code size) fabric_event =
    Ev_bind bool
  | Ev_declare_path mutation_context path_authority_view
  | Ev_create mutation_context set_key set_options
  | Ev_publish mutation_context set_id
  | Ev_minimum mutation_context set_id nat
  | Ev_policy mutation_context set_id bool
  | Ev_set_admin mutation_context set_id bool
  | Ev_withdraw_set mutation_context set_id string
  | Ev_complete_withdrawal mutation_context set_id
  | Ev_revoke mutation_context set_id revocation_reason string
  | Ev_retire mutation_context set_id string
  | Ev_supersede mutation_context set_id set_id
  | Ev_add_members mutation_context set_id "member_request list" string bool "path_authority_view option list"
  | Ev_reconcile path_id "path_authority_view option" "path_authority_view option"
  | Ev_remove_member mutation_context set_id member_id string
  | Ev_withdraw_member mutation_context set_id member_id string
  | Ev_replace_member mutation_context set_id member_id path_id path_authority_generation string
      "path_authority_view option"
  | Ev_member_admin mutation_context set_id member_id bool "path_authority_view option"
  | Ev_revalidate_set mutation_context set_id view_table
  | Ev_revalidate_member mutation_context set_id member_id "path_authority_view option"
  | Ev_begin mutation_context set_id member_id revalidation_attempt_id
  | Ev_complete mutation_context revalidation_ticket "path_authority_view option"
  | Ev_abandon revalidation_ticket
  | Ev_apply_path mutation_context path_authority_view
  | Ev_register publisher_id worker_boot_id authority_scope session_id
  | Ev_unregister publisher_id worker_boot_id
  | Ev_fence publisher_id worker_boot_id string
  | Ev_advance_epoch publisher_id worker_boot_id session_id coordinator_epoch attempt_id

primrec perform :: "fabric_event \<Rightarrow> engine \<Rightarrow> engine" where
  "perform (Ev_bind b) e = bind_path_authority b e"
| "perform (Ev_declare_path ctx view) e = snd (declare_path_authority ctx view e)"
| "perform (Ev_create ctx key options) e = snd (create_set ctx key options e)"
| "perform (Ev_publish ctx sid) e = snd (publish_set ctx sid e)"
| "perform (Ev_minimum ctx sid n) e = snd (set_minimum_usable_members ctx sid n e)"
| "perform (Ev_policy ctx sid b) e = snd (set_conditional_authority_policy ctx sid b e)"
| "perform (Ev_set_admin ctx sid b) e = snd (set_admin_enabled ctx sid b e)"
| "perform (Ev_withdraw_set ctx sid reason) e = snd (withdraw_set ctx sid reason e)"
| "perform (Ev_complete_withdrawal ctx sid) e = snd (complete_withdrawal ctx sid e)"
| "perform (Ev_revoke ctx sid reason detail) e = snd (revoke_set ctx sid reason detail e)"
| "perform (Ev_retire ctx sid reason) e = snd (retire_set ctx sid reason e)"
| "perform (Ev_supersede ctx p q) e = snd (supersede_set ctx p q e)"
| "perform (Ev_add_members ctx sid requests operation bulk views) e =
     snd (fst (add_members_locked ctx sid requests operation bulk views e))"
| "perform (Ev_reconcile path used observed) e = reconcile_path path used observed e"
| "perform (Ev_remove_member ctx sid mid reason) e = snd (remove_member ctx sid mid reason e)"
| "perform (Ev_withdraw_member ctx sid mid reason) e = snd (withdraw_member ctx sid mid reason e)"
| "perform (Ev_replace_member ctx sid mid path g reason view) e =
     snd (replace_member_locked ctx sid mid path g reason view e)"
| "perform (Ev_member_admin ctx sid mid b view) e = snd (set_member_admin_enabled_locked ctx sid mid b view e)"
| "perform (Ev_revalidate_set ctx sid views) e = snd (fst (revalidate_set_locked ctx sid views e))"
| "perform (Ev_revalidate_member ctx sid mid view) e = snd (fst (revalidate_member_locked ctx sid mid view e))"
| "perform (Ev_begin ctx sid mid attempt) e = snd (begin_member_revalidation ctx sid mid attempt e)"
| "perform (Ev_complete ctx ticket current) e = snd (complete_member_revalidation ctx ticket current e)"
| "perform (Ev_abandon ticket) e = snd (abandon_member_revalidation ticket e)"
| "perform (Ev_apply_path ctx view) e = snd (apply_path_authority ctx view e)"
| "perform (Ev_register p b scope session) e = snd (register_publisher p b scope session e)"
| "perform (Ev_unregister p b) e = snd (unregister_publisher p b e)"
| "perform (Ev_fence p b cause) e = snd (fence_worker p b cause e)"
| "perform (Ev_advance_epoch p b session expected attempt) e = snd (advance_epoch p b session expected attempt e)"

text \<open>
  What an event needs: a view for each request of a batch, and identities left to draw. The factory
  counts with 64 bits; a state in which it is exhausted has drawn \<open>2^64 - 1\<close> identities.
\<close>

definition event_enabled :: "fabric_event \<Rightarrow> engine \<Rightarrow> bool" where
  "event_enabled ev e =
     (case ev of
        Ev_create _ _ _ \<Rightarrow> counter_room 1 e
      | Ev_add_members _ _ requests _ _ views \<Rightarrow> length views = length requests \<and> counter_room (length requests) e
      | Ev_replace_member _ _ _ _ _ _ _ \<Rightarrow> counter_room 1 e
      | _ \<Rightarrow> True)"

inductive fabric_step :: "engine \<Rightarrow> fabric_event \<Rightarrow> engine \<Rightarrow> bool" where
  perform_event: "event_enabled ev e \<Longrightarrow> fabric_step e ev (perform ev e)"

inductive_cases fabric_stepE: "fabric_step e ev e'"
inductive_simps fabric_step_iff: "fabric_step e ev e'"

text \<open>The start states: any nonce of the identity factory that its character set allows.\<close>

definition fabric_start :: "fabric_config \<Rightarrow> engine \<Rightarrow> bool" where
  "fabric_start config e \<longleftrightarrow> (\<exists>nonce. factory_ok \<lparr>f_prefix = ''mpf'', f_nonce = nonce, f_counter = 0\<rparr> \<and>
     e = engine_init nonce config)"

section \<open>The invariant holds in every reachable state\<close>

lemma om_find_empty_fun: "om_find om_empty = (\<lambda>_. None)"
  by (rule ext) simp

lemma engine_init_ok:
  assumes "factory_ok \<lparr>f_prefix = ''mpf'', f_nonce = nonce, f_counter = 0\<rparr>"
  shows "engine_ok (engine_init nonce config)"
  using assms
  by (intro engine_okI)
    (simp_all add: engine_init_def sets_ok_def keys_ok_def dependents_ok_def dependents_of_def authority_ok_def
      attempts_ok_def log_covers_def snapshots_ok_def ids_ok_def ids_below_def member_ids_def counts_ok_def
      relation_count_def om_find_empty_fun dir_ok_def)

lemma counter_room_1: "counter_room 1 e \<Longrightarrow> f_counter (e_ids e) \<noteq> u64_max"
  using counter_room_Suc(1) [of 0 e] by simp

lemma bind_path_authority_ok: "engine_ok e \<Longrightarrow> engine_ok (bind_path_authority b e)"
  by (rule engine_ok_logs [of e]) (simp_all add: bind_path_authority_def engine_ok_def attempts_ok_def snapshots_ok_def)

lemma perform_ok: "engine_ok e \<Longrightarrow> event_enabled ev e \<Longrightarrow> engine_ok (perform ev e)"
  using add_members_locked_ok [where n = 0]
  by (cases ev)
    (simp_all add: event_enabled_def counter_room_1 bind_path_authority_ok declare_path_authority_ok create_set_ok
      publish_set_ok set_minimum_usable_members_ok set_conditional_authority_policy_ok set_admin_enabled_ok
      withdraw_set_ok complete_withdrawal_ok revoke_set_ok retire_set_ok supersede_set_ok reconcile_path_ok
      remove_member_ok withdraw_member_ok replace_member_locked_ok set_member_admin_enabled_locked_ok
      revalidate_set_locked_ok revalidate_member_locked_ok begin_member_revalidation_ok
      complete_member_revalidation_ok abandon_member_revalidation_ok apply_path_authority_ok
      register_publisher_ok unregister_publisher_ok fence_worker_ok advance_epoch_ok)

end
