(* ===== verification/Engine_Order.thy ===== *)
theory Engine_Order
  imports Fabric_System
begin

text \<open>
  What never goes back. \<open>engine_forward\<close> is a preorder on engine states: limits stay, the epoch, the
  authority generation and the fences only grow, and every set keeps its identity and its key while its
  generations and its watermark grow and its lifecycle does not leave the terminal states. Every
  operation moves along it, in every state that satisfies the invariant.
\<close>

section \<open>The orders\<close>

definition lifecycle_forward :: "set_lifecycle \<Rightarrow> set_lifecycle \<Rightarrow> bool" where
  "lifecycle_forward l l' \<longleftrightarrow> (l \<noteq> SL_DECLARED \<longrightarrow> l' \<noteq> SL_DECLARED) \<and>
     (terminal_lifecycle l \<longrightarrow> terminal_lifecycle l') \<and> (l = SL_RETIRED \<longrightarrow> l' = SL_RETIRED)"

definition record_forward :: "set_record \<Rightarrow> set_record \<Rightarrow> bool" where
  "record_forward r r' \<longleftrightarrow> clocks_frame r r' \<and> lifecycle_forward (s_lifecycle r) (s_lifecycle r')"

definition sets_forward :: "(set_id, set_record) omap \<Rightarrow> (set_id, set_record) omap \<Rightarrow> bool" where
  "sets_forward t t' \<longleftrightarrow> (\<forall>sid r. om_find t sid = Some r \<longrightarrow> (\<exists>r'. om_find t' sid = Some r' \<and> record_forward r r'))"

definition engine_forward :: "engine \<Rightarrow> engine \<Rightarrow> bool" where
  "engine_forward e e' \<longleftrightarrow> e_limits e' = e_limits e \<and> e_epoch e \<le> e_epoch e' \<and>
     e_authority_generation e \<le> e_authority_generation e' \<and>
     (\<forall>k f. om_find (e_fences e) k = Some f \<longrightarrow> om_find (e_fences e') k = Some f) \<and>
     sets_forward (e_sets e) (e_sets e')"

lemma lifecycle_forward_refl [simp]: "lifecycle_forward l l"
  by (simp add: lifecycle_forward_def)

lemma lifecycle_forward_trans: "lifecycle_forward a b \<Longrightarrow> lifecycle_forward b c \<Longrightarrow> lifecycle_forward a c"
  by (auto simp: lifecycle_forward_def)

lemma record_forward_refl [simp]: "record_forward r r"
  by (simp add: record_forward_def)

lemma record_forward_trans: "record_forward a b \<Longrightarrow> record_forward b c \<Longrightarrow> record_forward a c"
  by (auto simp: record_forward_def intro: clocks_frame_trans lifecycle_forward_trans)

lemma sets_forward_refl [simp]: "sets_forward t t"
  unfolding sets_forward_def using record_forward_refl by blast

lemma sets_forward_trans: "sets_forward a b \<Longrightarrow> sets_forward b c \<Longrightarrow> sets_forward a c"
  unfolding sets_forward_def using record_forward_trans by blast

lemma engine_forward_refl [simp]: "engine_forward e e"
  by (simp add: engine_forward_def)

lemma engine_forward_trans: "engine_forward a b \<Longrightarrow> engine_forward b c \<Longrightarrow> engine_forward a c"
  by (auto simp: engine_forward_def intro: sets_forward_trans)

lemma engine_forward_same:
  "e_limits e' = e_limits e \<Longrightarrow> e_epoch e' = e_epoch e \<Longrightarrow> e_authority_generation e' = e_authority_generation e \<Longrightarrow>
   e_fences e' = e_fences e \<Longrightarrow> e_sets e' = e_sets e \<Longrightarrow> engine_forward e e'"
  by (simp add: engine_forward_def)

section \<open>Steps on a record\<close>

lemma lifecycle_forward_recompute: "lifecycle_forward l (s_lifecycle r) \<Longrightarrow> lifecycle_forward l (s_lifecycle (recompute r))"
proof -
  have "lifecycle_forward (s_lifecycle r) (s_lifecycle (recompute r))"
  proof (cases "derived_lifecycle (s_lifecycle r)")
    case True
    then have "derived_lifecycle (s_lifecycle (recompute r))"
      by (simp add: recompute_lifecycle derive_published_derived)
    with True show ?thesis by (auto simp: lifecycle_forward_def derived_lifecycle_def terminal_lifecycle_def)
  next
    case False
    then show ?thesis by (simp add: recompute_lifecycle)
  qed
  then show "lifecycle_forward l (s_lifecycle r) \<Longrightarrow> lifecycle_forward l (s_lifecycle (recompute r))"
    by (rule lifecycle_forward_trans [rotated])
qed

lemma set_transition_forward:
  "terminal_lifecycle l \<Longrightarrow> set_transition l ev \<notin>
     {SA_BECOME_PUBLISHED, SA_BECOME_ADMIN_DISABLED, SA_BECOME_WITHDRAWING}"
  "l = SL_RETIRED \<Longrightarrow> set_transition l ev \<notin> {SA_BECOME_WITHDRAWN, SA_BECOME_SUPERSEDED, SA_BECOME_REVOKED}"
  by (cases l; cases ev; simp add: set_table_defs terminal_lifecycle_def)+

lemma apply_transition_forward:
  assumes "apply_transition r ev = Inr r'"
  shows "lifecycle_forward (s_lifecycle r) (s_lifecycle r')"
proof (cases "set_transition (s_lifecycle r) ev")
  case SA_RECOMPUTE
  then show ?thesis using assms lifecycle_forward_recompute [of "s_lifecycle r" r] by (simp add: apply_transition_def)
next
  case SA_BECOME_PUBLISHED
  then have "\<not> terminal_lifecycle (s_lifecycle r)" using set_transition_forward(1) by fastforce
  moreover have "derived_lifecycle (s_lifecycle r')"
    using assms SA_BECOME_PUBLISHED by (auto simp: apply_transition_def Let_def derive_published_derived)
  ultimately show ?thesis by (auto simp: lifecycle_forward_def derived_lifecycle_def terminal_lifecycle_def)
qed (use assms set_transition_forward [of "s_lifecycle r" ev] in
    \<open>auto simp: apply_transition_def lifecycle_forward_def terminal_lifecycle_def\<close>)

lemma bump_set_watermark_lifecycle [simp]: "s_lifecycle (refresh_usable (bump_set_watermark r)) = s_lifecycle r"
  by simp

lemma apply_member_consequences_lifecycle [simp]:
  "s_lifecycle (apply_member_consequences lim ep l l' ctx r) = s_lifecycle r"
  by (auto simp: apply_member_consequences_def split: option.split)

lemma reevaluate_forward:
  "lifecycle_forward l (s_lifecycle r) \<Longrightarrow> lifecycle_forward l (s_lifecycle (reevaluate_members_from_observations r))"
  unfolding reevaluate_members_from_observations_def by (rule lifecycle_forward_recompute) simp

lemma record_forward_frame: "set_frame r r' \<Longrightarrow> lifecycle_forward (s_lifecycle r) (s_lifecycle r') \<Longrightarrow> record_forward r r'"
  by (simp add: record_forward_def set_frame_def)

lemma record_forward_upd [simp]:
  "record_forward r (r'\<lparr>s_minimum := mi\<rparr>) = record_forward r r'"
  "record_forward r (r'\<lparr>s_admin_enabled := ad\<rparr>) = record_forward r r'"
  "record_forward r (r'\<lparr>s_conditional := co\<rparr>) = record_forward r r'"
  "record_forward r (r'\<lparr>s_withdrawal_reason := wr\<rparr>) = record_forward r r'"
  "record_forward r (r'\<lparr>s_revocation := rv\<rparr>) = record_forward r r'"
  "record_forward r (r'\<lparr>s_superseded_by := sb\<rparr>) = record_forward r r'"
  "record_forward r (r'\<lparr>s_supersedes := sp\<rparr>) = record_forward r r'"
  "record_forward r (r'\<lparr>s_currentness := cu\<rparr>) = record_forward r r'"
  "record_forward r (r'\<lparr>s_authority_generation := ag\<rparr>) = record_forward r r'"
  "record_forward r (r'\<lparr>s_governing_epoch := ge\<rparr>) = record_forward r r'"
  "record_forward r (r'\<lparr>s_provenance := pv\<rparr>) = record_forward r r'"
  "record_forward r (r'\<lparr>s_members := me\<rparr>) = record_forward r r'"
  "record_forward r (r'\<lparr>s_member_index := mx\<rparr>) = record_forward r r'"
  "record_forward r (install_member p m r') = record_forward r r'"
  "record_forward r (append_history li ep ev ca cx mb pa su r') = record_forward r r'"
  by (simp_all add: record_forward_def clocks_frame_def)

lemma record_forward_steps:
  "record_forward r r' \<Longrightarrow> record_forward r (recompute r')"
  "record_forward r r' \<Longrightarrow> record_forward r (apply_member_consequences li ep lf lt cx r')"
  "record_forward r r' \<Longrightarrow> record_forward r (bump_set_watermark r')"
  "record_forward r r' \<Longrightarrow> record_forward r (bump_set_watermark_only r')"
  "record_forward r r' \<Longrightarrow> record_forward r (reevaluate_members_from_observations r')"
  "record_forward r r' \<Longrightarrow> record_forward r (r'\<lparr>s_generation := gen_advance (s_generation r')\<rparr>)"
  by (erule record_forward_trans;
      auto intro!: record_forward_frame lifecycle_forward_recompute reevaluate_forward)+

lemma transition_forward: "apply_transition r ev = Inr r' \<Longrightarrow> record_forward r r'"
  by (rule record_forward_frame [OF apply_transition_frame apply_transition_forward])

section \<open>Steps on the engine\<close>

text \<open>
  A record written back: \<open>e'\<close> is the engine after changes to components that the order does not see.
\<close>

definition same_order :: "engine \<Rightarrow> engine \<Rightarrow> bool" where
  "same_order e e' \<longleftrightarrow> e_limits e' = e_limits e \<and> e_epoch e' = e_epoch e \<and>
     e_authority_generation e' = e_authority_generation e \<and> e_fences e' = e_fences e \<and> e_sets e' = e_sets e"

lemma same_order_simps [simp]:
  "same_order e e" "same_order e (index_path s p e') = same_order e e'"
  "same_order e (unindex_path s p e') = same_order e e'"
  "same_order e (e'\<lparr>e_total_members := t\<rparr>) = same_order e e'" "same_order e (e'\<lparr>e_ids := i\<rparr>) = same_order e e'"
  by (simp_all add: same_order_def)

lemma sets_forward_put:
  assumes "om_find t sid = Some r" and "record_forward r r'"
  shows "sets_forward t (om_put sid r' t)"
  using assms record_forward_refl by (auto simp: sets_forward_def)

lemma put_forward:
  assumes ok: "engine_ok e" and find: "om_find (e_sets e) sid = Some r" and fwd: "record_forward r r'" and same: "same_order e e'"
  shows "engine_forward e (put_set r' e')"
proof -
  have "s_id r' = sid" using fwd stored_set(1) [OF ok find] by (simp add: record_forward_def clocks_frame_def)
  then show ?thesis
    using sets_forward_put [OF find fwd] same by (simp add: engine_forward_def same_order_def put_set_def)
qed

lemma commit_advanced_record:
  "\<exists>r'. om_find (e_sets (snd (commit_advanced r ctx operation flds spec outcome e))) (s_id r) = Some r' \<and> record_forward r r'"
proof -
  let ?r1 = "r\<lparr>s_provenance := make_provenance ctx (cs_cause spec) r\<rparr>"
  obtain r2 e2 where pr: "prune_archive ?r1 e = (r2, e2)" by fastforce
  note f = without_members_fields [OF prune_archive_without(1) [OF pr]]
  have "record_forward r r2" using f by (simp add: record_forward_def clocks_frame_def)
  then show ?thesis using pr f by (simp add: commit_advanced_def Let_def)
qed

lemma commit_record:
  "\<exists>r'. om_find (e_sets (snd (commit r ctx operation flds spec outcome e))) (s_id r) = Some r' \<and> record_forward r r'"
proof (cases "if cs_advance_set_generation spec then advance_set_generation r else Some r")
  case None
  then show ?thesis by (simp add: commit_def)
next
  case (Some r1)
  then have r1: "s_id r1 = s_id r" "record_forward r r1"
    by (auto simp: advance_set_generation_Some record_forward_def clocks_frame_def dest: gen_next_gt split: if_splits)
  show ?thesis
  proof (cases "if cs_advance_membership_generation spec then advance_membership_generation r1 else Some r1")
    case None
    with Some r1 show ?thesis by (simp add: commit_def)
  next
    case 2: (Some r2)
    then have r2: "s_id r2 = s_id r" "record_forward r1 r2"
      using r1 by (auto simp: advance_membership_generation_Some record_forward_def clocks_frame_def dest: gen_next_gt
          split: if_splits)
    with commit_advanced_record [of r2 ctx operation flds spec outcome e] Some 2 r1 show ?thesis
      by (auto simp: commit_def intro: record_forward_trans)
  qed
qed

lemma commit_forward:
  assumes ok: "engine_ok e" and find: "om_find (e_sets e) sid = Some r" and fwd: "record_forward r r'" and same: "same_order e e'"
  shows "engine_forward e (snd (commit r' ctx operation flds spec outcome e'))" (is "engine_forward e ?e")
proof -
  have id: "s_id r' = sid" using fwd stored_set(1) [OF ok find] by (simp add: record_forward_def clocks_frame_def)
  obtain r'' where r'': "om_find (e_sets ?e) sid = Some r''" "record_forward r r''"
    using commit_record [of r' ctx operation flds spec outcome e'] fwd id record_forward_trans by blast
  have "\<exists>q'. om_find (e_sets ?e) s = Some q' \<and> record_forward q q'" if "om_find (e_sets e) s = Some q" for s q
  proof (cases "s = sid")
    case True
    then show ?thesis using r'' that find by simp
  next
    case False
    then show ?thesis
      using commit_other [of s r' ctx operation flds spec outcome e'] that id same by (simp add: same_order_def)
  qed
  then show ?thesis using same by (simp add: engine_forward_def same_order_def sets_forward_def)
qed

lemma answer_unchanged_forward:
  assumes "engine_ok e" and "om_find (e_sets e) sid = Some r" and "record_forward r r'" and "same_order e e'"
  shows "engine_forward e (snd (answer_unchanged r' ctx operation flds outcome e'))"
proof -
  have "engine_forward (put_set r' e') (snd (answer_unchanged r' ctx operation flds outcome e'))"
    by (rule engine_forward_same) (simp_all add: answer_unchanged_def Let_def)
  then show ?thesis using put_forward [OF assms] engine_forward_trans by blast
qed

lemma record_attempt_forward: "engine_forward e e' \<Longrightarrow> engine_forward e (record_attempt ctx operation flds outcome e')"
  by (erule engine_forward_trans) (rule engine_forward_same; simp)

lemma capture_forward: "engine_forward e e' \<Longrightarrow> engine_forward e (capture_snapshot r e')"
  by (erule engine_forward_trans) (rule engine_forward_same; simp)

lemmas forward_intros = commit_forward answer_unchanged_forward put_forward record_forward_steps

section \<open>The set operations\<close>

lemma publish_set_forward: "engine_ok e \<Longrightarrow> engine_forward e (snd (publish_set ctx sid e))"
  by (auto simp: publish_set_def Let_def dest!: admit_InrD intro!: forward_intros intro: transition_forward split: sum.splits)

lemma set_minimum_forward: "engine_ok e \<Longrightarrow> engine_forward e (snd (set_minimum_usable_members ctx sid n e))"
  by (auto simp: set_minimum_usable_members_def Let_def dest!: admit_InrD intro!: forward_intros intro: transition_forward split: sum.splits)

lemma set_policy_forward: "engine_ok e \<Longrightarrow> engine_forward e (snd (set_conditional_authority_policy ctx sid b e))"
  by (auto simp: set_conditional_authority_policy_def Let_def dest!: admit_InrD intro!: forward_intros intro: transition_forward split: sum.splits)

lemma complete_withdrawal_forward: "engine_ok e \<Longrightarrow> engine_forward e (snd (complete_withdrawal ctx sid e))"
  by (auto simp: complete_withdrawal_def Let_def dest!: admit_InrD intro!: forward_intros intro: transition_forward split: sum.splits)

lemma retire_set_forward: "engine_ok e \<Longrightarrow> engine_forward e (snd (retire_set ctx sid reason e))"
  by (auto simp: retire_set_def Let_def dest!: admit_InrD intro!: forward_intros intro: transition_forward split: sum.splits)

lemma withdraw_set_forward: "engine_ok e \<Longrightarrow> engine_forward e (snd (withdraw_set ctx sid reason e))"
  by (auto simp: withdraw_set_def Let_def dest!: admit_InrD intro!: forward_intros intro: transition_forward split: sum.splits)

lemma set_admin_enabled_forward:
  assumes ok: "engine_ok e"
  shows "engine_forward e (snd (set_admin_enabled ctx sid b e))"
proof (cases "admit ctx sid ''set_admin_enabled'' [''set_admin_enabled'', id_text sid, bool_field b] e")
  case (Inl o1)
  then show ?thesis by (simp add: set_admin_enabled_def Let_def)
next
  case (Inr r)
  note find = admit_InrD [OF Inr, THEN conjunct1]
  have "engine_forward e (put_set r1 e)" "engine_forward e (snd (answer_unchanged r1 ctx f flds oc e))"
    "engine_forward e (snd (commit (recompute (r1\<lparr>s_admin_enabled := x\<rparr>)) ctx f flds spec oc e))"
    if "apply_transition r ev = Inr r1" for r1 ev x f flds spec oc
    using transition_forward [OF that] by (auto intro!: forward_intros ok find)
  then show ?thesis using Inr by (simp add: set_admin_enabled_def Let_def split: sum.split)
qed

lemma revoke_set_forward:
  assumes ok: "engine_ok e"
  shows "engine_forward e (snd (revoke_set ctx sid reason detail e))"
proof (cases "admit ctx sid ''revoke_set'' [''revoke_set'', id_text sid, revocation_reason_text reason, detail] e")
  case (Inl o1)
  then show ?thesis by (simp add: revoke_set_def Let_def)
next
  case (Inr r)
  note find = admit_InrD [OF Inr, THEN conjunct1]
  have change: "engine_forward e (snd (commit (apply_member_consequences (e_limits e) (e_epoch e) l (s_lifecycle r1)
      (Some ctx) (r1\<lparr>s_revocation := rv\<rparr>)) ctx f flds spec oc e))"
    if "apply_transition r SE_REVOKE = Inr r1" for r1 rv l f flds spec oc
    by (intro commit_forward [OF ok find] record_forward_steps) (simp_all add: transition_forward [OF that])
  have same: "engine_forward e (snd (answer_unchanged r ctx f flds oc e))" for f flds oc
    by (rule answer_unchanged_forward [OF ok find]) simp_all
  show ?thesis
    using Inr by (simp add: revoke_set_def Let_def same change split: sum.split option.split)
qed

lemma create_set_forward:
  assumes "engine_ok e" and "counter_room 1 e"
  shows "engine_forward e (snd (create_set ctx key options e))"
proof -
  obtain sid ids where n: "next_set_id (e_ids e) = (sid, ids)" by fastforce
  have fresh: "om_find (e_sets e) sid = None"
    using next_set_id_fresh(1) [OF assms(1) counter_room_1 [OF assms(2)] n] .
  have "engine_forward e (put_set r e')" if "s_id r = sid" "same_order e e'" for r e'
    using fresh that record_forward_refl by (auto simp: engine_forward_def same_order_def sets_forward_def put_set_def)
  note put = this
  show ?thesis
    using n by (auto simp: create_set_def Let_def new_set_record_def same_order_def
        intro!: record_attempt_forward capture_forward put split: option.splits)
qed

lemma supersede_records_forward:
  assumes ok: "engine_ok e" and old: "om_find (e_sets e) p = Some old" and new: "om_find (e_sets e) q = Some new"
    and ne: "p \<noteq> q"
  shows "engine_forward e (snd (supersede_records ctx flds old new e))"
proof (cases "apply_transition old SE_SUPERSEDE")
  case (Inl c)
  then show ?thesis by (simp add: supersede_records_def)
next
  case (Inr old1)
  have ids: "s_id old = p" "s_id new = q" using stored_set(1) [OF ok] old new by auto
  let ?new1 = "new\<lparr>s_supersedes := Some p\<rparr>"
  let ?e1 = "put_set ?new1 e"
  let ?old2 = "old1\<lparr>s_superseded_by := Some q\<rparr>"
  let ?old3 = "apply_member_consequences (e_limits e) (e_epoch e) (s_lifecycle old) (s_lifecycle ?old2) (Some ctx) ?old2"
  have ok1: "engine_ok ?e1"
    by (rule stored_update_ok [OF ok new]) (use stored_set(3) [OF ok new] in simp_all)
  have find_old: "om_find (e_sets ?e1) p = Some old" using old ne ids by simp
  have fwd_old: "record_forward old ?old3" by (intro record_forward_steps) (simp add: transition_forward [OF Inr])
  have fwd1: "engine_forward e ?e1" by (rule put_forward [OF ok new]) simp_all
  let ?spec = "commit_spec_for SE_SUPERSEDE CA_SET_SUPERSEDED (msg (''superseded by '' @ id_text q))"
  let ?o = "make_outcome OC_SET_SUPERSEDED (msg (''superseded by '' @ id_text q))"
  obtain c e2 where c: "commit ?old3 ctx ''supersede_set'' flds ?spec ?o ?e1 = (c, e2)" by fastforce
  have fwd2: "engine_forward ?e1 e2"
    using commit_forward [OF ok1 find_old fwd_old same_order_simps(1), of ctx "''supersede_set''" flds ?spec ?o] c by simp
  have "s_id ?old3 = p" using fwd_old ids by (simp add: record_forward_def clocks_frame_def)
  then have "om_find (e_sets e2) q = Some ?new1"
    using commit_other [of q ?old3 ctx "''supersede_set''" flds ?spec ?o ?e1] ne c ids by auto
  then have fwd3: "engine_forward e2 (put_set r' e2)" if "record_forward ?new1 r'" "s_id r' = q" for r'
    using that sets_forward_put [of "e_sets e2" q ?new1 r'] by (simp add: engine_forward_def put_set_def)
  have "engine_forward e e2" using fwd1 fwd2 by (rule engine_forward_trans)
  moreover have "engine_forward e (put_set (append_history l ep ev ca cx m pa su ?new1) e2)" for l ep ev ca cx m pa su
    by (rule engine_forward_trans [OF calculation fwd3]) (simp_all add: ids)
  ultimately show ?thesis
    using Inr c ids by (simp add: supersede_records_def Let_def capture_forward)
qed

lemma supersede_set_forward: "engine_ok e \<Longrightarrow> engine_forward e (snd (supersede_set ctx p q e))"
  by (auto simp: supersede_set_def Let_def require_set_Inr
      intro!: supersede_records_forward answer_unchanged_forward [where sid = p] split: option.splits sum.splits)

section \<open>Views\<close>

lemma viewed_record_forward: "record_forward r (viewed_record e path ctx cause r)"
proof -
  have "record_forward r (recompute r)" by (rule record_forward_steps(1)) simp
  moreover have "record_forward r ((recompute r)\<lparr>s_generation := gen_advance (s_generation (recompute r))\<rparr>)"
    by (intro record_forward_steps) simp
  ultimately show ?thesis by (simp add: viewed_record_def Let_def record_forward_steps)
qed

lemma apply_view_to_set_forward:
  assumes ok: "engine_ok e"
  shows "engine_forward e (snd (apply_view_to_set path view ctx cause sid (n, e)))"
proof (cases rule: apply_view_to_set_cases [of path view ctx cause sid n e])
  case (same r m)
  then show ?thesis using put_forward [OF ok same(1)] by simp
next
  case (changed r m r5)
  let ?r = "r\<lparr>s_members := om_put path (evaluate_member (s_conditional r) view False m) (s_members r)\<rparr>"
  have "record_forward r r5"
    unfolding changed(4) by (rule record_forward_trans [OF _ viewed_record_forward]) simp
  then show ?thesis using put_forward [OF ok changed(1)] changed(5) by (simp add: capture_forward)
qed simp

lemma apply_view_forward:
  assumes "engine_ok e"
  shows "engine_forward e (snd (apply_view path view ctx cause e))"
proof -
  have "engine_forward (snd acc) (snd (fold (apply_view_to_set path view ctx cause) sids acc))"
    if "engine_ok (snd acc)" for sids acc
    using that
  proof (induction sids arbitrary: acc)
    case (Cons sid sids)
    have "engine_ok (snd (apply_view_to_set path view ctx cause sid acc))"
      using apply_view_to_set_ok [OF Cons.prems, of path view ctx cause sid "fst acc"] by simp
    from Cons.IH [OF this] apply_view_to_set_forward [OF Cons.prems, of path view ctx cause sid "fst acc"]
    show ?case by (auto intro: engine_forward_trans)
  qed simp
  from this [of "(0, e)"] assms show ?thesis by (simp add: apply_view_def)
qed

lemma reconcile_forward: "engine_ok e \<Longrightarrow> engine_forward e (reconcile_path path used observed e)"
  by (simp add: reconcile_path_def apply_view_forward)

lemma declare_path_forward:
  assumes ok: "engine_ok e"
  shows "engine_forward e (snd (declare_path_authority ctx view e))"
proof -
  let ?e = "e\<lparr>e_directory := dir_set_view view (e_directory e)\<rparr>"
  have "engine_ok ?e"
    using engine_okD [OF ok]
    by (intro engine_okI)
      (simp_all add: dir_ok_ops sets_ok_def keys_ok_def dependents_ok_def dependents_of_def authority_ok_def
        attempts_ok_def snapshots_ok_def ids_ok_def member_ids_def counts_ok_def relation_count_def)
  from apply_view_forward [OF this] have "engine_forward e (snd (apply_view p v c ca ?e))" for p v c ca
    using engine_forward_trans [OF engine_forward_same [of ?e e]] by simp
  then show ?thesis
    by (simp add: declare_path_authority_def Let_def case_prod_unfold record_attempt_forward split: sum.split option.split)
qed

lemma apply_path_forward: "engine_ok e \<Longrightarrow> engine_forward e (snd (apply_path_authority ctx view e))"
  by (simp add: apply_path_authority_def Let_def case_prod_unfold record_attempt_forward apply_view_forward
      split: sum.split option.split)

section \<open>Members\<close>

lemma publish_fold_frame:
  "record_forward r0 (fst (snd acc)) \<Longrightarrow> same_order e0 (snd (snd acc)) \<Longrightarrow>
   record_forward r0 (fst (snd (fold (publish_member ctx) inputs acc))) \<and>
   same_order e0 (snd (snd (fold (publish_member ctx) inputs acc)))"
proof (induction inputs arbitrary: acc)
  case (Cons i inputs)
  have "record_forward r0 (fst (snd (publish_member ctx i acc))) \<and> same_order e0 (snd (snd (publish_member ctx i acc)))"
    using Cons.prems by (simp add: publish_member_def Let_def case_prod_unfold)
  then show ?case using Cons.IH by simp
qed simp

lemma publish_members_forward:
  assumes "engine_ok e" and "om_find (e_sets e) sid = Some r" and "record_forward r r1"
  shows "engine_forward e (snd (publish_members ctx sid' requests operation bulk views l n r1 e))"
proof -
  have "record_forward r (fst (snd (fold (publish_member ctx) (zip requests views) ([], r1, e)))) \<and>
      same_order e (snd (snd (fold (publish_member ctx) (zip requests views) ([], r1, e))))"
    by (rule publish_fold_frame) (simp_all add: assms(3))
  then show ?thesis
    using assms(1,2) by (auto simp: publish_members_def Let_def case_prod_unfold intro!: commit_forward record_forward_steps)
qed

lemma add_members_forward:
  "engine_ok e \<Longrightarrow> engine_forward e (snd (fst (add_members_locked ctx sid requests operation bulk views e)))"
  by (auto simp: add_members_locked_def Let_def dest!: admit_InrD intro: publish_members_forward transition_forward
      split: sum.split option.split)

lemma remove_member_forward: "engine_ok e \<Longrightarrow> engine_forward e (snd (remove_member ctx sid mid reason e))"
  by (auto simp: remove_member_def Let_def dest!: admit_InrD intro!: forward_intros intro: transition_forward
      split: sum.split option.split)

lemma withdraw_member_forward: "engine_ok e \<Longrightarrow> engine_forward e (snd (withdraw_member ctx sid mid reason e))"
  by (auto simp: withdraw_member_def Let_def dest!: admit_InrD intro!: forward_intros intro: transition_forward
      split: sum.split option.split prod.split)

lemma replace_member_forward:
  "engine_ok e \<Longrightarrow> engine_forward e (snd (replace_member_locked ctx sid mid p g reason view e))"
  by (auto simp: replace_member_locked_def Let_def case_prod_unfold dest!: admit_InrD intro!: forward_intros
      intro: transition_forward split: sum.split option.split)

lemma member_admin_forward:
  assumes ok: "engine_ok e"
  shows "engine_forward e (snd (set_member_admin_enabled_locked ctx sid mid b view e))"
proof (cases "admit ctx sid ''set_member_admin_enabled'' [''set_member_admin_enabled'', id_text sid, id_text mid, bool_field b] e")
  case (Inl o1)
  then show ?thesis by (simp add: set_member_admin_enabled_locked_def Let_def)
next
  case (Inr r)
  note find = admit_InrD [OF Inr, THEN conjunct1]
  have change: "engine_forward e (snd (commit (recompute (r\<lparr>s_members := ms\<rparr>)) ctx f flds spec oc e))" for ms f flds spec oc
    by (intro commit_forward [OF ok find] record_forward_steps) simp_all
  have same: "engine_forward e (snd (answer_unchanged r ctx f flds oc e))" for f flds oc
    by (rule answer_unchanged_forward [OF ok find]) simp_all
  show ?thesis
    using Inr by (simp add: set_member_admin_enabled_locked_def Let_def same change split: option.split prod.split)
qed

section \<open>Revalidation\<close>

lemma revalidated_set_forward: "record_forward r (revalidated_set target views e r)"
  unfolding revalidated_set_def map_members_def by (simp add: record_forward_steps)

lemma revalidate_set_forward:
  assumes ok: "engine_ok e"
  shows "engine_forward e (snd (fst (revalidate_set_locked ctx sid views e)))"
proof (cases "admit ctx sid ''revalidate_set'' [''revalidate_set'', id_text sid] e")
  case (Inl o1)
  then show ?thesis by (simp add: revalidate_set_locked_def Let_def)
next
  case (Inr r)
  note find = admit_InrD [OF Inr, THEN conjunct1]
  note leaf = put_forward [OF ok find revalidated_set_forward same_order_simps(1)]
    commit_forward [OF ok find revalidated_set_forward same_order_simps(1)]
    answer_unchanged_forward [OF ok find revalidated_set_forward same_order_simps(1)]
  show ?thesis using Inr by (simp add: revalidate_set_locked_def Let_def leaf)
qed

lemma revalidate_member_forward:
  "engine_ok e \<Longrightarrow> engine_forward e (snd (fst (revalidate_member_locked ctx sid mid view e)))"
  by (auto simp: revalidate_member_locked_def Let_def dest!: admit_InrD intro!: forward_intros
      split: sum.split option.split prod.split)

lemma begin_forward: "engine_ok e \<Longrightarrow> engine_forward e (snd (begin_member_revalidation ctx sid mid attempt e))"
  by (auto simp: begin_member_revalidation_def begin_rejected_def Let_def require_set_Inr intro!: put_forward
      split: sum.split option.split prod.split)

lemma complete_revalidation_forward:
  "engine_ok e \<Longrightarrow> om_find (e_sets e) sid = Some r \<Longrightarrow>
   engine_forward e (snd (complete_revalidation ctx ticket current p m r e))"
  by (auto simp: complete_revalidation_def store_member_def Let_def intro!: forward_intros)

lemma complete_forward: "engine_ok e \<Longrightarrow> engine_forward e (snd (complete_member_revalidation ctx ticket current e))"
  by (auto simp: complete_member_revalidation_def store_member_def Let_def require_set_Inr
      intro!: put_forward complete_revalidation_forward split: sum.split option.split prod.split)

lemma abandon_forward: "engine_ok e \<Longrightarrow> engine_forward e (snd (abandon_member_revalidation ticket e))"
  by (auto simp: abandon_member_revalidation_def store_member_def Let_def require_set_Inr
      intro!: put_forward split: sum.split option.split prod.split)


section \<open>Authority\<close>

lemma admit_registration_forward: "engine_forward e (snd (admit_registration p b scope session e))"
  by (auto simp: admit_registration_def drop_session_registrations_def Let_def engine_forward_def
      dest: gen_next_gt split: option.split)

lemma register_forward: "engine_forward e (snd (register_publisher p b scope session e))"
  by (simp add: register_publisher_def admit_registration_forward split: option.split)

lemma unregister_forward: "engine_forward e (snd (unregister_publisher p b e))"
  by (simp add: unregister_publisher_def Let_def engine_forward_def split: option.split)

lemma fenced_record_forward: "record_forward r (fenced_record e r)"
  unfolding fenced_record_def by (rule record_forward_steps) simp

lemma epoch_record_forward: "record_forward r (epoch_record e r)"
  unfolding epoch_record_def by (simp add: record_forward_steps)

lemma fence_worker_forward:
  assumes ok: "engine_ok e"
  shows "engine_forward e (snd (fence_worker p b cause e))"
proof -
  have "engine_forward e (snd (fold (fence_set p) (om_keys (e_sets e)) (0,
      e\<lparr>e_fences := om_put (p, b) fence (e_fences e), e_registrations := om_del (p, b) (e_registrations e),
        e_authority_generation := g\<rparr>)))"
    if g: "gen_next (e_authority_generation e) = Some g" and none: "om_find (e_fences e) (p, b) = None"
      and fence: "fence = \<lparr>fr_publisher = p, fr_worker_boot = b, fr_epoch = e_epoch e, fr_cause = cause\<rparr>" for g fence
  proof -
    let ?e = "e\<lparr>e_fences := om_put (p, b) fence (e_fences e), e_registrations := om_del (p, b) (e_registrations e),
        e_authority_generation := g\<rparr>"
    let ?acc = "fold (fence_set p) (om_keys (e_sets e)) (0, ?e)"
    have ok': "engine_ok ?e" unfolding fence
      by (rule engine_ok_authority [OF ok fence_authority [OF engine_okD(4) [OF ok] gen_next_valid [OF g]]]) simp_all
    note f = without_sets_fields [OF fold_fence_frame [of p "om_keys (e_sets e)" "(0, ?e)"]]
    have "distinct (om_keys (e_sets e))" by (simp add: om_keys_def)
    then have "sets_forward (e_sets e) (e_sets (snd ?acc))"
      using fold_fence_find [of "(0, ?e)" "om_keys (e_sets e)" p] ok' fenced_record_forward record_forward_refl
      by (auto simp: sets_forward_def set_om_keys)
    then show ?thesis using f none gen_next_gt [OF g] by (auto simp: engine_forward_def)
  qed
  then show ?thesis by (simp add: fence_worker_def Let_def case_prod_unfold split: option.split)
qed

lemma advance_epoch_forward:
  assumes ok: "engine_ok e"
  shows "engine_forward e (snd (advance_epoch p b session expected attempt e))"
proof -
  have "engine_forward e (enter_epoch n g e)"
    if n: "gen_next (e_epoch e) = Some n" and g: "gen_next (e_authority_generation e) = Some g" for n g
  proof -
    have "sets_forward (e_sets e) (e_sets (enter_epoch n g e))"
      using enter_epoch_find [OF ok gen_next_valid [OF n] gen_next_valid [OF g]] epoch_record_forward
      by (auto simp: sets_forward_def)
    moreover have "om_find (e_fences (enter_epoch n g e)) k = Some f" if "om_find (e_fences e) k = Some f" for k f
      using that authority_okD(3) [OF engine_okD(4) [OF ok], of k]
      by (auto simp: enter_epoch_frame fence_registrations_find om_has_def)
    ultimately show ?thesis
      using gen_next_gt [OF n] gen_next_gt [OF g] by (simp add: engine_forward_def enter_epoch_frame less_imp_le)
  qed
  then show ?thesis by (simp add: advance_epoch_def Let_def split: option.split)
qed

section \<open>Every event moves forward\<close>

lemma perform_forward: "engine_ok e \<Longrightarrow> event_enabled ev e \<Longrightarrow> engine_forward e (perform ev e)"
  by (cases ev)
    (simp_all add: event_enabled_def engine_forward_same bind_path_authority_def declare_path_forward create_set_forward
      publish_set_forward set_minimum_forward set_policy_forward set_admin_enabled_forward withdraw_set_forward
      complete_withdrawal_forward revoke_set_forward retire_set_forward supersede_set_forward add_members_forward
      reconcile_forward remove_member_forward withdraw_member_forward replace_member_forward member_admin_forward
      revalidate_set_forward revalidate_member_forward begin_forward complete_forward abandon_forward
      apply_path_forward register_forward unregister_forward fence_worker_forward advance_epoch_forward)

interpretation fabric: monotone_system "fabric_start config" fabric_step engine_ok engine_forward for config
proof unfold_locales
  show "engine_ok e" if "fabric_start config e" for e
    using that engine_init_ok by (auto simp: fabric_start_def)
  show "engine_ok e'" if "engine_ok e" "fabric_step e ev e'" for e ev e'
    using that perform_ok by (auto elim: fabric_stepE)
  show "engine_forward e e'" if "engine_ok e" "fabric_step e ev e'" for e ev e'
    using that perform_forward by (auto elim: fabric_stepE)
qed (auto intro: engine_forward_trans)

end
