(* ===== verification/Engine_Safety.thy ===== *)
theory Engine_Safety
  imports Engine_Order
begin

text \<open>
  Safety of the engine as its clients see it: who may change anything, what a replayed or a conflicting
  attempt does, what an epoch, a fence and a Path Authority view leave behind, and which states the
  indexes describe. These are the lemmas behind the properties of the root theory.
\<close>

section \<open>Only an authorised caller changes the state\<close>

definition caller_authorised :: "mutation_context \<Rightarrow> engine \<Rightarrow> bool" where
  "caller_authorised ctx e \<longleftrightarrow> has_caller_identity ctx \<and> cx_epoch ctx = e_epoch e \<and>
     om_find (e_fences e) (worker_of ctx) = None \<and>
     (\<exists>reg. om_find (e_registrations e) (worker_of ctx) = Some reg \<and> pr_epoch reg = e_epoch e)"

text \<open>
  The mutation context an event carries, where its operation takes one. \<open>advance_epoch\<close> names its caller in
  arguments of its own (\<open>Event_Callers\<close>); registration, removal and fencing of a worker and the abandoning of a ticket
  name none.
\<close>

definition event_context :: "fabric_event \<Rightarrow> mutation_context option" where
  "event_context ev =
     (case ev of
        Ev_declare_path ctx _ \<Rightarrow> Some ctx
      | Ev_create ctx _ _ \<Rightarrow> Some ctx
      | Ev_publish ctx _ \<Rightarrow> Some ctx
      | Ev_minimum ctx _ _ \<Rightarrow> Some ctx
      | Ev_policy ctx _ _ \<Rightarrow> Some ctx
      | Ev_set_admin ctx _ _ \<Rightarrow> Some ctx
      | Ev_withdraw_set ctx _ _ \<Rightarrow> Some ctx
      | Ev_complete_withdrawal ctx _ \<Rightarrow> Some ctx
      | Ev_revoke ctx _ _ _ \<Rightarrow> Some ctx
      | Ev_retire ctx _ _ \<Rightarrow> Some ctx
      | Ev_supersede ctx _ _ \<Rightarrow> Some ctx
      | Ev_add_members ctx _ _ _ _ _ \<Rightarrow> Some ctx
      | Ev_remove_member ctx _ _ _ \<Rightarrow> Some ctx
      | Ev_withdraw_member ctx _ _ _ \<Rightarrow> Some ctx
      | Ev_replace_member ctx _ _ _ _ _ _ \<Rightarrow> Some ctx
      | Ev_member_admin ctx _ _ _ _ \<Rightarrow> Some ctx
      | Ev_revalidate_set ctx _ _ \<Rightarrow> Some ctx
      | Ev_revalidate_member ctx _ _ _ \<Rightarrow> Some ctx
      | Ev_begin ctx _ _ _ \<Rightarrow> Some ctx
      | Ev_complete ctx _ _ \<Rightarrow> Some ctx
      | Ev_apply_path ctx _ \<Rightarrow> Some ctx
      | _ \<Rightarrow> None)"

lemma authority_check_authorised: "succeeded (authority_check ctx key sid e) \<Longrightarrow> caller_authorised ctx e"
  by (auto simp: authority_check_def caller_authorised_def has_caller_identity_def Let_def succeeded_def
      outcome_is_success_def split: if_splits option.splits)

lemma path_caller_authorised: "path_caller_check ctx e = Inr reg \<Longrightarrow> caller_authorised ctx e"
  by (auto simp: path_caller_check_def caller_authorised_def split: if_splits option.splits)

lemma unauthorised:
  assumes "\<not> caller_authorised ctx e"
  obtains f g where "\<And>key sid. \<not> succeeded (authority_check ctx key sid e)"
    and "\<And>sid operation flds. admit ctx sid operation flds e = Inl (f sid operation flds)"
    and "path_caller_check ctx e = Inl g"
proof -
  have a: "\<not> succeeded (authority_check ctx key sid e)" for key sid
    using assms authority_check_authorised by blast
  moreover have "admit ctx sid operation flds e = Inl (authority_check ctx None (Some sid) e)" for sid operation flds
    using a by (simp add: admit_def Let_def)
  moreover obtain g where "path_caller_check ctx e = Inl g"
    using assms path_caller_authorised [of ctx e] by (cases "path_caller_check ctx e") auto
  ultimately show thesis using that [of "\<lambda>sid operation flds. authority_check ctx None (Some sid) e" g] by simp
qed

lemma perform_unauthorised:
  assumes ctx: "event_context ev = Some ctx" and no: "\<not> caller_authorised ctx e"
  shows "perform ev e = e"
proof -
  obtain f g where f: "\<And>key sid. \<not> succeeded (authority_check ctx key sid e)"
    and a: "\<And>sid operation flds. admit ctx sid operation flds e = Inl (f sid operation flds)"
    and p: "path_caller_check ctx e = Inl g" using unauthorised [OF no] by metis
  show ?thesis
    using ctx
    by (cases ev)
      (simp_all add: event_context_def f a p publish_set_def set_minimum_usable_members_def
        set_conditional_authority_policy_def set_admin_enabled_def withdraw_set_def complete_withdrawal_def
        revoke_set_def retire_set_def supersede_set_def create_set_def declare_path_authority_def
        add_members_locked_def remove_member_def withdraw_member_def replace_member_locked_def
        set_member_admin_enabled_locked_def revalidate_set_locked_def revalidate_member_locked_def
        begin_member_revalidation_def begin_rejected_def complete_member_revalidation_def apply_path_authority_def Let_def)
qed

section \<open>The authority tables as an abstract machine\<close>

text \<open>
  The abstract view of the authority state: the governing epoch, the workers that may act and the
  workers that never may again. Registration admits a worker that is not fenced (and may displace
  others of its session), removal drops workers, fencing moves one, an epoch moves all.
\<close>

record authority_view =
  aa_epoch :: coordinator_epoch
  aa_live :: "worker_key set"
  aa_fenced :: "worker_key set"

definition abs_authority :: "engine \<Rightarrow> authority_view" where
  "abs_authority e =
     \<lparr>aa_epoch = e_epoch e, aa_live = dom (om_find (e_registrations e)), aa_fenced = dom (om_find (e_fences e))\<rparr>"

inductive authority_transition :: "authority_view \<Rightarrow> authority_view \<Rightarrow> bool" where
  at_stutter: "authority_transition a a"
| at_admit: "k \<notin> aa_fenced a \<Longrightarrow> k \<in> live \<Longrightarrow> live \<subseteq> insert k (aa_live a) \<Longrightarrow>
    authority_transition a (a\<lparr>aa_live := live\<rparr>)"
| at_drop: "live \<subseteq> aa_live a \<Longrightarrow> authority_transition a (a\<lparr>aa_live := live\<rparr>)"
| at_fence: "authority_transition a (a\<lparr>aa_live := aa_live a - {k}, aa_fenced := insert k (aa_fenced a)\<rparr>)"
| at_epoch: "aa_epoch a < n \<Longrightarrow>
    authority_transition a \<lparr>aa_epoch = n, aa_live = {}, aa_fenced = aa_fenced a \<union> aa_live a\<rparr>"

lemma authority_transition_disjoint:
  "authority_transition a a' \<Longrightarrow> aa_live a \<inter> aa_fenced a = {} \<Longrightarrow> aa_live a' \<inter> aa_fenced a' = {}"
  by (induction rule: authority_transition.induct) auto

lemma authority_transition_fenced: "authority_transition a a' \<Longrightarrow> aa_fenced a \<subseteq> aa_fenced a'"
  by (induction rule: authority_transition.induct) auto

lemma authority_transition_epoch: "authority_transition a a' \<Longrightarrow> aa_epoch a \<le> aa_epoch a'"
  by (induction rule: authority_transition.induct) auto

subsection \<open>Operations on sets and members leave it alone\<close>

definition kept :: "engine \<Rightarrow> limits \<times> coordinator_epoch \<times> authority_generation \<times>
    (worker_key, publisher_registration) omap \<times> (worker_key, fence_record) omap" where
  "kept e = (e_limits e, e_epoch e, e_authority_generation e, e_registrations e, e_fences e)"

lemma kept_simps [simp]:
  "kept (put_set r e) = kept e" "kept (record_attempt ctx operation flds o1 e) = kept e"
  "kept (snd (commit r ctx operation flds spec o1 e)) = kept e"
  "kept (snd (answer_unchanged r ctx operation flds o1 e)) = kept e"
  "kept (capture_snapshot r e) = kept e" "kept (index_path s p e) = kept e" "kept (unindex_path s p e) = kept e"
  "kept (e\<lparr>e_total_members := t\<rparr>) = kept e" "kept (e\<lparr>e_ids := i\<rparr>) = kept e"
  "kept (e\<lparr>e_directory := d\<rparr>) = kept e" "kept (e\<lparr>e_external := x\<rparr>) = kept e"
  "kept (e\<lparr>e_key_index := ki\<rparr>) = kept e"
  "kept (snd (apply_view pth vw cond cse e)) = kept e"
  "kept (snd (complete_revalidation cx tk vw2 pa m r e)) = kept e"
  by (simp_all add: kept_def answer_unchanged_def complete_revalidation_def Let_def)

lemma kept_reconcile [simp]: "kept (reconcile_path p u v e) = kept e"
  by (simp add: reconcile_path_def)

lemma kept_publish [simp]:
  "kept (snd (publish_members ctx sid requests operation bulk views l n r e)) = kept e"
proof -
  have "kept (snd (snd (fold (publish_member ctx) inputs acc))) = kept (snd (snd acc))" for inputs acc
    by (induction inputs arbitrary: acc) (simp_all add: publish_member_def Let_def case_prod_unfold)
  from this [of "zip requests views" "([], r, e)"] show ?thesis
    by (simp add: publish_members_def Let_def case_prod_unfold)
qed

lemma kept_supersede [simp]: "kept (snd (supersede_records ctx flds old new e)) = kept e"
  by (simp add: supersede_records_def Let_def case_prod_unfold split: sum.split)

definition authority_event :: "fabric_event \<Rightarrow> bool" where
  "authority_event ev \<longleftrightarrow>
     (case ev of Ev_register _ _ _ _ \<Rightarrow> True | Ev_unregister _ _ \<Rightarrow> True | Ev_fence _ _ _ \<Rightarrow> True
      | Ev_advance_epoch _ _ _ _ _ \<Rightarrow> True | _ \<Rightarrow> False)"

lemma perform_kept_sets:
  "kept (snd (declare_path_authority ctx view e)) = kept e" "kept (snd (create_set ctx key options e)) = kept e"
  "kept (snd (publish_set ctx sid e)) = kept e" "kept (snd (set_minimum_usable_members ctx sid n e)) = kept e"
  "kept (snd (set_conditional_authority_policy ctx sid b e)) = kept e" "kept (snd (set_admin_enabled ctx sid b e)) = kept e"
  "kept (snd (withdraw_set ctx sid reason e)) = kept e" "kept (snd (complete_withdrawal ctx sid e)) = kept e"
  "kept (snd (revoke_set ctx sid why detail e)) = kept e" "kept (snd (retire_set ctx sid reason e)) = kept e"
  "kept (snd (supersede_set ctx p q e)) = kept e"
  by (simp_all add: declare_path_authority_def create_set_def publish_set_def set_minimum_usable_members_def
      set_conditional_authority_policy_def set_admin_enabled_def withdraw_set_def complete_withdrawal_def
      revoke_set_def retire_set_def supersede_set_def Let_def case_prod_unfold split: sum.split option.split)

lemma perform_kept_members:
  "kept (snd (fst (add_members_locked ctx sid requests operation bulk views e))) = kept e"
  "kept (snd (remove_member ctx sid mid reason e)) = kept e" "kept (snd (withdraw_member ctx sid mid reason e)) = kept e"
  "kept (snd (replace_member_locked ctx sid mid path g reason view e)) = kept e"
  "kept (snd (set_member_admin_enabled_locked ctx sid mid b view e)) = kept e"
  "kept (snd (fst (revalidate_set_locked ctx sid tbl e))) = kept e"
  "kept (snd (fst (revalidate_member_locked ctx sid mid view e))) = kept e"
  "kept (snd (begin_member_revalidation ctx sid mid attempt e)) = kept e"
  "kept (snd (complete_member_revalidation ctx ticket view e)) = kept e"
  "kept (snd (abandon_member_revalidation ticket e)) = kept e"
  "kept (snd (apply_path_authority ctx pview e)) = kept e"
  by (simp_all add: add_members_locked_def remove_member_def withdraw_member_def replace_member_locked_def
      set_member_admin_enabled_locked_def revalidate_set_locked_def revalidate_member_locked_def
      begin_member_revalidation_def begin_rejected_def complete_member_revalidation_def
      abandon_member_revalidation_def apply_path_authority_def Let_def case_prod_unfold split: sum.split option.split)

lemma perform_kept: "\<not> authority_event ev \<Longrightarrow> kept (perform ev e) = kept e"
  by (cases ev) (simp_all add: authority_event_def bind_path_authority_def perform_kept_sets perform_kept_members)

lemma kept_abs: "kept e' = kept e \<Longrightarrow> abs_authority e' = abs_authority e"
  by (simp add: kept_def abs_authority_def)

end
