(* ===== verification/Authority_Refinement.thy ===== *)
theory Authority_Refinement
  imports Engine_Safety
begin

text \<open>
  Every step of the engine is a transition of the abstract authority machine, and the consequences:
  a fenced worker stays fenced, the epoch only grows, and neither is ever authorised again. The last
  section states what \<open>fence_worker\<close> and \<open>advance_epoch\<close> leave behind in the sets.
\<close>

section \<open>The authority events\<close>

lemma drop_session_dom:
  "dom (om_find (e_registrations (drop_session_registrations key session e))) \<subseteq> dom (om_find (e_registrations e))"
  using drop_session_find [of key session e] by (auto simp: dom_def)

lemma admit_registration_transition:
  assumes "om_find (e_fences e) (publisher, boot) = None"
  shows "authority_transition (abs_authority e) (abs_authority (snd (admit_registration publisher boot scope session e)))"
proof -
  let ?key = "(publisher, boot)"
  let ?live = "dom (om_find (e_registrations (drop_session_registrations ?key session e)))"
  note d = drop_session_dom [of ?key session e]
  show ?thesis
  proof (cases "gen_next (e_authority_generation e)")
    case None
    then show ?thesis
      using at_drop [of ?live "abs_authority e"] d
      by (simp add: admit_registration_def Let_def abs_authority_def)
  next
    case (Some g)
    then show ?thesis
      using at_admit [of ?key "abs_authority e" "insert ?key ?live"] d assms
      by (auto simp: admit_registration_def Let_def abs_authority_def domIff)
  qed
qed

lemma register_transition:
  "authority_transition (abs_authority e) (abs_authority (snd (register_publisher publisher boot scope session e)))"
  using admit_registration_transition [of e publisher boot scope session]
  by (simp add: register_publisher_def at_stutter split: option.split)

lemma unregister_transition:
  "authority_transition (abs_authority e) (abs_authority (snd (unregister_publisher publisher boot e)))"
  using at_drop [of "aa_live (abs_authority e) - {(publisher, boot)}" "abs_authority e"]
  by (simp add: unregister_publisher_def Let_def abs_authority_def at_stutter split: option.split)

lemma fence_transition:
  "authority_transition (abs_authority e) (abs_authority (snd (fence_worker publisher boot cause e)))"
proof -
  have "abs_authority (snd (fold (fence_set publisher) sids acc)) = abs_authority (snd acc)" for sids acc
    using without_sets_fields [OF fold_fence_frame [of publisher sids acc]] by (simp add: abs_authority_def)
  then show ?thesis
    using at_fence [of "abs_authority e" "(publisher, boot)"]
    by (simp add: fence_worker_def Let_def case_prod_unfold at_stutter split: option.split)
      (simp add: abs_authority_def)
qed

lemma advance_transition:
  "authority_transition (abs_authority e) (abs_authority (snd (advance_epoch publisher boot session expected attempt e)))"
proof -
  have "authority_transition (abs_authority e) (abs_authority (enter_epoch n g e))" if "gen_next (e_epoch e) = Some n" for n g
  proof -
    have "abs_authority (enter_epoch n g e) = \<lparr>aa_epoch = n, aa_live = {},
        aa_fenced = aa_fenced (abs_authority e) \<union> aa_live (abs_authority e)\<rparr>"
      by (auto simp: abs_authority_def enter_epoch_frame fence_registrations_find om_has_def split: if_splits)
    then show ?thesis using at_epoch [of "abs_authority e" n] gen_next_gt [OF that]
      by (simp add: abs_authority_def)
  qed
  then show ?thesis by (simp add: advance_epoch_def Let_def at_stutter split: option.split)
qed

lemma perform_transition: "authority_transition (abs_authority e) (abs_authority (perform ev e))"
proof (cases "authority_event ev")
  case True
  then show ?thesis
    by (cases ev)
      (simp_all add: authority_event_def register_transition unregister_transition fence_transition advance_transition)
next
  case False
  then show ?thesis using kept_abs [OF perform_kept] by (simp add: at_stutter)
qed
section \<open>Simulation\<close>

text \<open>
  The contract between the engine and an abstract machine over the same runs: an abstraction function
  that maps each step of a guarded system to a transition.
\<close>

locale simulation = guarded_system start step inv
  for start :: "'s \<Rightarrow> bool" and step :: "'s \<Rightarrow> 'l \<Rightarrow> 's \<Rightarrow> bool" and inv :: "'s \<Rightarrow> bool" +
  fixes abs_of :: "'s \<Rightarrow> 'a" and transition :: "'a \<Rightarrow> 'a \<Rightarrow> bool"
  assumes step_transition: "inv s \<Longrightarrow> step s l s' \<Longrightarrow> transition (abs_of s) (abs_of s')"
begin

lemma run_transitions: "run s ls s' \<Longrightarrow> inv s \<Longrightarrow> transition\<^sup>*\<^sup>* (abs_of s) (abs_of s')"
proof (induction rule: run.induct)
  case (run_cons s l s' ls s'')
  then show ?case using step_transition step_inv converse_rtranclp_into_rtranclp by metis
qed simp

text \<open>A property of abstract states that transitions keep is kept along the runs of the system.\<close>

lemma run_stable:
  assumes stable: "\<And>a a'. transition a a' \<Longrightarrow> P a \<Longrightarrow> P a'" and "run s ls s'" and "inv s" and "P (abs_of s)"
  shows "P (abs_of s')"
  using assms(2-)
proof (induction rule: run.induct)
  case (run_cons s l s' ls s'')
  then show ?case using stable step_transition step_inv by metis
qed

end

interpretation authority: simulation "fabric_start config" fabric_step engine_ok abs_authority authority_transition for config
  by unfold_locales (auto elim: fabric_stepE intro: perform_transition)

lemma run_fenced:
  assumes "fabric.run e evs e'" and "engine_ok e" and "k \<in> aa_fenced (abs_authority e)"
  shows "k \<in> aa_fenced (abs_authority e')"
  using authority.run_stable [where P = "\<lambda>a. k \<in> aa_fenced a", OF _ assms] authority_transition_fenced by blast

lemma run_epoch:
  assumes "fabric.run e evs e'" and "engine_ok e" and "n \<le> aa_epoch (abs_authority e)"
  shows "n \<le> aa_epoch (abs_authority e')"
  using authority.run_stable [where P = "\<lambda>a. n \<le> aa_epoch a", OF _ assms] authority_transition_epoch order_trans by blast

lemma fenced_not_authorised: "worker_of ctx \<in> aa_fenced (abs_authority e) \<Longrightarrow> \<not> caller_authorised ctx e"
  by (auto simp: caller_authorised_def abs_authority_def)

lemma old_epoch_not_authorised: "cx_epoch ctx < aa_epoch (abs_authority e) \<Longrightarrow> \<not> caller_authorised ctx e"
  by (auto simp: caller_authorised_def abs_authority_def)

section \<open>What an epoch and a fence leave behind\<close>

lemma advance_epoch_success:
  assumes "o_code (fst (advance_epoch publisher boot session expected attempt e)) = OC_EPOCH_ADVANCED"
  obtains n g where "gen_next (e_epoch e) = Some n" "gen_next (e_authority_generation e) = Some g"
    "expected = e_epoch e" "om_find (e_fences e) (publisher, boot) = None"
    "\<exists>reg. om_find (e_registrations e) (publisher, boot) = Some reg \<and> pr_session reg = session"
    "snd (advance_epoch publisher boot session expected attempt e) = enter_epoch n g e"
  using assms by (auto simp: advance_epoch_def authority_exhausted_def Let_def split: if_splits option.splits)

lemma fence_worker_success:
  assumes "o_code (fst (fence_worker publisher boot cause e)) = OC_WORKER_FENCED"
  obtains g where "gen_next (e_authority_generation e) = Some g" "om_find (e_fences e) (publisher, boot) = None"
    "snd (fence_worker publisher boot cause e) = snd (fold (fence_set publisher) (om_keys (e_sets e)) (0,
       e\<lparr>e_fences := om_put (publisher, boot) \<lparr>fr_publisher = publisher, fr_worker_boot = boot,
            fr_epoch = e_epoch e, fr_cause = cause\<rparr> (e_fences e),
         e_registrations := om_del (publisher, boot) (e_registrations e), e_authority_generation := g\<rparr>))"
  using assms
  by (auto simp: fence_worker_def authority_exhausted_def malformed_def Let_def case_prod_unfold split: if_splits option.splits)

lemma epoch_record_fields [simp]:
  "s_currentness (epoch_record e r) = SC_REVALIDATION_REQUIRED" "s_governing_epoch (epoch_record e r) = e_epoch e"
  "s_authority_generation (epoch_record e r) = e_authority_generation e"
  "s_lifecycle (epoch_record e r) = s_lifecycle r" "s_generation (epoch_record e r) = s_generation r"
  by (simp_all add: epoch_record_def append_history_def bump_set_watermark_def map_members_def
      bump_set_watermark_only_def Let_def split: option.split)

lemma fenced_record_fields [simp]:
  "s_currentness (fenced_record e r) = SC_REVALIDATION_REQUIRED"
  "s_authority_generation (fenced_record e r) = e_authority_generation e"
  "s_lifecycle (fenced_record e r) = s_lifecycle r" "s_generation (fenced_record e r) = s_generation r"
  by (simp_all add: fenced_record_def bump_set_watermark_def map_members_def bump_set_watermark_only_def split: option.split)

lemma epoch_not_consumable: "\<not> set_is_consumable (epoch_record e r)"
  by (simp add: set_is_consumable_def)

lemma fence_find:
  assumes ok: "engine_ok e" and out: "o_code (fst (fence_worker publisher boot cause e)) = OC_WORKER_FENCED"
    and set: "om_find (e_sets e) sid = Some r"
  shows "\<exists>r'. om_find (e_sets (snd (fence_worker publisher boot cause e))) sid = Some r' \<and>
    (if pv_publisher (s_provenance r) = publisher
     then s_currentness r' = SC_REVALIDATION_REQUIRED \<and> s_lifecycle r' = s_lifecycle r \<and> s_generation r' = s_generation r
     else r' = r)"
proof -
  obtain g where g: "gen_next (e_authority_generation e) = Some g" and s: "snd (fence_worker publisher boot cause e) =
      snd (fold (fence_set publisher) (om_keys (e_sets e)) (0,
       e\<lparr>e_fences := om_put (publisher, boot) \<lparr>fr_publisher = publisher, fr_worker_boot = boot,
            fr_epoch = e_epoch e, fr_cause = cause\<rparr> (e_fences e),
         e_registrations := om_del (publisher, boot) (e_registrations e), e_authority_generation := g\<rparr>))"
      (is "_ = snd (fold _ _ (0, ?e))")
    using fence_worker_success [OF out] by metis
  have "engine_ok ?e"
    by (rule engine_ok_authority [OF ok fence_authority [OF engine_okD(4) [OF ok] gen_next_valid [OF g]]]) simp_all
  moreover have "distinct (om_keys (e_sets e))" by (simp add: om_keys_def)
  ultimately show ?thesis
    using fold_fence_find [of "(0, ?e)" "om_keys (e_sets e)" publisher sid] set s by (simp add: set_om_keys)
qed

end
