(* ===== verification/Fabric_Answers.thy ===== *)
theory Fabric_Answers
  imports Authority_Refinement
begin

text \<open>
  The answers of the engine: a rejected mutation leaves the state alone, and a mutation that succeeded
  and is sent again, identical, is answered \<open>IDEMPOTENT\<close> without a second effect.
\<close>

section \<open>The answer to an event\<close>

primrec respond :: "fabric_event \<Rightarrow> engine \<Rightarrow> answer option" where
  "respond (Ev_bind b) e = None"
| "respond (Ev_declare_path ctx view) e = Some (declare_path_authority ctx view e)"
| "respond (Ev_create ctx key options) e = Some (create_set ctx key options e)"
| "respond (Ev_publish ctx sid) e = Some (publish_set ctx sid e)"
| "respond (Ev_minimum ctx sid n) e = Some (set_minimum_usable_members ctx sid n e)"
| "respond (Ev_policy ctx sid b) e = Some (set_conditional_authority_policy ctx sid b e)"
| "respond (Ev_set_admin ctx sid b) e = Some (set_admin_enabled ctx sid b e)"
| "respond (Ev_withdraw_set ctx sid reason) e = Some (withdraw_set ctx sid reason e)"
| "respond (Ev_complete_withdrawal ctx sid) e = Some (complete_withdrawal ctx sid e)"
| "respond (Ev_revoke ctx sid reason detail) e = Some (revoke_set ctx sid reason detail e)"
| "respond (Ev_retire ctx sid reason) e = Some (retire_set ctx sid reason e)"
| "respond (Ev_supersede ctx p q) e = Some (supersede_set ctx p q e)"
| "respond (Ev_add_members ctx sid requests operation bulk views) e =
     Some (fst (add_members_locked ctx sid requests operation bulk views e))"
| "respond (Ev_reconcile path used observed) e = None"
| "respond (Ev_remove_member ctx sid mid reason) e = Some (remove_member ctx sid mid reason e)"
| "respond (Ev_withdraw_member ctx sid mid reason) e = Some (withdraw_member ctx sid mid reason e)"
| "respond (Ev_replace_member ctx sid mid path g reason view) e =
     Some (replace_member_locked ctx sid mid path g reason view e)"
| "respond (Ev_member_admin ctx sid mid b view) e = Some (set_member_admin_enabled_locked ctx sid mid b view e)"
| "respond (Ev_revalidate_set ctx sid views) e = Some (fst (revalidate_set_locked ctx sid views e))"
| "respond (Ev_revalidate_member ctx sid mid view) e = Some (fst (revalidate_member_locked ctx sid mid view e))"
| "respond (Ev_begin ctx sid mid attempt) e =
     (case begin_member_revalidation ctx sid mid attempt e of (b, e') \<Rightarrow> Some (rb_outcome b, e'))"
| "respond (Ev_complete ctx ticket current) e = Some (complete_member_revalidation ctx ticket current e)"
| "respond (Ev_abandon ticket) e = Some (abandon_member_revalidation ticket e)"
| "respond (Ev_apply_path ctx view) e = Some (apply_path_authority ctx view e)"
| "respond (Ev_register p b scope session) e = Some (register_publisher p b scope session e)"
| "respond (Ev_unregister p b) e = Some (unregister_publisher p b e)"
| "respond (Ev_fence p b cause) e = Some (fence_worker p b cause e)"
| "respond (Ev_advance_epoch p b session expected attempt) e = Some (advance_epoch p b session expected attempt e)"

lemma respond_perform: "respond ev e = Some answer \<Longrightarrow> perform ev e = snd answer"
  by (cases ev) (auto split: prod.splits)

section \<open>A rejected mutation leaves the state alone\<close>

definition atomic_answer :: "engine \<Rightarrow> answer \<Rightarrow> bool" where
  "atomic_answer e answer \<longleftrightarrow> (\<not> succeeded (fst answer) \<longrightarrow> snd answer = e)"

lemma atomic_same [simp]: "atomic_answer e (o1, e)"
  by (simp add: atomic_answer_def)

lemma atomic_succeeded [simp]: "succeeded o1 \<Longrightarrow> atomic_answer e (o1, e')"
  by (simp add: atomic_answer_def)

lemma succeeded_code: "o_code o1 = o_code o2 \<Longrightarrow> succeeded o1 = succeeded o2"
  by (simp add: succeeded_def)

lemma commit_succeeds:
  assumes "cs_advance_set_generation spec \<Longrightarrow> set_generation_available r"
    and "cs_advance_membership_generation spec \<Longrightarrow> membership_generation_available r"
  shows "o_code (fst (commit r ctx operation flds spec o1 e)) = o_code o1"
  using assms
  by (auto simp: commit_def advance_set_generation_def advance_membership_generation_def set_generation_available_def
      membership_generation_available_def split: option.splits)

lemma commit_atomic:
  assumes "succeeded o1" and "cs_advance_set_generation spec \<Longrightarrow> set_generation_available r"
    and "cs_advance_membership_generation spec \<Longrightarrow> membership_generation_available r"
  shows "atomic_answer e (commit r ctx operation flds spec o1 e')"
  using commit_succeeds [OF assms(2,3)] assms(1) by (simp add: atomic_answer_def succeeded_def)

lemma answer_unchanged_atomic: "succeeded o1 \<Longrightarrow> atomic_answer e (answer_unchanged r ctx operation flds o1 e')"
  by (simp add: answer_unchanged_def Let_def)

lemma commit_spec_for_simps [simp]:
  "cs_advance_set_generation (commit_spec_for ev ca s)" "\<not> cs_advance_membership_generation (commit_spec_for ev ca s)"
  by (simp_all add: commit_spec_for_def)

lemma transition_available:
  assumes "apply_transition r ev = Inr r'"
  shows "set_generation_available r' = set_generation_available r"
    "membership_generation_available r' = membership_generation_available r"
  using apply_transition_keeps [OF assms]
  by (simp_all add: set_generation_available_def membership_generation_available_def)

lemma succeeded_make [simp]: "succeeded (make_outcome c d) = outcome_is_success c"
  by (simp add: succeeded_def)

lemma available_simps [simp]:
  "set_generation_available (recompute r) = set_generation_available r"
  "membership_generation_available (recompute r) = membership_generation_available r"
  "set_generation_available (install_member p m r) = set_generation_available r"
  "membership_generation_available (install_member p m r) = membership_generation_available r"
  "set_generation_available (r\<lparr>s_members := ms\<rparr>) = set_generation_available r"
  "membership_generation_available (r\<lparr>s_members := ms\<rparr>) = membership_generation_available r"
  "set_generation_available (r\<lparr>s_member_index := mi\<rparr>) = set_generation_available r"
  "membership_generation_available (r\<lparr>s_member_index := mi\<rparr>) = membership_generation_available r"
  "set_generation_available (r\<lparr>s_withdrawal_reason := wr\<rparr>) = set_generation_available r"
  "set_generation_available (r\<lparr>s_revocation := rv\<rparr>) = set_generation_available r"
  "set_generation_available (r\<lparr>s_minimum := mn\<rparr>) = set_generation_available r"
  "set_generation_available (r\<lparr>s_conditional := cd\<rparr>) = set_generation_available r"
  "set_generation_available (r\<lparr>s_superseded_by := sb\<rparr>) = set_generation_available r"
  "set_generation_available (map_members f r) = set_generation_available r"
  "set_generation_available (apply_member_consequences l ep fr to c r) = set_generation_available r"
  by (auto simp: set_generation_available_def membership_generation_available_def apply_member_consequences_def
      refresh_usable_def bump_set_watermark_def map_members_def bump_set_watermark_only_def split: option.split)

text \<open>An answer is atomic when each of its branches is.\<close>

lemma atomic_if: "(b \<Longrightarrow> atomic_answer e x) \<Longrightarrow> (\<not> b \<Longrightarrow> atomic_answer e y) \<Longrightarrow> atomic_answer e (if b then x else y)"
  by simp

lemma atomic_sum:
  "(\<And>a. x = Inl a \<Longrightarrow> atomic_answer e (f a)) \<Longrightarrow> (\<And>b. x = Inr b \<Longrightarrow> atomic_answer e (g b)) \<Longrightarrow>
   atomic_answer e (case x of Inl a \<Rightarrow> f a | Inr b \<Rightarrow> g b)"
  by (cases x) simp_all

lemma atomic_option:
  "(x = None \<Longrightarrow> atomic_answer e f) \<Longrightarrow> (\<And>b. x = Some b \<Longrightarrow> atomic_answer e (g b)) \<Longrightarrow>
   atomic_answer e (case x of None \<Rightarrow> f | Some b \<Rightarrow> g b)"
  by (cases x) simp_all

lemma atomic_prod: "(\<And>a b. x = (a, b) \<Longrightarrow> atomic_answer e (f a b)) \<Longrightarrow> atomic_answer e (case x of (a, b) \<Rightarrow> f a b)"
  by (cases x) simp

lemmas atomic_intros = atomic_same atomic_if atomic_sum atomic_option atomic_prod commit_atomic answer_unchanged_atomic

lemma available_next: "gen_next (s_generation r) = Some g \<Longrightarrow> set_generation_available r"
  by (simp add: set_generation_available_def)

lemma publish_set_atomic: "atomic_answer e (publish_set ctx sid e)"
  unfolding publish_set_def Let_def
  by (intro atomic_intros) (simp_all add: outcome_is_success_def transition_available)

lemma withdraw_set_atomic: "atomic_answer e (withdraw_set ctx sid reason e)"
  unfolding withdraw_set_def Let_def
  by (intro atomic_intros) (simp_all add: outcome_is_success_def transition_available)

lemma complete_withdrawal_atomic: "atomic_answer e (complete_withdrawal ctx sid e)"
  unfolding complete_withdrawal_def Let_def
  by (intro atomic_intros) (simp_all add: outcome_is_success_def transition_available)

lemma revoke_set_atomic: "atomic_answer e (revoke_set ctx sid why detail e)"
  unfolding revoke_set_def Let_def
  by (intro atomic_intros) (simp_all add: outcome_is_success_def transition_available available_next)

lemma retire_set_atomic: "atomic_answer e (retire_set ctx sid reason e)"
  unfolding retire_set_def Let_def
  by (intro atomic_intros) (simp_all add: outcome_is_success_def transition_available)

lemma supersede_records_atomic:
  assumes "set_generation_available old"
  shows "atomic_answer e (supersede_records ctx flds old new e)"
proof (cases "apply_transition old SE_SUPERSEDE")
  case (Inr old1)
  let ?r = "apply_member_consequences (e_limits e) (e_epoch e) (s_lifecycle old)
    (s_lifecycle (old1\<lparr>s_superseded_by := Some (s_id new)\<rparr>)) (Some ctx) (old1\<lparr>s_superseded_by := Some (s_id new)\<rparr>)"
  have "succeeded (fst (commit ?r ctx operation flds (commit_spec_for SE_SUPERSEDE CA_SET_SUPERSEDED s)
      (make_outcome OC_SET_SUPERSEDED d) e'))" for operation s d e'
    using commit_succeeds [of "commit_spec_for SE_SUPERSEDE CA_SET_SUPERSEDED s" ?r ctx operation flds
        "make_outcome OC_SET_SUPERSEDED d" e'] assms Inr
    by (simp add: succeeded_def outcome_is_success_def transition_available)
  then show ?thesis using Inr by (simp add: supersede_records_def Let_def case_prod_unfold)
qed (simp add: supersede_records_def)

lemma supersede_set_atomic: "atomic_answer e (supersede_set ctx p q e)"
  unfolding supersede_set_def Let_def
  by (intro atomic_intros supersede_records_atomic) (simp_all add: outcome_is_success_def)

lemma create_set_atomic: "atomic_answer e (create_set ctx key options e)"
  unfolding create_set_def Let_def
  by (intro atomic_intros atomic_succeeded) (simp_all add: outcome_is_success_def)

lemma declare_path_atomic: "atomic_answer e (declare_path_authority ctx view e)"
  unfolding declare_path_authority_def Let_def
  by (intro atomic_intros atomic_succeeded) (simp_all add: succeeded_def outcome_is_success_def)

lemma apply_path_atomic: "atomic_answer e (apply_path_authority ctx view e)"
  unfolding apply_path_authority_def Let_def
  by (intro atomic_intros atomic_succeeded) (simp_all add: succeeded_def outcome_is_success_def)

lemma remove_member_atomic: "atomic_answer e (remove_member ctx sid mid reason e)"
  unfolding remove_member_def Let_def
  by (intro atomic_intros) (simp_all add: succeeded_def outcome_is_success_def transition_available)

lemma withdraw_member_atomic: "atomic_answer e (withdraw_member ctx sid mid reason e)"
  unfolding withdraw_member_def Let_def
  by (intro atomic_intros) (simp_all add: succeeded_def outcome_is_success_def transition_available)

lemma replace_member_atomic: "atomic_answer e (replace_member_locked ctx sid mid path g reason view e)"
  unfolding replace_member_locked_def Let_def
  by (intro atomic_intros) (simp_all add: succeeded_def outcome_is_success_def transition_available)

lemma member_admin_atomic: "atomic_answer e (set_member_admin_enabled_locked ctx sid mid b view e)"
  unfolding set_member_admin_enabled_locked_def Let_def
  by (intro atomic_intros) (simp_all add: succeeded_def outcome_is_success_def transition_available)

lemma publish_fold_available:
  "set_generation_available (fst (snd (fold (publish_member ctx) inputs acc))) = set_generation_available (fst (snd acc)) \<and>
   membership_generation_available (fst (snd (fold (publish_member ctx) inputs acc))) =
     membership_generation_available (fst (snd acc))"
  by (induction inputs arbitrary: acc) (simp_all add: publish_member_def Let_def case_prod_unfold)

lemma publish_members_atomic:
  assumes "set_generation_available r" and "membership_generation_available r"
  shows "atomic_answer e (publish_members ctx sid requests operation bulk views before n r e')"
proof -
  obtain added r1 e1 where f: "fold (publish_member ctx) (zip requests views) ([], r, e') = (added, r1, e1)"
    by (metis prod_cases3)
  have "set_generation_available r1" "membership_generation_available r1"
    using publish_fold_available [of ctx "zip requests views" "([], r, e')"] assms f by simp_all
  then show ?thesis
    unfolding publish_members_def Let_def f prod.case
    by (intro commit_atomic) (simp_all add: succeeded_def outcome_is_success_def)
qed

lemma add_members_atomic: "atomic_answer e (fst (add_members_locked ctx sid requests operation bulk views e))"
  using publish_members_atomic
  by (simp add: add_members_locked_def Let_def transition_available split: sum.split option.split)

text \<open>
  The operations that check everything before they change anything: all but the two policy changes and the
  administrative change of a set, the revalidations of a set and of a member, the completion of a two-phase revalidation, and
  \<open>register_publisher\<close>, which drops the other registrations of the session before it looks at the
  authority generation.
\<close>

definition checks_first :: "fabric_event \<Rightarrow> engine \<Rightarrow> bool" where
  "checks_first ev e \<longleftrightarrow>
     (case ev of
        Ev_minimum _ _ _ \<Rightarrow> False | Ev_policy _ _ _ \<Rightarrow> False | Ev_set_admin _ _ _ \<Rightarrow> False
      | Ev_revalidate_set _ _ _ \<Rightarrow> False | Ev_revalidate_member _ _ _ _ \<Rightarrow> False | Ev_complete _ _ _ \<Rightarrow> False
      | Ev_register _ _ _ _ \<Rightarrow> gen_next (e_authority_generation e) \<noteq> None
      | _ \<Rightarrow> True)"

lemma authority_events_atomic:
  "atomic_answer e (unregister_publisher p b e)" "atomic_answer e (fence_worker p b cause e)"
  "atomic_answer e (advance_epoch p b session expected attempt e)"
  unfolding unregister_publisher_def fence_worker_def advance_epoch_def Let_def
  by (intro atomic_intros atomic_succeeded; simp add: succeeded_def outcome_is_success_def)+

lemma register_publisher_atomic:
  assumes "gen_next (e_authority_generation e) \<noteq> None"
  shows "atomic_answer e (register_publisher publisher boot scope session e)"
proof -
  have "atomic_answer e (admit_registration publisher boot scope session e)"
    using assms by (auto simp: admit_registration_def drop_session_registrations_def Let_def atomic_answer_def
        succeeded_def outcome_is_success_def split: option.split)
  then show ?thesis unfolding register_publisher_def by (intro atomic_intros)
qed

lemma begin_revalidation_atomic:
  assumes "respond (Ev_begin ctx sid mid attempt) e = Some answer"
  shows "atomic_answer e answer"
proof -
  have "atomic_answer e (rb_outcome (fst x), snd x)" if "x = begin_member_revalidation ctx sid mid attempt e" for x
    unfolding that begin_member_revalidation_def begin_rejected_def Let_def
    by (simp add: atomic_answer_def outcome_is_success_def split: sum.split option.split)
  with assms show ?thesis by (auto split: prod.splits)
qed

lemma abandon_revalidation_atomic: "atomic_answer e (abandon_member_revalidation ticket e)"
  unfolding abandon_member_revalidation_def Let_def
  by (intro atomic_intros atomic_succeeded) (simp_all add: succeeded_def outcome_is_success_def)

lemma checks_first_atomic:
  assumes "checks_first ev e" and "respond ev e = Some answer"
  shows "atomic_answer e answer"
proof (cases ev)
  case (Ev_begin ctx sid mid attempt)
  then show ?thesis using begin_revalidation_atomic assms(2) by blast
qed (use assms in \<open>auto simp: checks_first_def declare_path_atomic create_set_atomic publish_set_atomic withdraw_set_atomic
      complete_withdrawal_atomic revoke_set_atomic retire_set_atomic supersede_set_atomic add_members_atomic
      remove_member_atomic withdraw_member_atomic replace_member_atomic member_admin_atomic apply_path_atomic
      authority_events_atomic register_publisher_atomic abandon_revalidation_atomic\<close>)

end
