(* ===== verification/Attempt_Replay.thy ===== *)
theory Attempt_Replay
  imports Fabric_Answers
begin

text \<open>
  Exactly-once effects: a mutation of a set that succeeded left one entry in the attempt log, so the
  same request under the same attempt identity is answered from the log and changes nothing; the
  identity under another request is a conflict.
\<close>

section \<open>The entry survives the trimming of the log\<close>

definition fresh_attempt :: "mutation_context \<Rightarrow> engine \<Rightarrow> bool" where
  "fresh_attempt ctx e \<longleftrightarrow> (\<forall>a \<in> set (e_attempts e). at_attempt a \<noteq> cx_attempt ctx)"

lemma trim_keeps_last:
  assumes "0 < limit" and "\<forall>a \<in> set log. at_attempt a \<noteq> at_attempt entry"
  shows "om_find (snd (trim_attempts limit (log @ [entry]) idx)) (at_attempt entry) = om_find idx (at_attempt entry) \<and>
    (\<exists>kept_log. fst (trim_attempts limit (log @ [entry]) idx) = kept_log @ [entry] \<and> set kept_log \<subseteq> set log)"
  using assms(2)
proof (induction log arbitrary: idx)
  case Nil
  then show ?case using assms(1) by simp
next
  case (Cons a log)
  show ?case
  proof (cases "length (a # log @ [entry]) > limit")
    case True
    let ?idx = "if om_find idx (at_attempt a) = Some (at_fingerprint a) then om_del (at_attempt a) idx else idx"
    have "om_find ?idx (at_attempt entry) = om_find idx (at_attempt entry)" using Cons.prems by auto
    then show ?thesis using True Cons.IH [of ?idx] Cons.prems by auto
  next
    case False
    then show ?thesis by auto
  qed
qed

text \<open>The answer to a replay: the recorded outcome, marked as such.\<close>

definition replay_of :: "fabric_outcome \<Rightarrow> fabric_outcome" where
  "replay_of original =
     original\<lparr>o_code := OC_IDEMPOTENT, o_stage := ST_NONE,
       o_detail := msg (''exact replay of an already-committed attempt; original outcome '' @
                        outcome_text (o_code original))\<rparr>"

lemma find_appended: "(\<And>x. x \<in> set xs \<Longrightarrow> \<not> P x) \<Longrightarrow> P y \<Longrightarrow> List.find P (xs @ [y]) = Some y"
  by (induction xs) auto

lemma record_attempt_check:
  assumes "fresh_attempt ctx e" and "0 < max_attempts (e_limits e)"
  shows "attempt_check ctx operation flds (record_attempt ctx operation flds o1 e) = Some (replay_of o1)"
    and "fingerprint_request operation flds \<noteq> fingerprint_request operation' flds' \<Longrightarrow>
      \<exists>o2. attempt_check ctx operation' flds' (record_attempt ctx operation flds o1 e) = Some o2 \<and>
        o_code o2 = OC_ATTEMPT_CONFLICT"
proof -
  let ?entry = "\<lparr>at_attempt = cx_attempt ctx, at_fingerprint = fingerprint_request operation flds, at_outcome = o1\<rparr>"
  let ?idx = "om_put (cx_attempt ctx) (fingerprint_request operation flds) (e_attempt_index e)"
  obtain log where log: "fst (trim_attempts (max_attempts (e_limits e)) (e_attempts e @ [?entry]) ?idx) = log @ [?entry]"
      "set log \<subseteq> set (e_attempts e)"
    and idx: "om_find (snd (trim_attempts (max_attempts (e_limits e)) (e_attempts e @ [?entry]) ?idx)) (cx_attempt ctx) =
      Some (fingerprint_request operation flds)"
    using trim_keeps_last [OF assms(2), of "e_attempts e" ?entry ?idx] assms(1) by (auto simp: fresh_attempt_def)
  have "List.find (\<lambda>a. at_attempt a = cx_attempt ctx) (log @ [?entry]) = Some ?entry"
    using log(2) assms(1) by (intro find_appended) (auto simp: fresh_attempt_def)
  moreover have replay: "replay_of o1 = (at_outcome ?entry)\<lparr>o_code := OC_IDEMPOTENT, o_stage := ST_NONE,
      o_detail := msg (''exact replay of an already-committed attempt; original outcome '' @
                       outcome_text (o_code (at_outcome ?entry)))\<rparr>"
    unfolding replay_of_def attempt_record.select_convs by (rule refl)
  ultimately show "attempt_check ctx operation flds (record_attempt ctx operation flds o1 e) = Some (replay_of o1)"
    using log(1) idx by (simp add: attempt_check_def record_attempt_def Let_def replay)
  show "\<exists>o2. attempt_check ctx operation' flds' (record_attempt ctx operation flds o1 e) = Some o2 \<and>
        o_code o2 = OC_ATTEMPT_CONFLICT"
    if "fingerprint_request operation flds \<noteq> fingerprint_request operation' flds'"
    using idx that by (simp add: attempt_check_def record_attempt_def Let_def)
qed

section \<open>Operations that record what they did\<close>

definition recorded :: "mutation_context \<Rightarrow> string \<Rightarrow> string list \<Rightarrow> engine \<Rightarrow> answer \<Rightarrow> bool" where
  "recorded ctx operation flds e answer \<longleftrightarrow> (succeeded (fst answer) \<longrightarrow>
     (\<exists>e0. snd answer = record_attempt ctx operation flds (fst answer) e0 \<and>
        e_attempts e0 = e_attempts e \<and> e_limits e0 = e_limits e))"

lemma recorded_rejected: "\<not> succeeded o1 \<Longrightarrow> recorded ctx operation flds e (o1, e')"
  by (simp add: recorded_def)

lemma recorded_unchanged:
  "e_attempts e' = e_attempts e \<Longrightarrow> e_limits e' = e_limits e \<Longrightarrow>
   recorded ctx operation flds e (answer_unchanged r ctx operation flds o1 e')"
  unfolding recorded_def answer_unchanged_def Let_def by (auto intro!: exI [of _ "put_set r e'"])

lemma recorded_commit_advanced:
  assumes "e_attempts e' = e_attempts e" and "e_limits e' = e_limits e"
  shows "recorded ctx operation flds e (commit_advanced r ctx operation flds spec o1 e')"
proof -
  let ?r = "r\<lparr>s_provenance := make_provenance ctx (cs_cause spec) r\<rparr>"
  obtain r2 e2 where pr: "prune_archive ?r e' = (r2, e2)" by fastforce
  note f = without_paths_fields [OF prune_archive_without(2) [OF pr]]
  let ?e0 = "\<lambda>r3. capture_snapshot r3 (put_set r3 e2)"
  have "e_attempts (?e0 r3) = e_attempts e \<and> e_limits (?e0 r3) = e_limits e" for r3
    using f assms by simp
  then show ?thesis
    unfolding recorded_def commit_advanced_def Let_def pr prod.case fst_conv snd_conv by blast
qed

lemma recorded_commit:
  assumes "e_attempts e' = e_attempts e" and "e_limits e' = e_limits e"
  shows "recorded ctx operation flds e (commit r ctx operation flds spec o1 e')"
  using recorded_commit_advanced [OF assms]
  by (auto simp: commit_def recorded_rejected succeeded_def outcome_is_success_def split: option.split)

lemma recorded_if:
  "(b \<Longrightarrow> recorded ctx op flds e x) \<Longrightarrow> (\<not> b \<Longrightarrow> recorded ctx op flds e y) \<Longrightarrow> recorded ctx op flds e (if b then x else y)"
  by simp

lemma recorded_sum:
  "(\<And>a. x = Inl a \<Longrightarrow> recorded ctx op flds e (f a)) \<Longrightarrow> (\<And>b. x = Inr b \<Longrightarrow> recorded ctx op flds e (g b)) \<Longrightarrow>
   recorded ctx op flds e (case x of Inl a \<Rightarrow> f a | Inr b \<Rightarrow> g b)"
  by (cases x) simp_all

lemma recorded_option:
  "(x = None \<Longrightarrow> recorded ctx op flds e f) \<Longrightarrow> (\<And>b. x = Some b \<Longrightarrow> recorded ctx op flds e (g b)) \<Longrightarrow>
   recorded ctx op flds e (case x of None \<Rightarrow> f | Some b \<Rightarrow> g b)"
  by (cases x) simp_all

lemma recorded_prod:
  "(\<And>a b. x = (a, b) \<Longrightarrow> recorded ctx op flds e (f a b)) \<Longrightarrow> recorded ctx op flds e (case x of (a, b) \<Rightarrow> f a b)"
  by (cases x) simp

lemmas recorded_intros = recorded_if recorded_sum recorded_option recorded_prod recorded_commit recorded_unchanged
  recorded_rejected

lemma authority_check_success:
  "succeeded (authority_check ctx k s e) \<Longrightarrow> o_code (authority_check ctx k s e) = OC_OK"
  by (auto simp: authority_check_def Let_def succeeded_def outcome_is_success_def split: if_splits option.splits)

lemma admit_fresh:
  assumes ok: "engine_ok e" and fresh: "fresh_attempt ctx e" and a: "admit ctx sid operation flds e = Inl answer"
  shows "\<not> succeeded answer"
proof -
  have "om_find (e_attempt_index e) (cx_attempt ctx) = None"
    using engine_okD(5) [OF ok] fresh by (cases "om_find (e_attempt_index e) (cx_attempt ctx)")
      (auto simp: attempts_ok_def log_covers_def fresh_attempt_def)
  then show ?thesis
    using a by (auto simp: admit_def attempt_check_def require_set_def Let_def succeeded_def outcome_is_success_def
        split: if_splits option.splits)
qed
section \<open>Replaying a mutation of a set\<close>

text \<open>
  The context, the set, the operation and the fields that identify a request on one set. The other requests
  that consult the log are in \<open>Request_Replay\<close>.
\<close>

definition set_request :: "fabric_event \<Rightarrow> (mutation_context \<times> set_id \<times> string \<times> string list) option" where
  "set_request ev =
     (case ev of
        Ev_publish ctx sid \<Rightarrow> Some (ctx, sid, ''publish_set'', [''publish_set'', id_text sid])
      | Ev_minimum ctx sid n \<Rightarrow> Some (ctx, sid, ''set_minimum_usable_members'',
          [''set_minimum_usable_members'', id_text sid, nat_string n])
      | Ev_policy ctx sid b \<Rightarrow> Some (ctx, sid, ''set_conditional_authority_policy'',
          [''set_conditional_authority_policy'', id_text sid, bool_field b])
      | Ev_set_admin ctx sid b \<Rightarrow> Some (ctx, sid, ''set_admin_enabled'',
          [''set_admin_enabled'', id_text sid, bool_field b])
      | Ev_withdraw_set ctx sid reason \<Rightarrow> Some (ctx, sid, ''withdraw_set'', [''withdraw_set'', id_text sid, reason])
      | Ev_complete_withdrawal ctx sid \<Rightarrow> Some (ctx, sid, ''complete_withdrawal'', [''complete_withdrawal'', id_text sid])
      | Ev_revoke ctx sid reason detail \<Rightarrow> Some (ctx, sid, ''revoke_set'',
          [''revoke_set'', id_text sid, revocation_reason_text reason, detail])
      | Ev_retire ctx sid reason \<Rightarrow> Some (ctx, sid, ''retire_set'', [''retire_set'', id_text sid, reason])
      | Ev_add_members ctx sid requests operation _ _ \<Rightarrow>
          Some (ctx, sid, operation, bulk_fields operation sid requests)
      | Ev_remove_member ctx sid mid reason \<Rightarrow> Some (ctx, sid, ''remove_member'',
          [''remove_member'', id_text sid, id_text mid, reason])
      | Ev_withdraw_member ctx sid mid reason \<Rightarrow> Some (ctx, sid, ''withdraw_member'',
          [''withdraw_member'', id_text sid, id_text mid, reason])
      | Ev_replace_member ctx sid mid path g reason _ \<Rightarrow> Some (ctx, sid, ''replace_member'',
          [''replace_member'', id_text sid, id_text mid, id_text path, gen_text g, reason])
      | Ev_member_admin ctx sid mid b _ \<Rightarrow> Some (ctx, sid, ''set_member_admin_enabled'',
          [''set_member_admin_enabled'', id_text sid, id_text mid, bool_field b])
      | Ev_revalidate_set ctx sid _ \<Rightarrow> Some (ctx, sid, ''revalidate_set'', [''revalidate_set'', id_text sid])
      | Ev_revalidate_member ctx sid mid _ \<Rightarrow> Some (ctx, sid, ''revalidate_member'',
          [''revalidate_member'', id_text sid, id_text mid])
      | _ \<Rightarrow> None)"

lemma replay_event:
  assumes "set_request ev = Some (ctx, sid, operation, flds)" and "respond ev e = Some answer" and "succeeded (fst answer)"
    and "admit ctx sid operation flds e' = Inl a"
  shows "respond ev e' = Some (a, e')"
  using assms
  by (cases ev)
    (auto simp: set_request_def publish_set_def set_minimum_usable_members_def malformed_def
        set_conditional_authority_policy_def set_admin_enabled_def withdraw_set_def complete_withdrawal_def
        revoke_set_def retire_set_def add_members_locked_def remove_member_def withdraw_member_def
        replace_member_locked_def set_member_admin_enabled_locked_def revalidate_set_locked_def
        revalidate_member_locked_def Let_def succeeded_def outcome_is_success_def split: if_splits)

lemma admitted_event:
  assumes "set_request ev = Some (ctx, sid, operation, flds)" and "respond ev e = Some answer" and "succeeded (fst answer)"
    and "engine_ok e" and "fresh_attempt ctx e"
  obtains r where "admit ctx sid operation flds e = Inr r"
proof (cases "admit ctx sid operation flds e")
  case (Inl a)
  then have "respond ev e = Some (a, e)" using replay_event assms(1-3) by blast
  then show thesis using admit_fresh [OF assms(4,5) Inl] assms(2,3) by simp
qed (rule that)

lemma succeeded_rejection [simp]: "succeeded (make_rejection c d) = outcome_is_success c"
  by (simp add: succeeded_def)

lemma named_rejections [simp]:
  "\<not> succeeded (lifecycle_rejection l sid)" "\<not> succeeded (currentness_rejection c path)"
  "\<not> succeeded (members_limit sid how e)" "\<not> succeeded (total_limit how e)" "\<not> succeeded (dependency_limit path e)"
  "\<not> succeeded (generations_exhausted sid)" "\<not> succeeded (stale_set_generation ctx r)"
  "\<not> succeeded (stale_member_generation ctx m)" "\<not> succeeded (member_not_found sid mid)"
  "\<not> succeeded (set_generation_exhausted sid)" "\<not> succeeded (malformed text)"
  by (simp_all add: lifecycle_rejection_def currentness_rejection_def members_limit_def total_limit_def
      dependency_limit_def generations_exhausted_def stale_set_generation_def stale_member_generation_def
      member_not_found_def set_generation_exhausted_def malformed_def Let_def succeeded_def outcome_is_success_def
      split: set_lifecycle.split member_currentness.split)

lemma stale_request_rejects: "stale_request conditional inputs = Some rejection \<Longrightarrow> \<not> succeeded rejection"
  by (auto simp: stale_request_def split: option.splits)

lemma scan_duplicates_rejects: "scan_duplicates sid members seen requests = Inl rejection \<Longrightarrow> \<not> succeeded rejection"
proof (induction sid members seen requests rule: scan_duplicates.induct)
  case (2 sid members seen q requests)
  then show ?case
    by (cases "scan_duplicates sid members (seen @ [mr_path_id q]) requests")
      (auto simp: Let_def succeeded_def outcome_is_success_def split: if_splits option.splits)
qed simp

lemma publish_members_recorded:
  assumes "e_attempts e' = e_attempts e" and "e_limits e' = e_limits e"
  shows "recorded ctx operation (bulk_fields operation sid requests) e
    (publish_members ctx sid requests operation bulk views before n r e')"
proof -
  have "e_attempts (snd (snd (fold (publish_member ctx) inputs acc))) = e_attempts (snd (snd acc)) \<and>
        e_limits (snd (snd (fold (publish_member ctx) inputs acc))) = e_limits (snd (snd acc))" for inputs acc
    by (induction inputs arbitrary: acc) (simp_all add: publish_member_def Let_def case_prod_unfold)
  from this [of "zip requests views" "([], r, e')"] assms show ?thesis
    unfolding publish_members_def Let_def case_prod_unfold
    by (intro recorded_commit) simp_all
qed

lemma add_members_recorded:
  assumes "\<And>a. admit ctx sid operation (bulk_fields operation sid requests) e = Inl a \<Longrightarrow> \<not> succeeded a"
  shows "recorded ctx operation (bulk_fields operation sid requests) e
    (fst (add_members_locked ctx sid requests operation bulk views e))"
  using assms stale_request_rejects scan_duplicates_rejects
  by (simp add: add_members_locked_def Let_def publish_members_recorded recorded_rejected split: sum.split option.split)

lemma publish_set_recorded:
  assumes "\<And>a. admit ctx sid ''publish_set'' [''publish_set'', id_text sid] e = Inl a \<Longrightarrow> \<not> succeeded a"
  shows "recorded ctx ''publish_set'' [''publish_set'', id_text sid] e (publish_set ctx sid e)"
  unfolding publish_set_def Let_def
  by (intro recorded_intros) (simp_all add: assms)
lemma minimum_recorded:
  assumes "\<And>a. admit ctx sid ''set_minimum_usable_members'' [''set_minimum_usable_members'', id_text sid, nat_string n] e = Inl a \<Longrightarrow> \<not> succeeded a"
  shows "recorded ctx ''set_minimum_usable_members'' [''set_minimum_usable_members'', id_text sid, nat_string n] e (set_minimum_usable_members ctx sid n e)"
  unfolding set_minimum_usable_members_def Let_def
  by (intro recorded_intros) (simp_all add: assms outcome_is_success_def)

lemma policy_recorded:
  assumes "\<And>a. admit ctx sid ''set_conditional_authority_policy'' [''set_conditional_authority_policy'', id_text sid, bool_field b] e = Inl a \<Longrightarrow> \<not> succeeded a"
  shows "recorded ctx ''set_conditional_authority_policy'' [''set_conditional_authority_policy'', id_text sid, bool_field b] e (set_conditional_authority_policy ctx sid b e)"
  unfolding set_conditional_authority_policy_def Let_def
  by (intro recorded_intros) (simp_all add: assms outcome_is_success_def)

lemma set_admin_recorded:
  assumes "\<And>a. admit ctx sid ''set_admin_enabled'' [''set_admin_enabled'', id_text sid, bool_field b] e = Inl a \<Longrightarrow> \<not> succeeded a"
  shows "recorded ctx ''set_admin_enabled'' [''set_admin_enabled'', id_text sid, bool_field b] e (set_admin_enabled ctx sid b e)"
  unfolding set_admin_enabled_def Let_def
  by (intro recorded_intros) (simp_all add: assms outcome_is_success_def)

lemma withdraw_set_recorded:
  assumes "\<And>a. admit ctx sid ''withdraw_set'' [''withdraw_set'', id_text sid, reason] e = Inl a \<Longrightarrow> \<not> succeeded a"
  shows "recorded ctx ''withdraw_set'' [''withdraw_set'', id_text sid, reason] e (withdraw_set ctx sid reason e)"
  unfolding withdraw_set_def Let_def
  by (intro recorded_intros) (simp_all add: assms outcome_is_success_def)

lemma complete_withdrawal_recorded:
  assumes "\<And>a. admit ctx sid ''complete_withdrawal'' [''complete_withdrawal'', id_text sid] e = Inl a \<Longrightarrow> \<not> succeeded a"
  shows "recorded ctx ''complete_withdrawal'' [''complete_withdrawal'', id_text sid] e (complete_withdrawal ctx sid e)"
  unfolding complete_withdrawal_def Let_def
  by (intro recorded_intros) (simp_all add: assms outcome_is_success_def)

lemma revoke_set_recorded:
  assumes "\<And>a. admit ctx sid ''revoke_set'' [''revoke_set'', id_text sid, revocation_reason_text why, detail] e = Inl a \<Longrightarrow> \<not> succeeded a"
  shows "recorded ctx ''revoke_set'' [''revoke_set'', id_text sid, revocation_reason_text why, detail] e (revoke_set ctx sid why detail e)"
  unfolding revoke_set_def Let_def
  by (intro recorded_intros) (simp_all add: assms outcome_is_success_def)

lemma retire_set_recorded:
  assumes "\<And>a. admit ctx sid ''retire_set'' [''retire_set'', id_text sid, reason] e = Inl a \<Longrightarrow> \<not> succeeded a"
  shows "recorded ctx ''retire_set'' [''retire_set'', id_text sid, reason] e (retire_set ctx sid reason e)"
  unfolding retire_set_def Let_def
  by (intro recorded_intros) (simp_all add: assms outcome_is_success_def)

lemma remove_member_recorded:
  assumes "\<And>a. admit ctx sid ''remove_member'' [''remove_member'', id_text sid, id_text mid, reason] e = Inl a \<Longrightarrow> \<not> succeeded a"
  shows "recorded ctx ''remove_member'' [''remove_member'', id_text sid, id_text mid, reason] e (remove_member ctx sid mid reason e)"
  unfolding remove_member_def Let_def
  by (intro recorded_intros) (simp_all add: assms outcome_is_success_def)

lemma withdraw_member_recorded:
  assumes "\<And>a. admit ctx sid ''withdraw_member'' [''withdraw_member'', id_text sid, id_text mid, reason] e = Inl a \<Longrightarrow> \<not> succeeded a"
  shows "recorded ctx ''withdraw_member'' [''withdraw_member'', id_text sid, id_text mid, reason] e (withdraw_member ctx sid mid reason e)"
  unfolding withdraw_member_def Let_def
  by (intro recorded_intros) (simp_all add: assms outcome_is_success_def)

lemma replace_member_recorded:
  assumes "\<And>a. admit ctx sid ''replace_member'' [''replace_member'', id_text sid, id_text mid, id_text path, gen_text g, reason] e = Inl a \<Longrightarrow> \<not> succeeded a"
  shows "recorded ctx ''replace_member'' [''replace_member'', id_text sid, id_text mid, id_text path, gen_text g, reason] e
    (replace_member_locked ctx sid mid path g reason view e)"
  unfolding replace_member_locked_def Let_def
  by (intro recorded_intros) (simp_all add: assms outcome_is_success_def)

lemma member_admin_recorded:
  assumes "\<And>a. admit ctx sid ''set_member_admin_enabled'' [''set_member_admin_enabled'', id_text sid, id_text mid, bool_field b] e = Inl a \<Longrightarrow> \<not> succeeded a"
  shows "recorded ctx ''set_member_admin_enabled'' [''set_member_admin_enabled'', id_text sid, id_text mid, bool_field b] e
    (set_member_admin_enabled_locked ctx sid mid b view e)"
  unfolding set_member_admin_enabled_locked_def Let_def
  by (intro recorded_intros) (simp_all add: assms outcome_is_success_def)

lemma revalidate_set_recorded:
  assumes "\<And>a. admit ctx sid ''revalidate_set'' [''revalidate_set'', id_text sid] e = Inl a \<Longrightarrow> \<not> succeeded a"
  shows "recorded ctx ''revalidate_set'' [''revalidate_set'', id_text sid] e (fst (revalidate_set_locked ctx sid views e))"
  using assms
  by (simp add: revalidate_set_locked_def Let_def recorded_rejected recorded_commit recorded_unchanged split: sum.split)

lemma revalidate_member_recorded:
  assumes "\<And>a. admit ctx sid ''revalidate_member'' [''revalidate_member'', id_text sid, id_text mid] e = Inl a \<Longrightarrow> \<not> succeeded a"
  shows "recorded ctx ''revalidate_member'' [''revalidate_member'', id_text sid, id_text mid] e
    (fst (revalidate_member_locked ctx sid mid view e))"
  using assms
  by (simp add: revalidate_member_locked_def Let_def case_prod_unfold recorded_rejected recorded_commit recorded_unchanged
      outcome_is_success_def split: sum.split option.split)

lemmas operations_recorded = publish_set_recorded minimum_recorded policy_recorded set_admin_recorded withdraw_set_recorded
  complete_withdrawal_recorded revoke_set_recorded retire_set_recorded add_members_recorded remove_member_recorded
  withdraw_member_recorded replace_member_recorded member_admin_recorded revalidate_set_recorded revalidate_member_recorded

lemma event_recorded:
  assumes "set_request ev = Some (ctx, sid, operation, flds)" and "respond ev e = Some answer"
    and "\<And>a. admit ctx sid operation flds e = Inl a \<Longrightarrow> \<not> succeeded a"
  shows "recorded ctx operation flds e answer"
  using assms by (cases ev) (auto simp: set_request_def intro!: operations_recorded)

lemma event_recorded_fresh:
  assumes ok: "engine_ok e" and ev: "set_request ev = Some (ctx, sid, operation, flds)"
    and r: "respond ev e = Some (o1, e')" "succeeded o1" and fresh: "fresh_attempt ctx e"
  obtains e0 where "e' = record_attempt ctx operation flds o1 e0" "e_attempts e0 = e_attempts e" "e_limits e0 = e_limits e"
proof -
  have "recorded ctx operation flds e (o1, e')"
    by (rule event_recorded [OF ev r(1)]) (rule admit_fresh [OF ok fresh])
  then show thesis using that r(2) by (auto simp: recorded_def)
qed

lemma refused_event:
  assumes "set_request ev = Some (ctx, sid, operation, flds)" and "respond ev e = Some answer"
    and "admit ctx sid operation flds e = Inl a"
  shows "snd answer = e"
  using assms
  by (cases ev)
    (auto simp: set_request_def publish_set_def set_minimum_usable_members_def
        set_conditional_authority_policy_def set_admin_enabled_def withdraw_set_def complete_withdrawal_def
        revoke_set_def retire_set_def add_members_locked_def remove_member_def withdraw_member_def
        replace_member_locked_def set_member_admin_enabled_locked_def revalidate_set_locked_def
        revalidate_member_locked_def Let_def split: if_splits)

lemma set_request_not_authority: "set_request ev = Some q \<Longrightarrow> \<not> authority_event ev"
  by (cases ev) (simp_all add: set_request_def authority_event_def)

lemma authority_check_kept:
  assumes "kept e' = kept e" and "om_find (e_sets e) sid = Some r" and "om_find (e_sets e') sid = Some r'"
    and "s_id r' = s_id r" "s_key r' = s_key r" and "succeeded (authority_check ctx None (Some sid) e)"
  shows "succeeded (authority_check ctx None (Some sid) e')"
  using assms by (auto simp: authority_check_def kept_def Let_def split: if_splits option.splits)

text \<open>The replay: the same request again is answered from the log, and the state stays.\<close>

lemma admit_replayed:
  assumes ok: "engine_ok e" and ev: "set_request ev = Some (ctx, sid, operation, flds)" and en: "event_enabled ev e"
    and r: "respond ev e = Some (o1, e')" "succeeded o1" and fresh: "fresh_attempt ctx e"
    and room: "0 < max_attempts (e_limits e)"
  shows "admit ctx sid operation flds e' = Inl (replay_of o1)"
proof -
  have e': "e' = perform ev e" using respond_perform [OF r(1)] by simp
  obtain r0 where "admit ctx sid operation flds e = Inr r0"
    using admitted_event [OF ev r(1) _ ok fresh] r(2) by auto
  then have r0: "om_find (e_sets e) sid = Some r0" and auth: "succeeded (authority_check ctx None (Some sid) e)"
    using admit_InrD by blast+
  obtain r1 where r1: "om_find (e_sets e') sid = Some r1" "record_forward r0 r1"
    using perform_forward [OF ok en] r0 unfolding engine_forward_def sets_forward_def e' by blast
  have "succeeded (authority_check ctx None (Some sid) e')"
    using authority_check_kept [OF perform_kept [OF set_request_not_authority [OF ev], of e, folded e'] r0 r1(1) _ _ auth] r1(2)
    by (simp add: record_forward_def clocks_frame_def)
  moreover obtain e0 where "e' = record_attempt ctx operation flds o1 e0" "e_attempts e0 = e_attempts e" "e_limits e0 = e_limits e"
    using event_recorded_fresh [OF ok ev r fresh] .
  then have "attempt_check ctx operation flds e' = Some (replay_of o1)"
    using record_attempt_check(1) [of ctx e0] fresh room by (simp add: fresh_attempt_def)
  ultimately show ?thesis by (simp add: admit_def Let_def)
qed

lemma event_replayed:
  assumes "engine_ok e" and ev: "set_request ev = Some (ctx, sid, operation, flds)" and "event_enabled ev e"
    and r: "respond ev e = Some (o1, e')" "succeeded o1" and "fresh_attempt ctx e" and "0 < max_attempts (e_limits e)"
  shows "respond ev e' = Some (replay_of o1, e')"
  using replay_event [OF ev r(1) _ admit_replayed [OF assms]] r(2) by simp

text \<open>The attempt identity under another request: a conflict, and nothing happens.\<close>

lemma event_conflict:
  assumes ok: "engine_ok e" and ev: "set_request ev = Some (ctx, sid, operation, flds)" and en: "event_enabled ev e"
    and r: "respond ev e = Some (o1, e')" "succeeded o1" and fresh: "fresh_attempt ctx e"
    and room: "0 < max_attempts (e_limits e)"
    and other: "set_request ev' = Some (ctx, sid', operation', flds')"
    and differs: "fingerprint_request operation flds \<noteq> fingerprint_request operation' flds'"
    and o2: "respond ev' e' = Some (o2, e'')"
  shows "\<not> succeeded o2 \<and> e'' = e'"
proof -
  obtain e0 where e0: "e' = record_attempt ctx operation flds o1 e0" "e_attempts e0 = e_attempts e" "e_limits e0 = e_limits e"
    using event_recorded_fresh [OF ok ev r fresh] .
  then obtain o3 where o3: "attempt_check ctx operation' flds' e' = Some o3" "o_code o3 = OC_ATTEMPT_CONFLICT"
    using record_attempt_check(2) [of ctx e0, OF _ _ differs] fresh room by (auto simp: fresh_attempt_def)
  obtain a where a: "admit ctx sid' operation' flds' e' = Inl a" "\<not> succeeded a"
    using o3 by (cases "succeeded (authority_check ctx None (Some sid') e')")
      (simp_all add: admit_def Let_def succeeded_def outcome_is_success_def)
  have "\<not> succeeded o2" using replay_event [OF other o2 _ a(1)] a(2) o2 by auto
  then show ?thesis using refused_event [OF other o2 a(1)] by simp
qed

end
