(* ===== verification/Commit_Effects.thy ===== *)
theory Commit_Effects
  imports Attempt_Replay
begin

text \<open>
  What a commit leaves in the table of sets: the record it was given, with only terminal relations
  pruned and the archive within its bound; and from it the effect of publishing members.
\<close>

section \<open>Pruning\<close>

lemma prune_fold_find:
  assumes "fold prune_victim vs (pr, r, e) = (pr', r', e')"
  shows "om_find (s_members r') p = (if p \<in> set vs then None else om_find (s_members r) p)"
  using assms
proof (induction vs arbitrary: pr r e)
  case (Cons v vs)
  show ?case
  proof (cases "om_find (s_members r) v")
    case None
    then show ?thesis using Cons.IH [of pr r e] Cons.prems by (auto simp: prune_victim_None)
  next
    case (Some m)
    then show ?thesis
      using Cons.IH [of "pr @ [m_id m]" "drop_member v m r" "drop_relation v r e"] Cons.prems
      by (auto simp: prune_victim_Some drop_member_def)
  qed
qed simp

lemma archived_paths_iff:
  "p \<in> set (archived_paths r) \<longleftrightarrow> (\<exists>m. om_find (s_members r) p = Some m \<and> member_is_terminal m)"
  by (auto simp: archived_paths_def om_find_iff intro: rev_image_eqI)

lemma distinct_archived_paths: "distinct (archived_paths r)"
  unfolding archived_paths_def using distinct_om_keys [of "s_members r"] by (rule distinct_map_filter)

lemma clear_lineage_terminal [simp]: "member_is_terminal (clear_lineage pr m) = member_is_terminal m"
  by (simp add: member_is_terminal_def)

text \<open>Two member records that agree on everything but their lineage.\<close>

definition same_member :: "member_record \<Rightarrow> member_record \<Rightarrow> bool" where
  "same_member m m' \<longleftrightarrow> m' = m\<lparr>m_predecessor := m_predecessor m', m_successor := m_successor m'\<rparr>"

lemma same_member_refl [simp]: "same_member m m"
  by (simp add: same_member_def)

lemma same_member_fields:
  assumes "same_member m m'"
  shows "m_id m' = m_id m" "m_path_id m' = m_path_id m" "m_bound m' = m_bound m" "m_generation m' = m_generation m"
    "m_lifecycle m' = m_lifecycle m" "m_currentness m' = m_currentness m" "m_admin_enabled m' = m_admin_enabled m"
    "m_usable m' = m_usable m" "member_is_terminal m' = member_is_terminal m" "m_pending m' = m_pending m"
  by (subst assms [unfolded same_member_def], simp add: m_usable_def member_is_terminal_def)+

lemma same_member_clear: "same_member m (clear_lineage pr m)"
  by (simp add: same_member_def clear_lineage_def Let_def split: option.split)

lemma prune_archive_find:
  assumes "prune_archive r e = (r', e')"
  defines "victims \<equiv> take (length (archived_paths r) - max_archived_members_per_set (e_limits e)) (archived_paths r)"
  shows "p \<in> set victims \<Longrightarrow> om_find (s_members r') p = None"
    and "p \<notin> set victims \<Longrightarrow> om_find (s_members r) p = Some m \<Longrightarrow>
      \<exists>m'. om_find (s_members r') p = Some m' \<and> same_member m m'"
    and "om_find (s_members r) p = None \<Longrightarrow> om_find (s_members r') p = None"
proof -
  obtain pd r1 e1 where f: "fold prune_victim victims ([], r, e) = (pd, r1, e1)" by (metis prod_cases3)
  have r': "r' = (if pd = [] then r1 else map_members (clear_lineage pd) r1)"
    using assms(1) f by (auto simp: prune_archive_def Let_def victims_def split: if_splits)
  have m: "om_find (s_members r') p = map_option (if pd = [] then id else clear_lineage pd) (om_find (s_members r1) p)" for p
    by (cases "om_find (s_members r1) p") (simp_all add: r' map_members_def)
  note find = prune_fold_find [OF f]
  show "p \<in> set victims \<Longrightarrow> om_find (s_members r') p = None" using m find by simp
  show "p \<notin> set victims \<Longrightarrow> om_find (s_members r) p = Some m \<Longrightarrow>
      \<exists>m'. om_find (s_members r') p = Some m' \<and> same_member m m'"
    using m [of p] find [of p] same_member_clear by simp
  show "om_find (s_members r) p = None \<Longrightarrow> om_find (s_members r') p = None" using m find by simp
qed

lemma prune_archive_live:
  assumes "prune_archive r e = (r', e')" and "om_find (s_members r) p = Some m" and "\<not> member_is_terminal m"
  shows "\<exists>m'. om_find (s_members r') p = Some m' \<and> same_member m m'"
proof -
  have "p \<notin> set (take n (archived_paths r))" for n
    using assms(2,3) archived_paths_iff [of p r] by (auto dest: in_set_takeD)
  then show ?thesis using prune_archive_find(2) [OF assms(1) _ assms(2)] by blast
qed

lemma prune_archive_bound:
  assumes "prune_archive r e = (r', e')"
  shows "archived_member_count r' \<le> max_archived_members_per_set (e_limits e)"
proof -
  let ?k = "length (archived_paths r) - max_archived_members_per_set (e_limits e)"
  have "{p. \<exists>m. om_find (s_members r') p = Some m \<and> member_is_terminal m} \<subseteq> set (drop ?k (archived_paths r))"
  proof
    fix p assume "p \<in> {p. \<exists>m. om_find (s_members r') p = Some m \<and> member_is_terminal m}"
    then obtain m' where m': "om_find (s_members r') p = Some m'" "member_is_terminal m'" by blast
    then obtain m where m: "om_find (s_members r) p = Some m"
      using prune_archive_find(3) [OF assms, of p] by (cases "om_find (s_members r) p") auto
    have v: "p \<notin> set (take ?k (archived_paths r))" using prune_archive_find(1) [OF assms, of p] m'(1) by auto
    then have "member_is_terminal m" using prune_archive_find(2) [OF assms v m] m' same_member_fields(9) by auto
    then have "p \<in> set (take ?k (archived_paths r) @ drop ?k (archived_paths r))"
      using m archived_paths_iff [of p r] by simp
    then show "p \<in> set (drop ?k (archived_paths r))" using v by (simp only: set_append Un_iff simp_thms)
  qed
  from card_mono [OF _ this] have "archived_member_count r' \<le> card (set (drop ?k (archived_paths r)))"
    by (simp add: archived_member_count_def om_count_card)
  also have "\<dots> \<le> length (drop ?k (archived_paths r))" by (rule card_length)
  also have "\<dots> \<le> max_archived_members_per_set (e_limits e)" by simp
  finally show ?thesis .
qed

section \<open>The committed record\<close>

text \<open>
  The record in the table after a commit: governance state as given, live relations as given, archive
  within its bound, no relation that was not there.
\<close>

definition committed_from :: "limits \<Rightarrow> set_record \<Rightarrow> set_record \<Rightarrow> bool" where
  "committed_from lim r r' \<longleftrightarrow>
     s_id r' = s_id r \<and> s_key r' = s_key r \<and> s_lifecycle r' = s_lifecycle r \<and> s_currentness r' = s_currentness r \<and>
     s_admin_enabled r' = s_admin_enabled r \<and> s_minimum r' = s_minimum r \<and> s_usable r' = s_usable r \<and>
     s_conditional r' = s_conditional r \<and> s_revocation r' = s_revocation r \<and> s_superseded_by r' = s_superseded_by r \<and>
     archived_member_count r' \<le> max_archived_members_per_set lim \<and>
     (\<forall>p m. om_find (s_members r) p = Some m \<longrightarrow> \<not> member_is_terminal m \<longrightarrow>
        (\<exists>m'. om_find (s_members r') p = Some m' \<and> same_member m m')) \<and>
     (\<forall>p. om_find (s_members r) p = None \<longrightarrow> om_find (s_members r') p = None)"

lemma commit_advanced_stored:
  "\<exists>r'. om_find (e_sets (snd (commit_advanced r ctx operation flds spec o1 e))) (s_id r) = Some r' \<and>
     committed_from (e_limits e) r r' \<and> s_generation r' = s_generation r"
proof -
  let ?r = "r\<lparr>s_provenance := make_provenance ctx (cs_cause spec) r\<rparr>"
  obtain r2 e2 where pr: "prune_archive ?r e = (r2, e2)" by fastforce
  note fields = without_members_fields [OF prune_archive_without(1) [OF pr]]
  let ?r3 = "append_history (e_limits e2) (e_epoch e2) (cs_event spec) (cs_cause spec) (Some ctx)
        (cs_member_id spec) (cs_path_id spec) (cs_summary spec) r2"
  have "archived_member_count ?r3 = archived_member_count r2" by (simp add: archived_member_count_def)
  then have "committed_from (e_limits e) r ?r3"
    using fields prune_archive_bound [OF pr] prune_archive_live [OF pr] prune_archive_find(3) [OF pr]
    by (auto simp: committed_from_def append_history_def Let_def)
  moreover have "s_generation ?r3 = s_generation r" using fields by simp
  moreover have "om_find (e_sets (snd (commit_advanced r ctx operation flds spec o1 e))) (s_id r) = Some ?r3"
    using fields by (simp add: commit_advanced_def Let_def pr)
  ultimately show ?thesis by blast
qed

lemma commit_stored:
  assumes "succeeded (fst (commit r ctx operation flds spec o1 e))" and "cs_advance_set_generation spec"
  shows "\<exists>r'. om_find (e_sets (snd (commit r ctx operation flds spec o1 e))) (s_id r) = Some r' \<and>
     committed_from (e_limits e) r r' \<and> gen_next (s_generation r) = Some (s_generation r')"
proof (cases rule: commit_cases [of r ctx operation flds spec o1 e])
  case (fails r1)
  then show ?thesis using assms(1) by simp
next
  case (commits r1)
  obtain r' where r': "om_find (e_sets (snd (commit r ctx operation flds spec o1 e))) (s_id r1) = Some r'"
      "committed_from (e_limits e) r1 r'" "s_generation r' = s_generation r1"
    using commit_advanced_stored [of r1 ctx operation flds spec o1 e] commits(1) by auto
  have "committed_from (e_limits e) r r'"
    using r'(2) commits unfolding committed_from_def by simp
  then show ?thesis using r' commits(2,15) assms(2) by auto
qed

end
