(* ===== verification/Membership_Effects.thy ===== *)
theory Membership_Effects
  imports Commit_Effects
begin

text \<open>
  The effect of the membership operations on the stored set: a published batch is in the table, usable
  and bound as requested; an applied Path Authority view leaves no member usable without its evidence.
\<close>

section \<open>A published batch\<close>

lemma admitted_member_usable:
  assumes "classify_path_authority view g cond = MC_CURRENT"
    and m: "m = evaluate_member cond view False (new_member mid path g pre pv)"
  shows "m_usable m" "m_admin_enabled m" "m_bound m = g" "m_path_id m = path" "m_id m = mid"
    "m_lifecycle m = ML_CURRENT" "m_currentness m = MC_CURRENT" "m_generation m = gen_first" "m_pending m = 0"
proof -
  have n: "m_lifecycle (new_member mid path g pre pv) = ML_PENDING" "m_admin_enabled (new_member mid path g pre pv)"
      "m_bound (new_member mid path g pre pv) = g" "m_path_id (new_member mid path g pre pv) = path"
      "m_id (new_member mid path g pre pv) = mid" by (simp_all add: new_member_def)
  let ?o = "record_observation view (new_member mid path g pre pv)"
  have o: "m_lifecycle ?o = ML_PENDING" "m_admin_enabled ?o" "m_bound ?o = g" "m_path_id ?o = path" "m_id ?o = mid"
    using n by (simp_all add: record_observation_def split: option.split)
  have c: "observed_currentness cond view ?o = MC_CURRENT" using o assms(1) by (simp add: observed_currentness_def)
  have b: "m_lifecycle (bump_member_watermark w) = m_lifecycle w" "m_currentness (bump_member_watermark w) = m_currentness w"
      "m_admin_enabled (bump_member_watermark w) = m_admin_enabled w" "m_bound (bump_member_watermark w) = m_bound w"
      "m_path_id (bump_member_watermark w) = m_path_id w" "m_id (bump_member_watermark w) = m_id w" for w
    by (simp_all add: bump_member_watermark_def split: option.split)
  have t: "member_transition ML_PENDING ME_INPUTS_USABLE = Some ML_CURRENT" by code_simp
  have "m = apply_member_event ME_INPUTS_USABLE (note_currentness MC_CURRENT ?o)"
    using n c by (simp add: m evaluate_member_def Let_def evaluation_event_def)
  then show "m_admin_enabled m" "m_bound m = g" "m_path_id m = path" "m_id m = mid"
      "m_lifecycle m = ML_CURRENT" "m_currentness m = MC_CURRENT"
    using o t by (simp_all add: apply_member_event_def note_currentness_def Let_def b)
  then show "m_usable m" by (simp add: m_usable_def member_is_usable_def)
  show "m_generation m = gen_first" "m_pending m = 0" by (simp_all add: m new_member_def)
qed

text \<open>
  What a request asks for: a new usable member on its path, bound to its generation, with no revalidation
  pending.
\<close>

definition granted :: "member_request \<Rightarrow> member_record \<Rightarrow> bool" where
  "granted q m \<longleftrightarrow> m_path_id m = mr_path_id q \<and> m_bound m = mr_generation q \<and> m_usable m \<and> m_admin_enabled m \<and>
     m_generation m = gen_first \<and> m_pending m = 0"

lemma granted_same: "granted q m \<Longrightarrow> same_member m m' \<Longrightarrow> granted q m'"
  by (simp add: granted_def same_member_fields)

lemma granted_live: "granted q m \<Longrightarrow> \<not> member_is_terminal m"
  using terminal_not_usable by (auto simp: granted_def)

lemma publish_member_find:
  assumes "publish_member ctx (q, view) (added, r, e) = (added', r', e')"
    and "classify_path_authority view (mr_generation q) (s_conditional r) = MC_CURRENT"
  shows "\<exists>m. om_find (s_members r') (mr_path_id q) = Some m \<and> granted q m"
    and "p \<noteq> mr_path_id q \<Longrightarrow> om_find (s_members r') p = om_find (s_members r) p"
    and "s_conditional r' = s_conditional r" and "s_id r' = s_id r" and "e_limits e' = e_limits e"
  using assms(1) admitted_member_usable [OF assms(2) refl]
  by (auto simp: publish_member_def Let_def case_prod_unfold granted_def m_usable_def split: option.splits)

lemma publish_fold_find:
  assumes "fold (publish_member ctx) inputs (added, r, e) = (added', r', e')"
    and "distinct (map (mr_path_id \<circ> fst) inputs)"
    and "\<And>q view. (q, view) \<in> set inputs \<Longrightarrow> classify_path_authority view (mr_generation q) (s_conditional r) = MC_CURRENT"
  shows "((q, view) \<in> set inputs \<longrightarrow> (\<exists>m. om_find (s_members r') (mr_path_id q) = Some m \<and> granted q m)) \<and>
    (p \<notin> (mr_path_id \<circ> fst) ` set inputs \<longrightarrow> om_find (s_members r') p = om_find (s_members r) p) \<and>
    s_id r' = s_id r \<and> e_limits e' = e_limits e"
  using assms
proof (induction inputs arbitrary: added r e p)
  case (Cons i inputs)
  obtain q0 v0 where i: "i = (q0, v0)" by fastforce
  obtain a1 r1 e1 where step: "publish_member ctx (q0, v0) (added, r, e) = (a1, r1, e1)" by (metis prod_cases3)
  note s = publish_member_find [OF step Cons.prems(3) [of q0 v0, unfolded i, simplified]]
  have f: "fold (publish_member ctx) inputs (a1, r1, e1) = (added', r', e')" using Cons.prems(1) i step by simp
  have "distinct (map (mr_path_id \<circ> fst) inputs)" "mr_path_id q0 \<notin> (mr_path_id \<circ> fst) ` set inputs"
    using Cons.prems(2) i by (auto simp: comp_def)
  note IH = Cons.IH [OF f this(1)] and out = this(2)
  have IH': "((q, view) \<in> set inputs \<longrightarrow> (\<exists>m. om_find (s_members r') (mr_path_id q) = Some m \<and> granted q m)) \<and>
    (p \<notin> (mr_path_id \<circ> fst) ` set inputs \<longrightarrow> om_find (s_members r') p = om_find (s_members r1) p) \<and>
    s_id r' = s_id r1 \<and> e_limits e' = e_limits e1" for p
    by (rule IH) (use Cons.prems(3) s(3) in auto)
  show ?case
    using IH' [of p] IH' [of "mr_path_id q0"] s i out by auto
qed simp

lemma scan_duplicates_distinct:
  "scan_duplicates sid members seen requests = Inr flags \<Longrightarrow>
   distinct (map mr_path_id requests) \<and> set seen \<inter> mr_path_id ` set requests = {}"
proof (induction requests arbitrary: seen flags)
  case (Cons q requests)
  then obtain rest where "mr_path_id q \<notin> set seen" "scan_duplicates sid members (seen @ [mr_path_id q]) requests = Inr rest"
    unfolding scan_duplicates_Cons by blast
  then show ?case using Cons.IH [of "seen @ [mr_path_id q]" rest] by auto
qed simp

lemma apply_transition_conditional: "apply_transition r ev = Inr r' \<Longrightarrow> s_conditional r' = s_conditional r"
  by (auto simp: apply_transition_def Let_def split: set_transition_action.splits)

lemma stale_request_None:
  assumes "stale_request cond inputs = None" and "(q, view) \<in> set inputs"
  shows "classify_path_authority view (mr_generation q) cond = MC_CURRENT"
  using assms by (auto simp: stale_request_def find_None_iff split: option.splits)

lemma add_members_reached:
  assumes "add_members_locked ctx sid requests operation bulk views e = ((o1, e'), True)"
  obtains r r1 flags where "admit ctx sid operation (bulk_fields operation sid requests) e = Inr r"
    "apply_transition r SE_MEMBER_ADDED = Inr r1" "stale_request (s_conditional r) (zip requests views) = None"
    "scan_duplicates sid (s_members r) [] requests = Inr flags"
    "publish_members ctx sid requests operation bulk views (s_lifecycle r) (length (filter Not flags)) r1 e = (o1, e')"
  using assms by (auto simp: add_members_locked_def Let_def split: sum.splits option.splits if_splits)

lemma add_members_stored:
  assumes out: "add_members_locked ctx sid requests operation bulk views e = ((o1, e'), True)"
    and good: "succeeded o1" and ok: "engine_ok e" and len: "length views = length requests"
  shows "\<exists>r'. om_find (e_sets e') sid = Some r' \<and>
    (\<forall>q \<in> set requests. \<exists>m. om_find (s_members r') (mr_path_id q) = Some m \<and> granted q m) \<and>
    archived_member_count r' \<le> max_archived_members_per_set (e_limits e)"
proof -
  obtain r r1 flags where r: "admit ctx sid operation (bulk_fields operation sid requests) e = Inr r"
    and step: "apply_transition r SE_MEMBER_ADDED = Inr r1" and fresh: "stale_request (s_conditional r) (zip requests views) = None"
    and scan: "scan_duplicates sid (s_members r) [] requests = Inr flags"
    and pub: "publish_members ctx sid requests operation bulk views (s_lifecycle r) (length (filter Not flags)) r1 e = (o1, e')"
    by (rule add_members_reached [OF out])
  obtain added r2 e2 where f: "fold (publish_member ctx) (zip requests views) ([], r1, e) = (added, r2, e2)"
    by (metis prod_cases3)
  have paths: "map (mr_path_id \<circ> fst) (zip requests views) = map mr_path_id requests"
    using len map_fst_zip [of requests views] by (metis list.map_comp)
  note fold = publish_fold_find [OF f, unfolded paths]
  have "\<exists>m. om_find (s_members r2) (mr_path_id q) = Some m \<and> granted q m" if q: "q \<in> set requests" for q
  proof -
    obtain view where "(q, view) \<in> set (zip requests views)" using q len by (metis in_set_impl_in_set_zip1)
    then show ?thesis
      using fold [of q view undefined] scan_duplicates_distinct [OF scan] stale_request_None [OF fresh]
        apply_transition_conditional [OF step] by auto
  qed
  note grant = this
  have sid: "s_id r2 = sid" "e_limits e2 = e_limits e"
    using fold [of undefined undefined undefined] scan_duplicates_distinct [OF scan] stale_request_None [OF fresh]
      apply_transition_conditional [OF step] apply_transition_keeps(3) [OF step]
      stored_set(1) [OF ok admit_InrD [OF r, THEN conjunct1]] by auto
  obtain spec o2 where c: "commit (recompute r2) ctx operation (bulk_fields operation sid requests) spec o2
      (e2\<lparr>e_total_members := e_total_members e2 + length (filter Not flags)\<rparr>) = (o1, e')" "cs_advance_set_generation spec"
    using pub unfolding publish_members_def Let_def f prod.case
    by (rule that) (simp add: commit_spec_for_def)
  obtain r' where r': "om_find (e_sets e') sid = Some r'" "committed_from (e_limits e) (recompute r2) r'"
    using commit_stored [OF _ c(2), of "recompute r2" ctx operation "bulk_fields operation sid requests" o2
        "e2\<lparr>e_total_members := e_total_members e2 + length (filter Not flags)\<rparr>"] good sid
    unfolding c(1) by auto
  have "\<exists>m. om_find (s_members r') (mr_path_id q) = Some m \<and> granted q m" if q: "q \<in> set requests" for q
    using grant [OF q] r'(2) granted_live granted_same unfolding committed_from_def recompute_simps by blast
  then show ?thesis using r' by (auto simp: committed_from_def)
qed

section \<open>An applied view\<close>

text \<open>
  After a view was applied, a member on its path that is still usable in a live set matches it.
\<close>

lemma evaluate_member_matches:
  assumes "m_usable (evaluate_member cond view b m)"
  shows "classify_path_authority view (m_bound m) cond = MC_CURRENT"
proof -
  have "m_currentness (evaluate_member cond view b m) = MC_CURRENT"
    using assms by (auto simp: m_usable_def member_is_usable_def)
  then show ?thesis by (simp add: observed_currentness_def split: if_splits)
qed

lemma viewed_record_members [simp]: "s_members (viewed_record e path ctx cause r) = s_members r"
  "s_conditional (viewed_record e path ctx cause r) = s_conditional r"
  by (simp_all add: viewed_record_def Let_def)

definition view_matches :: "path_id \<Rightarrow> path_authority_view option \<Rightarrow> set_record \<Rightarrow> bool" where
  "view_matches path view r \<longleftrightarrow> s_terminal r \<or>
     (\<forall>m. om_find (s_members r) path = Some m \<longrightarrow> m_usable m \<longrightarrow>
        classify_path_authority view (m_bound m) (s_conditional r) = MC_CURRENT)"

lemma apply_view_to_set_matches:
  assumes ok: "engine_ok e" and r': "om_find (e_sets (snd (apply_view_to_set path view ctx cause sid (n, e)))) sid = Some r'"
  shows "view_matches path view r'"
proof (cases rule: apply_view_to_set_cases [of path view ctx cause sid n e])
  case skip
  then show ?thesis using r' by (auto simp: view_matches_def)
next
  case (same r m)
  then show ?thesis
    using r' stored_set(1) [OF ok same(1)] evaluate_member_matches [of "s_conditional r" view False m]
    by (auto simp: view_matches_def)
next
  case (changed r m r5)
  have "s_id r5 = s_id r"
    unfolding changed(4) using viewed_record_frame by (simp add: set_frame_def clocks_frame_def)
  then show ?thesis
    using r' changed stored_set(1) [OF ok changed(1)] evaluate_member_matches [of "s_conditional r" view False m]
    by (auto simp: view_matches_def)
qed

lemma apply_view_fold_matches:
  assumes "engine_ok (snd acc)" and "distinct sids" and "sid \<in> set sids"
    and "om_find (e_sets (snd (fold (apply_view_to_set path view ctx cause) sids acc))) sid = Some r'"
  shows "view_matches path view r'"
  using assms
proof (induction sids arbitrary: acc)
  case (Cons s sids)
  let ?acc = "apply_view_to_set path view ctx cause s acc"
  have ok: "engine_ok (snd ?acc)"
    using apply_view_to_set_ok [OF Cons.prems(1), of path view ctx cause s "fst acc"] by simp
  show ?case
  proof (cases "sid = s")
    case True
    then have "om_find (e_sets (snd ?acc)) s = Some r'"
      using apply_view_fold_other [OF ok, of s sids path view ctx cause] Cons.prems(2,4) by simp
    then show ?thesis
      using apply_view_to_set_matches [OF Cons.prems(1), of path view ctx cause s "fst acc"] by simp
  next
    case False
    then show ?thesis using Cons.IH [OF ok] Cons.prems(2-4) by simp
  qed
qed simp

lemma apply_view_matches:
  assumes ok: "engine_ok e" and r': "om_find (e_sets (snd (apply_view path view ctx cause e))) sid = Some r'"
  shows "view_matches path view r'"
proof (cases "om_has (dependents_of path e) sid")
  case True
  moreover have "distinct (om_keys (dependents_of path e))" by (simp add: om_keys_def)
  ultimately show ?thesis
    using apply_view_fold_matches [of "(0, e)" "om_keys (dependents_of path e)" sid path view ctx cause r'] ok r'
    by (simp add: apply_view_def set_om_keys_has)
next
  case False
  then have "om_find (e_sets e) sid = Some r'" using apply_view_other [OF ok False] r' by simp
  then have "om_find (s_members r') path = None"
    using False engine_okD(3) [OF ok] by (cases "om_find (s_members r') path") (auto simp: dependents_ok_def om_has_def)
  then show ?thesis by (simp add: view_matches_def)
qed

end
