(* ===== verification/Query_Facts.thy ===== *)
theory Query_Facts
  imports Membership_Effects
begin

text \<open>
  What the queries tell a consumer in a good state: the indexes answer like a scan of the table, a
  snapshot shows the stored members, a consumable set has the members its lifecycle promises, and a
  diff without entries means that the two snapshots agree.
\<close>

section \<open>Lookups answer like a scan of the table\<close>

lemma find_set_by_key_scan:
  assumes "engine_ok e"
  shows "find_set_by_key key e = Some sid \<longleftrightarrow> (\<exists>r. om_find (e_sets e) sid = Some r \<and> s_key r = key)"
  using engine_okD(2) [OF assms] by (auto simp: find_set_by_key_def keys_ok_def index_ok_def)

lemma sorted_om_keys [simp]: "sorted (om_keys m)" "distinct (om_keys m)"
  using ascending_entries [of m] strict_sorted_iff [of "map fst (om_entries m)"] by (simp_all only: om_keys_def)

lemma sets_for_path_scan:
  assumes "engine_ok e"
  shows "sets_for_path path e =
    filter (\<lambda>sid. \<exists>r. om_find (e_sets e) sid = Some r \<and> om_has (s_members r) path) (list_sets e)"
proof (rule sorted_distinct_set_unique)
  have dep: "sets_for_path path e = om_keys (dependents_of path e)"
    by (simp add: sets_for_path_def dependents_of_def om_keys_def split: option.split)
  show "sorted (sets_for_path path e)" "distinct (sets_for_path path e)"
    unfolding dep by simp_all
  show "sorted (filter (\<lambda>sid. \<exists>r. om_find (e_sets e) sid = Some r \<and> om_has (s_members r) path) (list_sets e))"
    "distinct (filter (\<lambda>sid. \<exists>r. om_find (e_sets e) sid = Some r \<and> om_has (s_members r) path) (list_sets e))"
    unfolding list_sets_def by (simp_all add: sorted_wrt_filter)
  show "set (sets_for_path path e) =
    set (filter (\<lambda>sid. \<exists>r. om_find (e_sets e) sid = Some r \<and> om_has (s_members r) path) (list_sets e))"
  proof -
    have "om_has (dependents_of path e) sid \<longleftrightarrow> (\<exists>r. om_find (e_sets e) sid = Some r \<and> om_has (s_members r) path)" for sid
      using engine_okD(3) [OF assms] by (simp add: dependents_ok_def)
    moreover have "om_has (e_sets e) sid" if "om_find (e_sets e) sid = Some r" for sid r
      using that by (simp add: om_has_def)
    ultimately show ?thesis by (auto simp: dep set_om_keys_has list_sets_def)
  qed
qed

section \<open>Snapshots\<close>

lemma find_make_member:
  assumes "tables_ok r"
  shows "find_member_by_path path (make_snapshot r) = map_option make_member_snapshot (om_find (s_members r) path)"
proof -
  have "List.find (\<lambda>m. ms_path_id m = path) (map make_member_snapshot (map snd xs)) = map_option make_member_snapshot (map_of xs path)"
    if "\<forall>(p, m) \<in> set xs. m_path_id m = p" for xs
    using that by (induction xs) (auto simp: make_member_snapshot_def)
  moreover have "\<forall>(p, m) \<in> set (om_entries (s_members r)). m_path_id m = p"
    using assms by (auto simp: tables_ok_def om_find_iff)
  ultimately show ?thesis
    by (simp add: find_member_by_path_def make_snapshot_def om_values_def om_find_eq_map_of)
qed

text \<open>A consumable set: published, enabled, current, with the usable members its lifecycle promises.\<close>

lemma consumable_set:
  assumes core: "set_core lim r" and c: "set_is_consumable r"
  shows "s_published r" "s_admin_enabled r" "s_currentness r = SC_CURRENT" "1 \<le> recompute_usable_members r \<or> s_minimum r = 0"
    "s_lifecycle r = SL_ACTIVE \<and> s_minimum r \<le> recompute_usable_members r \<or>
     s_lifecycle r = SL_DEGRADED \<and> recompute_usable_members r < s_minimum r \<and> 1 \<le> recompute_usable_members r"
proof -
  show *: "s_published r" "s_admin_enabled r" "s_currentness r = SC_CURRENT"
    using c by (auto simp: set_is_consumable_def split: if_splits)
  have l: "s_lifecycle r = SL_ACTIVE \<or> s_lifecycle r = SL_DEGRADED"
    using c by (auto simp: set_is_consumable_def split: if_splits)
  then have "s_lifecycle r = derive_published_lifecycle (s_usable r) (s_minimum r) (s_admin_enabled r)"
    and "s_usable r = recompute_usable_members r"
    using set_coreD(3) [OF core] by (auto simp: derived_ok_def lifecycle_ok_def derived_lifecycle_def)
  then show d: "s_lifecycle r = SL_ACTIVE \<and> s_minimum r \<le> recompute_usable_members r \<or>
     s_lifecycle r = SL_DEGRADED \<and> recompute_usable_members r < s_minimum r \<and> 1 \<le> recompute_usable_members r"
    using l *(2) by (auto simp: derive_published_lifecycle_def split: if_splits)
  then show "1 \<le> recompute_usable_members r \<or> s_minimum r = 0" by linarith
qed

section \<open>Diffs\<close>

lemma add_entry_Nil [simp]: "add_entry k s b a = [] \<longleftrightarrow> b = a"
  by (simp add: add_entry_def)

lemma gen_text_inject [simp]: "gen_text g = gen_text h \<longleftrightarrow> g = h"
  by (cases g; cases h) (simp add: gen_text_def u64_string_def word_unat_eq_iff)

lemma bool_text_inject [simp]: "bool_text a = bool_text b \<longleftrightarrow> a = b"
  by (simp add: bool_text_def)

lemma sort_key_Nil [simp]: "sort_key f xs = [] \<longleftrightarrow> xs = []"
  by (metis length_0_conv length_sort)

text \<open>
  Two snapshots of a member that a diff does not tell apart: it compares neither predecessor and successor nor
  watermark and provenance.
\<close>

definition same_view :: "member_snapshot \<Rightarrow> member_snapshot \<Rightarrow> bool" where
  "same_view l r \<longleftrightarrow> ms_id l = ms_id r \<and> ms_bound l = ms_bound r \<and> ms_lifecycle l = ms_lifecycle r \<and>
     ms_currentness l = ms_currentness r \<and> ms_admin_enabled l = ms_admin_enabled r \<and>
     ms_generation l = ms_generation r \<and> ms_pending l = ms_pending r"

lemma member_changes_Nil: "member_changes path l r = [] \<longleftrightarrow> same_view l r"
  by (auto simp: member_changes_def same_view_def member_lifecycle_text_inject member_currentness_text_inject
      word_unat_eq_iff [of "ms_pending l"] intro: strong_id.expand)

lemma all_paths_set: "set (all_paths a b) = {p. om_find a p \<noteq> None \<or> om_find b p \<noteq> None}"
  by (auto simp: all_paths_def set_om_keys om_has_def)

lemma diff_entries_Nil:
  assumes named: "\<And>s path m. s \<in> {before, after} \<Longrightarrow> om_find (members_by_path s) path = Some m \<Longrightarrow> id_text (ms_id m) \<noteq> ''-''"
  shows "diff_entries before after = [] \<longleftrightarrow> set_entries before after = [] \<and>
     (\<forall>path. rel_option same_view (om_find (members_by_path before) path) (om_find (members_by_path after) path))"
proof -
  have "path_entries (members_by_path before) (members_by_path after) path = [] \<longleftrightarrow>
      rel_option same_view (om_find (members_by_path before) path) (om_find (members_by_path after) path)" for path
    using named [of before path] named [of after path]
    by (cases "om_find (members_by_path before) path"; cases "om_find (members_by_path after) path")
      (auto simp: path_entries_def member_changes_Nil)
  moreover have "rel_option same_view None None" by simp
  ultimately show ?thesis
    unfolding diff_entries_def append_is_Nil_conv concat_eq_Nil_conv
    by (auto simp: all_paths_set) (metis not_None_eq rel_option_None1)
qed

end
