(* ===== verification/Explanation.thy ===== *)
theory Explanation
  imports Fabric_Query
begin

text \<open>
  \<open>include/multipath_fabric/explanation.hpp\<close> and \<open>src/explanation.cpp\<close>: why a set is in its state, why a
  member does not count and at which stage a request was rejected, with the renderings of explanations
  and snapshots; then the lemmas that the reasons are true of the state they explain.
\<close>

section \<open>Reasons\<close>

datatype (plugins only: code size) explanation_reason =
    ER_SET_PUBLISHED_AND_THRESHOLD_MET
  | ER_SET_BELOW_MINIMUM
  | ER_SET_ZERO_USABLE_MEMBERS
  | ER_SET_ADMIN_DISABLED
  | ER_SET_CURRENTNESS_NOT_ESTABLISHED
  | ER_SET_NOT_PUBLISHED
  | ER_SET_WITHDRAWN
  | ER_SET_SUPERSEDED
  | ER_SET_REVOKED
  | ER_SET_RETIRED
  | ER_MEMBER_USABLE
  | ER_MEMBER_PATH_AUTHORITY_GENERATION_STALE
  | ER_MEMBER_PATH_STATE_NOT_USABLE
  | ER_MEMBER_PATH_CONDITIONALLY_NOT_PERMITTED
  | ER_MEMBER_PATH_AUTHORITY_UNKNOWN
  | ER_MEMBER_ADMIN_DISABLED
  | ER_MEMBER_LIFECYCLE_NOT_CURRENT
  | ER_MEMBER_SET_NOT_USABLE
  | ER_MEMBER_EPOCH_STALE
  | ER_MEMBER_AUTHORITY_FENCED
  | ER_MEMBER_PENDING_EVALUATION
  | ER_MEMBER_PENDING_REVALIDATION
  | ER_MINIMUM_MEMBERSHIP_UNSATISFIED
  | ER_EXPLANATION_TRUNCATED

definition all_explanation_reasons :: "explanation_reason list" where
  "all_explanation_reasons =
     [ER_SET_PUBLISHED_AND_THRESHOLD_MET,
      ER_SET_BELOW_MINIMUM,
      ER_SET_ZERO_USABLE_MEMBERS,
      ER_SET_ADMIN_DISABLED,
      ER_SET_CURRENTNESS_NOT_ESTABLISHED,
      ER_SET_NOT_PUBLISHED,
      ER_SET_WITHDRAWN,
      ER_SET_SUPERSEDED,
      ER_SET_REVOKED,
      ER_SET_RETIRED,
      ER_MEMBER_USABLE,
      ER_MEMBER_PATH_AUTHORITY_GENERATION_STALE,
      ER_MEMBER_PATH_STATE_NOT_USABLE,
      ER_MEMBER_PATH_CONDITIONALLY_NOT_PERMITTED,
      ER_MEMBER_PATH_AUTHORITY_UNKNOWN,
      ER_MEMBER_ADMIN_DISABLED,
      ER_MEMBER_LIFECYCLE_NOT_CURRENT,
      ER_MEMBER_SET_NOT_USABLE,
      ER_MEMBER_EPOCH_STALE,
      ER_MEMBER_AUTHORITY_FENCED,
      ER_MEMBER_PENDING_EVALUATION,
      ER_MEMBER_PENDING_REVALIDATION,
      ER_MINIMUM_MEMBERSHIP_UNSATISFIED,
      ER_EXPLANATION_TRUNCATED]"

primrec explanation_reason_text :: "explanation_reason \<Rightarrow> string" where
  "explanation_reason_text ER_SET_PUBLISHED_AND_THRESHOLD_MET = ''SET_PUBLISHED_AND_THRESHOLD_MET''"
| "explanation_reason_text ER_SET_BELOW_MINIMUM = ''SET_BELOW_MINIMUM''"
| "explanation_reason_text ER_SET_ZERO_USABLE_MEMBERS = ''SET_ZERO_USABLE_MEMBERS''"
| "explanation_reason_text ER_SET_ADMIN_DISABLED = ''SET_ADMIN_DISABLED''"
| "explanation_reason_text ER_SET_CURRENTNESS_NOT_ESTABLISHED = ''SET_CURRENTNESS_NOT_ESTABLISHED''"
| "explanation_reason_text ER_SET_NOT_PUBLISHED = ''SET_NOT_PUBLISHED''"
| "explanation_reason_text ER_SET_WITHDRAWN = ''SET_WITHDRAWN''"
| "explanation_reason_text ER_SET_SUPERSEDED = ''SET_SUPERSEDED''"
| "explanation_reason_text ER_SET_REVOKED = ''SET_REVOKED''"
| "explanation_reason_text ER_SET_RETIRED = ''SET_RETIRED''"
| "explanation_reason_text ER_MEMBER_USABLE = ''MEMBER_USABLE''"
| "explanation_reason_text ER_MEMBER_PATH_AUTHORITY_GENERATION_STALE = ''MEMBER_PATH_AUTHORITY_GENERATION_STALE''"
| "explanation_reason_text ER_MEMBER_PATH_STATE_NOT_USABLE = ''MEMBER_PATH_STATE_NOT_USABLE''"
| "explanation_reason_text ER_MEMBER_PATH_CONDITIONALLY_NOT_PERMITTED = ''MEMBER_PATH_CONDITIONALLY_NOT_PERMITTED''"
| "explanation_reason_text ER_MEMBER_PATH_AUTHORITY_UNKNOWN = ''MEMBER_PATH_AUTHORITY_UNKNOWN''"
| "explanation_reason_text ER_MEMBER_ADMIN_DISABLED = ''MEMBER_ADMIN_DISABLED''"
| "explanation_reason_text ER_MEMBER_LIFECYCLE_NOT_CURRENT = ''MEMBER_LIFECYCLE_NOT_CURRENT''"
| "explanation_reason_text ER_MEMBER_SET_NOT_USABLE = ''MEMBER_SET_NOT_USABLE''"
| "explanation_reason_text ER_MEMBER_EPOCH_STALE = ''MEMBER_EPOCH_STALE''"
| "explanation_reason_text ER_MEMBER_AUTHORITY_FENCED = ''MEMBER_AUTHORITY_FENCED''"
| "explanation_reason_text ER_MEMBER_PENDING_EVALUATION = ''MEMBER_PENDING_EVALUATION''"
| "explanation_reason_text ER_MEMBER_PENDING_REVALIDATION = ''MEMBER_PENDING_REVALIDATION''"
| "explanation_reason_text ER_MINIMUM_MEMBERSHIP_UNSATISFIED = ''MINIMUM_MEMBERSHIP_UNSATISFIED''"
| "explanation_reason_text ER_EXPLANATION_TRUNCATED = ''EXPLANATION_TRUNCATED''"

definition explanation_reason_raw :: "explanation_reason \<Rightarrow> u8" where
  "explanation_reason_raw = enum_raw 1 all_explanation_reasons"

definition valid_explanation_reason :: "u8 \<Rightarrow> bool" where
  "valid_explanation_reason raw \<longleftrightarrow> raw \<ge> 1 \<and> raw \<le> 24"

definition member_reason :: "member_record \<Rightarrow> explanation_reason" where
  "member_reason m =
     (if \<not> m_admin_enabled m then ER_MEMBER_ADMIN_DISABLED
      else case m_currentness m of
        MC_CURRENT \<Rightarrow>
          if m_lifecycle m = ML_CURRENT
          then (if m_pending m > 0 then ER_MEMBER_PENDING_REVALIDATION else ER_MEMBER_USABLE)
          else ER_MEMBER_LIFECYCLE_NOT_CURRENT
      | MC_STALE_PATH_AUTHORITY \<Rightarrow> ER_MEMBER_PATH_AUTHORITY_GENERATION_STALE
      | MC_PATH_CONDITIONALLY_NOT_PERMITTED \<Rightarrow> ER_MEMBER_PATH_CONDITIONALLY_NOT_PERMITTED
      | MC_PATH_REVALIDATION_REQUIRED \<Rightarrow> ER_MEMBER_PATH_STATE_NOT_USABLE
      | MC_PATH_STALE \<Rightarrow> ER_MEMBER_PATH_STATE_NOT_USABLE
      | MC_PATH_REJECTED \<Rightarrow> ER_MEMBER_PATH_STATE_NOT_USABLE
      | MC_PATH_REVOKED \<Rightarrow> ER_MEMBER_PATH_STATE_NOT_USABLE
      | MC_PATH_RETIRED \<Rightarrow> ER_MEMBER_PATH_STATE_NOT_USABLE
      | MC_PATH_AUTHORITY_UNKNOWN \<Rightarrow> ER_MEMBER_PATH_AUTHORITY_UNKNOWN
      | MC_ADMIN_DISABLED \<Rightarrow> ER_MEMBER_ADMIN_DISABLED
      | MC_SET_NOT_USABLE \<Rightarrow> ER_MEMBER_SET_NOT_USABLE
      | MC_EPOCH_STALE \<Rightarrow> ER_MEMBER_EPOCH_STALE
      | MC_AUTHORITY_FENCED \<Rightarrow> ER_MEMBER_AUTHORITY_FENCED
      | MC_PENDING_EVALUATION \<Rightarrow> ER_MEMBER_PENDING_EVALUATION)"

section \<open>Explanations of sets\<close>

record member_explanation =
  me_id :: member_id
  me_path_id :: path_id
  me_lifecycle :: member_lifecycle
  me_currentness :: member_currentness
  me_admin_enabled :: bool
  me_usable :: bool
  me_bound :: path_authority_generation
  me_observed_generation :: "path_authority_generation option"
  me_observed_state :: "path_authority_state option"
  me_pending :: u32
  me_reason :: explanation_reason

record set_explanation =
  se_set_id :: set_id
  se_key :: set_key
  se_lifecycle :: set_lifecycle
  se_currentness :: set_currentness
  se_readiness :: route_readiness_value
  se_member_count :: nat
  se_usable_count :: nat
  se_minimum :: nat
  se_minimum_satisfied :: bool
  se_admin_enabled :: bool
  se_conditional :: bool
  se_governing_epoch :: coordinator_epoch
  se_authority_generation :: authority_generation
  se_last_publisher :: "publisher_id option"
  se_last_cause :: membership_cause
  se_reasons :: "explanation_reason list"
  se_members :: "member_explanation list"
  se_truncated :: bool

definition lifecycle_reasons :: "set_lifecycle \<Rightarrow> explanation_reason list" where
  "lifecycle_reasons l =
     (case l of
        SL_DECLARED \<Rightarrow> [ER_SET_NOT_PUBLISHED]
      | SL_ACTIVE \<Rightarrow> [ER_SET_PUBLISHED_AND_THRESHOLD_MET]
      | SL_DEGRADED \<Rightarrow> [ER_SET_BELOW_MINIMUM, ER_MINIMUM_MEMBERSHIP_UNSATISFIED]
      | SL_EXHAUSTED \<Rightarrow> [ER_SET_ZERO_USABLE_MEMBERS, ER_MINIMUM_MEMBERSHIP_UNSATISFIED]
      | SL_ADMIN_DISABLED \<Rightarrow> [ER_SET_ADMIN_DISABLED]
      | SL_WITHDRAWING \<Rightarrow> [ER_SET_WITHDRAWN]
      | SL_WITHDRAWN \<Rightarrow> [ER_SET_WITHDRAWN]
      | SL_SUPERSEDED \<Rightarrow> [ER_SET_SUPERSEDED]
      | SL_REVOKED \<Rightarrow> [ER_SET_REVOKED]
      | SL_RETIRED \<Rightarrow> [ER_SET_RETIRED])"

definition set_reasons :: "set_record \<Rightarrow> explanation_reason list" where
  "set_reasons r =
     lifecycle_reasons (s_lifecycle r) @
     (if s_currentness r \<noteq> SC_CURRENT then [ER_SET_CURRENTNESS_NOT_ESTABLISHED] else []) @
     (if s_lifecycle r = SL_ACTIVE \<and> \<not> (s_usable r \<ge> s_minimum r) then [ER_MINIMUM_MEMBERSHIP_UNSATISFIED] else [])"

definition explain_member :: "view_table \<Rightarrow> member_record \<Rightarrow> member_explanation" where
  "explain_member observed m =
     (let view = (case om_find observed (m_path_id m) of None \<Rightarrow> None | Some v \<Rightarrow> v)
      in \<lparr>me_id = m_id m, me_path_id = m_path_id m, me_lifecycle = m_lifecycle m,
          me_currentness = m_currentness m, me_admin_enabled = m_admin_enabled m,
          me_usable = member_inputs_usable m, me_bound = m_bound m,
          me_observed_generation = map_option v_generation view,
          me_observed_state = map_option v_state view,
          me_pending = m_pending m, me_reason = member_reason m\<rparr>)"

definition make_explanation :: "limits \<Rightarrow> view_table \<Rightarrow> set_record \<Rightarrow> set_explanation" where
  "make_explanation lim observed r =
     (let members = map (explain_member observed) (om_values (s_members r));
          truncated = length members > max_explanation_entries lim
      in \<lparr>se_set_id = s_id r, se_key = s_key r, se_lifecycle = s_lifecycle r, se_currentness = s_currentness r,
          se_readiness = route_readiness (s_lifecycle r) (s_currentness r),
          se_member_count = om_size (s_members r), se_usable_count = s_usable r, se_minimum = s_minimum r,
          se_minimum_satisfied = (s_usable r \<ge> s_minimum r), se_admin_enabled = s_admin_enabled r,
          se_conditional = s_conditional r, se_governing_epoch = s_governing_epoch r,
          se_authority_generation = s_authority_generation r,
          se_last_publisher = (if id_valid (pv_publisher (s_provenance r)) then Some (pv_publisher (s_provenance r)) else None),
          se_last_cause = pv_cause (s_provenance r),
          se_reasons = set_reasons r @ (if truncated then [ER_EXPLANATION_TRUNCATED] else []),
          se_members = (if truncated then take (max_explanation_entries lim) members else members),
          se_truncated = truncated\<rparr>)"

text \<open>
  \<open>before\<close> is the engine when the paths were collected and looked up, \<open>e\<close> the one under the shared lock.
\<close>

definition explain_set :: "(path_id \<Rightarrow> path_authority_view option) \<Rightarrow> set_id \<Rightarrow> engine \<Rightarrow> engine \<Rightarrow> set_explanation option" where
  "explain_set external sid before e =
     (let observed = collect_views (lookup_path external before) (live_member_paths sid before)
      in map_option (make_explanation (e_limits e) observed) (om_find (e_sets e) sid))"

section \<open>Explanations of rejections\<close>

record rejection_explanation =
  re_code :: outcome_code
  re_stage :: rejection_stage
  re_precedence :: nat
  re_detail :: string
  re_guidance :: string

definition rejection_precedence :: "rejection_stage list" where
  "rejection_precedence =
     [ST_DECODE, ST_CALLER_IDENTITY, ST_EPOCH, ST_WORKER_AUTHORITY, ST_SCOPE, ST_ATTEMPT, ST_SET_STATE,
      ST_GENERATION, ST_PATH_AUTHORITY, ST_RESOURCE_LIMIT, ST_SEMANTIC, ST_COMMIT]"

fun stage_position :: "nat \<Rightarrow> rejection_stage list \<Rightarrow> rejection_stage \<Rightarrow> nat" where
  "stage_position i [] stage = 0"
| "stage_position i (s # stages) stage = (if s = stage then i + 1 else stage_position (i + 1) stages stage)"

definition guidance :: "outcome_code \<Rightarrow> string" where
  "guidance code =
     (if code = OC_STALE_EPOCH
      then ''re-register with the governing coordinator epoch and retry under a new attempt id''
      else if code = OC_STALE_WORKER
      then ''the worker boot is fenced permanently; start a fresh worker boot and register again''
      else if code = OC_UNKNOWN_PUBLISHER
      then ''register the publisher and worker boot with an authority scope first''
      else if code = OC_UNAUTHORIZED_SCOPE
      then ''the authority scope does not cover this fabric, namespace or set identity''
      else if code = OC_ATTEMPT_CONFLICT
      then ''the attempt id was already used for a different semantic request; use a fresh attempt id''
      else if code = OC_STALE_SET_GENERATION \<or> code = OC_STALE_MEMBER_GENERATION
      then ''re-read the current generation and retry the mutation''
      else if code = OC_STALE_PATH_AUTHORITY
      then ''revalidate the member against the current Path Authority generation''
      else if code = OC_STALE_REVALIDATION
      then ''the member or set inputs changed while revalidation was in flight; begin a new revalidation''
      else if code = OC_DUPLICATE_MEMBER
      then ''the exact PathId is already a live member of this set; remove or replace it explicitly''
      else if code = OC_INSUFFICIENT_MEMBERS
      then ''add usable members or lower the minimum usable-member requirement''
      else if code = OC_RESOURCE_LIMIT
      then ''a configured resource limit was reached; see Limits::describe()''
      else if code = OC_GENERATION_OVERFLOW
      then ''the generation counter is exhausted; the object cannot be mutated''
      else if code = OC_REVOKED \<or> code = OC_RETIRED \<or> code = OC_WITHDRAWN \<or> code = OC_SUPERSEDED
      then ''the set is in a terminal governance state and accepts no mutation''
      else ''see the deterministic detail for the exact rejection cause'')"

definition explain_rejection :: "fabric_outcome \<Rightarrow> rejection_explanation" where
  "explain_rejection outcome =
     \<lparr>re_code = o_code outcome, re_stage = o_stage outcome,
      re_precedence = stage_position 0 rejection_precedence (o_stage outcome),
      re_detail = o_detail outcome, re_guidance = guidance (o_code outcome)\<rparr>"

section \<open>Renderings\<close>

definition newline :: string where
  "newline = [CHR 0x0A]"

definition member_explanation_render :: "member_explanation \<Rightarrow> string" where
  "member_explanation_render x =
     ''member '' @ id_text (me_id x) @ '' path='' @ id_text (me_path_id x) @
     '' lifecycle='' @ member_lifecycle_text (me_lifecycle x) @ '' currentness='' @ member_currentness_text (me_currentness x) @
     '' usable='' @ bool_text (me_usable x) @ '' admin_enabled='' @ bool_text (me_admin_enabled x) @
     '' bound_authority_generation='' @ gen_text (me_bound x) @
     render_opt '' observed_authority_generation='' gen_text (me_observed_generation x) @
     render_opt '' observed_authority_state='' path_authority_state_text (me_observed_state x) @
     '' reason='' @ explanation_reason_text (me_reason x) @
     (if me_pending x > 0 then '' pending_revalidations='' @ nat_string (unat (me_pending x)) else [])"

definition set_explanation_render :: "set_explanation \<Rightarrow> string" where
  "set_explanation_render x =
     ''set '' @ id_text (se_set_id x) @ '' key='' @ key_render (se_key x) @
     newline @ ''  lifecycle='' @ set_lifecycle_text (se_lifecycle x) @ '' currentness='' @ set_currentness_text (se_currentness x) @
     '' readiness='' @ route_readiness_value_text (se_readiness x) @
     newline @ ''  members='' @ nat_string (se_member_count x) @ '' usable='' @ nat_string (se_usable_count x) @
     '' minimum='' @ nat_string (se_minimum x) @ '' minimum_satisfied='' @ bool_text (se_minimum_satisfied x) @
     '' admin_enabled='' @ bool_text (se_admin_enabled x) @
     newline @ ''  governing_epoch='' @ gen_text (se_governing_epoch x) @
     '' authority_generation='' @ gen_text (se_authority_generation x) @
     '' last_cause='' @ membership_cause_text (se_last_cause x) @
     render_opt '' last_mutating_publisher='' id_text (se_last_publisher x) @
     newline @ ''  reasons:'' @ concat (map (\<lambda>reason. CHR '' '' # explanation_reason_text reason) (se_reasons x)) @
     concat (map (\<lambda>m. newline @ ''  '' @ member_explanation_render m) (se_members x))"

definition rejection_explanation_render :: "rejection_explanation \<Rightarrow> string" where
  "rejection_explanation_render x =
     outcome_text (re_code x) @ '' stage='' @ rejection_stage_text (re_stage x) @
     '' precedence='' @ nat_string (re_precedence x) @
     (if re_detail x = [] then [] else newline @ ''  detail: '' @ re_detail x) @
     (if re_guidance x = [] then [] else newline @ ''  guidance: '' @ re_guidance x)"

definition member_snapshot_render :: "member_snapshot \<Rightarrow> string" where
  "member_snapshot_render m =
     ''member '' @ id_text (ms_id m) @ '' path='' @ id_text (ms_path_id m) @
     '' authority_generation='' @ gen_text (ms_bound m) @ '' member_generation='' @ gen_text (ms_generation m) @
     '' lifecycle='' @ member_lifecycle_text (ms_lifecycle m) @ '' currentness='' @ member_currentness_text (ms_currentness m) @
     '' usable='' @ bool_text (ms_usable m) @ '' admin_enabled='' @ bool_text (ms_admin_enabled m) @
     '' watermark='' @ u64_string (wm_value (ms_watermark m)) @
     '' pending_revalidations='' @ nat_string (unat (ms_pending m)) @
     render_opt '' predecessor='' id_text (ms_predecessor m) @ render_opt '' successor='' id_text (ms_successor m) @
     '' | '' @ provenance_render (ms_provenance m)"

definition set_snapshot_render :: "set_snapshot \<Rightarrow> string" where
  "set_snapshot_render s =
     ''set '' @ id_text (ss_set_id s) @ '' key='' @ key_render (ss_key s) @
     newline @ ''  generation='' @ gen_text (ss_generation s) @
     '' membership_generation='' @ gen_text (ss_membership_generation s) @
     '' authority_generation='' @ gen_text (ss_authority_generation s) @
     '' governing_epoch='' @ gen_text (ss_governing_epoch s) @
     newline @ ''  lifecycle='' @ set_lifecycle_text (ss_lifecycle s) @ '' currentness='' @ set_currentness_text (ss_currentness s) @
     '' readiness='' @ route_readiness_value_text (ss_readiness s) @
     newline @ ''  members='' @ nat_string (ss_member_count s) @ '' usable='' @ nat_string (ss_usable_count s) @
     '' minimum_usable_members='' @ nat_string (ss_minimum s) @ '' admin_enabled='' @ bool_text (ss_admin_enabled s) @
     '' conditional_authority_permitted='' @ bool_text (ss_conditional s) @
     newline @ ''  snapshot='' @ id_text (ss_snapshot_id s) @ '' digest='' @ digest_to_hex (ss_digest s) @
     render_opt (newline @ ''  superseded_by='') id_text (ss_superseded_by s) @
     render_opt (newline @ ''  supersedes='') id_text (ss_supersedes s) @
     render_opt (newline @ ''  revocation='') revocation_render (ss_revocation s) @
     (if ss_withdrawal_reason s = [] then []
      else newline @ ''  withdrawal_reason='' @ [CHR 0x22] @ ss_withdrawal_reason s @ [CHR 0x22]) @
     newline @ ''  provenance: '' @ provenance_render (ss_provenance s) @
     concat (map (\<lambda>m. newline @ ''  '' @ member_snapshot_render m) (ss_members s))"

section \<open>The reasons are true\<close>

lemma all_explanation_reasons_complete [simp]: "v \<in> set all_explanation_reasons"
  by (cases v) (simp_all add: all_explanation_reasons_def)

lemma valid_explanation_reason_iff:
  "valid_explanation_reason raw \<longleftrightarrow> enum_of_raw 1 all_explanation_reasons raw \<noteq> None"
  by (auto simp: valid_explanation_reason_def enum_of_raw_def all_explanation_reasons_def word_le_nat_alt)

lemma member_reason_usable:
  "member_reason m = ER_MEMBER_USABLE \<or> member_reason m = ER_MEMBER_PENDING_REVALIDATION \<longleftrightarrow> member_inputs_usable m"
  by (cases "m_currentness m") (auto simp: member_reason_def member_inputs_usable_def member_is_usable_def)

lemma make_explanation_fields [simp]:
  "se_set_id (make_explanation lim obs r) = s_id r"
  "se_readiness (make_explanation lim obs r) = route_readiness (s_lifecycle r) (s_currentness r)"
  "se_usable_count (make_explanation lim obs r) = s_usable r"
  "se_minimum_satisfied (make_explanation lim obs r) \<longleftrightarrow> s_minimum r \<le> s_usable r"
  "length (se_members (make_explanation lim obs r)) = min (om_size (s_members r)) (max_explanation_entries lim)"
  "se_truncated (make_explanation lim obs r) \<longleftrightarrow> max_explanation_entries lim < om_size (s_members r)"
  by (simp_all add: make_explanation_def Let_def min_def om_size_def om_values_def)

text \<open>
  In a good state MINIMUM_MEMBERSHIP_UNSATISFIED is among the reasons of a set in a derived lifecycle
  that is not disabled exactly when its usable members are below the minimum.
\<close>

lemma minimum_reason:
  assumes core: "set_core lim r" and l: "derived_lifecycle (s_lifecycle r)" "s_lifecycle r \<noteq> SL_ADMIN_DISABLED"
  shows "ER_MINIMUM_MEMBERSHIP_UNSATISFIED \<in> set (set_reasons r) \<longleftrightarrow> recompute_usable_members r < s_minimum r"
  using set_coreD(3) [OF core] l
  by (auto simp: set_reasons_def lifecycle_reasons_def derived_ok_def lifecycle_ok_def derived_lifecycle_def
      derive_published_lifecycle_def split: if_splits)

lemma stage_position_correct:
  "stage_position 0 rejection_precedence stage = 0 \<longleftrightarrow> stage = ST_NONE"
  "stage \<noteq> ST_NONE \<Longrightarrow> rejection_precedence ! (stage_position 0 rejection_precedence stage - 1) = stage"
  by (cases stage; simp add: rejection_precedence_def)+

lemma guidance_nonempty: "guidance code \<noteq> []"
  by (simp add: guidance_def)

end
