(* ===== verification/Codec_Steps.thy ===== *)
theory Codec_Steps
  imports Bytes
begin

text \<open>
  The vocabulary of \<open>src/persistence.cpp\<close> and \<open>src/wire.cpp\<close> over the byte writer and the byte reader.

  An encoder is a sequence of writer steps (\<open>bw_all\<close>); the writer remembers a failure, and the caller
  looks at \<open>overflowed()\<close> once at the end. A decoder is a function from a reader to an error or to the
  decoded value and the advanced reader. The C++ decoders read a group of fields and then test all of
  them at once; since a reader that has failed fails every later read, this is the same as stopping
  at the first field that is missing, with the error of the group.

  \<open>carries f p v\<close> relates an encoder, a decoder and a value: the bytes that \<open>f\<close> appends when it does
  not overflow are decoded by \<open>p\<close> to \<open>v\<close>, and \<open>p\<close> stops right after them. \<open>consumes p\<close> says that \<open>p\<close>
  only moves forward inside the data it was given.
\<close>

named_theorems carries_intros
named_theorems consumes_intros

section \<open>Encoders\<close>

definition bw_all :: "(byte_writer \<Rightarrow> byte_writer) list \<Rightarrow> byte_writer \<Rightarrow> byte_writer" where
  "bw_all fs w = fold (\<lambda>f. f) fs w"

text \<open>A range-for over the elements to be written.\<close>

definition bw_each :: "('a \<Rightarrow> byte_writer \<Rightarrow> byte_writer) \<Rightarrow> 'a list \<Rightarrow> byte_writer \<Rightarrow> byte_writer" where
  "bw_each f xs w = fold f xs w"

lemma bw_all_nil: "bw_all [] = (\<lambda>w. w)"
  by (simp add: bw_all_def fun_eq_iff)

lemma bw_all_cons: "bw_all (f # fs) = (\<lambda>w. bw_all fs (f w))"
  by (simp add: bw_all_def fun_eq_iff)

lemma bw_all_single: "bw_all [f] = f"
  by (simp add: bw_all_def fun_eq_iff)

lemma bw_each_Nil: "bw_each f [] = bw_all []"
  by (simp add: bw_each_def bw_all_def fun_eq_iff)

lemma bw_each_Cons: "bw_each f (x # xs) = bw_all [f x, bw_each f xs]"
  by (simp add: bw_each_def bw_all_def fun_eq_iff)

section \<open>Decoders\<close>

type_synonym ('e, 'a) decoder = "byte_reader \<Rightarrow> 'e + ('a \<times> byte_reader)"

definition dc_return :: "'a \<Rightarrow> ('e, 'a) decoder" where
  "dc_return v r = Inr (v, r)"

definition dc_reject :: "'e \<Rightarrow> ('e, 'a) decoder" where
  "dc_reject e r = Inl e"

definition dc_then :: "('e, 'a) decoder \<Rightarrow> ('a \<Rightarrow> ('e, 'b) decoder) \<Rightarrow> ('e, 'b) decoder" where
  "dc_then p q r = (case p r of Inl e \<Rightarrow> Inl e | Inr (v, r') \<Rightarrow> q v r')"

text \<open>One reader call whose failure is reported as \<open>e\<close>.\<close>

definition dc_field :: "'e \<Rightarrow> (byte_reader \<Rightarrow> 'a option \<times> byte_reader) \<Rightarrow> ('e, 'a) decoder" where
  "dc_field e rd r = (case rd r of (None, r') \<Rightarrow> Inl e | (Some v, r') \<Rightarrow> Inr (v, r'))"

text \<open>A nested decoder that only reports failure; the caller supplies the error.\<close>

definition dc_as :: "'e \<Rightarrow> (unit, 'a) decoder \<Rightarrow> ('e, 'a) decoder" where
  "dc_as e p r = (case p r of Inl _ \<Rightarrow> Inl e | Inr x \<Rightarrow> Inr x)"

definition dc_some :: "'e \<Rightarrow> 'a option \<Rightarrow> ('a \<Rightarrow> ('e, 'b) decoder) \<Rightarrow> ('e, 'b) decoder" where
  "dc_some e v q = (case v of None \<Rightarrow> dc_reject e | Some x \<Rightarrow> q x)"

definition dc_check :: "'e \<Rightarrow> bool \<Rightarrow> ('e, 'a) decoder \<Rightarrow> ('e, 'a) decoder" where
  "dc_check e b p = (if b then p else dc_reject e)"

text \<open>
  A textual field that may be empty: \<open>if (!text.empty()) { parse it, or fail }\<close>.
\<close>

definition dc_opt_text ::
  "'e \<Rightarrow> (string \<Rightarrow> 'a option) \<Rightarrow> string \<Rightarrow> ('a option \<Rightarrow> ('e, 'b) decoder) \<Rightarrow> ('e, 'b) decoder" where
  "dc_opt_text e parse text q =
     (if text = [] then q None else dc_some e (parse text) (\<lambda>v. q (Some v)))"

text \<open>A counted loop whose state is changed by each round.\<close>

primrec dc_loop :: "nat \<Rightarrow> ('s \<Rightarrow> ('e, 's) decoder) \<Rightarrow> 's \<Rightarrow> ('e, 's) decoder" where
  "dc_loop 0 body s = dc_return s"
| "dc_loop (Suc n) body s = dc_then (body s) (dc_loop n body)"

text \<open>A counted loop that pushes each decoded element onto a vector.\<close>

definition dc_list :: "nat \<Rightarrow> ('e, 'a) decoder \<Rightarrow> ('e, 'a list) decoder" where
  "dc_list n item = dc_loop n (\<lambda>xs. dc_then item (\<lambda>x. dc_return (xs @ [x]))) []"

lemma dc_simps [simp]:
  "dc_some e (Some x) q = q x"
  "dc_some e None q = dc_reject e"
  "dc_check e True p = p"
  "dc_check e False p = dc_reject e"
  by (simp_all add: dc_some_def dc_check_def)

section \<open>An encoder and a decoder that agree\<close>

definition decodes :: "('e, 'a) decoder \<Rightarrow> u8 list \<Rightarrow> 'a \<Rightarrow> bool" where
  "decodes p bs v \<longleftrightarrow> (\<forall>r rest. reads r (bs @ rest) \<longrightarrow> (\<exists>r'. p r = Inr (v, r') \<and> reads r' rest))"

definition carries :: "(byte_writer \<Rightarrow> byte_writer) \<Rightarrow> ('e, 'a) decoder \<Rightarrow> 'a \<Rightarrow> bool" where
  "carries f p v \<longleftrightarrow> (\<forall>w. bw_ok (f w) \<longrightarrow>
     bw_ok w \<and> (\<exists>bs. bw_buffer (f w) = bw_buffer w @ bs \<and> decodes p bs v))"

lemma carriesI:
  "(\<And>w. bw_ok (f w) \<Longrightarrow> bw_ok w \<and> (\<exists>bs. bw_buffer (f w) = bw_buffer w @ bs \<and> decodes p bs v)) \<Longrightarrow>
   carries f p v"
  by (simp add: carries_def)

lemma carriesE:
  assumes "carries f p v" and "bw_ok (f w)"
  obtains bs where "bw_ok w" "bw_buffer (f w) = bw_buffer w @ bs" "decodes p bs v"
  using assms unfolding carries_def by blast

lemma carries_appends: "appends f bs \<Longrightarrow> decodes p bs v \<Longrightarrow> carries f p v"
  by (rule carriesI) (auto simp: appends_def)

lemma decodes_return: "decodes (dc_return v) [] v"
  by (simp add: decodes_def dc_return_def)

lemma decodesD:
  "decodes p bs v \<Longrightarrow> reads r (bs @ rest) \<Longrightarrow> \<exists>r'. p r = Inr (v, r') \<and> reads r' rest"
  by (simp add: decodes_def)

lemma decodes_then:
  assumes p: "decodes p bs v" and q: "decodes (q v) cs w"
  shows "decodes (dc_then p q) (bs @ cs) w"
  unfolding decodes_def
proof (intro allI impI)
  fix r rest assume "reads r ((bs @ cs) @ rest)"
  then have "reads r (bs @ (cs @ rest))" by simp
  from decodesD [OF p this] obtain r1 where r1: "p r = Inr (v, r1)" "reads r1 (cs @ rest)" by auto
  from decodesD [OF q r1(2)] obtain r2 where "q v r1 = Inr (w, r2)" "reads r2 rest" by auto
  with r1 show "\<exists>r'. dc_then p q r = Inr (w, r') \<and> reads r' rest"
    by (simp add: dc_then_def)
qed

lemma decodes_as: "decodes p bs v \<Longrightarrow> decodes (dc_as e p) bs v"
  unfolding decodes_def dc_as_def by fastforce

lemma carries_done [carries_intros]: "v = w \<Longrightarrow> carries (bw_all []) (dc_return v) w"
  by (rule carriesI) (auto simp: bw_all_nil intro: decodes_return)

lemma carries_step:
  assumes f: "carries f p v" and fs: "carries (bw_all fs) (q v) w"
  shows "carries (bw_all (f # fs)) (dc_then p q) w"
proof (rule carriesI)
  fix x assume ok: "bw_ok (bw_all (f # fs) x)"
  then have "bw_ok (bw_all fs (f x))" by (simp add: bw_all_cons)
  from carriesE [OF fs this] obtain cs
    where cs: "bw_ok (f x)" "bw_buffer (bw_all fs (f x)) = bw_buffer (f x) @ cs" "decodes (q v) cs w" .
  from carriesE [OF f cs(1)] obtain bs
    where bs: "bw_ok x" "bw_buffer (f x) = bw_buffer x @ bs" "decodes p bs v" .
  have "decodes (dc_then p q) (bs @ cs) w" by (rule decodes_then) (rule bs cs)+
  then show "bw_ok x \<and> (\<exists>bs. bw_buffer (bw_all (f # fs) x) = bw_buffer x @ bs \<and> decodes (dc_then p q) bs w)"
    using bs cs by (simp add: bw_all_cons)
qed

lemma carries_as: "carries f p v \<Longrightarrow> carries f (dc_as e p) v"
  unfolding carries_def using decodes_as by metis

lemma carries_check [carries_intros]: "b \<Longrightarrow> carries f p w \<Longrightarrow> carries f (dc_check e b p) w"
  by simp

section \<open>Fields\<close>

context codec
begin

lemma decodes_field: "dom x \<Longrightarrow> decodes (dc_field e dec) (enc x) x"
  unfolding decodes_def dc_field_def using dec_enc by fastforce

end

lemma carries_field:
  assumes "appends f bs" and "decodes (dc_field e rd) bs v" and "carries (bw_all fs) (q v) w"
  shows "carries (bw_all (f # fs)) (dc_then (dc_field e rd) q) w"
  using carries_appends [OF assms(1,2)] assms(3) by (rule carries_step)

lemma carries_u8 [carries_intros]:
  "carries (bw_all fs) (q v) w \<Longrightarrow> carries (bw_all (bw_u8 v # fs)) (dc_then (dc_field e rd_u8) q) w"
  by (rule carries_field [OF appends_u8 u8_codec.decodes_field [OF TrueI]])

lemma carries_u16 [carries_intros]:
  "carries (bw_all fs) (q v) w \<Longrightarrow> carries (bw_all (bw_u16 v # fs)) (dc_then (dc_field e rd_u16) q) w"
  by (rule carries_field [OF appends_u16 u16_codec.decodes_field [OF TrueI]])

lemma carries_u32 [carries_intros]:
  "carries (bw_all fs) (q v) w \<Longrightarrow> carries (bw_all (bw_u32 v # fs)) (dc_then (dc_field e rd_u32) q) w"
  by (rule carries_field [OF appends_u32 u32_codec.decodes_field [OF TrueI]])

lemma carries_u64 [carries_intros]:
  "carries (bw_all fs) (q v) w \<Longrightarrow> carries (bw_all (bw_u64 v # fs)) (dc_then (dc_field e rd_u64) q) w"
  by (rule carries_field [OF appends_u64 u64_codec.decodes_field [OF TrueI]])

lemma carries_boolean [carries_intros]:
  "carries (bw_all fs) (q v) w \<Longrightarrow>
   carries (bw_all (bw_boolean v # fs)) (dc_then (dc_field e rd_boolean) q) w"
  by (rule carries_field [OF appends_boolean boolean_codec.decodes_field [OF TrueI]])

text \<open>A presence flag written as \<open>u8\<close> and read back as a boolean.\<close>

lemma carries_flag [carries_intros]:
  "carries (bw_all fs) (q b) w \<Longrightarrow>
   carries (bw_all (bw_u8 (if b then 1 else 0) # fs)) (dc_then (dc_field e rd_boolean) q) w"
  by (rule carries_field [OF appends_u8 boolean_codec.decodes_field [OF TrueI]])

text \<open>
  A string that is longer than the bound makes the writer fail; so the length needs no hypothesis
  beside the bound fitting into 32 bits.
\<close>

lemma decodes_string:
  "length s \<le> bound \<Longrightarrow> bound < 2 ^ 32 \<Longrightarrow> decodes (dc_field e (rd_string bound)) (string_field s) s"
  unfolding decodes_def dc_field_def using rd_string_field by fastforce

lemma carries_text:
  assumes bound: "bound < 2 ^ 32"
  shows "carries (bw_string bound s) (dc_field e (rd_string bound)) s"
proof (cases "length s \<le> bound")
  case True
  then have "length s < 2 ^ 32" using bound by simp
  then show ?thesis
    by (rule carries_appends [OF appends_string decodes_string [OF True bound]])
next
  case False
  then show ?thesis by (intro carriesI) (simp add: bw_string_def)
qed

lemma carries_string [carries_intros]:
  "bound < 2 ^ 32 \<Longrightarrow> carries (bw_all fs) (q s) w \<Longrightarrow>
   carries (bw_all (bw_string bound s # fs)) (dc_then (dc_field e (rd_string bound)) q) w"
  by (rule carries_step [OF carries_text])

text \<open>A step that a nested decoder reads back.\<close>

lemma carries_nested:
  assumes "carries f p v" and "carries (bw_all fs) (q v) w"
  shows "carries (bw_all (f # fs)) (dc_then (dc_as e p) q) w"
  using carries_as [OF assms(1)] assms(2) by (rule carries_step)

section \<open>Parsed texts and numbers\<close>

text \<open>
  The parser of a textual or numeric domain gives back every value of the domain from its written
  form.
\<close>

locale parsed =
  fixes put :: "'a \<Rightarrow> 'b" and get :: "'b \<Rightarrow> 'a option" and ok :: "'a \<Rightarrow> bool"
  assumes get_put: "ok x \<Longrightarrow> get (put x) = Some x"
begin

lemma carries_parsed: "ok x \<Longrightarrow> carries f (q x) w \<Longrightarrow> carries f (dc_some e (get (put x)) q) w"
  by (simp add: get_put)

lemma get_put_inject: "ok x \<Longrightarrow> ok y \<Longrightarrow> put x = put y \<Longrightarrow> x = y"
  using get_put by (metis option.inject)

end

section \<open>Loops\<close>

lemma carries_loop:
  assumes "\<And>ys x zs. xs = ys @ x # zs \<Longrightarrow> carries (f x) (body (st ys)) (st (ys @ [x]))"
  shows "carries (bw_each f xs) (dc_loop (length xs) body (st [])) (st xs)"
proof -
  have "carries (bw_each f zs) (dc_loop (length zs) body (st ys)) (st xs)" if "xs = ys @ zs" for ys zs
    using that
  proof (induction zs arbitrary: ys)
    case Nil
    then show ?case by (simp add: bw_each_Nil carries_done)
  next
    case (Cons z zs)
    have z: "carries (f z) (body (st ys)) (st (ys @ [z]))" using assms [OF Cons.prems] .
    have "carries (bw_each f zs) (dc_loop (length zs) body (st (ys @ [z]))) (st xs)"
      by (rule Cons.IH) (simp add: Cons.prems)
    then have zs: "carries (bw_all [bw_each f zs]) (dc_loop (length zs) body (st (ys @ [z]))) (st xs)"
      by (simp only: bw_all_single)
    show ?case unfolding bw_each_Cons list.size dc_loop.simps add_Suc_right add_0_right
      using z zs by (rule carries_step)
  qed
  from this [of "[]" xs] show ?thesis by simp
qed

lemma carries_list:
  assumes "\<And>x. x \<in> set xs \<Longrightarrow> carries (f x) item (g x)"
  shows "carries (bw_each f xs) (dc_list (length xs) item) (map g xs)"
proof -
  have "carries (f x) (dc_then item (\<lambda>x. dc_return (map g ys @ [x]))) (map g (ys @ [x]))"
    if "x \<in> set xs" for ys x
  proof -
    have "carries (bw_all []) (dc_return (map g ys @ [g x])) (map g (ys @ [x]))"
      by (rule carries_done) simp
    then have "carries (bw_all [f x]) (dc_then item (\<lambda>x. dc_return (map g ys @ [x]))) (map g (ys @ [x]))"
      by (rule carries_step [OF assms [OF that]])
    then show ?thesis by (simp only: bw_all_single)
  qed
  then show ?thesis
    unfolding dc_list_def
    using carries_loop [of xs f "\<lambda>ys. dc_then item (\<lambda>x. dc_return (ys @ [x]))" "map g"] by simp
qed

section \<open>Decoders stay inside their data\<close>

definition inside :: "byte_reader \<Rightarrow> bool" where
  "inside r \<longleftrightarrow> rd_offset r \<le> length (rd_data r)"

definition consumes :: "('e, 'a) decoder \<Rightarrow> bool" where
  "consumes p \<longleftrightarrow> (\<forall>r v r'. inside r \<longrightarrow> p r = Inr (v, r') \<longrightarrow>
     inside r' \<and> rd_data r' = rd_data r \<and> rd_offset r \<le> rd_offset r')"

lemma consumesI:
  "(\<And>r v r'. inside r \<Longrightarrow> p r = Inr (v, r') \<Longrightarrow>
     inside r' \<and> rd_data r' = rd_data r \<and> rd_offset r \<le> rd_offset r') \<Longrightarrow> consumes p"
  unfolding consumes_def by blast

lemma consumes_return [consumes_intros]: "consumes (dc_return v)"
  by (rule consumesI) (simp add: dc_return_def)

lemma consumes_reject [consumes_intros]: "consumes (dc_reject e)"
  by (rule consumesI) (simp add: dc_reject_def)

lemma consumes_then [consumes_intros]:
  assumes "consumes p" and "\<And>v. consumes (q v)"
  shows "consumes (dc_then p q)"
proof (rule consumesI)
  fix r w r'' assume r: "inside r" and step: "dc_then p q r = Inr (w, r'')"
  then obtain v r' where p: "p r = Inr (v, r')" and q: "q v r' = Inr (w, r'')"
    by (auto simp: dc_then_def split: sum.splits)
  have 1: "inside r' \<and> rd_data r' = rd_data r \<and> rd_offset r \<le> rd_offset r'"
    using assms(1) r p unfolding consumes_def by blast
  then have "inside r'' \<and> rd_data r'' = rd_data r' \<and> rd_offset r' \<le> rd_offset r''"
    using assms(2) q unfolding consumes_def by blast
  with 1 show "inside r'' \<and> rd_data r'' = rd_data r \<and> rd_offset r \<le> rd_offset r''" by simp
qed

lemma consumes_as [consumes_intros]: "consumes p \<Longrightarrow> consumes (dc_as e p)"
proof (rule consumesI)
  fix r v r' assume p: "consumes p" and r: "inside r" and "dc_as e p r = Inr (v, r')"
  then have "p r = Inr (v, r')" by (simp add: dc_as_def split: sum.splits)
  with p r show "inside r' \<and> rd_data r' = rd_data r \<and> rd_offset r \<le> rd_offset r'"
    unfolding consumes_def by blast
qed

lemma consumes_some [consumes_intros]: "(\<And>x. consumes (q x)) \<Longrightarrow> consumes (dc_some e v q)"
  by (cases v) (simp_all add: consumes_reject)

lemma consumes_check [consumes_intros]: "consumes p \<Longrightarrow> consumes (dc_check e b p)"
  by (cases b) (simp_all add: consumes_reject)

lemma consumes_opt_text [consumes_intros]:
  "(\<And>x. consumes (q x)) \<Longrightarrow> consumes (dc_opt_text e parse text q)"
  by (simp add: dc_opt_text_def consumes_some)

lemma consumes_if [consumes_intros]: "consumes p \<Longrightarrow> consumes q \<Longrightarrow> consumes (if b then p else q)"
  by simp

lemma consumes_loop [consumes_intros]: "(\<And>s. consumes (body s)) \<Longrightarrow> consumes (dc_loop n body s)"
  by (induction n arbitrary: s) (simp_all add: consumes_return consumes_then)

lemma consumes_list [consumes_intros]: "consumes item \<Longrightarrow> consumes (dc_list n item)"
  unfolding dc_list_def by (intro consumes_intros)

lemma rd_require_True:
  "rd_require n r = (True, r') \<Longrightarrow> inside r \<Longrightarrow> r' = r \<and> rd_offset r + n \<le> length (rd_data r)"
  by (auto simp: rd_require_def inside_def split: if_splits)

text \<open>A read of a fixed number of bytes either fails or moves the offset by that number.\<close>

definition moves :: "(byte_reader \<Rightarrow> 'a option \<times> byte_reader) \<Rightarrow> bool" where
  "moves rd \<longleftrightarrow> (\<forall>r v r'. inside r \<longrightarrow> rd r = (Some v, r') \<longrightarrow>
     inside r' \<and> rd_data r' = rd_data r \<and> rd_offset r \<le> rd_offset r')"

lemma consumes_field: "moves rd \<Longrightarrow> consumes (dc_field e rd)"
proof (rule consumesI)
  fix r v r' assume rd: "moves rd" and r: "inside r" and "dc_field e rd r = Inr (v, r')"
  then have "rd r = (Some v, r')" by (simp add: dc_field_def split: prod.splits option.splits)
  with rd r show "inside r' \<and> rd_data r' = rd_data r \<and> rd_offset r \<le> rd_offset r'"
    unfolding moves_def by blast
qed

lemma moves_word: "moves (rd_word n)"
  unfolding moves_def
proof (intro allI impI)
  fix r v r' assume r: "inside r" and rd: "rd_word n r = (Some v, r')"
  then obtain r1 where req: "rd_require n r = (True, r1)"
    by (auto simp: rd_word_def split: prod.splits bool.splits)
  show "inside r' \<and> rd_data r' = rd_data r \<and> rd_offset r \<le> rd_offset r'"
    using rd rd_require_True [OF req r] req by (auto simp: rd_word_def inside_def)
qed

lemma moves_u8: "moves rd_u8"
  unfolding moves_def
proof (intro allI impI)
  fix r v r' assume r: "inside r" and rd: "rd_u8 r = (Some v, r')"
  then obtain r1 where req: "rd_require 1 r = (True, r1)"
    by (auto simp: rd_u8_def split: prod.splits bool.splits)
  show "inside r' \<and> rd_data r' = rd_data r \<and> rd_offset r \<le> rd_offset r'"
    using rd rd_require_True [OF req r] req by (auto simp: rd_u8_def inside_def)
qed

lemma moves_boolean: "moves rd_boolean"
  unfolding moves_def
proof (intro allI impI)
  fix r v r' assume r: "inside r" and rd: "rd_boolean r = (Some v, r')"
  then obtain b where "rd_u8 r = (Some b, r')"
    by (auto simp: rd_boolean_def split: prod.splits option.splits if_splits)
  then show "inside r' \<and> rd_data r' = rd_data r \<and> rd_offset r \<le> rd_offset r'"
    using moves_u8 r unfolding moves_def by blast
qed

lemma moves_string: "moves (rd_string bound)"
  unfolding moves_def
proof (intro allI impI)
  fix r v r' assume r: "inside r" and rd: "rd_string bound r = (Some v, r')"
  then obtain len r1 where r1: "rd_u32 r = (Some len, r1)"
    by (auto simp: rd_string_def split: prod.splits option.splits)
  then have in1: "inside r1 \<and> rd_data r1 = rd_data r \<and> rd_offset r \<le> rd_offset r1"
    using moves_word r unfolding moves_def rd_u32_def by blast
  from rd r1 obtain r2 where req: "rd_require (unat len) r1 = (True, r2)"
    by (auto simp: rd_string_def split: prod.splits bool.splits if_splits)
  show "inside r' \<and> rd_data r' = rd_data r \<and> rd_offset r \<le> rd_offset r'"
    using rd r1 in1 rd_require_True [OF req] req
    by (auto simp: rd_string_def inside_def split: if_splits)
qed

lemma consumes_u8 [consumes_intros]: "consumes (dc_field e rd_u8)"
  by (rule consumes_field [OF moves_u8])

lemma consumes_u16 [consumes_intros]: "consumes (dc_field e rd_u16)"
  unfolding rd_u16_def by (rule consumes_field [OF moves_word])

lemma consumes_u32 [consumes_intros]: "consumes (dc_field e rd_u32)"
  unfolding rd_u32_def by (rule consumes_field [OF moves_word])

lemma consumes_u64 [consumes_intros]: "consumes (dc_field e rd_u64)"
  unfolding rd_u64_def by (rule consumes_field [OF moves_word])

lemma consumes_boolean [consumes_intros]: "consumes (dc_field e rd_boolean)"
  by (rule consumes_field [OF moves_boolean])

lemma consumes_string [consumes_intros]: "consumes (dc_field e (rd_string bound))"
  by (rule consumes_field [OF moves_string])

end
