(* ===== verification/Field_Codecs.thy ===== *)
theory Field_Codecs
  imports Codec_Steps Records
begin

text \<open>
  The field codecs that \<open>src/persistence.cpp\<close> and \<open>src/wire.cpp\<close> have in common: identities as bounded
  texts, optional identities behind a presence flag, generations as non-zero numbers, enumerators as
  their raw value. Each interpretation of \<open>parsed\<close> is the law that the parser of a domain takes the
  written form of a value back to the value; the collected rules then walk an encoder and its decoder
  in step.
\<close>

section \<open>Identities and optional identities\<close>

definition max_id_length :: nat where
  "max_id_length = 128"

definition bw_id :: "'tag strong_id \<Rightarrow> byte_writer \<Rightarrow> byte_writer" where
  "bw_id i = bw_string max_id_length (id_text i)"

text \<open>\<open>id.valid() ? id.view() : ""\<close> and \<open>g.valid() ? g.value() : fallback\<close>.\<close>

definition written_id :: "'tag strong_id \<Rightarrow> string" where
  "written_id i = (if id_valid i then id_text i else [])"

definition written_gen :: "u64 \<Rightarrow> 'tag generation \<Rightarrow> u64" where
  "written_gen fallback g = (if gen_valid g then gen_value g else fallback)"

abbreviation rd_id :: "byte_reader \<Rightarrow> string option \<times> byte_reader" where
  "rd_id \<equiv> rd_string max_id_length"

abbreviation bw_id_text :: "string \<Rightarrow> byte_writer \<Rightarrow> byte_writer" where
  "bw_id_text \<equiv> bw_string max_id_length"

definition write_opt_id :: "'tag strong_id option \<Rightarrow> byte_writer \<Rightarrow> byte_writer" where
  "write_opt_id v =
     bw_all (bw_u8 (if v \<noteq> None then 1 else 0) # (case v of None \<Rightarrow> [] | Some i \<Rightarrow> [bw_id i]))"

definition read_optional_id :: "(unit, string) decoder" where
  "read_optional_id =
     dc_then (dc_field () rd_boolean) (\<lambda>present.
     if \<not> present then dc_return [] else
     dc_then (dc_field () rd_id) (\<lambda>value.
     dc_return value))"

definition known_id :: "nat \<Rightarrow> 'tag strong_id \<Rightarrow> bool" where
  "known_id n i \<longleftrightarrow> parse_strong_id n (id_text i) = Some i"

lemma known_id_iff: "known_id n i \<longleftrightarrow> id_valid i \<and> id_wf n i"
  by (auto simp: known_id_def id_wf_def id_valid_def parse_strong_id_Some_iff)

lemma known_id_text [simp]: "known_id n i \<Longrightarrow> written_id i = id_text i"
  by (simp add: known_id_iff written_id_def)

lemma known_id_parse: "known_id n i \<Longrightarrow> parse_strong_id n (id_text i) = Some i"
  by (simp add: known_id_def)

lemma known_id_nonempty: "known_id n i \<Longrightarrow> id_text i \<noteq> []"
  by (auto simp: known_id_iff id_valid_def)

lemma written_gen_valid [simp]: "gen_valid g \<Longrightarrow> written_gen fallback g = gen_value g"
  by (simp add: written_gen_def)

lemma id_bound: "max_id_length < 2 ^ 32"
  by (simp add: max_id_length_def)

lemma carries_id_text [carries_intros]:
  "carries (bw_all fs) (q s) w \<Longrightarrow>
   carries (bw_all (bw_id_text s # fs)) (dc_then (dc_field e rd_id) q) w"
  by (rule carries_string [OF id_bound])

lemma carries_id [carries_intros]:
  "carries (bw_all fs) (q (id_text i)) w \<Longrightarrow>
   carries (bw_all (bw_id i # fs)) (dc_then (dc_field e rd_id) q) w"
  unfolding bw_id_def by (rule carries_id_text)

lemma carries_opt_text:
  "carries (write_opt_id v) read_optional_id (case v of None \<Rightarrow> [] | Some i \<Rightarrow> id_text i)"
proof (cases v)
  case None
  have "carries (bw_all [bw_u8 (if False then 1 else 0)]) read_optional_id []"
    unfolding read_optional_id_def by (rule carries_flag) (simp add: carries_done)
  then show ?thesis by (simp add: None write_opt_id_def)
next
  case (Some i)
  have "carries (bw_all [bw_id i]) (dc_then (dc_field () rd_id) dc_return) (id_text i)"
    by (rule carries_id) (simp add: carries_done)
  then have "carries (bw_all [bw_u8 (if True then 1 else 0), bw_id i]) read_optional_id (id_text i)"
    unfolding read_optional_id_def by (intro carries_flag) simp
  then show ?thesis by (simp add: Some write_opt_id_def)
qed

section \<open>Domains\<close>

locale parsed_text = parsed put get ok
  for put :: "'a \<Rightarrow> string" and get :: "string \<Rightarrow> 'a option" and ok :: "'a \<Rightarrow> bool" +
  assumes put_nonempty: "ok x \<Longrightarrow> put x \<noteq> []"
begin

lemma carries_opt_parsed:
  "pred_option ok v \<Longrightarrow> carries f (q v) w \<Longrightarrow>
   carries f (dc_opt_text e get (case v of None \<Rightarrow> [] | Some i \<Rightarrow> put i) q) w"
  by (cases v) (auto simp: dc_opt_text_def get_put put_nonempty)

lemma carries_text_parsed: "ok x \<Longrightarrow> carries f (q (Some x)) w \<Longrightarrow> carries f (dc_opt_text e get (put x) q) w"
  by (simp add: dc_opt_text_def get_put put_nonempty)

end

interpretation set_id_text: parsed_text id_text parse_set_id "known_id 96"
  by unfold_locales (simp_all add: parse_set_id_def known_id_parse known_id_nonempty)

interpretation member_id_text: parsed_text id_text parse_member_id "known_id 128"
  by unfold_locales (simp_all add: parse_member_id_def known_id_parse known_id_nonempty)

interpretation path_id_text: parsed_text id_text parse_path_id "known_id 128"
  by unfold_locales (simp_all add: parse_path_id_def known_id_parse known_id_nonempty)

interpretation snapshot_id_text: parsed_text id_text parse_snapshot_id "known_id 96"
  by unfold_locales (simp_all add: parse_snapshot_id_def known_id_parse known_id_nonempty)

interpretation publisher_id_text: parsed_text id_text parse_publisher_id "known_id 64"
  by unfold_locales (simp_all add: parse_publisher_id_def known_id_parse known_id_nonempty)

interpretation worker_boot_id_text: parsed_text id_text parse_worker_boot_id "known_id 64"
  by unfold_locales (simp_all add: parse_worker_boot_id_def known_id_parse known_id_nonempty)

interpretation attempt_id_text: parsed_text id_text parse_attempt_id "known_id 64"
  by unfold_locales (simp_all add: parse_attempt_id_def known_id_parse known_id_nonempty)

interpretation session_id_text: parsed_text id_text parse_session_id "known_id 64"
  by unfold_locales (simp_all add: parse_session_id_def known_id_parse known_id_nonempty)

interpretation fabric_id_text: parsed_text id_text parse_fabric_id "known_id 64"
  by unfold_locales (simp_all add: parse_fabric_id_def known_id_parse known_id_nonempty)

interpretation namespace_text: parsed_text id_text parse_namespace_id "known_id 64"
  by unfold_locales (simp_all add: parse_namespace_id_def known_id_parse known_id_nonempty)

interpretation set_name_text: parsed_text id_text parse_set_name "known_id 64"
  by unfold_locales (simp_all add: parse_set_name_def known_id_parse known_id_nonempty)

interpretation publisher_written: parsed_text written_id parse_publisher_id "known_id 64"
  by unfold_locales (simp_all add: parse_publisher_id_def known_id_parse known_id_nonempty)

interpretation worker_boot_written: parsed_text written_id parse_worker_boot_id "known_id 64"
  by unfold_locales (simp_all add: parse_worker_boot_id_def known_id_parse known_id_nonempty)

interpretation attempt_written: parsed_text written_id parse_attempt_id "known_id 64"
  by unfold_locales (simp_all add: parse_attempt_id_def known_id_parse known_id_nonempty)

interpretation session_written: parsed_text written_id parse_session_id "known_id 64"
  by unfold_locales (simp_all add: parse_session_id_def known_id_parse known_id_nonempty)

interpretation fabric_written: parsed_text written_id parse_fabric_id "known_id 64"
  by unfold_locales (simp_all add: parse_fabric_id_def known_id_parse known_id_nonempty)

interpretation namespace_written: parsed_text written_id parse_namespace_id "known_id 64"
  by unfold_locales (simp_all add: parse_namespace_id_def known_id_parse known_id_nonempty)

interpretation set_name_written: parsed_text written_id parse_set_name "known_id 64"
  by unfold_locales (simp_all add: parse_set_name_def known_id_parse known_id_nonempty)

interpretation generation_value: parsed gen_value gen_from_value gen_valid
  by unfold_locales (auto simp: gen_from_value_def gen_valid_def intro: generation.expand)

interpretation generation_written: parsed "written_gen fallback" gen_from_value gen_valid
  by unfold_locales (auto simp: gen_from_value_def gen_valid_def written_gen_def intro: generation.expand)

interpretation set_lifecycle_enum: parsed set_lifecycle_raw set_lifecycle_of_raw "\<lambda>_. True"
  by unfold_locales (rule set_lifecycle_of_raw_raw)

interpretation set_currentness_enum: parsed set_currentness_raw set_currentness_of_raw "\<lambda>_. True"
  by unfold_locales (rule set_currentness_of_raw_raw)

interpretation member_lifecycle_enum: parsed member_lifecycle_raw member_lifecycle_of_raw "\<lambda>_. True"
  by unfold_locales (rule member_lifecycle_of_raw_raw)

interpretation member_currentness_enum: parsed member_currentness_raw member_currentness_of_raw "\<lambda>_. True"
  by unfold_locales (rule member_currentness_of_raw_raw)

interpretation revocation_reason_enum: parsed revocation_reason_raw revocation_reason_of_raw "\<lambda>_. True"
  by unfold_locales (rule revocation_reason_of_raw_raw)

interpretation membership_cause_enum: parsed membership_cause_raw membership_cause_of_raw "\<lambda>_. True"
  by unfold_locales (rule membership_cause_of_raw_raw)

interpretation path_authority_state_enum: parsed path_authority_state_raw path_authority_state_of_raw "\<lambda>_. True"
  by unfold_locales (rule path_authority_state_of_raw_raw)

lemmas parsed_fields [carries_intros] =
  set_id_text.carries_parsed
  member_id_text.carries_parsed
  path_id_text.carries_parsed
  snapshot_id_text.carries_parsed
  publisher_id_text.carries_parsed
  worker_boot_id_text.carries_parsed
  attempt_id_text.carries_parsed
  session_id_text.carries_parsed
  fabric_id_text.carries_parsed
  namespace_text.carries_parsed
  set_name_text.carries_parsed
  publisher_written.carries_parsed
  worker_boot_written.carries_parsed
  attempt_written.carries_parsed
  session_written.carries_parsed
  fabric_written.carries_parsed
  namespace_written.carries_parsed
  set_name_written.carries_parsed
  generation_value.carries_parsed
  generation_written.carries_parsed
  set_lifecycle_enum.carries_parsed
  set_currentness_enum.carries_parsed
  member_lifecycle_enum.carries_parsed
  member_currentness_enum.carries_parsed
  revocation_reason_enum.carries_parsed
  membership_cause_enum.carries_parsed
  path_authority_state_enum.carries_parsed

lemmas optional_fields [carries_intros] =
  set_id_text.carries_opt_parsed
  member_id_text.carries_opt_parsed
  path_id_text.carries_opt_parsed
  snapshot_id_text.carries_opt_parsed
  publisher_id_text.carries_opt_parsed
  worker_boot_id_text.carries_opt_parsed
  attempt_id_text.carries_opt_parsed
  session_id_text.carries_opt_parsed
  fabric_id_text.carries_opt_parsed
  namespace_text.carries_opt_parsed
  set_name_text.carries_opt_parsed

lemmas textual_fields [carries_intros] =
  set_id_text.carries_text_parsed
  member_id_text.carries_text_parsed
  path_id_text.carries_text_parsed
  snapshot_id_text.carries_text_parsed
  publisher_id_text.carries_text_parsed
  worker_boot_id_text.carries_text_parsed
  attempt_id_text.carries_text_parsed
  session_id_text.carries_text_parsed
  fabric_id_text.carries_text_parsed
  namespace_text.carries_text_parsed
  set_name_text.carries_text_parsed
  publisher_written.carries_text_parsed
  worker_boot_written.carries_text_parsed
  attempt_written.carries_text_parsed
  session_written.carries_text_parsed
  fabric_written.carries_text_parsed
  namespace_written.carries_text_parsed
  set_name_written.carries_text_parsed

lemma carries_opt_id [carries_intros]:
  "carries (bw_all fs) (q (case v of None \<Rightarrow> [] | Some i \<Rightarrow> id_text i)) w \<Longrightarrow>
   carries (bw_all (write_opt_id v # fs)) (dc_then (dc_as e read_optional_id) q) w"
  by (rule carries_nested [OF carries_opt_text])

lemma consumes_optional_id [consumes_intros]: "consumes read_optional_id"
  unfolding read_optional_id_def by (intro consumes_intros)

end
