(* ===== verification/Store_Codec.thy ===== *)
theory Store_Codec
  imports Field_Codecs Engine
begin

text \<open>
  The store format of \<open>include/multipath_fabric/persistence.hpp\<close> and \<open>src/persistence.cpp\<close>: how
  \<open>save_store\<close> turns the engine state into the bytes of a store file, and how \<open>decode_store\<close> checks
  the framing, the version and the checksum of a file and rebuilds fences and set records from it.
  What a file system does with the bytes is in \<open>Store_Files\<close>.

  A decoding function answers with the rejection or with the decoded value; the C++ fills an output
  argument, which no caller looks at after a rejection.
\<close>

section \<open>Constants of the format\<close>

definition persistence_format_version :: u32 where
  "persistence_format_version = 1"

definition store_magic :: string where
  "store_magic = ''MPFSTOR''"

definition store_magic_size :: nat where
  "store_magic_size = 8"

definition store_header_size :: nat where
  "store_header_size = 24"

definition max_short_text :: nat where
  "max_short_text = 64"

definition max_reason_text :: nat where
  "max_reason_text = 512"

definition encode_checksum :: "u8 list \<Rightarrow> nat \<Rightarrow> u64" where
  "encode_checksum bytes len = fnv1a64 fnv1a64_offset_basis (take len bytes)"

definition corrupt :: "string \<Rightarrow> fabric_outcome" where
  "corrupt detail_text = make_rejection OC_STORE_CORRUPT (msg detail_text)"

section \<open>Encoding\<close>

definition write_provenance :: "membership_provenance \<Rightarrow> byte_writer \<Rightarrow> byte_writer" where
  "write_provenance p = bw_all
     [bw_id_text (written_id (pv_publisher p)),
      bw_id_text (written_id (pv_worker_boot p)),
      bw_u64 (written_gen 0 (pv_epoch p)),
      bw_id_text (written_id (pv_attempt p)),
      bw_u64 (written_gen 0 (pv_set_generation p)),
      bw_u8 (membership_cause_raw (pv_cause p))]"

definition write_store_fence :: "fence_record \<Rightarrow> byte_writer \<Rightarrow> byte_writer" where
  "write_store_fence f = bw_all
     [bw_id (fr_publisher f),
      bw_id (fr_worker_boot f),
      bw_u64 (gen_value (fr_epoch f)),
      bw_string max_short_text (fr_cause f)]"

definition write_store_revocation :: "revocation_record option \<Rightarrow> byte_writer \<Rightarrow> byte_writer" where
  "write_store_revocation v = bw_all
     (bw_u8 (if v \<noteq> None then 1 else 0) #
      (case v of None \<Rightarrow> []
       | Some rv \<Rightarrow>
          [bw_u8 (revocation_reason_raw (rv_reason rv)),
           bw_string max_reason_text (rv_detail rv),
           bw_u64 (gen_value (rv_generation rv)),
           bw_u64 (gen_value (rv_authority_generation rv)),
           bw_u64 (gen_value (rv_epoch rv)),
           bw_id (rv_publisher rv)]))"

text \<open>The last observation of a member is stored only when generation and state are both known.\<close>

definition stored_observation :: "member_record \<Rightarrow> (path_authority_generation \<times> path_authority_state) option" where
  "stored_observation m =
     (case (m_observed_generation m, m_observed_state m) of
        (Some g, Some s) \<Rightarrow> Some (g, s)
      | _ \<Rightarrow> None)"

definition write_store_observation :: "member_record \<Rightarrow> byte_writer \<Rightarrow> byte_writer" where
  "write_store_observation m = bw_all
     (bw_u8 (if stored_observation m \<noteq> None then 1 else 0) #
      (case stored_observation m of None \<Rightarrow> []
       | Some (g, s) \<Rightarrow> [bw_u64 (gen_value g), bw_u8 (path_authority_state_raw s)]))"

definition write_store_member :: "member_record \<Rightarrow> byte_writer \<Rightarrow> byte_writer" where
  "write_store_member m = bw_all
     [bw_id (m_id m),
      bw_id (m_path_id m),
      bw_u64 (gen_value (m_bound m)),
      bw_u64 (gen_value (m_generation m)),
      bw_u8 (member_lifecycle_raw (m_lifecycle m)),
      bw_u8 (member_currentness_raw (m_currentness m)),
      bw_boolean (m_admin_enabled m),
      bw_u64 (wm_value (m_watermark m)),
      bw_u32 (m_pending m),
      write_opt_id (m_predecessor m),
      write_opt_id (m_successor m),
      write_store_observation m,
      write_provenance (m_provenance m)]"

definition write_store_set_head :: "set_record \<Rightarrow> byte_writer \<Rightarrow> byte_writer" where
  "write_store_set_head r = bw_all
     [bw_id (s_id r),
      bw_id (k_fabric (s_key r)),
      bw_id (k_name_space (s_key r)),
      bw_id (k_name (s_key r)),
      bw_u64 (gen_value (s_generation r)),
      bw_u64 (gen_value (s_membership_generation r)),
      bw_u64 (gen_value (s_authority_generation r)),
      bw_u8 (set_lifecycle_raw (s_lifecycle r)),
      bw_u8 (set_currentness_raw (s_currentness r)),
      bw_boolean (s_admin_enabled r),
      bw_u64 (of_nat (s_minimum r)),
      bw_boolean (s_conditional r),
      bw_u64 (gen_value (s_governing_epoch r)),
      write_opt_id (s_superseded_by r),
      write_opt_id (s_supersedes r),
      write_store_revocation (s_revocation r),
      bw_string max_reason_text (s_withdrawal_reason r),
      write_provenance (s_provenance r)]"

definition write_store_set :: "set_record \<Rightarrow> byte_writer \<Rightarrow> byte_writer" where
  "write_store_set r = bw_all
     [write_store_set_head r,
      bw_u32 (of_nat (om_size (s_members r))),
      bw_each write_store_member (om_values (s_members r))]"

definition write_store_payload :: "engine \<Rightarrow> byte_writer \<Rightarrow> byte_writer" where
  "write_store_payload e = bw_all
     [bw_u32 persistence_format_version,
      bw_u64 (gen_value (e_epoch e)),
      bw_u64 (gen_value (e_authority_generation e)),
      bw_u32 (of_nat (om_size (e_fences e))),
      bw_u32 (of_nat (om_size (e_sets e))),
      bw_each write_store_fence (om_values (e_fences e)),
      bw_each write_store_set (om_values (e_sets e))]"

definition store_magic_bytes :: "u8 list" where
  "store_magic_bytes =
     map (\<lambda>i. if i < length store_magic then byte_of_char (store_magic ! i) else 0) [0..<store_magic_size]"

text \<open>The framed file: magic, header, payload, and the checksum over everything before it.\<close>

definition frame_store :: "u8 list \<Rightarrow> u8 list" where
  "frame_store body =
     (let header = bw_all [bw_u32 persistence_format_version, bw_u32 0, bw_u64 (of_nat (length body))]
                     (new_writer 64);
          covered = store_magic_bytes @ bw_buffer header @ body;
          trailer = bw_u64 (encode_checksum covered (length covered)) (new_writer 16)
      in covered @ bw_buffer trailer)"

definition encode_store :: "engine \<Rightarrow> fabric_outcome + u8 list" where
  "encode_store e =
     (let lim = e_limits e;
          payload = write_store_payload e (new_writer (max_persistence_record_bytes lim));
          body = bw_buffer payload;
          total = store_header_size + length body + 8
      in if bw_overflowed payload
         then Inl (make_rejection OC_RESOURCE_LIMIT
                (msg (''store payload exceeds max_persistence_record_bytes '' @
                      nat_string (max_persistence_record_bytes lim))))
         else if length body > max_persistence_record_bytes lim
         then Inl (make_rejection OC_RESOURCE_LIMIT
                (msg ''store payload exceeds max_persistence_record_bytes''))
         else if total > max_store_bytes lim
         then Inl (make_rejection OC_RESOURCE_LIMIT
                (msg (''store size '' @ nat_string total @ '' exceeds max_store_bytes '' @
                      nat_string (max_store_bytes lim))))
         else Inr (frame_store body))"

section \<open>Decoding the records\<close>

definition read_provenance :: "(unit, membership_provenance) decoder" where
  "read_provenance =
     dc_then (dc_field () rd_id) (\<lambda>publisher.
     dc_then (dc_field () rd_id) (\<lambda>boot.
     dc_then (dc_field () rd_u64) (\<lambda>epoch.
     dc_then (dc_field () rd_id) (\<lambda>attempt.
     dc_then (dc_field () rd_u64) (\<lambda>set_generation.
     dc_then (dc_field () rd_u8) (\<lambda>cause.
     dc_some () (membership_cause_of_raw cause) (\<lambda>cause_value.
     dc_check () (\<not> (epoch = 0 \<or> set_generation = 0)) (
     dc_some () (parse_publisher_id publisher) (\<lambda>publisher_id.
     dc_some () (parse_worker_boot_id boot) (\<lambda>boot_id.
     dc_some () (parse_attempt_id attempt) (\<lambda>attempt_id.
     dc_some () (gen_from_value epoch) (\<lambda>epoch_value.
     dc_some () (gen_from_value set_generation) (\<lambda>generation_value.
     dc_return
       \<lparr>pv_publisher = publisher_id, pv_worker_boot = boot_id, pv_epoch = epoch_value,
        pv_attempt = attempt_id, pv_set_generation = generation_value, pv_cause = cause_value\<rparr>)))))))))))))"

definition read_store_fence :: "(fabric_outcome, fence_record) decoder" where
  "read_store_fence =
     (let truncated = corrupt ''store fence record is truncated'';
          impossible = corrupt ''store fence record carries an impossible identity or epoch''
      in
     dc_then (dc_field truncated rd_id) (\<lambda>publisher.
     dc_then (dc_field truncated rd_id) (\<lambda>boot.
     dc_then (dc_field truncated rd_u64) (\<lambda>fence_epoch.
     dc_then (dc_field truncated (rd_string max_short_text)) (\<lambda>cause.
     dc_some impossible (parse_publisher_id publisher) (\<lambda>publisher_id.
     dc_some impossible (parse_worker_boot_id boot) (\<lambda>boot_id.
     dc_some impossible (gen_from_value fence_epoch) (\<lambda>epoch_parsed.
     dc_return
       \<lparr>fr_publisher = publisher_id, fr_worker_boot = boot_id, fr_epoch = epoch_parsed,
        fr_cause = cause\<rparr>))))))))"

definition read_store_revocation :: "set_id \<Rightarrow> (fabric_outcome, revocation_record option) decoder" where
  "read_store_revocation sid =
     (let truncated = corrupt ''store revocation record is truncated'';
          impossible = corrupt ''store revocation record carries an impossible generation or identity''
      in
     dc_then (dc_field (corrupt ''store revocation flag is truncated'') rd_boolean) (\<lambda>has_revocation.
     if \<not> has_revocation then dc_return None else
     dc_then (dc_field truncated rd_u8) (\<lambda>reason.
     dc_then (dc_field truncated (rd_string max_reason_text)) (\<lambda>revocation_detail.
     dc_then (dc_field truncated rd_u64) (\<lambda>revocation_generation.
     dc_then (dc_field truncated rd_u64) (\<lambda>revocation_authority.
     dc_then (dc_field truncated rd_u64) (\<lambda>revocation_epoch.
     dc_then (dc_field truncated rd_id) (\<lambda>revocation_publisher.
     dc_some (corrupt ''store revocation record carries a malformed reason enumerator'')
       (revocation_reason_of_raw reason) (\<lambda>reason_value.
     dc_some impossible (gen_from_value revocation_generation) (\<lambda>revocation_generation_value.
     dc_some impossible (gen_from_value revocation_authority) (\<lambda>revocation_authority_value.
     dc_some impossible (gen_from_value revocation_epoch) (\<lambda>revocation_epoch_value.
     dc_some impossible (parse_publisher_id revocation_publisher) (\<lambda>revocation_publisher_value.
     dc_return (Some
       \<lparr>rv_set_id = sid, rv_generation = revocation_generation_value,
        rv_authority_generation = revocation_authority_value, rv_epoch = revocation_epoch_value,
        rv_publisher = revocation_publisher_value, rv_reason = reason_value,
        rv_detail = revocation_detail\<rparr>))))))))))))))"

definition read_store_observation ::
  "(fabric_outcome, (path_authority_generation \<times> path_authority_state) option) decoder" where
  "read_store_observation =
     (let truncated = corrupt ''store member observation is truncated''
      in
     dc_then (dc_field (corrupt ''store member observation flag is truncated'') rd_boolean) (\<lambda>has_observation.
     if \<not> has_observation then dc_return None else
     dc_then (dc_field truncated rd_u64) (\<lambda>observed_generation.
     dc_then (dc_field truncated rd_u8) (\<lambda>observed_state.
     dc_some (corrupt ''store member observation carries a malformed state'')
       (path_authority_state_of_raw observed_state) (\<lambda>state_value.
     dc_some (corrupt ''store member observation carries an impossible generation'')
       (gen_from_value observed_generation) (\<lambda>parsed_generation.
     dc_return (Some (parsed_generation, state_value))))))))"

definition read_store_member :: "limits \<Rightarrow> (fabric_outcome, member_record) decoder" where
  "read_store_member lim =
     (let truncated = corrupt ''store member record is truncated'';
          impossible = corrupt ''store member record carries an impossible identity or generation''
      in
     dc_then (dc_field truncated rd_id) (\<lambda>member_id.
     dc_then (dc_field truncated rd_id) (\<lambda>path.
     dc_then (dc_field truncated rd_u64) (\<lambda>bound_generation.
     dc_then (dc_field truncated rd_u64) (\<lambda>member_generation.
     dc_then (dc_field truncated rd_u8) (\<lambda>lifecycle.
     dc_then (dc_field truncated rd_u8) (\<lambda>currentness.
     dc_then (dc_field truncated rd_boolean) (\<lambda>admin.
     dc_then (dc_field truncated rd_u64) (\<lambda>watermark.
     dc_then (dc_field truncated rd_u32) (\<lambda>pending.
     dc_some impossible (parse_member_id member_id) (\<lambda>member_id_value.
     dc_some impossible (parse_path_id path) (\<lambda>path_value.
     dc_some impossible (gen_from_value bound_generation) (\<lambda>bound_value.
     dc_some impossible (gen_from_value member_generation) (\<lambda>member_generation_value.
     dc_some (corrupt ''store member record carries a malformed lifecycle enumerator'')
       (member_lifecycle_of_raw lifecycle) (\<lambda>lifecycle_value.
     dc_some (corrupt ''store member record carries a malformed currentness enumerator'')
       (member_currentness_of_raw currentness) (\<lambda>currentness_value.
     dc_check (corrupt ''store member record declares more pending revalidations than the bound'')
       (\<not> unat pending > max_pending_revalidations_per_set lim) (
     dc_then (dc_as (corrupt ''store member predecessor field is truncated'') read_optional_id) (\<lambda>optional.
     dc_opt_text (corrupt ''store member predecessor carries an impossible member identity'')
       parse_member_id optional (\<lambda>predecessor.
     dc_then (dc_as (corrupt ''store member successor field is truncated'') read_optional_id) (\<lambda>optional.
     dc_opt_text (corrupt ''store member successor carries an impossible member identity'')
       parse_member_id optional (\<lambda>successor.
     dc_then read_store_observation (\<lambda>observation.
     dc_then (dc_as (corrupt ''store member provenance is truncated or malformed'') read_provenance) (\<lambda>provenance.
     dc_return
       \<lparr>m_id = member_id_value, m_path_id = path_value, m_bound = bound_value,
        m_generation = member_generation_value, m_lifecycle = lifecycle_value,
        m_currentness = currentness_value, m_admin_enabled = admin,
        m_watermark = Watermark watermark, m_pending = pending, m_provenance = provenance,
        m_predecessor = predecessor, m_successor = successor,
        m_observed_generation = map_option fst observation,
        m_observed_state = map_option snd observation\<rparr>)))))))))))))))))))))))"

text \<open>The scalar block of a set, its links, its revocation and its provenance; no members yet.\<close>

definition read_store_set_head :: "limits \<Rightarrow> (fabric_outcome, set_record) decoder" where
  "read_store_set_head lim =
     (let truncated = corrupt ''store set record is truncated'';
          impossible = corrupt ''store set record carries an impossible identity or generation''
      in
     dc_then (dc_field truncated rd_id) (\<lambda>set_id.
     dc_then (dc_field truncated rd_id) (\<lambda>fabric.
     dc_then (dc_field truncated rd_id) (\<lambda>name_space.
     dc_then (dc_field truncated rd_id) (\<lambda>name.
     dc_then (dc_field truncated rd_u64) (\<lambda>generation.
     dc_then (dc_field truncated rd_u64) (\<lambda>membership_generation.
     dc_then (dc_field truncated rd_u64) (\<lambda>authority_generation.
     dc_then (dc_field truncated rd_u8) (\<lambda>lifecycle.
     dc_then (dc_field truncated rd_u8) (\<lambda>currentness.
     dc_then (dc_field truncated rd_boolean) (\<lambda>admin_enabled.
     dc_then (dc_field truncated rd_u64) (\<lambda>minimum.
     dc_then (dc_field truncated rd_boolean) (\<lambda>conditional.
     dc_then (dc_field truncated rd_u64) (\<lambda>governing_epoch.
     dc_some impossible (parse_set_id set_id) (\<lambda>set_id_value.
     dc_some impossible (parse_fabric_id fabric) (\<lambda>fabric_value.
     dc_some impossible (parse_namespace_id name_space) (\<lambda>namespace_value.
     dc_some impossible (parse_set_name name) (\<lambda>name_value.
     dc_some impossible (gen_from_value generation) (\<lambda>generation_value.
     dc_some impossible (gen_from_value membership_generation) (\<lambda>membership_value.
     dc_some impossible (gen_from_value authority_generation) (\<lambda>authority_value.
     dc_some impossible (gen_from_value governing_epoch) (\<lambda>governing_value.
     dc_some (corrupt ''store set record carries a malformed lifecycle enumerator'')
       (set_lifecycle_of_raw lifecycle) (\<lambda>lifecycle_value.
     dc_some (corrupt ''store set record carries a malformed currentness enumerator'')
       (set_currentness_of_raw currentness) (\<lambda>currentness_value.
     dc_check (corrupt ''store set record declares a minimum usable-member requirement above max_members_per_set'')
       (\<not> unat minimum > max_members_per_set lim) (
     dc_then (dc_as (corrupt ''store set supersession field is truncated'') read_optional_id) (\<lambda>optional.
     dc_opt_text (corrupt ''store set supersession field carries an impossible set identity'')
       parse_set_id optional (\<lambda>superseded_by.
     dc_then (dc_as (corrupt ''store set predecessor field is truncated'') read_optional_id) (\<lambda>optional.
     dc_opt_text (corrupt ''store set predecessor field carries an impossible set identity'')
       parse_set_id optional (\<lambda>supersedes.
     dc_then (read_store_revocation set_id_value) (\<lambda>revocation.
     dc_check (corrupt ''store declares a revoked set without a revocation record'')
       (\<not> (lifecycle_value = SL_REVOKED \<and> revocation = None)) (
     dc_then (dc_field (corrupt ''store withdrawal reason is truncated'') (rd_string max_reason_text)) (\<lambda>withdrawal.
     dc_then (dc_as (corrupt ''store set provenance is truncated or malformed'') read_provenance) (\<lambda>provenance.
     dc_return
       \<lparr>s_id = set_id_value, s_key = SetKey fabric_value namespace_value name_value,
        s_generation = generation_value, s_membership_generation = membership_value,
        s_authority_generation = authority_value, s_lifecycle = lifecycle_value,
        s_currentness = currentness_value, s_admin_enabled = admin_enabled,
        s_minimum = unat minimum, s_conditional = conditional, s_governing_epoch = governing_value,
        s_provenance = provenance, s_superseded_by = superseded_by, s_supersedes = supersedes,
        s_revocation = revocation, s_withdrawal_reason = withdrawal, s_history = [],
        s_watermark = wm_initial, s_members = om_empty, s_member_index = om_empty,
        s_usable = 0\<rparr>)))))))))))))))))))))))))))))))))"

text \<open>One round of the member loop: the record so far and the number of live relations in it.\<close>

definition read_store_member_into ::
  "limits \<Rightarrow> set_record \<times> nat \<Rightarrow> (fabric_outcome, set_record \<times> nat) decoder" where
  "read_store_member_into lim acc =
     (let record = fst acc; live_records = snd acc
      in
     dc_then (read_store_member lim) (\<lambda>member.
     dc_check (make_rejection OC_STORE_DUPLICATE_MEMBER
         (msg (''store set '' @ id_text (s_id record) @ '' contains the same exact path more than once'')))
       (\<not> om_has (s_members record) (m_path_id member)) (
     dc_check (make_rejection OC_STORE_DUPLICATE_MEMBER
         (msg (''store set '' @ id_text (s_id record) @ '' contains the same member identity more than once'')))
       (\<not> om_has (s_member_index record) (m_id member)) (
     dc_return
       (record\<lparr>s_member_index := om_put (m_id member) (m_path_id member) (s_member_index record),
               s_members := om_put (m_path_id member) member (s_members record)\<rparr>,
        if m_lifecycle member \<noteq> ML_WITHDRAWN \<and> m_lifecycle member \<noteq> ML_SUPERSEDED \<and>
           m_lifecycle member \<noteq> ML_RETIRED
        then live_records + 1 else live_records)))))"

definition read_store_set ::
  "limits \<Rightarrow> set_record list \<times> u64 \<Rightarrow> (fabric_outcome, set_record list \<times> u64) decoder" where
  "read_store_set lim acc =
     (let sets = fst acc; total_members = snd acc
      in
     dc_then (read_store_set_head lim) (\<lambda>record.
     dc_then (dc_field (corrupt ''store member count is truncated'') rd_u32) (\<lambda>member_count.
     dc_check (corrupt (''store set declares '' @ nat_string (unat member_count) @
                        '' member records which exceeds the configured bound''))
       (\<not> unat member_count > (max_members_per_set lim + max_archived_members_per_set lim + 1) mod 2 ^ 64) (
     dc_some (corrupt ''store declares more members than max_total_members'')
       (checked_add total_members (ucast member_count)) (\<lambda>next_total.
     dc_check (corrupt ''store declares more members than max_total_members'')
       (\<not> unat next_total > max_total_members lim) (
     dc_then (dc_loop (unat member_count) (read_store_member_into lim) (record, 0)) (\<lambda>loaded.
     let record = fst loaded; live_records = snd loaded
     in
     dc_check (corrupt (''store set '' @ id_text (s_id record) @ '' declares '' @ nat_string live_records @
                        '' live membership relations which exceeds max_members_per_set '' @
                        nat_string (max_members_per_set lim)))
       (\<not> live_records > max_members_per_set lim) (
     dc_return (sets @ [record\<lparr>s_usable := recompute_usable_members record\<rparr>], next_total)))))))))"

section \<open>Decoding a file\<close>

record decoded_store =
  ds_epoch :: coordinator_epoch
  ds_authority_generation :: authority_generation
  ds_fences :: "fence_record list"
  ds_sets :: "set_record list"
  ds_payload_digest :: digest128

text \<open>
  The header after the magic: format, reserved field and payload length, which must account for the
  whole of a file of \<open>file_size\<close> bytes. The result is the payload length.
\<close>

definition read_store_header :: "nat \<Rightarrow> limits \<Rightarrow> (fabric_outcome, u64) decoder" where
  "read_store_header file_size lim =
     (let truncated = corrupt ''store header is truncated''
      in
     dc_then (dc_field truncated rd_u32) (\<lambda>format.
     dc_then (dc_field truncated rd_u32) (\<lambda>reserved.
     dc_then (dc_field truncated rd_u64) (\<lambda>payload_length.
     dc_check (corrupt ''store header reserved field is not zero'') (\<not> reserved \<noteq> 0) (
     dc_check (make_rejection OC_STORE_VERSION_UNSUPPORTED
         (msg (''store format version '' @ nat_string (unat format) @
               '' is not supported; this build writes and reads version '' @
               nat_string (unat persistence_format_version))))
       (\<not> format \<noteq> persistence_format_version) (
     dc_check (corrupt ''store payload length exceeds max_persistence_record_bytes'')
       (\<not> unat payload_length > max_persistence_record_bytes lim) (
     let expected_size = of_nat store_header_size + payload_length + 8
     in
     dc_check (corrupt (''store length mismatch: header declares '' @ u64_string expected_size @
                        '' bytes but the file holds '' @ nat_string file_size))
       (\<not> unat expected_size \<noteq> file_size) (
     dc_check (make_rejection OC_RESOURCE_LIMIT (msg ''store exceeds max_store_bytes''))
       (\<not> file_size > max_store_bytes lim) (
     dc_return payload_length)))))))))"

definition decode_store_header :: "u8 list \<Rightarrow> limits \<Rightarrow> fabric_outcome + u64" where
  "decode_store_header file lim =
     (if length file < store_header_size + 8
      then Inl (corrupt ''store file is shorter than the minimum framed length'')
      else if take store_magic_size file \<noteq> store_magic_bytes
      then Inl (corrupt ''store magic does not match'')
      else case read_store_header (length file) lim
             (new_reader (take (store_header_size - store_magic_size) (drop store_magic_size file))) of
        Inl outcome \<Rightarrow> Inl outcome
      | Inr (payload_length, _) \<Rightarrow> Inr payload_length)"

definition read_store_trailer :: "u64 \<Rightarrow> (fabric_outcome, unit) decoder" where
  "read_store_trailer actual =
     dc_then (dc_field (corrupt ''store trailer is truncated'') rd_u64) (\<lambda>stored_checksum.
     dc_check (make_rejection OC_INTEGRITY_ERROR
         (msg (''store checksum mismatch: stored '' @ u64_string stored_checksum @
               '' computed '' @ u64_string actual)))
       (\<not> actual \<noteq> stored_checksum) (
     dc_return ()))"

definition check_store_trailer :: "u8 list \<Rightarrow> nat \<Rightarrow> fabric_outcome + unit" where
  "check_store_trailer file covered =
     (case read_store_trailer (encode_checksum file covered) (new_reader (take 8 (drop covered file))) of
        Inl outcome \<Rightarrow> Inl outcome
      | Inr _ \<Rightarrow> Inr ())"

definition read_store_payload :: "limits \<Rightarrow> digest128 \<Rightarrow> (fabric_outcome, decoded_store) decoder" where
  "read_store_payload lim digest =
     (let truncated = corrupt ''store payload header is truncated'';
          impossible = corrupt ''store declares an impossible epoch or authority generation''
      in
     dc_then (dc_field truncated rd_u32) (\<lambda>payload_version.
     dc_then (dc_field truncated rd_u64) (\<lambda>epoch.
     dc_then (dc_field truncated rd_u64) (\<lambda>authority_generation.
     dc_then (dc_field truncated rd_u32) (\<lambda>fence_count.
     dc_then (dc_field truncated rd_u32) (\<lambda>set_count.
     dc_check (make_rejection OC_STORE_VERSION_UNSUPPORTED
         (msg (''store payload version '' @ nat_string (unat payload_version) @ '' is not supported'')))
       (\<not> payload_version \<noteq> persistence_format_version) (
     dc_some impossible (gen_from_value epoch) (\<lambda>epoch_value.
     dc_some impossible (gen_from_value authority_generation) (\<lambda>authority_value.
     dc_check (corrupt (''store declares '' @ nat_string (unat set_count) @ '' sets which exceeds max_sets''))
       (\<not> unat set_count > max_sets lim) (
     dc_check (corrupt ''store declares an absurd fence count'')
       (\<not> unat fence_count > (max_publishers lim * 64 + 64) mod 2 ^ 64) (
     dc_then (dc_list (unat fence_count) read_store_fence) (\<lambda>fences.
     dc_then (dc_loop (unat set_count) (read_store_set lim) ([], 0)) (\<lambda>loaded.
     dc_return
       \<lparr>ds_epoch = epoch_value, ds_authority_generation = authority_value, ds_fences = fences,
        ds_sets = fst loaded, ds_payload_digest = digest\<rparr>)))))))))))))"

definition decode_store :: "u8 list \<Rightarrow> limits \<Rightarrow> fabric_outcome + decoded_store" where
  "decode_store file lim =
     (case decode_store_header file lim of
        Inl outcome \<Rightarrow> Inl outcome
      | Inr payload_length \<Rightarrow>
        (case check_store_trailer file (store_header_size + unat payload_length) of
           Inl outcome \<Rightarrow> Inl outcome
         | Inr _ \<Rightarrow>
           (let body = take (unat payload_length) (drop store_header_size file);
                payload_digest = digest_finish (absorb_raw body digest_start)
            in case read_store_payload lim payload_digest (new_reader body) of
                 Inl outcome \<Rightarrow> Inl outcome
               | Inr (store, reader) \<Rightarrow>
                   if \<not> rd_at_end reader
                   then Inl (corrupt (''store payload has '' @ nat_string (rd_remaining reader) @
                              '' trailing byte(s) after the declared records''))
                   else Inr store)))"

end
