(* ===== verification/Store_Facts.thy ===== *)
theory Store_Facts
  imports Store_Codec
begin

text \<open>
  The store format loses nothing it means to keep: for an engine state whose identities, generations
  and counts are such that a decoder accepts them (\<open>storable\<close>), decoding the encoded file gives back
  exactly the stored form of every fence and every set. The proof walks each encoder and its decoder
  in step with the \<open>carries\<close> rules.
\<close>

section \<open>What the decoder accepts\<close>

definition storable_provenance :: "membership_provenance \<Rightarrow> bool" where
  "storable_provenance p \<longleftrightarrow>
     known_id 64 (pv_publisher p) \<and> known_id 64 (pv_worker_boot p) \<and> gen_valid (pv_epoch p) \<and>
     known_id 64 (pv_attempt p) \<and> gen_valid (pv_set_generation p)"

definition storable_fence :: "fence_record \<Rightarrow> bool" where
  "storable_fence f \<longleftrightarrow>
     known_id 64 (fr_publisher f) \<and> known_id 64 (fr_worker_boot f) \<and> gen_valid (fr_epoch f)"

definition storable_revocation :: "revocation_record \<Rightarrow> bool" where
  "storable_revocation v \<longleftrightarrow>
     gen_valid (rv_generation v) \<and> gen_valid (rv_authority_generation v) \<and> gen_valid (rv_epoch v) \<and>
     known_id 64 (rv_publisher v)"

definition storable_member :: "limits \<Rightarrow> member_record \<Rightarrow> bool" where
  "storable_member lim m \<longleftrightarrow>
     known_id 128 (m_id m) \<and> known_id 128 (m_path_id m) \<and> gen_valid (m_bound m) \<and>
     gen_valid (m_generation m) \<and> unat (m_pending m) \<le> max_pending_revalidations_per_set lim \<and>
     pred_option (known_id 128) (m_predecessor m) \<and> pred_option (known_id 128) (m_successor m) \<and>
     pred_option (\<lambda>x. gen_valid (fst x)) (stored_observation m) \<and>
     storable_provenance (m_provenance m)"

definition storable_head :: "limits \<Rightarrow> set_record \<Rightarrow> bool" where
  "storable_head lim r \<longleftrightarrow>
     known_id 96 (s_id r) \<and> known_id 64 (k_fabric (s_key r)) \<and> known_id 64 (k_name_space (s_key r)) \<and>
     known_id 64 (k_name (s_key r)) \<and> gen_valid (s_generation r) \<and>
     gen_valid (s_membership_generation r) \<and> gen_valid (s_authority_generation r) \<and>
     gen_valid (s_governing_epoch r) \<and> s_minimum r \<le> max_members_per_set lim \<and> s_minimum r < 2 ^ 64 \<and>
     pred_option (known_id 96) (s_superseded_by r) \<and> pred_option (known_id 96) (s_supersedes r) \<and>
     pred_option storable_revocation (s_revocation r) \<and>
     (s_lifecycle r = SL_REVOKED \<longrightarrow> s_revocation r \<noteq> None) \<and> storable_provenance (s_provenance r)"

definition storable_set :: "limits \<Rightarrow> set_record \<Rightarrow> bool" where
  "storable_set lim r \<longleftrightarrow>
     storable_head lim r \<and> tables_ok r \<and>
     list_all (storable_member lim) (om_values (s_members r)) \<and>
     om_size (s_members r) \<le> (max_members_per_set lim + max_archived_members_per_set lim + 1) mod 2 ^ 64 \<and>
     om_size (s_members r) < 2 ^ 32 \<and> live_member_count r \<le> max_members_per_set lim"

definition stored_member_total :: "set_record list \<Rightarrow> nat" where
  "stored_member_total sets = sum_list (map (\<lambda>r. om_size (s_members r)) sets)"

definition storable :: "engine \<Rightarrow> bool" where
  "storable e \<longleftrightarrow>
     gen_valid (e_epoch e) \<and> gen_valid (e_authority_generation e) \<and>
     list_all storable_fence (om_values (e_fences e)) \<and>
     om_size (e_fences e) \<le> (max_publishers (e_limits e) * 64 + 64) mod 2 ^ 64 \<and> om_size (e_fences e) < 2 ^ 32 \<and>
     list_all (storable_set (e_limits e)) (om_values (e_sets e)) \<and>
     om_size (e_sets e) \<le> max_sets (e_limits e) \<and> om_size (e_sets e) < 2 ^ 32 \<and>
     stored_member_total (om_values (e_sets e)) \<le> max_total_members (e_limits e) \<and>
     stored_member_total (om_values (e_sets e)) < 2 ^ 64"

section \<open>What is kept\<close>

text \<open>
  Of a member everything but an observation of which only one half is known; of a set everything but
  its history, its watermark and the derived usable count, which is computed anew.
\<close>

definition stored_member :: "member_record \<Rightarrow> member_record" where
  "stored_member m =
     m\<lparr>m_observed_generation := map_option fst (stored_observation m),
       m_observed_state := map_option snd (stored_observation m)\<rparr>"

definition stored_form :: "set_record \<Rightarrow> set_record" where
  "stored_form r =
     r\<lparr>s_revocation := map_option (\<lambda>v. v\<lparr>rv_set_id := s_id r\<rparr>) (s_revocation r),
       s_history := [], s_watermark := wm_initial,
       s_members := om_map (\<lambda>_. stored_member) (s_members r),
       s_usable := recompute_usable_members r\<rparr>"

definition stored_engine :: "engine \<Rightarrow> u8 list \<Rightarrow> decoded_store" where
  "stored_engine e body =
     \<lparr>ds_epoch = e_epoch e, ds_authority_generation = e_authority_generation e,
      ds_fences = om_values (e_fences e), ds_sets = map stored_form (om_values (e_sets e)),
      ds_payload_digest = digest_finish (absorb_raw body digest_start)\<rparr>"

section \<open>Records\<close>

lemma carries_provenance:
  "storable_provenance p \<Longrightarrow> carries (write_provenance p) read_provenance p"
  unfolding write_provenance_def read_provenance_def storable_provenance_def
  by (intro carries_intros) (auto simp: written_gen_def gen_valid_def)

lemma carries_fence: "storable_fence f \<Longrightarrow> carries (write_store_fence f) read_store_fence f"
  unfolding write_store_fence_def read_store_fence_def storable_fence_def Let_def
  by (intro carries_intros) (auto simp: max_short_text_def)

lemma carries_revocation:
  assumes "pred_option storable_revocation v"
  shows "carries (write_store_revocation v) (read_store_revocation sid) (map_option (\<lambda>x. x\<lparr>rv_set_id := sid\<rparr>) v)"
proof (cases v)
  case None
  show ?thesis
    unfolding write_store_revocation_def read_store_revocation_def Let_def None option.case
    by (rule carries_flag) (simp add: carries_done)
next
  case (Some x)
  with assms have x: "storable_revocation x" by simp
  show ?thesis
    unfolding write_store_revocation_def read_store_revocation_def Let_def Some option.case
    by (rule carries_flag, simp, intro carries_intros)
      (use x in \<open>auto simp: storable_revocation_def max_reason_text_def\<close>)
qed

lemma carries_observation:
  assumes "pred_option (\<lambda>x. gen_valid (fst x)) (stored_observation m)"
  shows "carries (write_store_observation m) read_store_observation (stored_observation m)"
proof (cases "stored_observation m")
  case None
  show ?thesis
    unfolding write_store_observation_def read_store_observation_def Let_def None option.case
    by (rule carries_flag) (simp add: carries_done)
next
  case (Some x)
  with assms have x: "gen_valid (fst x)" by simp
  show ?thesis
    unfolding write_store_observation_def read_store_observation_def Let_def Some option.case
    by (cases x, rule carries_flag, simp, intro carries_intros) (use x in auto)
qed

lemma carries_member:
  assumes "storable_member lim m"
  shows "carries (write_store_member m) (read_store_member lim) (stored_member m)"
  unfolding write_store_member_def read_store_member_def Let_def
  by (intro carries_intros carries_nested [OF carries_provenance] carries_step [OF carries_observation])
    (use assms in \<open>simp_all add: storable_member_def stored_member_def\<close>)

section \<open>Sets\<close>

text \<open>The record the decoder has before the member loop.\<close>

definition stored_head :: "set_record \<Rightarrow> set_record" where
  "stored_head r =
     r\<lparr>s_revocation := map_option (\<lambda>v. v\<lparr>rv_set_id := s_id r\<rparr>) (s_revocation r),
       s_history := [], s_watermark := wm_initial,
       s_members := om_empty, s_member_index := om_empty, s_usable := 0\<rparr>"

lemma carries_head:
  assumes "storable_head lim r"
  shows "carries (write_store_set_head r) (read_store_set_head lim) (stored_head r)"
  unfolding write_store_set_head_def read_store_set_head_def Let_def
  by (intro carries_intros carries_nested [OF carries_provenance] carries_step [OF carries_revocation])
    (use assms in \<open>auto simp: storable_head_def stored_head_def max_reason_text_def unsigned_of_nat
       take_bit_nat_eq_self\<close>)

text \<open>Filling a table from a list of entries with distinct keys.\<close>

lemma om_find_fold_put:
  "om_find (fold (\<lambda>x. om_put (f x) (g x)) xs t) = om_find t ++ map_of (rev (map (\<lambda>x. (f x, g x)) xs))"
  by (induction xs arbitrary: t) (auto simp: fun_eq_iff map_add_def split: option.splits)

lemma om_find_fold_put_distinct:
  assumes "distinct (map f xs)"
  shows "om_find (fold (\<lambda>x. om_put (f x) (g x)) xs om_empty) = map_of (map (\<lambda>x. (f x, g x)) xs)"
proof -
  have "distinct (map fst (map (\<lambda>x. (f x, g x)) xs))" using assms by (simp add: comp_def)
  then have "map_of (rev (map (\<lambda>x. (f x, g x)) xs)) = map_of (map (\<lambda>x. (f x, g x)) xs)"
    by (intro map_of_inject_set [THEN iffD2]) (simp_all add: rev_map [symmetric])
  then show ?thesis
    unfolding om_find_fold_put by (simp add: fun_eq_iff map_add_def split: option.split)
qed

text \<open>The state of the member loop after the members \<open>ys\<close>.\<close>

definition loaded_members :: "set_record \<Rightarrow> member_record list \<Rightarrow> set_record \<times> nat" where
  "loaded_members r ys =
     ((stored_head r)\<lparr>
        s_member_index := fold (\<lambda>m. om_put (m_id m) (m_path_id m)) ys om_empty,
        s_members := fold (\<lambda>m. om_put (m_path_id m) (stored_member m)) ys om_empty\<rparr>,
      length (filter (\<lambda>m. \<not> member_is_terminal m) ys))"

lemma stored_member_simps [simp]:
  "m_id (stored_member m) = m_id m"
  "m_path_id (stored_member m) = m_path_id m"
  "m_lifecycle (stored_member m) = m_lifecycle m"
  "m_currentness (stored_member m) = m_currentness m"
  "m_usable (stored_member m) = m_usable m"
  by (simp_all add: stored_member_def m_usable_def)

lemma carries_member_into:
  assumes m: "storable_member lim m"
    and paths: "distinct (map m_path_id (ys @ [m]))" and ids: "distinct (map m_id (ys @ [m]))"
  shows "carries (write_store_member m) (read_store_member_into lim (loaded_members r ys))
           (loaded_members r (ys @ [m]))"
proof -
  have path: "\<not> om_has (s_members (fst (loaded_members r ys))) (m_path_id m)"
    using paths by (auto simp: loaded_members_def om_has_def om_find_fold_put_distinct map_of_eq_None_iff)
  have i: "\<not> om_has (s_member_index (fst (loaded_members r ys))) (m_id m)"
    using ids by (auto simp: loaded_members_def om_has_def om_find_fold_put_distinct map_of_eq_None_iff)
  have "carries (bw_all [write_store_member m]) (read_store_member_into lim (loaded_members r ys))
          (loaded_members r (ys @ [m]))"
    unfolding read_store_member_into_def Let_def
    by (intro carries_step [OF carries_member [OF m]] carries_intros)
      (use path i in \<open>auto simp: loaded_members_def member_is_terminal_def\<close>)
  then show ?thesis by (simp only: bw_all_single)
qed

lemma set_om_values: "m \<in> set (om_values t) \<longleftrightarrow> (\<exists>k. om_find t k = Some m)"
  by (force simp: om_values_def om_find_iff)

lemma om_value_key:
  "tables_ok r \<Longrightarrow> (k, m) \<in> set (om_entries (s_members r)) \<Longrightarrow> m_path_id m = k"
  by (auto simp: tables_ok_def simp flip: om_find_iff)

lemma member_keys:
  assumes "tables_ok r"
  shows "map m_path_id (om_values (s_members r)) = om_keys (s_members r)"
  unfolding om_values_def om_keys_def using om_value_key [OF assms] by (auto simp: comp_def)

lemma member_ids_distinct:
  assumes ok: "tables_ok r"
  shows "distinct (map m_id (om_values (s_members r)))"
proof -
  have "inj_on m_id (set (om_values (s_members r)))"
  proof (rule inj_onI)
    fix m n assume "m \<in> set (om_values (s_members r))" "n \<in> set (om_values (s_members r))" "m_id m = m_id n"
    moreover from this obtain p q where "om_find (s_members r) p = Some m" "om_find (s_members r) q = Some n"
      by (auto simp: om_values_def om_find_iff)
    ultimately show "m = n" using ok by (metis index_ok_inj option.inject tables_ok_def)
  qed
  moreover have "distinct (om_values (s_members r))"
    using member_keys [OF ok] distinct_om_keys [of "s_members r"]
    by (metis distinct_map om_keys_def)
  ultimately show ?thesis by (simp add: distinct_map)
qed

lemma member_entries:
  assumes "tables_ok r"
  shows "map (\<lambda>m. (m_path_id m, g m)) (om_values (s_members r)) = map (\<lambda>(k, v). (k, g v)) (om_entries (s_members r))"
  unfolding om_values_def using om_value_key [OF assms] by auto

lemma members_rebuilt:
  assumes ok: "tables_ok r"
  shows "fold (\<lambda>m. om_put (m_path_id m) (g m)) (om_values (s_members r)) om_empty = om_map (\<lambda>_. g) (s_members r)"
proof (rule omap_eqI)
  fix k
  have "distinct (map m_path_id (om_values (s_members r)))"
    by (simp add: member_keys [OF ok] om_keys_def)
  then show "om_find (fold (\<lambda>m. om_put (m_path_id m) (g m)) (om_values (s_members r)) om_empty) k =
    om_find (om_map (\<lambda>_. g) (s_members r)) k"
    by (simp only: om_find_fold_put_distinct member_entries [OF ok] map_of_map_entries om_find_map)
      (simp add: om_find_eq_map_of)
qed

lemma index_rebuilt:
  assumes ok: "tables_ok r"
  shows "fold (\<lambda>m. om_put (m_id m) (m_path_id m)) (om_values (s_members r)) om_empty = s_member_index r"
proof (rule omap_eqI)
  fix i
  have path: "m_path_id m = k" if "om_find (s_members r) k = Some m" for k m
    using ok that by (simp add: tables_ok_def)
  have idx: "index_ok m_id (om_find (s_members r)) (om_find (s_member_index r))"
    using ok by (simp add: tables_ok_def)
  let ?xs = "map (\<lambda>m. (m_id m, m_path_id m)) (om_values (s_members r))"
  have ids: "distinct (map m_id (om_values (s_members r)))" by (rule member_ids_distinct [OF ok])
  then have "distinct (map fst ?xs)" by (simp add: comp_def)
  then have "map_of ?xs i = Some p \<longleftrightarrow> om_find (s_member_index r) i = Some p" for p
  proof -
    have "map_of ?xs i = Some p \<longleftrightarrow> (\<exists>m \<in> set (om_values (s_members r)). i = m_id m \<and> p = m_path_id m)"
      unfolding map_of_eq_Some_iff [OF \<open>distinct (map fst ?xs)\<close>]
      by (simp only: set_map image_iff prod.inject)
    also have "\<dots> \<longleftrightarrow> (\<exists>k m. om_find (s_members r) k = Some m \<and> m_id m = i \<and> m_path_id m = p)"
      unfolding Bex_def set_om_values by blast
    also have "\<dots> \<longleftrightarrow> om_find (s_member_index r) i = Some p"
      using path index_ok_tblD [OF idx] index_ok_idxD [OF idx] by blast
    finally show ?thesis .
  qed
  then show "om_find (fold (\<lambda>m. om_put (m_id m) (m_path_id m)) (om_values (s_members r)) om_empty) i =
    om_find (s_member_index r) i"
    unfolding om_find_fold_put_distinct [OF ids] by (metis option.exhaust)
qed

lemma carries_members:
  assumes r: "storable_set lim r"
  shows "carries (bw_each write_store_member (om_values (s_members r)))
    (dc_loop (om_size (s_members r)) (read_store_member_into lim) (stored_head r, 0))
    (loaded_members r (om_values (s_members r)))"
proof -
  have ok: "tables_ok r" and all: "list_all (storable_member lim) (om_values (s_members r))"
    using r by (simp_all add: storable_set_def)
  have "carries (write_store_member m) (read_store_member_into lim (loaded_members r ys)) (loaded_members r (ys @ [m]))"
    if xs: "om_values (s_members r) = ys @ m # zs" for ys m zs
  proof (rule carries_member_into)
    show "storable_member lim m" using all xs by simp
    have "distinct (map m_path_id (ys @ m # zs))"
      using member_keys [OF ok] distinct_om_keys [of "s_members r"] xs by (simp add: om_keys_def)
    then show "distinct (map m_path_id (ys @ [m]))" by auto
    have "distinct (map m_id (ys @ m # zs))" using member_ids_distinct [OF ok] xs by simp
    then show "distinct (map m_id (ys @ [m]))" by auto
  qed
  from carries_loop [of _ write_store_member _ "loaded_members r", OF this]
  have "carries (bw_each write_store_member (om_values (s_members r)))
    (dc_loop (length (om_values (s_members r))) (read_store_member_into lim) (loaded_members r []))
    (loaded_members r (om_values (s_members r)))" .
  moreover have "loaded_members r [] = (stored_head r, 0)" by (simp add: loaded_members_def stored_head_def)
  moreover have "length (om_values (s_members r)) = om_size (s_members r)" by (simp add: om_values_def om_size_def)
  ultimately show ?thesis by simp
qed

lemma om_map_map: "om_count P (om_map (\<lambda>_. f) t) = om_count (\<lambda>v. P (f v)) t"
  by (simp add: om_count_def om_values_def filter_map comp_def case_prod_unfold)

lemma carries_set:
  assumes r: "storable_set lim r"
    and room: "unat tm + om_size (s_members r) \<le> max_total_members lim"
      "unat tm + om_size (s_members r) < 2 ^ 64"
  shows "carries (write_store_set r) (read_store_set lim (sets, tm))
           (sets @ [stored_form r], tm + of_nat (om_size (s_members r)))"
proof -
  let ?n = "om_size (s_members r)"
  have head: "storable_head lim r" and ok: "tables_ok r" and count: "?n < 2 ^ 32"
    and bound: "?n \<le> (max_members_per_set lim + max_archived_members_per_set lim + 1) mod 2 ^ 64"
    and live: "live_member_count r \<le> max_members_per_set lim"
    using r by (simp_all add: storable_set_def)
  have n32: "unat (of_nat ?n :: u32) = ?n"
    using count by (simp add: unsigned_of_nat take_bit_nat_eq_self)
  have n64: "(ucast (of_nat ?n :: u32) :: u64) = of_nat ?n"
    using count by (simp add: word_unat_eq_iff unsigned_ucast_eq unsigned_of_nat take_bit_nat_eq_self)
  have "unat (of_nat ?n :: u64) = ?n"
    using count by (simp add: unsigned_of_nat take_bit_nat_eq_self)
  then have sum: "checked_add tm (of_nat ?n) = Some (tm + of_nat ?n)"
    using room(2) by (simp add: checked_add_exact)
  then have sum_value: "unat (tm + of_nat ?n) = unat tm + ?n"
    using checked_add_Some \<open>unat (of_nat ?n :: u64) = ?n\<close> by metis
  have final: "(fst (loaded_members r (om_values (s_members r))))
      \<lparr>s_usable := recompute_usable_members (fst (loaded_members r (om_values (s_members r))))\<rparr> = stored_form r"
    by (simp add: loaded_members_def stored_head_def stored_form_def members_rebuilt [OF ok]
      index_rebuilt [OF ok] recompute_usable_members_def om_map_map)
  have livec: "snd (loaded_members r (om_values (s_members r))) = live_member_count r"
    by (simp add: loaded_members_def live_member_count_def om_count_def)
  show ?thesis
    unfolding write_store_set_def read_store_set_def Let_def fst_conv snd_conv
    by (intro carries_step [OF carries_head [OF head]] carries_intros,
        use bound in \<open>simp add: n32\<close>, unfold n64 sum dc_simps n32,
        intro carries_check carries_step [OF carries_members [OF r]] carries_done)
      (use room live in \<open>simp_all add: sum_value livec final\<close>)
qed

section \<open>The payload\<close>

lemma stored_member_total_simps [simp]:
  "stored_member_total [] = 0"
  "stored_member_total (xs @ ys) = stored_member_total xs + stored_member_total ys"
  "stored_member_total (r # ys) = om_size (s_members r) + stored_member_total ys"
  by (simp_all add: stored_member_total_def)

lemma carries_sets:
  assumes sets: "list_all (storable_set lim) xs"
    and room: "stored_member_total xs \<le> max_total_members lim" "stored_member_total xs < 2 ^ 64"
  shows "carries (bw_each write_store_set xs) (dc_loop (length xs) (read_store_set lim) ([], 0))
    (map stored_form xs, of_nat (stored_member_total xs))"
proof -
  define st :: "set_record list \<Rightarrow> set_record list \<times> u64"
    where "st ys = (map stored_form ys, of_nat (stored_member_total ys))" for ys
  have "carries (write_store_set r) (read_store_set lim (st ys)) (st (ys @ [r]))" if xs: "xs = ys @ r # zs" for ys r zs
  proof -
    have t: "unat (of_nat (stored_member_total ys) :: u64) = stored_member_total ys"
      using room(2) xs by (simp add: unsigned_of_nat take_bit_nat_eq_self)
    have "storable_set lim r" using sets xs by simp
    from carries_set [OF this, of "of_nat (stored_member_total ys)" "map stored_form ys"] room t xs
    show ?thesis by (simp add: st_def)
  qed
  from carries_loop [of xs write_store_set "read_store_set lim" st, OF this]
  show ?thesis by (simp add: st_def)
qed

lemma carries_payload:
  assumes e: "storable e"
  shows "carries (write_store_payload e) (read_store_payload (e_limits e) digest)
    \<lparr>ds_epoch = e_epoch e, ds_authority_generation = e_authority_generation e,
     ds_fences = om_values (e_fences e), ds_sets = map stored_form (om_values (e_sets e)),
     ds_payload_digest = digest\<rparr>"
proof -
  let ?fences = "om_values (e_fences e)" and ?sets = "om_values (e_sets e)"
  have sizes: "length ?fences = om_size (e_fences e)" "length ?sets = om_size (e_sets e)"
    by (simp_all add: om_values_def om_size_def)
  have n32: "unat (of_nat (om_size (e_fences e)) :: u32) = om_size (e_fences e)"
    "unat (of_nat (om_size (e_sets e)) :: u32) = om_size (e_sets e)"
    using e by (simp_all add: storable_def unsigned_of_nat take_bit_nat_eq_self)
  have fences: "carries (bw_each write_store_fence ?fences) (dc_list (om_size (e_fences e)) read_store_fence) ?fences"
    using carries_list [of ?fences write_store_fence read_store_fence "\<lambda>x. x"] e
    by (auto simp: storable_def list_all_iff sizes intro: carries_fence)
  have "carries (bw_each write_store_set ?sets) (dc_loop (length ?sets) (read_store_set (e_limits e)) ([], 0))
      (map stored_form ?sets, of_nat (stored_member_total ?sets))"
    by (rule carries_sets) (use e in \<open>simp_all add: storable_def\<close>)
  note sets = this [unfolded sizes]
  show ?thesis
    unfolding write_store_payload_def read_store_payload_def Let_def
    by (intro carries_intros, unfold n32, use e in \<open>simp_all add: storable_def\<close>,
        intro carries_step [OF fences] carries_step [OF sets] carries_done, simp)
qed

section \<open>The file\<close>

lemma decodes_u32_then: "decodes (q v) cs w \<Longrightarrow> decodes (dc_then (dc_field e rd_u32) q) (le_bytes 4 v @ cs) w"
  by (rule decodes_then [OF u32_codec.decodes_field [OF TrueI]])

lemma decodes_u64_then: "decodes (q v) cs w \<Longrightarrow> decodes (dc_then (dc_field e rd_u64) q) (le_bytes 8 v @ cs) w"
  by (rule decodes_then [OF u64_codec.decodes_field [OF TrueI]])

lemma decodes_check: "b \<Longrightarrow> decodes p bs v \<Longrightarrow> decodes (dc_check e b p) bs v"
  by simp

lemma decodes_whole:
  assumes "decodes p bs v"
  obtains r where "p (new_reader bs) = Inr (v, r)" "reads r []"
  using decodesD [OF assms, of "new_reader bs" "[]"] reads_new [of bs] by auto

lemma frame_store_eq:
  "frame_store body =
     (let covered = store_magic_bytes @ (le_bytes 4 persistence_format_version @ le_bytes 4 (0 :: u32) @
                      le_bytes 8 (of_nat (length body) :: u64)) @ body
      in covered @ le_bytes 8 (fnv1a64 fnv1a64_offset_basis covered))"
  by (simp add: frame_store_def bw_all_def bw_u32_def bw_u64_def bw_raw_eq new_writer_def encode_checksum_def Let_def)

lemma length_store_magic_bytes [simp]: "length store_magic_bytes = 8"
  by (simp add: store_magic_bytes_def store_magic_size_def)

lemma length_frame_store [simp]: "length (frame_store body) = 32 + length body"
  by (simp add: frame_store_eq Let_def)

lemma unat_body_size:
  assumes "length body < 2 ^ 63"
  shows "unat (of_nat (length body) :: u64) = length body"
    and "unat (32 + of_nat (length body) :: u64) = 32 + length body"
proof -
  have "32 + of_nat (length body) = (of_nat (32 + length body) :: u64)" by simp
  moreover have "unat (of_nat (32 + length body) :: u64) = 32 + length body"
    unfolding unat_of_nat using assms by (intro mod_less) simp
  ultimately show "unat (32 + of_nat (length body) :: u64) = 32 + length body" by simp
  show "unat (of_nat (length body) :: u64) = length body"
    unfolding unat_of_nat using assms by (intro mod_less) simp
qed

lemma decode_store_header_frame:
  assumes "length body \<le> max_persistence_record_bytes lim" "32 + length body \<le> max_store_bytes lim"
    "length body < 2 ^ 63"
  shows "decode_store_header (frame_store body) lim = Inr (of_nat (length body))"
proof -
  let ?n = "of_nat (length body) :: u64"
  have "decodes (read_store_header (32 + length body) lim)
      (le_bytes 4 persistence_format_version @ le_bytes 4 (0 :: u32) @ le_bytes 8 ?n @ []) ?n"
    unfolding read_store_header_def Let_def
    by (rule decodes_u32_then, rule decodes_u32_then, rule decodes_u64_then, intro decodes_check decodes_return)
      (use assms in \<open>simp_all add: unat_body_size store_header_size_def\<close>)
  then obtain r where "read_store_header (32 + length body) lim
      (new_reader (le_bytes 4 persistence_format_version @ le_bytes 4 (0 :: u32) @ le_bytes 8 ?n @ [])) = Inr (?n, r)"
    by (rule decodes_whole)
  then show ?thesis
    by (simp add: decode_store_header_def frame_store_eq Let_def store_header_size_def store_magic_size_def)
qed

lemma check_store_trailer_frame: "check_store_trailer (frame_store body) (24 + length body) = Inr ()"
proof -
  let ?covered = "store_magic_bytes @ (le_bytes 4 persistence_format_version @ le_bytes 4 (0 :: u32) @
                      le_bytes 8 (of_nat (length body) :: u64)) @ body"
  let ?sum = "fnv1a64 fnv1a64_offset_basis ?covered"
  have len: "length ?covered = 24 + length body" by simp
  have "decodes (read_store_trailer ?sum) (le_bytes 8 ?sum @ []) ()"
    unfolding read_store_trailer_def by (rule decodes_u64_then) (simp add: decodes_return)
  then obtain r where "read_store_trailer ?sum (new_reader (le_bytes 8 ?sum @ [])) = Inr ((), r)"
    by (rule decodes_whole)
  moreover have "encode_checksum (frame_store body) (24 + length body) = ?sum"
    unfolding encode_checksum_def frame_store_eq Let_def using len by simp
  moreover have "take 8 (drop (24 + length body) (frame_store body)) = le_bytes 8 ?sum"
    unfolding frame_store_eq Let_def using len by simp
  ultimately show ?thesis by (simp add: check_store_trailer_def)
qed

lemma decode_store_frame:
  assumes size: "length body \<le> max_persistence_record_bytes lim" "32 + length body \<le> max_store_bytes lim"
      "length body < 2 ^ 63"
    and body: "decodes (read_store_payload lim (digest_finish (absorb_raw body digest_start))) body store"
  shows "decode_store (frame_store body) lim = Inr store"
proof -
  obtain r where r: "read_store_payload lim (digest_finish (absorb_raw body digest_start)) (new_reader body) = Inr (store, r)"
      "reads r []"
    using body by (rule decodes_whole)
  have "take (length body) (drop 24 (frame_store body)) = body"
    by (simp add: frame_store_eq Let_def)
  then show ?thesis
    using r reads_end [OF r(2)] size(3)
    by (simp add: decode_store_def decode_store_header_frame [OF size] check_store_trailer_frame
      store_header_size_def unat_body_size Let_def)
qed

text \<open>What the encoder accepted, the decoder gives back.\<close>

lemma decode_encode_store:
  assumes e: "storable e" and written: "encode_store e = Inr file"
    and size: "max_store_bytes (e_limits e) < 2 ^ 63"
  shows "\<exists>body. file = frame_store body \<and> decode_store file (e_limits e) = Inr (stored_engine e body)"
proof -
  let ?w = "write_store_payload e (new_writer (max_persistence_record_bytes (e_limits e)))"
  let ?body = "bw_buffer ?w"
  have ok: "bw_ok ?w" and len: "length ?body \<le> max_persistence_record_bytes (e_limits e)"
    and tot: "32 + length ?body \<le> max_store_bytes (e_limits e)" and f: "file = frame_store ?body"
    using written by (auto simp: encode_store_def Let_def bw_overflowed_def store_header_size_def split: if_splits)
  have "decodes (read_store_payload (e_limits e) digest) ?body
    \<lparr>ds_epoch = e_epoch e, ds_authority_generation = e_authority_generation e,
     ds_fences = om_values (e_fences e), ds_sets = map stored_form (om_values (e_sets e)),
     ds_payload_digest = digest\<rparr>" for digest
  proof -
    from carriesE [OF carries_payload [OF e] ok] obtain bs where
      "bw_buffer ?w = bw_buffer (new_writer (max_persistence_record_bytes (e_limits e))) @ bs"
      "decodes (read_store_payload (e_limits e) digest) bs
        \<lparr>ds_epoch = e_epoch e, ds_authority_generation = e_authority_generation e,
         ds_fences = om_values (e_fences e), ds_sets = map stored_form (om_values (e_sets e)),
         ds_payload_digest = digest\<rparr>" .
    then show ?thesis by (simp add: new_writer_def)
  qed
  then have "decode_store (frame_store ?body) (e_limits e) = Inr (stored_engine e ?body)"
    using len tot size unfolding stored_engine_def by (intro decode_store_frame) auto
  with f show ?thesis by blast
qed

end
