(* ===== verification/Explanation_Facts.thy ===== *)
theory Explanation_Facts
  imports Query_Facts Explanation Store_Facts
begin

text \<open>
  What an explanation says of the single members of a set, and which fields of a member a diff of two
  snapshots does not look at.
\<close>

section \<open>The members of an explanation\<close>

lemma explained_member:
  assumes core: "set_core lim r" and me: "me \<in> set (se_members (make_explanation lim' obs r))"
  shows "\<exists>m. om_find (s_members r) (me_path_id me) = Some m \<and> me_id me = m_id m \<and> me_lifecycle me = m_lifecycle m \<and>
    me_currentness me = m_currentness m \<and> me_admin_enabled me = m_admin_enabled m \<and> me_bound me = m_bound m \<and>
    me_pending me = m_pending m \<and> (me_usable me \<longleftrightarrow> m_usable m) \<and> me_reason me = member_reason m"
proof -
  have "me \<in> explain_member obs ` set (om_values (s_members r))"
    using me by (auto simp: make_explanation_def Let_def dest: in_set_takeD split: if_splits)
  then obtain path m where m: "om_find (s_members r) path = Some m" and x: "me = explain_member obs m"
    by (auto simp: set_om_values)
  have "m_path_id m = path" "m_usable m \<longrightarrow> m_admin_enabled m"
    using set_coreD(1,2) [OF core] m by (auto simp: tables_ok_def evidence_ok_def member_evidence_def)
  with m show ?thesis
    by (auto simp: x explain_member_def Let_def member_inputs_usable_def m_usable_def)
qed

lemma explained_all:
  assumes core: "set_core lim r" and "\<not> se_truncated (make_explanation lim' obs r)" and m: "om_find (s_members r) path = Some m"
  shows "\<exists>me \<in> set (se_members (make_explanation lim' obs r)). me_path_id me = path"
proof -
  have "m \<in> set (om_values (s_members r))" using m by (auto simp: set_om_values)
  then have "explain_member obs m \<in> set (se_members (make_explanation lim' obs r))"
    using assms(2) by (simp add: make_explanation_def Let_def)
  moreover have "m_path_id m = path" using set_coreD(1) [OF core] m by (simp add: tables_ok_def)
  then have "me_path_id (explain_member obs m) = path" by (simp add: explain_member_def Let_def)
  ultimately show ?thesis by blast
qed

lemma usable_reason:
  assumes "set_core lim r" and "om_find (s_members r) path = Some m"
  shows "member_reason m = ER_MEMBER_USABLE \<or> member_reason m = ER_MEMBER_PENDING_REVALIDATION \<longleftrightarrow> m_usable m"
  using member_reason_usable [of m] set_coreD(2) [OF assms(1)] assms(2)
  by (auto simp: member_inputs_usable_def m_usable_def evidence_ok_def member_evidence_def)

lemma pending_reason:
  "member_reason m = ER_MEMBER_PENDING_REVALIDATION \<Longrightarrow> 0 < m_pending m"
  "member_reason m = ER_MEMBER_USABLE \<Longrightarrow> \<not> 0 < m_pending m"
  unfolding member_reason_def by (simp_all split: if_splits member_currentness.splits)

section \<open>What a diff does not see\<close>

text \<open>A member with another lineage, another watermark and another provenance.\<close>

definition relabelled ::
  "member_id option \<Rightarrow> member_id option \<Rightarrow> watermark \<Rightarrow> membership_provenance \<Rightarrow> member_snapshot \<Rightarrow> member_snapshot" where
  "relabelled predecessor successor mark provenance m =
     m\<lparr>ms_predecessor := predecessor, ms_successor := successor, ms_watermark := mark, ms_provenance := provenance\<rparr>"

lemma relabelled_by_path:
  "members_by_path (s\<lparr>ss_members := map (relabelled p q w v) (ss_members s)\<rparr>) = om_map (\<lambda>_. relabelled p q w v) (members_by_path s)"
proof -
  have each: "fold (\<lambda>m. om_put (ms_path_id m) m) (map (relabelled p q w v) ms) (om_map (\<lambda>_. relabelled p q w v) t) =
    om_map (\<lambda>_. relabelled p q w v) (fold (\<lambda>m. om_put (ms_path_id m) m) ms t)" for ms t
  proof (induction ms arbitrary: t)
    case (Cons m ms)
    have "om_put (ms_path_id m) (relabelled p q w v m) (om_map (\<lambda>_. relabelled p q w v) t) =
        om_map (\<lambda>_. relabelled p q w v) (om_put (ms_path_id m) m t)"
      by (rule omap_eqI) simp
    moreover have "ms_path_id (relabelled p q w v m) = ms_path_id m" by (simp add: relabelled_def)
    ultimately show ?case using Cons.IH by simp
  qed simp
  have empty: "om_map (\<lambda>_. relabelled p q w v) om_empty = om_empty" by (rule omap_eqI) simp
  show ?thesis
    using each [of "ss_members s" om_empty] unfolding empty by (simp only: members_by_path_def) simp
qed

lemma relabelled_unseen:
  "diff_snapshots before (after\<lparr>ss_members := map (relabelled p q w v) (ss_members after)\<rparr>) = diff_snapshots before after"
proof -
  let ?after = "after\<lparr>ss_members := map (relabelled p q w v) (ss_members after)\<rparr>"
  have changes: "member_changes path m (relabelled p q w v n) = member_changes path m n" for path m n
    by (simp add: member_changes_def relabelled_def)
  have id: "ms_id (relabelled p q w v n) = ms_id n" for n by (simp add: relabelled_def)
  have "path_entries b (om_map (\<lambda>_. relabelled p q w v) a) = path_entries b a" for b a
    by (rule ext) (simp add: path_entries_def changes id split: option.split)
  moreover have "all_paths b (om_map (\<lambda>_. relabelled p q w v) a) = all_paths b a" for b a
    by (simp add: all_paths_def om_keys_map)
  moreover have "set_entries before ?after = set_entries before after" by (simp add: set_entries_def)
  ultimately have "diff_entries before ?after = diff_entries before after"
    by (simp add: diff_entries_def relabelled_by_path)
  then show ?thesis by (simp add: diff_snapshots_def)
qed

end
