(* ===== verification/Operation_Facts.thy ===== *)
theory Operation_Facts
  imports Query_Facts Bytes
begin

text \<open>
  Facts about single operations that the properties of the root theory rest on: creation draws a fresh
  identity, pruning keeps the live members, a revalidation ticket completes only while nothing was
  invalidated, and a registration displaces only what its session held.
\<close>

section \<open>Creation\<close>

lemma create_set_created:
  assumes ok: "engine_ok e" and room: "counter_room 1 e" and out: "o_code (fst (create_set ctx key options e)) = OC_CREATED"
  obtains sid r where "o_set_id (fst (create_set ctx key options e)) = Some sid"
    "om_find (e_sets e) sid = None" "find_set_by_key key e = None"
    "e_sets (snd (create_set ctx key options e)) = om_put sid r (e_sets e)"
    "find_set_by_key key (snd (create_set ctx key options e)) = Some sid"
    "s_id r = sid" "s_key r = key" "s_lifecycle r = SL_DECLARED" "s_members r = om_empty" "s_generation r = gen_first"
proof -
  have code: "o_code (authority_check ctx k s e) \<noteq> OC_CREATED" for k s
    by (auto simp: authority_check_def Let_def split: if_splits option.splits)
  have replay: "attempt_check ctx operation flds e = Some o1 \<Longrightarrow> o_code o1 \<noteq> OC_CREATED" for operation flds o1
    by (auto simp: attempt_check_def split: if_splits option.splits)
  obtain sid ids where n: "next_set_id (e_ids e) = (sid, ids)" by fastforce
  have factory: "factory_ok (e_ids e)" "ids_below (e_ids e) ''set'' (dom (om_find (e_sets e)))"
    using engine_okD(7) [OF ok] by (simp_all add: ids_ok_def)
  have "f_counter (e_ids e) \<noteq> u64_max" using counter_room_1 [OF room] .
  from ids_below_fresh [OF factory(2) this] have fresh: "om_find (e_sets e) sid = None"
    using n next_set_id_eq [OF factory(1)] by auto
  have none: "om_find (e_key_index e) key = None" and s: "succeeded (authority_check ctx (Some key) None e)"
    and v: "key_valid key"
    using out code replay by (auto simp: create_set_def Let_def malformed_def split: if_splits option.splits)
  define r where "r = append_history (e_limits e) (e_epoch e) SE_DECLARE CA_DECLARED (Some ctx) None None
      (msg (''declared set '' @ key_render key @ '' minimum='' @ nat_string (so_minimum options)))
      ((new_set_record sid key options e)\<lparr>s_provenance := make_provenance ctx CA_DECLARED (new_set_record sid key options e)\<rparr>)"
  have "create_set ctx key options e =
    (let o1 = finalize_outcome r (make_outcome OC_CREATED (msg (''created set '' @ key_render key)))
     in (o1, record_attempt ctx ''create_set'' [''create_set'', key_render key, nat_string (so_minimum options),
           bool_field (so_admin_enabled options), bool_field (so_conditional options)] o1
         (capture_snapshot r (put_set r (e\<lparr>e_ids := ids, e_key_index := om_put key sid (e_key_index e)\<rparr>)))))"
    using out code replay by (auto simp: create_set_def Let_def malformed_def n r_def split: if_splits option.splits)
  moreover have "s_id r = sid" "s_key r = key" "s_lifecycle r = SL_DECLARED" "s_members r = om_empty" "s_generation r = gen_first"
    by (simp_all add: r_def new_set_record_def)
  ultimately show thesis
    using that [of sid r] fresh none by (simp add: find_set_by_key_def put_set_def Let_def)
qed

section \<open>Pruning keeps the live members\<close>

lemma prune_archive_live_count:
  "live_member_count (fst (prune_archive r e)) = live_member_count r"
proof -
  obtain r' e' where pr: "prune_archive r e = (r', e')" by fastforce
  have "(\<exists>m'. om_find (s_members r') p = Some m' \<and> \<not> member_is_terminal m') \<longleftrightarrow>
        (\<exists>m. om_find (s_members r) p = Some m \<and> \<not> member_is_terminal m)" for p
  proof
    assume "\<exists>m'. om_find (s_members r') p = Some m' \<and> \<not> member_is_terminal m'"
    then obtain m' where m': "om_find (s_members r') p = Some m'" "\<not> member_is_terminal m'" by blast
    then obtain m where m: "om_find (s_members r) p = Some m"
      using prune_archive_find(3) [OF pr, of p] by (cases "om_find (s_members r) p") auto
    have v: "p \<notin> set (take (length (archived_paths r) - max_archived_members_per_set (e_limits e)) (archived_paths r))"
      using prune_archive_find(1) [OF pr, of p] m'(1) by auto
    show "\<exists>m. om_find (s_members r) p = Some m \<and> \<not> member_is_terminal m"
      using prune_archive_find(2) [OF pr v m] m m' same_member_fields(9) by auto
  next
    assume "\<exists>m. om_find (s_members r) p = Some m \<and> \<not> member_is_terminal m"
    then show "\<exists>m'. om_find (s_members r') p = Some m' \<and> \<not> member_is_terminal m'"
      using prune_archive_live [OF pr] same_member_fields(9) by blast
  qed
  then show ?thesis by (simp add: pr live_member_count_def om_count_card)
qed

section \<open>Committed members\<close>

lemma committed_live:
  "committed_from lim r r' \<Longrightarrow> om_find (s_members r) p = Some m \<Longrightarrow> \<not> member_is_terminal m \<Longrightarrow>
   \<exists>m'. om_find (s_members r') p = Some m' \<and> same_member m m'"
  unfolding committed_from_def by blast

section \<open>Revalidation tickets\<close>

lemma begin_issues:
  assumes ok: "engine_ok e" and start: "begin_member_revalidation ctx sid mid attempt e = (b, e1)"
    and ticket: "rb_ticket b = Some tk"
  obtains r where "om_find (e_sets e1) sid = Some r" "tk_set_id tk = sid" "tk_member_id tk = mid"
    "tk_set_watermark tk = s_watermark r" "tk_epoch tk = e_epoch e1"
proof -
  obtain r0 where r0: "om_find (e_sets e) sid = Some r0"
    using start ticket by (auto simp: begin_member_revalidation_def begin_rejected_def Let_def require_set_def
        split: if_splits option.splits)
  then obtain path m m1 where e1: "e1 = put_set (r0\<lparr>s_members := om_put path m1 (s_members r0)\<rparr>) e"
    and tk: "tk = issue_ticket sid (r0\<lparr>s_members := om_put path m1 (s_members r0)\<rparr>) m1 mid attempt e"
    using start ticket by (auto simp: begin_member_revalidation_def begin_rejected_def Let_def require_set_def
        split: if_splits option.splits)
  have "s_id r0 = sid"
    using stored_set(1) [OF ok r0] .
  then show thesis
    using that [of "r0\<lparr>s_members := om_put path m1 (s_members r0)\<rparr>"]
    by (simp add: e1 tk put_set_def issue_ticket_def Let_def)
qed

lemma complete_accepted:
  assumes "succeeded (fst (complete_member_revalidation ctx tk view e))"
  obtains r path m where "om_find (e_sets e) (tk_set_id tk) = Some r" "member_at r (tk_member_id tk) = Some (path, m)"
    "m_pending m \<noteq> 0" "s_watermark r = tk_set_watermark tk" "m_watermark m = tk_member_watermark tk"
    "tk_epoch tk = e_epoch e" "\<not> member_is_terminal m"
  using assms
  by (auto simp: complete_member_revalidation_def Let_def require_set_def no_revalidation_pending_def outcome_is_success_def
      split: if_splits option.splits)

section \<open>Registrations\<close>

lemma register_request_rejects: "register_request_check publisher boot scope session e = Some o1 \<Longrightarrow> \<not> succeeded o1"
  by (auto simp: register_request_check_def outcome_is_success_def split: if_splits)

lemma fenced_cannot_register:
  assumes "om_find (e_fences e) (publisher, boot) \<noteq> None"
  shows "\<not> succeeded (fst (register_publisher publisher boot scope session e))"
  using assms register_request_rejects [of publisher boot scope session e]
  by (auto simp: register_publisher_def outcome_is_success_def split: option.split)

section \<open>Epochs and fences\<close>

lemma terminal_lifecycle_record: "s_terminal r \<longleftrightarrow> terminal_lifecycle (s_lifecycle r)"
  by (auto simp: s_terminal_def terminal_lifecycle_def)

lemma epoch_advanced_effects:
  assumes ok: "engine_ok e" and out: "advance_epoch publisher boot session expected attempt e = (o1, e')"
    and code: "o_code o1 = OC_EPOCH_ADVANCED"
  shows "gen_next (e_epoch e) = Some (e_epoch e') \<and> e_registrations e' = om_empty \<and>
    (\<forall>k. om_has (e_registrations e) k \<longrightarrow> om_has (e_fences e') k) \<and>
    (\<forall>sid r. om_find (e_sets e) sid = Some r \<longrightarrow> (\<exists>r'. om_find (e_sets e') sid = Some r' \<and>
       s_lifecycle r' = s_lifecycle r \<and> s_currentness r' = SC_REVALIDATION_REQUIRED \<and>
       s_governing_epoch r' = e_epoch e' \<and> \<not> set_is_consumable r'))"
proof -
  obtain n g where n: "gen_next (e_epoch e) = Some n" and g: "gen_next (e_authority_generation e) = Some g"
    and e': "e' = enter_epoch n g e"
    by (rule advance_epoch_success [of publisher boot session expected attempt e]) (use out code in simp_all)
  have "\<exists>r'. om_find (e_sets e') sid = Some r' \<and> s_lifecycle r' = s_lifecycle r \<and>
      s_currentness r' = SC_REVALIDATION_REQUIRED \<and> s_governing_epoch r' = n \<and> \<not> set_is_consumable r'"
    if "om_find (e_sets e) sid = Some r" for sid r
    using enter_epoch_find [OF ok gen_next_valid [OF n] gen_next_valid [OF g], of sid] that e' epoch_not_consumable
    by auto
  then show ?thesis
    using n by (auto simp: e' enter_epoch_frame fence_registrations_find om_has_def)
qed

lemma fence_effects:
  assumes ok: "engine_ok e" and out: "fence_worker publisher boot cause e = (o1, e')"
    and code: "o_code o1 = OC_WORKER_FENCED"
  shows "om_has (e_fences e') (publisher, boot) \<and> \<not> om_has (e_registrations e') (publisher, boot) \<and>
    (\<forall>sid r. om_find (e_sets e) sid = Some r \<longrightarrow> (\<exists>r'. om_find (e_sets e') sid = Some r' \<and>
       (if pv_publisher (s_provenance r) = publisher
        then s_currentness r' = SC_REVALIDATION_REQUIRED \<and> s_lifecycle r' = s_lifecycle r \<and> s_generation r' = s_generation r
        else r' = r)))"
proof -
  have c: "o_code (fst (fence_worker publisher boot cause e)) = OC_WORKER_FENCED" and e': "e' = snd (fence_worker publisher boot cause e)"
    using out code by simp_all
  have f: "e_fences (snd (fold (fence_set publisher) sids acc)) = e_fences (snd acc)"
    "e_registrations (snd (fold (fence_set publisher) sids acc)) = e_registrations (snd acc)" for sids acc
    using without_sets_fields [OF fold_fence_frame [of publisher sids acc]] by simp_all
  have "om_has (e_fences e') (publisher, boot)" "\<not> om_has (e_registrations e') (publisher, boot)"
    by (rule fence_worker_success [OF c], simp add: e' f om_has_def)+
  then show ?thesis using fence_find [OF ok c] e' by blast
qed

section \<open>Consumable sets\<close>

lemma consumable_iff:
  assumes ok: "engine_ok e" and find: "om_find (e_sets e) sid = Some r"
  shows "set_is_consumable r \<longleftrightarrow> derived_lifecycle (s_lifecycle r) \<and> s_lifecycle r \<noteq> SL_ADMIN_DISABLED \<and>
    s_admin_enabled r \<and> s_currentness r = SC_CURRENT \<and>
    (s_minimum r \<le> recompute_usable_members r \<or> 1 \<le> recompute_usable_members r)"
proof -
  have d: "s_usable r = recompute_usable_members r" and l: "lifecycle_ok r"
    using set_coreD(3) [OF stored_set(3) [OF ok find]] by (simp_all add: derived_ok_def)
  show ?thesis
    using d l by (auto simp: set_is_consumable_def s_published_def derived_lifecycle_def lifecycle_ok_def
        derive_published_lifecycle_def split: if_splits)
qed

lemma readiness_iff:
  assumes ok: "engine_ok e" and find: "om_find (e_sets e) sid = Some r"
  shows "readiness sid e \<in> {Some RR_READY, Some RR_DEGRADED_BUT_READY} \<longleftrightarrow>
    (s_lifecycle r = SL_ACTIVE \<or> s_lifecycle r = SL_DEGRADED) \<and> s_currentness r = SC_CURRENT"
  using find by (cases "s_lifecycle r") (simp_all add: readiness_def route_readiness_def)

lemma active_enabled:
  assumes "engine_ok e" and "om_find (e_sets e) sid = Some r" and "s_lifecycle r = SL_ACTIVE \<or> s_lifecycle r = SL_DEGRADED"
  shows "s_admin_enabled r"
  using set_coreD(3) [OF stored_set(3) [OF assms(1,2)]] assms(3)
  by (auto simp: derived_ok_def lifecycle_ok_def derived_lifecycle_def derive_published_lifecycle_def split: if_splits)

section \<open>Untouched sets\<close>

lemma apply_view_untouched:
  assumes ok: "engine_ok e" and r: "om_find (e_sets e) sid = Some r" and "\<not> om_has (s_members r) path"
  shows "om_find (e_sets (snd (apply_view path view ctx cause e))) sid = Some r"
proof -
  have "\<not> om_has (dependents_of path e) sid"
    using engine_okD(3) [OF ok] assms(2,3) by (auto simp: dependents_ok_def)
  from apply_view_other [OF ok this] r show ?thesis by simp
qed

section \<open>Diffs of snapshots\<close>

lemma members_by_path_mem: "om_find (members_by_path s) path = Some m \<Longrightarrow> m \<in> set (ss_members s)"
proof -
  have "om_find (fold (\<lambda>m. om_put (ms_path_id m) m) ms t) path = Some m \<Longrightarrow> m \<in> set ms \<or> om_find t path = Some m" for ms t
    by (induction ms arbitrary: t) (fastforce split: if_splits)+
  from this [of "ss_members s" om_empty]
  show "om_find (members_by_path s) path = Some m \<Longrightarrow> m \<in> set (ss_members s)" by (simp add: members_by_path_def)
qed

text \<open>What a diff compares of the sets themselves.\<close>

definition same_governance :: "set_snapshot \<Rightarrow> set_snapshot \<Rightarrow> bool" where
  "same_governance a b \<longleftrightarrow> ss_generation a = ss_generation b \<and> ss_membership_generation a = ss_membership_generation b \<and>
     ss_authority_generation a = ss_authority_generation b \<and> ss_lifecycle a = ss_lifecycle b \<and>
     ss_currentness a = ss_currentness b \<and> ss_readiness a = ss_readiness b \<and>
     ss_admin_enabled a = ss_admin_enabled b \<and> ss_minimum a = ss_minimum b \<and> ss_conditional a = ss_conditional b \<and>
     ss_governing_epoch a = ss_governing_epoch b \<and> ss_usable_count a = ss_usable_count b \<and>
     id_or_dash (ss_superseded_by a) = id_or_dash (ss_superseded_by b) \<and>
     revocation_or_dash (ss_revocation a) = revocation_or_dash (ss_revocation b) \<and>
     ss_withdrawal_reason a = ss_withdrawal_reason b"

lemma set_entries_Nil: "set_entries a b = [] \<longleftrightarrow> same_governance a b"
  by (simp add: set_entries_def same_governance_def set_lifecycle_text_inject set_currentness_text_inject
      route_readiness_value_text_inject nat_string_inject)

lemma diff_key_inject: "diff_key a = diff_key b \<longleftrightarrow> a = b"
proof -
  have "diff_kind_raw k = diff_kind_raw k' \<Longrightarrow> k = k'" for k k' by (cases k; cases k'; simp)
  then show ?thesis by (cases a; cases b) (auto simp: diff_key_def)
qed

text \<open>A ticket that outlived an invalidation is refused.\<close>

lemma stale_ticket_refused:
  assumes ok: "engine_ok e" and start: "begin_member_revalidation ctx sid mid attempt e = (b, e1)"
    and ticket: "rb_ticket b = Some tk" and run1: "fabric.run e1 evs em" and run2: "fabric.run em evs' e2"
    and moved: "e_epoch em \<noteq> e_epoch e1 \<or>
      (\<exists>r r'. om_find (e_sets e1) sid = Some r \<and> om_find (e_sets em) sid = Some r' \<and> s_watermark r' \<noteq> s_watermark r)"
  shows "\<not> succeeded (fst (complete_member_revalidation ctx' tk view e2))"
proof
  assume "succeeded (fst (complete_member_revalidation ctx' tk view e2))"
  then obtain r2 where r2: "om_find (e_sets e2) (tk_set_id tk) = Some r2" "s_watermark r2 = tk_set_watermark tk"
    "tk_epoch tk = e_epoch e2" by (rule complete_accepted)
  obtain r1 where r1: "om_find (e_sets e1) sid = Some r1" "tk_set_id tk = sid" "tk_set_watermark tk = s_watermark r1"
    "tk_epoch tk = e_epoch e1" by (rule begin_issues [OF ok start ticket])
  have ok1: "engine_ok e1" using begin_member_revalidation_ok [OF ok, of ctx sid mid attempt] start by simp
  have okm: "engine_ok em" by (rule fabric.run_inv [OF run1 ok1])
  note f1 = fabric.run_leq [OF run1 ok1] and f2 = fabric.run_leq [OF run2 okm]
  obtain rm where rm: "om_find (e_sets em) sid = Some rm" "record_forward r1 rm"
    using f1 r1(1) unfolding engine_forward_def sets_forward_def by blast
  have "record_forward rm r2"
    using f2 rm(1) r2(1) r1(2) unfolding engine_forward_def sets_forward_def by force
  then have "s_watermark rm = s_watermark r1"
    using rm(2) r1(3) r2(2) by (simp add: record_forward_def clocks_frame_def order_antisym_conv)
  moreover have "e_epoch em = e_epoch e1"
    using f1 f2 r1(4) r2(3) by (simp add: engine_forward_def order_antisym_conv)
  ultimately show False using moved r1(1) rm(1) by auto
qed

lemma diff_entry_less_key: "diff_entry_less a b \<longleftrightarrow> diff_key a < diff_key b"
proof -
  have "diff_kind_raw k = diff_kind_raw k' \<longleftrightarrow> k = k'" for k k' by (cases k; cases k'; simp)
  from this [of "de_kind a" "de_kind b"] show ?thesis
    by (cases "de_kind a = de_kind b"; cases "de_subject a = de_subject b"; cases "de_before a = de_before b")
      (simp_all add: diff_entry_less_def diff_key_def less_prod_simp order_le_less, blast+)
qed

section \<open>Limits\<close>

lemma reach_limits:
  assumes "fabric.reach config e"
  shows "e_limits e = fc_limits config"
proof -
  obtain e0 evs where e0: "fabric_start config e0" and run: "fabric.run e0 evs e"
    using assms unfolding fabric.reach_def by blast
  have "engine_forward e0 e" using fabric.reach_run_leq [OF fabric.reach_start [OF e0] run] .
  moreover have "e_limits e0 = fc_limits config" using e0 by (auto simp: fabric_start_def engine_init_def)
  ultimately show ?thesis by (simp add: engine_forward_def)
qed

lemma snapshots_of_bound: "engine_ok e \<Longrightarrow> length (snapshots_of sid e) \<le> max_snapshot_history (e_limits e)"
  using engine_okD(6) by (auto simp: snapshots_ok_def snapshots_of_def split: option.split)

lemma make_snapshot_fields:
  "ss_set_id (make_snapshot r) = s_id r" "ss_lifecycle (make_snapshot r) = s_lifecycle r"
  "ss_generation (make_snapshot r) = s_generation r"
  "ss_readiness (make_snapshot r) = route_readiness (s_lifecycle r) (s_currentness r)"
  "ss_usable_count (make_snapshot r) = s_usable r" "ss_member_count (make_snapshot r) = om_size (s_members r)"
  by (simp_all add: make_snapshot_def)

section \<open>A written string\<close>

lemma written_string:
  assumes "bw_ok (bw_string bound s (new_writer limit))" and "length s < 2 ^ 32"
  shows "\<exists>r. rd_string bound (new_reader (bw_buffer (bw_string bound s (new_writer limit)))) = (Some s, r) \<and> rd_at_end r \<and>
    length (bw_buffer (bw_string bound s (new_writer limit))) \<le> limit"
proof -
  have bound: "length s \<le> bound" using assms(1) by (auto simp: bw_string_def split: if_splits)
  have buffer: "bw_buffer (bw_string bound s (new_writer limit)) = string_field s"
    using appends_string [OF assms(2), of bound] assms(1) by (auto simp: appends_def new_writer_def)
  have "length (bw_buffer (bw_string bound s (new_writer limit))) \<le> bw_limit (bw_string bound s (new_writer limit))"
    by (auto simp: bw_string_def bw_u32_def new_writer_def intro!: bw_raw_bound split: option.split)
  moreover have "bw_limit (bw_string bound s (new_writer limit)) = limit"
    using appends_string [OF assms(2), of bound] by (simp add: appends_def new_writer_def)
  moreover obtain r where "rd_string bound (new_reader (string_field s)) = (Some s, r)" "reads r []"
    using rd_string_field [OF bound assms(2), of "new_reader (string_field s)" "[]"] reads_new by auto
  ultimately show ?thesis using buffer reads_end by auto
qed

end
