(* ===== verification/Event_Callers.thy ===== *)
theory Event_Callers
  imports Operation_Facts
begin

text \<open>
  Which caller an event names and what the engine asks of it. An operation with a mutation context checks
  the caller in the context, \<open>advance_epoch\<close> checks the caller in its arguments, which must own the
  registration. The other operations name no caller: \<open>register_publisher\<close>, \<open>unregister_publisher\<close> and
  \<open>fence_worker\<close> name the worker they are about, \<open>abandon_member_revalidation\<close> a ticket,
  \<open>bind_path_authority\<close> and the reconciliation of a path nobody at all.
\<close>

section \<open>Callers\<close>

definition event_authorised :: "fabric_event \<Rightarrow> engine \<Rightarrow> bool" where
  "event_authorised ev e \<longleftrightarrow>
     (case ev of
        Ev_advance_epoch publisher boot session expected attempt \<Rightarrow>
          id_valid publisher \<and> id_valid boot \<and> id_valid session \<and> id_valid attempt \<and>
          expected = e_epoch e \<and> om_find (e_fences e) (publisher, boot) = None \<and>
          (\<exists>reg. om_find (e_registrations e) (publisher, boot) = Some reg \<and> pr_session reg = session)
      | _ \<Rightarrow> (case event_context ev of Some ctx \<Rightarrow> caller_authorised ctx e | None \<Rightarrow> True))"

text \<open>The operations that name no caller.\<close>

definition names_no_caller :: "fabric_event \<Rightarrow> bool" where
  "names_no_caller ev \<longleftrightarrow>
     (case ev of Ev_register _ _ _ _ \<Rightarrow> True | Ev_unregister _ _ \<Rightarrow> True | Ev_fence _ _ _ \<Rightarrow> True | Ev_abandon _ \<Rightarrow> True
      | Ev_bind _ \<Rightarrow> True | Ev_reconcile _ _ _ \<Rightarrow> True | _ \<Rightarrow> False)"

lemma names_no_caller_authorised: "names_no_caller ev \<Longrightarrow> event_authorised ev e"
  by (cases ev) (simp_all add: names_no_caller_def event_authorised_def event_context_def)

lemma path_caller_rejects: "path_caller_check ctx e = Inl g \<Longrightarrow> \<not> succeeded g"
  by (auto simp: path_caller_check_def succeeded_def outcome_is_success_def split: if_splits option.splits)

lemma respond_unauthorised:
  assumes ctx: "event_context ev = Some ctx" and no: "\<not> caller_authorised ctx e" and r: "respond ev e = Some (o1, e')"
  shows "\<not> succeeded o1"
proof -
  have f: "\<And>key sid. \<not> succeeded (authority_check ctx key sid e)"
    using authority_check_authorised no by blast
  then have a: "\<And>sid operation flds. admit ctx sid operation flds e = Inl (authority_check ctx None (Some sid) e)"
    by (simp add: admit_def Let_def)
  obtain g where p: "path_caller_check ctx e = Inl g"
    using no path_caller_authorised [of ctx e] by (cases "path_caller_check ctx e") auto
  show ?thesis
    using ctx r f path_caller_rejects [OF p]
    by (cases ev)
      (auto simp: event_context_def a p publish_set_def set_minimum_usable_members_def
        set_conditional_authority_policy_def set_admin_enabled_def withdraw_set_def complete_withdrawal_def
        revoke_set_def retire_set_def supersede_set_def create_set_def declare_path_authority_def
        add_members_locked_def remove_member_def withdraw_member_def replace_member_locked_def
        set_member_admin_enabled_locked_def revalidate_set_locked_def revalidate_member_locked_def
        begin_member_revalidation_def begin_rejected_def complete_member_revalidation_def apply_path_authority_def Let_def
        split: if_splits)
qed

lemma advance_unauthorised:
  assumes "\<not> event_authorised (Ev_advance_epoch publisher boot session expected attempt) e"
  shows "\<not> succeeded (fst (advance_epoch publisher boot session expected attempt e)) \<and>
    snd (advance_epoch publisher boot session expected attempt e) = e"
  using assms
  by (auto simp: event_authorised_def advance_epoch_def outcome_is_success_def Let_def authority_exhausted_def split: option.split)

lemma event_unauthorised:
  assumes "\<not> event_authorised ev e"
  shows "perform ev e = e \<and> (\<forall>o1 e'. respond ev e = Some (o1, e') \<longrightarrow> \<not> succeeded o1)"
proof (cases "event_context ev")
  case None
  with assms obtain p b s x a where ev: "ev = Ev_advance_epoch p b s x a"
    by (cases ev) (auto simp: event_authorised_def event_context_def)
  with assms advance_unauthorised [of p b s x a e] show ?thesis by auto
next
  case (Some ctx)
  then have "\<not> caller_authorised ctx e"
    using assms by (cases ev) (simp_all add: event_authorised_def event_context_def)
  with Some show ?thesis using perform_unauthorised respond_unauthorised by blast
qed

section \<open>Workers\<close>

text \<open>The worker boot an event names: its caller, or the worker it registers, unregisters or fences.\<close>

definition event_worker :: "fabric_event \<Rightarrow> worker_key option" where
  "event_worker ev =
     (case ev of
        Ev_register publisher boot _ _ \<Rightarrow> Some (publisher, boot)
      | Ev_unregister publisher boot \<Rightarrow> Some (publisher, boot)
      | Ev_fence publisher boot _ \<Rightarrow> Some (publisher, boot)
      | Ev_advance_epoch publisher boot _ _ _ \<Rightarrow> Some (publisher, boot)
      | _ \<Rightarrow> map_option worker_of (event_context ev))"

lemma fenced_subject:
  assumes "engine_ok e" and "om_has (e_fences e) (publisher, boot)"
  shows "snd (register_publisher publisher boot scope session e) = e"
    "snd (unregister_publisher publisher boot e) = e"
    "snd (fence_worker publisher boot cause e) = e"
    "snd (advance_epoch publisher boot session expected attempt e) = e"
proof -
  obtain f where f: "om_find (e_fences e) (publisher, boot) = Some f" using assms(2) by (auto simp: om_has_def)
  have r: "om_find (e_registrations e) (publisher, boot) = None"
    using authority_okD(3) [OF engine_okD(4) [OF assms(1)], of "(publisher, boot)"] f
    by (cases "om_find (e_registrations e) (publisher, boot)") auto
  show "snd (register_publisher publisher boot scope session e) = e"
    "snd (unregister_publisher publisher boot e) = e"
    "snd (fence_worker publisher boot cause e) = e"
    "snd (advance_epoch publisher boot session expected attempt e) = e"
    by (simp_all add: f r register_publisher_def unregister_publisher_def fence_worker_def advance_epoch_def
        split: option.split)
qed

lemma fenced_worker_event:
  assumes "engine_ok e" and "om_has (e_fences e) k" and "event_worker ev = Some k"
  shows "perform ev e = e"
proof (cases "event_context ev")
  case None
  with assms show ?thesis
    using fenced_subject [OF assms(1)] by (cases ev) (auto simp: event_worker_def event_context_def)
next
  case (Some ctx)
  then have "worker_of ctx = k" using assms(3) by (cases ev) (auto simp: event_worker_def event_context_def)
  then have "\<not> caller_authorised ctx e" using assms(2) by (auto simp: caller_authorised_def om_has_def)
  with Some show ?thesis by (rule perform_unauthorised)
qed

end
