(* ===== verification/Request_Replay.thy ===== *)
theory Request_Replay
  imports Attempt_Replay
begin

text \<open>
  Every operation that consults the attempt log: the mutations of a set of \<open>Attempt_Replay\<close>, the creation
  and the supersession of sets and the two operations on a path. The two halves of a two-phase
  revalidation are not among them: beginning one records nothing, and \<open>complete_member_revalidation\<close>
  records its attempt without looking it up first.
\<close>

section \<open>Logged requests\<close>

text \<open>The context, the operation and the fields under which a request is logged.\<close>

definition logged_request :: "fabric_event \<Rightarrow> (mutation_context \<times> string \<times> string list) option" where
  "logged_request ev =
     (case ev of
        Ev_create ctx key options \<Rightarrow>
          Some (ctx, ''create_set'', [''create_set'', key_render key, nat_string (so_minimum options),
            bool_field (so_admin_enabled options), bool_field (so_conditional options)])
      | Ev_supersede ctx predecessor successor \<Rightarrow>
          Some (ctx, ''supersede_set'', [''supersede_set'', id_text predecessor, id_text successor])
      | Ev_declare_path ctx view \<Rightarrow>
          Some (ctx, ''declare_path_authority'', view_fields ''declare_path_authority'' view)
      | Ev_apply_path ctx view \<Rightarrow>
          Some (ctx, ''apply_path_authority'', view_fields ''apply_path_authority'' view)
      | _ \<Rightarrow> map_option (\<lambda>(ctx, sid, operation, flds). (ctx, operation, flds)) (set_request ev))"

text \<open>What a request asks of its caller before the log is consulted.\<close>

definition request_allowed :: "fabric_event \<Rightarrow> engine \<Rightarrow> bool" where
  "request_allowed ev e \<longleftrightarrow>
     (case ev of
        Ev_create ctx key options \<Rightarrow> succeeded (authority_check ctx (Some key) None e)
      | Ev_supersede ctx predecessor successor \<Rightarrow>
          succeeded (authority_check ctx None (Some predecessor) e) \<and>
          succeeded (authority_check ctx None (Some successor) e)
      | Ev_declare_path ctx view \<Rightarrow> \<not> isl (path_caller_check ctx e)
      | Ev_apply_path ctx view \<Rightarrow> \<not> isl (path_caller_check ctx e)
      | _ \<Rightarrow> (case set_request ev of
               Some (ctx, sid, operation, flds) \<Rightarrow> succeeded (authority_check ctx None (Some sid) e)
             | None \<Rightarrow> False))"

lemma logged_request_cases:
  assumes "logged_request ev = Some (ctx, operation, flds)"
  obtains (create) key options where "ev = Ev_create ctx key options"
    | (supersede) p q where "ev = Ev_supersede ctx p q"
    | (declare_path) view where "ev = Ev_declare_path ctx view"
    | (apply_path) view where "ev = Ev_apply_path ctx view"
    | (on_set) sid where "set_request ev = Some (ctx, sid, operation, flds)"
        "\<And>e. request_allowed ev e \<longleftrightarrow> succeeded (authority_check ctx None (Some sid) e)"
  using assms by (cases ev) (auto simp: logged_request_def request_allowed_def set_request_def)

lemma set_requests_are_logged:
  "set_request ev = Some (ctx, sid, operation, flds) \<Longrightarrow> logged_request ev = Some (ctx, operation, flds)"
  by (cases ev) (auto simp: logged_request_def set_request_def)

lemma path_caller_Inl: "path_caller_check ctx e = Inl g \<Longrightarrow> \<not> succeeded g"
  by (auto simp: path_caller_check_def outcome_is_success_def split: if_splits option.splits)

section \<open>Answers\<close>

lemma success_allowed:
  assumes "logged_request ev = Some (ctx, operation, flds)" and "respond ev e = Some (o1, e')" and "succeeded o1"
  shows "request_allowed ev e"
  using assms(1)
proof (cases rule: logged_request_cases)
  case (on_set sid)
  show ?thesis
  proof (rule ccontr)
    assume "\<not> request_allowed ev e"
    then have "admit ctx sid operation flds e = Inl (authority_check ctx None (Some sid) e)" "\<not> succeeded (authority_check ctx None (Some sid) e)"
      using on_set(2) by (simp_all add: admit_def Let_def)
    then have "respond ev e = Some (authority_check ctx None (Some sid) e, e)"
      using replay_event [OF on_set(1) assms(2)] assms(3) by simp
    with assms(2,3) \<open>\<not> succeeded (authority_check ctx None (Some sid) e)\<close> show False by auto
  qed
qed (use assms(2,3) path_caller_Inl in \<open>auto simp: request_allowed_def create_set_def supersede_set_def
      declare_path_authority_def apply_path_authority_def Let_def isl_def split: if_splits\<close>)

lemma answer_from_log:
  assumes "logged_request ev = Some (ctx, operation, flds)" and r: "respond ev e = Some (o1, e1)" "succeeded o1"
    and "request_allowed ev e'" and "attempt_check ctx operation flds e' = Some a"
  shows "respond ev e' = Some (a, e')"
  using assms(1)
proof (cases rule: logged_request_cases)
  case (on_set sid)
  have "admit ctx sid operation flds e' = Inl a" using on_set(2) assms(4,5) by (simp add: admit_def Let_def)
  then show ?thesis using replay_event [OF on_set(1) r(1)] r(2) by simp
qed (use assms in \<open>auto simp: logged_request_def request_allowed_def create_set_def supersede_set_def
      declare_path_authority_def apply_path_authority_def Let_def isl_def split: if_splits sum.splits\<close>)

lemma refused_from_log:
  assumes "logged_request ev = Some (ctx, operation, flds)" and r: "respond ev e = Some (o1, e1)"
    and "attempt_check ctx operation flds e = Some a" and "\<not> succeeded a"
  shows "\<not> succeeded o1 \<and> e1 = e"
  using assms(1)
proof (cases rule: logged_request_cases)
  case (on_set sid)
  obtain b where b: "admit ctx sid operation flds e = Inl b" "\<not> succeeded b"
    using assms(3,4) by (cases "succeeded (authority_check ctx None (Some sid) e)") (simp_all add: admit_def Let_def)
  have "\<not> succeeded o1" using replay_event [OF on_set(1) r _ b(1)] b(2) r by auto
  then show ?thesis using refused_event [OF on_set(1) r b(1)] by simp
qed (use assms path_caller_Inl in \<open>auto simp: logged_request_def create_set_def supersede_set_def
      declare_path_authority_def apply_path_authority_def Let_def malformed_def succeeded_def outcome_is_success_def
      split: if_splits sum.splits\<close>)

section \<open>Every logged request leaves its entry\<close>

lemma record_attempt_put_set: "put_set r (record_attempt ctx operation flds o1 e) = record_attempt ctx operation flds o1 (put_set r e)"
  by (simp add: put_set_def record_attempt_def Let_def)

lemma record_attempt_capture:
  "capture_snapshot r (record_attempt ctx operation flds o1 e) = record_attempt ctx operation flds o1 (capture_snapshot r e)"
  by (simp add: capture_snapshot_def record_attempt_def Let_def snapshots_of_def)

lemma recorded_record:
  "e_attempts e0 = e_attempts e \<Longrightarrow> e_limits e0 = e_limits e \<Longrightarrow>
   recorded ctx operation flds e (o1, record_attempt ctx operation flds o1 e0)"
  unfolding recorded_def by auto

lemma recorded_after:
  assumes "recorded ctx operation flds e (o1, e1)" and "succeeded o1"
  shows "recorded ctx operation flds e (o1, capture_snapshot r (put_set r e1))"
proof -
  obtain e0 where e0: "e1 = record_attempt ctx operation flds o1 e0" "e_attempts e0 = e_attempts e" "e_limits e0 = e_limits e"
    using assms by (auto simp: recorded_def)
  then show ?thesis
    unfolding e0(1) record_attempt_put_set record_attempt_capture by (intro recorded_record) simp_all
qed

lemma supersede_records_recorded:
  "recorded ctx ''supersede_set'' flds e (supersede_records ctx flds old new e)"
proof (cases "apply_transition old SE_SUPERSEDE")
  case (Inl c)
  then show ?thesis by (simp add: supersede_records_def recorded_rejected)
next
  case (Inr old1)
  let ?c = "commit (apply_member_consequences (e_limits e) (e_epoch e) (s_lifecycle old) (s_lifecycle (old1\<lparr>s_superseded_by := Some (s_id new)\<rparr>))
      (Some ctx) (old1\<lparr>s_superseded_by := Some (s_id new)\<rparr>)) ctx ''supersede_set'' flds
      (commit_spec_for SE_SUPERSEDE CA_SET_SUPERSEDED (msg (''superseded by '' @ id_text (s_id new))))
      (make_outcome OC_SET_SUPERSEDED (msg (''superseded by '' @ id_text (s_id new))))
      (put_set (new\<lparr>s_supersedes := Some (s_id old)\<rparr>) e)"
  have "recorded ctx ''supersede_set'' flds e ?c" by (rule recorded_commit) simp_all
  then have c: "recorded ctx ''supersede_set'' flds e (fst ?c, snd ?c)" by simp
  show ?thesis
    using c recorded_after [OF c] by (simp add: supersede_records_def Inr Let_def case_prod_unfold)
qed

lemma supersede_set_recorded:
  assumes "attempt_check ctx ''supersede_set'' [''supersede_set'', id_text p, id_text q] e = None"
  shows "recorded ctx ''supersede_set'' [''supersede_set'', id_text p, id_text q] e (supersede_set ctx p q e)"
  unfolding supersede_set_def Let_def
  by (intro recorded_intros supersede_records_recorded) (use assms in \<open>auto simp: require_set_def outcome_is_success_def split: option.splits\<close>)

lemma create_set_recorded:
  assumes "attempt_check ctx ''create_set'' flds e = None"
    and "flds = [''create_set'', key_render key, nat_string (so_minimum options), bool_field (so_admin_enabled options),
      bool_field (so_conditional options)]"
  shows "recorded ctx ''create_set'' flds e (create_set ctx key options e)"
  unfolding create_set_def Let_def assms(2) [symmetric]
  by (intro recorded_intros recorded_record) (use assms in \<open>auto simp: outcome_is_success_def\<close>)

lemma declare_path_recorded:
  assumes "attempt_check ctx ''declare_path_authority'' (view_fields ''declare_path_authority'' view) e = None"
  shows "recorded ctx ''declare_path_authority'' (view_fields ''declare_path_authority'' view) e (declare_path_authority ctx view e)"
  unfolding declare_path_authority_def Let_def case_prod_unfold
  by (intro recorded_if recorded_sum recorded_option recorded_record recorded_rejected)
    (use assms path_caller_Inl in \<open>auto simp: scope_not_covering_def outcome_is_success_def\<close>)

lemma apply_path_recorded:
  assumes "attempt_check ctx ''apply_path_authority'' (view_fields ''apply_path_authority'' view) e = None"
  shows "recorded ctx ''apply_path_authority'' (view_fields ''apply_path_authority'' view) e (apply_path_authority ctx view e)"
  unfolding apply_path_authority_def Let_def case_prod_unfold
  by (intro recorded_if recorded_sum recorded_option recorded_record recorded_rejected)
    (use assms path_caller_Inl in \<open>auto simp: scope_not_covering_def outcome_is_success_def\<close>)

lemma fresh_unchecked:
  assumes "engine_ok e" and "fresh_attempt ctx e"
  shows "attempt_check ctx operation flds e = None"
  using engine_okD(5) [OF assms(1)] assms(2)
  by (cases "om_find (e_attempt_index e) (cx_attempt ctx)")
    (auto simp: attempt_check_def attempts_ok_def log_covers_def fresh_attempt_def)

lemma request_recorded:
  assumes ok: "engine_ok e" and "logged_request ev = Some (ctx, operation, flds)" and r: "respond ev e = Some (o1, e')"
    and fresh: "fresh_attempt ctx e"
  shows "recorded ctx operation flds e (o1, e')"
  using assms(2)
proof (cases rule: logged_request_cases)
  case (on_set sid)
  show ?thesis by (rule event_recorded [OF on_set(1) r]) (rule admit_fresh [OF ok fresh])
next
  case (create key options)
  then show ?thesis
    using assms(2) r create_set_recorded [OF fresh_unchecked [OF ok fresh] refl, of key options] by (auto simp: logged_request_def)
next
  case (supersede p q)
  then show ?thesis
    using assms(2) r supersede_set_recorded [OF fresh_unchecked [OF ok fresh], of p q] by (auto simp: logged_request_def)
next
  case (declare_path view)
  then show ?thesis
    using assms(2) r declare_path_recorded [OF fresh_unchecked [OF ok fresh], of view] by (auto simp: logged_request_def)
next
  case (apply_path view)
  then show ?thesis
    using assms(2) r apply_path_recorded [OF fresh_unchecked [OF ok fresh], of view] by (auto simp: logged_request_def)
qed

section \<open>Authority after the request\<close>

lemma logged_not_authority: "logged_request ev = Some q \<Longrightarrow> \<not> authority_event ev"
  by (cases ev) (auto simp: logged_request_def set_request_def authority_event_def)

lemma path_caller_kept: "kept e' = kept e \<Longrightarrow> path_caller_check ctx e' = path_caller_check ctx e"
  by (simp only: path_caller_check_def kept_def prod.inject)

lemma key_check_kept: "kept e' = kept e \<Longrightarrow> authority_check ctx (Some key) None e' = authority_check ctx (Some key) None e"
  by (simp only: authority_check_def option.case kept_def prod.inject)

lemma still_allowed:
  assumes ok: "engine_ok e" and ev: "logged_request ev = Some (ctx, operation, flds)" and en: "event_enabled ev e"
    and r: "respond ev e = Some (o1, e')" and allowed: "request_allowed ev e"
  shows "request_allowed ev e'"
proof -
  have e': "e' = perform ev e" using respond_perform [OF r] by simp
  have kept: "kept e' = kept e" using perform_kept [OF logged_not_authority [OF ev], of e] e' by simp
  have sets: "\<exists>r'. om_find (e_sets e') sid = Some r' \<and> s_id r' = s_id r0 \<and> s_key r' = s_key r0"
    if "om_find (e_sets e) sid = Some r0" for sid r0
    using perform_forward [OF ok en] that
    by (force simp: engine_forward_def sets_forward_def e' record_forward_def clocks_frame_def)
  have known: "succeeded (authority_check ctx None (Some sid) e) \<Longrightarrow> \<exists>r0. om_find (e_sets e) sid = Some r0" for sid
    by (auto simp: authority_check_def Let_def succeeded_def outcome_is_success_def split: if_splits option.splits)
  have checked: "succeeded (authority_check ctx None (Some sid) e')" if "succeeded (authority_check ctx None (Some sid) e)" for sid
    using authority_check_kept [OF kept _ _ _ _ that] sets known [OF that] by metis
  show ?thesis
    using ev
  proof (cases rule: logged_request_cases)
    case (on_set sid)
    then show ?thesis using allowed checked by blast
  qed (use allowed checked path_caller_kept [OF kept] key_check_kept [OF kept] in \<open>auto simp: request_allowed_def\<close>)
qed

section \<open>Replays and conflicts\<close>

lemma request_replayed:
  assumes ok: "engine_ok e" and ev: "logged_request ev = Some (ctx, operation, flds)" and en: "event_enabled ev e"
    and r: "respond ev e = Some (o1, e')" "succeeded o1" and fresh: "fresh_attempt ctx e" and room: "0 < max_attempts (e_limits e)"
  shows "respond ev e' = Some (replay_of o1, e')"
proof -
  obtain e0 where e0: "e' = record_attempt ctx operation flds o1 e0" "e_attempts e0 = e_attempts e" "e_limits e0 = e_limits e"
    using request_recorded [OF ok ev r(1) fresh] r(2) by (auto simp: recorded_def)
  then have "attempt_check ctx operation flds e' = Some (replay_of o1)"
    using record_attempt_check(1) [of ctx e0] fresh room by (simp add: fresh_attempt_def)
  then show ?thesis
    by (rule answer_from_log [OF ev r still_allowed [OF ok ev en r(1) success_allowed [OF ev r]]])
qed

lemma request_conflict:
  assumes ok: "engine_ok e" and ev: "logged_request ev = Some (ctx, operation, flds)"
    and r: "respond ev e = Some (o1, e')" "succeeded o1" and fresh: "fresh_attempt ctx e" and room: "0 < max_attempts (e_limits e)"
    and other: "logged_request ev' = Some (ctx', operation', flds')" "cx_attempt ctx' = cx_attempt ctx"
    and differs: "fingerprint_request operation flds \<noteq> fingerprint_request operation' flds'"
    and o2: "respond ev' e' = Some (o2, e'')"
  shows "\<not> succeeded o2 \<and> e'' = e'"
proof -
  obtain e0 where e0: "e' = record_attempt ctx operation flds o1 e0" "e_attempts e0 = e_attempts e" "e_limits e0 = e_limits e"
    using request_recorded [OF ok ev r(1) fresh] r(2) by (auto simp: recorded_def)
  then obtain o3 where o3: "attempt_check ctx operation' flds' e' = Some o3" "o_code o3 = OC_ATTEMPT_CONFLICT"
    using record_attempt_check(2) [of ctx e0, OF _ _ differs] fresh room by (auto simp: fresh_attempt_def)
  have "attempt_check ctx' operation' flds' e' = attempt_check ctx operation' flds' e'"
    unfolding attempt_check_def other(2) by (rule refl)
  with o3(1) have "attempt_check ctx' operation' flds' e' = Some o3" by simp
  moreover have "\<not> succeeded o3" using o3(2) by (simp add: succeeded_def outcome_is_success_def)
  ultimately show ?thesis using refused_from_log [OF other(1) o2] by blast
qed

end
