(* ===== verification/Store_Files.thy ===== *)
theory Store_Files
  imports Store_Codec
begin

text \<open>
  The file side of \<open>src/persistence.cpp\<close>: how \<open>save_store\<close> replaces a store file, how
  \<open>read_and_decode\<close> falls back to the previous generation, \<open>inspect_store_file\<close>, and how \<open>load_store\<close>
  rebuilds the engine from a decoded store.

  Files are a partial map from path names to contents, the part of \<open>std::filesystem\<close> and of the
  file streams that the code uses. Every call can fail; which ones do is an argument, and so is what
  a failed write left in the temporary file. \<open>save_files\<close> returns all the states the files go
  through, in order, so that a crash between two calls leaves one of them. The text of a system error, which the code
  appends to some details, is left out.
\<close>

section \<open>Saving\<close>

type_synonym files = "string \<Rightarrow> u8 list option"

datatype io_call =
    IO_open_temporary
  | IO_write_temporary
  | IO_remove_temporary
  | IO_stat_target
  | IO_remove_backup
  | IO_rotate_target
  | IO_replace_target

definition temporary_name :: "string \<Rightarrow> string" where
  "temporary_name path = path @ ''.tmp''"

definition backup_name :: "string \<Rightarrow> string" where
  "backup_name path = path @ ''.bak''"

definition rename_file :: "string \<Rightarrow> string \<Rightarrow> files \<Rightarrow> files" where
  "rename_file a b fs = (fs(b := fs a))(a := None)"

text \<open>The last rename, from the state \<open>fs\<close>.\<close>

definition replace_target ::
  "(io_call \<Rightarrow> bool) \<Rightarrow> string \<Rightarrow> files \<Rightarrow> fabric_outcome option \<times> files list" where
  "replace_target io path fs =
     (if \<not> io IO_replace_target
      then (Some (make_rejection OC_STORE_IO_ERROR (msg (''cannot atomically replace the store file '' @ path))), [])
      else (None, [rename_file (temporary_name path) path fs]))"

definition save_files ::
  "(io_call \<Rightarrow> bool) \<Rightarrow> u8 list \<Rightarrow> string \<Rightarrow> u8 list \<Rightarrow> files \<Rightarrow> fabric_outcome option \<times> files list" where
  "save_files io partial path file fs =
     (let temporary = temporary_name path; backup = backup_name path
      in if \<not> io IO_open_temporary
      then (Some (make_rejection OC_STORE_IO_ERROR
              (msg (''cannot open temporary store file: '' @ temporary))), [fs])
      else
        let opened = fs(temporary := Some []); torn = fs(temporary := Some partial)
        in if \<not> io IO_write_temporary
        then (Some (make_rejection OC_STORE_IO_ERROR
                (msg (''cannot write temporary store file: '' @ temporary))),
              [fs, opened, torn, if io IO_remove_temporary then torn(temporary := None) else torn])
        else
          let written = fs(temporary := Some file); before = [fs, opened, torn, written]
          in if io IO_stat_target \<and> written path \<noteq> None
          then
            let cleared = (if io IO_remove_backup then written(backup := None) else written)
            in if \<not> io IO_rotate_target
            then (Some (make_rejection OC_STORE_IO_ERROR
                    (msg (''cannot rotate the previous store file to '' @ backup))), before @ [cleared])
            else
              let rotated = rename_file path backup cleared;
                  (result, after) = replace_target io path rotated
              in (result, before @ [cleared, rotated] @ after)
          else
            let (result, after) = replace_target io path written
            in (result, before @ after))"

text \<open>
  \<open>save_store\<close>: the encoding under the shared lock, then the files. The engine is read only; the
  outcome reports its authority generation.
\<close>

definition save_store ::
  "(io_call \<Rightarrow> bool) \<Rightarrow> u8 list \<Rightarrow> string \<Rightarrow> engine \<Rightarrow> files \<Rightarrow> fabric_outcome \<times> files list" where
  "save_store io partial path e fs =
     (if path = [] then (make_rejection OC_MALFORMED_REQUEST (msg ''save_store requires a file path''), [fs])
      else case encode_store e of
        Inl outcome \<Rightarrow> (outcome, [fs])
      | Inr file \<Rightarrow>
        (case save_files io partial path file fs of
           (Some outcome, states) \<Rightarrow> (outcome, states)
         | (None, states) \<Rightarrow>
             ((make_outcome OC_STORE_SAVED (msg (''saved store to '' @ path)))
                \<lparr>o_authority_generation := Some (e_authority_generation e)\<rparr>, states)))"

section \<open>Reading\<close>

definition read_file :: "(string \<Rightarrow> bool) \<Rightarrow> files \<Rightarrow> string \<Rightarrow> fabric_outcome + u8 list" where
  "read_file readable fs candidate =
     (case fs candidate of
        None \<Rightarrow> Inl (make_rejection OC_STORE_IO_ERROR (msg (''cannot open store file: '' @ candidate)))
      | Some content \<Rightarrow>
          if \<not> readable candidate
          then Inl (make_rejection OC_STORE_IO_ERROR (msg (''cannot read store file: '' @ candidate)))
          else Inr content)"

definition read_store_file :: "(string \<Rightarrow> bool) \<Rightarrow> files \<Rightarrow> limits \<Rightarrow> string \<Rightarrow> fabric_outcome + decoded_store" where
  "read_store_file readable fs lim candidate =
     (case read_file readable fs candidate of
        Inl outcome \<Rightarrow> Inl outcome
      | Inr content \<Rightarrow> decode_store content lim)"

text \<open>The decoded store, and whether it came from the backup.\<close>

definition read_and_decode ::
  "(string \<Rightarrow> bool) \<Rightarrow> files \<Rightarrow> string \<Rightarrow> limits \<Rightarrow> fabric_outcome + (decoded_store \<times> bool)" where
  "read_and_decode readable fs path lim =
     (case read_store_file readable fs lim path of
        Inr store \<Rightarrow> Inr (store, False)
      | Inl primary \<Rightarrow>
          if fs (backup_name path) = None then Inl primary
          else (case read_store_file readable fs lim (backup_name path) of
                  Inl _ \<Rightarrow> Inl primary
                | Inr store \<Rightarrow> Inr (store, True)))"

record store_statistics =
  st_format_version :: u32
  st_set_count :: nat
  st_member_count :: nat
  st_fence_count :: nat
  st_revocation_count :: nat
  st_epoch :: coordinator_epoch
  st_authority_generation :: authority_generation
  st_payload_digest :: digest128
  st_recovered_from_backup :: bool

text \<open>The inspection of a file uses the default limits, whatever limits the engine was given.\<close>

definition inspect_store_file ::
  "(string \<Rightarrow> bool) \<Rightarrow> files \<Rightarrow> string \<Rightarrow> fabric_outcome \<times> store_statistics option" where
  "inspect_store_file readable fs path =
     (case read_and_decode readable fs path default_limits of
        Inl outcome \<Rightarrow> (outcome, None)
      | Inr (decoded, recovered) \<Rightarrow>
          (make_outcome OC_OK (msg (''inspected store '' @ path)),
           Some \<lparr>st_format_version = persistence_format_version,
                 st_set_count = length (ds_sets decoded),
                 st_member_count = sum_list (map (\<lambda>r. om_size (s_members r)) (ds_sets decoded)),
                 st_fence_count = length (ds_fences decoded),
                 st_revocation_count = length (filter (\<lambda>r. s_revocation r \<noteq> None) (ds_sets decoded)),
                 st_epoch = ds_epoch decoded,
                 st_authority_generation = ds_authority_generation decoded,
                 st_payload_digest = ds_payload_digest decoded,
                 st_recovered_from_backup = recovered\<rparr>))"

definition statistics_render :: "store_statistics \<Rightarrow> string" where
  "statistics_render st =
     ''store format='' @ nat_string (unat (st_format_version st)) @
     '' sets='' @ nat_string (st_set_count st) @
     '' members='' @ nat_string (st_member_count st) @
     '' revocations='' @ nat_string (st_revocation_count st) @
     '' fences='' @ nat_string (st_fence_count st) @
     '' epoch='' @ gen_text (st_epoch st) @
     '' authority_generation='' @ gen_text (st_authority_generation st) @
     '' payload_digest='' @ digest_to_hex (st_payload_digest st) @
     '' recovered_from_backup='' @ (if st_recovered_from_backup st then ''true'' else ''false'')"

section \<open>Loading\<close>

text \<open>The live state is dropped before the first record is looked at.\<close>

definition clear_for_load :: "coordinator_epoch \<Rightarrow> authority_generation \<Rightarrow> engine \<Rightarrow> engine" where
  "clear_for_load next_epoch next_authority e =
     e\<lparr>e_sets := om_empty, e_key_index := om_empty, e_path_dependents := om_empty,
       e_registrations := om_empty, e_fences := om_empty, e_snapshots := om_empty,
       e_attempts := [], e_attempt_index := om_empty, e_total_members := 0,
       e_epoch := next_epoch, e_authority_generation := next_authority\<rparr>"

definition load_fence :: "fence_record \<Rightarrow> engine \<Rightarrow> engine" where
  "load_fence fence e =
     (let record = fence\<lparr>fr_epoch := e_epoch e\<rparr>
      in e\<lparr>e_fences := om_put (fr_publisher record, fr_worker_boot record) record (e_fences e)\<rparr>)"

definition recover_record :: "engine \<Rightarrow> set_record \<Rightarrow> set_record" where
  "recover_record e record =
     (let record = map_members bump_member_watermark record;
          record = bump_set_watermark record;
          record = record\<lparr>s_currentness := SC_REVALIDATION_REQUIRED, s_governing_epoch := e_epoch e,
                          s_authority_generation := e_authority_generation e\<rparr>;
          record = record\<lparr>s_usable := recompute_usable_members record\<rparr>
      in append_history (e_limits e) (e_epoch e) SE_EPOCH_ADVANCE CA_RECOVERED None None None
           (msg (''recovered from durable store at epoch '' @ gen_text (e_epoch e) @
                 ''; live currentness not established'')) record)"

definition load_set :: "set_record \<Rightarrow> engine \<Rightarrow> engine" where
  "load_set record e =
     (let record = recover_record e record;
          e = put_set record e;
          e = e\<lparr>e_key_index := om_put (s_key record) (s_id record) (e_key_index e)\<rparr>;
          e = fold (index_path (s_id record)) (om_keys (s_members record)) e;
          e = e\<lparr>e_total_members := e_total_members e + om_size (s_members record)\<rparr>
      in capture_snapshot record e)"

primrec load_sets :: "set_record list \<Rightarrow> engine \<Rightarrow> fabric_outcome option \<times> engine" where
  "load_sets [] e = (None, e)"
| "load_sets (record # records) e =
     (if om_has (e_key_index e) (s_key record)
      then (Some (make_rejection OC_STORE_DUPLICATE_SET
              (msg (''store contains two sets with the same semantic key '' @ key_render (s_key record)))), e)
      else if om_has (e_sets e) (s_id record)
      then (Some (make_rejection OC_STORE_DUPLICATE_SET
              (msg (''store contains the same set identity more than once: '' @ id_text (s_id record)))), e)
      else load_sets records (load_set record e))"

definition load_decoded :: "string \<Rightarrow> decoded_store \<Rightarrow> bool \<Rightarrow> engine \<Rightarrow> answer" where
  "load_decoded path decoded recovered e =
     (case gen_next (ds_epoch decoded) of
        None \<Rightarrow>
          (make_rejection OC_GENERATION_OVERFLOW
             (msg ''the stored coordinator epoch is exhausted; a new epoch cannot be consumed''), e)
      | Some next_epoch \<Rightarrow>
        (case gen_next (ds_authority_generation decoded) of
           None \<Rightarrow>
             (make_rejection OC_GENERATION_OVERFLOW (msg ''the stored authority generation is exhausted''), e)
         | Some next_authority \<Rightarrow>
           (let e = clear_for_load next_epoch next_authority e;
                e = fold load_fence (ds_fences decoded) e
            in case load_sets (ds_sets decoded) e of
                 (Some outcome, e) \<Rightarrow> (outcome, e)
               | (None, e) \<Rightarrow>
                   ((make_outcome OC_RECOVERED
                       (msg (''loaded '' @ nat_string (length (ds_sets decoded)) @ '' set(s) from '' @ path @
                             '' at epoch '' @ gen_text (e_epoch e) @
                             ''; every set reports currentness REVALIDATION_REQUIRED until '' @
                             ''revalidation establishes live authority'' @
                             (if recovered
                              then ''; primary store was unusable and the previous-generation backup was loaded''
                              else []))))
                      \<lparr>o_authority_generation := Some (e_authority_generation e)\<rparr>, e))))"

definition load_store :: "(string \<Rightarrow> bool) \<Rightarrow> files \<Rightarrow> string \<Rightarrow> engine \<Rightarrow> answer" where
  "load_store readable fs path e =
     (if path = [] then (make_rejection OC_MALFORMED_REQUEST (msg ''load_store requires a file path''), e)
      else case read_and_decode readable fs path (e_limits e) of
        Inl outcome \<Rightarrow> (outcome, e)
      | Inr (decoded, recovered) \<Rightarrow> load_decoded path decoded recovered e)"

end
