(* ===== verification/Store_Crash.thy ===== *)
theory Store_Crash
  imports Store_Files
begin

text \<open>
  What is left on disk when a save is interrupted, and what a reader makes of it. The states of
  \<open>save_files\<close> are the only ones a crash can leave behind, and a reader that finds the target missing
  or undecodable tries the backup.
\<close>

lemma store_names [simp]:
  "temporary_name path \<noteq> path" "path \<noteq> temporary_name path"
  "backup_name path \<noteq> path" "path \<noteq> backup_name path"
  "temporary_name path \<noteq> backup_name path" "backup_name path \<noteq> temporary_name path"
  by (simp_all add: temporary_name_def backup_name_def)

text \<open>The content of the target wins when it decodes; otherwise the content of the backup counts.\<close>

lemma read_target:
  assumes "fs path = Some content" "readable path" "decode_store content lim = Inr s"
  shows "read_and_decode readable fs path lim = Inr (s, False)"
  using assms by (simp add: read_and_decode_def read_store_file_def read_file_def)

lemma read_backup:
  assumes "fs path = None" "fs (backup_name path) = Some content" "readable (backup_name path)"
    "decode_store content lim = Inr s"
  shows "read_and_decode readable fs path lim = Inr (s, True)"
  using assms by (simp add: read_and_decode_def read_store_file_def read_file_def)

lemma save_states:
  assumes save: "save_files io partial path file fs = (result, states)" and old: "fs path = Some old"
    and fs': "fs' \<in> set states"
  shows "fs' path = Some old \<or> fs' path = None \<and> fs' (backup_name path) = Some old \<or>
    fs' path = Some file \<and> result = None \<and> fs' = last states"
proof -
  have "fs' path = Some old \<or> fs' path = None \<and> fs' (backup_name path) = Some old \<or>
      fs' path = Some file \<and> result = None \<and> fs' = last states"
    if "\<not> io IO_open_temporary \<or> \<not> io IO_write_temporary"
    using that save old fs' by (auto simp: save_files_def Let_def split: if_splits)
  moreover have "fs' path = Some old \<or> fs' path = None \<and> fs' (backup_name path) = Some old \<or>
      fs' path = Some file \<and> result = None \<and> fs' = last states"
    if "io IO_open_temporary" "io IO_write_temporary"
    using that save old fs'
    by (auto simp: save_files_def replace_target_def rename_file_def Let_def split: if_splits)
  ultimately show ?thesis by blast
qed

lemma save_result:
  assumes save: "save_files io partial path file fs = (result, states)"
  shows "result = None \<Longrightarrow> last states path = Some file" and "states \<noteq> []"
  using save
  by (auto simp: save_files_def replace_target_def rename_file_def Let_def split: if_splits)

text \<open>A crash at any point, or any failure, leaves the old store or the new one.\<close>

lemma save_never_loses:
  assumes save: "save_files io partial path file fs = (result, states)" and old: "fs path = Some old"
    and readable: "readable path" "readable (backup_name path)"
    and s_old: "decode_store old lim = Inr s_old" and s_new: "decode_store file lim = Inr s_new"
    and fs': "fs' \<in> set states"
  shows "\<exists>from_backup. read_and_decode readable fs' path lim = Inr (s_old, from_backup) \<or>
           result = None \<and> fs' = last states \<and> read_and_decode readable fs' path lim = Inr (s_new, False)"
  using save_states [OF save old fs']
proof (elim disjE conjE)
  assume "fs' path = Some old"
  then have "read_and_decode readable fs' path lim = Inr (s_old, False)"
    using readable(1) s_old by (rule read_target)
  then show ?thesis by blast
next
  assume "fs' path = None" "fs' (backup_name path) = Some old"
  then have "read_and_decode readable fs' path lim = Inr (s_old, True)"
    using readable(2) s_old by (rule read_backup)
  then show ?thesis by blast
next
  assume "fs' path = Some file"
  then have "read_and_decode readable fs' path lim = Inr (s_new, False)"
    using readable(1) s_new by (rule read_target)
  moreover assume "result = None" "fs' = last states"
  ultimately show ?thesis by blast
qed

text \<open>
  The guarantee needs a good target. Where the target is damaged and only the backup decodes, a save
  removes the good backup and rotates the damaged file into its place before it replaces the target:
  when the last rename then fails, nothing that decodes is left under the two names a reader tries.
\<close>

lemma damaged_target_displaces_backup:
  assumes "fs path = Some junk" and "fs (backup_name path) = Some good"
    and "decode_store junk lim = Inl bad" and "decode_store good lim = Inr s"
    and "readable path" "readable (backup_name path)"
    and io: "\<And>call. io call = (call \<noteq> IO_replace_target)"
  shows "read_and_decode readable fs path lim = Inr (s, True)"
    and "\<exists>outcome. read_and_decode readable (last (snd (save_files io partial path file fs))) path lim = Inl outcome"
proof -
  show "read_and_decode readable fs path lim = Inr (s, True)"
    using assms by (simp add: read_and_decode_def read_store_file_def read_file_def)
  let ?fs' = "last (snd (save_files io partial path file fs))"
  have "?fs' path = None" "?fs' (backup_name path) = Some junk"
    using assms by (simp_all add: save_files_def replace_target_def rename_file_def Let_def io)
  then show "\<exists>outcome. read_and_decode readable ?fs' path lim = Inl outcome"
    using assms by (simp add: read_and_decode_def read_store_file_def read_file_def)
qed

end
