(* ===== verification/Store_Recovery.thy ===== *)
theory Store_Recovery
  imports Store_Facts Store_Files Set_Ops
begin

text \<open>
  What loading a store does to the engine. A set that is loaded keeps its description and its
  members, and loses every claim to be current; loading a set that is not there yet keeps the
  invariant of the engine; and loading what a healthy engine saved succeeds and gives a healthy
  engine in a new epoch.
\<close>

section \<open>One record\<close>

lemma om_map_compose: "om_map (\<lambda>_. f) (om_map (\<lambda>_. g) t) = om_map (\<lambda>_ m. f (g m)) t"
  by (rule omap_eqI) (simp add: option.map_comp comp_def)

lemma recover_record_simps [simp]:
  "s_id (recover_record e r) = s_id r"
  "s_key (recover_record e r) = s_key r"
  "s_generation (recover_record e r) = s_generation r"
  "s_membership_generation (recover_record e r) = s_membership_generation r"
  "s_lifecycle (recover_record e r) = s_lifecycle r"
  "s_currentness (recover_record e r) = SC_REVALIDATION_REQUIRED"
  "s_governing_epoch (recover_record e r) = e_epoch e"
  "s_authority_generation (recover_record e r) = e_authority_generation e"
  "s_minimum (recover_record e r) = s_minimum r"
  "s_admin_enabled (recover_record e r) = s_admin_enabled r"
  "s_conditional (recover_record e r) = s_conditional r"
  "s_member_index (recover_record e r) = s_member_index r"
  "s_revocation (recover_record e r) = s_revocation r"
  "s_superseded_by (recover_record e r) = s_superseded_by r"
  "s_supersedes (recover_record e r) = s_supersedes r"
  "s_withdrawal_reason (recover_record e r) = s_withdrawal_reason r"
  "s_provenance (recover_record e r) = s_provenance r"
  "s_members (recover_record e r) =
     om_map (\<lambda>_ m. bump_member_watermark (bump_member_watermark m)) (s_members r)"
  by (simp_all add: recover_record_def Let_def bump_set_watermark_def map_members_def om_map_compose
      append_history_def bump_set_watermark_only_def split: option.splits)

lemma recover_record_cong:
  assumes "e_limits e' = e_limits e" "e_epoch e' = e_epoch e"
    "e_authority_generation e' = e_authority_generation e"
  shows "recover_record e' r = recover_record e r"
  unfolding recover_record_def assms by (rule refl)

lemma recover_record_core:
  assumes "set_core (e_limits e) r"
  shows "set_core (e_limits e) (recover_record e r)"
proof -
  have "set_core (e_limits e) (map_members bump_member_watermark r)"
    by (rule set_core_map_same [OF assms]) simp_all
  then have b: "set_core (e_limits e) (bump_set_watermark (map_members bump_member_watermark r))"
    by (rule set_core_bump)
  let ?r = "(bump_set_watermark (map_members bump_member_watermark r))
      \<lparr>s_currentness := SC_REVALIDATION_REQUIRED, s_governing_epoch := e_epoch e,
       s_authority_generation := e_authority_generation e\<rparr>"
  have c: "set_core (e_limits e) ?r"
    using set_core_currentness [OF b, of SC_REVALIDATION_REQUIRED] by simp
  then have "?r\<lparr>s_usable := recompute_usable_members ?r\<rparr> = ?r"
    using derived_okD [OF set_coreD(3) [OF c]] by simp
  with c show ?thesis by (simp add: recover_record_def Let_def)
qed

lemma stored_form_core:
  assumes "set_core lim r"
  shows "set_core lim (stored_form r)"
proof -
  have m: "set_core lim (map_members stored_member r)"
  proof -
    have "member_evidence c (stored_member x)" if "member_evidence c x" for c x
      using that
      by (auto simp: member_evidence_def stored_member_def stored_observation_def m_usable_def
          split: option.splits)
    moreover have "member_frame x (stored_member x)" for x
      by (simp add: member_frame_def stored_member_def)
    ultimately show ?thesis
      using set_coreD [OF assms] tables_ok_set_frame [OF set_coreD(1) [OF assms] set_frame_map]
      by (auto simp: set_core_def evidence_ok_def derived_ok_def lifecycle_ok_def terminal_ok_def recompute_usable_map)
  qed
  have u: "recompute_usable_members r = s_usable r"
    using derived_okD [OF set_coreD(3) [OF assms]] by simp
  show ?thesis
    using m by (rule set_core_same [THEN iffD2, rotated -1]) (simp_all add: stored_form_def map_members_def u)
qed

section \<open>One set into the engine\<close>

lemma index_paths_without [simp]: "without_paths (fold (index_path sid) ps e) = without_paths e"
  by (induction ps arbitrary: e) (simp_all add: without_paths_def index_path_def)

lemmas index_paths_fields [simp] = without_paths_fields [OF index_paths_without]

lemma index_paths_total [simp]: "e_total_members (fold (index_path sid) ps e) = e_total_members e"
  by (induction ps arbitrary: e) simp_all

lemma index_paths_has:
  "om_has (dependents_of q (fold (index_path sid) ps e)) s \<longleftrightarrow>
   om_has (dependents_of q e) s \<or> q \<in> set ps \<and> s = sid"
  by (induction ps arbitrary: e) (auto simp: index_path_has)

lemma index_paths_nonempty:
  "\<forall>q s. om_find (e_path_dependents e) q = Some s \<longrightarrow> om_size s \<noteq> 0 \<Longrightarrow>
   om_find (e_path_dependents (fold (index_path sid) ps e)) q = Some s \<Longrightarrow> om_size s \<noteq> 0"
proof (induction ps arbitrary: e)
  case (Cons p ps)
  show ?case
    by (rule Cons.IH [of "index_path sid p e"])
      (use Cons.prems index_path_nonempty [OF Cons.prems(1)] in auto)
qed simp

lemma load_set_fields [simp]:
  "e_limits (load_set r e) = e_limits e"
  "e_epoch (load_set r e) = e_epoch e"
  "e_authority_generation (load_set r e) = e_authority_generation e"
  "e_registrations (load_set r e) = e_registrations e"
  "e_fences (load_set r e) = e_fences e"
  "e_attempts (load_set r e) = e_attempts e"
  "e_attempt_index (load_set r e) = e_attempt_index e"
  "e_directory (load_set r e) = e_directory e"
  "e_external (load_set r e) = e_external e"
  "e_ids (load_set r e) = e_ids e"
  "om_find (e_sets (load_set r e)) = (om_find (e_sets e))(s_id r := Some (recover_record e r))"
  "om_find (e_key_index (load_set r e)) = (om_find (e_key_index e))(s_key r := Some (s_id r))"
  "e_total_members (load_set r e) = e_total_members e + om_size (s_members r)"
  by (simp_all add: load_set_def Let_def)

definition loadable :: "engine \<Rightarrow> set_record \<Rightarrow> bool" where
  "loadable e r \<longleftrightarrow>
     set_core (e_limits e) r \<and> id_valid (s_id r) \<and>
     ids_below (e_ids e) ''set'' {s_id r} \<and> ids_below (e_ids e) ''mem'' (dom (om_find (s_member_index r)))"

lemma ids_below_Un: "ids_below f kind (A \<union> B) \<longleftrightarrow> ids_below f kind A \<and> ids_below f kind B"
  by (auto simp: ids_below_def)

lemma load_set_ok:
  assumes ok: "engine_ok e" and r: "loadable e r"
    and fresh: "om_find (e_sets e) (s_id r) = None" "om_find (e_key_index e) (s_key r) = None"
    and room: "e_total_members e + om_size (s_members r) \<le> max_total_members (e_limits e)"
      "om_size (e_sets e) < max_sets (e_limits e)"
  shows "engine_ok (load_set r e)"
proof -
  note D = engine_okD [OF ok]
  let ?r = "recover_record e r" and ?e = "load_set r e"
  have core: "set_core (e_limits e) ?r" and valid: "id_valid (s_id r)"
    using r recover_record_core by (auto simp: loadable_def)
  have "sets_ok ?e"
    unfolding sets_ok_def
  proof (intro allI impI)
    fix sid q assume "om_find (e_sets ?e) sid = Some q"
    then show "s_id q = sid \<and> id_valid sid \<and> set_core (e_limits ?e) q"
      using sets_okD [OF D(1), of sid q] valid core by (cases "sid = s_id r") auto
  qed
  moreover have "keys_ok ?e"
    using set_table.agrees_insert [of "e_sets e" "e_key_index e" "s_id r" ?r] D(2) fresh
    by (simp add: keys_ok_def)
  moreover have "dependents_ok ?e"
  proof -
    let ?e1 = "(put_set ?r e)\<lparr>e_key_index := om_put (s_key r) (s_id r) (e_key_index e)\<rparr>"
    let ?e2 = "fold (index_path (s_id r)) (om_keys (s_members r)) ?e1"
    have paths: "e_path_dependents ?e = e_path_dependents ?e2"
      by (simp add: load_set_def Let_def om_keys_map)
    then have dep: "dependents_of q ?e = dependents_of q ?e2" for q by (simp add: dependents_of_def)
    have "om_size s \<noteq> 0" if "om_find (e_path_dependents ?e) q = Some s" for q s
      using index_paths_nonempty [of ?e1 "s_id r" "om_keys (s_members r)" q s] D(3) that paths
      by (simp add: dependents_ok_def)
    moreover have "om_has (dependents_of q ?e) sid \<longleftrightarrow>
        (\<exists>x. om_find (e_sets ?e) sid = Some x \<and> om_has (s_members x) q)" for q sid
    proof -
      have "om_has (dependents_of q e) sid \<longleftrightarrow> (\<exists>x. om_find (e_sets e) sid = Some x \<and> om_has (s_members x) q)"
        using D(3) by (simp add: dependents_ok_def)
      moreover have "dependents_of q ?e1 = dependents_of q e" by (simp add: dependents_of_def)
      ultimately show ?thesis
        unfolding dep index_paths_has using fresh(1) by (auto simp: om_has_def set_om_keys_has)
    qed
    ultimately show ?thesis by (simp add: dependents_ok_def)
  qed
  moreover have "ids_ok ?e"
  proof -
    have mem: "member_ids ?e \<subseteq> member_ids e \<union> dom (om_find (s_member_index r))"
    proof
      fix i assume "i \<in> member_ids ?e"
      then obtain sid q where q: "om_find (e_sets ?e) sid = Some q" "om_has (s_member_index q) i"
        unfolding member_ids_def by blast
      show "i \<in> member_ids e \<union> dom (om_find (s_member_index r))"
      proof (cases "sid = s_id r")
        case True
        with q show ?thesis by (auto simp: om_has_def)
      next
        case False
        with q have "om_find (e_sets e) sid = Some q" by simp
        with q(2) show ?thesis unfolding member_ids_def by blast
      qed
    qed
    have "ids_below (e_ids e) ''mem'' (member_ids e \<union> dom (om_find (s_member_index r)))"
      using D(7) r by (simp add: ids_ok_def loadable_def ids_below_Un)
    from ids_below_mono [OF this mem] have "ids_below (e_ids e) ''mem'' (member_ids ?e)" .
    moreover have "ids_below (e_ids e) ''set'' (dom (om_find (e_sets e)) \<union> {s_id r})"
      unfolding ids_below_Un using D(7) r by (simp add: ids_ok_def loadable_def)
    moreover have "dom (om_find (e_sets ?e)) = dom (om_find (e_sets e)) \<union> {s_id r}" by simp
    ultimately show ?thesis using D(7) by (simp add: ids_ok_def)
  qed
  moreover have "counts_ok ?e"
  proof -
    have sets: "e_sets ?e = e_sets (put_set ?r e)" by (simp add: load_set_def Let_def)
    then have "relation_count ?e = relation_count (put_set ?r e)" by (simp add: relation_count_def)
    moreover have "relation_count (put_set ?r e) = relation_count e + om_size (s_members r)"
      using relation_count_new [of e ?r] fresh(1) by simp
    moreover have "om_size (e_sets (put_set ?r e)) = Suc (om_size (e_sets e))"
      using fresh(1) by (simp add: put_set_def om_size_put)
    ultimately show ?thesis using D(8) room sets by (simp add: counts_ok_def)
  qed
  moreover have "snapshots_ok ?e"
    unfolding load_set_def Let_def
    by (rule capture_snapshot_snapshots_ok) (use D(6) in \<open>simp add: snapshots_ok_def\<close>)
  moreover have "authority_ok ?e" "attempts_ok ?e"
    using D(4,5) by (simp_all add: authority_ok_def attempts_ok_def)
  ultimately show ?thesis using D(9) by (intro engine_okI) simp_all
qed


section \<open>All the sets\<close>

text \<open>Records that can be loaded one after another: no identity and no key twice.\<close>

definition distinct_records :: "set_record list \<Rightarrow> bool" where
  "distinct_records rs \<longleftrightarrow> distinct (map s_id rs) \<and> distinct (map s_key rs)"

lemma distinct_records_Cons:
  "distinct_records (r # rs) \<longleftrightarrow>
     distinct_records rs \<and> (\<forall>q \<in> set rs. s_id q \<noteq> s_id r \<and> s_key q \<noteq> s_key r)"
  by (auto simp: distinct_records_def) (metis imageI)+

lemma loadable_load_set [simp]: "loadable (load_set q e) r = loadable e r"
  by (simp add: loadable_def)

lemma load_sets_fold:
  assumes "distinct_records rs"
    and "\<And>r. r \<in> set rs \<Longrightarrow> om_find (e_sets e) (s_id r) = None \<and> om_find (e_key_index e) (s_key r) = None"
  shows "load_sets rs e = (None, fold load_set rs e)"
  using assms
proof (induction rs arbitrary: e)
  case (Cons r rs)
  have "load_sets rs (load_set r e) = (None, fold load_set rs (load_set r e))"
    by (rule Cons.IH) (use Cons.prems in \<open>auto simp: distinct_records_Cons\<close>)
  then show ?case using Cons.prems(2) [of r] by (simp add: om_has_def)
qed simp

lemma fold_load_set_fields [simp]:
  "e_limits (fold load_set rs e) = e_limits e"
  "e_epoch (fold load_set rs e) = e_epoch e"
  "e_authority_generation (fold load_set rs e) = e_authority_generation e"
  "e_registrations (fold load_set rs e) = e_registrations e"
  "e_fences (fold load_set rs e) = e_fences e"
  "e_attempts (fold load_set rs e) = e_attempts e"
  "e_ids (fold load_set rs e) = e_ids e"
  "e_directory (fold load_set rs e) = e_directory e"
  "e_external (fold load_set rs e) = e_external e"
  by (induction rs arbitrary: e) simp_all

lemma fold_load_set_find:
  assumes "distinct (map s_id rs)"
  shows "om_find (e_sets (fold load_set rs e)) sid =
    (case List.find (\<lambda>r. s_id r = sid) rs of
       Some r \<Rightarrow> Some (recover_record e r) | None \<Rightarrow> om_find (e_sets e) sid)"
  using assms
proof (induction rs arbitrary: e)
  case (Cons r rs)
  have cong: "recover_record (load_set r e) q = recover_record e q" for q
    by (rule recover_record_cong) simp_all
  have "List.find (\<lambda>q. s_id q = s_id r) rs = None"
    using Cons.prems by (auto simp: find_None_iff) (metis imageI)
  then show ?case
    using Cons.IH [of "load_set r e"] Cons.prems by (auto simp: cong split: option.split)
qed simp

lemma fold_load_set_ok:
  assumes "engine_ok e" and "distinct_records rs" and "\<And>r. r \<in> set rs \<Longrightarrow> loadable e r"
    and "\<And>r. r \<in> set rs \<Longrightarrow> om_find (e_sets e) (s_id r) = None \<and> om_find (e_key_index e) (s_key r) = None"
    and "e_total_members e + stored_member_total rs \<le> max_total_members (e_limits e)"
    and "om_size (e_sets e) + length rs \<le> max_sets (e_limits e)"
  shows "engine_ok (fold load_set rs e)"
  using assms
proof (induction rs arbitrary: e)
  case (Cons r rs)
  have fresh: "om_find (e_sets e) (s_id r) = None" using Cons.prems(4) [of r] by simp
  have size: "om_size (e_sets (load_set r e)) = Suc (om_size (e_sets e))"
    using fresh by (simp add: load_set_def Let_def put_set_def om_size_put)
  have "engine_ok (load_set r e)"
    using Cons.prems(3,4) [of r] Cons.prems(5,6) by (intro load_set_ok [OF Cons.prems(1)]) simp_all
  then have "engine_ok (fold load_set rs (load_set r e))"
    by (rule Cons.IH) (use Cons.prems size in \<open>auto simp: distinct_records_Cons\<close>)
  then show ?case by simp
qed simp


section \<open>Fences\<close>

definition fence_key :: "fence_record \<Rightarrow> worker_key" where
  "fence_key f = (fr_publisher f, fr_worker_boot f)"

lemma load_fences_eq:
  "fold load_fence fs e =
     e\<lparr>e_fences := fold (\<lambda>f. om_put (fence_key f) (f\<lparr>fr_epoch := e_epoch e\<rparr>)) fs (e_fences e)\<rparr>"
  by (induction fs arbitrary: e) (simp_all add: load_fence_def Let_def fence_key_def)

lemma fences_rebuilt:
  assumes "\<And>k f. om_find t k = Some f \<Longrightarrow> fence_key f = k"
  shows "fold (\<lambda>f. om_put (fence_key f) (g f)) (om_values t) om_empty = om_map (\<lambda>_. g) t"
proof (rule omap_eqI)
  fix k
  have entry: "fence_key f = k" if "(k, f) \<in> set (om_entries t)" for k f
    using assms that by (simp flip: om_find_iff)
  then have keys: "map fence_key (om_values t) = om_keys t"
    unfolding om_values_def om_keys_def by auto
  have entries: "map (\<lambda>f. (fence_key f, g f)) (om_values t) = map (\<lambda>(k, v). (k, g v)) (om_entries t)"
    unfolding om_values_def using entry by auto
  have "distinct (map fence_key (om_values t))"
    unfolding keys by (simp add: om_keys_def)
  then show "om_find (fold (\<lambda>f. om_put (fence_key f) (g f)) (om_values t) om_empty) k = om_find (om_map (\<lambda>_. g) t) k"
    by (simp only: om_find_fold_put_distinct entries map_of_map_entries om_find_map)
      (simp add: om_find_eq_map_of)
qed

section \<open>Loading what was saved\<close>

text \<open>
  The identities in use by \<open>e0\<close> are none that the identity factory of \<open>e\<close> will issue: \<open>e\<close> is another
  process with another nonce, or the same engine at that or at a later time.
\<close>

definition ids_foreign :: "engine \<Rightarrow> engine \<Rightarrow> bool" where
  "ids_foreign e e0 \<longleftrightarrow>
     ids_below (e_ids e) ''set'' (dom (om_find (e_sets e0))) \<and> ids_below (e_ids e) ''mem'' (member_ids e0)"

lemma ids_foreign_self: "engine_ok e \<Longrightarrow> ids_foreign e e"
  by (simp add: ids_foreign_def engine_ok_def ids_ok_def)

lemma cleared_ok:
  assumes "engine_ok e" and "gen_valid ep" and "gen_valid au"
  shows "engine_ok (clear_for_load ep au e)"
proof -
  have empty: "om_find om_empty = (\<lambda>_. None)" by (simp add: fun_eq_iff)
  show ?thesis
    using assms
    by (simp add: empty engine_ok_def clear_for_load_def sets_ok_def keys_ok_def dependents_ok_def dependents_of_def
      authority_ok_def attempts_ok_def log_covers_def snapshots_ok_def ids_ok_def ids_below_def member_ids_def
      counts_ok_def relation_count_def)
qed

lemma stored_distinct:
  assumes ok: "engine_ok e"
  shows "distinct_records (map stored_form (om_values (e_sets e)))"
proof -
  have id: "s_id r = k" if "(k, r) \<in> set (om_entries (e_sets e))" for k r
    using sets_okD [OF engine_okD(1) [OF ok], of k r] that by (simp add: om_find_iff)
  then have ids: "map s_id (om_values (e_sets e)) = om_keys (e_sets e)"
    unfolding om_values_def om_keys_def by auto
  then have d: "distinct (map s_id (om_values (e_sets e)))" by (simp add: om_keys_def)
  have "inj_on s_key (set (om_values (e_sets e)))"
  proof (rule inj_onI)
    fix q r assume q: "q \<in> set (om_values (e_sets e))" and r: "r \<in> set (om_values (e_sets e))" and "s_key q = s_key r"
    moreover from q r obtain k l where "om_find (e_sets e) k = Some q" "om_find (e_sets e) l = Some r"
      unfolding set_om_values by blast
    ultimately show "q = r"
      using index_ok_inj [OF engine_okD(2) [OF ok, unfolded keys_ok_def]] by (metis option.inject)
  qed
  then have "distinct (map s_key (om_values (e_sets e)))"
    using d by (simp add: distinct_map)
  with d show ?thesis by (simp add: distinct_records_def comp_def stored_form_def)
qed

lemma find_stored:
  assumes ok: "engine_ok e"
  shows "List.find (\<lambda>r. s_id r = sid) (map stored_form (om_values (e_sets e))) =
    map_option stored_form (om_find (e_sets e) sid)"
proof -
  have id: "s_id r = k" if "(k, r) \<in> set (om_entries (e_sets e))" for k r
    using sets_okD [OF engine_okD(1) [OF ok], of k r] that by (simp add: om_find_iff)
  have "List.find (\<lambda>r. s_id r = sid) (map stored_form (map snd xs)) = map_option stored_form (map_of xs sid)"
    if "\<forall>(k, r) \<in> set xs. s_id r = k" for xs
    using that by (induction xs) (auto simp: stored_form_def)
  moreover have "\<forall>(k, r) \<in> set (om_entries (e_sets e)). s_id r = k" using id by blast
  ultimately show ?thesis by (simp add: om_values_def om_find_eq_map_of)
qed

lemma load_saved:
  assumes ok0: "engine_ok e0" and ok: "engine_ok e" and lim: "e_limits e = e_limits e0"
    and ids: "ids_foreign e e0"
    and ep: "gen_next (e_epoch e0) = Some ep" and au: "gen_next (e_authority_generation e0) = Some au"
    and room: "stored_member_total (om_values (e_sets e0)) \<le> max_total_members (e_limits e0)"
  shows "\<exists>outcome e'. load_decoded path (stored_engine e0 body) recovered e = (outcome, e') \<and>
    o_code outcome = OC_RECOVERED \<and> engine_ok e' \<and> e_epoch e' = ep \<and> e_authority_generation e' = au \<and>
    e_registrations e' = om_empty \<and> e_attempts e' = [] \<and>
    e_fences e' = om_map (\<lambda>_ f. f\<lparr>fr_epoch := ep\<rparr>) (e_fences e0) \<and>
    (\<forall>sid. om_find (e_sets e') sid = map_option (\<lambda>r. recover_record e' (stored_form r)) (om_find (e_sets e0) sid))"
proof -
  let ?c = "clear_for_load ep au e"
  let ?f = "fold load_fence (om_values (e_fences e0)) ?c"
  let ?rs = "map stored_form (om_values (e_sets e0))"
  let ?e' = "fold load_set ?rs ?f"
  have c: "engine_ok ?c"
    using ok ep au by (intro cleared_ok) (auto intro: gen_next_valid)
  have fk: "fence_key f = k" if "om_find (e_fences e0) k = Some f" for k f
    using engine_okD(4) [OF ok0] that by (cases k) (simp add: authority_ok_def fence_key_def)
  have fields: "e_epoch ?c = ep" "e_fences ?c = om_empty" "e_registrations ?c = om_empty"
    "e_authority_generation ?c = au" "e_attempts ?c = []" "e_limits ?c = e_limits e"
    "e_sets ?c = om_empty" "e_key_index ?c = om_empty" "e_total_members ?c = 0" "e_ids ?c = e_ids e"
    by (simp_all add: clear_for_load_def)
  have f: "?f = ?c\<lparr>e_fences := om_map (\<lambda>_ f. f\<lparr>fr_epoch := ep\<rparr>) (e_fences e0)\<rparr>"
    unfolding load_fences_eq fields using fences_rebuilt [of "e_fences e0" "\<lambda>f. f\<lparr>fr_epoch := ep\<rparr>"] fk by simp
  have fok: "engine_ok ?f"
  proof -
    have "authority_ok ?f"
      using engine_okD(4) [OF c] fk by (auto simp: f fields authority_ok_def fence_key_def)
    then show ?thesis
      using engine_okD [OF c] unfolding f by (simp add: engine_ok_def sets_ok_def keys_ok_def dependents_ok_def
        dependents_of_def attempts_ok_def snapshots_ok_def ids_ok_def member_ids_def counts_ok_def relation_count_def)
  qed
  have load: "load_sets ?rs ?f = (None, ?e')"
    by (rule load_sets_fold [OF stored_distinct [OF ok0]]) (simp add: f fields)
  have find: "om_find (e_sets ?e') sid = map_option (\<lambda>r. recover_record ?e' (stored_form r)) (om_find (e_sets e0) sid)" for sid
  proof -
    have "recover_record ?f r = recover_record ?e' r" for r by (rule recover_record_cong) simp_all
    moreover have "distinct (map s_id ?rs)" using stored_distinct [OF ok0] by (simp add: distinct_records_def)
    ultimately show ?thesis
      by (simp only: fold_load_set_find find_stored [OF ok0]) (simp add: f fields split: option.split)
  qed
  have "loadable ?f r" if "r \<in> set ?rs" for r
  proof -
    from that obtain r0 where "r0 \<in> set (om_values (e_sets e0))" and rr: "r = stored_form r0" by auto
    then obtain k where r0: "om_find (e_sets e0) k = Some r0" unfolding set_om_values by blast
    note r0 = r0 rr
    have "s_id r0 = k \<and> id_valid k \<and> set_core (e_limits e0) r0"
      using sets_okD [OF engine_okD(1) [OF ok0] r0(1)] .
    moreover have "{k} \<subseteq> dom (om_find (e_sets e0))" using r0(1) by auto
    then have "ids_below (e_ids e) ''set'' {k}"
      using ids unfolding ids_foreign_def by (metis ids_below_mono)
    moreover have "dom (om_find (s_member_index r0)) \<subseteq> member_ids e0"
      using r0(1) by (auto simp: member_ids_def om_has_def)
    then have "ids_below (e_ids e) ''mem'' (dom (om_find (s_member_index r0)))"
      using ids unfolding ids_foreign_def by (metis ids_below_mono)
    moreover have "s_id r = s_id r0" "s_member_index r = s_member_index r0"
      by (simp_all add: r0 stored_form_def)
    ultimately show ?thesis
      using r0(2) lim by (auto simp: loadable_def f fields stored_form_core)
  qed
  moreover have "stored_member_total ?rs = stored_member_total (om_values (e_sets e0))"
    by (simp add: stored_member_total_def comp_def stored_form_def)
  moreover have "length ?rs \<le> max_sets (e_limits e0)"
    using engine_okD(8) [OF ok0] by (simp add: counts_ok_def om_values_def om_size_def)
  ultimately have e': "engine_ok ?e'"
    using room lim by (intro fold_load_set_ok [OF fok stored_distinct [OF ok0]]) (simp_all add: f fields)
  show ?thesis
    using load find e' ep au
    by (simp add: load_decoded_def stored_engine_def Let_def f fields)
qed


section \<open>What no load can bring back\<close>

text \<open>No registration, and no set that is current or can be consumed: whatever the file said.\<close>

definition dormant :: "engine \<Rightarrow> bool" where
  "dormant e \<longleftrightarrow> e_registrations e = om_empty \<and> e_attempts e = [] \<and>
     (\<forall>sid r. om_find (e_sets e) sid = Some r \<longrightarrow>
        s_currentness r = SC_REVALIDATION_REQUIRED \<and> s_governing_epoch r = e_epoch e \<and>
        consumable_member_count r = 0)"

lemma load_set_dormant:
  assumes "dormant e"
  shows "dormant (load_set r e)"
proof -
  have "consumable_member_count (recover_record e r) = 0"
    by (simp add: consumable_member_count_def set_is_consumable_def)
  then show ?thesis using assms by (simp add: dormant_def)
qed

lemma load_sets_dormant: "dormant e \<Longrightarrow> dormant (snd (load_sets rs e))"
  by (induction rs arbitrary: e) (simp_all add: load_set_dormant)

lemma load_sets_fields:
  "e_epoch (snd (load_sets rs e)) = e_epoch e \<and> e_limits (snd (load_sets rs e)) = e_limits e"
  by (induction rs arbitrary: e) simp_all

lemma load_decoded_dormant:
  assumes "load_decoded path decoded recovered e = (outcome, e')"
  shows "e' = e \<and> \<not> succeeded outcome \<or> dormant e' \<and> gen_next (ds_epoch decoded) = Some (e_epoch e')"
proof (cases "gen_next (ds_epoch decoded) = None \<or> gen_next (ds_authority_generation decoded) = None")
  case True
  then show ?thesis
    using assms by (auto simp: load_decoded_def succeeded_def outcome_is_success_def split: option.splits)
next
  case False
  then obtain ep au where ep: "gen_next (ds_epoch decoded) = Some ep"
    and au: "gen_next (ds_authority_generation decoded) = Some au" by auto
  let ?f = "fold load_fence (ds_fences decoded) (clear_for_load ep au e)"
  have "dormant ?f" and f: "e_epoch ?f = ep" by (simp_all add: load_fences_eq clear_for_load_def dormant_def)
  then have d: "dormant (snd (load_sets (ds_sets decoded) ?f))" by (intro load_sets_dormant)
  have "e' = snd (load_sets (ds_sets decoded) ?f)"
    using assms ep au by (auto simp: load_decoded_def Let_def split: prod.splits option.splits)
  with d ep f load_sets_fields [of "ds_sets decoded" ?f] show ?thesis by simp
qed

lemma dormant_refuses: "dormant e \<Longrightarrow> \<not> succeeded (authority_check ctx key sid e)"
  by (simp add: dormant_def authority_check_def succeeded_def outcome_is_success_def split: option.split)

end
