(* ===== verification/Store_Saving.thy ===== *)
theory Store_Saving
  imports Store_Crash Store_Recovery
begin

text \<open>
  Saving and loading together: what a reader finds after \<open>save_store\<close> stopped somewhere, what
  \<open>load_store\<close> makes of the file of a successful save, and what it can never bring about.
\<close>

lemma save_store_states: "snd (save_store io partial path e fs) \<noteq> []"
proof -
  have "states \<noteq> []" if "save_files io partial path bytes fs = (result, states)" for bytes result states
    by (rule save_result(2) [OF that])
  then show ?thesis by (auto simp: save_store_def split: sum.split prod.splits option.splits)
qed

text \<open>Either nothing was written, or the files went through the states of \<open>save_files\<close>.\<close>

lemma save_store_cases:
  assumes "save_store io partial path e fs = (outcome, states)"
  obtains (nothing) "states = [fs]" "\<not> succeeded outcome"
    | (written) bytes result where "encode_store e = Inr bytes"
        "save_files io partial path bytes fs = (result, states)" "result = None \<Longrightarrow> succeeded outcome"
        "succeeded outcome \<Longrightarrow> result = None"
proof (cases "path = []")
  case True
  with assms have "states = [fs]" "\<not> succeeded outcome"
    by (auto simp: save_store_def succeeded_def outcome_is_success_def)
  then show thesis by (rule nothing)
next
  case False
  show thesis
  proof (cases "encode_store e")
    case (Inl rejected)
    then have "\<not> succeeded rejected"
      by (auto simp: encode_store_def Let_def succeeded_def outcome_is_success_def split: if_splits)
    with assms False Inl have "states = [fs]" "\<not> succeeded outcome" by (auto simp: save_store_def)
    then show thesis by (rule nothing)
  next
    case (Inr bytes)
    obtain result after where f: "save_files io partial path bytes fs = (result, after)" by fastforce
    have rejected: "\<not> succeeded answer" if "result = Some answer" for answer
      using that f by (auto simp: save_files_def replace_target_def Let_def succeeded_def outcome_is_success_def
          split: if_splits)
    show thesis
    proof (rule written [OF Inr])
      show "save_files io partial path bytes fs = (result, states)"
        using f assms False Inr by (auto simp: save_store_def split: option.splits)
      show "succeeded outcome" if "result = None"
        using that f assms False Inr
        by (auto simp: save_store_def succeeded_def outcome_is_success_def)
      show "result = None" if "succeeded outcome"
        using that f assms False Inr rejected by (auto simp: save_store_def split: option.splits)
    qed
  qed
qed

lemma saved_or_before:
  assumes save: "save_store io partial path e fs = (outcome, states)" and fs': "fs' \<in> set states"
    and old: "fs path = Some old" and before: "decode_store old (e_limits e) = Inr before"
    and readable: "readable path" "readable (backup_name path)"
    and e: "storable e" and size: "max_store_bytes (e_limits e) < 2 ^ 63"
  shows "\<exists>st from_backup. read_and_decode readable fs' path (e_limits e) = Inr (st, from_backup) \<and>
    (st = before \<or> succeeded outcome \<and> fs' = last states \<and> (\<exists>body. st = stored_engine e body))"
  using save
proof (cases rule: save_store_cases)
  case nothing
  then have "read_and_decode readable fs' path (e_limits e) = Inr (before, False)"
    using fs' old readable(1) before by (auto intro: read_target)
  then show ?thesis by blast
next
  case (written bytes result)
  obtain body where "decode_store bytes (e_limits e) = Inr (stored_engine e body)"
    using decode_encode_store [OF e written(1) size] by blast
  from save_never_loses [where readable = readable, OF written(2) old readable before this fs'] written(3)
  show ?thesis by blast
qed

lemma load_after_save:
  assumes save: "save_store io partial path e0 fs = (outcome, states)" and ok: "succeeded outcome"
    and readable: "readable path" and e0: "storable e0" and size: "max_store_bytes (e_limits e0) < 2 ^ 63"
    and inv: "engine_ok e0" "engine_ok e" and lim: "e_limits e = e_limits e0" and ids: "ids_foreign e e0"
    and next_gen: "gen_next (e_epoch e0) = Some ep" "gen_next (e_authority_generation e0) = Some au"
  shows "\<exists>answer e'. load_store readable (last states) path e = (answer, e') \<and> o_code answer = OC_RECOVERED \<and>
    engine_ok e' \<and> e_epoch e' = ep \<and> e_authority_generation e' = au \<and>
    e_registrations e' = om_empty \<and> e_fences e' = om_map (\<lambda>_ f. f\<lparr>fr_epoch := ep\<rparr>) (e_fences e0) \<and>
    (\<forall>sid. om_find (e_sets e') sid = map_option (\<lambda>r. recover_record e' (stored_form r)) (om_find (e_sets e0) sid))"
  using save
proof (cases rule: save_store_cases)
  case nothing
  with ok show ?thesis by simp
next
  case (written bytes result)
  have path: "path \<noteq> []"
  proof
    assume "path = []"
    then show False using save ok by (auto simp: save_store_def succeeded_def outcome_is_success_def)
  qed
  obtain body where d: "decode_store bytes (e_limits e0) = Inr (stored_engine e0 body)"
    using decode_encode_store [OF e0 written(1) size] by blast
  have "last states path = Some bytes" using save_result(1) [OF written(2)] written(4) ok by blast
  then have r: "read_and_decode readable (last states) path (e_limits e) = Inr (stored_engine e0 body, False)"
    unfolding lim using readable d by (rule read_target)
  have total: "stored_member_total (om_values (e_sets e0)) \<le> max_total_members (e_limits e0)"
    using e0 by (simp add: storable_def)
  show ?thesis
    using load_saved [where path = path and body = body and recovered = False, OF inv lim ids next_gen total] path r
    by (auto simp: load_store_def)
qed

lemma load_store_dormant:
  assumes "load_store readable fs path e = (outcome, e')" and "e' \<noteq> e"
  shows "dormant e'"
  using assms load_decoded_dormant
  by (force simp: load_store_def split: if_splits sum.splits prod.splits)

end
