(* ===== verification/Fabric_Life.thy ===== *)
theory Fabric_Life
  imports Operation_Facts Store_Saving
begin

text \<open>
  The engine over its whole life: its operations and, between them, calls of \<open>load_store\<close>. A load
  replaces the state by what a file holds, so it keeps the invariant only when the file holds the state
  of an engine that satisfied it, and it is the one operation that can bring back an earlier epoch and
  earlier fences. What every run keeps is proved over the runs with loads; what a load can undo is
  proved over the runs in which no store is loaded, or in which every loaded store holds it.
\<close>

section \<open>Operations and loads\<close>

datatype (plugins only: code size) life_event =
    Life_event fabric_event
  | Life_load "string \<Rightarrow> bool" files string

primrec carry_out :: "life_event \<Rightarrow> engine \<Rightarrow> engine" where
  "carry_out (Life_event ev) e = perform ev e"
| "carry_out (Life_load readable fs path) e = snd (load_store readable fs path e)"

text \<open>The store that an event loads, if it is a load and the files hold one that decodes.\<close>

primrec loaded_store :: "limits \<Rightarrow> life_event \<Rightarrow> decoded_store option" where
  "loaded_store lim (Life_event ev) = None"
| "loaded_store lim (Life_load readable fs path) =
     (if path = [] then None
      else case read_and_decode readable fs path lim of
        Inl _ \<Rightarrow> None
      | Inr store \<Rightarrow> Some (fst store))"

text \<open>
  A store whose content is the state of an engine that satisfied the invariant under the same limits, and
  whose identities are none the loading engine will issue: it was saved by another process or earlier by
  this one.
\<close>

definition healthy_store :: "engine \<Rightarrow> decoded_store \<Rightarrow> bool" where
  "healthy_store e store \<longleftrightarrow>
     (\<exists>e0 body. store = stored_engine e0 body \<and> engine_ok e0 \<and> e_limits e0 = e_limits e \<and> ids_foreign e e0)"

definition life_enabled :: "life_event \<Rightarrow> engine \<Rightarrow> bool" where
  "life_enabled lev e =
     (case lev of
        Life_event ev \<Rightarrow> event_enabled ev e
      | Life_load _ _ _ \<Rightarrow> (\<forall>store. loaded_store (e_limits e) lev = Some store \<longrightarrow> healthy_store e store))"

inductive life_step :: "engine \<Rightarrow> life_event \<Rightarrow> engine \<Rightarrow> bool" where
  carry_out_event: "life_enabled lev e \<Longrightarrow> life_step e lev (carry_out lev e)"

inductive_cases life_stepE: "life_step e lev e'"

section \<open>One load\<close>

lemma load_nothing:
  assumes "loaded_store (e_limits e) (Life_load readable fs path) = None"
  shows "snd (load_store readable fs path e) = e"
  using assms by (auto simp: load_store_def split: if_splits sum.splits)

lemma load_something:
  assumes "loaded_store (e_limits e) (Life_load readable fs path) = Some store"
  obtains recovered where "load_store readable fs path e = load_decoded path store recovered e"
  using assms by (auto simp: load_store_def split: if_splits sum.splits)

lemma relation_count_stored: "stored_member_total (om_values (e_sets e)) = relation_count e"
proof -
  let ?f = "\<lambda>sid. om_size (s_members (the (om_find (e_sets e) sid)))"
  have f: "?f k = om_size (s_members r)" if "(k, r) \<in> set (om_entries (e_sets e))" for k r
    using that by (simp flip: om_find_iff)
  have "stored_member_total (om_values (e_sets e)) = sum_list (map (\<lambda>(k, r). om_size (s_members r)) (om_entries (e_sets e)))"
    by (simp add: stored_member_total_def om_values_def comp_def case_prod_unfold)
  also have "\<dots> = sum_list (map (\<lambda>(k, r). ?f k) (om_entries (e_sets e)))"
    using f by (intro arg_cong [where f = sum_list] map_cong) auto
  also have "\<dots> = sum_list (map ?f (om_keys (e_sets e)))"
    by (simp add: om_keys_def comp_def case_prod_unfold)
  also have "\<dots> = sum ?f (set (om_keys (e_sets e)))"
    by (rule sum_list_distinct_conv_sum_set) (simp add: om_keys_def)
  finally show ?thesis by (simp add: relation_count_def set_om_keys dom_def)
qed

lemma load_exhausted:
  assumes "gen_next (ds_epoch store) = None \<or> gen_next (ds_authority_generation store) = None"
  shows "snd (load_decoded path store recovered e) = e"
  using assms by (auto simp: load_decoded_def split: option.split)

lemma load_healthy:
  assumes ok: "engine_ok e" and "healthy_store e store"
  shows "engine_ok (snd (load_decoded path store recovered e))"
proof -
  obtain e0 body where store: "store = stored_engine e0 body" and ok0: "engine_ok e0"
    and lim: "e_limits e0 = e_limits e" and ids: "ids_foreign e e0"
    using assms(2) unfolding healthy_store_def by blast
  show ?thesis
  proof (cases "gen_next (e_epoch e0) = None \<or> gen_next (e_authority_generation e0) = None")
    case True
    then show ?thesis using load_exhausted [of store] ok by (simp add: store stored_engine_def)
  next
    case False
    then obtain ep au where ep: "gen_next (e_epoch e0) = Some ep" "gen_next (e_authority_generation e0) = Some au" by auto
    have room: "stored_member_total (om_values (e_sets e0)) \<le> max_total_members (e_limits e0)"
      using engine_okD(8) [OF ok0] by (simp add: relation_count_stored counts_ok_def)
    show ?thesis
      using load_saved [where path = path and body = body and recovered = recovered, OF ok0 ok lim [symmetric] ids ep room]
      by (auto simp: store)
  qed
qed

lemma load_keeps_ok:
  assumes "engine_ok e" and "life_enabled (Life_load readable fs path) e"
  shows "engine_ok (snd (load_store readable fs path e))"
proof (cases "loaded_store (e_limits e) (Life_load readable fs path)")
  case None
  then show ?thesis using load_nothing assms(1) by metis
next
  case (Some store)
  then have "healthy_store e store" using assms(2) by (auto simp: life_enabled_def)
  moreover obtain recovered where "load_store readable fs path e = load_decoded path store recovered e"
    by (rule load_something [OF Some])
  ultimately show ?thesis using load_healthy [OF assms(1)] by simp
qed

lemma carry_out_ok: "engine_ok e \<Longrightarrow> life_enabled lev e \<Longrightarrow> engine_ok (carry_out lev e)"
  using load_keeps_ok perform_ok by (cases lev) (auto simp: life_enabled_def)

interpretation life: guarded_system "fabric_start config" life_step engine_ok for config
proof
  show "engine_ok e" if "fabric_start config e" for e
    using fabric.reach_inv [OF fabric.reach_start [OF that]] .
  show "engine_ok e'" if "engine_ok e" "life_step e lev e'" for e lev e'
    using that by (auto elim!: life_stepE intro: carry_out_ok)
qed

text \<open>What a successful save wrote is such a store, so its load is enabled wherever its identities are foreign.\<close>

lemma saved_is_loaded:
  assumes save: "save_store io partial path e0 fs = (outcome, states)" and ok: "succeeded outcome" and readable: "readable path"
    and e0: "storable e0" and size: "max_store_bytes (e_limits e0) < 2 ^ 63"
  shows "\<exists>body. loaded_store (e_limits e0) (Life_load readable (last states) path) = Some (stored_engine e0 body)"
  using save
proof (cases rule: save_store_cases)
  case nothing
  with ok show ?thesis by simp
next
  case (written bytes result)
  have path: "path \<noteq> []"
    using save ok by (auto simp: save_store_def succeeded_def outcome_is_success_def split: if_splits)
  obtain body where d: "decode_store bytes (e_limits e0) = Inr (stored_engine e0 body)"
    using decode_encode_store [OF e0 written(1) size] by blast
  have "last states path = Some bytes" using save_result(1) [OF written(2)] written(4) ok by blast
  then have "read_and_decode readable (last states) path (e_limits e0) = Inr (stored_engine e0 body, False)"
    using readable d by (rule read_target)
  with path have "loaded_store (e_limits e0) (Life_load readable (last states) path) = Some (stored_engine e0 body)" by simp
  then show ?thesis by (rule exI)
qed

lemma saved_is_enabled:
  assumes "save_store io partial path e0 fs = (outcome, states)" and "succeeded outcome" and "readable path"
    and "storable e0" and "max_store_bytes (e_limits e0) < 2 ^ 63" and "engine_ok e0" and "e_limits e = e_limits e0" and "ids_foreign e e0"
  shows "life_enabled (Life_load readable (last states) path) e"
proof -
  obtain body where "loaded_store (e_limits e) (Life_load readable (last states) path) = Some (stored_engine e0 body)"
    using saved_is_loaded [where readable = readable, OF assms(1-5)] assms(7) by auto
  then show ?thesis using assms(6-8) unfolding life_enabled_def healthy_store_def life_event.case by (metis option.inject)
qed

section \<open>Runs without a load are runs of the operations\<close>

lemma life_step_operation: "fabric_step e ev e' \<Longrightarrow> life_step e (Life_event ev) e'"
  using carry_out_event [of "Life_event ev" e] by (auto simp: life_enabled_def elim!: fabric_stepE)

lemma life_run_operations: "fabric.run e evs e' \<Longrightarrow> life.run e (map Life_event evs) e'"
  by (induction rule: fabric.run.induct) (auto intro: life.run_nil life.run_cons life_step_operation)

lemma life_reach_operations: "fabric.reach config e \<Longrightarrow> life.reach config e"
  unfolding fabric.reach_def life.reach_def using life_run_operations by blast

lemma clear_and_fence_fields:
  "e_limits (fold load_fence fs (clear_for_load ep au e)) = e_limits e"
  "e_epoch (fold load_fence fs (clear_for_load ep au e)) = ep"
  "e_registrations (fold load_fence fs (clear_for_load ep au e)) = om_empty"
  by (simp_all add: load_fences_eq clear_for_load_def)

lemma load_decoded_fields:
  assumes "gen_next (ds_epoch store) = Some ep" and "gen_next (ds_authority_generation store) = Some au"
  shows "snd (load_decoded path store recovered e) =
    snd (load_sets (ds_sets store) (fold load_fence (ds_fences store) (clear_for_load ep au e)))"
  using assms by (auto simp: load_decoded_def Let_def split: prod.split option.split)

lemma load_decoded_limits: "e_limits (snd (load_decoded path store recovered e)) = e_limits e"
proof (cases "gen_next (ds_epoch store) = None \<or> gen_next (ds_authority_generation store) = None")
  case True
  then show ?thesis by (simp add: load_exhausted)
next
  case False
  then obtain ep au where "gen_next (ds_epoch store) = Some ep" "gen_next (ds_authority_generation store) = Some au" by auto
  then show ?thesis using load_sets_fields by (simp add: load_decoded_fields clear_and_fence_fields)
qed

lemma load_store_limits: "e_limits (snd (load_store readable fs path e)) = e_limits e"
proof (cases "loaded_store (e_limits e) (Life_load readable fs path)")
  case None
  then show ?thesis by (simp add: load_nothing)
next
  case (Some store)
  then obtain recovered where "load_store readable fs path e = load_decoded path store recovered e"
    by (rule load_something)
  then show ?thesis by (simp add: load_decoded_limits)
qed

lemma life_step_limits: "engine_ok e \<Longrightarrow> life_step e lev e' \<Longrightarrow> e_limits e' = e_limits e"
  using perform_forward
  by (cases lev) (auto simp: life_enabled_def engine_forward_def load_store_limits elim!: life_stepE)

lemma life_run_limits: "life.run e levs e' \<Longrightarrow> engine_ok e \<Longrightarrow> e_limits e' = e_limits e"
proof (induction rule: life.run.induct)
  case (run_cons e lev e1 levs e2)
  then show ?case using life_step_limits life.step_inv by metis
qed simp

lemma life_reach_limits:
  assumes "life.reach config e"
  shows "e_limits e = fc_limits config"
proof -
  obtain e0 levs where e0: "fabric_start config e0" and run: "life.run e0 levs e"
    using assms unfolding life.reach_def by blast
  have "e_limits e = e_limits e0" by (rule life_run_limits [OF run life.start_inv [OF e0]])
  also have "\<dots> = fc_limits config" by (rule reach_limits [OF fabric.reach_start [OF e0]])
  finally show ?thesis .
qed

text \<open>\<open>no_store_loaded\<close>: every load among the events finds no store that decodes.\<close>

definition no_store_loaded :: "limits \<Rightarrow> life_event list \<Rightarrow> bool" where
  "no_store_loaded lim levs \<longleftrightarrow> list_all (\<lambda>lev. loaded_store lim lev = None) levs"

lemma no_store_loaded_simps [simp]:
  "no_store_loaded lim []"
  "no_store_loaded lim (lev # levs) \<longleftrightarrow> loaded_store lim lev = None \<and> no_store_loaded lim levs"
  "no_store_loaded lim (levs @ levs') \<longleftrightarrow> no_store_loaded lim levs \<and> no_store_loaded lim levs'"
  "no_store_loaded lim (map Life_event evs)"
  by (simp_all add: no_store_loaded_def) (simp add: list_all_iff)

lemma quiet_run_operations:
  "life.run e levs e' \<Longrightarrow> engine_ok e \<Longrightarrow> no_store_loaded (e_limits e) levs \<Longrightarrow> \<exists>evs. fabric.run e evs e'"
proof (induction rule: life.run.induct)
  case (run_nil e)
  then show ?case using fabric.run_nil by blast
next
  case (run_cons e lev e1 levs e2)
  have e1: "engine_ok e1" "e_limits e1 = e_limits e"
    using life.step_inv life_step_limits run_cons.hyps(1) run_cons.prems(1) by metis+
  then obtain evs where evs: "fabric.run e1 evs e2" using run_cons.IH run_cons.prems(2) by auto
  show ?case
  proof (cases lev)
    case (Life_event ev)
    then have "fabric_step e ev e1"
      using run_cons.hyps(1) by (auto simp: life_enabled_def fabric_step_iff elim!: life_stepE)
    then show ?thesis using evs fabric.run_cons by blast
  next
    case (Life_load readable fs path)
    then have "e1 = e" using run_cons.hyps(1) run_cons.prems(2) load_nothing by (auto elim!: life_stepE)
    then show ?thesis using evs by blast
  qed
qed

lemma quiet_run_forward:
  assumes "life.run e levs e'" and "engine_ok e" and "no_store_loaded (e_limits e) levs"
  shows "engine_forward e e'"
  using quiet_run_operations [OF assms] fabric.run_leq [OF _ assms(2)] by blast

lemma quiet_run_authority:
  assumes "life.run e levs e'" and "engine_ok e" and "no_store_loaded (e_limits e) levs"
  shows "authority_transition\<^sup>*\<^sup>* (abs_authority e) (abs_authority e')"
  using quiet_run_operations [OF assms] authority.run_transitions [OF _ assms(2)] by blast

section \<open>The authority tables over the whole life\<close>

text \<open>
  The abstract machine with restarts: a load of a store makes the epoch the next after the stored one,
  admits nobody, and leaves exactly the stored fences. \<open>S\<close> are the epochs and fences of the stores.
\<close>

inductive authority_life ::
  "(coordinator_epoch \<times> worker_key set) set \<Rightarrow> authority_view \<Rightarrow> authority_view \<Rightarrow> bool"
  for S :: "(coordinator_epoch \<times> worker_key set) set" where
  al_operation: "authority_transition a a' \<Longrightarrow> authority_life S a a'"
| al_load: "(stored, fenced) \<in> S \<Longrightarrow> gen_next stored = Some n \<Longrightarrow>
    authority_life S a \<lparr>aa_epoch = n, aa_live = {}, aa_fenced = fenced\<rparr>"

definition stored_authority :: "decoded_store \<Rightarrow> coordinator_epoch \<times> worker_key set" where
  "stored_authority store = (ds_epoch store, fence_key ` set (ds_fences store))"

definition loaded_authorities :: "limits \<Rightarrow> life_event list \<Rightarrow> (coordinator_epoch \<times> worker_key set) set" where
  "loaded_authorities lim levs = stored_authority ` set (List.map_filter (loaded_store lim) levs)"

lemma loaded_authorities_iff:
  "x \<in> loaded_authorities lim levs \<longleftrightarrow>
     (\<exists>lev \<in> set levs. \<exists>store. loaded_store lim lev = Some store \<and> x = stored_authority store)"
  by (force simp: loaded_authorities_def map_filter_def)

lemma loaded_authorities_mono: "set levs \<subseteq> set levs' \<Longrightarrow> loaded_authorities lim levs \<subseteq> loaded_authorities lim levs'"
  unfolding subset_iff loaded_authorities_iff by blast

lemma authority_life_mono: "authority_life S a a' \<Longrightarrow> S \<subseteq> T \<Longrightarrow> authority_life T a a'"
  by (induction rule: authority_life.induct) (auto intro: authority_life.intros)

lemma authority_life_quiet: "authority_life {} a a' \<Longrightarrow> authority_transition a a'"
  by (auto elim: authority_life.cases)

lemma load_sets_authority: "abs_authority (snd (load_sets rs e)) = abs_authority e"
  by (induction rs arbitrary: e) (simp_all add: abs_authority_def)

lemma loaded_fences:
  "dom (om_find (e_fences (fold load_fence fs e))) = fence_key ` set fs \<union> dom (om_find (e_fences e))"
  by (auto simp: load_fences_eq om_find_fold_put dom_map_of_conv_image_fst image_comp)

lemma load_transition: "authority_life (loaded_authorities (e_limits e) [lev]) (abs_authority e) (abs_authority (carry_out lev e))"
proof (cases lev)
  case (Life_event ev)
  then show ?thesis by (simp add: al_operation perform_transition)
next
  case (Life_load readable fs path)
  let ?S = "loaded_authorities (e_limits e) [lev]"
  show ?thesis
  proof (cases "loaded_store (e_limits e) lev")
    case None
    then show ?thesis using Life_load load_nothing by (simp add: al_operation at_stutter)
  next
    case (Some store)
    obtain recovered where l: "load_store readable fs path e = load_decoded path store recovered e"
      using Some Life_load load_something by metis
    have S: "(ds_epoch store, fence_key ` set (ds_fences store)) \<in> ?S"
      using Some by (auto simp: loaded_authorities_iff stored_authority_def)
    show ?thesis
    proof (cases "gen_next (ds_epoch store) = None \<or> gen_next (ds_authority_generation store) = None")
      case True
      then show ?thesis using Life_load l load_exhausted by (simp add: al_operation at_stutter)
    next
      case False
      then obtain ep au where ep: "gen_next (ds_epoch store) = Some ep" "gen_next (ds_authority_generation store) = Some au"
        by auto
      have "dom (om_find (e_fences (fold load_fence (ds_fences store) (clear_for_load ep au e)))) =
          fence_key ` set (ds_fences store)"
        unfolding loaded_fences by (simp add: clear_for_load_def dom_def)
      then have "abs_authority (carry_out lev e) =
          \<lparr>aa_epoch = ep, aa_live = {}, aa_fenced = fence_key ` set (ds_fences store)\<rparr>"
        using Life_load l load_decoded_fields [OF ep]
        by (simp add: load_sets_authority) (simp add: abs_authority_def clear_and_fence_fields om_find_empty_fun)
      then show ?thesis using al_load [OF S ep(1)] by simp
    qed
  qed
qed

lemma life_run_authority:
  "life.run e levs e' \<Longrightarrow> engine_ok e \<Longrightarrow>
   (authority_life (loaded_authorities (e_limits e) levs))\<^sup>*\<^sup>* (abs_authority e) (abs_authority e')"
proof (induction rule: life.run.induct)
  case (run_cons e lev e1 levs e2)
  let ?S = "loaded_authorities (e_limits e) (lev # levs)"
  have e1: "engine_ok e1" "e_limits e1 = e_limits e"
    using life.step_inv life_step_limits run_cons.hyps(1) run_cons.prems(1) by metis+
  have "e1 = carry_out lev e" using run_cons.hyps(1) by (auto elim: life_stepE)
  then have step: "authority_life ?S (abs_authority e) (abs_authority e1)"
    using authority_life_mono [OF load_transition [of e lev] loaded_authorities_mono [of "[lev]" "lev # levs"]] by simp
  have "(authority_life (loaded_authorities (e_limits e) levs))\<^sup>*\<^sup>* (abs_authority e1) (abs_authority e2)"
    using run_cons.IH e1 by simp
  then have "(authority_life ?S)\<^sup>*\<^sup>* (abs_authority e1) (abs_authority e2)"
    by (rule rtranclp_mono [THEN predicate2D, rotated])
      (use authority_life_mono [OF _ loaded_authorities_mono [of levs "lev # levs"]] in auto)
  with step show ?case by (rule converse_rtranclp_into_rtranclp)
qed simp

text \<open>A worker stays fenced along a run if every store that the run loads holds its fence.\<close>

lemma authority_life_fenced:
  "(authority_life S)\<^sup>*\<^sup>* a a' \<Longrightarrow> k \<in> aa_fenced a \<Longrightarrow> \<forall>x \<in> S. k \<in> snd x \<Longrightarrow> k \<in> aa_fenced a'"
proof (induction rule: rtranclp_induct)
  case (step a1 a2)
  from step.hyps(2) show ?case
  proof (cases rule: authority_life.cases)
    case al_operation
    then show ?thesis using authority_transition_fenced step.IH step.prems by blast
  next
    case (al_load stored fenced n)
    then show ?thesis using step.prems(2) by auto
  qed
qed

definition loads_keep_fence :: "limits \<Rightarrow> life_event list \<Rightarrow> worker_key \<Rightarrow> bool" where
  "loads_keep_fence lim levs k \<longleftrightarrow>
     list_all (\<lambda>lev. case loaded_store lim lev of None \<Rightarrow> True | Some store \<Rightarrow> k \<in> fence_key ` set (ds_fences store)) levs"

lemma life_run_fenced:
  assumes "life.run e levs e'" and "engine_ok e" and "om_has (e_fences e) k" and "loads_keep_fence (e_limits e) levs k"
  shows "om_has (e_fences e') k"
proof -
  have "\<forall>x \<in> loaded_authorities (e_limits e) levs. k \<in> snd x"
    using assms(4) by (fastforce simp: loads_keep_fence_def list_all_iff loaded_authorities_iff stored_authority_def)
  moreover have "k \<in> aa_fenced (abs_authority e)" using assms(3) by (auto simp: abs_authority_def om_has_def)
  ultimately have "k \<in> aa_fenced (abs_authority e')"
    using authority_life_fenced [OF life_run_authority [OF assms(1,2)]] by blast
  then show ?thesis by (auto simp: abs_authority_def om_has_def)
qed

section \<open>Tickets\<close>

lemma quiet_stale_ticket:
  assumes "engine_ok e" and start: "begin_member_revalidation ctx sid mid attempt e = (b, e1)" and "rb_ticket b = Some tk"
    and run1: "life.run e1 levs em" and run2: "life.run em levs' e2" and quiet: "no_store_loaded (e_limits e1) (levs @ levs')"
    and "e_epoch em \<noteq> e_epoch e1 \<or>
      (\<exists>r r'. om_find (e_sets e1) sid = Some r \<and> om_find (e_sets em) sid = Some r' \<and> s_watermark r' \<noteq> s_watermark r)"
  shows "\<not> succeeded (fst (complete_member_revalidation ctx' tk view e2))"
proof -
  have ok1: "engine_ok e1" using begin_member_revalidation_ok [OF assms(1), of ctx sid mid attempt] start by simp
  obtain evs where "fabric.run e1 evs em" using quiet_run_operations [OF run1 ok1] quiet by auto
  moreover obtain evs' where "fabric.run em evs' e2"
    using quiet_run_operations [OF run2 life.run_inv [OF run1 ok1]] quiet life_run_limits [OF run1 ok1] by auto
  ultimately show ?thesis by (rule stale_ticket_refused [OF assms(1-3) _ _ assms(7)])
qed

end
