(* ===== verification/Worked_Example.thy ===== *)
theory Worked_Example
  imports Known_Deviations
begin

text \<open>
  A concrete history of the engine -- a publisher registers, creates a set and publishes it -- and what
  its states hold. The examples that accompany the properties are taken from it.
\<close>

section \<open>The parties\<close>

definition ex_config :: fabric_config where
  "ex_config = \<lparr>fc_limits = default_limits, fc_initial_epoch = gen_first, fc_initial_authority_generation = gen_first\<rparr>"

definition ex_publisher :: publisher_id where "ex_publisher = StrongId ''pub''"
definition ex_boot :: worker_boot_id where "ex_boot = StrongId ''boot1''"
definition ex_session :: session_id where "ex_session = StrongId ''s1''"
definition ex_key :: set_key where "ex_key = SetKey (StrongId ''fab'') (StrongId ''ns'') (StrongId ''web'')"
definition ex_sid :: set_id where "ex_sid = StrongId ''mpf-set-a1-1''"
definition ex_path :: path_id where "ex_path = StrongId ''path1''"

definition ex_scope :: authority_scope where
  "ex_scope = \<lparr>sc_fabric = StrongId ''fab'', sc_name_space = StrongId ''ns'', sc_set_ids = []\<rparr>"

definition ex_ctx :: "string \<Rightarrow> mutation_context" where
  "ex_ctx attempt =
     \<lparr>cx_epoch = gen_first, cx_publisher = ex_publisher, cx_worker_boot = ex_boot, cx_session = ex_session,
      cx_attempt = StrongId attempt, cx_expected_set_generation = None, cx_expected_member_generation = None\<rparr>"

definition ex_options :: set_options where
  "ex_options = \<lparr>so_minimum = 1, so_admin_enabled = True, so_conditional = False\<rparr>"

lemmas ex_party_defs = ex_publisher_def ex_boot_def ex_session_def ex_key_def ex_sid_def ex_path_def ex_scope_def
  ex_ctx_def ex_options_def

section \<open>The states\<close>

definition ex_start :: engine where
  "ex_start = engine_init ''a1'' ex_config"

definition ex_registered :: engine where
  "ex_registered = perform (Ev_register ex_publisher ex_boot ex_scope ex_session) ex_start"

definition ex_created :: engine where
  "ex_created = perform (Ev_create (ex_ctx ''a-1'') ex_key ex_options) ex_registered"

definition ex_published :: engine where
  "ex_published = perform (Ev_publish (ex_ctx ''a-2'') ex_sid) ex_created"

lemma ex_start_start: "fabric_start ex_config ex_start"
  unfolding fabric_start_def ex_start_def by (intro exI [of _ "''a1''"]) (simp add: factory_ok_def hex_char_def)

lemma ex_start_reach: "fabric.reach ex_config ex_start"
  by (rule fabric.reach_start [OF ex_start_start])

lemma fabric_perform: "event_enabled ev e \<Longrightarrow> fabric_step e ev (perform ev e)"
  by (rule perform_event)

lemma ex_registered_reach: "fabric.reach ex_config ex_registered"
  unfolding ex_registered_def
  by (rule fabric.reach_step [OF ex_start_reach fabric_perform]) (simp add: event_enabled_def)

definition ex_registration :: publisher_registration where
  "ex_registration = \<lparr>pr_publisher = ex_publisher, pr_worker_boot = ex_boot, pr_scope = ex_scope, pr_epoch = gen_first,
     pr_authority_generation = Generation 2, pr_session = ex_session\<rparr>"

lemma gen_next_first: "gen_next gen_first = Some (Generation 2)"
  by (simp add: gen_first_def gen_next_eq)

lemma om_filter_empty: "om_filter P om_empty = om_empty"
  by (rule omap_eqI) simp

lemma ex_registered_eq:
  "ex_registered = ex_start\<lparr>e_authority_generation := Generation 2,
     e_registrations := om_put (ex_publisher, ex_boot) ex_registration om_empty\<rparr>"
  by (simp add: ex_registered_def ex_start_def engine_init_def register_publisher_def register_request_check_def
      admit_registration_def drop_session_registrations_def Let_def ex_party_defs ex_config_def id_valid_def
      scope_well_formed_def default_limits_def gen_next_first ex_registration_def om_filter_empty)
lemma ex_start_fields [simp]:
  "e_limits ex_start = default_limits" "e_epoch ex_start = gen_first" "e_sets ex_start = om_empty"
  "e_key_index ex_start = om_empty" "e_fences ex_start = om_empty" "e_attempts ex_start = []"
  "e_attempt_index ex_start = om_empty" "e_snapshots ex_start = om_empty" "e_directory ex_start = om_empty"
  "\<not> e_external ex_start" "e_ids ex_start = \<lparr>f_prefix = ''mpf'', f_nonce = ''a1'', f_counter = 0\<rparr>"
  "e_path_dependents ex_start = om_empty" "e_total_members ex_start = 0" "e_registrations ex_start = om_empty"
  by (simp_all add: ex_start_def engine_init_def ex_config_def)

lemma ex_registered_fields [simp]:
  "e_limits ex_registered = default_limits" "e_epoch ex_registered = gen_first" "e_sets ex_registered = om_empty"
  "e_key_index ex_registered = om_empty" "e_fences ex_registered = om_empty" "e_attempts ex_registered = []"
  "e_attempt_index ex_registered = om_empty" "e_authority_generation ex_registered = Generation 2"
  "e_ids ex_registered = \<lparr>f_prefix = ''mpf'', f_nonce = ''a1'', f_counter = 0\<rparr>"
  "om_find (e_registrations ex_registered) (ex_publisher, ex_boot) = Some ex_registration"
  "e_path_dependents ex_registered = om_empty" "e_snapshots ex_registered = om_empty"
  "e_directory ex_registered = om_empty" "\<not> e_external ex_registered" "e_total_members ex_registered = 0"
  by (simp_all add: ex_registered_eq)

lemma ex_factory: "factory_ok \<lparr>f_prefix = ''mpf'', f_nonce = ''a1'', f_counter = 0\<rparr>"
  by (simp add: factory_ok_def hex_char_def)

lemma ex_draw: "next_set_id \<lparr>f_prefix = ''mpf'', f_nonce = ''a1'', f_counter = 0\<rparr> =
    (ex_sid, \<lparr>f_prefix = ''mpf'', f_nonce = ''a1'', f_counter = 1\<rparr>)"
proof -
  have "u64_string 1 = ''1''" by code_simp
  then show ?thesis by (simp add: next_set_id_eq [OF ex_factory] factory_compose_def ex_sid_def)
qed

lemma ex_authorised: "authority_check (ex_ctx a) (Some ex_key) None ex_registered = make_outcome OC_OK []" if "a \<noteq> []"
  using that
  by (simp add: authority_check_def ex_ctx_def worker_of_def ex_registration_def covers_namespace_def
      scope_well_formed_def Let_def ex_scope_def ex_key_def)
    (simp add: ex_party_defs id_valid_def)

lemma ex_options_fields [simp]: "so_minimum ex_options = 1" "so_admin_enabled ex_options" "\<not> so_conditional ex_options"
  by (simp_all add: ex_options_def)

definition ex_record :: set_record where
  "ex_record = (let r = new_set_record ex_sid ex_key ex_options ex_registered;
       r = r\<lparr>s_provenance := make_provenance (ex_ctx ''a-1'') CA_DECLARED r\<rparr>
     in append_history default_limits gen_first SE_DECLARE CA_DECLARED (Some (ex_ctx ''a-1'')) None None
          (msg (''declared set '' @ key_render ex_key @ '' minimum='' @ nat_string (so_minimum ex_options))) r)"

lemma ex_record_fields [simp]:
  "s_id ex_record = ex_sid" "s_key ex_record = ex_key" "s_generation ex_record = gen_first"
  "s_lifecycle ex_record = SL_DECLARED" "s_currentness ex_record = SC_CURRENT" "s_admin_enabled ex_record"
  "s_minimum ex_record = 1" "s_members ex_record = om_empty" "s_usable ex_record = 0"
  "\<not> s_conditional ex_record" "s_member_index ex_record = om_empty"
  by (simp_all add: ex_record_def new_set_record_def Let_def)

definition ex_create_fields :: "string list" where
  "ex_create_fields = [''create_set'', key_render ex_key, nat_string 1, bool_field True, bool_field False]"

definition ex_create_outcome :: fabric_outcome where
  "ex_create_outcome = finalize_outcome ex_record (make_outcome OC_CREATED (msg (''created set '' @ key_render ex_key)))"

lemma ex_create:
  "create_set (ex_ctx ''a-1'') ex_key ex_options ex_registered =
     (ex_create_outcome, record_attempt (ex_ctx ''a-1'') ''create_set'' ex_create_fields ex_create_outcome
       (capture_snapshot ex_record (put_set ex_record
         (ex_registered\<lparr>e_ids := \<lparr>f_prefix = ''mpf'', f_nonce = ''a1'', f_counter = 1\<rparr>,
            e_key_index := om_put ex_key ex_sid om_empty\<rparr>))))"
proof -
  have v: "key_valid ex_key" by (simp add: ex_key_def key_valid_def id_valid_def)
  show ?thesis
    unfolding create_set_def Let_def
    by (simp add: v ex_authorised succeeded_def outcome_is_success_def attempt_check_def default_limits_def ex_draw
        ex_create_fields_def ex_create_outcome_def ex_record_def Let_def)
qed
lemma ex_created_eq:
  "ex_created = snd (create_set (ex_ctx ''a-1'') ex_key ex_options ex_registered)"
  by (simp add: ex_created_def)

lemma ex_created_fields [simp]:
  "e_limits ex_created = default_limits" "e_epoch ex_created = gen_first"
  "e_sets ex_created = om_put ex_sid ex_record om_empty" "e_fences ex_created = om_empty"
  "om_find (e_registrations ex_created) (ex_publisher, ex_boot) = Some ex_registration"
  "e_path_dependents ex_created = om_empty" "e_authority_generation ex_created = Generation 2"
  "e_total_members ex_created = 0" "e_directory ex_created = om_empty" "\<not> e_external ex_created"
  "e_key_index ex_created = om_put ex_key ex_sid om_empty"
  by (simp_all add: ex_created_eq ex_create put_set_def)

lemma ex_created_attempts [simp]:
  "map at_attempt (e_attempts ex_created) = [StrongId ''a-1'']"
  "om_find (e_attempt_index ex_created) (StrongId ''a-2'') = None"
  by (simp_all add: ex_created_eq ex_create record_attempt_def Let_def default_limits_def)
    (simp_all add: ex_ctx_def)

lemma ex_created_reach: "fabric.reach ex_config ex_created"
  unfolding ex_created_def
  by (rule fabric.reach_step [OF ex_registered_reach fabric_perform])
    (simp add: event_enabled_def counter_room_def unsigned_minus_1_eq_mask mask_eq_exp_minus_1)

lemma ex_created_authorised: "authority_check (ex_ctx a) None (Some ex_sid) ex_created = make_outcome OC_OK []" if "a \<noteq> []"
  using that
  by (simp add: authority_check_def ex_ctx_def worker_of_def ex_registration_def Let_def)
    (simp add: ex_party_defs id_valid_def covers_def covers_namespace_def scope_well_formed_def)

lemma ex_admit: "admit (ex_ctx ''a-2'') ex_sid operation flds ex_created = Inr ex_record"
  by (simp add: admit_def ex_created_authorised succeeded_def outcome_is_success_def attempt_check_def Let_def)
    (simp add: ex_ctx_def require_set_def)
lemma ex_transition:
  "apply_transition ex_record SE_PUBLISH = Inr (ex_record\<lparr>s_usable := 0, s_lifecycle := SL_EXHAUSTED\<rparr>)"
  by (simp add: apply_transition_def Let_def recompute_usable_members_def derive_published_lifecycle_def)

definition ex_published_outcome :: fabric_outcome where
  "ex_published_outcome = fst (publish_set (ex_ctx ''a-2'') ex_sid ex_created)"

lemma ex_publish:
  "o_code ex_published_outcome = OC_SET_PUBLISHED"
  "respond (Ev_publish (ex_ctx ''a-2'') ex_sid) ex_created = Some (ex_published_outcome, ex_published)"
proof -
  show "respond (Ev_publish (ex_ctx ''a-2'') ex_sid) ex_created = Some (ex_published_outcome, ex_published)"
    by (simp add: ex_published_outcome_def ex_published_def)
  have "id_valid ex_sid" by (simp add: ex_sid_def id_valid_def)
  moreover have "expected_set_generation_matches (ex_ctx a) r" for a r
    by (simp add: expected_set_generation_matches_def ex_ctx_def)
  moreover have "set_generation_available (ex_record\<lparr>s_usable := u, s_lifecycle := l\<rparr>)" for u l
    by (simp add: set_generation_available_def gen_next_first)
  moreover have "set_generation_available ex_record" by (simp add: set_generation_available_def gen_next_first)
  ultimately show "o_code ex_published_outcome = OC_SET_PUBLISHED"
    by (simp add: ex_published_outcome_def publish_set_def Let_def ex_admit ex_transition)
      (subst commit_succeeds; simp)
qed

lemma ex_published_reach: "fabric.reach ex_config ex_published"
  unfolding ex_published_def
  by (rule fabric.reach_step [OF ex_created_reach fabric_perform]) (simp add: event_enabled_def)

lemmas ex_created_ok = fabric.reach_inv [OF ex_created_reach]
lemmas ex_published_ok = fabric.reach_inv [OF ex_published_reach]
lemmas ex_registered_ok = fabric.reach_inv [OF ex_registered_reach]

lemma ex_fresh: "fresh_attempt (ex_ctx ''a-2'') ex_created"
proof -
  have "at_attempt a = StrongId ''a-1''" if "a \<in> set (e_attempts ex_created)" for a
    using imageI [OF that, of at_attempt] ex_created_attempts(1) by (metis list.set(1,2) list.set_map singletonD)
  then show ?thesis by (auto simp: fresh_attempt_def ex_ctx_def)
qed
section \<open>A member joins\<close>

definition ex_request :: member_request where
  "ex_request = \<lparr>mr_path_id = ex_path, mr_generation = gen_first\<rparr>"

definition ex_view :: path_authority_view where
  "ex_view = \<lparr>v_path = ex_path, v_generation = gen_first, v_state = PA_AUTHORIZED\<rparr>"

definition ex_join :: fabric_event where
  "ex_join = Ev_add_members (ex_ctx ''a-2'') ex_sid [ex_request] ''add_member'' False [Some ex_view]"

definition ex_joined :: engine where
  "ex_joined = perform ex_join ex_created"

lemma ex_request_current: "classify_path_authority (Some ex_view) (mr_generation ex_request) cond = MC_CURRENT"
  by (simp add: classify_current_iff ex_view_def ex_request_def)

lemma ex_join_reached:
  "\<exists>o1. add_members_locked (ex_ctx ''a-2'') ex_sid [ex_request] ''add_member'' False [Some ex_view] ex_created =
     ((o1, ex_joined), True) \<and> succeeded o1"
proof -
  have t: "apply_transition ex_record SE_MEMBER_ADDED = Inr ex_record"
  proof -
    have "set_transition SL_DECLARED SE_MEMBER_ADDED = SA_STAY" by code_simp
    then show ?thesis by (simp add: apply_transition_def)
  qed
  then have allowed: "transition_allowed SL_DECLARED SE_MEMBER_ADDED"
    using apply_transition_allowed [OF t] by simp
  have avail: "set_generation_available ex_record" "membership_generation_available ex_record"
    by (simp_all add: set_generation_available_def membership_generation_available_def gen_next_first
        ex_record_def new_set_record_def Let_def)
  have e: "expected_set_generation_matches (ex_ctx a) r" for a r
    by (simp add: expected_set_generation_matches_def ex_ctx_def)
  have p: "add_members_locked (ex_ctx ''a-2'') ex_sid [ex_request] ''add_member'' False [Some ex_view] ex_created =
      (publish_members (ex_ctx ''a-2'') ex_sid [ex_request] ''add_member'' False [Some ex_view] SL_DECLARED 1 ex_record ex_created, True)"
    by (simp add: add_members_locked_def ex_admit allowed e stale_request_def ex_request_current default_limits_def
        full_dependency_def dependency_full_def live_member_count_def avail t)
  have "succeeded (fst (publish_members (ex_ctx ''a-2'') ex_sid [ex_request] ''add_member'' False [Some ex_view] SL_DECLARED 1 ex_record ex_created))"
    unfolding publish_members_def Let_def case_prod_unfold succeeded_def
    using publish_fold_available [of "ex_ctx ''a-2''" "zip [ex_request] [Some ex_view]" "([], ex_record, ex_created)"] avail
    by (subst commit_succeeds) (simp_all add: outcome_is_success_def)
  then show ?thesis
    by (intro exI [of _ "fst (publish_members (ex_ctx ''a-2'') ex_sid [ex_request] ''add_member'' False [Some ex_view] SL_DECLARED 1 ex_record ex_created)"])
      (simp add: p ex_joined_def ex_join_def)
qed

lemma ex_joined_reach: "fabric.reach ex_config ex_joined"
  unfolding ex_joined_def ex_join_def
  by (rule fabric.reach_step [OF ex_created_reach fabric_perform])
    (simp add: event_enabled_def counter_room_def ex_created_eq ex_create unsigned_minus_1_eq_mask mask_eq_exp_minus_1)

lemma ex_joined_member:
  obtains r m where "om_find (e_sets ex_joined) ex_sid = Some r" "om_find (s_members r) ex_path = Some m"
    "granted ex_request m"
proof -
  obtain o1 where o1: "add_members_locked (ex_ctx ''a-2'') ex_sid [ex_request] ''add_member'' False [Some ex_view] ex_created =
     ((o1, ex_joined), True)" "succeeded o1" using ex_join_reached by blast
  show thesis
    using add_members_stored [OF o1 ex_created_ok] that by (auto simp: ex_request_def)
qed

end
