(* ===== verification/Writer_Room.thy ===== *)
theory Writer_Room
  imports Field_Codecs
begin

text \<open>
  When an encoder does not overflow. \<open>needs f k\<close>: the step \<open>f\<close> succeeds on every good writer with room
  for \<open>k\<close> more bytes, and uses no more than that. The rules add up the sizes of the fields.
\<close>

named_theorems needs_intros

definition fits :: "byte_writer \<Rightarrow> nat \<Rightarrow> bool" where
  "fits w n \<longleftrightarrow> bw_ok w \<and> length (bw_buffer w) + n \<le> bw_limit w"

definition needs :: "(byte_writer \<Rightarrow> byte_writer) \<Rightarrow> nat \<Rightarrow> bool" where
  "needs f k \<longleftrightarrow> (\<forall>w n. fits w (k + n) \<longrightarrow> fits (f w) n \<and> bw_limit (f w) = bw_limit w)"

lemma fits_new [simp]: "fits (new_writer limit) n \<longleftrightarrow> n \<le> limit"
  by (simp add: fits_def new_writer_def)

lemma needsD:
  assumes "needs f k" and "k \<le> limit"
  shows "bw_ok (f (new_writer limit))" and "length (bw_buffer (f (new_writer limit))) \<le> limit"
proof -
  have "fits (f (new_writer limit)) 0 \<and> bw_limit (f (new_writer limit)) = limit"
    using assms unfolding needs_def by (metis add.right_neutral fits_new new_writer_def byte_writer.select_convs(2))
  then show "bw_ok (f (new_writer limit))" "length (bw_buffer (f (new_writer limit))) \<le> limit"
    by (simp_all add: fits_def)
qed

lemma needs_mono: "needs f k \<Longrightarrow> k \<le> m \<Longrightarrow> needs f m"
  unfolding needs_def fits_def by (meson add_le_mono1 nat_add_left_cancel_le order_trans)

lemma needs_raw: "needs (bw_raw bs) (length bs)"
  by (auto simp: needs_def fits_def bw_raw_eq)

lemma needs_u8: "needs (bw_u8 v) 1"
  unfolding bw_u8_def using needs_raw [of "[v]"] by simp

lemma needs_u16: "needs (bw_u16 v) 2"
  unfolding bw_u16_def using needs_raw [of "le_bytes 2 v"] by simp

lemma needs_u32: "needs (bw_u32 v) 4"
  unfolding bw_u32_def using needs_raw [of "le_bytes 4 v"] by simp

lemma needs_u64: "needs (bw_u64 v) 8"
  unfolding bw_u64_def using needs_raw [of "le_bytes 8 v"] by simp

lemma needs_string:
  assumes "length s \<le> bound" "length s < 2 ^ 32"
  shows "needs (bw_string bound s) (4 + length s)"
proof -
  have narrow: "narrow_u32 (of_nat (length s)) = Some (of_nat (length s))"
    using assms(2) by (simp only: narrow_u32_Some) (simp add: unsigned_of_nat take_bit_nat_eq_self)
  have "fits (bw_string bound s w) n \<and> bw_limit (bw_string bound s w) = bw_limit w" if "fits w (4 + length s + n)" for w n
  proof -
    have "fits (bw_u32 (of_nat (length s)) w) (length s + n) \<and>
        bw_limit (bw_u32 (of_nat (length s)) w) = bw_limit w"
      using needs_u32 that unfolding needs_def by (metis add.assoc)
    then have "fits (bw_raw (string_bytes s) (bw_u32 (of_nat (length s)) w)) n \<and>
        bw_limit (bw_raw (string_bytes s) (bw_u32 (of_nat (length s)) w)) = bw_limit w"
      using needs_raw [of "string_bytes s"] unfolding needs_def length_string_bytes by metis
    then show ?thesis using assms narrow by (simp add: bw_string_def)
  qed
  then show ?thesis by (simp add: needs_def)
qed

section \<open>Sequences, from the room that is left\<close>

lemma needs_none [needs_intros]: "needs (bw_all []) m"
  by (simp add: needs_def bw_all_nil fits_def)

lemma needs_step:
  assumes "needs f k" and "k \<le> m" and "needs (bw_all fs) (m - k)"
  shows "needs (bw_all (f # fs)) m"
  unfolding needs_def bw_all_cons
proof (intro allI impI)
  fix w n assume "fits w (m + n)"
  then have "fits w (k + (m - k + n))" using assms(2) by simp
  then have "fits (f w) (m - k + n) \<and> bw_limit (f w) = bw_limit w"
    using assms(1) unfolding needs_def by blast
  then show "fits (bw_all fs (f w)) n \<and> bw_limit (bw_all fs (f w)) = bw_limit w"
    using assms(3) unfolding needs_def by metis
qed

lemma needs_u8_then [needs_intros]: "1 \<le> m \<Longrightarrow> needs (bw_all fs) (m - 1) \<Longrightarrow> needs (bw_all (bw_u8 v # fs)) m"
  by (rule needs_step [OF needs_u8])

lemma needs_boolean_then [needs_intros]:
  "1 \<le> m \<Longrightarrow> needs (bw_all fs) (m - 1) \<Longrightarrow> needs (bw_all (bw_boolean v # fs)) m"
  unfolding bw_boolean_def by (rule needs_step [OF needs_u8])

lemma needs_u16_then [needs_intros]: "2 \<le> m \<Longrightarrow> needs (bw_all fs) (m - 2) \<Longrightarrow> needs (bw_all (bw_u16 v # fs)) m"
  by (rule needs_step [OF needs_u16])

lemma needs_u32_then [needs_intros]: "4 \<le> m \<Longrightarrow> needs (bw_all fs) (m - 4) \<Longrightarrow> needs (bw_all (bw_u32 v # fs)) m"
  by (rule needs_step [OF needs_u32])

lemma needs_u64_then [needs_intros]: "8 \<le> m \<Longrightarrow> needs (bw_all fs) (m - 8) \<Longrightarrow> needs (bw_all (bw_u64 v # fs)) m"
  by (rule needs_step [OF needs_u64])

lemma needs_string_then [needs_intros]:
  "length s \<le> bound \<Longrightarrow> length s < 2 ^ 32 \<Longrightarrow> 4 + length s \<le> m \<Longrightarrow> needs (bw_all fs) (m - (4 + length s)) \<Longrightarrow>
   needs (bw_all (bw_string bound s # fs)) m"
  by (rule needs_step [OF needs_string])

lemma needs_id_then [needs_intros]:
  "length (id_text i) \<le> 128 \<Longrightarrow> 4 + length (id_text i) \<le> m \<Longrightarrow> needs (bw_all fs) (m - (4 + length (id_text i))) \<Longrightarrow>
   needs (bw_all (bw_id i # fs)) m"
  unfolding bw_id_def max_id_length_def by (rule needs_step [OF needs_string]) simp_all

lemma needs_opt_none_then [needs_intros]:
  "1 \<le> m \<Longrightarrow> needs (bw_all fs) (m - 1) \<Longrightarrow> needs (bw_all (write_opt_id None # fs)) m"
proof (rule needs_step)
  show "needs (write_opt_id None) 1"
    unfolding write_opt_id_def using needs_u8 [of 0] by (simp add: bw_all_single)
qed

lemma needs_each_nil_then [needs_intros]: "needs (bw_all fs) m \<Longrightarrow> needs (bw_all (bw_each f [] # fs)) m"
  by (rule needs_step [where k = 0]) (simp_all add: bw_each_Nil needs_none)

lemma needs_each_cons_then [needs_intros]:
  "needs (bw_all (f x # bw_each f xs # fs)) m \<Longrightarrow> needs (bw_all (bw_each f (x # xs) # fs)) m"
  by (simp add: bw_each_Cons bw_all_cons bw_all_nil)

end
