(* ===== verification/Decoder_Post.thy ===== *)
theory Decoder_Post
  imports Field_Codecs
begin

text \<open>
  Postconditions of decoders. \<open>ensures p P\<close>: whatever the bytes are, a value that \<open>p\<close> accepts
  satisfies \<open>P\<close>. One rule per combinator; the rule of a parsed field hands on that the text or number
  was in the domain of its parser.
\<close>

named_theorems ensures_intros

definition ensures :: "('e, 'a) decoder \<Rightarrow> ('a \<Rightarrow> bool) \<Rightarrow> bool" where
  "ensures p P \<longleftrightarrow> (\<forall>r v r'. p r = Inr (v, r') \<longrightarrow> P v)"

lemma ensuresI: "(\<And>r v r'. p r = Inr (v, r') \<Longrightarrow> P v) \<Longrightarrow> ensures p P"
  unfolding ensures_def by blast

lemma ensuresD: "ensures p P \<Longrightarrow> p r = Inr (v, r') \<Longrightarrow> P v"
  unfolding ensures_def by blast

lemma ensures_mono: "ensures p P \<Longrightarrow> (\<And>v. P v \<Longrightarrow> Q v) \<Longrightarrow> ensures p Q"
  unfolding ensures_def by blast

lemma ensures_return [ensures_intros]: "P v \<Longrightarrow> ensures (dc_return v) P"
  by (rule ensuresI) (simp add: dc_return_def)

lemma ensures_reject [ensures_intros]: "ensures (dc_reject e) P"
  by (rule ensuresI) (simp add: dc_reject_def)

lemma ensures_then_post:
  assumes "ensures p Q" and "\<And>v. Q v \<Longrightarrow> ensures (q v) P"
  shows "ensures (dc_then p q) P"
proof (rule ensuresI)
  fix r w r'' assume "dc_then p q r = Inr (w, r'')"
  then obtain v r' where "p r = Inr (v, r')" "q v r' = Inr (w, r'')"
    by (auto simp: dc_then_def split: sum.splits)
  then show "P w" using assms ensuresD by metis
qed

lemma ensures_field [ensures_intros]: "(\<And>v. ensures (q v) P) \<Longrightarrow> ensures (dc_then (dc_field e rd) q) P"
  by (rule ensures_then_post [where Q = "\<lambda>_. True"]) (auto simp: ensures_def)

lemma ensures_as: "ensures p P \<Longrightarrow> ensures (dc_as e p) P"
  by (rule ensuresI) (auto simp: dc_as_def split: sum.splits dest: ensuresD)

lemma ensures_optional_id [ensures_intros]:
  "(\<And>v. ensures (q v) P) \<Longrightarrow> ensures (dc_then (dc_as e read_optional_id) q) P"
  by (rule ensures_then_post [where Q = "\<lambda>_. True"]) (auto simp: ensures_def)

lemma ensures_some [ensures_intros]:
  "(\<And>x. v = Some x \<Longrightarrow> ensures (q x) P) \<Longrightarrow> ensures (dc_some e v q) P"
  by (cases v) (simp_all add: ensures_reject)

lemma ensures_check [ensures_intros]: "(b \<Longrightarrow> ensures p P) \<Longrightarrow> ensures (dc_check e b p) P"
  by (cases b) (simp_all add: ensures_reject)

lemma ensures_if [ensures_intros]:
  "(b \<Longrightarrow> ensures p P) \<Longrightarrow> (\<not> b \<Longrightarrow> ensures q P) \<Longrightarrow> ensures (if b then p else q) P"
  by simp

lemma ensures_loop:
  assumes "I 0 s" and "\<And>k s. k < n \<Longrightarrow> I k s \<Longrightarrow> ensures (body s) (I (Suc k))"
  shows "ensures (dc_loop n body s) (I n)"
  using assms
proof (induction n arbitrary: s I)
  case 0
  then show ?case by (simp add: ensures_return)
next
  case (Suc n)
  have "ensures (dc_loop n body s') (I (Suc n))" if "I (Suc 0) s'" for s'
    using Suc.IH [of "\<lambda>k. I (Suc k)" s'] that Suc.prems(2) by simp
  moreover have "ensures (body s) (I (Suc 0))" using Suc.prems by simp
  ultimately show ?case by (simp add: ensures_then_post [where Q = "I (Suc 0)"])
qed

lemma ensures_list:
  assumes "ensures item P"
  shows "ensures (dc_list n item) (\<lambda>xs. length xs = n \<and> list_all P xs)"
  unfolding dc_list_def
  by (rule ensures_loop [where I = "\<lambda>k xs. length xs = k \<and> list_all P xs"])
    (auto intro!: ensures_then_post [OF assms] ensures_return)

section \<open>What a parser accepted\<close>

lemma parsed_known:
  "parse_set_id t = Some i1 \<Longrightarrow> known_id 96 i1"
  "parse_member_id t = Some i2 \<Longrightarrow> known_id 128 i2"
  "parse_path_id t = Some i3 \<Longrightarrow> known_id 128 i3"
  "parse_snapshot_id t = Some i4 \<Longrightarrow> known_id 96 i4"
  "parse_publisher_id t = Some i5 \<Longrightarrow> known_id 64 i5"
  "parse_worker_boot_id t = Some i6 \<Longrightarrow> known_id 64 i6"
  "parse_attempt_id t = Some i7 \<Longrightarrow> known_id 64 i7"
  "parse_session_id t = Some i8 \<Longrightarrow> known_id 64 i8"
  "parse_fabric_id t = Some i9 \<Longrightarrow> known_id 64 i9"
  "parse_namespace_id t = Some i10 \<Longrightarrow> known_id 64 i10"
  "parse_set_name t = Some i11 \<Longrightarrow> known_id 64 i11"
  by (auto simp: known_id_def parse_strong_id_Some_iff parse_set_id_def parse_member_id_def parse_path_id_def
      parse_snapshot_id_def parse_publisher_id_def parse_worker_boot_id_def parse_attempt_id_def
      parse_session_id_def parse_fabric_id_def parse_namespace_id_def parse_set_name_def)

lemma ensures_optional_set [ensures_intros]:
  "(\<And>v. pred_option (known_id 96) v \<Longrightarrow> ensures (q v) P) \<Longrightarrow> ensures (dc_opt_text e parse_set_id t q) P"
  by (auto simp: dc_opt_text_def parsed_known intro!: ensures_some)

lemma ensures_optional_member [ensures_intros]:
  "(\<And>v. pred_option (known_id 128) v \<Longrightarrow> ensures (q v) P) \<Longrightarrow> ensures (dc_opt_text e parse_member_id t q) P"
  by (auto simp: dc_opt_text_def parsed_known intro!: ensures_some)

lemma ensures_optional_publisher [ensures_intros]:
  "(\<And>v. pred_option (known_id 64) v \<Longrightarrow> ensures (q v) P) \<Longrightarrow> ensures (dc_opt_text e parse_publisher_id t q) P"
  by (auto simp: dc_opt_text_def parsed_known intro!: ensures_some)

lemma ensures_optional_worker_boot [ensures_intros]:
  "(\<And>v. pred_option (known_id 64) v \<Longrightarrow> ensures (q v) P) \<Longrightarrow> ensures (dc_opt_text e parse_worker_boot_id t q) P"
  by (auto simp: dc_opt_text_def parsed_known intro!: ensures_some)

lemma ensures_optional_attempt [ensures_intros]:
  "(\<And>v. pred_option (known_id 64) v \<Longrightarrow> ensures (q v) P) \<Longrightarrow> ensures (dc_opt_text e parse_attempt_id t q) P"
  by (auto simp: dc_opt_text_def parsed_known intro!: ensures_some)

lemma ensures_optional_fabric [ensures_intros]:
  "(\<And>v. pred_option (known_id 64) v \<Longrightarrow> ensures (q v) P) \<Longrightarrow> ensures (dc_opt_text e parse_fabric_id t q) P"
  by (auto simp: dc_opt_text_def parsed_known intro!: ensures_some)

lemma ensures_optional_namespace [ensures_intros]:
  "(\<And>v. pred_option (known_id 64) v \<Longrightarrow> ensures (q v) P) \<Longrightarrow> ensures (dc_opt_text e parse_namespace_id t q) P"
  by (auto simp: dc_opt_text_def parsed_known intro!: ensures_some)

lemma parsed_generation: "gen_from_value v = Some g \<Longrightarrow> gen_valid g"
  by (auto simp: gen_from_value_def gen_valid_def split: if_splits)

end
