(* ===== verification/Store_Types.thy ===== *)
theory Store_Types
  imports Store_Facts Decoder_Post
begin

text \<open>
  A store file is untrusted input: the checksum is no authenticator. What \<open>decode_store\<close> accepts is
  exactly what \<open>storable\<close> describes, whatever the bytes are -- every identity is in its grammar,
  every generation is possible, the indexes agree, the bounds hold, the derived count is right.
\<close>

lemma ensures_provenance: "ensures read_provenance storable_provenance"
  unfolding read_provenance_def
  by (intro ensures_intros) (simp add: storable_provenance_def parsed_known parsed_generation)

lemma ensures_fence: "ensures read_store_fence storable_fence"
  unfolding read_store_fence_def Let_def
  by (intro ensures_intros) (simp add: storable_fence_def parsed_known parsed_generation)

lemma ensures_revocation: "ensures (read_store_revocation sid) (pred_option storable_revocation)"
  unfolding read_store_revocation_def Let_def
  by (intro ensures_intros) (simp_all add: storable_revocation_def parsed_known parsed_generation)

lemma ensures_observation: "ensures read_store_observation (pred_option (\<lambda>x. gen_valid (fst x)))"
  unfolding read_store_observation_def Let_def
  by (intro ensures_intros) (simp_all add: parsed_generation)

lemma ensures_member: "ensures (read_store_member lim) (storable_member lim)"
  unfolding read_store_member_def Let_def
  by (intro ensures_intros ensures_then_post [OF ensures_observation]
      ensures_then_post [OF ensures_as [OF ensures_provenance]])
    (auto simp: storable_member_def parsed_known parsed_generation stored_observation_def not_less
      split: option.splits)

lemma ensures_head: "ensures (read_store_set_head lim)
   (\<lambda>r. storable_head lim r \<and> s_members r = om_empty \<and> s_member_index r = om_empty)"
  unfolding read_store_set_head_def Let_def
  by (intro ensures_intros ensures_then_post [OF ensures_revocation]
      ensures_then_post [OF ensures_as [OF ensures_provenance]])
    (simp add: storable_head_def parsed_known parsed_generation not_less unat_u64_lt [simplified])

section \<open>The member loop\<close>

lemma om_count_insert:
  assumes "om_find t k = None"
  shows "om_count P (om_put k v t) = (if P v then Suc (om_count P t) else om_count P t)"
proof -
  let ?S = "{j. \<exists>w. om_find t j = Some w \<and> P w}"
  have "finite ?S" by (rule finite_subset [OF _ finite_dom_om_find [of t]]) auto
  moreover have "{j. \<exists>w. om_find (om_put k v t) j = Some w \<and> P w} = (if P v then insert k ?S else ?S)"
    using assms by (auto split: if_splits)
  ultimately show ?thesis using assms by (auto simp: om_count_card card_insert_if)
qed

text \<open>What holds after \<open>k\<close> rounds.\<close>

definition members_read :: "limits \<Rightarrow> nat \<Rightarrow> set_record \<times> nat \<Rightarrow> bool" where
  "members_read lim k acc \<longleftrightarrow>
     storable_head lim (fst acc) \<and> tables_ok (fst acc) \<and>
     (\<forall>p m. om_find (s_members (fst acc)) p = Some m \<longrightarrow> storable_member lim m) \<and>
     om_size (s_members (fst acc)) = k \<and> snd acc = live_member_count (fst acc)"

lemma storable_head_upd [simp]:
  "storable_head lim (r\<lparr>s_member_index := x, s_members := y\<rparr>) = storable_head lim r"
  "storable_head lim (r\<lparr>s_usable := u\<rparr>) = storable_head lim r"
  by (simp_all add: storable_head_def)

lemma ensures_member_into:
  assumes acc: "members_read lim k acc"
  shows "ensures (read_store_member_into lim acc) (members_read lim (Suc k))"
  unfolding read_store_member_into_def Let_def
proof (intro ensures_then_post [OF ensures_member] ensures_intros)
  fix m assume m: "storable_member lim m"
    and path: "\<not> om_has (s_members (fst acc)) (m_path_id m)"
    and i: "\<not> om_has (s_member_index (fst acc)) (m_id m)"
  let ?r = "(fst acc)\<lparr>s_member_index := om_put (m_id m) (m_path_id m) (s_member_index (fst acc)),
    s_members := om_put (m_path_id m) m (s_members (fst acc))\<rparr>"
  have fresh: "om_find (s_members (fst acc)) (m_path_id m) = None" "om_find (s_member_index (fst acc)) (m_id m) = None"
    using path i by (simp_all add: om_has_def)
  have "tables_ok ?r"
    using acc fresh index_ok_insert_fresh [of m_id "om_find (s_members (fst acc))" "om_find (s_member_index (fst acc))"
        "m_path_id m" m]
    by (simp add: members_read_def tables_ok_def)
  moreover have "live_member_count ?r =
      (if \<not> member_is_terminal m then Suc (live_member_count (fst acc)) else live_member_count (fst acc))"
    by (simp add: live_member_count_def om_count_insert [OF fresh(1)])
  ultimately show "members_read lim (Suc k) (?r,
      if m_lifecycle m \<noteq> ML_WITHDRAWN \<and> m_lifecycle m \<noteq> ML_SUPERSEDED \<and> m_lifecycle m \<noteq> ML_RETIRED
      then snd acc + 1 else snd acc)"
    using acc m fresh by (auto simp: members_read_def om_size_put member_is_terminal_def)
qed

text \<open>After the sets \<open>fst acc\<close>, with \<open>snd acc\<close> relations in total.\<close>

definition sets_read :: "limits \<Rightarrow> nat \<Rightarrow> set_record list \<times> u64 \<Rightarrow> bool" where
  "sets_read lim k acc \<longleftrightarrow>
     length (fst acc) = k \<and> list_all (storable_set lim) (fst acc) \<and>
     list_all (\<lambda>r. s_usable r = recompute_usable_members r) (fst acc) \<and>
     unat (snd acc) = stored_member_total (fst acc) \<and>
     (fst acc \<noteq> [] \<longrightarrow> stored_member_total (fst acc) \<le> max_total_members lim)"

lemma ensures_set:
  assumes acc: "sets_read lim k acc"
  shows "ensures (read_store_set lim acc) (sets_read lim (Suc k))"
  unfolding read_store_set_def Let_def
proof (intro ensures_then_post [OF ensures_head] ensures_intros, elim conjE)
  fix head n sum
  assume head: "storable_head lim head" "s_members head = om_empty" "s_member_index head = om_empty"
    and n: "\<not> (max_members_per_set lim + max_archived_members_per_set lim + 1) mod 2 ^ 64 < unat (n :: u32)"
    and sum: "checked_add (snd acc) (ucast n) = Some sum" "\<not> max_total_members lim < unat sum"
  have start: "members_read lim 0 (head, 0)"
    using head by (simp add: members_read_def tables_ok_def index_ok_def live_member_count_def)
  have unsum: "unat sum = unat (snd acc) + unat n"
    using checked_add_Some [OF sum(1)] unat_u32_lt [of n]
    by (simp add: unsigned_ucast_eq take_bit_nat_eq_self)
  show "ensures
      (dc_then (dc_loop (unat n) (read_store_member_into lim) (head, 0)) (\<lambda>loaded.
        dc_check
          (corrupt (''store set '' @ id_text (s_id (fst loaded)) @ '' declares '' @ nat_string (snd loaded) @
                    '' live membership relations which exceeds max_members_per_set '' @
                    nat_string (max_members_per_set lim)))
          (\<not> max_members_per_set lim < snd loaded)
          (dc_return (fst acc @ [fst loaded\<lparr>s_usable := recompute_usable_members (fst loaded)\<rparr>], sum))))
      (sets_read lim (Suc k))"
  proof (rule ensures_then_post [OF ensures_loop [where I = "members_read lim", OF start ensures_member_into]],
      assumption, intro ensures_intros)
    fix loaded assume r: "members_read lim (unat n) loaded" and live: "\<not> max_members_per_set lim < snd loaded"
    have "unat n < 2 ^ 32" by (rule unat_u32_lt)
    then have "storable_set lim ((fst loaded)\<lparr>s_usable := recompute_usable_members (fst loaded)\<rparr>)"
      using r live n
      by (auto simp: storable_set_def members_read_def list_all_iff set_om_values live_member_count_def tables_ok_def)
    then show "sets_read lim (Suc k)
        (fst acc @ [fst loaded\<lparr>s_usable := recompute_usable_members (fst loaded)\<rparr>], sum)"
      using acc r sum(2) unsum by (simp add: sets_read_def members_read_def)
  qed
qed


section \<open>The whole file\<close>

text \<open>The store a decoder hands on is one that an engine could have saved.\<close>

definition well_typed_store :: "limits \<Rightarrow> decoded_store \<Rightarrow> bool" where
  "well_typed_store lim st \<longleftrightarrow>
     gen_valid (ds_epoch st) \<and> gen_valid (ds_authority_generation st) \<and>
     list_all storable_fence (ds_fences st) \<and>
     length (ds_fences st) \<le> (max_publishers lim * 64 + 64) mod 2 ^ 64 \<and>
     list_all (storable_set lim) (ds_sets st) \<and> length (ds_sets st) \<le> max_sets lim \<and>
     list_all (\<lambda>r. s_usable r = recompute_usable_members r) (ds_sets st) \<and>
     (ds_sets st \<noteq> [] \<longrightarrow> stored_member_total (ds_sets st) \<le> max_total_members lim)"

lemma ensures_payload: "ensures (read_store_payload lim digest) (well_typed_store lim)"
  unfolding read_store_payload_def Let_def
proof (intro ensures_intros ensures_then_post [OF ensures_list [OF ensures_fence]])
  fix v e a nf ns and ep :: coordinator_epoch and au :: authority_generation and fences :: "fence_record list"
  assume g: "gen_from_value e = Some ep" "gen_from_value a = Some au"
    and ns: "\<not> max_sets lim < unat (ns :: u32)"
    and nf: "\<not> (max_publishers lim * 64 + 64) mod 2 ^ 64 < unat (nf :: u32)"
    and fences: "length fences = unat nf \<and> list_all storable_fence fences"
  have start: "sets_read lim 0 ([], 0)" by (simp add: sets_read_def)
  show "ensures (dc_then (dc_loop (unat ns) (read_store_set lim) ([], 0)) (\<lambda>loaded.
      dc_return \<lparr>ds_epoch = ep, ds_authority_generation = au, ds_fences = fences, ds_sets = fst loaded,
        ds_payload_digest = digest\<rparr>)) (well_typed_store lim)"
    by (rule ensures_then_post [OF ensures_loop [where I = "sets_read lim", OF start ensures_set]], assumption)
      (use g ns nf fences in \<open>auto intro!: ensures_return simp: well_typed_store_def sets_read_def parsed_generation\<close>)
qed

lemma decode_store_typed: "decode_store file lim = Inr st \<Longrightarrow> well_typed_store lim st"
  by (auto simp: decode_store_def Let_def split: sum.splits if_splits dest: ensuresD [OF ensures_payload])

text \<open>And its framing was intact: magic, version, declared length and checksum.\<close>

lemma ensures_header:
  "ensures (read_store_header k lim) (\<lambda>n. unat (32 + n) = k \<and> unat n \<le> max_persistence_record_bytes lim \<and>
     k \<le> max_store_bytes lim)"
  unfolding read_store_header_def Let_def
  by (intro ensures_intros) (simp add: store_header_size_def not_less add.commute)

lemma trailer_checksum:
  assumes "read_store_trailer actual (new_reader bs) = Inr x"
  shows "le_value 8 bs = actual"
  using assms
  by (auto simp: read_store_trailer_def dc_then_def dc_field_def rd_u64_def rd_word_def rd_require_def new_reader_def
      dc_check_def dc_reject_def split: if_splits)

lemma decode_store_framed:
  assumes st: "decode_store file lim = Inr st"
  shows "\<exists>n. length file = 32 + n \<and> take 8 file = store_magic_bytes \<and>
    n \<le> max_persistence_record_bytes lim \<and> length file \<le> max_store_bytes lim \<and>
    le_value 8 (take 8 (drop (24 + n) file)) = fnv1a64 fnv1a64_offset_basis (take (24 + n) file)"
proof -
  obtain n where h: "decode_store_header file lim = Inr n"
    and t: "check_store_trailer file (store_header_size + unat n) = Inr ()"
    using st by (auto simp: decode_store_def Let_def split: sum.splits)
  from h obtain r where r: "read_store_header (length file) lim
      (new_reader (take (store_header_size - store_magic_size) (drop store_magic_size file))) = Inr (n, r)"
    and min: "32 \<le> length file" and magic: "take 8 file = store_magic_bytes"
    by (auto simp: decode_store_header_def store_header_size_def store_magic_size_def split: if_splits sum.splits)
  from ensuresD [OF ensures_header r]
  have size: "unat (32 + n) = length file" "unat n \<le> max_persistence_record_bytes lim" "length file \<le> max_store_bytes lim"
    by simp_all
  have "length file = 32 + unat n"
  proof -
    have "unat (32 + n) = (32 + unat n) mod 2 ^ 64" by (simp add: unat_word_ariths)
    moreover have "unat n < 2 ^ 64" by (rule unat_u64_lt)
    moreover have "32 \<le> unat (32 + n)" using size(1) min by simp
    moreover have "(32 + a) mod 2 ^ 64 = 32 + a" if "32 \<le> (32 + a) mod 2 ^ 64" "a < 2 ^ 64" for a :: nat
    proof (rule mod_less, rule ccontr)
      assume "\<not> 32 + a < 2 ^ 64"
      then have "(32 + a) mod 2 ^ 64 = 32 + a - 2 ^ 64" using that(2) by (simp add: mod_if)
      with that show False by simp
    qed
    ultimately show ?thesis using size(1) by metis
  qed
  moreover have "le_value 8 (take 8 (drop (24 + unat n) file)) = encode_checksum file (24 + unat n)"
    using t by (auto simp: check_store_trailer_def store_header_size_def split: sum.splits intro: trailer_checksum)
  ultimately show ?thesis
    using magic size by (auto simp: encode_checksum_def)
qed

end
