(* ===== verification/Worked_Store.thy ===== *)
theory Worked_Store
  imports Worked_Example Writer_Room Store_Saving Store_Types
begin

text \<open>
  A store of the worked example: the engine with one declared set is encoded, and the facts about
  saving and loading are instantiated on it.
\<close>

lemma ex_known:
  "known_id 64 ex_publisher" "known_id 64 ex_boot" "known_id 64 (StrongId ''a-1'' :: attempt_id)"
  "known_id 96 ex_sid" "known_id 64 (k_fabric ex_key)" "known_id 64 (k_name_space ex_key)"
  "known_id 64 (k_name ex_key)"
  by (code_simp)+

lemma ex_record_rest [simp]:
  "s_membership_generation ex_record = gen_first" "s_authority_generation ex_record = Generation 2"
  "s_governing_epoch ex_record = gen_first" "s_superseded_by ex_record = None" "s_supersedes ex_record = None"
  "s_revocation ex_record = None" "s_withdrawal_reason ex_record = []"
  "s_provenance ex_record = \<lparr>pv_publisher = ex_publisher, pv_worker_boot = ex_boot, pv_epoch = gen_first,
     pv_attempt = StrongId ''a-1'', pv_set_generation = gen_first, pv_cause = CA_DECLARED\<rparr>"
  by (simp_all add: ex_record_def new_set_record_def make_provenance_def ex_ctx_def append_history_def Let_def)

lemma ex_sets [simp]: "om_values (e_sets ex_created) = [ex_record]" "om_size (e_sets ex_created) = 1"
  by (simp_all add: om_values_def om_size_def)

lemma ex_storable: "storable ex_created"
  by (simp add: storable_def storable_set_def storable_head_def storable_provenance_def stored_member_total_def
      ex_known om_values_def om_size_def tables_ok_def index_ok_def live_member_count_def gen_valid_def gen_first_def
      default_limits_def)

lemma ex_lengths [simp]:
  "length (id_text ex_publisher) = 3" "length (id_text ex_boot) = 5" "length (id_text ex_sid) = 12"
  "length (id_text (k_fabric ex_key)) = 3" "length (id_text (k_name_space ex_key)) = 2"
  "length (id_text (k_name ex_key)) = 3"
  "written_id ex_publisher = ''pub''" "written_id ex_boot = ''boot1''"
  by (simp_all add: ex_party_defs written_id_def id_valid_def)

lemma ex_provenance_needs: "needs (write_provenance (s_provenance ex_record)) 50"
  unfolding write_provenance_def ex_record_rest membership_provenance.select_convs ex_lengths
  by (intro needs_intros) (simp_all add: max_id_length_def written_id_def id_valid_def)

lemma ex_revocation_needs: "needs (write_store_revocation None) 1"
  unfolding write_store_revocation_def option.case by (intro needs_intros) simp

lemma ex_head_needs: "needs (write_store_set_head ex_record) 300"
  unfolding write_store_set_head_def ex_record_rest ex_record_fields
  by (intro needs_intros needs_step [OF ex_provenance_needs [unfolded ex_record_rest]]
      needs_step [OF ex_revocation_needs]) simp_all

lemma ex_tables: "om_values (e_fences ex_created) = []" "om_values (om_put ex_sid ex_record om_empty) = [ex_record]"
  by (simp_all add: om_values_def)

lemma ex_set_needs: "needs (write_store_set ex_record) 304"
proof -
  have "om_values (s_members ex_record) = []" by (simp add: om_values_def)
  then show ?thesis
    unfolding write_store_set_def by (simp only:) (intro needs_step [OF ex_head_needs] needs_intros, simp_all)
qed

lemma ex_payload_needs: "needs (write_store_payload ex_created) 400"
  unfolding write_store_payload_def ex_tables ex_sets
  by (intro needs_intros needs_step [OF ex_set_needs]) simp_all

lemma ex_encoded: "\<exists>file. encode_store ex_created = Inr file"
  using needsD [OF ex_payload_needs, of "max_persistence_record_bytes default_limits"]
    needsD(2) [OF ex_payload_needs, of 400]
  by (simp add: encode_store_def Let_def bw_overflowed_def default_limits_def store_header_size_def)

text \<open>So the file decodes, the save over any files succeeds, and the saved file loads.\<close>

lemma ex_decoded:
  "\<exists>content body. content = frame_store body \<and> decode_store content (e_limits ex_created) = Inr (stored_engine ex_created body)"
proof -
  obtain content where "encode_store ex_created = Inr content" using ex_encoded by blast
  from decode_encode_store [OF ex_storable this] show ?thesis by (auto simp: default_limits_def)
qed

lemma ex_saved: "succeeded (fst (save_store (\<lambda>_. True) [] ''store'' ex_created Map.empty))"
proof -
  obtain content where "encode_store ex_created = Inr content" using ex_encoded by blast
  then show ?thesis
    by (simp add: save_store_def save_files_def replace_target_def Let_def succeeded_def outcome_is_success_def)
qed

lemma gen_next_second: "gen_next (Generation 2) = Some (Generation 3)"
  by code_simp

lemma ex_loaded:
  "\<exists>fs answer e'. load_store (\<lambda>_. True) fs ''store'' ex_created = (answer, e') \<and> e' \<noteq> ex_created \<and>
     o_code answer = OC_RECOVERED"
proof -
  have "gen_next (e_authority_generation ex_created) = Some (Generation 3)" by (simp add: gen_next_second)
  from load_after_save [OF surjective_pairing ex_saved _ ex_storable _ ex_created_ok ex_created_ok refl
      ids_foreign_self [OF ex_created_ok] _ this, of "\<lambda>_. True" "Generation 2"]
  obtain fs answer e' where "load_store (\<lambda>_. True) fs ''store'' ex_created = (answer, e')"
    "o_code answer = OC_RECOVERED" "e_epoch e' = Generation 2"
    by (auto simp: default_limits_def gen_next_first)
  moreover from this have "e' \<noteq> ex_created" by (auto simp: gen_first_def)
  ultimately show ?thesis by blast
qed

end
