(* ===== verification/Worked_Digest.thy ===== *)
theory Worked_Digest
  imports Records
begin

text \<open>
  Evaluated digests: two requests whose fingerprints differ. The fingerprints are 128-bit words, computed
  here by the definitions of \<open>Bytes\<close> and \<open>Records\<close>.
\<close>

lemma ex_fingerprints_differ:
  "fingerprint_request ''publish_set'' [''publish_set'', ''mpf-set-a1-1''] \<noteq>
   fingerprint_request ''publish_set'' [''publish_set'', ''x'']"
  by code_simp

end
