(* ===== verification/Worked_Aftermath.thy ===== *)
theory Worked_Aftermath
  imports Worked_Example Operation_Facts Worked_Digest
begin

text \<open>
  The history continued: the publisher is fenced, the coordinator advances the epoch, and a two-phase
  revalidation of the member is begun and completed.
\<close>

section \<open>The publisher is fenced\<close>

definition ex_fenced :: engine where
  "ex_fenced = perform (Ev_fence ex_publisher ex_boot ''crash'') ex_created"

lemma ex_fence_code: "o_code (fst (fence_worker ex_publisher ex_boot ''crash'' ex_created)) = OC_WORKER_FENCED"
proof -
  have "id_valid ex_publisher" "id_valid ex_boot" by (simp_all add: ex_party_defs id_valid_def)
  then show ?thesis by (simp add: fence_worker_def Let_def case_prod_unfold gen_next_eq)
qed

lemma ex_fenced_step: "fabric.run ex_created [Ev_fence ex_publisher ex_boot ''crash''] ex_fenced"
  unfolding ex_fenced_def
  by (intro fabric.run_cons [OF fabric_perform] fabric.run_nil) (simp add: event_enabled_def)

lemma ex_fenced_reach: "fabric.reach ex_config ex_fenced"
  by (rule fabric.reach_run [OF ex_created_reach ex_fenced_step])

lemma fold_fence_fences: "e_fences (snd (fold (fence_set publisher) sids acc)) = e_fences (snd acc)"
  using without_sets_fields [OF fold_fence_frame [of publisher sids acc]] by simp

lemma ex_fenced_has: "om_has (e_fences ex_fenced) (ex_publisher, ex_boot)"
  by (rule fence_worker_success [OF ex_fence_code]) (simp add: ex_fenced_def fold_fence_fences om_has_def)

section \<open>The epoch advances\<close>

definition ex_advanced :: engine where
  "ex_advanced = perform (Ev_advance_epoch ex_publisher ex_boot ex_session gen_first (StrongId ''a-3'')) ex_created"

lemma ex_advance_code:
  "o_code (fst (advance_epoch ex_publisher ex_boot ex_session gen_first (StrongId ''a-3'') ex_created)) = OC_EPOCH_ADVANCED"
proof -
  have "id_valid ex_publisher" "id_valid ex_boot" "id_valid ex_session" "id_valid (StrongId ''a-3'')"
    by (simp_all add: ex_party_defs id_valid_def)
  then show ?thesis by (simp add: advance_epoch_def Let_def gen_next_first gen_next_eq [of "Generation 2"] ex_registration_def)
qed

section \<open>Runs\<close>

lemma ex_register_run: "fabric.run ex_start [Ev_register ex_publisher ex_boot ex_scope ex_session] ex_registered"
  unfolding ex_registered_def
  by (intro fabric.run_cons [OF fabric_perform] fabric.run_nil) (simp add: event_enabled_def)

lemma ex_publish_run: "fabric.run ex_created [Ev_publish (ex_ctx ''a-2'') ex_sid] ex_published"
  unfolding ex_published_def
  by (intro fabric.run_cons [OF fabric_perform] fabric.run_nil) (simp add: event_enabled_def)

lemma ex_advance_run:
  "fabric.run ex_created [Ev_advance_epoch ex_publisher ex_boot ex_session gen_first (StrongId ''a-3'')] ex_advanced"
  unfolding ex_advanced_def
  by (intro fabric.run_cons [OF fabric_perform] fabric.run_nil) (simp add: event_enabled_def)

section \<open>The publication as a request\<close>

lemma ex_publish_request:
  "set_request (Ev_publish (ex_ctx ''a-2'') ex_sid) =
     Some (ex_ctx ''a-2'', ex_sid, ''publish_set'', [''publish_set'', id_text ex_sid])"
  "event_enabled (Ev_publish (ex_ctx ''a-2'') ex_sid) ex_created" "succeeded ex_published_outcome"
  "0 < max_attempts (e_limits ex_created)"
  by (simp_all add: set_request_def event_enabled_def succeeded_def ex_publish(1) outcome_is_success_def default_limits_def)

lemma ex_other_fingerprint:
  "fingerprint_request ''publish_set'' [''publish_set'', id_text ex_sid] \<noteq>
   fingerprint_request ''publish_set'' [''publish_set'', ''x'']"
  using ex_fingerprints_differ by (simp add: ex_sid_def)

section \<open>A set whose generations are spent\<close>

definition ex_spent :: set_record where
  "ex_spent = ex_record\<lparr>s_minimum := 0, s_lifecycle := SL_ACTIVE, s_generation := Generation u64_max\<rparr>"

lemma ex_spent_ok: "engine_ok (put_set ex_spent ex_created)"
proof (rule stored_update_ok [OF ex_created_ok, of ex_sid ex_record])
  show "set_frame ex_record ex_spent"
    by (simp add: set_frame_def clocks_frame_def members_frame_def ex_spent_def less_eq_generation_def)
  show "set_core (e_limits ex_created) ex_spent"
  proof (rule set_coreI)
    have core: "set_core (e_limits ex_created) ex_record" using stored_set(3) [OF ex_created_ok, of ex_sid] by simp
    show "tables_ok ex_spent" using set_coreD(1) [OF core] by (simp add: tables_ok_def ex_spent_def)
    show "evidence_ok ex_spent" by (simp add: evidence_ok_def ex_spent_def)
    have "recompute_usable_members ex_spent = 0" by (simp add: recompute_usable_members_def ex_spent_def)
    moreover have "s_usable ex_spent = 0" "s_minimum ex_spent = 0" "s_admin_enabled ex_spent" "s_lifecycle ex_spent = SL_ACTIVE"
      by (simp_all add: ex_spent_def)
    ultimately show "derived_ok ex_spent"
      by (simp add: derived_ok_def lifecycle_ok_def derive_published_lifecycle_def)
    show "terminal_ok ex_spent" by (simp add: terminal_ok_def terminal_lifecycle_def ex_spent_def)
  qed (use set_coreD(7) [OF stored_set(3) [OF ex_created_ok, of ex_sid]] in \<open>simp_all add: ex_spent_def gen_valid_def\<close>)
qed simp_all

lemma ex_spent_facts:
  "id_valid ex_sid"
  "admit (ex_ctx ''a-2'') ex_sid ''set_admin_enabled'' [''set_admin_enabled'', id_text ex_sid, ''0''] (put_set ex_spent ex_created) =
     Inr ex_spent"
  "engine_ok (put_set ex_spent ex_created)" "s_lifecycle ex_spent = SL_ACTIVE" "s_admin_enabled ex_spent"
  "expected_set_generation_matches (ex_ctx ''a-2'') ex_spent" "gen_next (s_generation ex_spent) = None"
proof -
  have k: "s_key ex_spent = ex_key" "s_id ex_spent = ex_sid" by (simp_all add: ex_spent_def)
  have a: "authority_check (ex_ctx ''a-2'') None (Some ex_sid) (put_set ex_spent ex_created) = make_outcome OC_OK []"
    by (simp add: authority_check_def ex_ctx_def worker_of_def ex_registration_def Let_def k put_set_def)
      (simp add: ex_party_defs id_valid_def covers_def covers_namespace_def scope_well_formed_def)
  then show "admit (ex_ctx ''a-2'') ex_sid ''set_admin_enabled'' [''set_admin_enabled'', id_text ex_sid, ''0'']
      (put_set ex_spent ex_created) = Inr ex_spent"
    by (simp add: admit_def a succeeded_def outcome_is_success_def attempt_check_def Let_def require_set_def k)
      (simp add: ex_ctx_def require_set_def put_set_def k)
  show "engine_ok (put_set ex_spent ex_created)" by (rule ex_spent_ok)
qed (simp_all add: ex_sid_def id_valid_def ex_spent_def expected_set_generation_matches_def ex_ctx_def gen_next_None)

end
