(* ===== verification/Worked_Life.thy ===== *)
theory Worked_Life
  imports Fabric_Life Worked_Store Worked_Aftermath
begin

text \<open>
  The worked example with a load: the state with one declared set is saved and loaded again, by the engine
  that saved it.
\<close>

definition ex_disk :: files where
  "ex_disk = last (snd (save_store (\<lambda>_. True) [] ''store'' ex_created Map.empty))"

definition ex_load :: life_event where
  "ex_load = Life_load (\<lambda>_. True) ex_disk ''store''"

definition ex_reloaded :: engine where
  "ex_reloaded = carry_out ex_load ex_created"

lemma ex_size: "max_store_bytes (e_limits ex_created) < 2 ^ 63"
  by (simp add: default_limits_def)

lemma ex_load_enabled: "life_enabled ex_load ex_created"
  unfolding ex_load_def ex_disk_def
  by (rule saved_is_enabled [where readable = "\<lambda>_. True", OF surjective_pairing ex_saved _ ex_storable ex_size ex_created_ok refl ids_foreign_self [OF ex_created_ok]]) simp

lemma ex_load_store:
  "\<exists>body. loaded_store (e_limits ex_created) ex_load = Some (stored_engine ex_created body)"
  unfolding ex_load_def ex_disk_def
  by (rule saved_is_loaded [where readable = "\<lambda>_. True", OF surjective_pairing ex_saved _ ex_storable ex_size]) simp

lemma ex_reload_run: "life.run ex_created [ex_load] ex_reloaded"
  unfolding ex_reloaded_def by (intro life.run_cons [OF carry_out_event [OF ex_load_enabled]] life.run_nil)

lemma ex_reloaded_reach: "life.reach ex_config ex_reloaded"
  by (rule life.reach_run [OF life_reach_operations [OF ex_created_reach] ex_reload_run])

lemma ex_reloaded_epoch: "e_epoch ex_reloaded = Generation 2"
proof -
  have "gen_next (e_authority_generation ex_created) = Some (Generation 3)" by (simp add: gen_next_second)
  from load_after_save [OF surjective_pairing ex_saved _ ex_storable ex_size ex_created_ok ex_created_ok refl
      ids_foreign_self [OF ex_created_ok] _ this, of "\<lambda>_. True" "Generation 2"]
  show ?thesis by (auto simp: ex_reloaded_def ex_load_def ex_disk_def gen_next_first)
qed

lemmas ex_start_life = life_reach_operations [OF ex_start_reach]
lemmas ex_registered_life = life_reach_operations [OF ex_registered_reach]
lemmas ex_created_life = life_reach_operations [OF ex_created_reach]
lemmas ex_joined_life = life_reach_operations [OF ex_joined_reach]
lemmas ex_published_life = life_reach_operations [OF ex_published_reach]
lemmas ex_fenced_life = life_reach_operations [OF ex_fenced_reach]

end
