(* ===== verification/Worked_Revalidation.thy ===== *)
theory Worked_Revalidation
  imports Worked_Aftermath
begin

text \<open>
  The joined member in detail, a two-phase revalidation begun on it, and the epoch that overtakes it.
\<close>

section \<open>The member in detail\<close>

definition ex_mid :: member_id where "ex_mid = StrongId ''mpf-mem-a1-2''"

lemma ex_draw_member: "next_member_id (e_ids ex_created) = (ex_mid, \<lparr>f_prefix = ''mpf'', f_nonce = ''a1'', f_counter = 2\<rparr>)"
proof -
  have "e_ids ex_created = \<lparr>f_prefix = ''mpf'', f_nonce = ''a1'', f_counter = 1\<rparr>"
    by (simp add: ex_created_eq ex_create)
  moreover have "u64_string 2 = ''2''" by code_simp
  moreover have "factory_ok \<lparr>f_prefix = ''mpf'', f_nonce = ''a1'', f_counter = 1\<rparr>"
    by (simp add: factory_ok_def hex_char_def)
  ultimately show ?thesis by (simp add: next_member_id_eq factory_compose_def ex_mid_def)
qed

lemma ex_joined_detail:
  obtains r m where "om_find (e_sets ex_joined) ex_sid = Some r" "om_find (s_members r) ex_path = Some m"
    "m_usable m" "m_id m = ex_mid" "m_pending m = 0" "m_generation m = gen_first" "m_bound m = gen_first"
    "s_lifecycle r = SL_DECLARED" "s_currentness r = SC_CURRENT" "s_admin_enabled r" "s_minimum r = 1"
    "s_key r = ex_key" "s_generation r = Generation 2" "s_usable r = 1"
proof -
  obtain o1 where out: "add_members_locked (ex_ctx ''a-2'') ex_sid [ex_request] ''add_member'' False [Some ex_view] ex_created =
     ((o1, ex_joined), True)" "succeeded o1" using ex_join_reached by blast
  obtain r0 r1 flags where r0: "admit (ex_ctx ''a-2'') ex_sid ''add_member'' (bulk_fields ''add_member'' ex_sid [ex_request]) ex_created = Inr r0"
    and t: "apply_transition r0 SE_MEMBER_ADDED = Inr r1"
    and pub: "publish_members (ex_ctx ''a-2'') ex_sid [ex_request] ''add_member'' False [Some ex_view] (s_lifecycle r0)
      (length (filter Not flags)) r1 ex_created = (o1, ex_joined)"
    using add_members_reached [OF out(1)] by metis
  have "set_transition SL_DECLARED SE_MEMBER_ADDED = SA_STAY" by code_simp
  then have r1: "r1 = ex_record" using r0 t by (simp add: ex_admit apply_transition_def)
  let ?m = "evaluate_member False (Some ex_view) False
      (new_member ex_mid ex_path gen_first None (make_provenance (ex_ctx ''a-2'') CA_MEMBER_ADDED ex_record))"
  have q: "mr_path_id ex_request = ex_path" "mr_generation ex_request = gen_first" by (simp_all add: ex_request_def)
  note m = admitted_member_usable [OF ex_request_current [unfolded q, of False] refl,
      of ex_mid ex_path None "make_provenance (ex_ctx ''a-2'') CA_MEMBER_ADDED ex_record"]
  let ?r = "recompute (install_member ex_path ?m ex_record)"
  obtain spec o2 e2 where c: "commit ?r (ex_ctx ''a-2'') ''add_member'' (bulk_fields ''add_member'' ex_sid [ex_request]) spec o2 e2 =
      (o1, ex_joined)" "cs_advance_set_generation spec"
    using pub unfolding publish_members_def Let_def r1
    by (rule_tac that, simp add: publish_member_def ex_draw_member Let_def q commit_spec_for_def) simp
  have live: "\<not> member_is_terminal ?m" using m(1) terminal_not_usable by blast
  have "{k. \<exists>v. om_find (om_put ex_path ?m om_empty) k = Some v \<and> m_usable v} = {ex_path}"
    using m(1) by (auto split: if_splits)
  then have u: "recompute_usable_members ?r = 1"
    by (simp add: recompute_usable_members_def install_member_def om_count_card)
  have s: "succeeded (fst (commit ?r (ex_ctx ''a-2'') ''add_member'' (bulk_fields ''add_member'' ex_sid [ex_request]) spec o2 e2))"
    using c(1) out(2) by simp
  obtain r where r: "om_find (e_sets ex_joined) (s_id ?r) = Some r" "committed_from (e_limits e2) ?r r"
    "gen_next (s_generation ?r) = Some (s_generation r)"
    using commit_stored [OF s c(2), unfolded c(1) snd_conv] by blast
  have sid: "s_id ?r = ex_sid" by (simp add: install_member_def)
  have i: "om_find (s_members ?r) ex_path = Some ?m" by (simp add: install_member_def)
  obtain m' where m': "om_find (s_members r) ex_path = Some m'" "same_member ?m m'"
    using committed_live [OF r(2) i live] by blast
  have l: "s_lifecycle ?r = SL_DECLARED" by (simp add: recompute_lifecycle derived_lifecycle_def install_member_def)
  have f: "s_currentness ?r = SC_CURRENT" "s_admin_enabled ?r" "s_minimum ?r = 1" "s_key ?r = ex_key"
    "s_generation ?r = gen_first" by (simp_all add: install_member_def)
  have us: "s_usable ?r = 1" using u derived_okD [OF derived_ok_recompute] by simp
  have "s_lifecycle r = SL_DECLARED" "s_currentness r = SC_CURRENT" "s_admin_enabled r" "s_minimum r = 1"
    "s_key r = ex_key" "s_usable r = 1"
    using r(2) f l us unfolding committed_from_def by simp_all
  moreover have "s_generation r = Generation 2" using r(3) unfolding f by (simp add: gen_next_first)
  ultimately show thesis
    using that [of r m', OF r(1) [unfolded sid] m'(1)] m same_member_fields [OF m'(2)] by simp
qed

section \<open>A ticket and an epoch\<close>

lemma ex_joined_kept: "kept ex_joined = kept ex_created"
  unfolding ex_joined_def by (rule perform_kept) (simp add: ex_join_def authority_event_def)

lemma kept_fields:
  "kept e' = kept e \<Longrightarrow> e_limits e' = e_limits e \<and> e_epoch e' = e_epoch e \<and>
   e_authority_generation e' = e_authority_generation e \<and> e_registrations e' = e_registrations e \<and> e_fences e' = e_fences e"
  by (simp add: kept_def)

definition ex_begun :: engine where
  "ex_begun = perform (Ev_begin (ex_ctx ''a-3'') ex_sid ex_mid (StrongId ''rv-1'')) ex_joined"

lemma ex_begin:
  obtains b tk where "begin_member_revalidation (ex_ctx ''a-3'') ex_sid ex_mid (StrongId ''rv-1'') ex_joined = (b, ex_begun)"
    "rb_ticket b = Some tk"
proof -
  obtain r m where r: "om_find (e_sets ex_joined) ex_sid = Some r" and m: "om_find (s_members r) ex_path = Some m"
    and u: "m_usable m" "m_id m = ex_mid" "m_pending m = 0" "s_key r = ex_key"
    by (rule ex_joined_detail)
  note ok = fabric.reach_inv [OF ex_joined_reach]
  note k = kept_fields [OF ex_joined_kept]
  have idx: "om_find (s_member_index r) ex_mid = Some ex_path"
    using set_coreD(1) [OF stored_set(3) [OF ok r]] m unfolding tables_ok_def index_ok_def u(2) [symmetric] by blast
  have auth: "authority_check (ex_ctx ''a-3'') None (Some ex_sid) ex_joined = make_outcome OC_OK []"
    using k r u(4) stored_set(1) [OF ok r]
    by (simp add: authority_check_def ex_ctx_def worker_of_def ex_registration_def Let_def)
      (simp add: ex_party_defs id_valid_def covers_def covers_namespace_def scope_well_formed_def)
  have ids: "id_valid ex_sid" "id_valid ex_mid" "id_valid (StrongId ''rv-1'' :: revalidation_attempt_id)"
    by (simp_all add: ex_sid_def ex_mid_def id_valid_def)
  have live: "\<not> member_is_terminal m" using u(1) terminal_not_usable by blast
  have add: "checked_add 0 1 = Some 1" by code_simp
  have "rb_ticket (fst (begin_member_revalidation (ex_ctx ''a-3'') ex_sid ex_mid (StrongId ''rv-1'') ex_joined)) \<noteq> None"
    using ids auth r idx m live u(3) k add
    by (simp add: begin_member_revalidation_def Let_def succeeded_def outcome_is_success_def require_set_def member_at_def
        default_limits_def)
  then show thesis
    using that [of "fst (begin_member_revalidation (ex_ctx ''a-3'') ex_sid ex_mid (StrongId ''rv-1'') ex_joined)"]
    by (auto simp: ex_begun_def)
qed

definition ex_begun_advanced :: engine where
  "ex_begun_advanced = perform (Ev_advance_epoch ex_publisher ex_boot ex_session gen_first (StrongId ''a-4'')) ex_begun"

lemma ex_begun_run:
  "fabric.run ex_begun [Ev_advance_epoch ex_publisher ex_boot ex_session gen_first (StrongId ''a-4'')] ex_begun_advanced"
  unfolding ex_begun_advanced_def
  by (intro fabric.run_cons [OF fabric_perform] fabric.run_nil) (simp add: event_enabled_def)

lemma ex_begun_epoch: "e_epoch ex_begun_advanced \<noteq> e_epoch ex_begun"
proof -
  have "kept ex_begun = kept ex_joined"
    unfolding ex_begun_def by (rule perform_kept) (simp add: authority_event_def)
  then have k: "e_epoch ex_begun = gen_first" "e_fences ex_begun = om_empty" "e_authority_generation ex_begun = Generation 2"
    "om_find (e_registrations ex_begun) (ex_publisher, ex_boot) = Some ex_registration"
    using kept_fields [of ex_begun ex_joined] kept_fields [OF ex_joined_kept] by simp_all
  have "id_valid ex_publisher" "id_valid ex_boot" "id_valid ex_session" "id_valid (StrongId ''a-4'' :: attempt_id)"
    by (simp_all add: ex_party_defs id_valid_def)
  then have "o_code (fst (advance_epoch ex_publisher ex_boot ex_session gen_first (StrongId ''a-4'') ex_begun)) = OC_EPOCH_ADVANCED"
    using k by (simp add: advance_epoch_def Let_def gen_next_first gen_next_eq [of "Generation 2"] ex_registration_def)
  from advance_epoch_success [OF this] have "e_epoch ex_begun_advanced = Generation 2"
    using k(1) by (simp add: ex_begun_advanced_def gen_next_first enter_epoch_frame) (metis enter_epoch_frame(1))
  then show ?thesis using k(1) by (simp add: gen_first_def)
qed

end
