(* ===== verification/Wire_Frame.thy ===== *)
theory Wire_Frame
  imports Codec_Steps Outcome
begin

text \<open>
  Frames of the wire protocol: \<open>include/multipath_fabric/wire.hpp\<close> and the first part of
  \<open>src/wire.cpp\<close>. A frame is a header of 24 bytes and a payload; the header holds the magic, the
  protocol version, the message id, the length of the payload, flags that must be zero, and a digest
  over the first 16 bytes and the payload.

  The readable bytes of a header buffer are a list; the C++ receives a pointer and a count and
  rejects a null pointer like a short buffer.
\<close>

section \<open>Message ids\<close>

datatype (plugins only: code size) message_id =
    MI_HELLO
  | MI_HELLO_ACK
  | MI_REGISTER_PUBLISHER
  | MI_CREATE_SET
  | MI_ADD_MEMBER
  | MI_REMOVE_MEMBER
  | MI_REVALIDATE_MEMBER
  | MI_REVALIDATE_SET
  | MI_REVOKE_SET
  | MI_RETIRE_SET
  | MI_QUERY_SET
  | MI_SNAPSHOT_REQUEST
  | MI_SNAPSHOT_RESPONSE
  | MI_FENCE_NOTICE
  | MI_RESULT
  | MI_ERROR
  | MI_REPLACE_MEMBER
  | MI_SET_MINIMUM
  | MI_SET_ADMIN_ENABLE
  | MI_SET_ADMIN_DISABLE
  | MI_MEMBER_ADMIN_ENABLE
  | MI_MEMBER_ADMIN_DISABLE
  | MI_EPOCH_ADVANCE
  | MI_LIST_SETS
  | MI_ADVANCE_SET_STATE
  | MI_APPLY_PATH_AUTHORITY
  | MI_REFRESH_PATH
  | MI_ADD_MEMBERS
  | MI_WITHDRAW_MEMBER
  | MI_SET_CONDITIONAL_POLICY
  | MI_SUPERSEDE_SET
  | MI_SHUTDOWN
  | MI_EXPLAIN_SET
  | MI_DECLARE_PATH_AUTHORITY

definition all_message_ids :: "message_id list" where
  "all_message_ids =
     [MI_HELLO, MI_HELLO_ACK, MI_REGISTER_PUBLISHER, MI_CREATE_SET, MI_ADD_MEMBER, MI_REMOVE_MEMBER,
      MI_REVALIDATE_MEMBER, MI_REVALIDATE_SET, MI_REVOKE_SET, MI_RETIRE_SET, MI_QUERY_SET,
      MI_SNAPSHOT_REQUEST, MI_SNAPSHOT_RESPONSE, MI_FENCE_NOTICE, MI_RESULT, MI_ERROR, MI_REPLACE_MEMBER,
      MI_SET_MINIMUM, MI_SET_ADMIN_ENABLE, MI_SET_ADMIN_DISABLE, MI_MEMBER_ADMIN_ENABLE,
      MI_MEMBER_ADMIN_DISABLE, MI_EPOCH_ADVANCE, MI_LIST_SETS, MI_ADVANCE_SET_STATE,
      MI_APPLY_PATH_AUTHORITY, MI_REFRESH_PATH, MI_ADD_MEMBERS, MI_WITHDRAW_MEMBER,
      MI_SET_CONDITIONAL_POLICY, MI_SUPERSEDE_SET, MI_SHUTDOWN, MI_EXPLAIN_SET, MI_DECLARE_PATH_AUTHORITY]"

primrec message_raw :: "message_id \<Rightarrow> u16" where
  "message_raw MI_HELLO = 1"
| "message_raw MI_HELLO_ACK = 2"
| "message_raw MI_REGISTER_PUBLISHER = 3"
| "message_raw MI_CREATE_SET = 4"
| "message_raw MI_ADD_MEMBER = 5"
| "message_raw MI_REMOVE_MEMBER = 6"
| "message_raw MI_REVALIDATE_MEMBER = 7"
| "message_raw MI_REVALIDATE_SET = 8"
| "message_raw MI_REVOKE_SET = 9"
| "message_raw MI_RETIRE_SET = 10"
| "message_raw MI_QUERY_SET = 11"
| "message_raw MI_SNAPSHOT_REQUEST = 12"
| "message_raw MI_SNAPSHOT_RESPONSE = 13"
| "message_raw MI_FENCE_NOTICE = 14"
| "message_raw MI_RESULT = 15"
| "message_raw MI_ERROR = 16"
| "message_raw MI_REPLACE_MEMBER = 17"
| "message_raw MI_SET_MINIMUM = 18"
| "message_raw MI_SET_ADMIN_ENABLE = 19"
| "message_raw MI_SET_ADMIN_DISABLE = 20"
| "message_raw MI_MEMBER_ADMIN_ENABLE = 21"
| "message_raw MI_MEMBER_ADMIN_DISABLE = 22"
| "message_raw MI_EPOCH_ADVANCE = 23"
| "message_raw MI_LIST_SETS = 24"
| "message_raw MI_ADVANCE_SET_STATE = 25"
| "message_raw MI_APPLY_PATH_AUTHORITY = 26"
| "message_raw MI_REFRESH_PATH = 27"
| "message_raw MI_ADD_MEMBERS = 28"
| "message_raw MI_WITHDRAW_MEMBER = 29"
| "message_raw MI_SET_CONDITIONAL_POLICY = 30"
| "message_raw MI_SUPERSEDE_SET = 31"
| "message_raw MI_SHUTDOWN = 32"
| "message_raw MI_EXPLAIN_SET = 33"
| "message_raw MI_DECLARE_PATH_AUTHORITY = 34"

primrec message_text :: "message_id \<Rightarrow> string" where
  "message_text MI_HELLO = ''HELLO''"
| "message_text MI_HELLO_ACK = ''HELLO_ACK''"
| "message_text MI_REGISTER_PUBLISHER = ''REGISTER_PUBLISHER''"
| "message_text MI_CREATE_SET = ''CREATE_SET''"
| "message_text MI_ADD_MEMBER = ''ADD_MEMBER''"
| "message_text MI_REMOVE_MEMBER = ''REMOVE_MEMBER''"
| "message_text MI_REVALIDATE_MEMBER = ''REVALIDATE_MEMBER''"
| "message_text MI_REVALIDATE_SET = ''REVALIDATE_SET''"
| "message_text MI_REVOKE_SET = ''REVOKE_SET''"
| "message_text MI_RETIRE_SET = ''RETIRE_SET''"
| "message_text MI_QUERY_SET = ''QUERY_SET''"
| "message_text MI_SNAPSHOT_REQUEST = ''SNAPSHOT_REQUEST''"
| "message_text MI_SNAPSHOT_RESPONSE = ''SNAPSHOT_RESPONSE''"
| "message_text MI_FENCE_NOTICE = ''FENCE_NOTICE''"
| "message_text MI_RESULT = ''RESULT''"
| "message_text MI_ERROR = ''ERROR''"
| "message_text MI_REPLACE_MEMBER = ''REPLACE_MEMBER''"
| "message_text MI_SET_MINIMUM = ''SET_MINIMUM''"
| "message_text MI_SET_ADMIN_ENABLE = ''SET_ADMIN_ENABLE''"
| "message_text MI_SET_ADMIN_DISABLE = ''SET_ADMIN_DISABLE''"
| "message_text MI_MEMBER_ADMIN_ENABLE = ''MEMBER_ADMIN_ENABLE''"
| "message_text MI_MEMBER_ADMIN_DISABLE = ''MEMBER_ADMIN_DISABLE''"
| "message_text MI_EPOCH_ADVANCE = ''EPOCH_ADVANCE''"
| "message_text MI_LIST_SETS = ''LIST_SETS''"
| "message_text MI_ADVANCE_SET_STATE = ''ADVANCE_SET_STATE''"
| "message_text MI_APPLY_PATH_AUTHORITY = ''APPLY_PATH_AUTHORITY''"
| "message_text MI_REFRESH_PATH = ''REFRESH_PATH''"
| "message_text MI_ADD_MEMBERS = ''ADD_MEMBERS''"
| "message_text MI_WITHDRAW_MEMBER = ''WITHDRAW_MEMBER''"
| "message_text MI_SET_CONDITIONAL_POLICY = ''SET_CONDITIONAL_POLICY''"
| "message_text MI_SUPERSEDE_SET = ''SUPERSEDE_SET''"
| "message_text MI_SHUTDOWN = ''SHUTDOWN''"
| "message_text MI_EXPLAIN_SET = ''EXPLAIN_SET''"
| "message_text MI_DECLARE_PATH_AUTHORITY = ''DECLARE_PATH_AUTHORITY''"

definition message_id_min :: u16 where
  "message_id_min = 1"

definition message_id_max :: u16 where
  "message_id_max = 34"

definition valid_message_id :: "u16 \<Rightarrow> bool" where
  "valid_message_id raw \<longleftrightarrow> raw \<ge> message_id_min \<and> raw \<le> message_id_max"

text \<open>The cast of a valid number.\<close>

definition message_of_raw :: "u16 \<Rightarrow> message_id option" where
  "message_of_raw raw = List.find (\<lambda>m. message_raw m = raw) all_message_ids"

definition parse_message_id :: "string \<Rightarrow> message_id option" where
  "parse_message_id text = List.find (\<lambda>m. message_text m = text) all_message_ids"

section \<open>Frames\<close>

definition frame_magic :: u32 where
  "frame_magic = 0x5746504D"

definition frame_header_size :: nat where
  "frame_header_size = 24"

definition frame_integrity_offset :: nat where
  "frame_integrity_offset = 16"

definition wire_protocol_version :: u16 where
  "wire_protocol_version = 1"

definition max_frame_hard_bound :: nat where
  "max_frame_hard_bound = 64 * 1024 * 1024"

definition frame_bound :: "nat \<Rightarrow> nat" where
  "frame_bound max_frame_bytes =
     (if max_frame_bytes = 0 then max_frame_hard_bound
      else if max_frame_bytes < max_frame_hard_bound then max_frame_bytes else max_frame_hard_bound)"

definition frame_integrity :: "u8 list \<Rightarrow> u8 list \<Rightarrow> u64" where
  "frame_integrity header payload =
     dg_high (digest_finish (absorb_raw payload (absorb_raw header digest_start)))"

definition encode_frame :: "message_id \<Rightarrow> u8 list \<Rightarrow> nat \<Rightarrow> fabric_outcome + u8 list" where
  "encode_frame i payload max_frame_bytes =
     (let bound = frame_bound max_frame_bytes
      in if length payload > bound
      then Inl (make_rejection OC_RESOURCE_LIMIT
             (msg (''frame payload of '' @ nat_string (length payload) @
                   '' bytes exceeds max_frame_bytes '' @ nat_string bound)))
      else
        let header = bw_all [bw_u32 frame_magic, bw_u16 wire_protocol_version, bw_u16 (message_raw i)]
                       (new_writer frame_header_size)
        in case narrow_u32 (of_nat (length payload)) of
          None \<Rightarrow> Inl (make_rejection OC_RESOURCE_LIMIT (msg ''frame payload length is not representable''))
        | Some len \<Rightarrow>
          (let header = bw_all [bw_u32 len, bw_u32 0] header
           in if bw_overflowed header \<or> length (bw_buffer header) \<noteq> frame_integrity_offset
           then Inl (make_rejection OC_INTERNAL_ERROR (msg ''frame header encoding failed''))
           else
             let check = frame_integrity (bw_buffer header) payload;
                 trailer = bw_u64 check (new_writer 16)
             in Inr (bw_buffer header @ bw_buffer trailer @ payload)))"

definition read_frame_header :: "nat \<Rightarrow> (fabric_outcome, message_id \<times> u32) decoder" where
  "read_frame_header max_frame_bytes =
     (let truncated = make_rejection OC_FRAMING_ERROR (msg ''frame header is truncated'');
          bound = frame_bound max_frame_bytes
      in
     dc_then (dc_field truncated rd_u32) (\<lambda>magic.
     dc_then (dc_field truncated rd_u16) (\<lambda>version.
     dc_then (dc_field truncated rd_u16) (\<lambda>message.
     dc_then (dc_field truncated rd_u32) (\<lambda>len.
     dc_then (dc_field truncated rd_u32) (\<lambda>flags.
     dc_check (make_rejection OC_FRAMING_ERROR (msg ''frame magic does not match''))
       (\<not> magic \<noteq> frame_magic) (
     dc_check (make_rejection OC_UNSUPPORTED_WIRE_VERSION
         (msg (''wire version '' @ nat_string (unat version) @
               '' is not supported; this build speaks version '' @
               nat_string (unat wire_protocol_version))))
       (\<not> version \<noteq> wire_protocol_version) (
     dc_check (make_rejection OC_FRAMING_ERROR (msg ''frame flags must be zero''))
       (\<not> flags \<noteq> 0) (
     dc_some (make_rejection OC_FRAMING_ERROR
         (msg (''frame carries an unknown message id '' @ nat_string (unat message))))
       (message_of_raw message) (\<lambda>i.
     dc_check (make_rejection OC_RESOURCE_LIMIT
         (msg (''frame declares '' @ nat_string (unat len) @
               '' payload bytes which exceeds max_frame_bytes '' @ nat_string bound)))
       (\<not> unat len > bound) (
     dc_return (i, len))))))))))))"

definition decode_header :: "u8 list \<Rightarrow> nat \<Rightarrow> fabric_outcome + (message_id \<times> u32)" where
  "decode_header header max_frame_bytes =
     (if length header < frame_integrity_offset
      then Inl (make_rejection OC_FRAMING_ERROR
             (msg (''frame header buffer holds '' @ nat_string (length header) @ '' byte(s); '' @
                   nat_string frame_integrity_offset @ '' are required before the frame can be decoded'')))
      else case read_frame_header max_frame_bytes (new_reader (take frame_integrity_offset header)) of
        Inl outcome \<Rightarrow> Inl outcome
      | Inr (result, _) \<Rightarrow> Inr result)"

definition verify_integrity :: "u8 list \<Rightarrow> u8 list \<Rightarrow> fabric_outcome" where
  "verify_integrity header payload =
     (if length header < frame_header_size
      then make_rejection OC_FRAMING_ERROR
             (msg (''frame header buffer holds '' @ nat_string (length header) @ '' byte(s); '' @
                   nat_string frame_header_size @ '' are required to verify the integrity field''))
      else case rd_u64 (new_reader (take (frame_header_size - frame_integrity_offset)
                                      (drop frame_integrity_offset header))) of
        (None, _) \<Rightarrow> make_rejection OC_FRAMING_ERROR (msg ''frame integrity field is truncated'')
      | (Some stored, _) \<Rightarrow>
          if frame_integrity (take frame_integrity_offset header) payload \<noteq> stored
          then make_rejection OC_INTEGRITY_ERROR
                 (msg ''frame integrity check failed over the semantic header and payload'')
          else make_outcome OC_OK [])"

section \<open>Message ids are codes\<close>

lemma message_of_raw_raw: "message_of_raw (message_raw i) = Some i"
  by (cases i) (simp_all add: message_of_raw_def all_message_ids_def)

lemma message_raw_of_raw: "message_of_raw raw = Some i \<Longrightarrow> message_raw i = raw"
  by (auto simp: message_of_raw_def find_Some_iff)

lemma parse_message_text: "parse_message_id (message_text i) = Some i"
  by (cases i) (simp_all add: parse_message_id_def all_message_ids_def)

interpretation message_enum: parsed message_raw message_of_raw "\<lambda>_. True"
  by unfold_locales (rule message_of_raw_raw)

interpretation message_name: parsed message_text parse_message_id "\<lambda>_. True"
  by unfold_locales (rule parse_message_text)

lemma message_raw_nth: "list_all (\<lambda>k. unat (message_raw (all_message_ids ! k)) = Suc k) [0..<34]"
  by code_simp

lemma valid_message_iff: "valid_message_id raw \<longleftrightarrow> message_of_raw raw \<noteq> None"
proof
  assume "valid_message_id raw"
  then have "1 \<le> unat raw" "unat raw \<le> 34"
    by (simp_all add: valid_message_id_def message_id_min_def message_id_max_def word_le_nat_alt)
  then have "unat raw - 1 \<in> set [0..<34]" and "Suc (unat raw - 1) = unat raw" by simp_all
  with message_raw_nth have "unat (message_raw (all_message_ids ! (unat raw - 1))) = unat raw"
    unfolding list_all_iff by metis
  then have "message_raw (all_message_ids ! (unat raw - 1)) = raw" by (simp add: word_unat_eq_iff)
  then show "message_of_raw raw \<noteq> None" using message_of_raw_raw by (metis option.discI)
next
  assume "message_of_raw raw \<noteq> None"
  then obtain i where "message_raw i = raw" using message_raw_of_raw by auto
  then show "valid_message_id raw"
    by (cases i) (auto simp: valid_message_id_def message_id_min_def message_id_max_def)
qed

end
