(* ===== verification/Wire_Request.thy ===== *)
theory Wire_Request
  imports Field_Codecs Wire_Frame Membership_Ops
begin

text \<open>
  The request codec of \<open>src/wire.cpp\<close>: the scope, context and key blocks that requests share,
  \<open>encode_request\<close> and \<open>decode_request\<close>. A request is one record for all message ids; only the fields that
  are meaningful for the id are written and read.
\<close>

definition max_text_length :: nat where
  "max_text_length = 512"

definition max_detail_length :: nat where
  "max_detail_length = 1024"

definition wire_malformed :: "string \<Rightarrow> fabric_outcome" where
  "wire_malformed text = make_rejection OC_MALFORMED_REQUEST (msg text)"

section \<open>Optional and lenient fields\<close>

definition wire_opt_text :: "string option \<Rightarrow> byte_writer \<Rightarrow> byte_writer" where
  "wire_opt_text v =
     bw_all (bw_boolean (v \<noteq> None) # (case v of None \<Rightarrow> [] | Some text \<Rightarrow> [bw_id_text text]))"

text \<open>An identity that may be empty: it is parsed only when there is something to parse.\<close>

definition or_invalid :: "'tag strong_id option \<Rightarrow> 'tag strong_id" where
  "or_invalid v = (case v of None \<Rightarrow> invalid_id | Some i \<Rightarrow> i)"

definition dc_lenient_id ::
  "'e \<Rightarrow> (string \<Rightarrow> 'tag strong_id option) \<Rightarrow> string \<Rightarrow> ('tag strong_id \<Rightarrow> ('e, 'a) decoder) \<Rightarrow> ('e, 'a) decoder" where
  "dc_lenient_id e parse text q = dc_opt_text e parse text (\<lambda>v. q (or_invalid v))"

text \<open>A generation that may be absent: zero stays the invalid generation.\<close>

definition dc_lenient_gen :: "'e \<Rightarrow> u64 \<Rightarrow> ('tag generation \<Rightarrow> ('e, 'a) decoder) \<Rightarrow> ('e, 'a) decoder" where
  "dc_lenient_gen e value q = (if value = 0 then q gen_invalid else dc_some e (gen_from_value value) q)"

section \<open>Scopes, contexts and keys\<close>

definition write_scope :: "authority_scope \<Rightarrow> byte_writer \<Rightarrow> byte_writer" where
  "write_scope sc = bw_all
     ([bw_id_text (written_id (sc_fabric sc)),
       bw_id_text (written_id (sc_name_space sc))] @
      (case narrow_u32 (of_nat (length (sc_set_ids sc))) of
         None \<Rightarrow> []
       | Some count \<Rightarrow> [bw_u32 count, bw_each bw_id (sc_set_ids sc)]))"

definition read_scope_set_id :: "(unit, set_id) decoder" where
  "read_scope_set_id =
     dc_then (dc_field () rd_id) (\<lambda>value.
     dc_some () (parse_set_id value) (\<lambda>parsed.
     dc_return parsed))"

definition read_scope :: "(unit, authority_scope) decoder" where
  "read_scope =
     dc_then (dc_field () rd_id) (\<lambda>fabric.
     dc_then (dc_field () rd_id) (\<lambda>name_space.
     dc_then (dc_field () rd_u32) (\<lambda>count.
     dc_check () (\<not> unat count > 4096) (
     dc_lenient_id () parse_fabric_id fabric (\<lambda>fabric_value.
     dc_lenient_id () parse_namespace_id name_space (\<lambda>namespace_value.
     dc_then (dc_list (unat count) read_scope_set_id) (\<lambda>set_ids.
     dc_return \<lparr>sc_fabric = fabric_value, sc_name_space = namespace_value, sc_set_ids = set_ids\<rparr>)))))))"

definition write_context :: "mutation_context \<Rightarrow> byte_writer \<Rightarrow> byte_writer" where
  "write_context c = bw_all
     [bw_u64 (written_gen 0 (cx_epoch c)),
      bw_id_text (written_id (cx_publisher c)),
      bw_id_text (written_id (cx_worker_boot c)),
      bw_id_text (written_id (cx_session c)),
      bw_id_text (written_id (cx_attempt c)),
      wire_opt_text (map_option gen_text (cx_expected_set_generation c)),
      wire_opt_text (map_option gen_text (cx_expected_member_generation c))]"

fun parse_digits :: "u64 \<Rightarrow> string \<Rightarrow> u64 option" where
  "parse_digits value [] = Some value"
| "parse_digits value (c # cs) =
     (if (of_char c :: nat) < 48 \<or> 57 < (of_char c :: nat) then None
      else let digit = of_nat (digit_val c)
           in if value > (0xFFFFFFFFFFFFFFFF - digit) div 10 then None
              else parse_digits (value * 10 + digit) cs)"

definition parse_u64 :: "string \<Rightarrow> u64 option" where
  "parse_u64 text = (if text = [] then None else parse_digits 0 text)"

text \<open>The text of an expected generation: absent, or a number that is a generation.\<close>

definition parse_expected :: "string \<Rightarrow> 'tag generation option" where
  "parse_expected text =
     (case parse_u64 text of None \<Rightarrow> None | Some value \<Rightarrow> gen_from_value value)"

definition read_context :: "(unit, mutation_context) decoder" where
  "read_context =
     dc_then (dc_field () rd_u64) (\<lambda>epoch.
     dc_then (dc_field () rd_id) (\<lambda>publisher.
     dc_then (dc_field () rd_id) (\<lambda>boot.
     dc_then (dc_field () rd_id) (\<lambda>session.
     dc_then (dc_field () rd_id) (\<lambda>attempt.
     dc_then (dc_as () read_optional_id) (\<lambda>expected_set.
     dc_then (dc_as () read_optional_id) (\<lambda>expected_member.
     dc_some () (gen_from_value epoch) (\<lambda>epoch_value.
     dc_some () (parse_publisher_id publisher) (\<lambda>publisher_id.
     dc_some () (parse_worker_boot_id boot) (\<lambda>boot_id.
     dc_some () (parse_session_id session) (\<lambda>session_id.
     dc_some () (parse_attempt_id attempt) (\<lambda>attempt_id.
     dc_opt_text () parse_expected expected_set (\<lambda>set_generation.
     dc_opt_text () parse_expected expected_member (\<lambda>member_generation.
     dc_return
       \<lparr>cx_epoch = epoch_value, cx_publisher = publisher_id, cx_worker_boot = boot_id,
        cx_session = session_id, cx_attempt = attempt_id, cx_expected_set_generation = set_generation,
        cx_expected_member_generation = member_generation\<rparr>))))))))))))))"

definition write_key :: "set_key \<Rightarrow> byte_writer \<Rightarrow> byte_writer" where
  "write_key k = bw_all
     [bw_id_text (written_id (k_fabric k)),
      bw_id_text (written_id (k_name_space k)),
      bw_id_text (written_id (k_name k))]"

definition read_key :: "(unit, set_key) decoder" where
  "read_key =
     dc_then (dc_field () rd_id) (\<lambda>fabric.
     dc_then (dc_field () rd_id) (\<lambda>name_space.
     dc_then (dc_field () rd_id) (\<lambda>name.
     dc_some () (parse_fabric_id fabric) (\<lambda>fabric_id.
     dc_some () (parse_namespace_id name_space) (\<lambda>namespace_id.
     dc_some () (parse_set_name name) (\<lambda>name_id.
     dc_return (SetKey fabric_id namespace_id name_id)))))))"

section \<open>Requests\<close>

datatype set_state_action = SSA_PUBLISH | SSA_WITHDRAW | SSA_COMPLETE_WITHDRAWAL

definition all_set_state_actions :: "set_state_action list" where
  "all_set_state_actions = [SSA_PUBLISH, SSA_WITHDRAW, SSA_COMPLETE_WITHDRAWAL]"

definition set_state_action_raw :: "set_state_action \<Rightarrow> u8" where
  "set_state_action_raw = enum_raw 1 all_set_state_actions"

definition set_state_action_of_raw :: "u8 \<Rightarrow> set_state_action option" where
  "set_state_action_of_raw = enum_of_raw 1 all_set_state_actions"

definition valid_set_state_action :: "u8 \<Rightarrow> bool" where
  "valid_set_state_action raw \<longleftrightarrow> raw \<ge> 1 \<and> raw \<le> 3"

record wire_request =
  wq_id :: message_id
  wq_context :: mutation_context
  wq_scope :: authority_scope
  wq_key :: set_key
  wq_options :: set_options
  wq_set_id :: set_id
  wq_member_id :: member_id
  wq_path_id :: path_id
  wq_path_generation :: path_authority_generation
  wq_members :: "member_request list"
  wq_number :: u64
  wq_flag :: bool
  wq_state_action :: set_state_action
  wq_revocation_reason :: revocation_reason
  wq_path_state :: path_authority_state
  wq_text :: string
  wq_snapshot_id :: snapshot_id

definition empty_context :: mutation_context where
  "empty_context =
     \<lparr>cx_epoch = gen_invalid, cx_publisher = invalid_id, cx_worker_boot = invalid_id,
      cx_session = invalid_id, cx_attempt = invalid_id, cx_expected_set_generation = None,
      cx_expected_member_generation = None\<rparr>"

definition default_set_options :: set_options where
  "default_set_options = \<lparr>so_minimum = 1, so_admin_enabled = True, so_conditional = False\<rparr>"

definition empty_request :: "message_id \<Rightarrow> wire_request" where
  "empty_request i =
     \<lparr>wq_id = i, wq_context = empty_context,
      wq_scope = \<lparr>sc_fabric = invalid_id, sc_name_space = invalid_id, sc_set_ids = []\<rparr>,
      wq_key = SetKey invalid_id invalid_id invalid_id, wq_options = default_set_options,
      wq_set_id = invalid_id, wq_member_id = invalid_id, wq_path_id = invalid_id,
      wq_path_generation = gen_invalid, wq_members = [], wq_number = 0, wq_flag = False,
      wq_state_action = SSA_PUBLISH, wq_revocation_reason = RVR_ADMINISTRATIVE,
      wq_path_state = PA_AUTHORIZED, wq_text = [], wq_snapshot_id = invalid_id\<rparr>"

section \<open>Encoding\<close>

definition write_member_request :: "member_request \<Rightarrow> byte_writer \<Rightarrow> byte_writer" where
  "write_member_request m = bw_all [bw_id (mr_path_id m), bw_u64 (gen_value (mr_generation m))]"

text \<open>The fields a message id sends, in order, or the reason why it cannot be sent.\<close>

definition request_steps :: "wire_request \<Rightarrow> fabric_outcome + (byte_writer \<Rightarrow> byte_writer) list" where
  "request_steps q =
     (let context = write_context (wq_context q);
          set_id = bw_id (wq_set_id q);
          member_id = bw_id (wq_member_id q);
          path_id = bw_id (wq_path_id q);
          generation = bw_u64 (gen_value (wq_path_generation q));
          text = bw_string max_text_length (wq_text q);
          not_a_request = Inl (make_rejection OC_MALFORMED_REQUEST
             (msg (message_text (wq_id q) @ '' is not a client request message'')))
      in case wq_id q of
        MI_HELLO \<Rightarrow> Inr []
      | MI_LIST_SETS \<Rightarrow> Inr []
      | MI_SHUTDOWN \<Rightarrow> Inr []
      | MI_REGISTER_PUBLISHER \<Rightarrow> Inr
          [bw_id_text (written_id (cx_publisher (wq_context q))),
           bw_id_text (written_id (cx_worker_boot (wq_context q))),
           bw_id_text (written_id (cx_session (wq_context q))),
           write_scope (wq_scope q)]
      | MI_CREATE_SET \<Rightarrow> Inr
          [context,
           write_key (wq_key q),
           bw_u64 (of_nat (so_minimum (wq_options q))),
           bw_boolean (so_admin_enabled (wq_options q)),
           bw_boolean (so_conditional (wq_options q))]
      | MI_ADD_MEMBER \<Rightarrow> Inr [context, set_id, path_id, generation]
      | MI_ADD_MEMBERS \<Rightarrow>
          (case narrow_u32 (of_nat (length (wq_members q))) of
             None \<Rightarrow> Inl (make_rejection OC_RESOURCE_LIMIT (msg ''batch size is not representable''))
           | Some count \<Rightarrow> Inr [context, set_id, bw_u32 count, bw_each write_member_request (wq_members q)])
      | MI_REMOVE_MEMBER \<Rightarrow> Inr [context, set_id, member_id, text]
      | MI_WITHDRAW_MEMBER \<Rightarrow> Inr [context, set_id, member_id, text]
      | MI_REPLACE_MEMBER \<Rightarrow> Inr [context, set_id, member_id, path_id, generation, text]
      | MI_SET_MINIMUM \<Rightarrow> Inr [context, set_id, bw_u64 (wq_number q)]
      | MI_SET_CONDITIONAL_POLICY \<Rightarrow> Inr [context, set_id, bw_boolean (wq_flag q)]
      | MI_SET_ADMIN_ENABLE \<Rightarrow> Inr [context, set_id]
      | MI_SET_ADMIN_DISABLE \<Rightarrow> Inr [context, set_id]
      | MI_MEMBER_ADMIN_ENABLE \<Rightarrow> Inr [context, set_id, member_id]
      | MI_MEMBER_ADMIN_DISABLE \<Rightarrow> Inr [context, set_id, member_id]
      | MI_REVALIDATE_MEMBER \<Rightarrow> Inr [context, set_id, member_id]
      | MI_REVALIDATE_SET \<Rightarrow> Inr [context, set_id]
      | MI_REVOKE_SET \<Rightarrow> Inr [context, set_id, bw_u8 (revocation_reason_raw (wq_revocation_reason q)), text]
      | MI_RETIRE_SET \<Rightarrow> Inr [context, set_id, text]
      | MI_SUPERSEDE_SET \<Rightarrow> Inr [context, set_id, path_id]
      | MI_EPOCH_ADVANCE \<Rightarrow> Inr [context, bw_u64 (wq_number q)]
      | MI_ADVANCE_SET_STATE \<Rightarrow> Inr [context, set_id, bw_u8 (set_state_action_raw (wq_state_action q)), text]
      | MI_APPLY_PATH_AUTHORITY \<Rightarrow> Inr [context, path_id, generation, bw_u8 (path_authority_state_raw (wq_path_state q))]
      | MI_DECLARE_PATH_AUTHORITY \<Rightarrow> Inr [context, path_id, generation, bw_u8 (path_authority_state_raw (wq_path_state q))]
      | MI_REFRESH_PATH \<Rightarrow> Inr [context, path_id]
      | MI_QUERY_SET \<Rightarrow> Inr [set_id]
      | MI_EXPLAIN_SET \<Rightarrow> Inr [set_id]
      | MI_SNAPSHOT_REQUEST \<Rightarrow> Inr [set_id, bw_id (wq_snapshot_id q)]
      | MI_HELLO_ACK \<Rightarrow> not_a_request
      | MI_SNAPSHOT_RESPONSE \<Rightarrow> not_a_request
      | MI_FENCE_NOTICE \<Rightarrow> not_a_request
      | MI_RESULT \<Rightarrow> not_a_request
      | MI_ERROR \<Rightarrow> not_a_request)"

definition encode_request :: "wire_request \<Rightarrow> fabric_outcome + u8 list" where
  "encode_request q =
     (case request_steps q of
        Inl outcome \<Rightarrow> Inl outcome
      | Inr steps \<Rightarrow>
          let writer = bw_all steps (new_writer (2 ^ 20))
          in if bw_overflowed writer
             then Inl (make_rejection OC_RESOURCE_LIMIT (msg ''request encoding exceeded its bound''))
             else Inr (bw_buffer writer))"

section \<open>Decoding\<close>

definition read_register :: "wire_request \<Rightarrow> (fabric_outcome, wire_request) decoder" where
  "read_register q =
     (let truncated = wire_malformed ''register request is truncated'';
          invalid = wire_malformed ''register request carries an invalid identity''
      in
     dc_then (dc_field truncated rd_id) (\<lambda>publisher.
     dc_then (dc_field truncated rd_id) (\<lambda>boot.
     dc_then (dc_field truncated rd_id) (\<lambda>session.
     dc_some invalid (parse_publisher_id publisher) (\<lambda>publisher_id.
     dc_some invalid (parse_worker_boot_id boot) (\<lambda>boot_id.
     dc_some invalid (parse_session_id session) (\<lambda>session_id.
     dc_then (dc_as (wire_malformed ''register request scope is truncated or malformed'') read_scope) (\<lambda>scope.
     dc_return (q\<lparr>wq_context := (wq_context q)\<lparr>cx_publisher := publisher_id, cx_worker_boot := boot_id,
                                 cx_session := session_id\<rparr>,
                 wq_scope := scope\<rparr>)))))))))"

definition read_create_set :: "wire_request \<Rightarrow> (fabric_outcome, wire_request) decoder" where
  "read_create_set q =
     (let truncated = wire_malformed ''create request options are truncated''
      in
     dc_then (dc_as (wire_malformed ''create request context is truncated or malformed'') read_context) (\<lambda>context.
     dc_then (dc_as (wire_malformed ''create request key is truncated or malformed'') read_key) (\<lambda>key.
     dc_then (dc_field truncated rd_u64) (\<lambda>minimum.
     dc_then (dc_field truncated rd_boolean) (\<lambda>admin.
     dc_then (dc_field truncated rd_boolean) (\<lambda>conditional.
     dc_return (q\<lparr>wq_context := context, wq_key := key,
                 wq_options := \<lparr>so_minimum = unat minimum, so_admin_enabled = admin,
                                so_conditional = conditional\<rparr>\<rparr>)))))))"

definition read_add_member :: "wire_request \<Rightarrow> (fabric_outcome, wire_request) decoder" where
  "read_add_member q =
     (let truncated = wire_malformed ''add request is truncated'';
          invalid = wire_malformed ''add request carries an invalid identity or generation''
      in
     dc_then (dc_as (wire_malformed ''add request context is truncated or malformed'') read_context) (\<lambda>context.
     dc_then (dc_field truncated rd_id) (\<lambda>set_id.
     dc_then (dc_field truncated rd_id) (\<lambda>path.
     dc_then (dc_field truncated rd_u64) (\<lambda>generation.
     dc_some invalid (parse_set_id set_id) (\<lambda>set_id_value.
     dc_some invalid (parse_path_id path) (\<lambda>path_value.
     dc_some invalid (gen_from_value generation) (\<lambda>generation_value.
     dc_return (q\<lparr>wq_context := context, wq_set_id := set_id_value, wq_path_id := path_value,
                 wq_path_generation := generation_value\<rparr>)))))))))"

definition read_member_request :: "(fabric_outcome, member_request) decoder" where
  "read_member_request =
     (let truncated = wire_malformed ''bulk add member entry is truncated'';
          invalid = wire_malformed ''bulk add member entry carries an invalid identity or generation''
      in
     dc_then (dc_field truncated rd_id) (\<lambda>path.
     dc_then (dc_field truncated rd_u64) (\<lambda>generation.
     dc_some invalid (parse_path_id path) (\<lambda>path_value.
     dc_some invalid (gen_from_value generation) (\<lambda>generation_value.
     dc_return \<lparr>mr_path_id = path_value, mr_generation = generation_value\<rparr>)))))"

definition read_add_members :: "wire_request \<Rightarrow> (fabric_outcome, wire_request) decoder" where
  "read_add_members q =
     (let truncated = wire_malformed ''bulk add request is truncated''
      in
     dc_then (dc_as (wire_malformed ''bulk add request context is truncated or malformed'') read_context) (\<lambda>context.
     dc_then (dc_field truncated rd_id) (\<lambda>set_id.
     dc_then (dc_field truncated rd_u32) (\<lambda>count.
     dc_check (wire_malformed ''bulk add request declares an absurd member count'') (\<not> unat count > 100000) (
     dc_some (wire_malformed ''bulk add request carries an invalid set identity'') (parse_set_id set_id) (\<lambda>set_id_value.
     dc_then (dc_list (unat count) read_member_request) (\<lambda>members.
     dc_return (q\<lparr>wq_context := context, wq_set_id := set_id_value, wq_members := members\<rparr>))))))))"

text \<open>The five requests about one member; removal and withdrawal carry a reason.\<close>

definition read_about_member :: "wire_request \<Rightarrow> (fabric_outcome, wire_request) decoder" where
  "read_about_member q =
     (let truncated = wire_malformed ''member request is truncated'';
          invalid = wire_malformed ''member request carries an invalid identity''
      in
     dc_then (dc_as (wire_malformed ''member request context is truncated or malformed'') read_context) (\<lambda>context.
     dc_then (dc_field truncated rd_id) (\<lambda>set_id.
     dc_then (dc_field truncated rd_id) (\<lambda>member_id.
     dc_some invalid (parse_set_id set_id) (\<lambda>set_id_value.
     dc_some invalid (parse_member_id member_id) (\<lambda>member_id_value.
     if wq_id q = MI_REMOVE_MEMBER \<or> wq_id q = MI_WITHDRAW_MEMBER
     then dc_then (dc_field (wire_malformed ''member removal reason is truncated'') (rd_string max_text_length)) (\<lambda>reason.
          dc_return (q\<lparr>wq_context := context, wq_set_id := set_id_value, wq_member_id := member_id_value,
                      wq_text := reason\<rparr>))
     else dc_return (q\<lparr>wq_context := context, wq_set_id := set_id_value, wq_member_id := member_id_value\<rparr>)))))))"

definition read_replace_member :: "wire_request \<Rightarrow> (fabric_outcome, wire_request) decoder" where
  "read_replace_member q =
     (let truncated = wire_malformed ''replace request is truncated'';
          invalid = wire_malformed ''replace request carries an invalid identity or generation''
      in
     dc_then (dc_as (wire_malformed ''replace request context is truncated or malformed'') read_context) (\<lambda>context.
     dc_then (dc_field truncated rd_id) (\<lambda>set_id.
     dc_then (dc_field truncated rd_id) (\<lambda>member_id.
     dc_then (dc_field truncated rd_id) (\<lambda>path.
     dc_then (dc_field truncated rd_u64) (\<lambda>generation.
     dc_then (dc_field truncated (rd_string max_text_length)) (\<lambda>reason.
     dc_some invalid (parse_set_id set_id) (\<lambda>set_id_value.
     dc_some invalid (parse_member_id member_id) (\<lambda>member_id_value.
     dc_some invalid (parse_path_id path) (\<lambda>path_value.
     dc_some invalid (gen_from_value generation) (\<lambda>generation_value.
     dc_return (q\<lparr>wq_context := context, wq_set_id := set_id_value, wq_member_id := member_id_value,
                 wq_path_id := path_value, wq_path_generation := generation_value, wq_text := reason\<rparr>))))))))))))"

definition read_set_minimum :: "wire_request \<Rightarrow> (fabric_outcome, wire_request) decoder" where
  "read_set_minimum q =
     (let truncated = wire_malformed ''minimum request is truncated''
      in
     dc_then (dc_as (wire_malformed ''minimum request context is truncated or malformed'') read_context) (\<lambda>context.
     dc_then (dc_field truncated rd_id) (\<lambda>set_id.
     dc_then (dc_field truncated rd_u64) (\<lambda>minimum.
     dc_some (wire_malformed ''minimum request carries an invalid set identity'') (parse_set_id set_id) (\<lambda>set_id_value.
     dc_return (q\<lparr>wq_context := context, wq_set_id := set_id_value, wq_number := minimum\<rparr>))))))"

definition read_set_policy :: "wire_request \<Rightarrow> (fabric_outcome, wire_request) decoder" where
  "read_set_policy q =
     (let truncated = wire_malformed ''policy request is truncated''
      in
     dc_then (dc_as (wire_malformed ''policy request context is truncated or malformed'') read_context) (\<lambda>context.
     dc_then (dc_field truncated rd_id) (\<lambda>set_id.
     dc_then (dc_field truncated rd_boolean) (\<lambda>permitted.
     dc_some (wire_malformed ''policy request carries an invalid set identity'') (parse_set_id set_id) (\<lambda>set_id_value.
     dc_return (q\<lparr>wq_context := context, wq_set_id := set_id_value, wq_flag := permitted\<rparr>))))))"

definition read_about_set :: "wire_request \<Rightarrow> (fabric_outcome, wire_request) decoder" where
  "read_about_set q =
     dc_then (dc_as (wire_malformed ''set request context is truncated or malformed'') read_context) (\<lambda>context.
     dc_then (dc_field (wire_malformed ''set request is truncated'') rd_id) (\<lambda>set_id.
     dc_some (wire_malformed ''set request carries an invalid set identity'') (parse_set_id set_id) (\<lambda>set_id_value.
     dc_return (q\<lparr>wq_context := context, wq_set_id := set_id_value\<rparr>))))"

definition read_revoke_set :: "wire_request \<Rightarrow> (fabric_outcome, wire_request) decoder" where
  "read_revoke_set q =
     (let truncated = wire_malformed ''revoke request is truncated''
      in
     dc_then (dc_as (wire_malformed ''revoke request context is truncated or malformed'') read_context) (\<lambda>context.
     dc_then (dc_field truncated rd_id) (\<lambda>set_id.
     dc_then (dc_field truncated rd_u8) (\<lambda>reason.
     dc_then (dc_field truncated (rd_string max_text_length)) (\<lambda>detail.
     dc_some (wire_malformed ''revoke request carries a malformed reason code'')
       (revocation_reason_of_raw reason) (\<lambda>reason_value.
     dc_some (wire_malformed ''revoke request carries an invalid set identity'') (parse_set_id set_id) (\<lambda>set_id_value.
     dc_return (q\<lparr>wq_context := context, wq_set_id := set_id_value, wq_revocation_reason := reason_value,
                 wq_text := detail\<rparr>))))))))"

definition read_retire_set :: "wire_request \<Rightarrow> (fabric_outcome, wire_request) decoder" where
  "read_retire_set q =
     (let truncated = wire_malformed ''retire request is truncated''
      in
     dc_then (dc_as (wire_malformed ''retire request context is truncated or malformed'') read_context) (\<lambda>context.
     dc_then (dc_field truncated rd_id) (\<lambda>set_id.
     dc_then (dc_field truncated (rd_string max_text_length)) (\<lambda>reason.
     dc_some (wire_malformed ''retire request carries an invalid set identity'') (parse_set_id set_id) (\<lambda>set_id_value.
     dc_return (q\<lparr>wq_context := context, wq_set_id := set_id_value, wq_text := reason\<rparr>))))))"

text \<open>The successor arrives in the text of the request.\<close>

definition read_supersede_set :: "wire_request \<Rightarrow> (fabric_outcome, wire_request) decoder" where
  "read_supersede_set q =
     (let truncated = wire_malformed ''supersede request is truncated'';
          invalid = wire_malformed ''supersede request carries an invalid set identity''
      in
     dc_then (dc_as (wire_malformed ''supersede request context is truncated or malformed'') read_context) (\<lambda>context.
     dc_then (dc_field truncated rd_id) (\<lambda>predecessor.
     dc_then (dc_field truncated rd_id) (\<lambda>successor.
     dc_some invalid (parse_set_id predecessor) (\<lambda>predecessor_value.
     dc_some invalid (parse_set_id successor) (\<lambda>successor_value.
     dc_return (q\<lparr>wq_context := context, wq_set_id := predecessor_value, wq_text := id_text successor_value\<rparr>)))))))"

definition read_epoch_advance :: "wire_request \<Rightarrow> (fabric_outcome, wire_request) decoder" where
  "read_epoch_advance q =
     dc_then (dc_as (wire_malformed ''epoch advance context is truncated or malformed'') read_context) (\<lambda>context.
     dc_then (dc_field (wire_malformed ''epoch advance request is truncated'') rd_u64) (\<lambda>expected.
     dc_check (wire_malformed ''epoch advance request carries an impossible epoch'')
       (gen_from_value expected \<noteq> (None :: coordinator_epoch option)) (
     dc_return (q\<lparr>wq_context := context, wq_number := expected\<rparr>))))"

definition read_set_state :: "wire_request \<Rightarrow> (fabric_outcome, wire_request) decoder" where
  "read_set_state q =
     (let truncated = wire_malformed ''set state request is truncated''
      in
     dc_then (dc_as (wire_malformed ''set state request context is truncated or malformed'') read_context) (\<lambda>context.
     dc_then (dc_field truncated rd_id) (\<lambda>set_id.
     dc_then (dc_field truncated rd_u8) (\<lambda>action.
     dc_then (dc_field truncated (rd_string max_text_length)) (\<lambda>reason.
     dc_some (wire_malformed ''set state request carries a malformed action selector'')
       (set_state_action_of_raw action) (\<lambda>action_value.
     dc_some (wire_malformed ''set state request carries an invalid set identity'') (parse_set_id set_id) (\<lambda>set_id_value.
     dc_return (q\<lparr>wq_context := context, wq_set_id := set_id_value, wq_state_action := action_value,
                 wq_text := reason\<rparr>))))))))"

definition read_path_view :: "wire_request \<Rightarrow> (fabric_outcome, wire_request) decoder" where
  "read_path_view q =
     (let truncated = wire_malformed ''path authority request is truncated'';
          invalid = wire_malformed ''path authority request carries an invalid identity or generation''
      in
     dc_then (dc_as (wire_malformed ''path authority request context is truncated or malformed'') read_context) (\<lambda>context.
     dc_then (dc_field truncated rd_id) (\<lambda>path.
     dc_then (dc_field truncated rd_u64) (\<lambda>generation.
     dc_then (dc_field truncated rd_u8) (\<lambda>state.
     dc_some (wire_malformed ''path authority request carries a malformed state'')
       (path_authority_state_of_raw state) (\<lambda>state_value.
     dc_some invalid (parse_path_id path) (\<lambda>path_value.
     dc_some invalid (gen_from_value generation) (\<lambda>generation_value.
     dc_return (q\<lparr>wq_context := context, wq_path_id := path_value, wq_path_generation := generation_value,
                 wq_path_state := state_value\<rparr>)))))))))"

definition read_refresh_path :: "wire_request \<Rightarrow> (fabric_outcome, wire_request) decoder" where
  "read_refresh_path q =
     dc_then (dc_as (wire_malformed ''refresh request context is truncated or malformed'') read_context) (\<lambda>context.
     dc_then (dc_field (wire_malformed ''refresh request is truncated'') rd_id) (\<lambda>path.
     dc_some (wire_malformed ''refresh request carries an invalid path identity'') (parse_path_id path) (\<lambda>path_value.
     dc_return (q\<lparr>wq_context := context, wq_path_id := path_value\<rparr>))))"

definition read_query :: "wire_request \<Rightarrow> (fabric_outcome, wire_request) decoder" where
  "read_query q =
     dc_then (dc_field (wire_malformed ''query request is truncated'') rd_id) (\<lambda>set_id.
     dc_some (wire_malformed ''query request carries an invalid set identity'') (parse_set_id set_id) (\<lambda>set_id_value.
     dc_return (q\<lparr>wq_set_id := set_id_value\<rparr>)))"

definition read_snapshot_request :: "wire_request \<Rightarrow> (fabric_outcome, wire_request) decoder" where
  "read_snapshot_request q =
     (let truncated = wire_malformed ''snapshot request is truncated'';
          invalid = wire_malformed ''snapshot request carries an invalid identity''
      in
     dc_then (dc_field truncated rd_id) (\<lambda>set_id.
     dc_then (dc_field truncated rd_id) (\<lambda>snapshot_id.
     dc_some invalid (parse_set_id set_id) (\<lambda>set_id_value.
     dc_some invalid (parse_snapshot_id snapshot_id) (\<lambda>snapshot_id_value.
     dc_return (q\<lparr>wq_set_id := set_id_value, wq_snapshot_id := snapshot_id_value\<rparr>))))))"

definition decode_request :: "message_id \<Rightarrow> (fabric_outcome, wire_request) decoder" where
  "decode_request i =
     (let q = empty_request i;
          not_a_request = dc_reject (make_rejection OC_PROTOCOL_ERROR
             (msg (message_text i @ '' is not a client request message'')))
      in case i of
        MI_HELLO \<Rightarrow> dc_return q
      | MI_LIST_SETS \<Rightarrow> dc_return q
      | MI_SHUTDOWN \<Rightarrow> dc_return q
      | MI_REGISTER_PUBLISHER \<Rightarrow> read_register q
      | MI_CREATE_SET \<Rightarrow> read_create_set q
      | MI_ADD_MEMBER \<Rightarrow> read_add_member q
      | MI_ADD_MEMBERS \<Rightarrow> read_add_members q
      | MI_REMOVE_MEMBER \<Rightarrow> read_about_member q
      | MI_WITHDRAW_MEMBER \<Rightarrow> read_about_member q
      | MI_REVALIDATE_MEMBER \<Rightarrow> read_about_member q
      | MI_MEMBER_ADMIN_ENABLE \<Rightarrow> read_about_member q
      | MI_MEMBER_ADMIN_DISABLE \<Rightarrow> read_about_member q
      | MI_REPLACE_MEMBER \<Rightarrow> read_replace_member q
      | MI_SET_MINIMUM \<Rightarrow> read_set_minimum q
      | MI_SET_CONDITIONAL_POLICY \<Rightarrow> read_set_policy q
      | MI_SET_ADMIN_ENABLE \<Rightarrow> read_about_set q
      | MI_SET_ADMIN_DISABLE \<Rightarrow> read_about_set q
      | MI_REVALIDATE_SET \<Rightarrow> read_about_set q
      | MI_REVOKE_SET \<Rightarrow> read_revoke_set q
      | MI_RETIRE_SET \<Rightarrow> read_retire_set q
      | MI_SUPERSEDE_SET \<Rightarrow> read_supersede_set q
      | MI_EPOCH_ADVANCE \<Rightarrow> read_epoch_advance q
      | MI_ADVANCE_SET_STATE \<Rightarrow> read_set_state q
      | MI_APPLY_PATH_AUTHORITY \<Rightarrow> read_path_view q
      | MI_DECLARE_PATH_AUTHORITY \<Rightarrow> read_path_view q
      | MI_REFRESH_PATH \<Rightarrow> read_refresh_path q
      | MI_QUERY_SET \<Rightarrow> read_query q
      | MI_EXPLAIN_SET \<Rightarrow> read_query q
      | MI_SNAPSHOT_REQUEST \<Rightarrow> read_snapshot_request q
      | MI_HELLO_ACK \<Rightarrow> not_a_request
      | MI_SNAPSHOT_RESPONSE \<Rightarrow> not_a_request
      | MI_FENCE_NOTICE \<Rightarrow> not_a_request
      | MI_RESULT \<Rightarrow> not_a_request
      | MI_ERROR \<Rightarrow> not_a_request)"

end
