(* ===== verification/Wire_Response.thy ===== *)
theory Wire_Response
  imports Wire_Request Explanation
begin

text \<open>
  The response codec of \<open>src/wire.cpp\<close>: outcomes, snapshots, explanations and the response that
  carries them. An encoder returns the outcome of the encoding with the writer, as the C++ does; a
  decoder answers with the rejection or the value.
\<close>

section \<open>Blocks of a decoder\<close>

definition dc_when :: "bool \<Rightarrow> ('e, 'a) decoder \<Rightarrow> ('e, 'a option) decoder" where
  "dc_when b p = (if b then dc_then p (\<lambda>v. dc_return (Some v)) else dc_return None)"

definition dc_parsed_id :: "'e \<Rightarrow> 'e \<Rightarrow> (string \<Rightarrow> 'a option) \<Rightarrow> ('e, 'a) decoder" where
  "dc_parsed_id truncated invalid parse =
     dc_then (dc_field truncated rd_id) (\<lambda>value.
     dc_some invalid (parse value) dc_return)"

definition dc_parsed_gen :: "'e \<Rightarrow> 'e \<Rightarrow> ('e, 'tag generation) decoder" where
  "dc_parsed_gen truncated impossible =
     dc_then (dc_field truncated rd_u64) (\<lambda>value.
     dc_some impossible (gen_from_value value) dc_return)"

definition dc_parsed_enum :: "'e \<Rightarrow> 'e \<Rightarrow> (u8 \<Rightarrow> 'a option) \<Rightarrow> ('e, 'a) decoder" where
  "dc_parsed_enum truncated invalid of_raw =
     dc_then (dc_field truncated rd_u8) (\<lambda>value.
     dc_some invalid (of_raw value) dc_return)"

definition rejection_stage_of_raw :: "u8 \<Rightarrow> rejection_stage option" where
  "rejection_stage_of_raw = enum_of_raw 0 all_rejection_stages"

definition explanation_reason_of_raw :: "u8 \<Rightarrow> explanation_reason option" where
  "explanation_reason_of_raw = enum_of_raw 1 all_explanation_reasons"

definition write_present :: "('a \<Rightarrow> byte_writer \<Rightarrow> byte_writer) \<Rightarrow> 'a option \<Rightarrow> byte_writer \<Rightarrow> byte_writer" where
  "write_present f v = bw_all (case v of None \<Rightarrow> [] | Some x \<Rightarrow> [f x])"

text \<open>A value behind a presence flag.\<close>

definition write_flagged :: "('a \<Rightarrow> byte_writer \<Rightarrow> byte_writer) \<Rightarrow> 'a option \<Rightarrow> byte_writer \<Rightarrow> byte_writer" where
  "write_flagged f v = bw_all [bw_boolean (v \<noteq> None), write_present f v]"

section \<open>Outcomes\<close>

definition outcome_mask :: "fabric_outcome \<Rightarrow> u8" where
  "outcome_mask o1 =
     (if o_set_id o1 \<noteq> None then 0x01 else 0) OR
     (if o_member_id o1 \<noteq> None then 0x02 else 0) OR
     (if o_path_id o1 \<noteq> None then 0x04 else 0) OR
     (if o_set_generation o1 \<noteq> None then 0x08 else 0) OR
     (if o_membership_generation o1 \<noteq> None then 0x10 else 0) OR
     (if o_member_generation o1 \<noteq> None then 0x20 else 0) OR
     (if o_authority_generation o1 \<noteq> None then 0x40 else 0) OR
     (if o_lifecycle o1 \<noteq> None then 0x80 else 0)"

definition outcome_mask2 :: "fabric_outcome \<Rightarrow> u8" where
  "outcome_mask2 o1 =
     (if o_currentness o1 \<noteq> None then 0x01 else 0) OR
     (if o_usable_members o1 \<noteq> None then 0x02 else 0) OR
     (if o_minimum_usable_members o1 \<noteq> None then 0x04 else 0) OR
     (if o_digest o1 \<noteq> None then 0x08 else 0)"

definition write_digest :: "digest128 \<Rightarrow> byte_writer \<Rightarrow> byte_writer" where
  "write_digest d = bw_all [bw_u64 (dg_high d), bw_u64 (dg_low d)]"

definition write_outcome :: "fabric_outcome \<Rightarrow> byte_writer \<Rightarrow> byte_writer" where
  "write_outcome o1 = bw_all
     [bw_u16 (outcome_raw (o_code o1)),
      bw_u8 (rejection_stage_raw (o_stage o1)),
      bw_u8 (outcome_mask o1),
      bw_u8 (outcome_mask2 o1),
      write_present bw_id (o_set_id o1),
      write_present bw_id (o_member_id o1),
      write_present bw_id (o_path_id o1),
      write_present (\<lambda>g. bw_u64 (gen_value g)) (o_set_generation o1),
      write_present (\<lambda>g. bw_u64 (gen_value g)) (o_membership_generation o1),
      write_present (\<lambda>g. bw_u64 (gen_value g)) (o_member_generation o1),
      write_present (\<lambda>g. bw_u64 (gen_value g)) (o_authority_generation o1),
      write_present (\<lambda>l. bw_u8 (set_lifecycle_raw l)) (o_lifecycle o1),
      write_present (\<lambda>c. bw_u8 (set_currentness_raw c)) (o_currentness o1),
      write_present (\<lambda>n. bw_u64 (of_nat n)) (o_usable_members o1),
      write_present (\<lambda>n. bw_u64 (of_nat n)) (o_minimum_usable_members o1),
      write_present write_digest (o_digest o1),
      bw_string max_detail_length (o_detail o1)]"

definition checked_writer :: "string \<Rightarrow> byte_writer \<Rightarrow> fabric_outcome \<times> byte_writer" where
  "checked_writer text writer =
     (if bw_overflowed writer then (make_rejection OC_RESOURCE_LIMIT (msg text), writer)
      else (make_outcome OC_OK [], writer))"

definition encode_outcome :: "fabric_outcome \<Rightarrow> byte_writer \<Rightarrow> fabric_outcome \<times> byte_writer" where
  "encode_outcome o1 writer =
     checked_writer ''outcome encoding exceeded its bound'' (write_outcome o1 writer)"

definition read_digest :: "(fabric_outcome, digest128) decoder" where
  "read_digest =
     (let truncated = wire_malformed ''result digest is truncated''
      in
     dc_then (dc_field truncated rd_u64) (\<lambda>high.
     dc_then (dc_field truncated rd_u64) (\<lambda>low.
     dc_return (Digest128 high low))))"

definition read_count :: "fabric_outcome \<Rightarrow> (fabric_outcome, nat) decoder" where
  "read_count truncated =
     dc_then (dc_field truncated rd_u64) (\<lambda>value.
     dc_return (unat value))"

definition decode_outcome :: "(fabric_outcome, fabric_outcome) decoder" where
  "decode_outcome =
     (let truncated = make_rejection OC_FRAMING_ERROR (msg ''result payload header is truncated'')
      in
     dc_then (dc_field truncated rd_u16) (\<lambda>code.
     dc_then (dc_field truncated rd_u8) (\<lambda>stage.
     dc_then (dc_field truncated rd_u8) (\<lambda>mask.
     dc_then (dc_field truncated rd_u8) (\<lambda>mask2.
     dc_some (make_rejection OC_FRAMING_ERROR
         (msg (''result carries an unknown outcome code '' @ nat_string (unat code))))
       (outcome_of_raw code) (\<lambda>code_value.
     dc_some (make_rejection OC_FRAMING_ERROR (msg ''result carries an unknown rejection stage''))
       (rejection_stage_of_raw stage) (\<lambda>stage_value.
     dc_then (dc_when (mask AND 0x01 \<noteq> 0) (dc_parsed_id (wire_malformed ''result set identity is truncated'')
       (wire_malformed ''result carries an invalid set identity'') parse_set_id)) (\<lambda>set_id.
     dc_then (dc_when (mask AND 0x02 \<noteq> 0) (dc_parsed_id (wire_malformed ''result member identity is truncated'')
       (wire_malformed ''result carries an invalid member identity'') parse_member_id)) (\<lambda>member_id.
     dc_then (dc_when (mask AND 0x04 \<noteq> 0) (dc_parsed_id (wire_malformed ''result path identity is truncated'')
       (wire_malformed ''result carries an invalid path identity'') parse_path_id)) (\<lambda>path_id.
     dc_then (dc_when (mask AND 0x08 \<noteq> 0) (dc_parsed_gen (wire_malformed ''result set generation is truncated'')
       (wire_malformed ''result carries an impossible set generation''))) (\<lambda>set_generation.
     dc_then (dc_when (mask AND 0x10 \<noteq> 0) (dc_parsed_gen (wire_malformed ''result membership generation is truncated'')
       (wire_malformed ''result carries an impossible membership generation''))) (\<lambda>membership_generation.
     dc_then (dc_when (mask AND 0x20 \<noteq> 0) (dc_parsed_gen (wire_malformed ''result member generation is truncated'')
       (wire_malformed ''result carries an impossible member generation''))) (\<lambda>member_generation.
     dc_then (dc_when (mask AND 0x40 \<noteq> 0) (dc_parsed_gen (wire_malformed ''result authority generation is truncated'')
       (wire_malformed ''result carries an impossible authority generation''))) (\<lambda>authority_generation.
     dc_then (dc_when (mask AND 0x80 \<noteq> 0) (dc_parsed_enum (wire_malformed ''result lifecycle is truncated'')
       (wire_malformed ''result carries a malformed lifecycle'') set_lifecycle_of_raw)) (\<lambda>lifecycle.
     dc_then (dc_when (mask2 AND 0x01 \<noteq> 0) (dc_parsed_enum (wire_malformed ''result currentness is truncated'')
       (wire_malformed ''result carries a malformed currentness'') set_currentness_of_raw)) (\<lambda>currentness.
     dc_then (dc_when (mask2 AND 0x02 \<noteq> 0) (read_count (wire_malformed ''result usable count is truncated''))) (\<lambda>usable.
     dc_then (dc_when (mask2 AND 0x04 \<noteq> 0) (read_count (wire_malformed ''result minimum requirement is truncated''))) (\<lambda>minimum.
     dc_then (dc_when (mask2 AND 0x08 \<noteq> 0) read_digest) (\<lambda>digest.
     dc_then (dc_field (wire_malformed ''result detail is truncated'') (rd_string max_detail_length)) (\<lambda>detail.
     dc_return
       \<lparr>o_code = code_value, o_stage = stage_value, o_detail = detail, o_set_id = set_id,
        o_member_id = member_id, o_path_id = path_id, o_set_generation = set_generation,
        o_membership_generation = membership_generation, o_member_generation = member_generation,
        o_authority_generation = authority_generation, o_lifecycle = lifecycle,
        o_currentness = currentness, o_usable_members = usable, o_minimum_usable_members = minimum,
        o_digest = digest\<rparr>))))))))))))))))))))"

section \<open>Snapshots\<close>

definition write_wire_revocation :: "revocation_record \<Rightarrow> byte_writer \<Rightarrow> byte_writer" where
  "write_wire_revocation v = bw_all
     [bw_u8 (revocation_reason_raw (rv_reason v)),
      bw_string max_text_length (rv_detail v),
      bw_u64 (gen_value (rv_generation v)),
      bw_u64 (gen_value (rv_authority_generation v)),
      bw_u64 (gen_value (rv_epoch v)),
      bw_id (rv_publisher v)]"

text \<open>A provenance; the epoch of a set falls back to 1 and that of a member to 0.\<close>

definition write_wire_provenance :: "u64 \<Rightarrow> membership_provenance \<Rightarrow> byte_writer \<Rightarrow> byte_writer" where
  "write_wire_provenance epoch_fallback p = bw_all
     [bw_id_text (written_id (pv_publisher p)),
      bw_id_text (written_id (pv_worker_boot p)),
      bw_u64 (written_gen epoch_fallback (pv_epoch p)),
      bw_id_text (written_id (pv_attempt p)),
      bw_u64 (written_gen 1 (pv_set_generation p)),
      bw_u8 (membership_cause_raw (pv_cause p))]"

definition write_snapshot_head :: "set_snapshot \<Rightarrow> byte_writer \<Rightarrow> byte_writer" where
  "write_snapshot_head s = bw_all
     [bw_id (ss_snapshot_id s),
      bw_id (ss_set_id s),
      write_key (ss_key s),
      bw_u64 (gen_value (ss_generation s)),
      bw_u64 (gen_value (ss_membership_generation s)),
      bw_u64 (gen_value (ss_authority_generation s)),
      bw_u8 (set_lifecycle_raw (ss_lifecycle s)),
      bw_u8 (set_currentness_raw (ss_currentness s)),
      bw_u8 (route_readiness_value_raw (ss_readiness s)),
      bw_boolean (ss_admin_enabled s),
      bw_u64 (of_nat (ss_minimum s)),
      bw_boolean (ss_conditional s),
      bw_u64 (of_nat (ss_usable_count s)),
      bw_u64 (of_nat (ss_member_count s)),
      bw_u64 (gen_value (ss_governing_epoch s)),
      bw_u64 (dg_high (ss_digest s)),
      bw_u64 (dg_low (ss_digest s)),
      write_flagged bw_id (ss_superseded_by s),
      write_flagged bw_id (ss_supersedes s),
      write_flagged write_wire_revocation (ss_revocation s),
      bw_string max_text_length (ss_withdrawal_reason s),
      write_wire_provenance 1 (ss_provenance s)]"

definition write_history_entry :: "history_entry \<Rightarrow> byte_writer \<Rightarrow> byte_writer" where
  "write_history_entry h = bw_all
     [bw_u64 (gen_value (h_set_generation h)),
      bw_u8 (set_event_raw (h_event h)),
      bw_u8 (membership_cause_raw (h_cause h)),
      bw_id_text (written_id (h_publisher h)),
      bw_u64 (written_gen 1 (h_epoch h)),
      write_flagged bw_id (h_member_id h),
      write_flagged bw_id (h_path_id h),
      bw_string max_detail_length (h_summary h)]"

definition write_member_snapshot :: "member_snapshot \<Rightarrow> byte_writer \<Rightarrow> byte_writer" where
  "write_member_snapshot m = bw_all
     [bw_id (ms_id m),
      bw_id (ms_path_id m),
      bw_u64 (gen_value (ms_bound m)),
      bw_u64 (gen_value (ms_generation m)),
      bw_u8 (member_lifecycle_raw (ms_lifecycle m)),
      bw_u8 (member_currentness_raw (ms_currentness m)),
      bw_boolean (ms_admin_enabled m),
      bw_boolean (ms_usable m),
      bw_u64 (wm_value (ms_watermark m)),
      bw_u32 (ms_pending m),
      write_flagged bw_id (ms_predecessor m),
      write_flagged bw_id (ms_successor m),
      write_wire_provenance 0 (ms_provenance m)]"

definition encode_snapshot :: "set_snapshot \<Rightarrow> byte_writer \<Rightarrow> fabric_outcome \<times> byte_writer" where
  "encode_snapshot s writer =
     (let writer = write_snapshot_head s writer
      in case narrow_u32 (of_nat (length (ss_history s))) of
        None \<Rightarrow> (make_rejection OC_RESOURCE_LIMIT (msg ''snapshot history count is not representable''), writer)
      | Some history_count \<Rightarrow>
        (let writer = bw_all [bw_u32 history_count, bw_each write_history_entry (ss_history s)] writer
         in case narrow_u32 (of_nat (length (ss_members s))) of
           None \<Rightarrow> (make_rejection OC_RESOURCE_LIMIT (msg ''snapshot member count is not representable''), writer)
         | Some member_count \<Rightarrow>
             checked_writer ''snapshot encoding exceeded its bound''
               (bw_all [bw_u32 member_count, bw_each write_member_snapshot (ss_members s)] writer)))"

definition read_wire_revocation :: "set_id \<Rightarrow> (fabric_outcome, revocation_record) decoder" where
  "read_wire_revocation sid =
     (let truncated = wire_malformed ''snapshot revocation block is truncated'';
          impossible = wire_malformed ''snapshot revocation carries an impossible generation''
      in
     dc_then (dc_field truncated rd_u8) (\<lambda>reason.
     dc_then (dc_field truncated (rd_string max_text_length)) (\<lambda>detail.
     dc_then (dc_field truncated rd_u64) (\<lambda>generation.
     dc_then (dc_field truncated rd_u64) (\<lambda>authority.
     dc_then (dc_field truncated rd_u64) (\<lambda>epoch.
     dc_then (dc_field truncated rd_id) (\<lambda>publisher.
     dc_some (wire_malformed ''snapshot revocation carries a malformed reason'')
       (revocation_reason_of_raw reason) (\<lambda>reason_value.
     dc_some impossible (gen_from_value generation) (\<lambda>generation_parsed.
     dc_some impossible (gen_from_value authority) (\<lambda>authority_parsed.
     dc_some impossible (gen_from_value epoch) (\<lambda>epoch_parsed.
     dc_some impossible (parse_publisher_id publisher) (\<lambda>publisher_parsed.
     dc_return
       \<lparr>rv_set_id = sid, rv_generation = generation_parsed, rv_authority_generation = authority_parsed,
        rv_epoch = epoch_parsed, rv_publisher = publisher_parsed, rv_reason = reason_value,
        rv_detail = detail\<rparr>))))))))))))"

definition read_set_provenance :: "(fabric_outcome, membership_provenance) decoder" where
  "read_set_provenance =
     (let truncated = wire_malformed ''snapshot set provenance is truncated''
      in
     dc_then (dc_field truncated rd_id) (\<lambda>publisher.
     dc_then (dc_field truncated rd_id) (\<lambda>boot.
     dc_then (dc_field truncated rd_u64) (\<lambda>epoch.
     dc_then (dc_field truncated rd_id) (\<lambda>attempt.
     dc_then (dc_field truncated rd_u64) (\<lambda>provenance_generation.
     dc_then (dc_field truncated rd_u8) (\<lambda>provenance_cause.
     dc_some (wire_malformed ''snapshot set provenance carries a malformed cause'')
       (membership_cause_of_raw provenance_cause) (\<lambda>cause_value.
     dc_lenient_id (wire_malformed ''snapshot set provenance publisher is invalid'')
       parse_publisher_id publisher (\<lambda>publisher_value.
     dc_lenient_id (wire_malformed ''snapshot set provenance boot is invalid'')
       parse_worker_boot_id boot (\<lambda>boot_value.
     dc_lenient_id (wire_malformed ''snapshot set provenance attempt is invalid'')
       parse_attempt_id attempt (\<lambda>attempt_value.
     dc_some (wire_malformed ''snapshot set provenance carries an impossible epoch'')
       (gen_from_value epoch) (\<lambda>epoch_value.
     dc_lenient_gen (wire_malformed ''snapshot set provenance carries an impossible generation'')
       provenance_generation (\<lambda>generation_value.
     dc_return
       \<lparr>pv_publisher = publisher_value, pv_worker_boot = boot_value, pv_epoch = epoch_value,
        pv_attempt = attempt_value, pv_set_generation = generation_value, pv_cause = cause_value\<rparr>)))))))))))))"

definition read_history_entry :: "(fabric_outcome, history_entry) decoder" where
  "read_history_entry =
     (let truncated = wire_malformed ''snapshot history entry is truncated'';
          identity = wire_malformed ''snapshot history identity is truncated'';
          enumerator = wire_malformed ''snapshot history entry carries a malformed enumerator'';
          impossible = wire_malformed ''snapshot history entry carries an impossible generation''
      in
     dc_then (dc_field truncated rd_u64) (\<lambda>generation.
     dc_then (dc_field truncated rd_u8) (\<lambda>event.
     dc_then (dc_field truncated rd_u8) (\<lambda>cause.
     dc_then (dc_field truncated rd_id) (\<lambda>publisher.
     dc_then (dc_field truncated rd_u64) (\<lambda>epoch.
     dc_then (dc_as identity read_optional_id) (\<lambda>member.
     dc_then (dc_as identity read_optional_id) (\<lambda>path.
     dc_then (dc_field (wire_malformed ''snapshot history summary is truncated'') (rd_string max_detail_length)) (\<lambda>summary.
     dc_some enumerator (set_event_of_raw event) (\<lambda>event_value.
     dc_some enumerator (membership_cause_of_raw cause) (\<lambda>cause_value.
     dc_some impossible (gen_from_value generation) (\<lambda>generation_value.
     dc_some impossible (gen_from_value epoch) (\<lambda>epoch_value.
     dc_lenient_id (wire_malformed ''snapshot history publisher is invalid'') parse_publisher_id publisher (\<lambda>publisher_value.
     dc_opt_text (wire_malformed ''snapshot history member identity is invalid'') parse_member_id member (\<lambda>member_value.
     dc_opt_text (wire_malformed ''snapshot history path identity is invalid'') parse_path_id path (\<lambda>path_value.
     dc_return
       \<lparr>h_set_generation = generation_value, h_event = event_value, h_cause = cause_value,
        h_publisher = publisher_value, h_epoch = epoch_value, h_member_id = member_value,
        h_path_id = path_value, h_summary = summary\<rparr>))))))))))))))))"

definition read_member_provenance :: "(fabric_outcome, membership_provenance) decoder" where
  "read_member_provenance =
     (let truncated = wire_malformed ''snapshot member provenance is truncated''
      in
     dc_then (dc_field truncated rd_id) (\<lambda>publisher.
     dc_then (dc_field truncated rd_id) (\<lambda>boot.
     dc_then (dc_field truncated rd_u64) (\<lambda>epoch.
     dc_then (dc_field truncated rd_id) (\<lambda>attempt.
     dc_then (dc_field truncated rd_u64) (\<lambda>provenance_generation.
     dc_then (dc_field truncated rd_u8) (\<lambda>provenance_cause.
     dc_some (wire_malformed ''snapshot member provenance carries a malformed cause'')
       (membership_cause_of_raw provenance_cause) (\<lambda>cause_value.
     dc_lenient_gen (wire_malformed ''snapshot member provenance carries an impossible generation'')
       provenance_generation (\<lambda>generation_value.
     dc_lenient_id (wire_malformed ''snapshot member provenance publisher is invalid'')
       parse_publisher_id publisher (\<lambda>publisher_value.
     dc_lenient_id (wire_malformed ''snapshot member provenance boot is invalid'')
       parse_worker_boot_id boot (\<lambda>boot_value.
     dc_lenient_gen (wire_malformed ''snapshot member provenance epoch is invalid'') epoch (\<lambda>epoch_value.
     dc_lenient_id (wire_malformed ''snapshot member provenance attempt is invalid'')
       parse_attempt_id attempt (\<lambda>attempt_value.
     dc_return
       \<lparr>pv_publisher = publisher_value, pv_worker_boot = boot_value, pv_epoch = epoch_value,
        pv_attempt = attempt_value, pv_set_generation = generation_value, pv_cause = cause_value\<rparr>)))))))))))))"

definition read_member_snapshot :: "(fabric_outcome, member_snapshot) decoder" where
  "read_member_snapshot =
     (let truncated = wire_malformed ''snapshot member block is truncated'';
          invalid = wire_malformed ''snapshot member carries an invalid identity or generation'';
          enumerator = wire_malformed ''snapshot member carries a malformed enumerator''
      in
     dc_then (dc_field truncated rd_id) (\<lambda>member_id.
     dc_then (dc_field truncated rd_id) (\<lambda>path.
     dc_then (dc_field truncated rd_u64) (\<lambda>bound.
     dc_then (dc_field truncated rd_u64) (\<lambda>generation.
     dc_then (dc_field truncated rd_u8) (\<lambda>lifecycle.
     dc_then (dc_field truncated rd_u8) (\<lambda>currentness.
     dc_then (dc_field truncated rd_boolean) (\<lambda>admin.
     dc_then (dc_field truncated rd_boolean) (\<lambda>usable.
     dc_then (dc_field truncated rd_u64) (\<lambda>watermark.
     dc_then (dc_field truncated rd_u32) (\<lambda>pending.
     dc_some invalid (parse_member_id member_id) (\<lambda>id_value.
     dc_some invalid (parse_path_id path) (\<lambda>path_value.
     dc_some invalid (gen_from_value bound) (\<lambda>bound_value.
     dc_some invalid (gen_from_value generation) (\<lambda>generation_value.
     dc_some enumerator (member_lifecycle_of_raw lifecycle) (\<lambda>lifecycle_value.
     dc_some enumerator (member_currentness_of_raw currentness) (\<lambda>currentness_value.
     dc_then (dc_as (wire_malformed ''snapshot member predecessor is truncated'') read_optional_id) (\<lambda>optional.
     dc_opt_text (wire_malformed ''snapshot member predecessor is invalid'') parse_member_id optional (\<lambda>predecessor.
     dc_then (dc_as (wire_malformed ''snapshot member successor is truncated'') read_optional_id) (\<lambda>optional.
     dc_opt_text (wire_malformed ''snapshot member successor is invalid'') parse_member_id optional (\<lambda>successor.
     dc_then read_member_provenance (\<lambda>provenance.
     dc_return
       \<lparr>ms_id = id_value, ms_path_id = path_value, ms_bound = bound_value, ms_generation = generation_value,
        ms_lifecycle = lifecycle_value, ms_currentness = currentness_value, ms_admin_enabled = admin,
        ms_usable = usable, ms_watermark = Watermark watermark, ms_pending = pending,
        ms_predecessor = predecessor, ms_successor = successor, ms_provenance = provenance\<rparr>))))))))))))))))))))))"

text \<open>Everything before the history: history and members are still empty.\<close>

definition read_snapshot_head :: "(fabric_outcome, set_snapshot) decoder" where
  "read_snapshot_head =
     (let identity = wire_malformed ''snapshot identity is truncated'';
          invalid = wire_malformed ''snapshot carries an invalid identity'';
          truncated = wire_malformed ''snapshot scalar block is truncated'';
          impossible = wire_malformed ''snapshot carries an impossible generation'';
          enumerator = wire_malformed ''snapshot carries a malformed enumerator''
      in
     dc_then (dc_field identity rd_id) (\<lambda>snapshot_id.
     dc_then (dc_field identity rd_id) (\<lambda>set_id.
     dc_some invalid (parse_snapshot_id snapshot_id) (\<lambda>snapshot_id_value.
     dc_some invalid (parse_set_id set_id) (\<lambda>set_id_value.
     dc_then (dc_as (wire_malformed ''snapshot set key is truncated or malformed'') read_key) (\<lambda>key.
     dc_then (dc_field truncated rd_u64) (\<lambda>generation.
     dc_then (dc_field truncated rd_u64) (\<lambda>membership_generation.
     dc_then (dc_field truncated rd_u64) (\<lambda>authority_generation.
     dc_then (dc_field truncated rd_u8) (\<lambda>lifecycle.
     dc_then (dc_field truncated rd_u8) (\<lambda>currentness.
     dc_then (dc_field truncated rd_u8) (\<lambda>readiness.
     dc_then (dc_field truncated rd_boolean) (\<lambda>admin_enabled.
     dc_then (dc_field truncated rd_u64) (\<lambda>minimum.
     dc_then (dc_field truncated rd_boolean) (\<lambda>conditional.
     dc_then (dc_field truncated rd_u64) (\<lambda>usable.
     dc_then (dc_field truncated rd_u64) (\<lambda>member_count.
     dc_then (dc_field truncated rd_u64) (\<lambda>governing_epoch.
     dc_then (dc_field truncated rd_u64) (\<lambda>digest_high.
     dc_then (dc_field truncated rd_u64) (\<lambda>digest_low.
     dc_some impossible (gen_from_value generation) (\<lambda>generation_value.
     dc_some impossible (gen_from_value membership_generation) (\<lambda>membership_value.
     dc_some impossible (gen_from_value authority_generation) (\<lambda>authority_value.
     dc_some impossible (gen_from_value governing_epoch) (\<lambda>epoch_value.
     dc_some enumerator (set_lifecycle_of_raw lifecycle) (\<lambda>lifecycle_value.
     dc_some enumerator (set_currentness_of_raw currentness) (\<lambda>currentness_value.
     dc_some enumerator (route_readiness_value_of_raw readiness) (\<lambda>readiness_value.
     dc_check (wire_malformed ''snapshot declares an absurd member count'') (\<not> unat member_count > 1000000) (
     dc_then (dc_as (wire_malformed ''snapshot supersession field is truncated'') read_optional_id) (\<lambda>optional.
     dc_opt_text (wire_malformed ''snapshot carries an invalid superseded_by'') parse_set_id optional (\<lambda>superseded_by.
     dc_then (dc_as (wire_malformed ''snapshot predecessor field is truncated'') read_optional_id) (\<lambda>optional.
     dc_opt_text (wire_malformed ''snapshot carries an invalid supersedes'') parse_set_id optional (\<lambda>supersedes.
     dc_then (dc_field (wire_malformed ''snapshot revocation flag is truncated'') rd_boolean) (\<lambda>has_revocation.
     dc_then (dc_when has_revocation (read_wire_revocation set_id_value)) (\<lambda>revocation.
     dc_then (dc_field (wire_malformed ''snapshot withdrawal reason is truncated'') (rd_string max_text_length)) (\<lambda>withdrawal.
     dc_then read_set_provenance (\<lambda>provenance.
     dc_return
       \<lparr>ss_snapshot_id = snapshot_id_value, ss_set_id = set_id_value, ss_key = key,
        ss_generation = generation_value, ss_membership_generation = membership_value,
        ss_authority_generation = authority_value, ss_lifecycle = lifecycle_value,
        ss_currentness = currentness_value, ss_readiness = readiness_value,
        ss_admin_enabled = admin_enabled, ss_minimum = unat minimum, ss_conditional = conditional,
        ss_usable_count = unat usable, ss_member_count = unat member_count,
        ss_governing_epoch = epoch_value, ss_provenance = provenance, ss_superseded_by = superseded_by,
        ss_supersedes = supersedes, ss_revocation = revocation, ss_withdrawal_reason = withdrawal,
        ss_members = [], ss_history = [],
        ss_digest = Digest128 digest_high digest_low\<rparr>))))))))))))))))))))))))))))))))))))"

definition decode_snapshot :: "(fabric_outcome, set_snapshot) decoder" where
  "decode_snapshot =
     dc_then read_snapshot_head (\<lambda>snapshot.
     dc_then (dc_field (wire_malformed ''snapshot history count is truncated'') rd_u32) (\<lambda>history_count.
     dc_check (wire_malformed ''snapshot declares an absurd history count'') (\<not> unat history_count > 100000) (
     dc_then (dc_list (unat history_count) read_history_entry) (\<lambda>history.
     dc_then (dc_field (wire_malformed ''snapshot member count is truncated'') rd_u32) (\<lambda>count.
     dc_check (wire_malformed ''snapshot declares an absurd member count'') (\<not> unat count > 1000000) (
     dc_then (dc_list (unat count) read_member_snapshot) (\<lambda>members.
     dc_return (snapshot\<lparr>ss_history := history, ss_members := members\<rparr>))))))))"

section \<open>Explanations\<close>

definition write_member_explanation :: "member_explanation \<Rightarrow> byte_writer \<Rightarrow> byte_writer" where
  "write_member_explanation m = bw_all
     [bw_id (me_id m),
      bw_id (me_path_id m),
      bw_u8 (member_lifecycle_raw (me_lifecycle m)),
      bw_u8 (member_currentness_raw (me_currentness m)),
      bw_boolean (me_admin_enabled m),
      bw_boolean (me_usable m),
      bw_u64 (gen_value (me_bound m)),
      write_flagged (\<lambda>g. bw_u64 (gen_value g)) (me_observed_generation m),
      write_flagged (\<lambda>v. bw_u8 (path_authority_state_raw v)) (me_observed_state m),
      bw_u32 (me_pending m),
      bw_u8 (explanation_reason_raw (me_reason m))]"

definition write_explanation_head :: "set_explanation \<Rightarrow> byte_writer \<Rightarrow> byte_writer" where
  "write_explanation_head x = bw_all
     [bw_id (se_set_id x),
      write_key (se_key x),
      bw_u8 (set_lifecycle_raw (se_lifecycle x)),
      bw_u8 (set_currentness_raw (se_currentness x)),
      bw_u8 (route_readiness_value_raw (se_readiness x)),
      bw_u64 (of_nat (se_member_count x)),
      bw_u64 (of_nat (se_usable_count x)),
      bw_u64 (of_nat (se_minimum x)),
      bw_boolean (se_minimum_satisfied x),
      bw_boolean (se_admin_enabled x),
      bw_boolean (se_conditional x),
      bw_u64 (gen_value (se_governing_epoch x)),
      bw_u64 (gen_value (se_authority_generation x)),
      bw_u8 (membership_cause_raw (se_last_cause x)),
      write_flagged bw_id (se_last_publisher x)]"

definition encode_explanation :: "set_explanation \<Rightarrow> byte_writer \<Rightarrow> fabric_outcome \<times> byte_writer" where
  "encode_explanation x writer =
     (let writer = write_explanation_head x writer
      in case narrow_u32 (of_nat (length (se_reasons x))) of
        None \<Rightarrow> (make_rejection OC_RESOURCE_LIMIT (msg ''explanation reason count is not representable''), writer)
      | Some reason_count \<Rightarrow>
        (let writer = bw_all [bw_u32 reason_count,
                         bw_each (\<lambda>reason. bw_u8 (explanation_reason_raw reason)) (se_reasons x)] writer
         in case narrow_u32 (of_nat (length (se_members x))) of
           None \<Rightarrow> (make_rejection OC_RESOURCE_LIMIT (msg ''explanation member count is not representable''), writer)
         | Some member_count \<Rightarrow>
             checked_writer ''explanation encoding exceeded its bound''
               (bw_all [bw_u32 member_count, bw_each write_member_explanation (se_members x),
                        bw_boolean (se_truncated x)] writer)))"

definition read_member_explanation :: "(fabric_outcome, member_explanation) decoder" where
  "read_member_explanation =
     (let truncated = wire_malformed ''explanation member block is truncated'';
          tail = wire_malformed ''explanation member tail is truncated'';
          enumerator = wire_malformed ''explanation member carries a malformed enumerator'';
          invalid = wire_malformed ''explanation member carries an invalid identity or generation''
      in
     dc_then (dc_field truncated rd_id) (\<lambda>member_id.
     dc_then (dc_field truncated rd_id) (\<lambda>path.
     dc_then (dc_field truncated rd_u8) (\<lambda>lifecycle.
     dc_then (dc_field truncated rd_u8) (\<lambda>currentness.
     dc_then (dc_field truncated rd_boolean) (\<lambda>admin.
     dc_then (dc_field truncated rd_boolean) (\<lambda>usable.
     dc_then (dc_field truncated rd_u64) (\<lambda>bound.
     dc_then (dc_field truncated rd_boolean) (\<lambda>has_observed_generation.
     dc_then (dc_when has_observed_generation
       (dc_field (wire_malformed ''explanation observed generation is truncated'') rd_u64)) (\<lambda>observed_generation.
     dc_then (dc_field (wire_malformed ''explanation observed state flag is truncated'') rd_boolean) (\<lambda>has_observed_state.
     dc_then (dc_when has_observed_state
       (dc_parsed_enum (wire_malformed ''explanation observed state is truncated'')
          (wire_malformed ''explanation observed state is malformed'') path_authority_state_of_raw)) (\<lambda>observed_state.
     dc_then (dc_field tail rd_u32) (\<lambda>pending.
     dc_then (dc_field tail rd_u8) (\<lambda>reason.
     dc_some enumerator (member_lifecycle_of_raw lifecycle) (\<lambda>lifecycle_value.
     dc_some enumerator (member_currentness_of_raw currentness) (\<lambda>currentness_value.
     dc_some enumerator (explanation_reason_of_raw reason) (\<lambda>reason_value.
     dc_some invalid (parse_member_id member_id) (\<lambda>id_value.
     dc_some invalid (parse_path_id path) (\<lambda>path_value.
     dc_some invalid (gen_from_value bound) (\<lambda>bound_value.
     dc_check (wire_malformed ''explanation member observed generation is impossible'')
       (pred_option (\<lambda>g. g \<noteq> 0) observed_generation) (
     dc_return
       \<lparr>me_id = id_value, me_path_id = path_value, me_lifecycle = lifecycle_value,
        me_currentness = currentness_value, me_admin_enabled = admin, me_usable = usable,
        me_bound = bound_value, me_observed_generation = map_option Generation observed_generation,
        me_observed_state = observed_state, me_pending = pending, me_reason = reason_value\<rparr>)))))))))))))))))))))"

definition read_explanation_head :: "(fabric_outcome, set_explanation) decoder" where
  "read_explanation_head =
     (let truncated = wire_malformed ''explanation scalar block is truncated'';
          enumerator = wire_malformed ''explanation carries a malformed enumerator'';
          impossible = wire_malformed ''explanation carries an impossible generation''
      in
     dc_then (dc_field (wire_malformed ''explanation set identity is truncated'') rd_id) (\<lambda>set_id.
     dc_some (wire_malformed ''explanation carries an invalid set identity'') (parse_set_id set_id) (\<lambda>set_id_value.
     dc_then (dc_as (wire_malformed ''explanation key is truncated or malformed'') read_key) (\<lambda>key.
     dc_then (dc_field truncated rd_u8) (\<lambda>lifecycle.
     dc_then (dc_field truncated rd_u8) (\<lambda>currentness.
     dc_then (dc_field truncated rd_u8) (\<lambda>readiness.
     dc_then (dc_field truncated rd_u64) (\<lambda>member_count.
     dc_then (dc_field truncated rd_u64) (\<lambda>usable.
     dc_then (dc_field truncated rd_u64) (\<lambda>minimum.
     dc_then (dc_field truncated rd_boolean) (\<lambda>minimum_satisfied.
     dc_then (dc_field truncated rd_boolean) (\<lambda>admin_enabled.
     dc_then (dc_field truncated rd_boolean) (\<lambda>conditional.
     dc_then (dc_field truncated rd_u64) (\<lambda>governing_epoch.
     dc_then (dc_field truncated rd_u64) (\<lambda>authority_generation.
     dc_then (dc_field truncated rd_u8) (\<lambda>last_cause.
     dc_some enumerator (set_lifecycle_of_raw lifecycle) (\<lambda>lifecycle_value.
     dc_some enumerator (set_currentness_of_raw currentness) (\<lambda>currentness_value.
     dc_some enumerator (route_readiness_value_of_raw readiness) (\<lambda>readiness_value.
     dc_some enumerator (membership_cause_of_raw last_cause) (\<lambda>cause_value.
     dc_some impossible (gen_from_value governing_epoch) (\<lambda>epoch_value.
     dc_some impossible (gen_from_value authority_generation) (\<lambda>authority_value.
     dc_then (dc_field (wire_malformed ''explanation publisher flag is truncated'') rd_boolean) (\<lambda>has_publisher.
     dc_then (dc_when has_publisher (dc_parsed_id (wire_malformed ''explanation publisher is truncated'')
       (wire_malformed ''explanation publisher is invalid'') parse_publisher_id)) (\<lambda>publisher.
     dc_return
       \<lparr>se_set_id = set_id_value, se_key = key, se_lifecycle = lifecycle_value,
        se_currentness = currentness_value, se_readiness = readiness_value,
        se_member_count = unat member_count, se_usable_count = unat usable, se_minimum = unat minimum,
        se_minimum_satisfied = minimum_satisfied, se_admin_enabled = admin_enabled,
        se_conditional = conditional, se_governing_epoch = epoch_value,
        se_authority_generation = authority_value, se_last_publisher = publisher,
        se_last_cause = cause_value, se_reasons = [], se_members = [],
        se_truncated = False\<rparr>))))))))))))))))))))))))"

definition decode_explanation :: "(fabric_outcome, set_explanation) decoder" where
  "decode_explanation =
     dc_then read_explanation_head (\<lambda>explanation.
     dc_then (dc_field (wire_malformed ''explanation reason count is truncated'') rd_u32) (\<lambda>reason_count.
     dc_check (wire_malformed ''explanation declares an absurd reason count'') (\<not> unat reason_count > 4096) (
     dc_then (dc_list (unat reason_count) (dc_parsed_enum (wire_malformed ''explanation reason is truncated'')
       (wire_malformed ''explanation carries a malformed reason'') explanation_reason_of_raw)) (\<lambda>reasons.
     dc_then (dc_field (wire_malformed ''explanation member count is truncated'') rd_u32) (\<lambda>count.
     dc_check (wire_malformed ''explanation declares an absurd member count'') (\<not> unat count > 1000000) (
     dc_then (dc_list (unat count) read_member_explanation) (\<lambda>members.
     dc_then (dc_field (wire_malformed ''explanation truncated flag is missing'') rd_boolean) (\<lambda>truncated.
     dc_return (explanation\<lparr>se_reasons := reasons, se_members := members, se_truncated := truncated\<rparr>)))))))))"

section \<open>Responses\<close>

record wire_response =
  wr_outcome :: fabric_outcome
  wr_snapshot :: "set_snapshot option"
  wr_explanation :: "set_explanation option"
  wr_set_ids :: "set_id list"

text \<open>One part of a response: the next part is written only when this one succeeded.\<close>

definition wr_part ::
  "fabric_outcome \<times> byte_writer \<Rightarrow> (byte_writer \<Rightarrow> fabric_outcome + u8 list) \<Rightarrow> fabric_outcome + u8 list" where
  "wr_part result rest =
     (case result of (encoded, writer) \<Rightarrow> if \<not> succeeded encoded then Inl encoded else rest writer)"

definition encode_present ::
  "('a \<Rightarrow> byte_writer \<Rightarrow> fabric_outcome \<times> byte_writer) \<Rightarrow> 'a option \<Rightarrow> byte_writer \<Rightarrow> fabric_outcome \<times> byte_writer" where
  "encode_present encode v writer =
     (let writer = bw_boolean (v \<noteq> None) writer
      in case v of None \<Rightarrow> (make_outcome OC_OK [], writer) | Some x \<Rightarrow> encode x writer)"

definition encode_response :: "wire_response \<Rightarrow> fabric_outcome + u8 list" where
  "encode_response p =
     wr_part (encode_outcome (wr_outcome p) (new_writer (2 ^ 20))) (\<lambda>writer.
     wr_part (encode_present encode_snapshot (wr_snapshot p) writer) (\<lambda>writer.
     wr_part (encode_present encode_explanation (wr_explanation p) writer) (\<lambda>writer.
     case narrow_u32 (of_nat (length (wr_set_ids p))) of
       None \<Rightarrow> Inl (make_rejection OC_RESOURCE_LIMIT (msg ''set id list is not representable''))
     | Some count \<Rightarrow>
        (let writer = bw_all [bw_u32 count, bw_each bw_id (wr_set_ids p)] writer
         in if bw_overflowed writer
            then Inl (make_rejection OC_RESOURCE_LIMIT (msg ''response encoding exceeded its bound''))
            else Inr (bw_buffer writer)))))"

definition decode_response :: "(fabric_outcome, wire_response) decoder" where
  "decode_response =
     dc_then decode_outcome (\<lambda>outcome.
     dc_then (dc_field (wire_malformed ''response snapshot flag is truncated'') rd_boolean) (\<lambda>has_snapshot.
     dc_then (dc_when has_snapshot decode_snapshot) (\<lambda>snapshot.
     dc_then (dc_field (wire_malformed ''response explanation flag is truncated'') rd_boolean) (\<lambda>has_explanation.
     dc_then (dc_when has_explanation decode_explanation) (\<lambda>explanation.
     dc_then (dc_field (wire_malformed ''response set id count is truncated'') rd_u32) (\<lambda>count.
     dc_check (wire_malformed ''response declares an absurd set id count'') (\<not> unat count > 1000000) (
     dc_then (dc_list (unat count) (dc_parsed_id (wire_malformed ''response set id is truncated'')
       (wire_malformed ''response carries an invalid set identity'') parse_set_id)) (\<lambda>set_ids.
     dc_return \<lparr>wr_outcome = outcome, wr_snapshot = snapshot, wr_explanation = explanation,
                wr_set_ids = set_ids\<rparr>))))))))"

end
