(* ===== verification/Request_Facts.thy ===== *)
theory Request_Facts
  imports Wire_Request
begin

text \<open>
  A request that was encoded is decoded to what was sent: the fields that its message id carries, over
  the default of every other field.
\<close>

section \<open>Decimal generations\<close>

lemma digits_val_mono: "acc \<le> digits_val acc s"
proof (induction s arbitrary: acc)
  case (Cons c s)
  have "acc \<le> acc * 10 + digit_val c" by simp
  also have "\<dots> \<le> digits_val (acc * 10 + digit_val c) s" by (rule Cons.IH)
  finally show ?case by simp
qed simp

lemma parse_digits_Some:
  assumes "\<And>c. c \<in> set s \<Longrightarrow> \<exists>d < 10. c = digit_char d" and "digits_val (unat v) s < 2 ^ 64"
  shows "parse_digits v s = Some (of_nat (digits_val (unat v) s))"
  using assms
proof (induction s arbitrary: v)
  case Nil
  then show ?case by simp
next
  case (Cons c s)
  obtain d where d: "d < 10" "c = digit_char d" using Cons.prems(1) by auto
  have all: "unat v * 10 + d \<le> digits_val (unat v * 10 + d) s" by (rule digits_val_mono)
  have next_val: "digits_val (unat v * 10 + d) s < 2 ^ 64" using Cons.prems(2) d by simp
  with all have small: "unat v * 10 + d < 2 ^ 64" by simp
  have ud: "unat (of_nat d :: u64) = d" using d by (simp add: unsigned_of_nat take_bit_nat_eq_self)
  have le: "(of_nat d :: u64) \<le> 0xFFFFFFFFFFFFFFFF" using d by (simp add: word_le_nat_alt ud)
  have "unat ((0xFFFFFFFFFFFFFFFF - of_nat d :: u64) div 10) = (18446744073709551615 - d) div 10"
    using le by (simp add: unat_div unat_sub ud)
  then have "\<not> (0xFFFFFFFFFFFFFFFF - of_nat d :: u64) div 10 < v"
    using small by (simp add: word_less_nat_alt)
  moreover have "unat (v * 10 + of_nat d) = unat v * 10 + d"
    using small by (simp add: unat_word_ariths ud)
  moreover have "parse_digits (v * 10 + of_nat d) s = Some (of_nat (digits_val (unat (v * 10 + of_nat d)) s))"
    by (rule Cons.IH) (use Cons.prems(1) next_val calculation in auto)
  ultimately show ?case
    using d digit_char_range [of d] by (auto simp: Let_def)
qed

lemma parse_u64_string: "parse_u64 (u64_string w) = Some w"
proof -
  have "unat w < 2 ^ LENGTH(64)" by (rule unsigned_less)
  then have w: "unat w < 2 ^ 64" by simp
  have "parse_digits 0 (nat_string (unat w)) = Some (of_nat (digits_val (unat (0 :: u64)) (nat_string (unat w))))"
    using w by (intro parse_digits_Some) (auto dest: nat_string_digits simp: digits_val_nat_string)
  then show ?thesis by (simp add: parse_u64_def u64_string_def digits_val_nat_string)
qed

interpretation expected_generation: parsed_text gen_text parse_expected gen_valid
proof
  fix g :: "'a generation" assume g: "gen_valid g"
  show "parse_expected (gen_text g) = Some g"
    using g by (simp add: parse_expected_def gen_text_def parse_u64_string generation_value.get_put)
  show "gen_text g \<noteq> []" by (simp add: gen_text_def u64_string_def)
qed

interpretation set_state_action_enum: parsed set_state_action_raw set_state_action_of_raw "\<lambda>_. True"
  unfolding set_state_action_raw_def set_state_action_of_raw_def
  by (unfold_locales, rule enum_of_raw_raw)
    (simp_all add: all_set_state_actions_def, metis (full_types) set_state_action.exhaust)

lemma valid_set_state_action_iff: "valid_set_state_action raw \<longleftrightarrow> set_state_action_of_raw raw \<noteq> None"
  by (auto simp: valid_set_state_action_def set_state_action_of_raw_def enum_of_raw_def all_set_state_actions_def
      word_le_nat_alt)

section \<open>Blocks\<close>

definition lenient_id :: "nat \<Rightarrow> 'tag strong_id \<Rightarrow> bool" where
  "lenient_id n i \<longleftrightarrow> i = invalid_id \<or> known_id n i"

text \<open>An identity or nothing, written and read leniently.\<close>

locale id_domain =
  fixes parse :: "string \<Rightarrow> 'tag strong_id option" and n :: nat
  assumes parse_known: "known_id n i \<Longrightarrow> parse (id_text i) = Some i"
begin

lemma carries_lenient:
  assumes "lenient_id n i" and "carries f (q i) w"
  shows "carries f (dc_lenient_id e parse (written_id i) q) w"
proof (cases "i = invalid_id")
  case True
  then show ?thesis using assms(2) by (simp add: dc_lenient_id_def dc_opt_text_def written_id_def id_valid_def invalid_id_def or_invalid_def)
next
  case False
  then have k: "known_id n i" using assms(1) by (simp add: lenient_id_def)
  then show ?thesis using assms(2) parse_known [OF k] known_id_nonempty [OF k]
    by (simp add: dc_lenient_id_def dc_opt_text_def or_invalid_def)
qed

end

interpretation lenient_publisher: id_domain parse_publisher_id 64
  by unfold_locales (rule publisher_id_text.get_put)

interpretation lenient_worker_boot: id_domain parse_worker_boot_id 64
  by unfold_locales (rule worker_boot_id_text.get_put)

interpretation lenient_attempt: id_domain parse_attempt_id 64
  by unfold_locales (rule attempt_id_text.get_put)

interpretation lenient_fabric: id_domain parse_fabric_id 64
  by unfold_locales (rule fabric_id_text.get_put)

interpretation lenient_namespace: id_domain parse_namespace_id 64
  by unfold_locales (rule namespace_text.get_put)

lemmas lenient_fields [carries_intros] =
  lenient_publisher.carries_lenient
  lenient_worker_boot.carries_lenient
  lenient_attempt.carries_lenient
  lenient_fabric.carries_lenient
  lenient_namespace.carries_lenient

lemmas wire_fields [carries_intros] =
  expected_generation.carries_opt_parsed
  set_state_action_enum.carries_parsed

lemma wire_opt_text_id: "wire_opt_text (map_option id_text v) = write_opt_id v"
  by (cases v) (simp_all add: wire_opt_text_def write_opt_id_def bw_boolean_def bw_id_def)

lemma carries_wire_opt [carries_intros]:
  assumes "carries (bw_all fs) (q (case v of None \<Rightarrow> [] | Some g \<Rightarrow> gen_text g)) w"
  shows "carries (bw_all (wire_opt_text (map_option gen_text v) # fs)) (dc_then (dc_as e read_optional_id) q) w"
proof (rule carries_nested)
  show "carries (wire_opt_text (map_option gen_text v)) read_optional_id (case v of None \<Rightarrow> [] | Some g \<Rightarrow> gen_text g)"
  proof (cases v)
    case None
    have "carries (bw_all [bw_boolean False]) read_optional_id []"
      unfolding read_optional_id_def by (rule carries_boolean) (simp add: carries_done)
    then show ?thesis by (simp add: None wire_opt_text_def)
  next
    case (Some g)
    have "carries (bw_all [bw_boolean True, bw_id_text (gen_text g)]) read_optional_id (gen_text g)"
      unfolding read_optional_id_def
      by (rule carries_boolean) (simp, rule carries_id_text, simp add: carries_done)
    then show ?thesis by (simp add: Some wire_opt_text_def)
  qed
qed (rule assms)

lemma carries_counted [carries_intros]:
  assumes "\<And>x. x \<in> set xs \<Longrightarrow> carries (f x) item x" and "n = length xs" and "carries (bw_all fs) (q xs) w"
  shows "carries (bw_all (bw_each f xs # fs)) (dc_then (dc_list n item) q) w"
  using carries_list [of xs f item "\<lambda>x. x"] assms by (auto intro: carries_step)

text \<open>Which blocks arrive as they were sent.\<close>

definition sendable_scope :: "authority_scope \<Rightarrow> bool" where
  "sendable_scope sc \<longleftrightarrow> lenient_id 64 (sc_fabric sc) \<and> lenient_id 64 (sc_name_space sc) \<and>
     list_all (known_id 96) (sc_set_ids sc) \<and> length (sc_set_ids sc) \<le> 4096"

definition sendable_context :: "mutation_context \<Rightarrow> bool" where
  "sendable_context c \<longleftrightarrow> gen_valid (cx_epoch c) \<and> known_id 64 (cx_publisher c) \<and> known_id 64 (cx_worker_boot c) \<and>
     known_id 64 (cx_session c) \<and> known_id 64 (cx_attempt c) \<and>
     pred_option gen_valid (cx_expected_set_generation c) \<and> pred_option gen_valid (cx_expected_member_generation c)"

definition sendable_key :: "set_key \<Rightarrow> bool" where
  "sendable_key k \<longleftrightarrow> known_id 64 (k_fabric k) \<and> known_id 64 (k_name_space k) \<and> known_id 64 (k_name k)"

lemma carries_scope_block: "sendable_scope sc \<Longrightarrow> carries (write_scope sc) read_scope sc"
proof -
  assume sc: "sendable_scope sc"
  let ?n = "of_nat (length (sc_set_ids sc)) :: u32"
  have n: "unat ?n = length (sc_set_ids sc)"
    using sc by (simp add: sendable_scope_def unsigned_of_nat take_bit_nat_eq_self)
  have narrow: "narrow_u32 (of_nat (length (sc_set_ids sc))) = Some ?n"
    using sc by (simp only: narrow_u32_Some n) (simp add: sendable_scope_def unsigned_of_nat take_bit_nat_eq_self)
  have item: "carries (bw_id i) read_scope_set_id i" if "i \<in> set (sc_set_ids sc)" for i
  proof -
    have "carries (bw_all [bw_id i]) read_scope_set_id i"
      unfolding read_scope_set_id_def by (intro carries_intros) (use sc that in \<open>auto simp: sendable_scope_def list_all_iff\<close>)
    then show ?thesis by (simp only: bw_all_single)
  qed
  show ?thesis
    unfolding write_scope_def read_scope_def narrow option.case append.simps
    by (intro carries_intros item) (use sc n in \<open>simp_all add: sendable_scope_def\<close>)
qed

lemma carries_context_block: "sendable_context c \<Longrightarrow> carries (write_context c) read_context c"
  unfolding write_context_def read_context_def sendable_context_def
  by (intro carries_intros) simp_all

lemma carries_key_block: "sendable_key k \<Longrightarrow> carries (write_key k) read_key k"
  unfolding write_key_def read_key_def sendable_key_def by (intro carries_intros) simp_all

lemmas carries_scope [carries_intros] = carries_nested [OF carries_scope_block]
lemmas carries_context [carries_intros] = carries_nested [OF carries_context_block]
lemmas carries_key [carries_intros] = carries_nested [OF carries_key_block]

section \<open>Requests\<close>

text \<open>
  What arrives of a request: the fields of its message id over the defaults. The successor of a
  supersession travels in the path identity and arrives as text.
\<close>

definition sent_request :: "wire_request \<Rightarrow> wire_request" where
  "sent_request q =
     (let d = empty_request (wq_id q)
      in case wq_id q of
        MI_HELLO \<Rightarrow> d
      | MI_LIST_SETS \<Rightarrow> d
      | MI_SHUTDOWN \<Rightarrow> d
      | MI_REGISTER_PUBLISHER \<Rightarrow> d\<lparr>wq_context := empty_context\<lparr>cx_publisher := cx_publisher (wq_context q), cx_worker_boot :=
          cx_worker_boot (wq_context q), cx_session := cx_session (wq_context q)\<rparr>, wq_scope := wq_scope
          q\<rparr>
      | MI_CREATE_SET \<Rightarrow> d\<lparr>wq_context := wq_context q, wq_key := wq_key q, wq_options := wq_options q\<rparr>
      | MI_ADD_MEMBER \<Rightarrow> d\<lparr>wq_context := wq_context q, wq_set_id := wq_set_id q, wq_path_id := wq_path_id q, wq_path_generation
          := wq_path_generation q\<rparr>
      | MI_ADD_MEMBERS \<Rightarrow> d\<lparr>wq_context := wq_context q, wq_set_id := wq_set_id q, wq_members := wq_members q\<rparr>
      | MI_REMOVE_MEMBER \<Rightarrow> d\<lparr>wq_context := wq_context q, wq_set_id := wq_set_id q, wq_member_id := wq_member_id q, wq_text :=
          wq_text q\<rparr>
      | MI_WITHDRAW_MEMBER \<Rightarrow> d\<lparr>wq_context := wq_context q, wq_set_id := wq_set_id q, wq_member_id := wq_member_id q, wq_text :=
          wq_text q\<rparr>
      | MI_REPLACE_MEMBER \<Rightarrow> d\<lparr>wq_context := wq_context q, wq_set_id := wq_set_id q, wq_member_id := wq_member_id q, wq_path_id :=
          wq_path_id q, wq_path_generation := wq_path_generation q, wq_text := wq_text q\<rparr>
      | MI_SET_MINIMUM \<Rightarrow> d\<lparr>wq_context := wq_context q, wq_set_id := wq_set_id q, wq_number := wq_number q\<rparr>
      | MI_SET_CONDITIONAL_POLICY \<Rightarrow> d\<lparr>wq_context := wq_context q, wq_set_id := wq_set_id q, wq_flag := wq_flag q\<rparr>
      | MI_SET_ADMIN_ENABLE \<Rightarrow> d\<lparr>wq_context := wq_context q, wq_set_id := wq_set_id q\<rparr>
      | MI_SET_ADMIN_DISABLE \<Rightarrow> d\<lparr>wq_context := wq_context q, wq_set_id := wq_set_id q\<rparr>
      | MI_MEMBER_ADMIN_ENABLE \<Rightarrow> d\<lparr>wq_context := wq_context q, wq_set_id := wq_set_id q, wq_member_id := wq_member_id q\<rparr>
      | MI_MEMBER_ADMIN_DISABLE \<Rightarrow> d\<lparr>wq_context := wq_context q, wq_set_id := wq_set_id q, wq_member_id := wq_member_id q\<rparr>
      | MI_REVALIDATE_MEMBER \<Rightarrow> d\<lparr>wq_context := wq_context q, wq_set_id := wq_set_id q, wq_member_id := wq_member_id q\<rparr>
      | MI_REVALIDATE_SET \<Rightarrow> d\<lparr>wq_context := wq_context q, wq_set_id := wq_set_id q\<rparr>
      | MI_REVOKE_SET \<Rightarrow> d\<lparr>wq_context := wq_context q, wq_set_id := wq_set_id q, wq_revocation_reason := wq_revocation_reason
          q, wq_text := wq_text q\<rparr>
      | MI_RETIRE_SET \<Rightarrow> d\<lparr>wq_context := wq_context q, wq_set_id := wq_set_id q, wq_text := wq_text q\<rparr>
      | MI_SUPERSEDE_SET \<Rightarrow> d\<lparr>wq_context := wq_context q, wq_set_id := wq_set_id q, wq_text := id_text (wq_path_id q)\<rparr>
      | MI_EPOCH_ADVANCE \<Rightarrow> d\<lparr>wq_context := wq_context q, wq_number := wq_number q\<rparr>
      | MI_ADVANCE_SET_STATE \<Rightarrow> d\<lparr>wq_context := wq_context q, wq_set_id := wq_set_id q, wq_state_action := wq_state_action q, wq_text
          := wq_text q\<rparr>
      | MI_APPLY_PATH_AUTHORITY \<Rightarrow> d\<lparr>wq_context := wq_context q, wq_path_id := wq_path_id q, wq_path_generation := wq_path_generation q,
          wq_path_state := wq_path_state q\<rparr>
      | MI_DECLARE_PATH_AUTHORITY \<Rightarrow> d\<lparr>wq_context := wq_context q, wq_path_id := wq_path_id q, wq_path_generation := wq_path_generation q,
          wq_path_state := wq_path_state q\<rparr>
      | MI_REFRESH_PATH \<Rightarrow> d\<lparr>wq_context := wq_context q, wq_path_id := wq_path_id q\<rparr>
      | MI_QUERY_SET \<Rightarrow> d\<lparr>wq_set_id := wq_set_id q\<rparr>
      | MI_EXPLAIN_SET \<Rightarrow> d\<lparr>wq_set_id := wq_set_id q\<rparr>
      | MI_SNAPSHOT_REQUEST \<Rightarrow> d\<lparr>wq_set_id := wq_set_id q, wq_snapshot_id := wq_snapshot_id q\<rparr>
      | _ \<Rightarrow> d)"

definition sendable_member :: "member_request \<Rightarrow> bool" where
  "sendable_member m \<longleftrightarrow> known_id 128 (mr_path_id m) \<and> gen_valid (mr_generation m)"

definition sendable_request :: "wire_request \<Rightarrow> bool" where
  "sendable_request q \<longleftrightarrow>
     (case wq_id q of
        MI_HELLO \<Rightarrow> True
      | MI_LIST_SETS \<Rightarrow> True
      | MI_SHUTDOWN \<Rightarrow> True
      | MI_REGISTER_PUBLISHER \<Rightarrow> known_id 64 (cx_publisher (wq_context q)) \<and> known_id 64 (cx_worker_boot (wq_context q)) \<and>
          known_id 64 (cx_session (wq_context q)) \<and> sendable_scope (wq_scope q)
      | MI_CREATE_SET \<Rightarrow> sendable_context (wq_context q) \<and> sendable_key (wq_key q) \<and> so_minimum (wq_options q) < 2
          ^ 64
      | MI_ADD_MEMBER \<Rightarrow> sendable_context (wq_context q) \<and> known_id 96 (wq_set_id q) \<and> known_id 128 (wq_path_id q)
          \<and> gen_valid (wq_path_generation q)
      | MI_ADD_MEMBERS \<Rightarrow> sendable_context (wq_context q) \<and> known_id 96 (wq_set_id q) \<and> length (wq_members q) \<le>
          100000 \<and> list_all sendable_member (wq_members q)
      | MI_REMOVE_MEMBER \<Rightarrow> sendable_context (wq_context q) \<and> known_id 96 (wq_set_id q) \<and> known_id 128 (wq_member_id
          q)
      | MI_WITHDRAW_MEMBER \<Rightarrow> sendable_context (wq_context q) \<and> known_id 96 (wq_set_id q) \<and> known_id 128 (wq_member_id
          q)
      | MI_REPLACE_MEMBER \<Rightarrow> sendable_context (wq_context q) \<and> known_id 96 (wq_set_id q) \<and> known_id 128 (wq_member_id
          q) \<and> known_id 128 (wq_path_id q) \<and> gen_valid (wq_path_generation q)
      | MI_SET_MINIMUM \<Rightarrow> sendable_context (wq_context q) \<and> known_id 96 (wq_set_id q)
      | MI_SET_CONDITIONAL_POLICY \<Rightarrow> sendable_context (wq_context q) \<and> known_id 96 (wq_set_id q)
      | MI_SET_ADMIN_ENABLE \<Rightarrow> sendable_context (wq_context q) \<and> known_id 96 (wq_set_id q)
      | MI_SET_ADMIN_DISABLE \<Rightarrow> sendable_context (wq_context q) \<and> known_id 96 (wq_set_id q)
      | MI_MEMBER_ADMIN_ENABLE \<Rightarrow> sendable_context (wq_context q) \<and> known_id 96 (wq_set_id q) \<and> known_id 128 (wq_member_id
          q)
      | MI_MEMBER_ADMIN_DISABLE \<Rightarrow> sendable_context (wq_context q) \<and> known_id 96 (wq_set_id q) \<and> known_id 128 (wq_member_id
          q)
      | MI_REVALIDATE_MEMBER \<Rightarrow> sendable_context (wq_context q) \<and> known_id 96 (wq_set_id q) \<and> known_id 128 (wq_member_id
          q)
      | MI_REVALIDATE_SET \<Rightarrow> sendable_context (wq_context q) \<and> known_id 96 (wq_set_id q)
      | MI_REVOKE_SET \<Rightarrow> sendable_context (wq_context q) \<and> known_id 96 (wq_set_id q)
      | MI_RETIRE_SET \<Rightarrow> sendable_context (wq_context q) \<and> known_id 96 (wq_set_id q)
      | MI_SUPERSEDE_SET \<Rightarrow> sendable_context (wq_context q) \<and> known_id 96 (wq_set_id q) \<and> known_id 96 (wq_path_id q)
      | MI_EPOCH_ADVANCE \<Rightarrow> sendable_context (wq_context q) \<and> wq_number q \<noteq> 0
      | MI_ADVANCE_SET_STATE \<Rightarrow> sendable_context (wq_context q) \<and> known_id 96 (wq_set_id q)
      | MI_APPLY_PATH_AUTHORITY \<Rightarrow> sendable_context (wq_context q) \<and> known_id 128 (wq_path_id q) \<and> gen_valid
          (wq_path_generation q)
      | MI_DECLARE_PATH_AUTHORITY \<Rightarrow> sendable_context (wq_context q) \<and> known_id 128 (wq_path_id q) \<and> gen_valid
          (wq_path_generation q)
      | MI_REFRESH_PATH \<Rightarrow> sendable_context (wq_context q) \<and> known_id 128 (wq_path_id q)
      | MI_QUERY_SET \<Rightarrow> known_id 96 (wq_set_id q)
      | MI_EXPLAIN_SET \<Rightarrow> known_id 96 (wq_set_id q)
      | MI_SNAPSHOT_REQUEST \<Rightarrow> known_id 96 (wq_set_id q) \<and> known_id 96 (wq_snapshot_id q)
      | _ \<Rightarrow> False)"

lemma carries_member_request: "sendable_member m \<Longrightarrow> carries (write_member_request m) read_member_request m"
  unfolding write_member_request_def read_member_request_def Let_def sendable_member_def
  by (intro carries_intros) simp_all

text \<open>One lemma per block of \<open>decode_request\<close>.\<close>

named_theorems request_carries

lemma carries_register [request_carries]:
  assumes "known_id 64 (cx_publisher (wq_context q))" "known_id 64 (cx_worker_boot (wq_context q))"
    "known_id 64 (cx_session (wq_context q))" "sendable_scope (wq_scope q)"
  shows "carries
     (bw_all [bw_id_text (written_id (cx_publisher (wq_context q))),
        bw_id_text (written_id (cx_worker_boot (wq_context q))),
        bw_id_text (written_id (cx_session (wq_context q))), write_scope (wq_scope q)])
     (read_register (empty_request i))
     (empty_request i\<lparr>wq_context := empty_context\<lparr>cx_publisher := cx_publisher (wq_context q),
        cx_worker_boot := cx_worker_boot (wq_context q), cx_session := cx_session (wq_context q)\<rparr>,
        wq_scope := wq_scope q\<rparr>)"
  unfolding read_register_def Let_def by (intro carries_intros assms) (simp add: empty_request_def)

lemma carries_create_set [request_carries]:
  assumes "sendable_context c" "sendable_key k" "so_minimum op < 2 ^ 64"
  shows "carries
     (bw_all [write_context c, write_key k, bw_u64 (of_nat (so_minimum op)), bw_boolean (so_admin_enabled op),
        bw_boolean (so_conditional op)])
     (read_create_set d) (d\<lparr>wq_context := c, wq_key := k, wq_options := op\<rparr>)"
proof -
  have "unat (of_nat (so_minimum op) :: u64) = so_minimum op"
    using assms(3) by (simp add: unsigned_of_nat take_bit_nat_eq_self)
  then show ?thesis
    unfolding read_create_set_def Let_def by (intro carries_intros assms) simp
qed

lemma carries_add_member [request_carries]:
  assumes "sendable_context c" "known_id 96 sid" "known_id 128 path" "gen_valid g"
  shows "carries (bw_all [write_context c, bw_id sid, bw_id path, bw_u64 (gen_value g)]) (read_add_member d)
     (d\<lparr>wq_context := c, wq_set_id := sid, wq_path_id := path, wq_path_generation := g\<rparr>)"
  unfolding read_add_member_def Let_def by (intro carries_intros assms) simp

lemma carries_add_members [request_carries]:
  assumes "sendable_context c" "known_id 96 sid" "length ms \<le> 100000" "list_all sendable_member ms"
    "unat n = length ms"
  shows "carries (bw_all [write_context c, bw_id sid, bw_u32 n, bw_each write_member_request ms]) (read_add_members d)
     (d\<lparr>wq_context := c, wq_set_id := sid, wq_members := ms\<rparr>)"
  unfolding read_add_members_def Let_def
  by (intro carries_intros carries_member_request) (use assms in \<open>simp_all add: list_all_iff\<close>)

lemma carries_about_member [request_carries]:
  assumes "sendable_context c" "known_id 96 sid" "known_id 128 mid" "wq_id d \<noteq> MI_REMOVE_MEMBER" "wq_id d \<noteq> MI_WITHDRAW_MEMBER"
  shows "carries (bw_all [write_context c, bw_id sid, bw_id mid]) (read_about_member d)
     (d\<lparr>wq_context := c, wq_set_id := sid, wq_member_id := mid\<rparr>)"
  unfolding read_about_member_def Let_def
  by (simp only: assms(4,5) if_False simp_thms) (intro carries_intros assms, simp)

lemma carries_about_member_text [request_carries]:
  assumes "sendable_context c" "known_id 96 sid" "known_id 128 mid" "wq_id d = MI_REMOVE_MEMBER \<or> wq_id d = MI_WITHDRAW_MEMBER"
  shows "carries (bw_all [write_context c, bw_id sid, bw_id mid, bw_string max_text_length text]) (read_about_member d)
     (d\<lparr>wq_context := c, wq_set_id := sid, wq_member_id := mid, wq_text := text\<rparr>)"
  unfolding read_about_member_def Let_def
  by (simp only: assms(4) if_True) (intro carries_intros assms, simp_all add: max_text_length_def)

lemma carries_replace_member [request_carries]:
  assumes "sendable_context c" "known_id 96 sid" "known_id 128 mid" "known_id 128 path" "gen_valid g"
  shows "carries (bw_all [write_context c, bw_id sid, bw_id mid, bw_id path, bw_u64 (gen_value g),
        bw_string max_text_length text]) (read_replace_member d)
     (d\<lparr>wq_context := c, wq_set_id := sid, wq_member_id := mid, wq_path_id := path, wq_path_generation := g,
        wq_text := text\<rparr>)"
  unfolding read_replace_member_def Let_def
  by (intro carries_intros assms) (simp_all add: max_text_length_def)

lemma carries_set_minimum [request_carries]:
  assumes "sendable_context c" "known_id 96 sid"
  shows "carries (bw_all [write_context c, bw_id sid, bw_u64 n]) (read_set_minimum d)
     (d\<lparr>wq_context := c, wq_set_id := sid, wq_number := n\<rparr>)"
  unfolding read_set_minimum_def Let_def by (intro carries_intros assms) simp

lemma carries_set_policy [request_carries]:
  assumes "sendable_context c" "known_id 96 sid"
  shows "carries (bw_all [write_context c, bw_id sid, bw_boolean b]) (read_set_policy d)
     (d\<lparr>wq_context := c, wq_set_id := sid, wq_flag := b\<rparr>)"
  unfolding read_set_policy_def Let_def by (intro carries_intros assms) simp

lemma carries_about_set [request_carries]:
  assumes "sendable_context c" "known_id 96 sid"
  shows "carries (bw_all [write_context c, bw_id sid]) (read_about_set d) (d\<lparr>wq_context := c, wq_set_id := sid\<rparr>)"
  unfolding read_about_set_def Let_def by (intro carries_intros assms) simp

lemma carries_revoke_set [request_carries]:
  assumes "sendable_context c" "known_id 96 sid"
  shows "carries (bw_all [write_context c, bw_id sid, bw_u8 (revocation_reason_raw rr), bw_string max_text_length text])
     (read_revoke_set d) (d\<lparr>wq_context := c, wq_set_id := sid, wq_revocation_reason := rr, wq_text := text\<rparr>)"
  unfolding read_revoke_set_def Let_def by (intro carries_intros assms) (simp_all add: max_text_length_def)

lemma carries_retire_set [request_carries]:
  assumes "sendable_context c" "known_id 96 sid"
  shows "carries (bw_all [write_context c, bw_id sid, bw_string max_text_length text])
     (read_retire_set d) (d\<lparr>wq_context := c, wq_set_id := sid, wq_text := text\<rparr>)"
  unfolding read_retire_set_def Let_def by (intro carries_intros assms) (simp_all add: max_text_length_def)

lemma carries_epoch_advance [request_carries]:
  assumes "sendable_context c" "n \<noteq> 0"
  shows "carries (bw_all [write_context c, bw_u64 n]) (read_epoch_advance d) (d\<lparr>wq_context := c, wq_number := n\<rparr>)"
  unfolding read_epoch_advance_def Let_def
  by (intro carries_intros assms) (use assms in \<open>simp_all add: gen_from_value_def\<close>)

lemma carries_set_state [request_carries]:
  assumes "sendable_context c" "known_id 96 sid"
  shows "carries (bw_all [write_context c, bw_id sid, bw_u8 (set_state_action_raw a), bw_string max_text_length text])
     (read_set_state d) (d\<lparr>wq_context := c, wq_set_id := sid, wq_state_action := a, wq_text := text\<rparr>)"
  unfolding read_set_state_def Let_def by (intro carries_intros assms) (simp_all add: max_text_length_def)

lemma carries_path_view [request_carries]:
  assumes "sendable_context c" "known_id 128 path" "gen_valid g"
  shows "carries (bw_all [write_context c, bw_id path, bw_u64 (gen_value g), bw_u8 (path_authority_state_raw v)])
     (read_path_view d) (d\<lparr>wq_context := c, wq_path_id := path, wq_path_generation := g, wq_path_state := v\<rparr>)"
  unfolding read_path_view_def Let_def by (intro carries_intros assms) simp_all

lemma carries_refresh_path [request_carries]:
  assumes "sendable_context c" "known_id 128 path"
  shows "carries (bw_all [write_context c, bw_id path]) (read_refresh_path d) (d\<lparr>wq_context := c, wq_path_id := path\<rparr>)"
  unfolding read_refresh_path_def Let_def by (intro carries_intros assms) simp_all

lemma carries_query [request_carries]:
  assumes "known_id 96 sid"
  shows "carries (bw_all [bw_id sid]) (read_query d) (d\<lparr>wq_set_id := sid\<rparr>)"
  unfolding read_query_def Let_def by (intro carries_intros assms) simp_all

lemma carries_snapshot_request [request_carries]:
  assumes "known_id 96 sid" "known_id 96 snap"
  shows "carries (bw_all [bw_id sid, bw_id snap]) (read_snapshot_request d) (d\<lparr>wq_set_id := sid, wq_snapshot_id := snap\<rparr>)"
  unfolding read_snapshot_request_def Let_def by (intro carries_intros assms) simp_all

text \<open>A path identity that is also a set identity names the successor of a supersession.\<close>

lemma carries_supersede_set [request_carries]:
  assumes "sendable_context c" "known_id 96 sid" "known_id 96 path"
  shows "carries (bw_all [write_context c, bw_id sid, bw_id path])
     (read_supersede_set d) (d\<lparr>wq_context := c, wq_set_id := sid, wq_text := id_text path\<rparr>)"
proof -
  have "parse_set_id (id_text path) = Some (StrongId (id_text path))"
    using assms(3) by (auto simp: parse_set_id_def known_id_def parse_strong_id_def split: if_splits)
  then show ?thesis
    unfolding read_supersede_set_def Let_def
    by (intro carries_intros assms) (simp, intro carries_intros, simp)
qed

lemma empty_request_fields [simp]: "wq_id (empty_request i) = i" "wq_context (empty_request i) = empty_context"
  by (simp_all add: empty_request_def)

lemma carries_request:
  assumes "sendable_request q" and "request_steps q = Inr fs"
  shows "carries (bw_all fs) (decode_request (wq_id q)) (sent_request q)"
proof -
  have n: "unat n = length (wq_members q)"
    if "narrow_u32 (of_nat (length (wq_members q))) = Some n" "length (wq_members q) \<le> 100000" for n
    using that by (simp add: narrow_u32_Some unsigned_of_nat take_bit_nat_eq_self)
  show ?thesis
    using assms n
    by (cases "wq_id q")
      (auto simp: request_steps_def sendable_request_def decode_request_def sent_request_def Let_def
        split: option.splits intro!: request_carries carries_done)
qed

text \<open>Every request that can be sent has its encoding decoded completely.\<close>

lemma decode_encode_request:
  assumes "sendable_request q" and "encode_request q = Inr bs"
  shows "\<exists>r. decode_request (wq_id q) (new_reader bs) = Inr (sent_request q, r) \<and> rd_at_end r"
proof -
  obtain fs where fs: "request_steps q = Inr fs" and w: "bw_ok (bw_all fs (new_writer (2 ^ 20)))"
    and bs: "bs = bw_buffer (bw_all fs (new_writer (2 ^ 20)))"
    using assms(2) by (auto simp: encode_request_def bw_overflowed_def Let_def split: sum.splits if_splits)
  from carriesE [OF carries_request [OF assms(1) fs] w] bs
  have "decodes (decode_request (wq_id q)) bs (sent_request q)" by (auto simp: new_writer_def)
  from decodesD [OF this, of "new_reader bs" "[]"] show ?thesis
    using reads_new [of bs] by (auto simp: reads_def rd_at_end_def)
qed

end
