(* ===== verification/Response_Facts.thy ===== *)
theory Response_Facts
  imports Wire_Response Request_Facts
begin

text \<open>
  A response that was encoded is decoded to itself, when what it carries can be represented: known
  identities, possible generations, counts within 64 bits and within the bounds of the decoder.
\<close>

section \<open>Enumerators and masks\<close>

interpretation set_event_enum: parsed set_event_raw set_event_of_raw "\<lambda>_. True"
  unfolding set_event_raw_def set_event_of_raw_def
  by (unfold_locales, rule enum_of_raw_raw) (simp_all add: all_set_events_def, metis (full_types) set_event.exhaust)

interpretation route_readiness_enum: parsed route_readiness_value_raw route_readiness_value_of_raw "\<lambda>_. True"
  unfolding route_readiness_value_raw_def route_readiness_value_of_raw_def
  by (unfold_locales, rule enum_of_raw_raw)
    (simp_all add: all_route_readiness_values_def, metis (full_types) route_readiness_value.exhaust)

interpretation rejection_stage_enum: parsed rejection_stage_raw rejection_stage_of_raw "\<lambda>_. True"
  unfolding rejection_stage_raw_def rejection_stage_of_raw_def
  by (unfold_locales, rule enum_of_raw_raw) (simp_all add: all_rejection_stages_def, metis (full_types) rejection_stage.exhaust)

interpretation explanation_reason_enum: parsed explanation_reason_raw explanation_reason_of_raw "\<lambda>_. True"
  unfolding explanation_reason_raw_def explanation_reason_of_raw_def
  by (unfold_locales, rule enum_of_raw_raw)
    (simp_all add: all_explanation_reasons_def, metis (full_types) explanation_reason.exhaust)

interpretation outcome_enum: parsed outcome_raw outcome_of_raw "\<lambda>_. True"
  by unfold_locales (rule outcome_of_raw_raw)

lemmas response_enums [carries_intros] =
  set_event_enum.carries_parsed
  route_readiness_enum.carries_parsed
  rejection_stage_enum.carries_parsed
  explanation_reason_enum.carries_parsed
  outcome_enum.carries_parsed

lemma flag_and: "(if b then x else 0) AND y = (if b then x AND y else (0 :: u8))"
  by simp

lemma outcome_masks:
  "outcome_mask v AND 0x01 \<noteq> 0 \<longleftrightarrow> o_set_id v \<noteq> None"
  "outcome_mask v AND 0x02 \<noteq> 0 \<longleftrightarrow> o_member_id v \<noteq> None"
  "outcome_mask v AND 0x04 \<noteq> 0 \<longleftrightarrow> o_path_id v \<noteq> None"
  "outcome_mask v AND 0x08 \<noteq> 0 \<longleftrightarrow> o_set_generation v \<noteq> None"
  "outcome_mask v AND 0x10 \<noteq> 0 \<longleftrightarrow> o_membership_generation v \<noteq> None"
  "outcome_mask v AND 0x20 \<noteq> 0 \<longleftrightarrow> o_member_generation v \<noteq> None"
  "outcome_mask v AND 0x40 \<noteq> 0 \<longleftrightarrow> o_authority_generation v \<noteq> None"
  "outcome_mask v AND 0x80 \<noteq> 0 \<longleftrightarrow> o_lifecycle v \<noteq> None"
  "outcome_mask2 v AND 0x01 \<noteq> 0 \<longleftrightarrow> o_currentness v \<noteq> None"
  "outcome_mask2 v AND 0x02 \<noteq> 0 \<longleftrightarrow> o_usable_members v \<noteq> None"
  "outcome_mask2 v AND 0x04 \<noteq> 0 \<longleftrightarrow> o_minimum_usable_members v \<noteq> None"
  "outcome_mask2 v AND 0x08 \<noteq> 0 \<longleftrightarrow> o_digest v \<noteq> None"
  by (simp_all add: outcome_mask_def outcome_mask2_def bit.conj_disj_distrib2 flag_and)

section \<open>Optional parts\<close>

lemma carries_present [carries_intros]:
  assumes "b \<longleftrightarrow> v \<noteq> None" and "\<And>x. v = Some x \<Longrightarrow> carries (f x) p x" and "carries (bw_all fs) (q v) w"
  shows "carries (bw_all (write_present f v # fs)) (dc_then (dc_when b p) q) w"
proof (rule carries_step)
  show "carries (write_present f v) (dc_when b p) v"
  proof (cases v)
    case None
    then show ?thesis using assms(1) by (simp add: write_present_def dc_when_def carries_done)
  next
    case (Some x)
    have "carries (bw_all []) (dc_return (Some x)) (Some x)" by (rule carries_done) simp
    then have "carries (bw_all [f x]) (dc_then p (\<lambda>v. dc_return (Some v))) (Some x)"
      by (rule carries_step [OF assms(2) [OF Some]])
    then show ?thesis using assms(1) by (simp add: Some write_present_def dc_when_def)
  qed
qed (rule assms(3))

lemma write_flagged_steps: "bw_all (write_flagged f v # fs) = bw_all (bw_boolean (v \<noteq> None) # write_present f v # fs)"
  by (simp add: write_flagged_def bw_all_cons bw_all_nil)

lemma carries_flagged [carries_intros]:
  assumes "\<And>x. v = Some x \<Longrightarrow> carries (f x) p x" and "carries (bw_all fs) (q v) w"
  shows "carries (bw_all (write_flagged f v # fs)) (dc_then (dc_field e rd_boolean) (\<lambda>b. dc_then (dc_when b p) q)) w"
  unfolding write_flagged_steps by (intro carries_intros assms refl)

lemma carries_flagged_id [carries_intros]:
  assumes "carries (bw_all fs) (q (case v of None \<Rightarrow> [] | Some i \<Rightarrow> id_text i)) w"
  shows "carries (bw_all (write_flagged bw_id v # fs)) (dc_then (dc_as e read_optional_id) q) w"
proof -
  have "write_flagged bw_id v = write_opt_id v"
    by (cases v) (simp_all add: write_flagged_def write_present_def write_opt_id_def bw_all_def bw_boolean_def fun_eq_iff)
  then show ?thesis using assms by (simp only: carries_opt_id)
qed

lemma carries_leaf: "carries (bw_all [f]) p v \<Longrightarrow> carries f p v"
  by (simp only: bw_all_single)

lemma carries_parsed_set [carries_intros]: "known_id 96 i \<Longrightarrow> carries (bw_id i) (dc_parsed_id t e parse_set_id) i"
  unfolding dc_parsed_id_def by (rule carries_leaf) (intro carries_intros, simp_all)

lemma carries_parsed_member [carries_intros]: "known_id 128 i \<Longrightarrow> carries (bw_id i) (dc_parsed_id t e parse_member_id) i"
  unfolding dc_parsed_id_def by (rule carries_leaf) (intro carries_intros, simp_all)

lemma carries_parsed_path [carries_intros]: "known_id 128 i \<Longrightarrow> carries (bw_id i) (dc_parsed_id t e parse_path_id) i"
  unfolding dc_parsed_id_def by (rule carries_leaf) (intro carries_intros, simp_all)

lemma carries_parsed_publisher [carries_intros]:
  "known_id 64 i \<Longrightarrow> carries (bw_id i) (dc_parsed_id t e parse_publisher_id) i"
  unfolding dc_parsed_id_def by (rule carries_leaf) (intro carries_intros, simp_all)

lemma carries_parsed_gen [carries_intros]: "gen_valid g \<Longrightarrow> carries (bw_u64 (gen_value g)) (dc_parsed_gen t e) g"
  unfolding dc_parsed_gen_def by (rule carries_leaf) (intro carries_intros, simp_all)

lemma carries_parsed_lifecycle [carries_intros]:
  "carries (bw_u8 (set_lifecycle_raw l)) (dc_parsed_enum t e set_lifecycle_of_raw) l"
  unfolding dc_parsed_enum_def by (rule carries_leaf) (intro carries_intros, simp_all)

lemma carries_parsed_currentness [carries_intros]:
  "carries (bw_u8 (set_currentness_raw l)) (dc_parsed_enum t e set_currentness_of_raw) l"
  unfolding dc_parsed_enum_def by (rule carries_leaf) (intro carries_intros, simp_all)

lemma carries_parsed_state [carries_intros]:
  "carries (bw_u8 (path_authority_state_raw l)) (dc_parsed_enum t e path_authority_state_of_raw) l"
  unfolding dc_parsed_enum_def by (rule carries_leaf) (intro carries_intros, simp_all)

lemma carries_parsed_reason [carries_intros]:
  "carries (bw_u8 (explanation_reason_raw l)) (dc_parsed_enum t e explanation_reason_of_raw) l"
  unfolding dc_parsed_enum_def by (rule carries_leaf) (intro carries_intros, simp_all)

lemma carries_count [carries_intros]: "n < 2 ^ 64 \<Longrightarrow> carries (bw_u64 (of_nat n)) (read_count t) n"
  unfolding read_count_def
  by (rule carries_leaf) (intro carries_intros, simp add: unsigned_of_nat take_bit_nat_eq_self)

lemma carries_digest [carries_intros]: "carries (write_digest d) read_digest d"
  unfolding write_digest_def read_digest_def Let_def by (intro carries_intros) simp

lemma carries_lenient_gen [carries_intros]:
  assumes "gen_valid g \<or> fallback = 0" and "carries f (q g) w"
  shows "carries f (dc_lenient_gen e (written_gen fallback g) q) w"
proof (cases "gen_valid g")
  case True
  then show ?thesis using assms(2) generation_value.get_put [OF True]
    by (simp add: dc_lenient_gen_def gen_valid_def written_gen_def)
next
  case False
  then have "g = gen_invalid" by (cases g) (simp add: gen_valid_def gen_invalid_def)
  then show ?thesis using False assms by (simp add: dc_lenient_gen_def written_gen_def)
qed

section \<open>Outcomes\<close>

definition sendable_outcome :: "fabric_outcome \<Rightarrow> bool" where
  "sendable_outcome v \<longleftrightarrow>
     pred_option (known_id 96) (o_set_id v) \<and> pred_option (known_id 128) (o_member_id v) \<and>
     pred_option (known_id 128) (o_path_id v) \<and> pred_option gen_valid (o_set_generation v) \<and>
     pred_option gen_valid (o_membership_generation v) \<and> pred_option gen_valid (o_member_generation v) \<and>
     pred_option gen_valid (o_authority_generation v) \<and>
     pred_option (\<lambda>n. n < 2 ^ 64) (o_usable_members v) \<and> pred_option (\<lambda>n. n < 2 ^ 64) (o_minimum_usable_members v)"

lemma carries_outcome: "sendable_outcome v \<Longrightarrow> carries (write_outcome v) decode_outcome v"
  unfolding write_outcome_def decode_outcome_def Let_def
  by (intro carries_intros outcome_masks) (auto simp: sendable_outcome_def max_detail_length_def)

section \<open>Snapshots\<close>

definition sendable_revocation :: "set_id \<Rightarrow> revocation_record \<Rightarrow> bool" where
  "sendable_revocation sid v \<longleftrightarrow> rv_set_id v = sid \<and> gen_valid (rv_generation v) \<and>
     gen_valid (rv_authority_generation v) \<and> gen_valid (rv_epoch v) \<and> known_id 64 (rv_publisher v)"

text \<open>
  The decoder accepts a provenance without a set generation; the encoder writes 1 for it. A set has a
  provenance with an epoch; that of a member may lack it.
\<close>

definition typed_provenance :: "membership_provenance \<Rightarrow> bool" where
  "typed_provenance p \<longleftrightarrow> lenient_id 64 (pv_publisher p) \<and> lenient_id 64 (pv_worker_boot p) \<and>
     lenient_id 64 (pv_attempt p)"

definition sendable_entry :: "history_entry \<Rightarrow> bool" where
  "sendable_entry h \<longleftrightarrow> gen_valid (h_set_generation h) \<and> lenient_id 64 (h_publisher h) \<and> gen_valid (h_epoch h) \<and>
     pred_option (known_id 128) (h_member_id h) \<and> pred_option (known_id 128) (h_path_id h)"

definition typed_member_snapshot :: "member_snapshot \<Rightarrow> bool" where
  "typed_member_snapshot m \<longleftrightarrow> known_id 128 (ms_id m) \<and> known_id 128 (ms_path_id m) \<and> gen_valid (ms_bound m) \<and>
     gen_valid (ms_generation m) \<and> pred_option (known_id 128) (ms_predecessor m) \<and>
     pred_option (known_id 128) (ms_successor m) \<and> typed_provenance (ms_provenance m)"

definition typed_snapshot_head :: "set_snapshot \<Rightarrow> bool" where
  "typed_snapshot_head s \<longleftrightarrow> known_id 96 (ss_snapshot_id s) \<and> known_id 96 (ss_set_id s) \<and> sendable_key (ss_key s) \<and>
     gen_valid (ss_generation s) \<and> gen_valid (ss_membership_generation s) \<and> gen_valid (ss_authority_generation s) \<and>
     gen_valid (ss_governing_epoch s) \<and> ss_minimum s < 2 ^ 64 \<and> ss_usable_count s < 2 ^ 64 \<and>
     ss_member_count s \<le> 1000000 \<and> pred_option (known_id 96) (ss_superseded_by s) \<and>
     pred_option (known_id 96) (ss_supersedes s) \<and> pred_option (sendable_revocation (ss_set_id s)) (ss_revocation s) \<and>
     typed_provenance (ss_provenance s) \<and> gen_valid (pv_epoch (ss_provenance s))"

definition typed_snapshot :: "set_snapshot \<Rightarrow> bool" where
  "typed_snapshot s \<longleftrightarrow> typed_snapshot_head s \<and>
     list_all sendable_entry (ss_history s) \<and> length (ss_history s) \<le> 100000 \<and>
     list_all typed_member_snapshot (ss_members s) \<and> length (ss_members s) \<le> 1000000"

definition sendable_snapshot :: "set_snapshot \<Rightarrow> bool" where
  "sendable_snapshot s \<longleftrightarrow> typed_snapshot s \<and> gen_valid (pv_set_generation (ss_provenance s)) \<and>
     list_all (\<lambda>m. gen_valid (pv_set_generation (ms_provenance m))) (ss_members s)"

lemma carries_revocation_value: "sendable_revocation sid v \<Longrightarrow> carries (write_wire_revocation v) (read_wire_revocation sid) v"
  unfolding write_wire_revocation_def read_wire_revocation_def Let_def sendable_revocation_def
  by (intro carries_intros) (auto simp: max_text_length_def)

lemma carries_set_provenance:
  assumes "typed_provenance p" "gen_valid (pv_epoch p)" "gen_valid (pv_set_generation p)"
  shows "carries (write_wire_provenance 1 p) read_set_provenance p"
  using assms unfolding write_wire_provenance_def read_set_provenance_def Let_def typed_provenance_def
  by (intro carries_intros) auto

lemma carries_member_provenance:
  "typed_provenance p \<Longrightarrow> gen_valid (pv_set_generation p) \<Longrightarrow> carries (write_wire_provenance 0 p) read_member_provenance p"
  unfolding write_wire_provenance_def read_member_provenance_def Let_def typed_provenance_def
  by (intro carries_intros) auto

lemma carries_entry: "sendable_entry h \<Longrightarrow> carries (write_history_entry h) read_history_entry h"
  unfolding write_history_entry_def read_history_entry_def Let_def sendable_entry_def
  by (intro carries_intros) (auto simp: max_detail_length_def)

lemma carries_member_snapshot:
  "typed_member_snapshot m \<Longrightarrow> gen_valid (pv_set_generation (ms_provenance m)) \<Longrightarrow>
   carries (write_member_snapshot m) read_member_snapshot m"
  unfolding write_member_snapshot_def read_member_snapshot_def Let_def typed_member_snapshot_def
  by (intro carries_intros carries_step [OF carries_member_provenance]) (auto simp: watermark.expand)

lemma carries_snapshot_head:
  assumes s: "typed_snapshot_head s" "gen_valid (pv_set_generation (ss_provenance s))"
  shows "carries (write_snapshot_head s) read_snapshot_head (s\<lparr>ss_members := [], ss_history := []\<rparr>)"
proof -
  have n: "unat (of_nat (ss_minimum s) :: u64) = ss_minimum s" "unat (of_nat (ss_usable_count s) :: u64) = ss_usable_count s"
    "unat (of_nat (ss_member_count s) :: u64) = ss_member_count s"
    using s by (simp_all add: typed_snapshot_head_def unsigned_of_nat take_bit_nat_eq_self)
  show ?thesis
    unfolding write_snapshot_head_def read_snapshot_head_def Let_def
    by (intro carries_intros carries_revocation_value carries_step [OF carries_set_provenance])
      (use s n in \<open>auto simp: typed_snapshot_head_def max_text_length_def\<close>)
qed

text \<open>The bytes of a snapshot whose encoding succeeds.\<close>

definition write_snapshot :: "set_snapshot \<Rightarrow> byte_writer \<Rightarrow> byte_writer" where
  "write_snapshot s = bw_all
     [write_snapshot_head s,
      bw_u32 (of_nat (length (ss_history s))), bw_each write_history_entry (ss_history s),
      bw_u32 (of_nat (length (ss_members s))), bw_each write_member_snapshot (ss_members s)]"

lemma unat_count: "n \<le> 1000000 \<Longrightarrow> unat (of_nat n :: u32) = n"
  by (simp add: unsigned_of_nat take_bit_nat_eq_self)

lemma narrow_count:
  assumes "n \<le> 1000000"
  shows "narrow_u32 (of_nat n) = Some (of_nat n)"
  using assms by (simp only: narrow_u32_Some unat_count) (simp add: unsigned_of_nat take_bit_nat_eq_self)

lemma carries_snapshot:
  assumes s: "sendable_snapshot s"
  shows "carries (write_snapshot s) decode_snapshot s"
  unfolding write_snapshot_def decode_snapshot_def
  by (intro carries_step [OF carries_snapshot_head] carries_intros carries_entry carries_member_snapshot)
    (use s in \<open>auto simp: sendable_snapshot_def typed_snapshot_def list_all_iff unat_count\<close>)

lemma encode_snapshot_writes:
  assumes "sendable_snapshot s" and "encode_snapshot s writer = (encoded, writer')" and "succeeded encoded"
  shows "writer' = write_snapshot s writer"
  using assms
  by (auto simp: encode_snapshot_def checked_writer_def sendable_snapshot_def typed_snapshot_def narrow_count Let_def bw_all_cons bw_all_nil
      write_snapshot_def split: if_splits)

section \<open>Explanations\<close>

definition sendable_member_explanation :: "member_explanation \<Rightarrow> bool" where
  "sendable_member_explanation m \<longleftrightarrow> known_id 128 (me_id m) \<and> known_id 128 (me_path_id m) \<and> gen_valid (me_bound m) \<and>
     pred_option gen_valid (me_observed_generation m)"

definition sendable_explanation :: "set_explanation \<Rightarrow> bool" where
  "sendable_explanation x \<longleftrightarrow> known_id 96 (se_set_id x) \<and> sendable_key (se_key x) \<and> gen_valid (se_governing_epoch x) \<and>
     gen_valid (se_authority_generation x) \<and> se_member_count x < 2 ^ 64 \<and> se_usable_count x < 2 ^ 64 \<and>
     se_minimum x < 2 ^ 64 \<and> pred_option (known_id 64) (se_last_publisher x) \<and> length (se_reasons x) \<le> 4096 \<and>
     list_all sendable_member_explanation (se_members x) \<and> length (se_members x) \<le> 1000000"

text \<open>An observed generation is read as a number first.\<close>

lemma write_flagged_map: "write_flagged (\<lambda>g. bw_u64 (gen_value g)) v = write_flagged bw_u64 (map_option gen_value v)"
  by (cases v) (simp_all add: write_flagged_def write_present_def)

lemma carries_number [carries_intros]: "carries (bw_u64 n) (dc_field e rd_u64) n"
  by (rule carries_appends [OF appends_u64 u64_codec.decodes_field [OF TrueI]])

lemma carries_member_explanation:
  assumes m: "sendable_member_explanation m"
  shows "carries (write_member_explanation m) read_member_explanation m"
proof -
  have g: "map_option Generation (map_option gen_value v) = v" for v :: "path_authority_generation option"
    by (cases v) simp_all
  show ?thesis
    unfolding write_member_explanation_def read_member_explanation_def Let_def write_flagged_map
    by (intro carries_intros) (use m g in \<open>auto simp: sendable_member_explanation_def gen_valid_def [abs_def] option.pred_map comp_def\<close>)
qed

lemma carries_explanation_head:
  assumes x: "sendable_explanation x"
  shows "carries (write_explanation_head x) read_explanation_head (x\<lparr>se_reasons := [], se_members := [], se_truncated := False\<rparr>)"
proof -
  have n: "unat (of_nat (se_minimum x) :: u64) = se_minimum x" "unat (of_nat (se_usable_count x) :: u64) = se_usable_count x"
    "unat (of_nat (se_member_count x) :: u64) = se_member_count x"
    using x by (simp_all add: sendable_explanation_def unsigned_of_nat take_bit_nat_eq_self)
  show ?thesis
    unfolding write_explanation_head_def read_explanation_head_def Let_def
    by (intro carries_intros) (use x n in \<open>auto simp: sendable_explanation_def\<close>)
qed

definition write_explanation :: "set_explanation \<Rightarrow> byte_writer \<Rightarrow> byte_writer" where
  "write_explanation x = bw_all
     [write_explanation_head x,
      bw_u32 (of_nat (length (se_reasons x))), bw_each (\<lambda>reason. bw_u8 (explanation_reason_raw reason)) (se_reasons x),
      bw_u32 (of_nat (length (se_members x))), bw_each write_member_explanation (se_members x),
      bw_boolean (se_truncated x)]"

lemma carries_explanation:
  assumes x: "sendable_explanation x"
  shows "carries (write_explanation x) decode_explanation x"
  unfolding write_explanation_def decode_explanation_def
  by (intro carries_step [OF carries_explanation_head] carries_intros carries_member_explanation)
    (use x in \<open>auto simp: sendable_explanation_def list_all_iff unat_count\<close>)

lemma encode_explanation_writes:
  assumes "sendable_explanation x" and "encode_explanation x writer = (encoded, writer')" and "succeeded encoded"
  shows "writer' = write_explanation x writer"
  using assms
  by (auto simp: encode_explanation_def checked_writer_def sendable_explanation_def narrow_count Let_def bw_all_cons bw_all_nil
      write_explanation_def split: if_splits)

section \<open>Responses\<close>

definition typed_response :: "wire_response \<Rightarrow> bool" where
  "typed_response p \<longleftrightarrow> sendable_outcome (wr_outcome p) \<and> pred_option typed_snapshot (wr_snapshot p) \<and>
     pred_option sendable_explanation (wr_explanation p) \<and> list_all (known_id 96) (wr_set_ids p) \<and>
     length (wr_set_ids p) \<le> 1000000"

definition sendable_response :: "wire_response \<Rightarrow> bool" where
  "sendable_response p \<longleftrightarrow> typed_response p \<and> pred_option sendable_snapshot (wr_snapshot p)"

definition write_response :: "wire_response \<Rightarrow> byte_writer \<Rightarrow> byte_writer" where
  "write_response p = bw_all
     [write_outcome (wr_outcome p),
      write_flagged write_snapshot (wr_snapshot p),
      write_flagged write_explanation (wr_explanation p),
      bw_u32 (of_nat (length (wr_set_ids p))), bw_each bw_id (wr_set_ids p)]"

lemma carries_response:
  assumes p: "sendable_response p"
  shows "carries (write_response p) decode_response p"
  unfolding write_response_def decode_response_def
  by (intro carries_step [OF carries_outcome] carries_intros carries_snapshot carries_explanation)
    (use p in \<open>auto simp: sendable_response_def typed_response_def list_all_iff unat_count\<close>)

lemma encode_response_writes:
  assumes p: "sendable_response p" and "encode_response p = Inr bs"
  shows "bw_ok (write_response p (new_writer (2 ^ 20))) \<and> bs = bw_buffer (write_response p (new_writer (2 ^ 20)))"
proof -
  have count: "narrow_u32 (of_nat (length (wr_set_ids p))) = Some (of_nat (length (wr_set_ids p)))"
    using p by (intro narrow_count) (simp add: sendable_response_def typed_response_def)
  obtain w1 where w1: "w1 = write_outcome (wr_outcome p) (new_writer (2 ^ 20))"
    and 1: "wr_part (encode_present encode_snapshot (wr_snapshot p) w1) (\<lambda>writer.
       wr_part (encode_present encode_explanation (wr_explanation p) writer) (\<lambda>writer.
         let writer = bw_all [bw_u32 (of_nat (length (wr_set_ids p))), bw_each bw_id (wr_set_ids p)] writer
         in if bw_overflowed writer
            then Inl (make_rejection OC_RESOURCE_LIMIT (msg ''response encoding exceeded its bound''))
            else Inr (bw_buffer writer))) = Inr bs"
    using assms(2) by (auto simp: encode_response_def encode_outcome_def checked_writer_def wr_part_def count split: if_splits)
  then obtain e2 w2 where e2: "encode_present encode_snapshot (wr_snapshot p) w1 = (e2, w2)" "succeeded e2"
    and 2: "wr_part (encode_present encode_explanation (wr_explanation p) w2) (\<lambda>writer.
         let writer = bw_all [bw_u32 (of_nat (length (wr_set_ids p))), bw_each bw_id (wr_set_ids p)] writer
         in if bw_overflowed writer
            then Inl (make_rejection OC_RESOURCE_LIMIT (msg ''response encoding exceeded its bound''))
            else Inr (bw_buffer writer)) = Inr bs"
    by (auto simp: wr_part_def split: prod.splits if_splits)
  then obtain e3 w3 where e3: "encode_present encode_explanation (wr_explanation p) w2 = (e3, w3)" "succeeded e3"
    and 3: "bw_ok (bw_all [bw_u32 (of_nat (length (wr_set_ids p))), bw_each bw_id (wr_set_ids p)] w3)"
      "bs = bw_buffer (bw_all [bw_u32 (of_nat (length (wr_set_ids p))), bw_each bw_id (wr_set_ids p)] w3)"
    by (auto simp: wr_part_def bw_overflowed_def Let_def split: prod.splits if_splits)
  have "w2 = write_flagged write_snapshot (wr_snapshot p) w1"
    using e2 p by (cases "wr_snapshot p") (auto simp: encode_present_def write_flagged_def write_present_def
        bw_all_cons bw_all_nil sendable_response_def typed_response_def dest: encode_snapshot_writes)
  moreover have "w3 = write_flagged write_explanation (wr_explanation p) w2"
    using e3 p by (cases "wr_explanation p") (auto simp: encode_present_def write_flagged_def write_present_def
        bw_all_cons bw_all_nil sendable_response_def typed_response_def dest: encode_explanation_writes)
  ultimately show ?thesis using 3 w1 by (simp add: write_response_def bw_all_cons bw_all_nil)
qed

lemma decode_encode_response:
  assumes "sendable_response p" and "encode_response p = Inr bs"
  shows "\<exists>r. decode_response (new_reader bs) = Inr (p, r) \<and> rd_at_end r"
proof -
  from carriesE [OF carries_response [OF assms(1)]] encode_response_writes [OF assms]
  have "decodes decode_response bs p" by (metis append_Nil byte_writer.select_convs(1) new_writer_def)
  from decodesD [OF this, of "new_reader bs" "[]"] show ?thesis
    using reads_new [of bs] by (auto simp: reads_def rd_at_end_def)
qed

end
