(* ===== verification/Wire_Types.thy ===== *)
theory Wire_Types
  imports Response_Facts Decoder_Post
begin

text \<open>
  A frame comes from a peer that need not be honest. Whatever the bytes are, the decoders stay inside
  them, and what they accept is well typed: every identity is in its grammar, every generation is
  possible, every count is within its bound, and a request holds only what its message id carries.
\<close>

section \<open>Post-conditions of the blocks\<close>

lemma ensures_lenient_id:
  assumes "\<And>i. parse t = Some i \<Longrightarrow> known_id n i" and "\<And>i. lenient_id n i \<Longrightarrow> ensures (q i) P"
  shows "ensures (dc_lenient_id e parse t q) P"
  using assms by (auto simp: dc_lenient_id_def dc_opt_text_def or_invalid_def lenient_id_def intro!: ensures_some)

lemmas ensures_lenient_ids [ensures_intros] =
  ensures_lenient_id [OF parsed_known(5)]
  ensures_lenient_id [OF parsed_known(6)]
  ensures_lenient_id [OF parsed_known(7)]
  ensures_lenient_id [OF parsed_known(9)]
  ensures_lenient_id [OF parsed_known(10)]

lemma ensures_lenient_gen [ensures_intros]:
  "(\<And>g. ensures (q g) P) \<Longrightarrow> ensures (dc_lenient_gen e v q) P"
  by (auto simp: dc_lenient_gen_def intro: ensures_some)

lemma ensures_expected [ensures_intros]:
  "(\<And>v. pred_option gen_valid v \<Longrightarrow> ensures (q v) P) \<Longrightarrow> ensures (dc_opt_text e parse_expected t q) P"
  by (auto simp: dc_opt_text_def parse_expected_def parsed_generation split: option.splits intro!: ensures_some ensures_reject)

lemma ensures_optional_path [ensures_intros]:
  "(\<And>v. pred_option (known_id 128) v \<Longrightarrow> ensures (q v) P) \<Longrightarrow> ensures (dc_opt_text e parse_path_id t q) P"
  by (auto simp: dc_opt_text_def parsed_known intro!: ensures_some)

lemma ensures_when:
  assumes "ensures p Q" and "\<And>v. pred_option Q v \<Longrightarrow> ensures (q v) P"
  shows "ensures (dc_then (dc_when b p) q) P"
proof (rule ensures_then_post)
  show "ensures (dc_when b p) (pred_option Q)"
    unfolding dc_when_def
    by (intro ensures_intros ensures_then_post [OF assms(1)]) simp_all
qed (rule assms(2))

lemma ensures_parsed_id:
  "(\<And>t i. parse t = Some i \<Longrightarrow> known_id n i) \<Longrightarrow> ensures (dc_parsed_id e e' parse) (known_id n)"
  unfolding dc_parsed_id_def by (intro ensures_intros) auto

lemma ensures_parsed_gen: "ensures (dc_parsed_gen e e') gen_valid"
  unfolding dc_parsed_gen_def by (intro ensures_intros) (simp add: parsed_generation)

lemma ensures_any: "ensures p (\<lambda>_. True)"
  by (rule ensuresI) simp

lemma ensures_count: "ensures (read_count e) (\<lambda>n. n < 2 ^ 64)"
  unfolding read_count_def by (intro ensures_intros) (use unsigned_less [where 'a = nat and 'b = 64] in simp)

lemma ensures_scope: "ensures read_scope sendable_scope"
proof -
  have "ensures read_scope_set_id (known_id 96)"
    unfolding read_scope_set_id_def by (intro ensures_intros) (simp add: parsed_known)
  then show ?thesis
    unfolding read_scope_def
    by (intro ensures_intros ensures_then_post [OF ensures_list]) (auto simp: sendable_scope_def not_less)
qed

lemma ensures_context: "ensures read_context sendable_context"
  unfolding read_context_def
  by (intro ensures_intros) (simp add: sendable_context_def parsed_known parsed_generation)

lemma ensures_key: "ensures read_key sendable_key"
  unfolding read_key_def by (intro ensures_intros) (simp add: sendable_key_def parsed_known)

section \<open>Requests\<close>

definition received_request :: "message_id \<Rightarrow> wire_request \<Rightarrow> bool" where
  "received_request i q \<longleftrightarrow> wq_id q = i \<and>
     (if i = MI_SUPERSEDE_SET
      then sendable_context (wq_context q) \<and> known_id 96 (wq_set_id q) \<and> known_id 96 (StrongId (wq_text q) :: set_id)
      else sendable_request q \<and> sent_request q = q)"

lemmas request_blocks =
  read_register_def read_create_set_def read_add_member_def read_add_members_def read_about_member_def
  read_replace_member_def read_set_minimum_def read_set_policy_def read_about_set_def read_revoke_set_def
  read_retire_set_def read_supersede_set_def read_epoch_advance_def read_set_state_def read_path_view_def
  read_refresh_path_def read_query_def read_snapshot_request_def

lemma ensures_member_request: "ensures read_member_request sendable_member"
  unfolding read_member_request_def Let_def
  by (intro ensures_intros) (simp add: sendable_member_def parsed_known parsed_generation)

lemmas block_posts =
  ensures_then_post [OF ensures_as [OF ensures_context]]
  ensures_then_post [OF ensures_as [OF ensures_scope]]
  ensures_then_post [OF ensures_as [OF ensures_key]]
  ensures_then_post [OF ensures_list [OF ensures_member_request]]

lemma unat_u64_small: "unat (v :: u64) < 18446744073709551616"
  using unsigned_less [of v, where ?'a = nat] by simp

lemma ensures_request: "ensures (decode_request i) (received_request i)"
  unfolding decode_request_def Let_def
  by (cases i)
    (simp_all only: message_id.case request_blocks Let_def empty_request_fields message_id.distinct simp_thms if_True if_False,
     (intro ensures_intros block_posts;
      simp add: received_request_def sent_request_def sendable_request_def parsed_known parsed_generation not_less
        empty_request_def unat_u64_small gen_from_value_def split: if_splits)+)

section \<open>Responses\<close>

lemma ensures_outcome: "ensures decode_outcome sendable_outcome"
  unfolding decode_outcome_def Let_def
  by (intro ensures_intros ensures_when [OF ensures_parsed_id [OF parsed_known(1)]]
      ensures_when [OF ensures_parsed_id [OF parsed_known(2)]] ensures_when [OF ensures_parsed_id [OF parsed_known(3)]]
      ensures_when [OF ensures_parsed_gen] ensures_when [OF ensures_count]
      ensures_when [OF ensures_any [of "dc_parsed_enum e e' of_raw" for e e' of_raw]]
      ensures_when [OF ensures_any [of read_digest]])
    (simp_all add: sendable_outcome_def)

lemma ensures_wire_revocation: "ensures (read_wire_revocation sid) (sendable_revocation sid)"
  unfolding read_wire_revocation_def Let_def
  by (intro ensures_intros) (simp_all add: sendable_revocation_def parsed_known parsed_generation)

lemma ensures_set_provenance: "ensures read_set_provenance (\<lambda>p. typed_provenance p \<and> gen_valid (pv_epoch p))"
  unfolding read_set_provenance_def Let_def
  by (intro ensures_intros) (simp_all add: typed_provenance_def parsed_generation)

lemma ensures_member_provenance: "ensures read_member_provenance typed_provenance"
  unfolding read_member_provenance_def Let_def by (intro ensures_intros) (simp_all add: typed_provenance_def)

lemma ensures_entry: "ensures read_history_entry sendable_entry"
  unfolding read_history_entry_def Let_def
  by (intro ensures_intros) (simp_all add: sendable_entry_def parsed_generation)

lemma ensures_member_snapshot: "ensures read_member_snapshot typed_member_snapshot"
  unfolding read_member_snapshot_def Let_def
  by (intro ensures_intros ensures_then_post [OF ensures_member_provenance])
    (simp_all add: typed_member_snapshot_def parsed_known parsed_generation)

lemma ensures_snapshot_head: "ensures read_snapshot_head typed_snapshot_head"
  unfolding read_snapshot_head_def Let_def
  by (intro ensures_intros ensures_then_post [OF ensures_as [OF ensures_key]]
      ensures_then_post [OF ensures_set_provenance] ensures_when [OF ensures_wire_revocation])
    (simp_all add: typed_snapshot_head_def parsed_known parsed_generation not_less unat_u64_small)

lemma ensures_snapshot: "ensures decode_snapshot typed_snapshot"
  unfolding decode_snapshot_def
  by (intro ensures_intros ensures_then_post [OF ensures_snapshot_head]
      ensures_then_post [OF ensures_list [OF ensures_entry]] ensures_then_post [OF ensures_list [OF ensures_member_snapshot]])
    (auto simp: typed_snapshot_def typed_snapshot_head_def not_less)

lemma ensures_member_explanation: "ensures read_member_explanation sendable_member_explanation"
  unfolding read_member_explanation_def Let_def
  by (intro ensures_intros ensures_when [OF ensures_any [of "dc_field e rd_u64" for e]]
      ensures_when [OF ensures_any [of "dc_parsed_enum e e' of_raw" for e e' of_raw]])
    (simp_all add: sendable_member_explanation_def parsed_known parsed_generation option.pred_map comp_def
      gen_valid_def [abs_def] parsed_generation [unfolded gen_valid_def])

lemma ensures_explanation_head: "ensures read_explanation_head
   (\<lambda>x. sendable_explanation x \<and> se_reasons x = [] \<and> se_members x = [])"
  unfolding read_explanation_head_def Let_def
  by (intro ensures_intros ensures_then_post [OF ensures_as [OF ensures_key]]
      ensures_when [OF ensures_parsed_id [OF parsed_known(5)]])
    (simp_all add: sendable_explanation_def parsed_known parsed_generation unat_u64_small)

lemma ensures_explanation: "ensures decode_explanation sendable_explanation"
  unfolding decode_explanation_def
  by (intro ensures_intros ensures_then_post [OF ensures_explanation_head]
      ensures_then_post [OF ensures_list [OF ensures_any [of "dc_parsed_enum e e' of_raw" for e e' of_raw]]]
      ensures_then_post [OF ensures_list [OF ensures_member_explanation]])
    (auto simp: sendable_explanation_def not_less)

lemma ensures_response: "ensures decode_response typed_response"
  unfolding decode_response_def
  by (intro ensures_intros ensures_then_post [OF ensures_outcome] ensures_when [OF ensures_snapshot]
      ensures_when [OF ensures_explanation] ensures_then_post [OF ensures_list [OF ensures_parsed_id [OF parsed_known(1)]]])
    (auto simp: typed_response_def not_less)

section \<open>The decoders stay inside their data\<close>

lemma consumes_lenient_id [consumes_intros]: "(\<And>i. consumes (q i)) \<Longrightarrow> consumes (dc_lenient_id e parse t q)"
  unfolding dc_lenient_id_def by (intro consumes_intros) simp

lemma consumes_lenient_gen [consumes_intros]: "(\<And>g. consumes (q g)) \<Longrightarrow> consumes (dc_lenient_gen e v q)"
  unfolding dc_lenient_gen_def by (intro consumes_intros) simp_all

lemma consumes_when [consumes_intros]: "consumes p \<Longrightarrow> consumes (dc_when b p)"
  unfolding dc_when_def by (intro consumes_intros)

lemma consumes_parsed [consumes_intros]:
  "consumes (dc_parsed_id e e' parse)" "consumes (dc_parsed_gen e e')" "consumes (dc_parsed_enum e e' of_raw)"
  unfolding dc_parsed_id_def dc_parsed_gen_def dc_parsed_enum_def by (intro consumes_intros)+

lemma consumes_blocks [consumes_intros]: "consumes read_scope" "consumes read_context" "consumes read_key"
  unfolding read_scope_def read_scope_set_id_def read_context_def read_key_def by (intro consumes_intros)+

lemma consumes_request: "consumes (decode_request i)"
  unfolding decode_request_def Let_def
  by (cases i) (simp_all only: message_id.case request_blocks read_member_request_def Let_def, (intro consumes_intros)+)

lemma consumes_outcome [consumes_intros]: "consumes decode_outcome"
  unfolding decode_outcome_def read_count_def read_digest_def Let_def by (intro consumes_intros)

lemma consumes_snapshot [consumes_intros]: "consumes decode_snapshot"
  unfolding decode_snapshot_def read_snapshot_head_def read_wire_revocation_def read_set_provenance_def
    read_history_entry_def read_member_snapshot_def read_member_provenance_def Let_def by (intro consumes_intros)

lemma consumes_explanation [consumes_intros]: "consumes decode_explanation"
  unfolding decode_explanation_def read_explanation_head_def read_member_explanation_def Let_def
  by (intro consumes_intros)

lemma consumes_response: "consumes decode_response"
  unfolding decode_response_def by (intro consumes_intros)

end
