(* ===== verification/Frame_Facts.thy ===== *)
theory Frame_Facts
  imports Wire_Frame
begin

text \<open>
  A frame is accepted exactly when it is the encoding of what it is accepted as: the header decoder
  recognises the 16 bytes the encoder writes for a message id and a length and nothing else, and the
  integrity check fixes the remaining 8 bytes.
\<close>

section \<open>Words and their bytes\<close>

lemma le_bytes_le_value:
  assumes n: "LENGTH('a::len) = 8 * n" and len: "n \<le> length bs"
  shows "le_bytes n (le_value n bs :: 'a word) = take n bs"
proof (rule nth_equalityI)
  show "length (le_bytes n (le_value n bs :: 'a word)) = length (take n bs)" using len by simp
next
  fix i assume "i < length (le_bytes n (le_value n bs :: 'a word))"
  then have i: "i < n" by simp
  have "ucast (drop_bit (8 * i) (le_value n bs :: 'a word) AND 0xFF) = bs ! i"
  proof (rule bit_word_eqI)
    fix k assume "k < LENGTH(8)"
    then have k: "k < 8" by simp
    have "bit (le_value n bs :: 'a word) (8 * i + k) \<longleftrightarrow>
        (\<exists>j < n. 8 * j \<le> 8 * i + k \<and> bit (bs ! j) (8 * i + k - 8 * j))"
      using k i n
      by (auto simp: le_value_def bit_foldl_or bit_push_bit_iff bit_ucast_iff)
        (rule exI, rule conjI [rotated], erule conjI, assumption, simp)
    also have "\<dots> \<longleftrightarrow> bit (bs ! i) k"
    proof
      assume "\<exists>j < n. 8 * j \<le> 8 * i + k \<and> bit (bs ! j) (8 * i + k - 8 * j)"
      then obtain j where j: "8 * j \<le> 8 * i + k" "bit (bs ! j) (8 * i + k - 8 * j)" by blast
      then have "8 * i + k - 8 * j < 8" using bit_imp_le_length by fastforce
      with j k have "j = i" by simp
      with j show "bit (bs ! i) k" by simp
    qed (use i in \<open>auto intro!: exI [of _ i]\<close>)
    finally show "bit (ucast (drop_bit (8 * i) (le_value n bs :: 'a word) AND 0xFF) :: u8) k \<longleftrightarrow> bit (bs ! i) k"
      using k by (simp only: bit_le_byte) simp
  qed
  then show "le_bytes n (le_value n bs :: 'a word) ! i = take n bs ! i"
    using i by (simp add: le_bytes_def)
qed

lemma le_bytes_inject: "LENGTH('a::len) = 8 * n \<Longrightarrow> le_bytes n (v :: 'a word) = le_bytes n w \<longleftrightarrow> v = w"
  using le_value_le_bytes [where rest = "[]"] by (metis append_Nil2)

lemma take_drop_again: "take n (drop a bs) @ drop (a + n) bs = drop a bs"
  by (metis append_take_drop_id drop_drop add.commute)

section \<open>The header\<close>

definition semantic_header :: "message_id \<Rightarrow> u32 \<Rightarrow> u8 list" where
  "semantic_header i len =
     le_bytes 4 frame_magic @ le_bytes 2 wire_protocol_version @ le_bytes 2 (message_raw i) @
     le_bytes 4 len @ le_bytes 4 (0 :: u32)"

lemma length_semantic_header [simp]: "length (semantic_header i len) = 16"
  by (simp add: semantic_header_def)

lemma frame_bound_le: "frame_bound m \<le> 67108864"
  by (simp add: frame_bound_def max_frame_hard_bound_def)

lemma encode_frame_eq:
  "encode_frame i payload m =
     (if length payload > frame_bound m
      then Inl (make_rejection OC_RESOURCE_LIMIT
             (msg (''frame payload of '' @ nat_string (length payload) @
                   '' bytes exceeds max_frame_bytes '' @ nat_string (frame_bound m))))
      else let h = semantic_header i (of_nat (length payload))
           in Inr (h @ le_bytes 8 (frame_integrity h payload) @ payload))"
proof (cases "length payload > frame_bound m")
  case False
  then have "length payload < 2 ^ 32" using frame_bound_le [of m] by simp
  then have "narrow_u32 (of_nat (length payload)) = Some (of_nat (length payload))"
    by (simp only: narrow_u32_Some) (simp add: unsigned_of_nat take_bit_nat_eq_self)
  then show ?thesis using False
    by (simp add: encode_frame_def bw_all_def bw_u16_def bw_u32_def bw_u64_def bw_raw_eq new_writer_def
        bw_overflowed_def frame_header_size_def frame_integrity_offset_def semantic_header_def Let_def)
qed (simp add: encode_frame_def Let_def)

lemma rd_word_at:
  "rd_ok r \<Longrightarrow> rd_offset r + n \<le> length (rd_data r) \<Longrightarrow>
   rd_word n r = (Some (le_value n (drop (rd_offset r) (rd_data r))), r\<lparr>rd_offset := rd_offset r + n\<rparr>)"
  by (simp add: rd_word_def rd_require_def)

lemma decode_header_iff:
  "decode_header header m = Inr (i, len) \<longleftrightarrow>
     take 16 header = semantic_header i len \<and> unat len \<le> frame_bound m"
proof (cases "length header < 16")
  case True
  have "take 16 header \<noteq> semantic_header i len"
  proof
    assume "take 16 header = semantic_header i len"
    then have "length (take 16 header) = 16" by (simp only: length_semantic_header)
    then show False using True by simp
  qed
  then show ?thesis using True by (simp add: decode_header_def frame_integrity_offset_def)
next
  case False
  define bs where "bs = take 16 header"
  have len: "length bs = 16" using False by (simp add: bs_def)
  let ?magic = "le_value 4 bs :: u32" and ?version = "le_value 2 (drop 4 bs) :: u16"
  let ?message = "le_value 2 (drop 6 bs) :: u16" and ?len = "le_value 4 (drop 8 bs) :: u32"
  let ?flags = "le_value 4 (drop 12 bs) :: u32"
  have "bs = take 4 bs @ take 2 (drop 4 bs) @ take 2 (drop 6 bs) @ take 4 (drop 8 bs) @ take 4 (drop 12 bs)"
    using take_drop_again [of 4 0 bs] take_drop_again [of 2 4 bs] take_drop_again [of 2 6 bs]
      take_drop_again [of 4 8 bs] len by simp
  then have parts: "bs = le_bytes 4 ?magic @ le_bytes 2 ?version @ le_bytes 2 ?message @ le_bytes 4 ?len @ le_bytes 4 ?flags"
    using len by (simp add: le_bytes_le_value)
  have "bs = semantic_header i len' \<longleftrightarrow>
      ?magic = frame_magic \<and> ?version = wire_protocol_version \<and> ?message = message_raw i \<and> ?len = len' \<and> ?flags = 0" for len'
    by (subst parts) (simp add: semantic_header_def le_bytes_inject)
  then show ?thesis
    using False message_raw_of_raw message_of_raw_raw
    by (auto simp: decode_header_def frame_integrity_offset_def read_frame_header_def Let_def dc_then_def dc_field_def
        rd_u32_def rd_u16_def rd_word_at new_reader_def len bs_def [symmetric] dc_check_def dc_some_def dc_return_def dc_reject_def
        not_less split: option.splits)
qed

lemma verify_integrity_iff:
  "succeeded (verify_integrity header payload) \<longleftrightarrow>
     24 \<le> length header \<and> take 8 (drop 16 header) = le_bytes 8 (frame_integrity (take 16 header) payload)"
proof (cases "24 \<le> length header")
  case True
  let ?bs = "take 8 (drop 16 header)"
  have "?bs = le_bytes 8 (le_value 8 ?bs :: u64)" using True by (subst le_bytes_le_value) simp_all
  then have "?bs = le_bytes 8 v \<longleftrightarrow> le_value 8 ?bs = v" for v :: u64 
    using le_bytes_inject [where 'a = 64 and n = 8] by (simp) (metis)
  then show ?thesis using True
    by (auto simp: verify_integrity_def frame_header_size_def frame_integrity_offset_def rd_u64_def rd_word_at new_reader_def
        succeeded_def outcome_is_success_def)
qed (simp add: verify_integrity_def frame_header_size_def succeeded_def outcome_is_success_def)

lemma frame_accepted_iff:
  assumes "length payload < 2 ^ 32"
  shows "encode_frame i payload m = Inr frame \<longleftrightarrow>
    drop 24 frame = payload \<and> 24 \<le> length frame \<and> decode_header (take 24 frame) m = Inr (i, of_nat (length payload)) \<and>
    succeeded (verify_integrity (take 24 frame) payload)"
proof -
  have n: "unat (of_nat (length payload) :: u32) = length payload"
    using assms by (simp add: unsigned_of_nat take_bit_nat_eq_self)
  show ?thesis
  proof
    assume "encode_frame i payload m = Inr frame"
    then show "drop 24 frame = payload \<and> 24 \<le> length frame \<and>
        decode_header (take 24 frame) m = Inr (i, of_nat (length payload)) \<and>
        succeeded (verify_integrity (take 24 frame) payload)"
      by (auto simp: encode_frame_eq decode_header_iff verify_integrity_iff n Let_def split: if_splits)
  next
    assume a: "drop 24 frame = payload \<and> 24 \<le> length frame \<and>
        decode_header (take 24 frame) m = Inr (i, of_nat (length payload)) \<and>
        succeeded (verify_integrity (take 24 frame) payload)"
    then have h: "take 16 frame = semantic_header i (of_nat (length payload))" "length payload \<le> frame_bound m"
      by (auto simp: decode_header_iff n)
    from a have "take 8 (drop 16 frame) = le_bytes 8 (frame_integrity (take 16 frame) payload)"
      by (simp add: verify_integrity_iff drop_take)
    moreover have "frame = take 16 frame @ take 8 (drop 16 frame) @ drop 24 frame"
      using take_drop_again [of 8 16 frame] by simp
    ultimately show "encode_frame i payload m = Inr frame"
      using a h by (simp add: encode_frame_eq Let_def)
  qed
qed

end
