(* ===== verification/Worked_Wire.thy ===== *)
theory Worked_Wire
  imports Worked_Store Wire_Types Frame_Facts
begin

text \<open>
  A request and a response of the worked example: the batch admission that Worked_Example performs, as a
  client sends it, and the listing of its set, as the coordinator answers.
\<close>

definition ex_wire_request :: wire_request where
  "ex_wire_request = (empty_request MI_ADD_MEMBERS)\<lparr>wq_context := ex_ctx ''a-2'', wq_set_id := ex_sid,
     wq_members := [ex_request]\<rparr>"

definition ex_wire_response :: wire_response where
  "ex_wire_response = \<lparr>wr_outcome = make_outcome OC_OK ''1 set'', wr_snapshot = None, wr_explanation = None,
     wr_set_ids = [ex_sid]\<rparr>"

lemma ex_wire_known:
  "known_id 64 ex_session" "known_id 128 ex_path" "known_id 64 (StrongId ''a-2'' :: attempt_id)"
  by (code_simp)+

lemma ex_request_sendable: "sendable_request ex_wire_request"
  by (simp add: ex_wire_request_def sendable_request_def sendable_context_def sendable_member_def ex_ctx_def
      ex_known ex_wire_known ex_request_def gen_valid_def gen_first_def empty_request_def)

lemma ex_response_sendable: "sendable_response ex_wire_response"
  by (simp add: ex_wire_response_def sendable_response_def typed_response_def sendable_outcome_def make_outcome_def ex_known)

lemma needs_no_text: "needs (wire_opt_text None) 1"
  unfolding wire_opt_text_def option.case by (intro needs_intros) simp

lemma needs_absent: "needs (write_present f None) 0"
  unfolding write_present_def option.case by (rule needs_none)

lemma needs_unflagged: "needs (write_flagged f None) 1"
  unfolding write_flagged_def by (intro needs_intros needs_step [OF needs_absent]) simp_all

lemma ex_context_needs: "needs (write_context (ex_ctx ''a-2'')) 100"
  unfolding write_context_def ex_ctx_def mutation_context.select_convs option.map
  by (intro needs_intros needs_step [OF needs_no_text])
    (simp_all add: max_id_length_def written_id_def id_valid_def ex_session_def)

lemma ex_request_encoded: "\<exists>bs. encode_request ex_wire_request = Inr bs"
proof -
  have member: "needs (write_member_request ex_request) 30"
    unfolding write_member_request_def ex_request_def member_request.select_convs
    by (intro needs_intros) (simp_all add: ex_path_def)
  have "needs (bw_all [write_context (ex_ctx ''a-2''), bw_id ex_sid, bw_u32 1, bw_each write_member_request [ex_request]]) 300"
    by (intro needs_intros needs_step [OF ex_context_needs] needs_step [OF member]) simp_all
  from needsD(1) [OF this, of "2 ^ 20"] show ?thesis
    by (simp add: encode_request_def request_steps_def narrow_u32_def Let_def bw_overflowed_def ex_wire_request_def)
qed

lemma ex_response_encoded: "\<exists>bs. encode_response ex_wire_response = Inr bs"
proof -
  have none: "o_set_id (make_outcome OC_OK ''1 set'') = None" "o_member_id (make_outcome OC_OK ''1 set'') = None"
    "o_path_id (make_outcome OC_OK ''1 set'') = None" "o_set_generation (make_outcome OC_OK ''1 set'') = None"
    "o_membership_generation (make_outcome OC_OK ''1 set'') = None" "o_member_generation (make_outcome OC_OK ''1 set'') = None"
    "o_authority_generation (make_outcome OC_OK ''1 set'') = None" "o_lifecycle (make_outcome OC_OK ''1 set'') = None"
    "o_currentness (make_outcome OC_OK ''1 set'') = None" "o_usable_members (make_outcome OC_OK ''1 set'') = None"
    "o_minimum_usable_members (make_outcome OC_OK ''1 set'') = None" "o_digest (make_outcome OC_OK ''1 set'') = None"
    "o_detail (make_outcome OC_OK ''1 set'') = ''1 set''"
    by (simp_all add: make_outcome_def)
  let ?head = "write_outcome (make_outcome OC_OK ''1 set'')"
  have head: "needs ?head 40"
    unfolding write_outcome_def none
    by (intro needs_intros needs_step [OF needs_absent]) (simp_all add: max_detail_length_def)
  have tail: "needs (bw_all [bw_boolean False, bw_boolean False, bw_u32 1, bw_each bw_id [ex_sid]]) 100"
    by (intro needs_intros) simp_all
  have "needs (bw_all [?head, bw_all [bw_boolean False, bw_boolean False, bw_u32 1, bw_each bw_id [ex_sid]]]) 200"
    by (intro needs_step [OF head] needs_step [OF tail] needs_intros) simp_all
  from needsD(1) [OF this, of "2 ^ 20"] needsD(1) [OF head, of "2 ^ 20"] show ?thesis
    by (simp add: encode_response_def ex_wire_response_def encode_outcome_def checked_writer_def wr_part_def
        encode_present_def bw_overflowed_def bw_all_cons bw_all_nil Let_def narrow_u32_def succeeded_def outcome_is_success_def)
qed

end
