(* ===== verification/Coordinator.thy ===== *)
theory Coordinator
  imports Wire_Response Authority_Ops
begin

text \<open>
  The coordinator server, \<open>include/multipath_fabric/server.hpp\<close> and \<open>src/server.cpp\<close>: sessions, the
  dispatch of a decoded request to the engine, the handling of one frame and the end of a session.

  The socket of a session is its \<open>peer\<close>: what the receives return and what a send answers are inputs,
  the frames that are sent are part of the result. The external Path Authority is consulted before and
  after the critical section of an operation; both answers are inputs (\<open>before\<close>, \<open>after\<close>). The thread
  of a session and its scratch space are part of its record; threads are interleaved by the events of
  \<open>Coordinator_System\<close>.
\<close>

section \<open>State\<close>

type_synonym path_views = "path_id \<Rightarrow> path_authority_view option"

text \<open>\<open>sn_response\<close> is \<open>SessionScratch::response\<close>; the rest of the scratch space is overwritten before it is read.\<close>

record session =
  sn_id :: session_id
  sn_publisher :: publisher_id
  sn_worker_boot :: worker_boot_id
  sn_has_registration :: bool
  sn_finished :: bool
  sn_response :: wire_response

record server_statistics =
  sv_sessions_accepted :: u64
  sv_sessions_rejected :: u64
  sv_frames_received :: u64
  sv_frames_rejected :: u64
  sv_workers_fenced :: u64

record coordinator =
  co_engine :: engine
  co_limits :: limits
  co_ids :: id_factory
  co_sessions :: "(session_id, session) omap"
  co_statistics :: server_statistics

record peer =
  pe_header :: "fabric_outcome \<times> nat \<times> u8 list"
  pe_payload :: "nat \<Rightarrow> fabric_outcome \<times> u8 list"
  pe_send :: "u8 list \<Rightarrow> fabric_outcome"

definition empty_outcome :: fabric_outcome where
  "empty_outcome = make_outcome OC_OK []"

definition new_session :: "session_id \<Rightarrow> session" where
  "new_session sid =
     \<lparr>sn_id = sid, sn_publisher = invalid_id, sn_worker_boot = invalid_id, sn_has_registration = False,
      sn_finished = False,
      sn_response = \<lparr>wr_outcome = empty_outcome, wr_snapshot = None, wr_explanation = None, wr_set_ids = []\<rparr>\<rparr>"

definition no_statistics :: server_statistics where
  "no_statistics =
     \<lparr>sv_sessions_accepted = 0, sv_sessions_rejected = 0, sv_frames_received = 0, sv_frames_rejected = 0,
      sv_workers_fenced = 0\<rparr>"

definition coordinator_init :: "limits \<Rightarrow> string \<Rightarrow> engine \<Rightarrow> coordinator" where
  "coordinator_init l nonce e =
     \<lparr>co_engine = e, co_limits = l, co_ids = \<lparr>f_prefix = ''sess'', f_nonce = nonce, f_counter = 0\<rparr>,
      co_sessions = om_empty, co_statistics = no_statistics\<rparr>"

definition count_up :: "(server_statistics \<Rightarrow> server_statistics) \<Rightarrow> coordinator \<Rightarrow> coordinator" where
  "count_up f c = c\<lparr>co_statistics := f (co_statistics c)\<rparr>"

definition session_accepted :: "coordinator \<Rightarrow> coordinator" where
  "session_accepted = count_up (\<lambda>v. v\<lparr>sv_sessions_accepted := sv_sessions_accepted v + 1\<rparr>)"

definition session_rejected :: "coordinator \<Rightarrow> coordinator" where
  "session_rejected = count_up (\<lambda>v. v\<lparr>sv_sessions_rejected := sv_sessions_rejected v + 1\<rparr>)"

definition frame_received :: "coordinator \<Rightarrow> coordinator" where
  "frame_received = count_up (\<lambda>v. v\<lparr>sv_frames_received := sv_frames_received v + 1\<rparr>)"

definition frame_rejected :: "coordinator \<Rightarrow> coordinator" where
  "frame_rejected = count_up (\<lambda>v. v\<lparr>sv_frames_rejected := sv_frames_rejected v + 1\<rparr>)"

definition worker_fenced :: "coordinator \<Rightarrow> coordinator" where
  "worker_fenced = count_up (\<lambda>v. v\<lparr>sv_workers_fenced := sv_workers_fenced v + 1\<rparr>)"

section \<open>Connections\<close>

definition active_sessions :: "coordinator \<Rightarrow> nat" where
  "active_sessions c = length (filter (\<lambda>s. \<not> sn_finished s) (om_values (co_sessions c)))"

definition reap_finished_sessions :: "bool \<Rightarrow> coordinator \<Rightarrow> coordinator" where
  "reap_finished_sessions join_all c =
     c\<lparr>co_sessions := om_filter (\<lambda>_ s. \<not> (join_all \<or> sn_finished s)) (co_sessions c)\<rparr>"

text \<open>A pass of the accept loop over a readable listener; \<open>accepted\<close> is whether the accept succeeded.\<close>

definition accept_connection :: "bool \<Rightarrow> coordinator \<Rightarrow> coordinator" where
  "accept_connection accepted c =
     (if om_size (co_sessions c) \<ge> max_sessions (co_limits c) then session_rejected c
      else if \<not> accepted then c
      else
        (let (sid, ids) = next_session_id (co_ids c);
             s = new_session sid;
             c = c\<lparr>co_ids := ids\<rparr>
         in if om_size (co_sessions c) \<ge> max_sessions (co_limits c) then session_rejected c
            else session_accepted (c\<lparr>co_sessions := om_put (sn_id s) s (co_sessions c)\<rparr>)))"

definition end_session :: "session \<Rightarrow> string \<Rightarrow> coordinator \<Rightarrow> session \<times> coordinator" where
  "end_session s cause c =
     (let c = (if sn_has_registration s
               then worker_fenced
                      (c\<lparr>co_engine := snd (fence_worker (sn_publisher s) (sn_worker_boot s) cause (co_engine c))\<rparr>)
               else c)
      in (s\<lparr>sn_finished := True\<rparr>, c))"

section \<open>Sending\<close>

definition hello_payload :: "session \<Rightarrow> engine \<Rightarrow> u8 list" where
  "hello_payload s e =
     bw_buffer (bw_all [bw_string 128 (id_text (sn_id s)), bw_u64 (gen_value (e_epoch e))] (new_writer 64))"

text \<open>The outcome of sending, and the frame that went out, if one could be built.\<close>

definition send_bytes :: "peer \<Rightarrow> fabric_outcome + u8 list \<Rightarrow> fabric_outcome \<times> u8 list list" where
  "send_bytes peer encoded =
     (case encoded of Inl outcome \<Rightarrow> (outcome, []) | Inr frame \<Rightarrow> (pe_send peer frame, [frame]))"

definition send_hello_ack :: "peer \<Rightarrow> session \<Rightarrow> coordinator \<Rightarrow> fabric_outcome \<times> u8 list list" where
  "send_hello_ack peer s c =
     send_bytes peer (encode_frame MI_HELLO_ACK (hello_payload s (co_engine c)) (max_frame_bytes (co_limits c)))"

definition outgoing_frame :: "limits \<Rightarrow> message_id \<Rightarrow> wire_response \<Rightarrow> fabric_outcome + u8 list" where
  "outgoing_frame l i response =
     (case encode_response response of
        Inl outcome \<Rightarrow> Inl outcome
      | Inr payload \<Rightarrow> encode_frame i payload (max_frame_bytes l))"

definition send_frame :: "peer \<Rightarrow> message_id \<Rightarrow> wire_response \<Rightarrow> coordinator \<Rightarrow> fabric_outcome \<times> u8 list list" where
  "send_frame peer i response c = send_bytes peer (outgoing_frame (co_limits c) i response)"

section \<open>Dispatch\<close>

text \<open>Messages that are not bound to a session.\<close>

definition requires_session :: "message_id \<Rightarrow> bool" where
  "requires_session i =
     (case i of
        MI_LIST_SETS \<Rightarrow> False
      | MI_QUERY_SET \<Rightarrow> False
      | MI_EXPLAIN_SET \<Rightarrow> False
      | MI_SNAPSHOT_REQUEST \<Rightarrow> False
      | MI_SHUTDOWN \<Rightarrow> False
      | MI_HELLO \<Rightarrow> False
      | MI_HELLO_ACK \<Rightarrow> False
      | MI_SNAPSHOT_RESPONSE \<Rightarrow> False
      | MI_FENCE_NOTICE \<Rightarrow> False
      | MI_RESULT \<Rightarrow> False
      | MI_ERROR \<Rightarrow> False
      | _ \<Rightarrow> True)"

definition requested_view :: "wire_request \<Rightarrow> path_authority_view" where
  "requested_view q = \<lparr>v_path = wq_path_id q, v_generation = wq_path_generation q, v_state = wq_path_state q\<rparr>"

text \<open>The mutations: the branches of the second switch that call an operation of the engine.\<close>

definition dispatch_mutation :: "path_views \<Rightarrow> path_views \<Rightarrow> wire_request \<Rightarrow> engine \<Rightarrow> answer" where
  "dispatch_mutation before after q e =
     (let ctx = wq_context q; sid = wq_set_id q; mid = wq_member_id q; path = wq_path_id q;
          generation = wq_path_generation q; text = wq_text q
      in case wq_id q of
        MI_CREATE_SET \<Rightarrow> create_set ctx (wq_key q) (wq_options q) e
      | MI_ADD_MEMBER \<Rightarrow> add_member before after ctx sid path generation e
      | MI_ADD_MEMBERS \<Rightarrow> add_members before after ctx sid (wq_members q) e
      | MI_REMOVE_MEMBER \<Rightarrow> remove_member ctx sid mid text e
      | MI_WITHDRAW_MEMBER \<Rightarrow> withdraw_member ctx sid mid text e
      | MI_REPLACE_MEMBER \<Rightarrow> replace_member before ctx sid mid path generation text e
      | MI_SET_MINIMUM \<Rightarrow> set_minimum_usable_members ctx sid (unat (wq_number q)) e
      | MI_SET_CONDITIONAL_POLICY \<Rightarrow> set_conditional_authority_policy ctx sid (wq_flag q) e
      | MI_SET_ADMIN_ENABLE \<Rightarrow> set_admin_enabled ctx sid True e
      | MI_SET_ADMIN_DISABLE \<Rightarrow> set_admin_enabled ctx sid False e
      | MI_MEMBER_ADMIN_ENABLE \<Rightarrow> set_member_admin_enabled before ctx sid mid True e
      | MI_MEMBER_ADMIN_DISABLE \<Rightarrow> set_member_admin_enabled before ctx sid mid False e
      | MI_REVALIDATE_SET \<Rightarrow> revalidate_set before after ctx sid e
      | MI_REVALIDATE_MEMBER \<Rightarrow> revalidate_member before after ctx sid mid e
      | MI_REVOKE_SET \<Rightarrow> revoke_set ctx sid (wq_revocation_reason q) text e
      | MI_RETIRE_SET \<Rightarrow> retire_set ctx sid text e
      | MI_SUPERSEDE_SET \<Rightarrow>
          (case parse_set_id text of
             None \<Rightarrow> (make_rejection OC_MALFORMED_REQUEST (msg ''supersede request carries an invalid successor''), e)
           | Some successor \<Rightarrow> supersede_set ctx sid successor e)
      | MI_ADVANCE_SET_STATE \<Rightarrow>
          (case wq_state_action q of
             SSA_PUBLISH \<Rightarrow> publish_set ctx sid e
           | SSA_WITHDRAW \<Rightarrow> withdraw_set ctx sid text e
           | SSA_COMPLETE_WITHDRAWAL \<Rightarrow> complete_withdrawal ctx sid e)
      | MI_APPLY_PATH_AUTHORITY \<Rightarrow> apply_path_authority ctx (requested_view q) e
      | MI_DECLARE_PATH_AUTHORITY \<Rightarrow> declare_path_authority ctx (requested_view q) e
      | MI_REFRESH_PATH \<Rightarrow> refresh_path before ctx path e
      | MI_EPOCH_ADVANCE \<Rightarrow>
          (case gen_from_value (wq_number q) of
             None \<Rightarrow> (make_rejection OC_MALFORMED_REQUEST
                       (msg ''epoch advance request carries an impossible epoch''), e)
           | Some expected \<Rightarrow>
               advance_epoch (cx_publisher ctx) (cx_worker_boot ctx) (cx_session ctx) expected (cx_attempt ctx) e)
      | _ \<Rightarrow> (make_rejection OC_UNSUPPORTED_OPERATION (msg ''message is not dispatched by the coordinator''), e))"

text \<open>The queries: they fill a part of the response next to its outcome.\<close>

definition is_query :: "message_id \<Rightarrow> bool" where
  "is_query i \<longleftrightarrow> i \<in> {MI_LIST_SETS, MI_QUERY_SET, MI_SNAPSHOT_REQUEST, MI_EXPLAIN_SET}"

definition no_such_set :: "set_id \<Rightarrow> fabric_outcome" where
  "no_such_set sid = make_rejection OC_SET_NOT_FOUND (msg (''no such set: '' @ id_text sid))"

definition dispatch_query :: "path_views \<Rightarrow> wire_request \<Rightarrow> wire_response \<Rightarrow> engine \<Rightarrow> wire_response" where
  "dispatch_query before q response e =
     (let sid = wq_set_id q
      in case wq_id q of
        MI_LIST_SETS \<Rightarrow>
          response\<lparr>wr_set_ids := list_sets e,
            wr_outcome := make_outcome OC_OK (msg (''listed '' @ nat_string (length (list_sets e)) @ '' set(s)''))\<rparr>
      | MI_QUERY_SET \<Rightarrow>
          (case set_snapshot_of sid e of
             None \<Rightarrow> response\<lparr>wr_outcome := no_such_set sid\<rparr>
           | Some snapshot \<Rightarrow>
               response\<lparr>wr_snapshot := Some snapshot,
                 wr_outcome := make_outcome OC_OK (msg (''snapshot of '' @ id_text sid))\<rparr>)
      | MI_SNAPSHOT_REQUEST \<Rightarrow>
          (case historical_snapshot sid (wq_snapshot_id q) e of
             None \<Rightarrow> response\<lparr>wr_outcome := make_rejection OC_SET_NOT_FOUND
               (msg (''no retained snapshot '' @ id_text (wq_snapshot_id q) @ '' for set '' @ id_text sid))\<rparr>
           | Some snapshot \<Rightarrow>
               response\<lparr>wr_snapshot := Some snapshot,
                 wr_outcome := make_outcome OC_OK (msg ''historical snapshot'')\<rparr>)
      | MI_EXPLAIN_SET \<Rightarrow>
          (case explain_set before sid e e of
             None \<Rightarrow> response\<lparr>wr_outcome := no_such_set sid\<rparr>
           | Some explanation \<Rightarrow>
               response\<lparr>wr_explanation := Some explanation,
                 wr_outcome := make_outcome OC_OK (msg (''explanation of '' @ id_text sid))\<rparr>)
      | _ \<Rightarrow> response)"

definition register_session :: "wire_request \<Rightarrow> session \<Rightarrow> engine \<Rightarrow> fabric_outcome \<times> session \<times> engine" where
  "register_session q s e =
     (let publisher = cx_publisher (wq_context q);
          boot = cx_worker_boot (wq_context q);
          (outcome, e) = register_publisher publisher boot (wq_scope q) (sn_id s) e
      in (outcome,
          if succeeded outcome
          then s\<lparr>sn_publisher := publisher, sn_worker_boot := boot, sn_has_registration := True\<rparr> else s,
          e))"

definition session_mismatch :: "session \<Rightarrow> fabric_outcome" where
  "session_mismatch s =
     make_rejection OC_UNAUTHORIZED_CALLER
       (msg (''request session identity does not match the connection session '' @ id_text (sn_id s)))"

text \<open>
  The response is filled in place: what a branch does not assign stays as it was. The outcome that
  \<open>dispatch\<close> itself returns is OK on every path.
\<close>

definition dispatch ::
  "path_views \<Rightarrow> path_views \<Rightarrow> session \<Rightarrow> wire_request \<Rightarrow> engine \<Rightarrow> fabric_outcome \<times> session \<times> engine" where
  "dispatch before after s q e =
     (let response = sn_response s
      in (make_outcome OC_OK [],
        if wq_id q = MI_SHUTDOWN
        then (s\<lparr>sn_response := response\<lparr>wr_outcome := make_outcome OC_OK (msg ''shutdown requested'')\<rparr>\<rparr>, e)
        else if wq_id q = MI_REGISTER_PUBLISHER
        then (case register_session q s e of
                (outcome, s, e) \<Rightarrow> (s\<lparr>sn_response := response\<lparr>wr_outcome := outcome\<rparr>\<rparr>, e))
        else if requires_session (wq_id q) \<and> \<not> (cx_session (wq_context q) = sn_id s)
        then (s\<lparr>sn_response := response\<lparr>wr_outcome := session_mismatch s\<rparr>\<rparr>, e)
        else if is_query (wq_id q) then (s\<lparr>sn_response := dispatch_query before q response e\<rparr>, e)
        else (case dispatch_mutation before after q e of
                (outcome, e) \<Rightarrow> (s\<lparr>sn_response := response\<lparr>wr_outcome := outcome\<rparr>\<rparr>, e))))"

section \<open>One frame\<close>

text \<open>What handling a frame leaves: \<open>hd_committed\<close> is whether \<open>on_committed_mutation\<close> is invoked.\<close>

record handled =
  hd_continue :: bool
  hd_sent :: "u8 list list"
  hd_committed :: bool
  hd_session :: session
  hd_coordinator :: coordinator

definition answer_error :: "peer \<Rightarrow> fabric_outcome \<Rightarrow> session \<Rightarrow> coordinator \<Rightarrow> handled" where
  "answer_error peer outcome s c =
     (let s = s\<lparr>sn_response := (sn_response s)\<lparr>wr_outcome := outcome\<rparr>\<rparr>
      in \<lparr>hd_continue = False, hd_sent = snd (send_frame peer MI_ERROR (sn_response s) c), hd_committed = False,
          hd_session = s, hd_coordinator = c\<rparr>)"

definition answer_request ::
  "peer \<Rightarrow> path_views \<Rightarrow> path_views \<Rightarrow> message_id \<Rightarrow> wire_request \<Rightarrow> session \<Rightarrow> coordinator \<Rightarrow> handled" where
  "answer_request peer before after i q s c =
     (case dispatch before after s q (co_engine c) of
        (result, s, e) \<Rightarrow>
          (let s = (if \<not> succeeded result then s\<lparr>sn_response := (sn_response s)\<lparr>wr_outcome := result\<rparr>\<rparr> else s);
               c = c\<lparr>co_engine := e\<rparr>;
               committed = (succeeded result \<and> succeeded (wr_outcome (sn_response s)));
               (sending, sent) = send_frame peer MI_RESULT (sn_response s) c
           in \<lparr>hd_continue = (succeeded sending \<and> i \<noteq> MI_SHUTDOWN), hd_sent = sent, hd_committed = committed,
               hd_session = s, hd_coordinator = c\<rparr>))"

text \<open>The part of \<open>handle_frame\<close> behind the integrity check.\<close>

definition handle_payload ::
  "peer \<Rightarrow> path_views \<Rightarrow> path_views \<Rightarrow> message_id \<Rightarrow> u8 list \<Rightarrow> session \<Rightarrow> coordinator \<Rightarrow> handled" where
  "handle_payload peer before after i payload s c =
     (if i = MI_HELLO
      then (case send_hello_ack peer s c of
              (sending, sent) \<Rightarrow>
                \<lparr>hd_continue = succeeded sending, hd_sent = sent, hd_committed = False, hd_session = s,
                 hd_coordinator = c\<rparr>)
      else case decode_request i (new_reader payload) of
        Inl outcome \<Rightarrow> answer_error peer outcome s (frame_rejected c)
      | Inr (q, reader) \<Rightarrow>
          if \<not> rd_at_end reader
          then answer_error peer (make_rejection OC_FRAMING_ERROR
                 (msg (''request payload has '' @ nat_string (rd_remaining reader) @
                       '' trailing byte(s) after the declared fields''))) s (frame_rejected c)
          else answer_request peer before after i q s c)"

definition handle_frame :: "peer \<Rightarrow> path_views \<Rightarrow> path_views \<Rightarrow> session \<Rightarrow> coordinator \<Rightarrow> handled" where
  "handle_frame peer before after s c =
     (case pe_header peer of
        (header_read, received, header) \<Rightarrow>
          if \<not> succeeded header_read
          then if o_code header_read = OC_PROTOCOL_ERROR \<and> received = 0
               then \<lparr>hd_continue = False, hd_sent = [], hd_committed = False, hd_session = s, hd_coordinator = c\<rparr>
               else answer_error peer (make_rejection (o_code header_read) (o_detail header_read)) s c
          else case decode_header header (max_frame_bytes (co_limits c)) of
            Inl outcome \<Rightarrow> answer_error peer outcome s (frame_rejected c)
          | Inr (i, len) \<Rightarrow>
            (case (if unat len > 0 then pe_payload peer (unat len) else (make_outcome OC_OK [], [])) of
               (payload_read, payload) \<Rightarrow>
                 if \<not> succeeded payload_read
                 then answer_error peer (make_rejection (o_code payload_read) (o_detail payload_read)) s c
                 else if \<not> succeeded (verify_integrity header payload)
                 then answer_error peer (verify_integrity header payload) s (frame_rejected c)
                 else handle_payload peer before after i payload s (frame_received c)))"

section \<open>The thread of a session\<close>

text \<open>The table of the server and the thread of a session share the session: what a frame changes is seen in the table.\<close>

definition store_session :: "session \<Rightarrow> coordinator \<Rightarrow> coordinator" where
  "store_session s c = c\<lparr>co_sessions := om_put (sn_id s) s (co_sessions c)\<rparr>"

type_synonym frame_input = "peer \<times> path_views \<times> path_views"

text \<open>
  The loop over the frames that arrive before the server stops, with what is sent; it ends early at a frame
  that does not continue.
\<close>

primrec session_frames :: "frame_input list \<Rightarrow> session \<Rightarrow> coordinator \<Rightarrow> u8 list list \<times> session \<times> coordinator" where
  "session_frames [] s c = ([], s, c)"
| "session_frames (f # fs) s c =
     (let h = handle_frame (fst f) (fst (snd f)) (snd (snd f)) s c;
          c = store_session (hd_session h) (hd_coordinator h)
      in if \<not> hd_continue h then (hd_sent h, hd_session h, c)
         else (case session_frames fs (hd_session h) c of (sent, s, c) \<Rightarrow> (hd_sent h @ sent, s, c)))"

definition session_loop :: "peer \<Rightarrow> frame_input list \<Rightarrow> session \<Rightarrow> coordinator \<Rightarrow> u8 list list \<times> session \<times> coordinator" where
  "session_loop greeted fs s c =
     (case send_hello_ack greeted s c of
        (sending, sent) \<Rightarrow>
          if \<not> succeeded sending then (sent, s, c)
          else (case session_frames fs s c of (sent', s, c) \<Rightarrow> (sent @ sent', s, c)))"

definition session_thread :: "peer \<Rightarrow> frame_input list \<Rightarrow> session \<Rightarrow> coordinator \<Rightarrow> u8 list list \<times> coordinator" where
  "session_thread greeted fs s c =
     (case session_loop greeted fs s c of
        (sent, s, c) \<Rightarrow> (case end_session s ''SESSION_LOST'' c of (s, c) \<Rightarrow> (sent, store_session s c)))"

section \<open>Starting and stopping\<close>

record server =
  se_running :: bool
  se_stopping :: bool
  se_port :: u16
  se_coordinator :: coordinator

text \<open>\<open>bound\<close> is the answer of \<open>tcp_listen\<close> with the bound port.\<close>

definition server_start :: "string \<Rightarrow> fabric_outcome \<times> u16 \<Rightarrow> server \<Rightarrow> fabric_outcome \<times> server" where
  "server_start bind_host bound sv =
     (if se_running sv then (make_rejection OC_MALFORMED_REQUEST (msg ''server is already running''), sv)
      else case bound of
        (listening, bound_port) \<Rightarrow>
          if \<not> succeeded listening then (listening, sv)
          else (make_outcome OC_OK (msg (''listening on '' @ bind_host @ '':'' @ nat_string (unat bound_port))),
                sv\<lparr>se_port := bound_port, se_stopping := False, se_running := True\<rparr>))"

text \<open>A thread that sees the stop flag leaves its loop and ends its session.\<close>

definition end_live :: "session_id \<Rightarrow> coordinator \<Rightarrow> coordinator" where
  "end_live sid c =
     (case om_find (co_sessions c) sid of
        None \<Rightarrow> c
      | Some s \<Rightarrow> if sn_finished s then c
                   else (case end_session s ''SESSION_LOST'' c of (s, c) \<Rightarrow> store_session s c))"

text \<open>The threads end in any order, \<open>order\<close>; all are joined before the table is cleared.\<close>

definition server_stop :: "session_id list \<Rightarrow> server \<Rightarrow> server" where
  "server_stop order sv =
     (if \<not> se_running sv then sv
      else sv\<lparr>se_running := False, se_stopping := True,
              se_coordinator := reap_finished_sessions True (fold end_live order (se_coordinator sv))\<rparr>)"

end
