(* ===== verification/Client.thy ===== *)
theory Client
  imports Coordinator
begin

text \<open>
  The coordinator client, \<open>include/multipath_fabric/client.hpp\<close> and \<open>src/client.cpp\<close>: one connection with
  its session, the exchange of one request and its answer, and the remote form of every operation. The
  connection is a \<open>link\<close>: the peer the client meets after it has sent a frame, as a function of
  that frame.
\<close>

section \<open>State\<close>

record client =
  cl_connected :: bool
  cl_session :: session_id
  cl_epoch :: coordinator_epoch
  cl_publisher :: publisher_id
  cl_worker_boot :: worker_boot_id
  cl_frames_sent :: u64
  cl_frames_received :: u64
  cl_max_frame_bytes :: nat

type_synonym link = "u8 list \<Rightarrow> peer"

definition new_client :: "nat \<Rightarrow> client" where
  "new_client max_frame =
     \<lparr>cl_connected = False, cl_session = invalid_id, cl_epoch = gen_invalid, cl_publisher = invalid_id,
      cl_worker_boot = invalid_id, cl_frames_sent = 0, cl_frames_received = 0, cl_max_frame_bytes = max_frame\<rparr>"

definition client_close :: "client \<Rightarrow> client" where
  "client_close c = c\<lparr>cl_connected := False, cl_session := invalid_id\<rparr>"

text \<open>The context of a request: the session of the connection always, the rest where the caller left it unset.\<close>

definition stamp :: "client \<Rightarrow> mutation_context \<Rightarrow> mutation_context" where
  "stamp c ctx =
     (let ctx = ctx\<lparr>cx_session := cl_session c\<rparr>;
          ctx = (if \<not> gen_valid (cx_epoch ctx) then ctx\<lparr>cx_epoch := cl_epoch c\<rparr> else ctx);
          ctx = (if \<not> id_valid (cx_publisher ctx) then ctx\<lparr>cx_publisher := cl_publisher c\<rparr> else ctx)
      in if \<not> id_valid (cx_worker_boot ctx) then ctx\<lparr>cx_worker_boot := cl_worker_boot c\<rparr> else ctx)"

definition frame_sent :: "client \<Rightarrow> client" where
  "frame_sent c = c\<lparr>cl_frames_sent := cl_frames_sent c + 1\<rparr>"

definition frame_arrived :: "client \<Rightarrow> client" where
  "frame_arrived c = c\<lparr>cl_frames_received := cl_frames_received c + 1\<rparr>"

section \<open>Receiving\<close>

definition receive_header :: "peer \<Rightarrow> nat \<Rightarrow> fabric_outcome + (u8 list \<times> message_id \<times> u32)" where
  "receive_header peer max_frame =
     (case pe_header peer of
        (result, _, header) \<Rightarrow>
          if \<not> succeeded result then Inl result
          else case decode_header header max_frame of
            Inl outcome \<Rightarrow> Inl outcome
          | Inr (i, len) \<Rightarrow> Inr (header, i, len))"

definition receive_payload :: "peer \<Rightarrow> u8 list \<Rightarrow> u32 \<Rightarrow> fabric_outcome + u8 list" where
  "receive_payload peer header len =
     (case (if unat len > 0 then pe_payload peer (unat len) else (make_outcome OC_OK [], [])) of
        (result, payload) \<Rightarrow>
          if \<not> succeeded result then Inl result
          else if \<not> succeeded (verify_integrity header payload) then Inl (verify_integrity header payload)
          else Inr payload)"

section \<open>Connecting\<close>

definition malformed_announcement :: fabric_outcome where
  "malformed_announcement =
     make_rejection OC_PROTOCOL_ERROR (msg ''coordinator sent a malformed session announcement'')"

definition read_announcement :: "(fabric_outcome, string \<times> u64) decoder" where
  "read_announcement =
     dc_then (dc_field malformed_announcement (rd_string 128)) (\<lambda>session_text.
     dc_then (dc_field malformed_announcement rd_u64) (\<lambda>epoch_value.
     dc_return (session_text, epoch_value)))"

definition accept_announcement :: "u8 list \<Rightarrow> client \<Rightarrow> fabric_outcome \<times> client" where
  "accept_announcement payload c =
     (case read_announcement (new_reader payload) of
        Inl outcome \<Rightarrow> (outcome, c)
      | Inr ((session_text, epoch_value), reader) \<Rightarrow>
          if \<not> rd_at_end reader then (malformed_announcement, c)
          else (case (parse_session_id session_text, gen_from_value epoch_value) of
             (Some session, Some epoch) \<Rightarrow> (make_outcome OC_OK [], c\<lparr>cl_session := session, cl_epoch := epoch\<rparr>)
           | _ \<Rightarrow> (make_rejection OC_PROTOCOL_ERROR
                    (msg ''coordinator sent an invalid session identity or epoch''), c)))"

definition read_hello_ack :: "peer \<Rightarrow> client \<Rightarrow> fabric_outcome \<times> client" where
  "read_hello_ack peer c =
     (case receive_header peer (cl_max_frame_bytes c) of
        Inl outcome \<Rightarrow> (outcome, c)
      | Inr (header, i, len) \<Rightarrow>
          if i \<noteq> MI_HELLO_ACK
          then (make_rejection OC_PROTOCOL_ERROR (msg ''coordinator did not answer with HELLO_ACK''), c)
          else case receive_payload peer header len of
            Inl outcome \<Rightarrow> (outcome, c)
          | Inr payload \<Rightarrow> accept_announcement payload (frame_arrived c))"

text \<open>\<open>connected\<close> is the outcome of the TCP connection attempt, \<open>peer\<close> what is received on it.\<close>

definition client_connect :: "fabric_outcome \<Rightarrow> peer \<Rightarrow> client \<Rightarrow> fabric_outcome \<times> client" where
  "client_connect connected peer c =
     (let c = client_close c
      in if \<not> succeeded connected then (connected, c)
         else (case read_hello_ack peer (c\<lparr>cl_connected := True\<rparr>) of
           (result, c) \<Rightarrow>
             if \<not> succeeded result then (result, client_close c)
             else (make_outcome OC_OK (msg (''connected with session '' @ id_text (cl_session c) @ '' epoch '' @
                     gen_text (cl_epoch c))), c)))"

definition not_connected :: fabric_outcome where
  "not_connected = make_rejection OC_PROTOCOL_ERROR (msg ''client is not connected'')"

definition refresh_epoch :: "link \<Rightarrow> client \<Rightarrow> fabric_outcome \<times> client" where
  "refresh_epoch link c =
     (if \<not> cl_connected c then (not_connected, c)
      else case encode_frame MI_HELLO [] (cl_max_frame_bytes c) of
        Inl outcome \<Rightarrow> (outcome, c)
      | Inr frame \<Rightarrow>
          if \<not> succeeded (pe_send (link frame) frame) then (pe_send (link frame) frame, client_close c)
          else read_hello_ack (link frame) (frame_sent c))"

section \<open>Exchanging\<close>

text \<open>The right value is the response that was decoded; the transport outcome is then OK.\<close>

definition read_answer :: "peer \<Rightarrow> client \<Rightarrow> (fabric_outcome + wire_response) \<times> client" where
  "read_answer peer c =
     (case receive_header peer (cl_max_frame_bytes c) of
        Inl outcome \<Rightarrow> (Inl outcome, client_close c)
      | Inr (header, _, len) \<Rightarrow>
        (case receive_payload peer header len of
           Inl outcome \<Rightarrow> (Inl outcome, client_close c)
         | Inr payload \<Rightarrow>
             let c = frame_arrived c
             in case decode_response (new_reader payload) of
               Inl outcome \<Rightarrow> (Inl outcome, client_close c)
             | Inr (response, reader) \<Rightarrow>
                 if \<not> rd_at_end reader
                 then (Inl (make_rejection OC_FRAMING_ERROR
                        (msg ''response payload has trailing bytes after the declared fields'')), client_close c)
                 else (Inr response, c)))"

definition exchange :: "link \<Rightarrow> message_id \<Rightarrow> wire_request \<Rightarrow> client \<Rightarrow> (fabric_outcome + wire_response) \<times> client" where
  "exchange link i q c =
     (if \<not> cl_connected c then (Inl not_connected, c)
      else case encode_request q of
        Inl outcome \<Rightarrow> (Inl outcome, c)
      | Inr payload \<Rightarrow>
        (case encode_frame i payload (cl_max_frame_bytes c) of
           Inl outcome \<Rightarrow> (Inl outcome, c)
         | Inr frame \<Rightarrow>
             if \<not> succeeded (pe_send (link frame) frame) then (Inl (pe_send (link frame) frame), client_close c)
             else read_answer (link frame) (frame_sent c)))"

definition call :: "link \<Rightarrow> wire_request \<Rightarrow> client \<Rightarrow> (fabric_outcome + wire_response) \<times> client" where
  "call link q c = exchange link (wq_id q) q c"

section \<open>Remote operations\<close>

text \<open>\<open>transport.succeeded() ? response.outcome : transport\<close>.\<close>

definition remote :: "link \<Rightarrow> wire_request \<Rightarrow> client \<Rightarrow> fabric_outcome \<times> client" where
  "remote link q c =
     (case call link q c of
        (Inl transport, c) \<Rightarrow> (transport, c)
      | (Inr response, c) \<Rightarrow> (wr_outcome response, c))"

definition client_register_publisher ::
  "link \<Rightarrow> publisher_id \<Rightarrow> worker_boot_id \<Rightarrow> authority_scope \<Rightarrow> client \<Rightarrow> fabric_outcome \<times> client" where
  "client_register_publisher link publisher boot scope c =
     (let q = (empty_request MI_REGISTER_PUBLISHER)
            \<lparr>wq_context := empty_context\<lparr>cx_publisher := publisher, cx_worker_boot := boot,
                                          cx_session := cl_session c\<rparr>,
             wq_scope := scope\<rparr>
      in case call link q c of
           (Inl transport, c) \<Rightarrow> (transport, c)
         | (Inr response, c) \<Rightarrow>
             (wr_outcome response,
              if succeeded (wr_outcome response)
              then c\<lparr>cl_publisher := publisher, cl_worker_boot := boot\<rparr> else c))"

definition client_create_set ::
  "link \<Rightarrow> mutation_context \<Rightarrow> set_key \<Rightarrow> set_options \<Rightarrow> client \<Rightarrow> fabric_outcome \<times> client" where
  "client_create_set link ctx key options c =
     remote link ((empty_request MI_CREATE_SET)\<lparr>wq_context := stamp c ctx, wq_key := key, wq_options := options\<rparr>) c"

definition client_add_member ::
  "link \<Rightarrow> mutation_context \<Rightarrow> set_id \<Rightarrow> path_id \<Rightarrow> path_authority_generation \<Rightarrow> client \<Rightarrow> fabric_outcome \<times> client" where
  "client_add_member link ctx sid path generation c =
     remote link ((empty_request MI_ADD_MEMBER)\<lparr>wq_context := stamp c ctx, wq_set_id := sid, wq_path_id := path,
       wq_path_generation := generation\<rparr>) c"

definition client_add_members ::
  "link \<Rightarrow> mutation_context \<Rightarrow> set_id \<Rightarrow> member_request list \<Rightarrow> client \<Rightarrow> fabric_outcome \<times> client" where
  "client_add_members link ctx sid members c =
     remote link ((empty_request MI_ADD_MEMBERS)\<lparr>wq_context := stamp c ctx, wq_set_id := sid, wq_members := members\<rparr>) c"

definition client_remove_member ::
  "link \<Rightarrow> mutation_context \<Rightarrow> set_id \<Rightarrow> member_id \<Rightarrow> string \<Rightarrow> client \<Rightarrow> fabric_outcome \<times> client" where
  "client_remove_member link ctx sid mid reason c =
     remote link ((empty_request MI_REMOVE_MEMBER)\<lparr>wq_context := stamp c ctx, wq_set_id := sid, wq_member_id := mid,
       wq_text := reason\<rparr>) c"

definition client_withdraw_member ::
  "link \<Rightarrow> mutation_context \<Rightarrow> set_id \<Rightarrow> member_id \<Rightarrow> string \<Rightarrow> client \<Rightarrow> fabric_outcome \<times> client" where
  "client_withdraw_member link ctx sid mid reason c =
     remote link ((empty_request MI_WITHDRAW_MEMBER)\<lparr>wq_context := stamp c ctx, wq_set_id := sid, wq_member_id := mid,
       wq_text := reason\<rparr>) c"

definition client_replace_member ::
  "link \<Rightarrow> mutation_context \<Rightarrow> set_id \<Rightarrow> member_id \<Rightarrow> path_id \<Rightarrow> path_authority_generation \<Rightarrow> string \<Rightarrow> client \<Rightarrow>
   fabric_outcome \<times> client" where
  "client_replace_member link ctx sid mid path generation reason c =
     remote link ((empty_request MI_REPLACE_MEMBER)\<lparr>wq_context := stamp c ctx, wq_set_id := sid, wq_member_id := mid,
       wq_path_id := path, wq_path_generation := generation, wq_text := reason\<rparr>) c"

definition client_set_member_admin_enabled ::
  "link \<Rightarrow> mutation_context \<Rightarrow> set_id \<Rightarrow> member_id \<Rightarrow> bool \<Rightarrow> client \<Rightarrow> fabric_outcome \<times> client" where
  "client_set_member_admin_enabled link ctx sid mid enabled c =
     remote link ((empty_request (if enabled then MI_MEMBER_ADMIN_ENABLE else MI_MEMBER_ADMIN_DISABLE))
       \<lparr>wq_context := stamp c ctx, wq_set_id := sid, wq_member_id := mid\<rparr>) c"

definition client_set_minimum :: "link \<Rightarrow> mutation_context \<Rightarrow> set_id \<Rightarrow> u64 \<Rightarrow> client \<Rightarrow> fabric_outcome \<times> client" where
  "client_set_minimum link ctx sid minimum c =
     remote link ((empty_request MI_SET_MINIMUM)\<lparr>wq_context := stamp c ctx, wq_set_id := sid, wq_number := minimum\<rparr>) c"

definition client_set_conditional_policy ::
  "link \<Rightarrow> mutation_context \<Rightarrow> set_id \<Rightarrow> bool \<Rightarrow> client \<Rightarrow> fabric_outcome \<times> client" where
  "client_set_conditional_policy link ctx sid permitted c =
     remote link ((empty_request MI_SET_CONDITIONAL_POLICY)\<lparr>wq_context := stamp c ctx, wq_set_id := sid,
       wq_flag := permitted\<rparr>) c"

definition client_set_admin_enabled ::
  "link \<Rightarrow> mutation_context \<Rightarrow> set_id \<Rightarrow> bool \<Rightarrow> client \<Rightarrow> fabric_outcome \<times> client" where
  "client_set_admin_enabled link ctx sid enabled c =
     remote link ((empty_request (if enabled then MI_SET_ADMIN_ENABLE else MI_SET_ADMIN_DISABLE))
       \<lparr>wq_context := stamp c ctx, wq_set_id := sid\<rparr>) c"

definition client_publish_set :: "link \<Rightarrow> mutation_context \<Rightarrow> set_id \<Rightarrow> client \<Rightarrow> fabric_outcome \<times> client" where
  "client_publish_set link ctx sid c =
     remote link ((empty_request MI_ADVANCE_SET_STATE)\<lparr>wq_context := stamp c ctx, wq_set_id := sid,
       wq_state_action := SSA_PUBLISH\<rparr>) c"

definition client_withdraw_set ::
  "link \<Rightarrow> mutation_context \<Rightarrow> set_id \<Rightarrow> string \<Rightarrow> client \<Rightarrow> fabric_outcome \<times> client" where
  "client_withdraw_set link ctx sid reason c =
     remote link ((empty_request MI_ADVANCE_SET_STATE)\<lparr>wq_context := stamp c ctx, wq_set_id := sid,
       wq_state_action := SSA_WITHDRAW, wq_text := reason\<rparr>) c"

definition client_complete_withdrawal :: "link \<Rightarrow> mutation_context \<Rightarrow> set_id \<Rightarrow> client \<Rightarrow> fabric_outcome \<times> client" where
  "client_complete_withdrawal link ctx sid c =
     remote link ((empty_request MI_ADVANCE_SET_STATE)\<lparr>wq_context := stamp c ctx, wq_set_id := sid,
       wq_state_action := SSA_COMPLETE_WITHDRAWAL\<rparr>) c"

definition client_revoke_set ::
  "link \<Rightarrow> mutation_context \<Rightarrow> set_id \<Rightarrow> revocation_reason \<Rightarrow> string \<Rightarrow> client \<Rightarrow> fabric_outcome \<times> client" where
  "client_revoke_set link ctx sid reason detail c =
     remote link ((empty_request MI_REVOKE_SET)\<lparr>wq_context := stamp c ctx, wq_set_id := sid,
       wq_revocation_reason := reason, wq_text := detail\<rparr>) c"

definition client_retire_set ::
  "link \<Rightarrow> mutation_context \<Rightarrow> set_id \<Rightarrow> string \<Rightarrow> client \<Rightarrow> fabric_outcome \<times> client" where
  "client_retire_set link ctx sid reason c =
     remote link ((empty_request MI_RETIRE_SET)\<lparr>wq_context := stamp c ctx, wq_set_id := sid, wq_text := reason\<rparr>) c"

definition supersede_request :: "mutation_context \<Rightarrow> set_id \<Rightarrow> set_id \<Rightarrow> wire_request" where
  "supersede_request ctx predecessor successor =
     (empty_request MI_SUPERSEDE_SET)\<lparr>wq_context := ctx, wq_set_id := predecessor, wq_text := id_text successor\<rparr>"

definition client_supersede_set ::
  "link \<Rightarrow> mutation_context \<Rightarrow> set_id \<Rightarrow> set_id \<Rightarrow> client \<Rightarrow> fabric_outcome \<times> client" where
  "client_supersede_set link ctx predecessor successor c =
     remote link (supersede_request (stamp c ctx) predecessor successor) c"

definition client_revalidate_set :: "link \<Rightarrow> mutation_context \<Rightarrow> set_id \<Rightarrow> client \<Rightarrow> fabric_outcome \<times> client" where
  "client_revalidate_set link ctx sid c =
     remote link ((empty_request MI_REVALIDATE_SET)\<lparr>wq_context := stamp c ctx, wq_set_id := sid\<rparr>) c"

definition client_revalidate_member ::
  "link \<Rightarrow> mutation_context \<Rightarrow> set_id \<Rightarrow> member_id \<Rightarrow> client \<Rightarrow> fabric_outcome \<times> client" where
  "client_revalidate_member link ctx sid mid c =
     remote link ((empty_request MI_REVALIDATE_MEMBER)\<lparr>wq_context := stamp c ctx, wq_set_id := sid,
       wq_member_id := mid\<rparr>) c"

definition client_apply_path_authority ::
  "link \<Rightarrow> mutation_context \<Rightarrow> path_authority_view \<Rightarrow> client \<Rightarrow> fabric_outcome \<times> client" where
  "client_apply_path_authority link ctx view c =
     remote link ((empty_request MI_APPLY_PATH_AUTHORITY)\<lparr>wq_context := stamp c ctx, wq_path_id := v_path view,
       wq_path_generation := v_generation view, wq_path_state := v_state view\<rparr>) c"

definition client_declare_path_authority ::
  "link \<Rightarrow> mutation_context \<Rightarrow> path_authority_view \<Rightarrow> client \<Rightarrow> fabric_outcome \<times> client" where
  "client_declare_path_authority link ctx view c =
     remote link ((empty_request MI_DECLARE_PATH_AUTHORITY)\<lparr>wq_context := stamp c ctx, wq_path_id := v_path view,
       wq_path_generation := v_generation view, wq_path_state := v_state view\<rparr>) c"

definition client_refresh_path :: "link \<Rightarrow> mutation_context \<Rightarrow> path_id \<Rightarrow> client \<Rightarrow> fabric_outcome \<times> client" where
  "client_refresh_path link ctx path c =
     remote link ((empty_request MI_REFRESH_PATH)\<lparr>wq_context := stamp c ctx, wq_path_id := path\<rparr>) c"

definition client_advance_epoch ::
  "link \<Rightarrow> mutation_context \<Rightarrow> coordinator_epoch \<Rightarrow> client \<Rightarrow> fabric_outcome \<times> client" where
  "client_advance_epoch link ctx expected c =
     remote link ((empty_request MI_EPOCH_ADVANCE)\<lparr>wq_context := stamp c ctx, wq_number := gen_value expected\<rparr>) c"

section \<open>Remote queries\<close>

text \<open>A query with what it assigns to its out parameter, \<open>None\<close> where it leaves it alone.\<close>

definition remote_query ::
  "(wire_response \<Rightarrow> 'a option) \<Rightarrow> link \<Rightarrow> wire_request \<Rightarrow> client \<Rightarrow> fabric_outcome \<times> 'a option \<times> client" where
  "remote_query part link q c =
     (case call link q c of
        (Inl transport, c) \<Rightarrow> (transport, None, c)
      | (Inr response, c) \<Rightarrow>
          (wr_outcome response, if succeeded (wr_outcome response) then part response else None, c))"

definition client_list_sets :: "link \<Rightarrow> client \<Rightarrow> fabric_outcome \<times> set_id list option \<times> client" where
  "client_list_sets link = remote_query (\<lambda>response. Some (wr_set_ids response)) link (empty_request MI_LIST_SETS)"

definition client_query_set :: "link \<Rightarrow> set_id \<Rightarrow> client \<Rightarrow> fabric_outcome \<times> set_snapshot option \<times> client" where
  "client_query_set link sid = remote_query wr_snapshot link ((empty_request MI_QUERY_SET)\<lparr>wq_set_id := sid\<rparr>)"

definition client_request_snapshot ::
  "link \<Rightarrow> set_id \<Rightarrow> snapshot_id \<Rightarrow> client \<Rightarrow> fabric_outcome \<times> set_snapshot option \<times> client" where
  "client_request_snapshot link sid snapshot_id =
     remote_query wr_snapshot link ((empty_request MI_SNAPSHOT_REQUEST)\<lparr>wq_set_id := sid, wq_snapshot_id := snapshot_id\<rparr>)"

definition client_explain_set :: "link \<Rightarrow> set_id \<Rightarrow> client \<Rightarrow> fabric_outcome \<times> set_explanation option \<times> client" where
  "client_explain_set link sid = remote_query wr_explanation link ((empty_request MI_EXPLAIN_SET)\<lparr>wq_set_id := sid\<rparr>)"

end
