(* ===== verification/Coordinator_System.thy ===== *)
theory Coordinator_System
  imports Coordinator Wire_Types Authority_Refinement
begin

text \<open>
  The coordinator as a transition system over its engine. An event is the accept of a connection, one
  frame of a session that has not ended, the end of a session, or a pass of the reaper. A session may
  end at any time, and a frame of a session may follow any answer: the runs include those of the
  server, whose threads stop after a failed frame. Dispatching a frame is one event here; the critical
  sections it is made of are the events of the engine, and the coordinator refines the engine.
\<close>

section \<open>Events\<close>

datatype (plugins only: code size) coordinator_event =
    Co_accept bool
  | Co_frame session_id peer path_views path_views
  | Co_end session_id
  | Co_reap

definition live_session :: "coordinator \<Rightarrow> session_id \<Rightarrow> session \<Rightarrow> bool" where
  "live_session c sid s \<longleftrightarrow> om_find (co_sessions c) sid = Some s \<and> \<not> sn_finished s"

text \<open>
  The identity factories count with 64 bits: a connection needs one identity left, a frame as many as
  the largest batch a request can carry.
\<close>

inductive co_step :: "coordinator \<Rightarrow> coordinator_event \<Rightarrow> coordinator \<Rightarrow> bool" where
  co_accept: "f_counter (co_ids c) \<noteq> u64_max \<Longrightarrow> co_step c (Co_accept accepted) (accept_connection accepted c)"
| co_frame: "live_session c sid s \<Longrightarrow> counter_room 100000 (co_engine c) \<Longrightarrow>
    handle_frame peer before after s c = h \<Longrightarrow>
    co_step c (Co_frame sid peer before after) (store_session (hd_session h) (hd_coordinator h))"
| co_end: "live_session c sid s \<Longrightarrow> end_session s ''SESSION_LOST'' c = (s', c') \<Longrightarrow>
    co_step c (Co_end sid) (store_session s' c')"
| co_reap: "co_step c Co_reap (reap_finished_sessions False c)"

inductive_cases co_stepE: "co_step c ev c'"
inductive_cases co_frameE: "co_step c (Co_frame sid peer before after) c'"

text \<open>A coordinator starts without sessions over an engine that holds no registration.\<close>

definition co_start :: "coordinator \<Rightarrow> bool" where
  "co_start c \<longleftrightarrow> (\<exists>l nonce e. engine_ok e \<and> e_registrations e = om_empty \<and>
     factory_ok \<lparr>f_prefix = ''sess'', f_nonce = nonce, f_counter = 0\<rparr> \<and> c = coordinator_init l nonce e)"

section \<open>Dispatch is a run of the engine\<close>

definition engine_runs :: "(fabric_event \<Rightarrow> bool) \<Rightarrow> engine \<Rightarrow> engine \<Rightarrow> bool" where
  "engine_runs P e e' \<longleftrightarrow> (\<exists>evs. fabric.run e evs e' \<and> list_all P evs)"

named_theorems engine_runs_intros

lemma engine_runs_refl [simp, engine_runs_intros]: "engine_runs P e e"
  unfolding engine_runs_def by (rule exI [of _ "[]"]) (simp add: fabric.run_nil)

lemma engine_runs_trans: "engine_runs P e e' \<Longrightarrow> engine_runs P e' e'' \<Longrightarrow> engine_runs P e e''"
  unfolding engine_runs_def using fabric.run_append by (metis list_all_append)

lemma engine_runs_mono: "engine_runs P e e' \<Longrightarrow> (\<And>ev. P ev \<Longrightarrow> Q ev) \<Longrightarrow> engine_runs Q e e'"
  unfolding engine_runs_def by (metis list.pred_mono_strong)

lemma engine_runs_event: "event_enabled ev e \<Longrightarrow> P ev \<Longrightarrow> engine_runs P e (perform ev e)"
  unfolding engine_runs_def by (rule exI [of _ "[ev]"]) (simp add: fabric.run_cons [OF perform_event fabric.run_nil])

lemma engine_runs_ok: "engine_runs P e e' \<Longrightarrow> engine_ok e \<Longrightarrow> engine_ok e'"
  unfolding engine_runs_def using fabric.run_inv by blast

lemma engine_runs_forward: "engine_runs P e e' \<Longrightarrow> engine_ok e \<Longrightarrow> engine_forward e e'"
  unfolding engine_runs_def using fabric.run_leq by blast

text \<open>A property of states that the events of a kind keep is kept along their runs.\<close>

lemma engine_runs_stable:
  assumes "\<And>ev e. P ev \<Longrightarrow> Q e \<Longrightarrow> Q (perform ev e)" and "engine_runs P e e'" and "Q e"
  shows "Q e'"
proof -
  have "fabric.run e evs e' \<Longrightarrow> list_all P evs \<Longrightarrow> Q e \<Longrightarrow> Q e'" for evs
    by (induction rule: fabric.run.induct) (auto elim!: fabric_stepE intro: assms(1))
  then show ?thesis using assms(2,3) unfolding engine_runs_def by blast
qed

text \<open>
  The events a session stands behind: requests that carry its identity in their context, registrations
  bound to it, and the reconciliation that follows an operation.
\<close>

definition session_event :: "session_id \<Rightarrow> fabric_event \<Rightarrow> bool" where
  "session_event sid ev \<longleftrightarrow>
     (case ev of
        Ev_register _ _ _ session \<Rightarrow> session = sid
      | Ev_advance_epoch _ _ session _ _ \<Rightarrow> session = sid
      | Ev_reconcile _ _ _ \<Rightarrow> True
      | _ \<Rightarrow> (case event_context ev of None \<Rightarrow> False | Some ctx \<Rightarrow> cx_session ctx = sid))"

definition request_event :: "session_id \<Rightarrow> fabric_event \<Rightarrow> bool" where
  "request_event sid ev \<longleftrightarrow> session_event sid ev \<and> (\<forall>p b scope session. ev \<noteq> Ev_register p b scope session)"

lemma engine_runs_by [engine_runs_intros]:
  assumes "cx_session ctx = session"
  shows "engine_runs (request_event session) e (snd (publish_set ctx sid e))"
  "engine_runs (request_event session) e (snd (declare_path_authority ctx view e))"
  "engine_runs (request_event session) e (snd (set_minimum_usable_members ctx sid n e))"
  "engine_runs (request_event session) e (snd (set_conditional_authority_policy ctx sid b e))"
  "engine_runs (request_event session) e (snd (set_admin_enabled ctx sid b e))"
  "engine_runs (request_event session) e (snd (withdraw_set ctx sid reason e))"
  "engine_runs (request_event session) e (snd (complete_withdrawal ctx sid e))"
  "engine_runs (request_event session) e (snd (revoke_set ctx sid why reason e))"
  "engine_runs (request_event session) e (snd (retire_set ctx sid reason e))"
  "engine_runs (request_event session) e (snd (supersede_set ctx sid sid' e))"
  "engine_runs (request_event session) e (snd (remove_member ctx sid mid reason e))"
  "engine_runs (request_event session) e (snd (withdraw_member ctx sid mid reason e))"
  "engine_runs (request_event session) e (snd (set_member_admin_enabled_locked ctx sid mid b v e))"
  "engine_runs (request_event session) e (snd (fst (revalidate_set_locked ctx sid views e)))"
  "engine_runs (request_event session) e (snd (fst (revalidate_member_locked ctx sid mid v e)))"
  "engine_runs (request_event session) e (snd (apply_path_authority ctx view e))"
  using assms engine_runs_event [of "Ev_publish ctx sid" e] engine_runs_event [of "Ev_declare_path ctx view" e]
    engine_runs_event [of "Ev_minimum ctx sid n" e] engine_runs_event [of "Ev_policy ctx sid b" e]
    engine_runs_event [of "Ev_set_admin ctx sid b" e] engine_runs_event [of "Ev_withdraw_set ctx sid reason" e]
    engine_runs_event [of "Ev_complete_withdrawal ctx sid" e] engine_runs_event [of "Ev_revoke ctx sid why reason" e]
    engine_runs_event [of "Ev_retire ctx sid reason" e] engine_runs_event [of "Ev_supersede ctx sid sid'" e]
    engine_runs_event [of "Ev_remove_member ctx sid mid reason" e]
    engine_runs_event [of "Ev_withdraw_member ctx sid mid reason" e]
    engine_runs_event [of "Ev_member_admin ctx sid mid b v" e] engine_runs_event [of "Ev_revalidate_set ctx sid views" e]
    engine_runs_event [of "Ev_revalidate_member ctx sid mid v" e] engine_runs_event [of "Ev_apply_path ctx view" e]
  by (simp_all add: event_enabled_def request_event_def session_event_def event_context_def)

lemma engine_runs_authority [engine_runs_intros]:
  "engine_runs (request_event session) e (snd (advance_epoch p w session expected attempt e))"
  "engine_runs (request_event session) e (reconcile_path path v v' e)"
  "engine_runs (session_event session) e (snd (register_publisher p w scope session e))"
  using engine_runs_event [of "Ev_advance_epoch p w session expected attempt" e]
    engine_runs_event [of "Ev_reconcile path v v'" e] engine_runs_event [of "Ev_register p w scope session" e]
  by (simp_all add: event_enabled_def request_event_def session_event_def)

lemma counter_room_mono: "counter_room n e \<Longrightarrow> m \<le> n \<Longrightarrow> counter_room m e"
  by (simp add: counter_room_def)

lemma engine_runs_drawing [engine_runs_intros]:
  assumes "counter_room 100000 e" and "cx_session ctx = session"
  shows "engine_runs (request_event session) e (snd (create_set ctx key options e))"
    and "engine_runs (request_event session) e (snd (replace_member_locked ctx sid mid path g reason v e))"
    and "length requests \<le> 100000 \<Longrightarrow> length views = length requests \<Longrightarrow>
      engine_runs (request_event session) e (snd (fst (add_members_locked ctx sid requests operation bulk views e)))"
  using engine_runs_event [of "Ev_create ctx key options" e]
    engine_runs_event [of "Ev_replace_member ctx sid mid path g reason v" e]
    engine_runs_event [of "Ev_add_members ctx sid requests operation bulk views" e] assms(2)
    counter_room_mono [OF assms(1), of 1] counter_room_mono [OF assms(1), of "length requests"]
  by (simp_all add: event_enabled_def request_event_def session_event_def event_context_def)

lemma engine_runs_reconcile:
  "engine_runs (request_event session) e e' \<Longrightarrow> engine_runs (request_event session) e (reconcile_all after used e')"
proof (induction used arbitrary: e')
  case (Cons u used)
  then show ?case
    using engine_runs_trans engine_runs_authority(2) by (simp add: reconcile_all_def case_prod_unfold)
qed (simp add: reconcile_all_def)

text \<open>The operations that consult Path Authority around their critical section.\<close>

lemma engine_runs_composite [engine_runs_intros]:
  assumes ctx: "cx_session ctx = session"
  shows "counter_room 100000 e \<Longrightarrow> length requests \<le> 100000 \<Longrightarrow>
      engine_runs (request_event session) e (snd (add_members before after ctx sid requests e))"
    "counter_room 100000 e \<Longrightarrow> engine_runs (request_event session) e (snd (add_member before after ctx sid path g e))"
    "counter_room 100000 e \<Longrightarrow> engine_runs (request_event session) e (snd (replace_member before ctx sid mid path g reason e))"
    "engine_runs (request_event session) e (snd (set_member_admin_enabled before ctx sid mid b e))"
    "engine_runs (request_event session) e (snd (revalidate_set before after ctx sid e))"
    "engine_runs (request_event session) e (snd (revalidate_member before after ctx sid mid e))"
    "engine_runs (request_event session) e (snd (refresh_path before ctx path e))"
proof -
  have add: "engine_runs (request_event session) e (snd (add_members_internal before after ctx sid requests operation bulk e))"
    if "counter_room 100000 e" "length requests \<le> 100000" for requests operation bulk
    using engine_runs_drawing(3) [OF that(1) ctx that(2), of "map (\<lambda>q. lookup_path before e (mr_path_id q)) requests" sid operation bulk]
    by (auto simp: add_members_internal_def Let_def intro: engine_runs_reconcile split: option.split prod.split)
  show "counter_room 100000 e \<Longrightarrow> length requests \<le> 100000 \<Longrightarrow>
      engine_runs (request_event session) e (snd (add_members before after ctx sid requests e))"
    "counter_room 100000 e \<Longrightarrow> engine_runs (request_event session) e (snd (add_member before after ctx sid path g e))"
    using add by (simp_all add: add_members_def add_member_def)
  show "counter_room 100000 e \<Longrightarrow> engine_runs (request_event session) e (snd (replace_member before ctx sid mid path g reason e))"
    "engine_runs (request_event session) e (snd (set_member_admin_enabled before ctx sid mid b e))"
    "engine_runs (request_event session) e (snd (refresh_path before ctx path e))"
    using ctx by (auto simp: replace_member_def set_member_admin_enabled_def refresh_path_def intro: engine_runs_intros
      split: option.split)
  show "engine_runs (request_event session) e (snd (revalidate_set before after ctx sid e))"
    using engine_runs_by(14) [OF ctx]
    by (simp add: revalidate_set_def Let_def case_prod_unfold engine_runs_reconcile)
  show "engine_runs (request_event session) e (snd (revalidate_member before after ctx sid mid e))"
    using engine_runs_by(15) [OF ctx] engine_runs_trans [OF engine_runs_by(15) [OF ctx] engine_runs_authority(2)]
    by (simp add: revalidate_member_def Let_def case_prod_unfold split: option.split)
qed

lemma dispatch_mutation_runs:
  assumes "counter_room 100000 e" and "length (wq_members q) \<le> 100000" and "cx_session (wq_context q) = session"
  shows "engine_runs (request_event session) e (snd (dispatch_mutation before after q e))"
  using assms
  by (cases "wq_id q")
    (simp_all add: dispatch_mutation_def Let_def engine_runs_intros split: option.split set_state_action.split)

section \<open>What a frame changes\<close>

text \<open>The worker a session claims: the one it registered last.\<close>

definition session_claims :: "session \<Rightarrow> worker_key \<Rightarrow> bool" where
  "session_claims s k \<longleftrightarrow> sn_has_registration s \<and> (sn_publisher s, sn_worker_boot s) = k"

text \<open>
  How a frame of a session may move the registrations: those of other sessions stay or go, one of this
  session is claimed by it, newly or still.
\<close>

definition claims_follow :: "session \<Rightarrow> engine \<Rightarrow> session \<Rightarrow> engine \<Rightarrow> bool" where
  "claims_follow s e s' e' \<longleftrightarrow>
     (\<forall>k reg. om_find (e_registrations e') k = Some reg \<longrightarrow>
        (pr_session reg = sn_id s \<and> session_claims s' k) \<or>
        (om_find (e_registrations e) k = Some reg \<and> (session_claims s k \<longrightarrow> session_claims s' k)) \<or>
        (om_find (e_registrations e) k = Some reg \<and> pr_session reg \<noteq> sn_id s))"

lemma claims_followD:
  "claims_follow s e s' e' \<Longrightarrow> om_find (e_registrations e') k = Some reg \<Longrightarrow>
     (pr_session reg = sn_id s \<and> session_claims s' k) \<or>
     (om_find (e_registrations e) k = Some reg \<and> (session_claims s k \<longrightarrow> session_claims s' k)) \<or>
     (om_find (e_registrations e) k = Some reg \<and> pr_session reg \<noteq> sn_id s)"
  unfolding claims_follow_def by blast

definition valid_claim :: "session \<Rightarrow> bool" where
  "valid_claim s \<longleftrightarrow> (sn_has_registration s \<longrightarrow> id_valid (sn_publisher s) \<and> id_valid (sn_worker_boot s))"

lemma claims_follow_less:
  assumes "\<And>k reg. om_find (e_registrations e') k = Some reg \<Longrightarrow> om_find (e_registrations e) k = Some reg"
    and "\<And>k. session_claims s' k = session_claims s k"
  shows "claims_follow s e s' e'"
  using assms by (auto simp: claims_follow_def)

lemma perform_registrations:
  assumes "request_event session ev" and "om_find (e_registrations (perform ev e)) k = Some reg"
  shows "om_find (e_registrations e) k = Some reg"
proof (cases "authority_event ev")
  case False
  then show ?thesis using assms(2) perform_kept [of ev e] by (simp add: kept_def)
next
  case True
  then obtain p b expected attempt where "ev = Ev_advance_epoch p b session expected attempt"
    using assms(1) by (cases ev) (auto simp: request_event_def session_event_def authority_event_def event_context_def)
  then show ?thesis using assms(2) by (auto simp: advance_epoch_def Let_def enter_epoch_frame split: option.splits if_splits)
qed

lemma runs_registrations:
  assumes "engine_runs (request_event session) e e'" and "om_find (e_registrations e') k = Some reg"
  shows "om_find (e_registrations e) k = Some reg"
  using engine_runs_stable [where Q = "\<lambda>e'. \<forall>k reg. om_find (e_registrations e') k = Some reg \<longrightarrow>
      om_find (e_registrations e) k = Some reg", OF _ assms(1)] assms(2) perform_registrations by blast

lemma register_check_rejects: "register_request_check p b scope session e = Some rejection \<Longrightarrow> \<not> succeeded rejection"
  by (auto simp: register_request_check_def malformed_def succeeded_def outcome_is_success_def split: if_splits)

lemma register_cases:
  assumes "register_publisher p b scope session e = (outcome, e')"
  obtains (refused) "\<not> succeeded outcome" "e' = e"
  | (known) current where "succeeded outcome" "e' = e" "om_find (e_registrations e) (p, b) = Some current"
      "pr_session current = session"
  | (admitted) "admit_registration p b scope session e = (outcome, e')"
proof (cases "register_request_check p b scope session e")
  case (Some rejection)
  then show thesis using assms register_check_rejects [OF Some] refused by (simp add: register_publisher_def)
next
  case None
  note check = this
  show thesis
  proof (cases "om_find (e_fences e) (p, b)")
    case (Some fence)
    then show thesis using assms check refused by (auto simp: register_publisher_def succeeded_def outcome_is_success_def)
  next
    case None
    show thesis
    proof (cases "om_find (e_registrations e) (p, b)")
      case None
      then show thesis using assms check \<open>om_find (e_fences e) (p, b) = None\<close> refused admitted
        by (auto simp: register_publisher_def succeeded_def outcome_is_success_def split: if_splits)
    next
      case (Some current)
      then show thesis using assms check \<open>om_find (e_fences e) (p, b) = None\<close> known [OF _ _ Some] admitted
        by (auto simp: register_publisher_def succeeded_def outcome_is_success_def split: if_splits)
    qed
  qed
qed

lemma registered_follows:
  assumes ok: "authority_ok e" and r: "register_publisher p b scope session e = (outcome, e')"
    and k: "om_find (e_registrations e') k = Some reg"
  shows "succeeded outcome \<and> pr_session reg = session \<and> k = (p, b) \<or>
     om_find (e_registrations e) k = Some reg \<and> (pr_session reg \<noteq> session \<or> \<not> succeeded outcome)"
  using r
proof (cases rule: register_cases)
  case refused
  then show ?thesis using k by simp
next
  case (known current)
  then show ?thesis using authority_okD(5) [OF ok known(3), of k reg] k by auto
next
  case admitted
  then show ?thesis
    using k drop_session_find [of "(p, b)" session e k reg]
    by (auto simp: admit_registration_def Let_def succeeded_def outcome_is_success_def authority_exhausted_def
        split: option.splits if_splits)
qed

lemma registered_valid:
  "register_publisher p b scope session e = (outcome, e') \<Longrightarrow> succeeded outcome \<Longrightarrow> id_valid p \<and> id_valid b"
  by (auto simp: register_publisher_def register_request_check_def malformed_def succeeded_def outcome_is_success_def Let_def
      split: option.splits if_splits)

section \<open>The effect of a frame\<close>

lemma register_session_effect:
  assumes ok: "engine_ok e" and r: "register_session q s e = (outcome, s', e')"
  shows "claims_follow s e s' e'" "valid_claim s \<Longrightarrow> valid_claim s'" "sn_id s' = sn_id s" "sn_finished s' = sn_finished s"
    "engine_runs (session_event (sn_id s)) e e'"
proof -
  let ?p = "cx_publisher (wq_context q)" and ?b = "cx_worker_boot (wq_context q)"
  have reg: "register_publisher ?p ?b (wq_scope q) (sn_id s) e = (outcome, e')"
    and s': "s' = (if succeeded outcome
       then s\<lparr>sn_publisher := ?p, sn_worker_boot := ?b, sn_has_registration := True\<rparr> else s)"
    using r by (auto simp: register_session_def Let_def split: prod.splits)
  show "claims_follow s e s' e'"
    unfolding claims_follow_def
  proof (intro allI impI)
    fix k reg
    assume "om_find (e_registrations e') k = Some reg"
    from registered_follows [OF engine_okD(4) [OF ok] reg this]
    show "(pr_session reg = sn_id s \<and> session_claims s' k) \<or>
        (om_find (e_registrations e) k = Some reg \<and> (session_claims s k \<longrightarrow> session_claims s' k)) \<or>
        (om_find (e_registrations e) k = Some reg \<and> pr_session reg \<noteq> sn_id s)"
      by (cases "succeeded outcome") (auto simp: s' session_claims_def)
  qed
  show "valid_claim s \<Longrightarrow> valid_claim s'"
    using registered_valid [OF reg] by (auto simp: valid_claim_def s')
  show "sn_id s' = sn_id s" "sn_finished s' = sn_finished s" by (simp_all add: s')
  show "engine_runs (session_event (sn_id s)) e e'"
    using engine_runs_authority(3) [of "sn_id s" e ?p ?b "wq_scope q"] reg by simp
qed

definition frame_effect :: "session \<Rightarrow> engine \<Rightarrow> session \<Rightarrow> engine \<Rightarrow> bool" where
  "frame_effect s e s' e' \<longleftrightarrow> claims_follow s e s' e' \<and> (valid_claim s \<longrightarrow> valid_claim s') \<and> sn_id s' = sn_id s \<and>
     sn_finished s' = sn_finished s \<and> engine_runs (session_event (sn_id s)) e e'"

lemma frame_effect_answer:
  "frame_effect s e s' e' \<Longrightarrow> frame_effect s e (s'\<lparr>sn_response := response\<rparr>) e'"
  by (simp add: frame_effect_def claims_follow_def session_claims_def valid_claim_def)

lemma frame_effect_refl [simp]: "frame_effect s e s e"
  by (simp add: frame_effect_def claims_follow_def)

lemma frame_effect_request:
  assumes "engine_runs (request_event (sn_id s)) e e'"
  shows "frame_effect s e s e'"
  using claims_follow_less [of e' e s s] runs_registrations [OF assms] engine_runs_mono [OF assms]
  by (auto simp: frame_effect_def request_event_def)

lemma dispatch_effect:
  assumes ok: "engine_ok e" and room: "counter_room 100000 e" and n: "length (wq_members q) \<le> 100000"
    and d: "dispatch before after s q e = (result, s', e')"
  shows "frame_effect s e s' e'"
proof -
  have "snd (dispatch_mutation before after q e) = e" if "\<not> requires_session (wq_id q)"
    using that by (cases "wq_id q") (simp_all add: requires_session_def dispatch_mutation_def Let_def)
  then have mutation: "frame_effect s e s (snd (dispatch_mutation before after q e))"
    if "requires_session (wq_id q) \<longrightarrow> cx_session (wq_context q) = sn_id s"
    using that frame_effect_request [OF dispatch_mutation_runs [OF room n]] by (cases "requires_session (wq_id q)") simp_all
  have "frame_effect s e (fst (snd (register_session q s e))) (snd (snd (register_session q s e)))"
    using register_session_effect [OF ok, of q s] unfolding frame_effect_def by (metis prod.collapse)
  then show ?thesis using d mutation
    by (auto simp: dispatch_def Let_def case_prod_unfold intro!: frame_effect_answer split: if_splits)
qed

lemma request_members: "ensures (decode_request i) (\<lambda>q. length (wq_members q) \<le> 100000)"
proof (cases "i = MI_SUPERSEDE_SET")
  case True
  show ?thesis
    unfolding True decode_request_def Let_def message_id.case read_supersede_set_def
    by (intro ensures_intros block_posts) (simp add: empty_request_def)
next
  case False
  have "length (wq_members q) \<le> 100000" if "sendable_request q" "sent_request q = q" for q
  proof (cases "wq_id q = MI_ADD_MEMBERS")
    case True
    then show ?thesis using that by (simp add: sendable_request_def)
  next
    case False
    then have "wq_members (sent_request q) = []"
      by (cases "wq_id q") (simp_all add: sent_request_def empty_request_def)
    then show ?thesis using that by simp
  qed
  then show ?thesis using ensures_mono [OF ensures_request] False by (auto simp: received_request_def)
qed

text \<open>What handling a frame does to the coordinator besides.\<close>

definition same_frame :: "coordinator \<Rightarrow> coordinator \<Rightarrow> bool" where
  "same_frame c c' \<longleftrightarrow> co_limits c' = co_limits c \<and> co_ids c' = co_ids c \<and> co_sessions c' = co_sessions c"

definition handled_well :: "session \<Rightarrow> coordinator \<Rightarrow> handled \<Rightarrow> bool" where
  "handled_well s c h \<longleftrightarrow> same_frame c (hd_coordinator h) \<and>
     frame_effect s (co_engine c) (hd_session h) (co_engine (hd_coordinator h))"

lemma count_up_frame [simp]:
  "co_engine (count_up f c) = co_engine c" "co_limits (count_up f c) = co_limits c"
  "co_ids (count_up f c) = co_ids c" "co_sessions (count_up f c) = co_sessions c"
  by (simp_all add: count_up_def)

lemmas counters = frame_received_def frame_rejected_def worker_fenced_def session_accepted_def session_rejected_def

lemma answer_error_well [simp]: "same_frame c c' \<Longrightarrow> co_engine c' = co_engine c \<Longrightarrow> handled_well s c (answer_error peer outcome s c')"
  by (simp add: answer_error_def handled_well_def Let_def frame_effect_answer)

lemma same_frame_counters [simp]:
  "same_frame c c" "same_frame c (frame_rejected c)" "same_frame c (frame_received c)"
  "same_frame c (frame_rejected (frame_received c))"
  "co_engine (frame_rejected c) = co_engine c" "co_engine (frame_received c) = co_engine c"
  by (simp_all add: same_frame_def counters)

lemma answer_request_well:
  assumes "engine_ok (co_engine c)" "counter_room 100000 (co_engine c)" "length (wq_members q) \<le> 100000"
  shows "handled_well s c (answer_request peer before after i q s c)"
proof -
  obtain result s' e' where d: "dispatch before after s q (co_engine c) = (result, s', e')" by (metis prod_cases3)
  show ?thesis
    using dispatch_effect [OF assms d] d
    by (auto simp: answer_request_def handled_well_def same_frame_def Let_def case_prod_unfold intro: frame_effect_answer)
qed

lemma handled_well_received: "handled_well s (frame_received c) h \<Longrightarrow> handled_well s c h"
  by (simp add: handled_well_def same_frame_def counters)

lemma handle_payload_well:
  assumes "engine_ok (co_engine c)" "counter_room 100000 (co_engine c)"
  shows "handled_well s c (handle_payload peer before after i payload s c)"
proof -
  have "handled_well s c (answer_request peer before after i q s c)" if "decode_request i r = Inr (q, r')" for q r r'
    using answer_request_well [OF assms] ensuresD [OF request_members that] by simp
  moreover have "handled_well s c \<lparr>hd_continue = b, hd_sent = sent, hd_committed = False, hd_session = s, hd_coordinator = c\<rparr>"
    for b sent by (simp add: handled_well_def)
  ultimately show ?thesis by (auto simp: handle_payload_def case_prod_unfold split: sum.split)
qed

lemma handle_frame_well:
  assumes "engine_ok (co_engine c)" "counter_room 100000 (co_engine c)"
  shows "handled_well s c (handle_frame peer before after s c)"
proof -
  have "handled_well s c (handle_payload peer before after i payload s (frame_received c))" for i payload
    using handle_payload_well [of "frame_received c"] assms by (simp add: handled_well_received)
  moreover have "handled_well s c \<lparr>hd_continue = False, hd_sent = [], hd_committed = False, hd_session = s, hd_coordinator = c\<rparr>"
    by (simp add: handled_well_def)
  ultimately show ?thesis by (simp add: handle_frame_def case_prod_unfold split: sum.split)
qed

section \<open>The invariant\<close>

text \<open>
  Every registration is bound to a session that has not ended and that claims its worker. The exception is
  an exhausted authority generation, with which no worker can be fenced any more.
\<close>

definition registrations_held :: "coordinator \<Rightarrow> bool" where
  "registrations_held c \<longleftrightarrow>
     (\<forall>k reg. om_find (e_registrations (co_engine c)) k = Some reg \<longrightarrow>
        (\<exists>s. live_session c (pr_session reg) s \<and> session_claims s k))"

lemma registrations_heldD:
  assumes "registrations_held c" and "om_find (e_registrations (co_engine c)) k = Some reg"
  obtains t where "live_session c (pr_session reg) t" "session_claims t k"
  using assms unfolding registrations_held_def by blast

definition sessions_ok :: "coordinator \<Rightarrow> bool" where
  "sessions_ok c \<longleftrightarrow> factory_ok (co_ids c) \<and> ids_below (co_ids c) ''sess'' (dom (om_find (co_sessions c))) \<and>
     om_size (co_sessions c) \<le> max_sessions (co_limits c) \<and>
     (\<forall>sid s. om_find (co_sessions c) sid = Some s \<longrightarrow> sn_id s = sid \<and> valid_claim s)"

definition co_ok :: "coordinator \<Rightarrow> bool" where
  "co_ok c \<longleftrightarrow> engine_ok (co_engine c) \<and> sessions_ok c \<and>
     (gen_next (e_authority_generation (co_engine c)) \<noteq> None \<longrightarrow> registrations_held c)"

lemma exhausted_stays: "engine_forward e e' \<Longrightarrow> gen_next (e_authority_generation e') \<noteq> None \<Longrightarrow> gen_next (e_authority_generation e) \<noteq> None"
proof
  assume "engine_forward e e'" and n: "gen_next (e_authority_generation e') \<noteq> None"
    and "gen_next (e_authority_generation e) = None"
  then have "u64_max \<le> gen_value (e_authority_generation e')"
    by (simp add: engine_forward_def gen_next_None less_eq_generation_def)
  then show False using n by (simp add: gen_next_None word_order.extremum_unique)
qed


lemma accept_connection_ok:
  assumes ok: "co_ok c" and n: "f_counter (co_ids c) \<noteq> u64_max"
  shows "co_ok (accept_connection accepted c)"
proof -
  have s: "sessions_ok c" using ok by (simp add: co_ok_def)
  have f: "factory_ok (co_ids c)" using s by (simp add: sessions_ok_def)
  let ?sid = "StrongId (factory_compose (co_ids c) ''sess'' (f_counter (co_ids c) + 1)) :: session_id"
  let ?ids = "(co_ids c)\<lparr>f_counter := f_counter (co_ids c) + 1\<rparr>"
  let ?c = "c\<lparr>co_ids := ?ids, co_sessions := om_put ?sid (new_session ?sid) (co_sessions c)\<rparr>"
  have next_id: "next_session_id (co_ids c) = (?sid, ?ids)" by (rule next_session_id_eq [OF f])
  have below: "ids_below (co_ids c) ''sess'' (dom (om_find (co_sessions c)))" using s by (simp add: sessions_ok_def)
  have fresh: "om_find (co_sessions c) ?sid = None"
    using ids_below_fresh [OF below n] by (simp add: domIff)
  have "co_ok ?c" if "om_size (co_sessions c) < max_sessions (co_limits c)"
    unfolding co_ok_def
  proof (intro conjI impI)
    show "sessions_ok ?c"
      using s that fresh ids_below_step [OF below n, of "insert ?sid (dom (om_find (co_sessions c)))"]
      by (auto simp: sessions_ok_def om_size_put new_session_def valid_claim_def)
    show "registrations_held ?c" if "gen_next (e_authority_generation (co_engine ?c)) \<noteq> None"
      using that ok fresh by (fastforce simp: co_ok_def registrations_held_def live_session_def)
  qed (use ok in \<open>simp add: co_ok_def\<close>)
  moreover have "co_ok (count_up f c') = co_ok c'" for f c'
    by (simp add: co_ok_def sessions_ok_def registrations_held_def live_session_def)
  ultimately show ?thesis
    using ok by (auto simp: accept_connection_def next_id Let_def counters new_session_def [of ?sid] not_le)
qed

lemma reap_ok:
  assumes "co_ok c"
  shows "co_ok (reap_finished_sessions False c)"
proof -
  have "dom (om_find (co_sessions (reap_finished_sessions False c))) \<subseteq> dom (om_find (co_sessions c))"
    by (auto simp: reap_finished_sessions_def split: option.splits if_splits)
  then have "sessions_ok (reap_finished_sessions False c)"
    using assms ids_below_mono order_trans [OF om_size_filter_le]
    by (auto simp: co_ok_def sessions_ok_def reap_finished_sessions_def split: option.splits if_splits)
  then show ?thesis
    using assms by (fastforce simp: co_ok_def registrations_held_def live_session_def reap_finished_sessions_def)
qed

lemma store_session_ok:
  assumes ok: "co_ok c" and live: "live_session c sid s" and same: "same_frame c c'"
    and effect: "frame_effect s (co_engine c) s' (co_engine c')"
  shows "co_ok (store_session s' c')"
proof -
  have e: "engine_ok (co_engine c)" and runs: "engine_runs (session_event (sn_id s)) (co_engine c) (co_engine c')"
    using ok effect by (simp_all add: co_ok_def frame_effect_def)
  note fwd = exhausted_stays [OF engine_runs_forward [OF runs e]]
  have sid: "sn_id s = sid" and s': "sn_id s' = sid" "\<not> sn_finished s'" "valid_claim s'"
    using ok live effect by (auto simp: co_ok_def sessions_ok_def live_session_def frame_effect_def)
  have "sessions_ok (store_session s' c')"
    using ok live same s' by (auto simp: co_ok_def sessions_ok_def live_session_def store_session_def same_frame_def
        om_size_put insert_absorb domI)
  moreover have "registrations_held (store_session s' c')"
    if "gen_next (e_authority_generation (co_engine c')) \<noteq> None"
    unfolding registrations_held_def
  proof (intro allI impI)
    fix k reg
    assume reg: "om_find (e_registrations (co_engine (store_session s' c'))) k = Some reg"
    have held: "registrations_held c" using ok fwd [OF that] by (simp add: co_ok_def)
    have "claims_follow s (co_engine c) s' (co_engine c')" using effect by (simp add: frame_effect_def)
    then have "(pr_session reg = sid \<and> session_claims s' k) \<or>
        (om_find (e_registrations (co_engine c)) k = Some reg \<and> (session_claims s k \<longrightarrow> session_claims s' k)) \<or>
        (om_find (e_registrations (co_engine c)) k = Some reg \<and> pr_session reg \<noteq> sid)"
      using claims_followD [of s _ s' "co_engine c'" k reg] reg sid by (simp add: store_session_def)
    moreover have "\<exists>t. live_session (store_session s' c') (pr_session reg) t \<and> session_claims t k"
      if "pr_session reg = sid" "session_claims s' k"
      using that s' by (simp add: live_session_def store_session_def)
    moreover have "\<exists>t. live_session (store_session s' c') (pr_session reg) t \<and> session_claims t k"
      if old: "om_find (e_registrations (co_engine c)) k = Some reg" and "pr_session reg \<noteq> sid"
      using registrations_heldD [OF held old] that(2) s' same by (simp add: live_session_def store_session_def same_frame_def) metis
    moreover have "session_claims s k"
      if old: "om_find (e_registrations (co_engine c)) k = Some reg" and "pr_session reg = sid"
      using registrations_heldD [OF held old] that(2) live by (simp add: live_session_def) metis
    ultimately show "\<exists>t. live_session (store_session s' c') (pr_session reg) t \<and> session_claims t k" by blast
  qed
  ultimately show ?thesis
    using engine_runs_ok [OF runs e] by (simp add: co_ok_def store_session_def)
qed

lemma fence_registrations_less:
  "om_find (e_registrations (snd (fence_worker p b cause e))) k = Some reg \<Longrightarrow> om_find (e_registrations e) k = Some reg"
  using without_sets_fields [OF fold_fence_frame [of p]]
  by (auto simp: fence_worker_def Let_def case_prod_unfold split: option.splits if_splits)

lemma fence_removes:
  assumes "authority_ok e" "gen_next (e_authority_generation e) \<noteq> None" "id_valid p" "id_valid b" "cause \<noteq> []" "length cause \<le> 64"
  shows "om_find (e_registrations (snd (fence_worker p b cause e))) (p, b) = None"
proof (cases "om_find (e_fences e) (p, b)")
  case (Some f)
  then show ?thesis using authority_okD(3) [OF assms(1), of "(p, b)"] assms
    by (cases "om_find (e_registrations e) (p, b)") (auto simp: fence_worker_def)
next
  case None
  then show ?thesis using assms without_sets_fields [OF fold_fence_frame [of p]]
    by (auto simp: fence_worker_def Let_def case_prod_unfold)
qed

lemma fence_adds:
  assumes "gen_next (e_authority_generation e) \<noteq> None" "id_valid p" "id_valid b" "cause \<noteq> []" "length cause \<le> 64"
  shows "om_has (e_fences (snd (fence_worker p b cause e))) (p, b)"
  using assms without_sets_fields [OF fold_fence_frame [of p]]
  by (cases "om_find (e_fences e) (p, b)") (auto simp: fence_worker_def Let_def case_prod_unfold om_has_def)

lemma end_session_ok:
  assumes ok: "co_ok c" and live: "live_session c sid s" and ended: "end_session s ''SESSION_LOST'' c = (s', c')"
  shows "co_ok (store_session s' c')"
proof -
  let ?e = "co_engine c" and ?e' = "co_engine c'"
  have e: "engine_ok ?e" using ok by (simp add: co_ok_def)
  have s': "s' = s\<lparr>sn_finished := True\<rparr>" and same: "same_frame c c'"
    and e': "?e' = (if sn_has_registration s
       then snd (fence_worker (sn_publisher s) (sn_worker_boot s) ''SESSION_LOST'' ?e) else ?e)"
    using ended by (auto simp: end_session_def same_frame_def counters Let_def)
  have sid: "sn_id s = sid" and claim: "valid_claim s"
    using ok live by (auto simp: co_ok_def sessions_ok_def live_session_def)
  have less: "om_find (e_registrations ?e) k = Some reg" if "om_find (e_registrations ?e') k = Some reg" for k reg
    using that fence_registrations_less [of "sn_publisher s" "sn_worker_boot s" "''SESSION_LOST''" ?e k reg]
    by (simp add: e' split: if_splits)
  have fwd: "engine_forward ?e ?e'" using fence_worker_forward [OF e] by (simp add: e')
  have "sessions_ok (store_session s' c')"
    using ok live same s' sid claim by (auto simp: co_ok_def sessions_ok_def live_session_def store_session_def same_frame_def
        om_size_put insert_absorb domI valid_claim_def)
  moreover have "registrations_held (store_session s' c')"
    if g: "gen_next (e_authority_generation ?e') \<noteq> None"
    unfolding registrations_held_def
  proof (intro allI impI)
    fix k reg
    assume "om_find (e_registrations (co_engine (store_session s' c'))) k = Some reg"
    then have reg: "om_find (e_registrations ?e') k = Some reg" by (simp add: store_session_def)
    obtain t where t: "live_session c (pr_session reg) t" "session_claims t k"
      using registrations_heldD [OF _ less [OF reg]] ok exhausted_stays [OF fwd g] by (metis co_ok_def)
    have "pr_session reg \<noteq> sid"
    proof
      assume "pr_session reg = sid"
      then have "session_claims s k" using t live by (simp add: live_session_def)
      then have "om_find (e_registrations ?e') k = None"
        using fence_removes [OF engine_okD(4) [OF e] exhausted_stays [OF fwd g], of "sn_publisher s" "sn_worker_boot s" "''SESSION_LOST''"]
          claim e' by (auto simp: session_claims_def valid_claim_def)
      then show False using reg by simp
    qed
    then show "\<exists>t. live_session (store_session s' c') (pr_session reg) t \<and> session_claims t k"
      using t same sid s' by (auto simp: live_session_def store_session_def same_frame_def)
  qed
  moreover have "engine_ok ?e'" using fence_worker_ok [OF e] e by (simp add: e')
  ultimately show ?thesis by (simp add: co_ok_def store_session_def)
qed

lemma co_step_ok:
  assumes ok: "co_ok c" and step: "co_step c ev c'"
  shows "co_ok c'"
  using step
proof cases
  case (co_accept accepted)
  then show ?thesis using accept_connection_ok [OF ok] by simp
next
  case (co_frame sid s peer before after h)
  then have "handled_well s c h" using handle_frame_well ok by (auto simp: co_ok_def)
  then show ?thesis using store_session_ok [OF ok] co_frame by (simp add: handled_well_def)
next
  case (co_end sid s s' c'')
  then show ?thesis using end_session_ok [OF ok] by simp
next
  case co_reap
  then show ?thesis using reap_ok [OF ok] by simp
qed

lemma co_start_ok: "co_start c \<Longrightarrow> co_ok c"
  by (auto simp: co_start_def coordinator_init_def co_ok_def sessions_ok_def registrations_held_def ids_below_def
      om_find_empty_fun)

section \<open>The coordinator refines the engine\<close>

text \<open>The engine events a coordinator event may cause.\<close>

definition caused_by :: "coordinator_event \<Rightarrow> fabric_event \<Rightarrow> bool" where
  "caused_by ev fev \<longleftrightarrow>
     (case ev of
        Co_frame sid _ _ _ \<Rightarrow> session_event sid fev
      | Co_end _ \<Rightarrow> (\<exists>p b. fev = Ev_fence p b ''SESSION_LOST'')
      | _ \<Rightarrow> False)"

lemma engine_runs_fence: "engine_runs (\<lambda>fev. \<exists>p b. fev = Ev_fence p b cause) e (snd (fence_worker p b cause e))"
  using engine_runs_event [of "Ev_fence p b cause" e] by (simp add: event_enabled_def)

lemma co_step_engine:
  assumes ok: "co_ok c" and step: "co_step c ev c'"
  shows "engine_runs (caused_by ev) (co_engine c) (co_engine c')"
  using step
proof cases
  case (co_accept accepted)
  then show ?thesis by (simp add: accept_connection_def Let_def case_prod_unfold counters)
next
  case (co_frame sid s peer before after h)
  then have "handled_well s c h" using handle_frame_well ok by (auto simp: co_ok_def)
  moreover have "sn_id s = sid" using ok co_frame by (auto simp: co_ok_def sessions_ok_def live_session_def)
  ultimately show ?thesis using co_frame
    by (simp add: handled_well_def frame_effect_def store_session_def caused_by_def [abs_def])
next
  case (co_end sid s s' c'')
  then show ?thesis using engine_runs_fence
    by (auto simp: end_session_def store_session_def Let_def counters caused_by_def [abs_def] split: if_splits)
next
  case co_reap
  then show ?thesis by (simp add: reap_finished_sessions_def)
qed

interpretation coord: simulation co_start co_step co_ok co_engine "engine_runs (\<lambda>_. True)"
proof unfold_locales
  show "engine_runs (\<lambda>_. True) (co_engine c) (co_engine c')" if "co_ok c" "co_step c ev c'" for c ev c'
    using engine_runs_mono [OF co_step_engine [OF that]] by simp
qed (auto intro: co_start_ok co_step_ok)

lemma coord_run_engine:
  "coord.run c evs c' \<Longrightarrow> co_ok c \<Longrightarrow> engine_runs (\<lambda>fev. \<exists>ev \<in> set evs. caused_by ev fev) (co_engine c) (co_engine c')"
proof (induction rule: coord.run.induct)
  case (run_cons c ev c' evs c'')
  have "engine_runs (\<lambda>fev. \<exists>ev' \<in> set (ev # evs). caused_by ev' fev) (co_engine c) (co_engine c')"
    using engine_runs_mono [OF co_step_engine [OF run_cons.prems run_cons.hyps(1)]] by simp
  moreover have "engine_runs (\<lambda>fev. \<exists>ev' \<in> set (ev # evs). caused_by ev' fev) (co_engine c') (co_engine c'')"
    using engine_runs_mono [OF run_cons.IH [OF co_step_ok [OF run_cons.prems run_cons.hyps(1)]]] by auto
  ultimately show ?case by (rule engine_runs_trans)
qed simp

section \<open>A thread is a run\<close>

text \<open>
  What the thread of a session does undisturbed is a run of the coordinator: its frames in order, then its
  end. Every frame needs the room of a frame step.
\<close>

primrec frames_have_room :: "frame_input list \<Rightarrow> session \<Rightarrow> coordinator \<Rightarrow> bool" where
  "frames_have_room [] s c = True"
| "frames_have_room (f # fs) s c =
     (counter_room 100000 (co_engine c) \<and>
      (let h = handle_frame (fst f) (fst (snd f)) (snd (snd f)) s c
       in hd_continue h \<longrightarrow> frames_have_room fs (hd_session h) (store_session (hd_session h) (hd_coordinator h))))"

lemma frame_stays_live:
  assumes "co_ok c" and "live_session c sid s" and "handle_frame peer before after s c = h"
    and "counter_room 100000 (co_engine c)"
  shows "live_session (store_session (hd_session h) (hd_coordinator h)) sid (hd_session h)"
proof -
  have "handled_well s c h" using handle_frame_well assms(1,3,4) by (auto simp: co_ok_def)
  moreover have "sn_id s = sid" using assms(1,2) by (auto simp: co_ok_def sessions_ok_def live_session_def)
  ultimately show ?thesis using assms(2) by (simp add: handled_well_def frame_effect_def store_session_def live_session_def)
qed

lemma session_frames_run:
  assumes "co_ok c" "live_session c sid s" "frames_have_room fs s c" "session_frames fs s c = (sent, s', c')"
  shows "live_session c' sid s' \<and> (\<exists>evs. coord.run c evs c' \<and> list_all (\<lambda>ev. \<exists>p b a. ev = Co_frame sid p b a) evs)"
  using assms
proof (induction fs arbitrary: s c sent)
  case Nil
  then show ?case by (auto intro!: exI [of _ "[]"] coord.run_nil)
next
  case (Cons f fs)
  obtain p b a where f: "f = (p, b, a)" by (cases f)
  define h where "h = handle_frame p b a s c"
  let ?c = "store_session (hd_session h) (hd_coordinator h)"
  have step: "co_step c (Co_frame sid p b a) ?c"
    using Cons.prems(2,3) by (intro co_frame [OF Cons.prems(2)]) (simp_all add: h_def)
  have live: "live_session ?c sid (hd_session h)"
    by (rule frame_stays_live [OF Cons.prems(1,2)]) (use Cons.prems(3) in \<open>simp_all add: h_def\<close>)
  show ?case
  proof (cases "hd_continue h")
    case False
    then show ?thesis
      using Cons.prems(4) live step by (auto simp: f Let_def h_def [symmetric] intro!: exI [of _ "[Co_frame sid p b a]"]
          coord.run_cons coord.run_nil)
  next
    case True
    then obtain sent' where "session_frames fs (hd_session h) ?c = (sent', s', c')"
      using Cons.prems(4) by (auto simp: f Let_def h_def [symmetric] split: prod.splits)
    then obtain evs where "live_session c' sid s'" "coord.run ?c evs c'" "list_all (\<lambda>ev. \<exists>p b a. ev = Co_frame sid p b a) evs"
      using Cons.IH [OF co_step_ok [OF Cons.prems(1) step] live] Cons.prems(3) True
      by (auto simp: f Let_def h_def [symmetric])
    then show ?thesis
      using coord.run_cons [OF step] by (intro conjI exI [of _ "Co_frame sid p b a # evs"]) simp_all
  qed
qed

lemma session_thread_run:
  assumes ok: "co_ok c" and live: "live_session c sid s" and room: "frames_have_room fs s c"
    and t: "session_thread greeted fs s c = (sent, c')"
  shows "\<exists>evs. coord.run c (evs @ [Co_end sid]) c' \<and> list_all (\<lambda>ev. \<exists>p b a. ev = Co_frame sid p b a) evs"
proof -
  obtain sent' s1 c1 where l: "session_loop greeted fs s c = (sent', s1, c1)" by (cases "session_loop greeted fs s c") auto
  obtain evs where evs: "live_session c1 sid s1" "coord.run c evs c1" "list_all (\<lambda>ev. \<exists>p b a. ev = Co_frame sid p b a) evs"
    using l session_frames_run [OF ok live room] live
    by (fastforce simp: session_loop_def intro: exI [of _ "[]"] coord.run_nil split: prod.splits if_splits)
  obtain s2 c2 where e: "end_session s1 ''SESSION_LOST'' c1 = (s2, c2)" by fastforce
  have "c' = store_session s2 c2" using t l e by (simp add: session_thread_def)
  then have "co_step c1 (Co_end sid) c'" using co_end [OF evs(1) e] by simp
  then have "coord.run c (evs @ [Co_end sid]) c'" using coord.run_append [OF evs(2)] coord.run_cons coord.run_nil by blast
  then show ?thesis using evs(3) by blast
qed

text \<open>The end of a session fences the worker it claims, for all later states.\<close>

lemma coord_run_forward: "coord.run c evs c' \<Longrightarrow> co_ok c \<Longrightarrow> engine_forward (co_engine c) (co_engine c')"
  using engine_runs_forward [OF coord_run_engine] by (auto simp: co_ok_def)

lemma forward_fenced: "engine_forward e e' \<Longrightarrow> om_has (e_fences e) k \<Longrightarrow> om_has (e_fences e') k"
  by (cases k) (auto simp: engine_forward_def om_has_def)

lemma ended_session_fences:
  assumes ok: "co_ok c" and live: "live_session c sid s" and step: "co_step c (Co_end sid) c'"
    and g: "gen_next (e_authority_generation (co_engine c)) \<noteq> None" and claim: "session_claims s k"
  shows "om_has (e_fences (co_engine c')) k"
  using step
proof cases
  case (co_end t t' d)
  then have "t = s" using live by (simp add: live_session_def)
  moreover have "valid_claim s" using ok live by (auto simp: co_ok_def sessions_ok_def live_session_def)
  ultimately have "sn_has_registration s" "id_valid (sn_publisher s)" "id_valid (sn_worker_boot s)"
    "k = (sn_publisher s, sn_worker_boot s)" "t = s"
    using claim by (simp_all add: session_claims_def valid_claim_def)
  note s = this
  have "co_engine d = snd (fence_worker (sn_publisher s) (sn_worker_boot s) ''SESSION_LOST'' (co_engine c))"
    using \<open>end_session t ''SESSION_LOST'' c = (t', d)\<close> s(1)
    unfolding \<open>t = s\<close> end_session_def Let_def by (auto simp: counters)
  then have "om_has (e_fences (co_engine d)) k"
    using fence_adds [OF g s(2,3), of "''SESSION_LOST''"] s(4) by simp
  then show ?thesis using co_end by (simp add: store_session_def)
qed

lemma ended_session_finished:
  assumes "co_ok c" and "co_step c (Co_end sid) c'"
  shows "\<not> live_session c' sid t"
  using assms(2)
proof cases
  case (co_end s s' d)
  then have "sn_id s = sid" using assms(1) by (auto simp: co_ok_def sessions_ok_def live_session_def)
  moreover have "sn_finished s'" "sn_id s' = sn_id s"
    using \<open>end_session s ''SESSION_LOST'' c = (s', d)\<close> by (auto simp: end_session_def Let_def)
  ultimately show ?thesis unfolding \<open>c' = store_session s' d\<close> by (auto simp: live_session_def store_session_def)
qed

section \<open>A stop is a run\<close>

lemma end_live_step:
  assumes "live_session c sid s"
  shows "co_step c (Co_end sid) (end_live sid c)"
proof -
  obtain s' c' where e: "end_session s ''SESSION_LOST'' c = (s', c')" by fastforce
  have "end_live sid c = store_session s' c'" using assms e by (simp add: end_live_def live_session_def)
  then show ?thesis using co_end [OF assms e] by simp
qed

lemma end_live_idle: "(\<And>s. \<not> live_session c sid s) \<Longrightarrow> end_live sid c = c"
  by (auto simp: end_live_def live_session_def split: option.split)

lemma end_live_live:
  assumes ok: "co_ok c" and live: "live_session (end_live sid c) sid' t"
  shows "sid' \<noteq> sid \<and> live_session c sid' t"
proof (cases "\<exists>s. live_session c sid s")
  case False
  then show ?thesis using live end_live_idle [of c sid] by auto
next
  case True
  then obtain s where s: "live_session c sid s" by blast
  have "sid' \<noteq> sid" using ended_session_finished [OF ok end_live_step [OF s]] live by blast
  moreover have "live_session c sid' t" if "sid' \<noteq> sid"
  proof -
    have "om_find (co_sessions (end_live sid c)) sid' = om_find (co_sessions c) sid'"
      using s ok that
      by (auto simp: end_live_def live_session_def end_session_def store_session_def Let_def counters co_ok_def sessions_ok_def)
    then show ?thesis using live by (simp add: live_session_def)
  qed
  ultimately show ?thesis by blast
qed

lemma ends_run:
  "co_ok c \<Longrightarrow> \<exists>evs. coord.run c evs (fold end_live order c) \<and> list_all (\<lambda>ev. \<exists>sid. ev = Co_end sid) evs"
proof (induction order arbitrary: c)
  case Nil
  then show ?case by (auto intro!: exI [of _ "[]"] coord.run_nil)
next
  case (Cons sid order)
  show ?case
  proof (cases "\<exists>s. live_session c sid s")
    case True
    then have step: "co_step c (Co_end sid) (end_live sid c)" using end_live_step by blast
    from Cons.IH [OF co_step_ok [OF Cons.prems step]] obtain evs where
      "coord.run (end_live sid c) evs (fold end_live order (end_live sid c))" "list_all (\<lambda>ev. \<exists>sid. ev = Co_end sid) evs" by blast
    then show ?thesis by (intro exI [of _ "Co_end sid # evs"]) (simp add: coord.run_cons [OF step])
  next
    case False
    then show ?thesis using Cons.IH [OF Cons.prems] by (simp add: end_live_idle)
  qed
qed

lemma ends_ok: "co_ok c \<Longrightarrow> co_ok (fold end_live order c)"
  using ends_run coord.run_inv by blast

lemma ends_live: "co_ok c \<Longrightarrow> live_session (fold end_live order c) sid t \<Longrightarrow> sid \<notin> set order \<and> live_session c sid t"
proof (induction order arbitrary: c)
  case (Cons sid' order)
  have "co_ok (end_live sid' c)" using ends_ok [OF Cons.prems(1), of "[sid']"] by simp
  from Cons.IH [OF this] Cons.prems end_live_live [OF Cons.prems(1), of sid' sid t] show ?case by auto
qed simp

text \<open>
  When every thread has ended, the stop has cleared the sessions; its effect on the engine is a run of
  session ends, and no registration is left (while the authority generation lasts).
\<close>

lemma server_stop_effect:
  assumes ok: "co_ok (se_coordinator sv)" and "se_running sv" and all: "dom (om_find (co_sessions (se_coordinator sv))) \<subseteq> set order"
  defines "c' \<equiv> se_coordinator (server_stop order sv)"
  shows "co_sessions c' = om_empty"
    "\<exists>evs c. coord.run (se_coordinator sv) evs c \<and> list_all (\<lambda>ev. \<exists>sid. ev = Co_end sid) evs \<and> co_engine c' = co_engine c"
    "gen_next (e_authority_generation (co_engine c')) \<noteq> None \<Longrightarrow> e_registrations (co_engine c') = om_empty"
proof -
  let ?c = "fold end_live order (se_coordinator sv)"
  have c': "c' = reap_finished_sessions True ?c" using assms(2) by (simp add: c'_def server_stop_def)
  show "co_sessions c' = om_empty" by (rule omap_eqI) (simp add: c' reap_finished_sessions_def split: option.split)
  show "\<exists>evs c. coord.run (se_coordinator sv) evs c \<and> list_all (\<lambda>ev. \<exists>sid. ev = Co_end sid) evs \<and> co_engine c' = co_engine c"
    using ends_run [OF ok, of order] by (auto simp: c' reap_finished_sessions_def)
  have "\<not> live_session ?c sid t" for sid t
    using ends_live [OF ok, of order sid t] all by (auto simp: live_session_def dom_def)
  then have "om_find (e_registrations (co_engine ?c)) k = None" if "gen_next (e_authority_generation (co_engine ?c)) \<noteq> None" for k
    using ends_ok [OF ok, of order] that registrations_heldD by (metis co_ok_def not_None_eq)
  then show "e_registrations (co_engine c') = om_empty" if "gen_next (e_authority_generation (co_engine c')) \<noteq> None"
    using that by (intro omap_eqI) (simp add: c' reap_finished_sessions_def)
qed

end
