(* ===== verification/Session_Authority.thy ===== *)
theory Session_Authority
  imports Coordinator_System
begin

text \<open>
  What the session of a request decides. The coordinator compares it with the session of the connection;
  behind that check no operation on sets, members and paths looks at it again: the engine finds the
  registration by publisher and worker boot alone.
\<close>

definition in_session :: "session_id \<Rightarrow> mutation_context \<Rightarrow> mutation_context" where
  "in_session sid ctx = ctx\<lparr>cx_session := sid\<rparr>"

named_theorems session_blind

lemma in_session_fields [session_blind]:
  "cx_epoch (in_session x ctx) = cx_epoch ctx" "cx_publisher (in_session x ctx) = cx_publisher ctx"
  "cx_worker_boot (in_session x ctx) = cx_worker_boot ctx" "cx_attempt (in_session x ctx) = cx_attempt ctx"
  "cx_expected_set_generation (in_session x ctx) = cx_expected_set_generation ctx"
  "cx_expected_member_generation (in_session x ctx) = cx_expected_member_generation ctx"
  "worker_of (in_session x ctx) = worker_of ctx"
  by (simp_all add: in_session_def worker_of_def)

lemma caller_identity_blind: "has_caller_identity ctx \<Longrightarrow> id_valid x \<Longrightarrow> has_caller_identity (in_session x ctx)"
  by (simp add: has_caller_identity_def in_session_def)

lemma authority_check_blind:
  assumes "has_caller_identity ctx" and "id_valid x"
  shows "authority_check (in_session x ctx) key sid e = authority_check ctx key sid e"
proof -
  have v: "gen_valid (cx_epoch ctx)" "id_valid (cx_publisher ctx)" "id_valid (cx_worker_boot ctx)" "id_valid (cx_session ctx)"
    "id_valid (cx_attempt ctx)" "id_valid (cx_session (in_session x ctx))"
    using assms by (simp_all add: has_caller_identity_def in_session_def)
  show ?thesis unfolding authority_check_def session_blind by (simp only: v not_True_eq_False simp_thms if_False)
qed

lemma path_caller_blind:
  assumes "has_caller_identity ctx" and "id_valid x"
  shows "path_caller_check (in_session x ctx) e = path_caller_check ctx e"
  unfolding path_caller_check_def session_blind
  by (simp only: assms caller_identity_blind [OF assms] not_True_eq_False if_False)

text \<open>Texts are built under \<open>msg\<close>, where only unfolding rewrites.\<close>

lemma steps_blind [session_blind]:
  "attempt_check (in_session x ctx) operation flds e = attempt_check ctx operation flds e"
  "record_attempt (in_session x ctx) operation flds outcome e = record_attempt ctx operation flds outcome e"
  "expected_set_generation_matches (in_session x ctx) r = expected_set_generation_matches ctx r"
  "expected_member_generation_matches (in_session x ctx) m = expected_member_generation_matches ctx m"
  "stale_set_generation (in_session x ctx) r = stale_set_generation ctx r"
  "stale_member_generation (in_session x ctx) m = stale_member_generation ctx m"
  "make_provenance (in_session x ctx) cause r = make_provenance ctx cause r"
  "append_history lim ep event cause (Some (in_session x ctx)) member path text r =
     append_history lim ep event cause (Some ctx) member path text r"
  unfolding attempt_check_def record_attempt_def expected_set_generation_matches_def
    expected_member_generation_matches_def stale_set_generation_def stale_member_generation_def
    make_provenance_def append_history_def option.case session_blind by (rule refl)+

lemma commit_blind [session_blind]:
  "commit_advanced r (in_session x ctx) operation flds spec outcome e = commit_advanced r ctx operation flds spec outcome e"
  "answer_unchanged r (in_session x ctx) operation flds outcome e = answer_unchanged r ctx operation flds outcome e"
  "apply_member_consequences lim ep fr to (Some (in_session x ctx)) r = apply_member_consequences lim ep fr to (Some ctx) r"
  "viewed_record e path (Some (in_session x ctx)) cause r = viewed_record e path (Some ctx) cause r"
  unfolding commit_advanced_def answer_unchanged_def apply_member_consequences_def viewed_record_def session_blind
  by (rule refl)+

lemma commit_whole_blind [session_blind]:
  "commit r (in_session x ctx) operation flds spec outcome e = commit r ctx operation flds spec outcome e"
  "apply_view_to_set path view (Some (in_session x ctx)) cause = apply_view_to_set path view (Some ctx) cause"
  "publish_member (in_session x ctx) = publish_member ctx"
  unfolding commit_def apply_view_to_set_def [abs_def] publish_member_def [abs_def] session_blind by (rule refl)+

lemma groups_blind [session_blind]:
  "apply_view path view (Some (in_session x ctx)) cause e = apply_view path view (Some ctx) cause e"
  "publish_members (in_session x ctx) sid requests operation bulk views l n r e =
     publish_members ctx sid requests operation bulk views l n r e"
  "supersede_records (in_session x ctx) flds old new e = supersede_records ctx flds old new e"
  unfolding apply_view_def publish_members_def supersede_records_def session_blind by (rule refl)+

section \<open>The operations\<close>

lemmas authority_blind = authority_check_blind path_caller_blind

lemma admit_blind:
  assumes "has_caller_identity ctx" and "id_valid x"
  shows "admit (in_session x ctx) sid operation flds e = admit ctx sid operation flds e"
  unfolding admit_def authority_check_blind [OF assms] session_blind by (rule refl)

lemma set_operations_blind:
  assumes "has_caller_identity ctx" and "id_valid x"
  shows
    "create_set (in_session x ctx) key options e = create_set ctx key options e"
    "publish_set (in_session x ctx) sid e = publish_set ctx sid e"
    "set_minimum_usable_members (in_session x ctx) sid n e = set_minimum_usable_members ctx sid n e"
    "set_conditional_authority_policy (in_session x ctx) sid b e = set_conditional_authority_policy ctx sid b e"
    "set_admin_enabled (in_session x ctx) sid b e = set_admin_enabled ctx sid b e"
    "withdraw_set (in_session x ctx) sid reason e = withdraw_set ctx sid reason e"
    "complete_withdrawal (in_session x ctx) sid e = complete_withdrawal ctx sid e"
    "revoke_set (in_session x ctx) sid why reason e = revoke_set ctx sid why reason e"
    "retire_set (in_session x ctx) sid reason e = retire_set ctx sid reason e"
    "supersede_set (in_session x ctx) sid sid' e = supersede_set ctx sid sid' e"
    "declare_path_authority (in_session x ctx) view e = declare_path_authority ctx view e"
    "apply_path_authority (in_session x ctx) view e = apply_path_authority ctx view e"
    "remove_member (in_session x ctx) sid mid reason e = remove_member ctx sid mid reason e"
    "withdraw_member (in_session x ctx) sid mid reason e = withdraw_member ctx sid mid reason e"
  unfolding create_set_def publish_set_def set_minimum_usable_members_def set_conditional_authority_policy_def
    set_admin_enabled_def withdraw_set_def complete_withdrawal_def revoke_set_def retire_set_def supersede_set_def
    declare_path_authority_def apply_path_authority_def remove_member_def withdraw_member_def
    authority_check_blind [OF assms] path_caller_blind [OF assms] admit_blind [OF assms] session_blind by (rule refl)+

lemma locked_operations_blind:
  assumes "has_caller_identity ctx" and "id_valid x"
  shows
    "add_members_locked (in_session x ctx) sid requests operation bulk views e = add_members_locked ctx sid requests operation bulk views e"
    "replace_member_locked (in_session x ctx) sid mid path g reason v e = replace_member_locked ctx sid mid path g reason v e"
    "set_member_admin_enabled_locked (in_session x ctx) sid mid b v e = set_member_admin_enabled_locked ctx sid mid b v e"
    "revalidate_set_locked (in_session x ctx) sid tbl e = revalidate_set_locked ctx sid tbl e"
    "revalidate_member_locked (in_session x ctx) sid mid v e = revalidate_member_locked ctx sid mid v e"
  unfolding add_members_locked_def replace_member_locked_def set_member_admin_enabled_locked_def
    revalidate_set_locked_def revalidate_member_locked_def
    authority_check_blind [OF assms] path_caller_blind [OF assms] admit_blind [OF assms] session_blind by (rule refl)+

lemma member_operations_blind:
  assumes "has_caller_identity ctx" and "id_valid x"
  shows
    "add_members_internal before after (in_session x ctx) sid requests operation bulk e = add_members_internal before after ctx sid requests operation bulk e"
    "replace_member before (in_session x ctx) sid mid path g reason e = replace_member before ctx sid mid path g reason e"
    "set_member_admin_enabled before (in_session x ctx) sid mid b e = set_member_admin_enabled before ctx sid mid b e"
    "revalidate_set before after (in_session x ctx) sid e = revalidate_set before after ctx sid e"
    "revalidate_member before after (in_session x ctx) sid mid e = revalidate_member before after ctx sid mid e"
    "refresh_path before (in_session x ctx) path e = refresh_path before ctx path e"
  unfolding add_members_internal_def replace_member_def set_member_admin_enabled_def revalidate_set_def
    revalidate_member_def refresh_path_def
    authority_check_blind [OF assms] path_caller_blind [OF assms] admit_blind [OF assms] session_blind
    set_operations_blind [OF assms] locked_operations_blind [OF assms] by (rule refl)+

lemma admissions_blind:
  assumes "has_caller_identity ctx" and "id_valid x"
  shows
    "add_member before after (in_session x ctx) sid path g e = add_member before after ctx sid path g e"
    "add_members before after (in_session x ctx) sid requests e = add_members before after ctx sid requests e"
  unfolding add_member_def add_members_def
    authority_check_blind [OF assms] path_caller_blind [OF assms] admit_blind [OF assms] session_blind
    member_operations_blind [OF assms] by (rule refl)+

lemmas operations_blind = set_operations_blind member_operations_blind admissions_blind

lemma dispatch_mutation_blind:
  assumes "has_caller_identity (wq_context q)" and "id_valid x" and "wq_id q \<noteq> MI_EPOCH_ADVANCE"
  shows "dispatch_mutation before after (q\<lparr>wq_context := in_session x (wq_context q)\<rparr>) e = dispatch_mutation before after q e"
  using assms(3)
  by (cases "wq_id q") (simp_all add: dispatch_mutation_def Let_def operations_blind [OF assms(1,2)] requested_view_def
      split: option.split set_state_action.split)

text \<open>
  A request for a set, a member or a path has the same effect and the same answer on every session that
  stamps its own identity into it.
\<close>

definition on_session :: "path_views \<Rightarrow> path_views \<Rightarrow> session \<Rightarrow> wire_request \<Rightarrow> engine \<Rightarrow> answer" where
  "on_session before after s q e =
     (case dispatch before after s (q\<lparr>wq_context := in_session (sn_id s) (wq_context q)\<rparr>) e of
        (_, s', e') \<Rightarrow> (wr_outcome (sn_response s'), e'))"

lemma on_session_eq:
  assumes "has_caller_identity (wq_context q)" and "id_valid (sn_id s)" and "requires_session (wq_id q)"
    and "wq_id q \<notin> {MI_REGISTER_PUBLISHER, MI_EPOCH_ADVANCE}"
  shows "on_session before after s q e = dispatch_mutation before after q e"
proof -
  have "\<not> is_query (wq_id q)" "wq_id q \<noteq> MI_SHUTDOWN" using assms(3) by (auto simp: is_query_def requires_session_def)
  then show ?thesis
    using assms dispatch_mutation_blind [OF assms(1,2), of before after e]
    by (simp add: on_session_def dispatch_def Let_def case_prod_unfold) (simp add: in_session_def)
qed

end
