(* ===== verification/Remote_Calls.thy ===== *)
theory Remote_Calls
  imports Client Session_Authority Frame_Facts
begin

text \<open>
  Client and coordinator together: over a connection that delivers what is sent, a call of the client is
  the dispatch of its request. The exception is the supersession of a set, which cannot be requested:
  the client puts the successor into one field of the request and the encoder sends another.
\<close>

section \<open>A connection that delivers\<close>

definition delivering :: "u8 list \<Rightarrow> peer" where
  "delivering bytes =
     \<lparr>pe_header = (make_outcome OC_OK [], 24, take 24 bytes),
      pe_payload = (\<lambda>n. (make_outcome OC_OK [], take n (drop 24 bytes))),
      pe_send = (\<lambda>_. make_outcome OC_OK [])\<rparr>"

definition connection :: "path_views \<Rightarrow> path_views \<Rightarrow> session \<Rightarrow> coordinator \<Rightarrow> link" where
  "connection before after s c frame = delivering (concat (hd_sent (handle_frame (delivering frame) before after s c)))"

definition frame_fits :: "u8 list \<Rightarrow> nat \<Rightarrow> bool" where
  "frame_fits payload m \<longleftrightarrow> length payload \<le> frame_bound m"

lemma delivered_frame:
  assumes "encode_frame i payload m = Inr frame" and "frame_fits payload m'"
  shows "drop 24 frame = payload" "decode_header (take 24 frame) m' = Inr (i, of_nat (length payload))"
    "succeeded (verify_integrity (take 24 frame) payload)"
    "unat (of_nat (length payload) :: u32) = length payload"
proof -
  have n: "length payload < 2 ^ 32" using assms(2) frame_bound_le [of m'] by (simp add: frame_fits_def)
  note a = frame_accepted_iff [OF n, THEN iffD1, OF assms(1)]
  show u: "unat (of_nat (length payload) :: u32) = length payload"
    using n by (simp add: unsigned_of_nat take_bit_nat_eq_self)
  show "drop 24 frame = payload" "succeeded (verify_integrity (take 24 frame) payload)" using a by simp_all
  show "decode_header (take 24 frame) m' = Inr (i, of_nat (length payload))"
    using a assms(2) u by (simp add: decode_header_iff frame_fits_def)
qed

lemma handle_delivered:
  assumes "encode_frame i payload m = Inr frame" and "frame_fits payload (max_frame_bytes (co_limits c))"
  shows "handle_frame (delivering frame) before after s c =
     handle_payload (delivering frame) before after i payload s (frame_received c)"
  using delivered_frame [OF assms]
  by (cases "payload = []") (simp_all add: handle_frame_def delivering_def, simp_all add: succeeded_def outcome_is_success_def)

lemma answer_delivered:
  assumes "encode_frame i payload m = Inr frame" and "frame_fits payload (cl_max_frame_bytes cl)"
    and "decode_response (new_reader payload) = Inr (response, r)" and "rd_at_end r"
  shows "read_answer (delivering frame) cl = (Inr response, frame_arrived cl)"
  using delivered_frame [OF assms(1,2)] assms(3,4)
  by (cases "payload = []")
    (simp_all add: read_answer_def receive_header_def receive_payload_def delivering_def Let_def,
     simp_all add: succeeded_def outcome_is_success_def)

section \<open>A call is a dispatch\<close>

lemma remote_request:
  assumes q: "sendable_request q" "wq_id q \<noteq> MI_HELLO"
    and bs: "encode_request q = Inr bs" "encode_frame (wq_id q) bs m = Inr frame" "frame_fits bs (max_frame_bytes (co_limits c))"
  shows "handle_frame (delivering frame) before after s c =
     answer_request (delivering frame) before after (wq_id q) (sent_request q) s (frame_received c)"
proof -
  obtain r where r: "decode_request (wq_id q) (new_reader bs) = Inr (sent_request q, r)" "rd_at_end r"
    using decode_encode_request [OF q(1) bs(1)] by blast
  then show ?thesis unfolding handle_delivered [OF bs(2,3)] using q(2) by (simp add: handle_payload_def)
qed

lemma answered_request:
  fixes peer :: peer and i :: message_id
  assumes d: "dispatch before after s q (co_engine c) = (result, s', e')"
  defines "h \<equiv> answer_request peer before after i q s c"
  shows "hd_session h = s'" "hd_coordinator h = c\<lparr>co_engine := e'\<rparr>"
    "hd_committed h \<longleftrightarrow> succeeded (wr_outcome (sn_response s'))"
    "hd_continue h \<longleftrightarrow> succeeded (fst (send_frame peer MI_RESULT (sn_response s') (c\<lparr>co_engine := e'\<rparr>))) \<and> i \<noteq> MI_SHUTDOWN"
    "hd_sent h = snd (send_frame peer MI_RESULT (sn_response s') (c\<lparr>co_engine := e'\<rparr>))"
proof -
  have "succeeded result" using d by (auto simp: dispatch_def Let_def succeeded_def outcome_is_success_def)
  then show "hd_session h = s'" "hd_coordinator h = c\<lparr>co_engine := e'\<rparr>"
    "hd_committed h \<longleftrightarrow> succeeded (wr_outcome (sn_response s'))"
    "hd_continue h \<longleftrightarrow> succeeded (fst (send_frame peer MI_RESULT (sn_response s') (c\<lparr>co_engine := e'\<rparr>))) \<and> i \<noteq> MI_SHUTDOWN"
    "hd_sent h = snd (send_frame peer MI_RESULT (sn_response s') (c\<lparr>co_engine := e'\<rparr>))"
    using d by (simp_all add: h_def answer_request_def Let_def case_prod_unfold)
qed

lemma counted_simps [simp]: "co_engine (frame_received c) = co_engine c" "co_limits (frame_received c) = co_limits c"
  by (simp_all add: counters)

lemma remote_dispatch:
  assumes q: "sendable_request q" "wq_id q \<noteq> MI_HELLO"
    and bs: "encode_request q = Inr bs" "encode_frame (wq_id q) bs m = Inr frame" "frame_fits bs (max_frame_bytes (co_limits c))"
    and d: "dispatch before after s (sent_request q) (co_engine c) = (result, s', e')"
    and rb: "encode_response (sn_response s') = Inr rb" "frame_fits rb (max_frame_bytes (co_limits c))"
  obtains reply where "hd_sent (handle_frame (delivering frame) before after s c) = [reply]"
    and "encode_frame MI_RESULT rb (max_frame_bytes (co_limits c)) = Inr reply"
proof -
  have d': "dispatch before after s (sent_request q) (co_engine (frame_received c)) = (result, s', e')" using d by simp
  obtain reply where reply: "encode_frame MI_RESULT rb (max_frame_bytes (co_limits c)) = Inr reply"
    using rb(2) by (simp add: encode_frame_eq frame_fits_def Let_def)
  have "send_frame (delivering frame) MI_RESULT (sn_response s') (frame_received c\<lparr>co_engine := e'\<rparr>) =
      (make_outcome OC_OK [], [reply])"
    using rb(1) reply by (simp add: send_frame_def outgoing_frame_def send_bytes_def delivering_def)
  then show thesis using that reply answered_request(5) [OF d'] by (simp add: remote_request [OF q bs])
qed

lemma remote_call:
  assumes cl: "cl_connected cl" and q: "sendable_request q" "wq_id q \<noteq> MI_HELLO"
    and bs: "encode_request q = Inr bs" "frame_fits bs (cl_max_frame_bytes cl)" "frame_fits bs (max_frame_bytes (co_limits c))"
    and d: "dispatch before after s (sent_request q) (co_engine c) = (result, s', e')"
    and rb: "sendable_response (sn_response s')" "encode_response (sn_response s') = Inr rb"
      "frame_fits rb (max_frame_bytes (co_limits c))" "frame_fits rb (cl_max_frame_bytes cl)"
  shows "call (connection before after s c) q cl = (Inr (sn_response s'), frame_arrived (frame_sent cl))"
proof -
  obtain frame where f: "encode_frame (wq_id q) bs (cl_max_frame_bytes cl) = Inr frame"
    using bs(2) by (simp add: encode_frame_eq frame_fits_def Let_def)
  obtain reply where sent: "hd_sent (handle_frame (delivering frame) before after s c) = [reply]"
    and reply: "encode_frame MI_RESULT rb (max_frame_bytes (co_limits c)) = Inr reply"
    by (rule remote_dispatch [OF q bs(1) f bs(3) d rb(2,3)])
  obtain r where r: "decode_response (new_reader rb) = Inr (sn_response s', r)" "rd_at_end r"
    using decode_encode_response [OF rb(1,2)] by blast
  have "read_answer (delivering reply) (frame_sent cl) = (Inr (sn_response s'), frame_arrived (frame_sent cl))"
    by (rule answer_delivered [OF reply _ r]) (use rb(4) in \<open>simp add: frame_sent_def\<close>)
  moreover have "connection before after s c frame = delivering reply" by (simp add: connection_def sent)
  ultimately show ?thesis
    using cl bs(1) f by (simp add: call_def exchange_def) (simp add: delivering_def succeeded_def outcome_is_success_def)
qed

section \<open>A supersession cannot be requested\<close>

text \<open>The fields of a supersession as they are read, before the identities are parsed.\<close>

definition supersede_fields :: "(fabric_outcome, mutation_context \<times> string \<times> string) decoder" where
  "supersede_fields =
     dc_then (dc_as (wire_malformed ''supersede request context is truncated or malformed'') read_context) (\<lambda>context.
     dc_then (dc_field (wire_malformed ''supersede request is truncated'') rd_id) (\<lambda>predecessor.
     dc_then (dc_field (wire_malformed ''supersede request is truncated'') rd_id) (\<lambda>successor.
     dc_return (context, predecessor, successor))))"

lemma read_supersede_fields:
  assumes "supersede_fields r = Inr ((context, predecessor, successor), r')" and "parse_set_id successor = None"
  shows "read_supersede_set d r = Inl (wire_malformed ''supersede request carries an invalid set identity'')"
  using assms
  by (auto simp: supersede_fields_def read_supersede_set_def dc_then_def dc_return_def dc_some_def dc_reject_def Let_def
      split: sum.splits option.splits)

lemma supersede_rejected:
  assumes ctx: "sendable_context ctx" and bs: "encode_request (supersede_request ctx predecessor successor) = Inr bs"
  shows "decode_request MI_SUPERSEDE_SET (new_reader bs) =
     Inl (wire_malformed ''supersede request carries an invalid set identity'')"
proof -
  let ?fs = "[write_context ctx, bw_id predecessor, bw_id (invalid_id :: path_id)]"
  have c: "carries (bw_all ?fs) supersede_fields (ctx, id_text predecessor, id_text (invalid_id :: path_id))"
    unfolding supersede_fields_def
    by (intro carries_nested [OF carries_context_block [OF ctx]] carries_intros) simp_all
  have w: "bw_ok (bw_all ?fs (new_writer (2 ^ 20)))" and b: "bs = bw_buffer (bw_all ?fs (new_writer (2 ^ 20)))"
    using bs by (auto simp: encode_request_def request_steps_def supersede_request_def empty_request_def bw_overflowed_def
        Let_def split: if_splits)
  obtain bs' where "bw_buffer (bw_all ?fs (new_writer (2 ^ 20))) = bw_buffer (new_writer (2 ^ 20)) @ bs'"
    and "decodes supersede_fields bs' (ctx, id_text predecessor, id_text (invalid_id :: path_id))" by (rule carriesE [OF c w])
  then have "decodes supersede_fields bs (ctx, id_text predecessor, id_text (invalid_id :: path_id))"
    using b by (simp add: new_writer_def)
  from decodesD [OF this, of "new_reader bs" "[]"] reads_new [of bs]
  obtain r' where "supersede_fields (new_reader bs) = Inr ((ctx, id_text predecessor, id_text (invalid_id :: path_id)), r')"
    by auto
  moreover have "parse_set_id (id_text (invalid_id :: path_id)) = None" by code_simp
  ultimately show ?thesis by (simp add: decode_request_def Let_def read_supersede_fields)
qed

lemma supersede_ends_session:
  fixes s :: session and before after :: path_views
  assumes "sendable_context ctx" and bs: "encode_request (supersede_request ctx predecessor successor) = Inr bs"
    and f: "encode_frame MI_SUPERSEDE_SET bs m = Inr frame" "frame_fits bs (max_frame_bytes (co_limits c))"
  defines "h \<equiv> handle_frame (delivering frame) before after s c"
  shows "\<not> hd_continue h" "co_engine (hd_coordinator h) = co_engine c"
    "wr_outcome (sn_response (hd_session h)) = wire_malformed ''supersede request carries an invalid set identity''"
    "sn_has_registration s \<Longrightarrow> co_engine (snd (end_session (hd_session h) ''SESSION_LOST'' (hd_coordinator h))) =
       snd (fence_worker (sn_publisher s) (sn_worker_boot s) ''SESSION_LOST'' (co_engine c))"
  unfolding h_def handle_delivered [OF f]
  using supersede_rejected [OF assms(1) bs]
  by (simp_all add: handle_payload_def answer_error_def Let_def counters end_session_def)

end
