(* ===== verification/Worked_Remote.thy ===== *)
theory Worked_Remote
  imports Worked_Wire Remote_Calls
begin

text \<open>
  A concrete history of the coordinator: it starts over the engine of the worked example, accepts a
  connection, and the client on it registers its worker. A second client lists the sets.
\<close>

section \<open>A registration\<close>

definition ex_conn :: session_id where "ex_conn = StrongId ''sess-sess-b2-1''"

definition ex_co_start :: coordinator where
  "ex_co_start = coordinator_init default_limits ''b2'' ex_start"

definition ex_co_connected :: coordinator where
  "ex_co_connected = accept_connection True ex_co_start"

definition ex_register :: wire_request where
  "ex_register = (empty_request MI_REGISTER_PUBLISHER)
     \<lparr>wq_context := empty_context\<lparr>cx_publisher := ex_publisher, cx_worker_boot := ex_boot, cx_session := ex_conn\<rparr>,
      wq_scope := ex_scope\<rparr>"

definition no_views :: path_views where
  "no_views = (\<lambda>_. None)"

lemma ex_session_factory: "factory_ok \<lparr>f_prefix = ''sess'', f_nonce = ''b2'', f_counter = n\<rparr>"
  by (simp add: factory_ok_def hex_char_def)

lemma ex_start_ok: "engine_ok ex_start"
  using fabric.reach_inv [OF ex_start_reach] .

lemma ex_co_start_start: "co_start ex_co_start"
  unfolding co_start_def ex_co_start_def using ex_start_ok ex_session_factory by (intro exI [of _ "''b2''"] exI conjI) simp_all

lemma u64_string_1: "u64_string 1 = ''1''"
  by code_simp

lemma ex_co_connected_fields:
  "co_engine ex_co_connected = ex_start" "co_limits ex_co_connected = default_limits"
  "co_sessions ex_co_connected = om_put ex_conn (new_session ex_conn) om_empty"
  using next_session_id_eq [OF ex_session_factory [of 0]]
  by (simp_all add: ex_co_connected_def ex_co_start_def coordinator_init_def accept_connection_def default_limits_def
      counters count_up_def factory_compose_def u64_string_1 ex_conn_def new_session_def)

lemma ex_conn_live: "live_session ex_co_connected ex_conn (new_session ex_conn)"
  by (simp add: live_session_def ex_co_connected_fields new_session_def)

lemma ex_co_room: "counter_room 100000 (co_engine ex_co_connected)"
  by (simp add: counter_room_def ex_co_connected_fields unat_u64_max)

lemma ex_co_connected_reach: "coord.reach ex_co_connected"
  unfolding ex_co_connected_def
  by (rule coord.reach_step [OF coord.reach_start [OF ex_co_start_start] co_accept])
    (simp add: ex_co_start_def coordinator_init_def)

lemma ex_conn_known: "known_id 64 ex_conn" "known_id 64 (sc_fabric ex_scope)" "known_id 64 (sc_name_space ex_scope)"
  by (code_simp)+

lemma ex_register_sendable: "sendable_request ex_register" "wq_id ex_register = MI_REGISTER_PUBLISHER"
  "sent_request ex_register = ex_register"
  using ex_known ex_conn_known
  by (simp_all add: ex_register_def sendable_request_def sendable_scope_def lenient_id_def sent_request_def empty_request_def
      empty_context_def) (simp_all add: ex_scope_def)

lemma ex_register_encoded: "\<exists>bs. encode_request ex_register = Inr bs \<and> frame_fits bs (2 ^ 20)"
proof -
  have scope: "needs (write_scope ex_scope) 100"
    unfolding write_scope_def ex_scope_def authority_scope.select_convs narrow_u32_def
    by (simp add: narrow_u32_def) (intro needs_intros, simp_all add: written_id_def id_valid_def max_id_length_def)
  let ?fs = "[bw_id_text (written_id ex_publisher), bw_id_text (written_id ex_boot), bw_id_text (written_id ex_conn),
      write_scope ex_scope]"
  have "needs (bw_all ?fs) 300"
    by (intro needs_intros needs_step [OF scope]) (simp_all add: written_id_def id_valid_def ex_conn_def max_id_length_def)
  from needsD [OF this, of "2 ^ 20"] show ?thesis
    by (simp add: encode_request_def request_steps_def ex_register_def empty_request_def empty_context_def Let_def
        bw_overflowed_def frame_fits_def frame_bound_def max_frame_hard_bound_def)
qed

definition ex_co_registration :: publisher_registration where
  "ex_co_registration = ex_registration\<lparr>pr_session := ex_conn\<rparr>"

definition ex_worker_engine :: engine where
  "ex_worker_engine = snd (register_publisher ex_publisher ex_boot ex_scope ex_conn ex_start)"

lemma ex_worker_registered:
  "succeeded (fst (register_publisher ex_publisher ex_boot ex_scope ex_conn ex_start))"
  "ex_worker_engine = ex_start\<lparr>e_authority_generation := Generation 2,
     e_registrations := om_put (ex_publisher, ex_boot) ex_co_registration om_empty\<rparr>"
  by (simp_all add: ex_worker_engine_def ex_start_def engine_init_def register_publisher_def register_request_check_def
      admit_registration_def drop_session_registrations_def Let_def ex_party_defs ex_config_def id_valid_def
      scope_well_formed_def default_limits_def gen_next_first ex_registration_def ex_co_registration_def om_filter_empty
      ex_conn_def succeeded_def outcome_is_success_def)

definition ex_worker_session :: session where
  "ex_worker_session = fst (snd (dispatch no_views no_views (new_session ex_conn) ex_register ex_start))"

lemma ex_register_dispatched:
  "dispatch no_views no_views (new_session ex_conn) ex_register ex_start =
     (make_outcome OC_OK [], ex_worker_session, ex_worker_engine)"
  "session_claims ex_worker_session (ex_publisher, ex_boot)" "sn_id ex_worker_session = ex_conn"
  using ex_worker_registered(1)
  by (simp_all add: ex_worker_session_def dispatch_def ex_register_sendable(2) register_session_def Let_def case_prod_unfold
      ex_worker_engine_def session_claims_def)
    (simp_all add: ex_register_def empty_request_def new_session_def)

definition ex_register_frame :: "u8 list" where
  "ex_register_frame = (case encode_request ex_register of
     Inr bs \<Rightarrow> (case encode_frame MI_REGISTER_PUBLISHER bs (2 ^ 20) of Inr frame \<Rightarrow> frame | Inl _ \<Rightarrow> []) | Inl _ \<Rightarrow> [])"

definition ex_register_event :: coordinator_event where
  "ex_register_event = Co_frame ex_conn (delivering ex_register_frame) no_views no_views"

definition ex_co_registered :: coordinator where
  "ex_co_registered =
     (let h = handle_frame (delivering ex_register_frame) no_views no_views (new_session ex_conn) ex_co_connected
      in store_session (hd_session h) (hd_coordinator h))"

lemma ex_co_registered_step: "co_step ex_co_connected ex_register_event ex_co_registered"
  unfolding ex_register_event_def ex_co_registered_def Let_def
  by (rule co_frame [OF ex_conn_live ex_co_room]) (rule refl)

lemma ex_co_registered_reach: "coord.reach ex_co_registered"
  by (rule coord.reach_step [OF ex_co_connected_reach ex_co_registered_step])

lemma default_frame_bytes [simp]: "max_frame_bytes default_limits = 2 ^ 20"
  by (simp add: default_limits_def)

lemma ex_co_registered_engine: "co_engine ex_co_registered = ex_worker_engine"
proof -
  obtain bs where bs: "encode_request ex_register = Inr bs" "frame_fits bs (2 ^ 20)" using ex_register_encoded by blast
  then obtain frame where f: "encode_frame (wq_id ex_register) bs (2 ^ 20) = Inr frame"
    by (simp add: encode_frame_eq frame_fits_def Let_def)
  have "ex_register_frame = frame" using bs f by (simp add: ex_register_frame_def ex_register_sendable(2))
  moreover have "frame_fits bs (max_frame_bytes (co_limits ex_co_connected))" using bs(2) by (simp add: ex_co_connected_fields)
  ultimately show ?thesis
    using remote_request [OF ex_register_sendable(1) _ bs(1) f] answered_request(2) ex_register_dispatched(1)
    by (simp add: ex_co_registered_def Let_def store_session_def ex_register_sendable ex_co_connected_fields)
qed

lemma ex_co_registered_holds:
  "om_find (e_registrations (co_engine ex_co_registered)) (ex_publisher, ex_boot) = Some ex_co_registration"
  "gen_next (e_authority_generation (co_engine ex_co_registered)) \<noteq> None" "pr_session ex_co_registration = ex_conn"
  by (simp_all add: ex_co_registered_engine ex_worker_registered(2) gen_next_eq ex_co_registration_def)

lemma ex_co_registered_session: "\<exists>s. live_session ex_co_registered ex_conn s \<and> session_claims s (ex_publisher, ex_boot)"
  using coord.reach_inv [OF ex_co_registered_reach] ex_co_registered_holds registrations_heldD by (metis co_ok_def)

section \<open>A listing\<close>

definition ex_client :: client where
  "ex_client = (new_client (2 ^ 20))\<lparr>cl_connected := True, cl_session := ex_conn\<rparr>"

lemma ex_no_sets: "list_sets ex_start = []"
  by (simp add: list_sets_def om_keys_def)

definition ex_listing :: wire_response where
  "ex_listing = \<lparr>wr_outcome = make_outcome OC_OK (msg (''listed '' @ nat_string (length (list_sets ex_start)) @ '' set(s)'')), wr_snapshot = None,
     wr_explanation = None, wr_set_ids = []\<rparr>"

lemma ex_list_dispatched:
  "dispatch no_views no_views (new_session ex_conn) (empty_request MI_LIST_SETS) (co_engine ex_co_connected) =
     (make_outcome OC_OK [], (new_session ex_conn)\<lparr>sn_response := ex_listing\<rparr>, ex_start)"
  by (simp add: dispatch_def requires_session_def is_query_def dispatch_query_def ex_no_sets ex_co_connected_fields
      new_session_def ex_listing_def Let_def)

lemma ex_listing_detail: "length (o_detail (wr_outcome ex_listing)) = 15"
proof -
  have "o_detail (wr_outcome ex_listing) = ''listed '' @ nat_string 0 @ '' set(s)''"
    unfolding ex_listing_def wire_response.select_convs ex_no_sets msg_def by (simp add: make_outcome_def)
  moreover have "length (nat_string 0) = 1" by code_simp
  ultimately show ?thesis by simp
qed

lemma ex_listing_sendable: "sendable_response ex_listing"
  by (simp add: ex_listing_def sendable_response_def typed_response_def sendable_outcome_def make_outcome_def)

lemma ex_listing_encoded: "\<exists>bs. encode_response ex_listing = Inr bs \<and> frame_fits bs (2 ^ 20)"
proof -
  let ?o = "wr_outcome ex_listing"
  have none: "o_set_id ?o = None" "o_member_id ?o = None" "o_path_id ?o = None" "o_set_generation ?o = None"
    "o_membership_generation ?o = None" "o_member_generation ?o = None" "o_authority_generation ?o = None"
    "o_lifecycle ?o = None" "o_currentness ?o = None" "o_usable_members ?o = None"
    "o_minimum_usable_members ?o = None" "o_digest ?o = None" "wr_snapshot ex_listing = None"
    "wr_explanation ex_listing = None" "wr_set_ids ex_listing = []"
    by (simp_all add: ex_listing_def make_outcome_def)
  have head: "needs (write_outcome ?o) 60"
    unfolding write_outcome_def none
    by (intro needs_intros needs_step [OF needs_absent]) (simp_all add: max_detail_length_def ex_listing_detail)
  have tail: "needs (bw_all [bw_boolean False, bw_boolean False, bw_u32 0, bw_each bw_id ([] :: set_id list)]) 100"
    by (intro needs_intros) simp_all
  have "needs (bw_all [write_outcome ?o, bw_all [bw_boolean False, bw_boolean False, bw_u32 0, bw_each bw_id ([] :: set_id list)]]) 200"
    by (intro needs_step [OF head] needs_step [OF tail] needs_intros) simp_all
  from needsD [OF this, of "2 ^ 20"] needsD(1) [OF head, of "2 ^ 20"] show ?thesis
    by (simp add: encode_response_def none encode_outcome_def checked_writer_def wr_part_def encode_present_def
        bw_overflowed_def bw_all_cons bw_all_nil Let_def narrow_u32_def succeeded_def outcome_is_success_def
        frame_fits_def frame_bound_def max_frame_hard_bound_def)
qed

lemma ex_list_encoded: "encode_request (empty_request MI_LIST_SETS) = Inr []" "sendable_request (empty_request MI_LIST_SETS)"
  "sent_request (empty_request MI_LIST_SETS) = empty_request MI_LIST_SETS"
  by (simp_all add: encode_request_def request_steps_def bw_all_nil new_writer_def bw_overflowed_def Let_def
      sendable_request_def sent_request_def)

section \<open>A supersession\<close>

lemma ex_context_sendable: "sendable_context (ex_ctx ''a-2'')"
  using ex_known ex_wire_known by (simp add: sendable_context_def ex_ctx_def gen_valid_def gen_first_def)

lemma ex_supersede_encoded:
  "\<exists>bs. encode_request (supersede_request (ex_ctx ''a-2'') ex_sid ex_sid) = Inr bs \<and> frame_fits bs (2 ^ 20)"
proof -
  have "needs (bw_all [write_context (ex_ctx ''a-2''), bw_id ex_sid, bw_id (invalid_id :: path_id)]) 300"
    by (intro needs_intros needs_step [OF ex_context_needs]) (simp_all add: invalid_id_def max_id_length_def)
  from needsD [OF this, of "2 ^ 20"] show ?thesis
    by (simp add: encode_request_def request_steps_def supersede_request_def empty_request_def Let_def bw_overflowed_def
        frame_fits_def frame_bound_def max_frame_hard_bound_def)
qed

end
