(* ===== verification/Socket_Loops.thy ===== *)
theory Socket_Loops
  imports Outcome
begin

text \<open>
  The operations of \<open>src/socket.cpp\<close>: its blocking loops -- waiting for a readable socket, receiving exactly so many bytes,
  sending all bytes -- and the choice of an address to listen on or connect to. What the operating system answers is an input, a function of the round: the stop
  flag and \<open>select\<close> for each slice of a wait, \<open>recv\<close> or \<open>send\<close> and the readings of the steady clock
  for each pass of the outer loop, in nanoseconds. The loops need not end; not returning is \<open>None\<close>.
\<close>

section \<open>Waiting\<close>

text \<open>A round of a wait: the stop flag is set, or \<open>select\<close> is positive, negative or zero.\<close>

datatype poll_event = Stopping | Ready | Poll_failed | Quiet

text \<open>The POSIX branch; on Windows the text ends with the number of the error.\<close>

definition last_error :: "string \<Rightarrow> fabric_outcome" where
  "last_error call = make_rejection OC_PROTOCOL_ERROR (msg (call @ '' failed''))"

definition poll_slice :: "u32 \<Rightarrow> u32" where
  "poll_slice timeout_ms = (if timeout_ms = 0 then 1 else if timeout_ms > 100 then 100 else timeout_ms)"

partial_function (option) wait_rounds :: "(nat \<Rightarrow> poll_event) \<Rightarrow> u32 \<Rightarrow> nat \<Rightarrow> u32 \<Rightarrow> (fabric_outcome \<times> bool) option" where
  "wait_rounds polls timeout_ms n waited =
     (case polls n of
        Stopping \<Rightarrow> Some (make_rejection OC_PROTOCOL_ERROR (msg ''session is stopping''), False)
      | Ready \<Rightarrow> Some (make_outcome OC_OK [], True)
      | Poll_failed \<Rightarrow> Some (last_error ''select'', False)
      | Quiet \<Rightarrow>
          if timeout_ms \<noteq> 0 \<and> waited + poll_slice timeout_ms \<ge> timeout_ms
          then Some (make_outcome OC_OK [], False)
          else wait_rounds polls timeout_ms (Suc n) (waited + poll_slice timeout_ms))"

definition socket_wait_readable :: "bool \<Rightarrow> (nat \<Rightarrow> poll_event) \<Rightarrow> u32 \<Rightarrow> (fabric_outcome \<times> bool) option" where
  "socket_wait_readable open_socket polls timeout_ms =
     (if \<not> open_socket then Some (make_rejection OC_PROTOCOL_ERROR (msg ''socket is closed''), False)
      else wait_rounds polls timeout_ms 0 0)"

section \<open>Receiving\<close>

text \<open>
  A pass of the receive loop: the wait, what \<open>recv\<close> gives (an error, or bytes, none when the peer closed),
  the clock when a frame starts and the clock when the budget is checked.
\<close>

record receive_round =
  rr_polls :: "nat \<Rightarrow> poll_event"
  rr_recv :: "u8 list option"
  rr_start :: nat
  rr_clock :: nat

definition millis :: "u32 \<Rightarrow> nat" where
  "millis ms = unat ms * 1000000"

definition over_budget :: "u32 \<Rightarrow> nat \<Rightarrow> nat \<Rightarrow> bool" where
  "over_budget frame_timeout_ms start now \<longleftrightarrow> frame_timeout_ms \<noteq> 0 \<and> now - start > millis frame_timeout_ms"

definition of_bytes :: "nat \<Rightarrow> nat \<Rightarrow> string" where
  "of_bytes received wanted = nat_string received @ '' of '' @ nat_string wanted"

definition stalled :: "nat \<Rightarrow> nat \<Rightarrow> fabric_outcome" where
  "stalled received wanted =
     make_rejection OC_SESSION_TIMEOUT (msg (''peer stalled after '' @ of_bytes received wanted @ '' frame bytes''))"

definition interrupted :: "nat \<Rightarrow> nat \<Rightarrow> fabric_outcome" where
  "interrupted received wanted =
     make_rejection OC_SESSION_TIMEOUT (msg (''peer sent only '' @ of_bytes received wanted @
       '' frame bytes before the frame budget expired''))"

definition exceeded :: "u32 \<Rightarrow> nat \<Rightarrow> nat \<Rightarrow> fabric_outcome" where
  "exceeded frame_timeout_ms received wanted =
     make_rejection OC_SESSION_TIMEOUT (msg (''frame receive exceeded the budget of '' @
       nat_string (unat frame_timeout_ms) @ '' ms after '' @ of_bytes received wanted @ '' bytes''))"

definition peer_closed :: "nat \<Rightarrow> nat \<Rightarrow> fabric_outcome" where
  "peer_closed received wanted =
     make_rejection OC_PROTOCOL_ERROR (msg (''peer closed the connection after '' @ of_bytes received wanted @
       '' frame bytes''))"

text \<open>\<open>recv\<close> is asked for the missing bytes and delivers no more.\<close>

partial_function (option) receive_rounds ::
  "bool \<Rightarrow> (nat \<Rightarrow> receive_round) \<Rightarrow> nat \<Rightarrow> u32 \<Rightarrow> u32 \<Rightarrow> nat \<Rightarrow> u8 list \<Rightarrow> nat option \<Rightarrow> (fabric_outcome \<times> u8 list) option" where
  "receive_rounds open_socket rounds wanted poll_ms frame_ms n buffer started =
     (if \<not> length buffer < wanted then Some (make_outcome OC_OK [], buffer)
      else case socket_wait_readable open_socket (rr_polls (rounds n)) poll_ms of
        None \<Rightarrow> None
      | Some (wait, readable) \<Rightarrow>
          if \<not> succeeded wait
          then Some (if length buffer > 0 \<or> started \<noteq> None then interrupted (length buffer) wanted else wait, buffer)
          else if \<not> readable
          then if (case started of None \<Rightarrow> False | Some start \<Rightarrow> over_budget frame_ms start (rr_clock (rounds n)))
               then Some (stalled (length buffer) wanted, buffer)
               else receive_rounds open_socket rounds wanted poll_ms frame_ms (Suc n) buffer started
          else (case rr_recv (rounds n) of
             None \<Rightarrow> Some (last_error ''recv'', buffer)
           | Some bytes \<Rightarrow>
               if bytes = [] then Some (peer_closed (length buffer) wanted, buffer)
               else if over_budget frame_ms (case started of Some start \<Rightarrow> start | None \<Rightarrow> rr_start (rounds n))
                         (rr_clock (rounds n))
               then Some (exceeded frame_ms (length (buffer @ take (wanted - length buffer) bytes)) wanted,
                          buffer @ take (wanted - length buffer) bytes)
               else receive_rounds open_socket rounds wanted poll_ms frame_ms (Suc n)
                      (buffer @ take (wanted - length buffer) bytes)
                      (Some (case started of Some start \<Rightarrow> start | None \<Rightarrow> rr_start (rounds n)))))"

definition socket_recv_exact ::
  "bool \<Rightarrow> (nat \<Rightarrow> receive_round) \<Rightarrow> nat \<Rightarrow> u32 \<Rightarrow> u32 \<Rightarrow> (fabric_outcome \<times> u8 list) option" where
  "socket_recv_exact open_socket rounds wanted poll_ms frame_ms =
     receive_rounds open_socket rounds wanted poll_ms frame_ms 0 [] None"

section \<open>Sending\<close>

text \<open>A pass of the send loop: stop flag, clock, what \<open>send\<close> answers (an error or a count), and the wait behind an error.\<close>

record send_round =
  sr_stopping :: bool
  sr_clock :: nat
  sr_sent :: "nat option"
  sr_polls :: "nat \<Rightarrow> poll_event"

partial_function (option) send_rounds ::
  "bool \<Rightarrow> (nat \<Rightarrow> send_round) \<Rightarrow> u8 list \<Rightarrow> u32 \<Rightarrow> nat option \<Rightarrow> nat \<Rightarrow> nat \<Rightarrow> (fabric_outcome \<times> nat) option" where
  "send_rounds open_socket rounds bytes timeout_ms deadline n sent =
     (if \<not> sent < length bytes then Some (make_outcome OC_OK [], sent)
      else if sr_stopping (rounds n)
      then Some (make_rejection OC_PROTOCOL_ERROR (msg ''session is stopping''), sent)
      else if (case deadline of None \<Rightarrow> False | Some d \<Rightarrow> sr_clock (rounds n) > d)
      then Some (make_rejection OC_SESSION_TIMEOUT
             (msg (''send of '' @ nat_string (length bytes) @ '' bytes did not complete within '' @
                   nat_string (unat timeout_ms) @ '' ms'')), sent)
      else case sr_sent (rounds n) of
        Some chunk \<Rightarrow>
          if chunk = 0 then Some (make_rejection OC_PROTOCOL_ERROR (msg ''peer closed the connection''), sent)
          else send_rounds open_socket rounds bytes timeout_ms deadline (Suc n) (sent + min chunk (length bytes - sent))
      | None \<Rightarrow>
          (case socket_wait_readable open_socket (sr_polls (rounds n)) timeout_ms of
             None \<Rightarrow> None
           | Some (wait, _) \<Rightarrow>
               if \<not> succeeded wait then Some (wait, sent)
               else send_rounds open_socket rounds bytes timeout_ms deadline (Suc n) sent))"

text \<open>\<open>start\<close> is the clock at the call; without a timeout there is no deadline.\<close>

definition socket_send_all ::
  "bool \<Rightarrow> nat \<Rightarrow> (nat \<Rightarrow> send_round) \<Rightarrow> u8 list \<Rightarrow> u32 \<Rightarrow> (fabric_outcome \<times> nat) option" where
  "socket_send_all open_socket start rounds bytes timeout_ms =
     send_rounds open_socket rounds bytes timeout_ms
       (if timeout_ms = 0 then None else Some (start + millis timeout_ms)) 0 0"

section \<open>Opening connections\<close>

text \<open>
  Name resolution and the calls on a socket answer as they like: an address the resolver offers is a
  candidate with the handle of its socket, if one was opened, and whether the calls on it succeed.
\<close>

record 'h candidate =
  cd_handle :: "'h option"
  cd_first :: bool
  cd_second :: bool

definition transport_failed :: fabric_outcome where
  "transport_failed = make_rejection OC_PROTOCOL_ERROR (msg ''transport initialisation failed'')"

text \<open>The first candidate with a socket on which both calls succeed, \<open>bind\<close> and \<open>listen\<close>.\<close>

definition tcp_listen ::
  "bool \<Rightarrow> (string \<Rightarrow> string \<Rightarrow> 'h candidate list option) \<Rightarrow> ('h \<Rightarrow> u16 option) \<Rightarrow> string \<Rightarrow> u16 \<Rightarrow>
   fabric_outcome \<times> ('h \<times> u16) option" where
  "tcp_listen transport_ok resolve bound host port =
     (if \<not> transport_ok then (transport_failed, None)
      else let service = nat_string (unat port); node = (if host = [] then ''127.0.0.1'' else host)
      in case resolve node service of
        None \<Rightarrow> (make_rejection OC_PROTOCOL_ERROR (msg (''cannot resolve listen address '' @ node @ '':'' @ service)), None)
      | Some [] \<Rightarrow> (make_rejection OC_PROTOCOL_ERROR (msg (''cannot resolve listen address '' @ node @ '':'' @ service)), None)
      | Some (c # cs) \<Rightarrow>
          (case map_option cd_handle (find (\<lambda>c. cd_handle c \<noteq> None \<and> cd_first c \<and> cd_second c) (c # cs)) of
             Some (Some listener) \<Rightarrow>
               (case bound listener of
                  None \<Rightarrow> (make_rejection OC_PROTOCOL_ERROR (msg ''cannot read the bound port''), None)
                | Some p \<Rightarrow> (make_outcome OC_OK [], Some (listener, p)))
           | _ \<Rightarrow> (make_rejection OC_PROTOCOL_ERROR
                     (msg (''cannot bind a listening socket on '' @ node @ '':'' @ service)), None)))"

definition tcp_accept :: "bool \<Rightarrow> 'h option \<Rightarrow> fabric_outcome \<times> 'h option" where
  "tcp_accept open_listener accepted =
     (if \<not> open_listener then (make_rejection OC_PROTOCOL_ERROR (msg ''listener socket is closed''), None)
      else case accepted of None \<Rightarrow> (last_error ''accept'', None) | Some h \<Rightarrow> (make_outcome OC_OK [], Some h))"

text \<open>\<open>cd_first\<close> is whether \<open>connect\<close> succeeds. The timeout is ignored.\<close>

definition tcp_connect ::
  "bool \<Rightarrow> (string \<Rightarrow> string \<Rightarrow> 'h candidate list option) \<Rightarrow> string \<Rightarrow> u16 \<Rightarrow> u32 \<Rightarrow> fabric_outcome \<times> 'h option" where
  "tcp_connect transport_ok resolve host port timeout_ms =
     (if \<not> transport_ok then (transport_failed, None)
      else let service = nat_string (unat port)
      in case resolve host service of
        None \<Rightarrow> (make_rejection OC_PROTOCOL_ERROR (msg (''cannot resolve '' @ host @ '':'' @ service)), None)
      | Some [] \<Rightarrow> (make_rejection OC_PROTOCOL_ERROR (msg (''cannot resolve '' @ host @ '':'' @ service)), None)
      | Some (c # cs) \<Rightarrow>
          (case map_option cd_handle (find (\<lambda>c. cd_handle c \<noteq> None \<and> cd_first c) (c # cs)) of
             Some (Some client) \<Rightarrow> (make_outcome OC_OK [], Some client)
           | _ \<Rightarrow> (make_rejection OC_PROTOCOL_ERROR (msg (''cannot connect to '' @ host @ '':'' @ service)), None)))"

section \<open>A wait ends\<close>

lemma wait_rounds_return:
  assumes "timeout_ms \<noteq> 0" "timeout_ms \<le> 4294967196" "waited < timeout_ms"
  shows "\<exists>r. wait_rounds polls timeout_ms n waited = Some r"
  using assms(3)
proof (induction "unat timeout_ms - unat waited" arbitrary: n waited rule: less_induct)
  case less
  let ?w = "waited + poll_slice timeout_ms"
  have slice: "1 \<le> unat (poll_slice timeout_ms)" "unat (poll_slice timeout_ms) \<le> 100"
    using assms(1) by (auto simp: poll_slice_def word_less_nat_alt unat_gt_0 Suc_le_eq)
  have "unat waited < unat timeout_ms" "unat timeout_ms \<le> 4294967196"
    using less.prems assms(2) by (simp_all add: word_less_nat_alt word_le_nat_alt)
  then have "unat waited + unat (poll_slice timeout_ms) < 2 ^ 32" using slice by simp
  then have w: "unat ?w = unat waited + unat (poll_slice timeout_ms)" by (simp add: unat_plus_if')
  show ?case
  proof (cases "?w \<ge> timeout_ms")
    case True
    then show ?thesis using assms(1) by (subst wait_rounds.simps) (auto split: poll_event.split)
  next
    case False
    then have "\<exists>r. wait_rounds polls timeout_ms (Suc n) ?w = Some r"
      using less.hyps w slice \<open>unat waited < unat timeout_ms\<close> by (simp add: not_le)
    then show ?thesis using False by (subst wait_rounds.simps) (auto split: poll_event.split)
  qed
qed

lemma wait_returns: "timeout_ms \<noteq> 0 \<Longrightarrow> timeout_ms \<le> 4294967196 \<Longrightarrow> \<exists>r. socket_wait_readable open_socket polls timeout_ms = Some r"
  using wait_rounds_return [of timeout_ms 0 polls 0]
  by (cases open_socket) (simp_all only: socket_wait_readable_def word_neq_0_conv if_True if_False simp_thms, blast)

text \<open>A timeout near the end of 32 bits is never reached on a quiet socket: the count of waited milliseconds wraps.\<close>

lemma unat_step_100: "4 dvd unat w \<Longrightarrow> 4 dvd unat (w + 100 :: u32) \<and> \<not> 4294967293 \<le> w + 100"
proof -
  assume "4 dvd unat w"
  then have d: "4 dvd (unat w + 100) mod 2 ^ 32" by (simp add: dvd_mod)
  have u: "unat (w + 100) = (unat w + 100) mod 2 ^ 32" by (simp add: unat_word_ariths)
  have "(unat w + 100) mod 2 ^ 32 < 2 ^ 32" by simp
  then have "(unat w + 100) mod 2 ^ 32 \<le> 4294967292" using d by (auto elim!: dvdE)
  then show ?thesis using d u by (simp add: word_le_nat_alt)
qed

lemma wait_rounds_wrap:
  assumes ret: "wait_rounds polls timeout_ms n waited = Some r"
  shows "(\<forall>k. polls k = Quiet) \<longrightarrow> 4294967293 \<le> timeout_ms \<longrightarrow> \<not> 4 dvd unat waited"
proof (rule wait_rounds.raw_induct [where P = "\<lambda>polls timeout_ms n waited r.
    (\<forall>k. polls k = Quiet) \<longrightarrow> 4294967293 \<le> timeout_ms \<longrightarrow> \<not> 4 dvd unat waited", OF _ ret])
  fix f polls timeout_ms n waited r
  assume IH: "\<And>polls timeout_ms n waited r. f polls timeout_ms n waited = Some r \<Longrightarrow>
      (\<forall>k. polls k = Quiet) \<longrightarrow> 4294967293 \<le> timeout_ms \<longrightarrow> \<not> 4 dvd unat waited"
    and eq: "(case polls n of
        Stopping \<Rightarrow> Some (make_rejection OC_PROTOCOL_ERROR (msg ''session is stopping''), False)
      | Ready \<Rightarrow> Some (make_outcome OC_OK [], True)
      | Poll_failed \<Rightarrow> Some (last_error ''select'', False)
      | Quiet \<Rightarrow>
          if timeout_ms \<noteq> 0 \<and> waited + poll_slice timeout_ms \<ge> timeout_ms
          then Some (make_outcome OC_OK [], False)
          else f polls timeout_ms (Suc n) (waited + poll_slice timeout_ms)) = Some r"
  show "(\<forall>k. polls k = Quiet) \<longrightarrow> 4294967293 \<le> timeout_ms \<longrightarrow> \<not> 4 dvd unat waited"
  proof (intro impI notI)
    assume quiet: "\<forall>k. polls k = Quiet" and big: "4294967293 \<le> timeout_ms" and d: "4 dvd unat waited"
    have "timeout_ms > 100" using big by (rule less_le_trans [rotated]) simp
    then have slice: "poll_slice timeout_ms = 100" by (auto simp: poll_slice_def)
    have "\<not> waited + 100 \<ge> timeout_ms" using unat_step_100 [OF d] big by (meson order_trans)
    then have "f polls timeout_ms (Suc n) (waited + 100) = Some r" using eq quiet slice by simp
    from IH [OF this] show False using quiet big unat_step_100 [OF d] by blast
  qed
qed

lemma wait_never_returns:
  "(\<And>k. polls k = Quiet) \<Longrightarrow> 4294967293 \<le> timeout_ms \<Longrightarrow> socket_wait_readable True polls timeout_ms = None"
  using wait_rounds_wrap [of polls timeout_ms 0 0] by (cases "wait_rounds polls timeout_ms 0 0") (auto simp: socket_wait_readable_def)

section \<open>A receive\<close>

text \<open>What a round delivers, and the rounds in which nothing happens.\<close>

definition delivered :: "receive_round \<Rightarrow> u8 list" where
  "delivered r = (case rr_recv r of None \<Rightarrow> [] | Some bytes \<Rightarrow> bytes)"

definition quiet_round :: "u32 \<Rightarrow> receive_round \<Rightarrow> bool" where
  "quiet_round poll_ms r \<longleftrightarrow>
     (\<exists>outcome. socket_wait_readable True (rr_polls r) poll_ms = Some (outcome, False) \<and> succeeded outcome)"

text \<open>The bytes of the rounds that were readable, in order.\<close>

definition received_in :: "u32 \<Rightarrow> (nat \<Rightarrow> receive_round) \<Rightarrow> nat list \<Rightarrow> u8 list" where
  "received_in poll_ms rounds ns = concat (map (\<lambda>k. delivered (rounds k)) (filter (\<lambda>k. \<not> quiet_round poll_ms (rounds k)) ns))"

lemma received_in_Cons:
  "received_in poll_ms rounds (n # ns) =
     (if quiet_round poll_ms (rounds n) then [] else delivered (rounds n)) @ received_in poll_ms rounds ns"
  by (simp add: received_in_def)

text \<open>The outcomes of the loop's failures are failures.\<close>

lemma socket_failures [simp]: "\<not> succeeded (interrupted n m)" "\<not> succeeded (stalled n m)"
  "\<not> succeeded (exceeded ms n m)" "\<not> succeeded (peer_closed n m)" "\<not> succeeded (last_error c)"
  "\<not> succeeded (make_rejection OC_PROTOCOL_ERROR d)"
  "\<not> succeeded (make_rejection OC_SESSION_TIMEOUT d)"
  by (simp_all add: interrupted_def stalled_def exceeded_def peer_closed_def last_error_def succeeded_def outcome_is_success_def make_rejection_def make_outcome_def)

text \<open>
  Partial correctness: a receive that returns OK has exactly the bytes it was asked for, the first ones of
  the stream the rounds deliver.
\<close>

lemma receive_rounds_correct:
  assumes ret: "receive_rounds open_socket rounds wanted poll_ms frame_ms n buffer started = Some r"
  shows "length buffer \<le> wanted \<longrightarrow> succeeded (fst r) \<longrightarrow>
     length (snd r) = wanted \<and> (\<exists>m \<ge> n. snd r = take wanted (buffer @ received_in poll_ms rounds [n..<m]))"
proof (rule receive_rounds.raw_induct [where P = "\<lambda>open_socket rounds wanted poll_ms frame_ms n buffer started r.
    length buffer \<le> wanted \<longrightarrow> succeeded (fst r) \<longrightarrow> length (snd r) = wanted \<and>
      (\<exists>m \<ge> n. snd r = take wanted (buffer @ received_in poll_ms rounds [n..<m]))", OF _ ret])
  fix f open_socket rounds wanted poll_ms frame_ms n buffer started r
  assume IH: "\<And>open_socket rounds wanted poll_ms frame_ms n buffer started r.
      f open_socket rounds wanted poll_ms frame_ms n buffer started = Some r \<Longrightarrow>
      length buffer \<le> wanted \<longrightarrow> succeeded (fst r) \<longrightarrow> length (snd r) = wanted \<and>
        (\<exists>m \<ge> n. snd r = take wanted (buffer @ received_in poll_ms rounds [n..<m]))"
    and eq: "(if \<not> length buffer < wanted then Some (make_outcome OC_OK [], buffer)
      else case socket_wait_readable open_socket (rr_polls (rounds n)) poll_ms of
        None \<Rightarrow> None
      | Some (wait, readable) \<Rightarrow>
          if \<not> succeeded wait
          then Some (if length buffer > 0 \<or> started \<noteq> None then interrupted (length buffer) wanted else wait, buffer)
          else if \<not> readable
          then if (case started of None \<Rightarrow> False | Some start \<Rightarrow> over_budget frame_ms start (rr_clock (rounds n)))
               then Some (stalled (length buffer) wanted, buffer)
               else f open_socket rounds wanted poll_ms frame_ms (Suc n) buffer started
          else (case rr_recv (rounds n) of
             None \<Rightarrow> Some (last_error ''recv'', buffer)
           | Some bytes \<Rightarrow>
               if bytes = [] then Some (peer_closed (length buffer) wanted, buffer)
               else if over_budget frame_ms (case started of Some start \<Rightarrow> start | None \<Rightarrow> rr_start (rounds n))
                         (rr_clock (rounds n))
               then Some (exceeded frame_ms (length (buffer @ take (wanted - length buffer) bytes)) wanted,
                          buffer @ take (wanted - length buffer) bytes)
               else f open_socket rounds wanted poll_ms frame_ms (Suc n)
                      (buffer @ take (wanted - length buffer) bytes)
                      (Some (case started of Some start \<Rightarrow> start | None \<Rightarrow> rr_start (rounds n))))) = Some r"
  show "length buffer \<le> wanted \<longrightarrow> succeeded (fst r) \<longrightarrow> length (snd r) = wanted \<and>
      (\<exists>m \<ge> n. snd r = take wanted (buffer @ received_in poll_ms rounds [n..<m]))"
  proof (intro impI)
    assume len: "length buffer \<le> wanted" and ok: "succeeded (fst r)"
    show "length (snd r) = wanted \<and> (\<exists>m \<ge> n. snd r = take wanted (buffer @ received_in poll_ms rounds [n..<m]))"
    proof (cases "length buffer < wanted")
      case False
      then show ?thesis using eq len by (auto intro!: exI [of _ n] simp: received_in_def)
    next
      case True
      obtain wait readable where w: "socket_wait_readable open_socket (rr_polls (rounds n)) poll_ms = Some (wait, readable)"
        using eq True by (auto split: option.splits)
      have fine: "succeeded wait" using eq True w ok by (auto split: if_splits)
      have opened: "open_socket" using w fine by (cases open_socket) (auto simp: socket_wait_readable_def)
      have quiet: "quiet_round poll_ms (rounds n) \<longleftrightarrow> \<not> readable" using w fine opened by (auto simp: quiet_round_def)
      obtain started' buffer' where f: "f open_socket rounds wanted poll_ms frame_ms (Suc n) buffer' started' = Some r"
        and b: "buffer' = buffer @ take (wanted - length buffer) (if readable then delivered (rounds n) else [])"
        using eq True w fine ok
        by (cases readable) (auto simp: delivered_def split: if_splits option.splits)
      have "length buffer' \<le> wanted" using b True by simp
      with IH [OF f] ok obtain m where m: "length (snd r) = wanted" "m \<ge> Suc n"
        "snd r = take wanted (buffer' @ received_in poll_ms rounds [Suc n..<m])" by blast
      have "take wanted (buffer' @ xs) = take wanted (buffer @ (if readable then delivered (rounds n) else []) @ xs)" for xs
        using b True by (simp add: min_def)
      then have "snd r = take wanted (buffer @ received_in poll_ms rounds [n..<m])"
        using m quiet by (simp add: received_in_Cons upt_conv_Cons)
      then show ?thesis using m by (intro conjI exI [of _ m]) simp_all
    qed
  qed
qed

text \<open>
  Termination: a receive returns when the wait does, there is a frame budget, the clock passes every bound
  for good and some round is not quiet. The frame that started at \<open>s\<close> ends at the latest with the first
  pass after the budget.
\<close>

lemma receive_rounds_started:
  assumes waits: "poll_ms \<noteq> 0" "poll_ms \<le> 4294967196" and budget: "frame_ms \<noteq> 0"
    and clock: "\<And>k. N \<le> k \<Longrightarrow> s + millis frame_ms < rr_clock (rounds k)"
  shows "\<exists>r. receive_rounds open_socket rounds wanted poll_ms frame_ms n buffer (Some s) = Some r"
proof (induction "N - n" arbitrary: n buffer rule: less_induct)
  case less
  obtain wait readable where w: "socket_wait_readable open_socket (rr_polls (rounds n)) poll_ms = Some (wait, readable)"
    using wait_returns [OF waits] by (metis surj_pair)
  show ?case
  proof (cases "N \<le> n")
    case True
    then have "over_budget frame_ms s (rr_clock (rounds n))"
      using clock [of n] budget by (simp add: over_budget_def)
    then show ?thesis using w by (subst receive_rounds.simps) (simp split: option.split)
  next
    case False
    then have "\<exists>r. receive_rounds open_socket rounds wanted poll_ms frame_ms (Suc n) b (Some s) = Some r" for b
      by (intro less.hyps) simp
    then show ?thesis using w by (subst receive_rounds.simps) (simp split: option.split)
  qed
qed

lemma receive_rounds_return:
  assumes waits: "poll_ms \<noteq> 0" "poll_ms \<le> 4294967196" and budget: "frame_ms \<noteq> 0"
    and clock: "\<And>t. \<exists>N. \<forall>k \<ge> N. t < rr_clock (rounds k)"
    and busy: "\<not> quiet_round poll_ms (rounds k)" and le: "n \<le> k"
  shows "\<exists>r. receive_rounds True rounds wanted poll_ms frame_ms n buffer None = Some r"
  using le
proof (induction "k - n" arbitrary: n)
  case 0
  then have "n = k" by simp
  obtain wait readable where w: "socket_wait_readable True (rr_polls (rounds n)) poll_ms = Some (wait, readable)"
    using wait_returns [OF waits] by (metis surj_pair)
  have "succeeded wait \<Longrightarrow> readable" using busy w \<open>n = k\<close> by (auto simp: quiet_round_def)
  obtain N where "\<And>k. N \<le> k \<Longrightarrow> rr_start (rounds n) + millis frame_ms < rr_clock (rounds k)"
    using clock [of "rr_start (rounds n) + millis frame_ms"] by blast
  from receive_rounds_started [OF waits budget this]
  show ?case using w \<open>succeeded wait \<Longrightarrow> readable\<close>
    by (subst receive_rounds.simps) (simp split: option.split)
next
  case (Suc d)
  obtain wait readable where w: "socket_wait_readable True (rr_polls (rounds n)) poll_ms = Some (wait, readable)"
    using wait_returns [OF waits] by (metis surj_pair)
  obtain N where "\<And>k. N \<le> k \<Longrightarrow> rr_start (rounds n) + millis frame_ms < rr_clock (rounds k)"
    using clock [of "rr_start (rounds n) + millis frame_ms"] by blast
  note started = receive_rounds_started [OF waits budget this]
  have "\<exists>r. receive_rounds True rounds wanted poll_ms frame_ms (Suc n) buffer None = Some r"
    using Suc by (intro Suc.hyps) simp_all
  then show ?case using w started
    by (subst receive_rounds.simps) (simp split: option.split)
qed

text \<open>An idle peer that starts no frame keeps its session: the receive goes on for ever.\<close>

lemma receive_rounds_idle:
  assumes ret: "receive_rounds open_socket rounds wanted poll_ms frame_ms n buffer started = Some r"
  shows "open_socket \<longrightarrow> (\<forall>k. quiet_round poll_ms (rounds k)) \<longrightarrow> started = None \<longrightarrow> wanted \<le> length buffer"
proof (rule receive_rounds.raw_induct [where P = "\<lambda>open_socket rounds wanted poll_ms frame_ms n buffer started r.
    open_socket \<longrightarrow> (\<forall>k. quiet_round poll_ms (rounds k)) \<longrightarrow> started = None \<longrightarrow> wanted \<le> length buffer", OF _ ret],
    intro impI, goal_cases)
  case (1 f open_socket rounds wanted poll_ms frame_ms n buffer started r)
  obtain outcome where w: "socket_wait_readable True (rr_polls (rounds n)) poll_ms = Some (outcome, False)" "succeeded outcome"
    using 1(4) by (auto simp: quiet_round_def)
  show ?case
  proof (rule ccontr)
    assume "\<not> wanted \<le> length buffer"
    then have "f open_socket rounds wanted poll_ms frame_ms (Suc n) buffer None = Some r" using 1(2,3,5) w by simp
    from 1(1) [OF this] show False using 1(3,4) \<open>\<not> wanted \<le> length buffer\<close> by blast
  qed
qed

lemma receive_returns_iff:
  assumes "poll_ms \<noteq> 0" "poll_ms \<le> 4294967196" "frame_ms \<noteq> 0" "\<And>t. \<exists>N. \<forall>k \<ge> N. t < rr_clock (rounds k)"
  shows "(\<exists>r. receive_rounds True rounds wanted poll_ms frame_ms 0 [] None = Some r) \<longleftrightarrow>
    wanted = 0 \<or> (\<exists>k. \<not> quiet_round poll_ms (rounds k))"
proof
  assume "\<exists>r. receive_rounds True rounds wanted poll_ms frame_ms 0 [] None = Some r"
  then show "wanted = 0 \<or> (\<exists>k. \<not> quiet_round poll_ms (rounds k))" using receive_rounds_idle by fastforce
next
  assume "wanted = 0 \<or> (\<exists>k. \<not> quiet_round poll_ms (rounds k))"
  then show "\<exists>r. receive_rounds True rounds wanted poll_ms frame_ms 0 [] None = Some r"
  proof
    assume "wanted = 0"
    then show ?thesis by (subst receive_rounds.simps) simp
  next
    assume "\<exists>k. \<not> quiet_round poll_ms (rounds k)"
    then show ?thesis using receive_rounds_return [OF assms _ le0] by blast
  qed
qed

section \<open>A send\<close>

text \<open>A send that returns OK has handed over every byte; no chunk reaches past the end.\<close>

lemma send_rounds_correct:
  assumes ret: "send_rounds open_socket rounds bytes timeout_ms deadline n sent = Some r"
  shows "sent \<le> length bytes \<longrightarrow> snd r \<le> length bytes \<and> (succeeded (fst r) \<longrightarrow> snd r = length bytes)"
proof (rule send_rounds.raw_induct [where P = "\<lambda>open_socket rounds bytes timeout_ms deadline n sent r.
    sent \<le> length bytes \<longrightarrow> snd r \<le> length bytes \<and> (succeeded (fst r) \<longrightarrow> snd r = length bytes)", OF _ ret],
    intro impI, goal_cases)
  case (1 f open_socket rounds bytes timeout_ms deadline n sent r)
  have IH: "f open_socket rounds bytes timeout_ms deadline (Suc n) sent' = Some r \<Longrightarrow> sent' \<le> length bytes \<Longrightarrow>
      snd r \<le> length bytes \<and> (succeeded (fst r) \<longrightarrow> snd r = length bytes)" for sent'
    using 1(1) by blast
  show ?case using 1(2,3) IH [of sent] IH [of "sent + min c (length bytes - sent)" for c]
    by (auto split: if_splits option.splits)
qed

lemma send_rounds_return:
  assumes waits: "timeout_ms \<noteq> 0" "timeout_ms \<le> 4294967196" and clock: "\<And>k. N \<le> k \<Longrightarrow> d < sr_clock (rounds k)"
  shows "\<exists>r. send_rounds open_socket rounds bytes timeout_ms (Some d) n sent = Some r"
proof (induction "N - n" arbitrary: n sent rule: less_induct)
  case less
  obtain wait readable where w: "socket_wait_readable open_socket (sr_polls (rounds n)) timeout_ms = Some (wait, readable)"
    using wait_returns [OF waits] by (metis surj_pair)
  show ?case
  proof (cases "N \<le> n")
    case True
    then show ?thesis using clock [of n] by (subst send_rounds.simps) simp
  next
    case False
    then have "\<exists>r. send_rounds open_socket rounds bytes timeout_ms (Some d) (Suc n) sent' = Some r" for sent'
      by (intro less.hyps) simp
    then show ?thesis using w by (subst send_rounds.simps) (simp split: option.split)
  qed
qed

lemma send_returns:
  assumes "timeout_ms \<noteq> 0" "timeout_ms \<le> 4294967196" and clock: "\<And>t. \<exists>N. \<forall>k \<ge> N. t < sr_clock (rounds k)"
  shows "\<exists>r. socket_send_all open_socket start rounds bytes timeout_ms = Some r"
proof -
  obtain N where N: "\<And>k. N \<le> k \<Longrightarrow> start + millis timeout_ms < sr_clock (rounds k)"
    using clock [of "start + millis timeout_ms"] by blast
  have "\<exists>r. send_rounds open_socket rounds bytes timeout_ms (Some (start + millis timeout_ms)) 0 0 = Some r"
    by (rule send_rounds_return [OF assms(1,2)]) (rule N)
  then show ?thesis using assms(1) by (simp add: socket_send_all_def)
qed

text \<open>
  The wait behind a failed \<open>send\<close> is a wait for input, and a failure of \<open>send\<close> is not told from a full
  buffer: on a connection the peer has reset, the loop retries until the deadline, and then reports a
  timeout.
\<close>

lemma send_on_reset_connection:
  assumes "n \<le> k" "\<And>j. j < k \<Longrightarrow> sr_clock (rounds j) \<le> d" "d < sr_clock (rounds k)" "sent < length bytes"
    and "\<And>j. \<not> sr_stopping (rounds j)" "\<And>j. sr_sent (rounds j) = None" "\<And>j. sr_polls (rounds j) 0 = Ready"
  shows "map_option (o_code \<circ> fst) (send_rounds True rounds bytes timeout_ms (Some d) n sent) = Some OC_SESSION_TIMEOUT"
  using assms(1)
proof (induction "k - n" arbitrary: n)
  case 0
  then show ?case using assms(3-5) by (subst send_rounds.simps) simp
next
  case (Suc i)
  have "socket_wait_readable True (sr_polls (rounds n)) timeout_ms = Some (make_outcome OC_OK [], True)"
    using assms(7) by (simp add: socket_wait_readable_def wait_rounds.simps)
  moreover have "\<not> d < sr_clock (rounds n)" using assms(2) [of n] Suc.hyps(2) by (simp add: not_less)
  moreover have "map_option (o_code \<circ> fst) (send_rounds True rounds bytes timeout_ms (Some d) (Suc n) sent) = Some OC_SESSION_TIMEOUT"
    using Suc by (intro Suc.hyps) simp_all
  ultimately show ?case using assms(4-6)
    by (subst send_rounds.simps) (simp add: succeeded_def outcome_is_success_def make_outcome_def)
qed

end
