(* ===== verification/Command_Line.thy ===== *)
theory Command_Line
  imports Client Explanation Store_Files
begin

text \<open>
  The command line interface: the arguments of the tools (\<open>src/tools/tool_common.hpp\<close>) and \<open>mpf\<close>
  (\<open>src/tools/mpf.cpp\<close>), one command over one connection. A run gives the exit code and what is printed,
  line by line; the usage text is the constructor \<open>Usage\<close>. What the coordinator answers to each call is a
  link; the nonce of the process and the files are inputs.
\<close>

section \<open>Arguments\<close>

definition is_boolean_option :: "string \<Rightarrow> bool" where
  "is_boolean_option token \<longleftrightarrow>
     token \<in> {''--admin-disabled'', ''--conditional'', ''--no-publish'', ''--no-autosave'', ''--quiet'', ''--help''}"

definition is_option :: "string \<Rightarrow> bool" where
  "is_option token \<longleftrightarrow> take 2 token = ''--''"

fun positionals :: "string list \<Rightarrow> string list" where
  "positionals [] = []"
| "positionals (token # tokens) =
     (if is_option token
      then (if \<not> is_boolean_option token \<and> tokens \<noteq> [] then positionals (tl tokens) else positionals tokens)
      else token # positionals tokens)"

fun arg_value :: "string \<Rightarrow> string list \<Rightarrow> string option" where
  "arg_value name (token # following # tokens) =
     (if token = name then Some following else arg_value name (following # tokens))"
| "arg_value name _ = None"

definition arg_has :: "string \<Rightarrow> string list \<Rightarrow> bool" where
  "arg_has name tokens \<longleftrightarrow> name \<in> set tokens"

text \<open>The decimal loop of the tools: 64 bits that wrap, given up at the first character that is no digit.\<close>

fun digits_value :: "u64 \<Rightarrow> string \<Rightarrow> u64 option" where
  "digits_value value [] = Some value"
| "digits_value value (c # cs) =
     (if (of_char c :: nat) < 48 \<or> (of_char c :: nat) > 57 then None
      else digits_value (value * 10 + of_nat (digit_val c)) cs)"

definition arg_number :: "string \<Rightarrow> u64 \<Rightarrow> string list \<Rightarrow> u64" where
  "arg_number name fallback tokens =
     (case arg_value name tokens of
        None \<Rightarrow> fallback
      | Some text \<Rightarrow> (case digits_value 0 text of None \<Rightarrow> fallback | Some value \<Rightarrow> value))"

definition arg_text :: "string \<Rightarrow> string \<Rightarrow> string list \<Rightarrow> string" where
  "arg_text name fallback tokens = (case arg_value name tokens of None \<Rightarrow> fallback | Some text \<Rightarrow> text)"

text \<open>A number among the positional arguments.\<close>

definition typed_number :: "string \<Rightarrow> u64" where
  "typed_number text = (case digits_value 0 text of None \<Rightarrow> 0 | Some value \<Rightarrow> value)"

definition positional_at :: "string list \<Rightarrow> nat \<Rightarrow> string" where
  "positional_at ps i = (if i < length ps then ps ! i else [])"

section \<open>Results\<close>

datatype cli_output = Out string | Err string | Usage

type_synonym cli_result = "nat \<times> cli_output list"

definition exit_ok :: nat where "exit_ok = 0"
definition exit_rejected :: nat where "exit_rejected = 1"
definition exit_usage :: nat where "exit_usage = 2"
definition exit_transport :: nat where "exit_transport = 3"

definition is_transport_failure :: "outcome_code \<Rightarrow> bool" where
  "is_transport_failure code \<longleftrightarrow>
     code \<in> {OC_FRAMING_ERROR, OC_INTEGRITY_ERROR, OC_UNSUPPORTED_WIRE_VERSION, OC_SESSION_TIMEOUT, OC_SESSION_LIMIT}"

definition report_code :: "fabric_outcome \<Rightarrow> nat" where
  "report_code outcome =
     (if is_transport_failure (o_code outcome) then exit_transport
      else if succeeded outcome then exit_ok else exit_rejected)"

definition print_outcome :: "fabric_outcome \<Rightarrow> cli_output" where
  "print_outcome outcome = Out (outcome_render outcome)"

definition report :: "fabric_outcome \<Rightarrow> cli_result" where
  "report outcome = (report_code outcome, [print_outcome outcome])"

definition usage_exit :: cli_result where
  "usage_exit = (exit_usage, [Usage])"

definition usage_error :: "string \<Rightarrow> cli_result" where
  "usage_error text = (exit_usage, [Err text])"

section \<open>A session\<close>

record cli_session =
  cs_client :: client
  cs_publisher :: publisher_id
  cs_boot :: worker_boot_id
  cs_scope :: authority_scope
  cs_attempts :: u64

definition next_context :: "string \<Rightarrow> cli_session \<Rightarrow> mutation_context" where
  "next_context nonce s =
     empty_context\<lparr>cx_publisher := cs_publisher s, cx_worker_boot := cs_boot s,
       cx_attempt := StrongId (''mpf-at-'' @ nonce @ ''-'' @ u64_string (cs_attempts s + 1))\<rparr>"

text \<open>A mutation of the client, reported. No command makes two of them.\<close>

definition mutate :: "(mutation_context \<Rightarrow> client \<Rightarrow> fabric_outcome \<times> client) \<Rightarrow> string \<Rightarrow> cli_session \<Rightarrow> cli_result" where
  "mutate operation nonce s = report (fst (operation (next_context nonce s) (cs_client s)))"

section \<open>Commands on paths and members\<close>

definition run_path_command :: "string \<Rightarrow> link \<Rightarrow> string list \<Rightarrow> cli_session \<Rightarrow> cli_result" where
  "run_path_command nonce link ps s =
     (if length ps < 3 then usage_exit
      else let action = positional_at ps 1
      in if action = ''declare''
      then (if length ps < 5 then usage_exit
            else case (parse_path_id (positional_at ps 2), gen_from_value (typed_number (positional_at ps 3)),
                       parse_path_authority_state (positional_at ps 4)) of
              (Some path, Some generation, Some state) \<Rightarrow>
                mutate (\<lambda>ctx. client_declare_path_authority link ctx
                  \<lparr>v_path = path, v_generation = generation, v_state = state\<rparr>) nonce s
            | _ \<Rightarrow> usage_error (''path declare requires PATH GENERATION STATE where STATE is one of '' @
                 ''AUTHORIZED CONDITIONALLY_AUTHORIZED REVALIDATION_REQUIRED REJECTED REVOKED STALE RETIRED''))
      else if action = ''refresh''
      then (case parse_path_id (positional_at ps 2) of
              None \<Rightarrow> usage_error ''path refresh requires a valid PATH''
            | Some path \<Rightarrow> mutate (\<lambda>ctx. client_refresh_path link ctx path) nonce s)
      else usage_exit)"

text \<open>\<open>PATH:GENERATION\<close>, split at the first colon; a token without one is skipped, an invalid entry is \<open>None\<close>.\<close>

definition member_token :: "string \<Rightarrow> member_request option" where
  "member_token token =
     (case (parse_path_id (takeWhile (\<lambda>c. c \<noteq> CHR '':'') token),
            gen_from_value (typed_number (tl (dropWhile (\<lambda>c. c \<noteq> CHR '':'') token)))) of
        (Some path, Some generation) \<Rightarrow> Some \<lparr>mr_path_id = path, mr_generation = generation\<rparr>
      | _ \<Rightarrow> None)"

fun member_tokens :: "string list \<Rightarrow> member_request list option" where
  "member_tokens [] = Some []"
| "member_tokens (token # tokens) =
     (if CHR '':'' \<notin> set token then member_tokens tokens
      else case member_token token of
        None \<Rightarrow> None
      | Some request \<Rightarrow> map_option (\<lambda>requests. request # requests) (member_tokens tokens))"

definition run_existing_member ::
  "string \<Rightarrow> link \<Rightarrow> string list \<Rightarrow> set_id \<Rightarrow> member_id \<Rightarrow> cli_session \<Rightarrow> cli_result" where
  "run_existing_member nonce link ps sid mid s =
     (let action = positional_at ps 1
      in if action = ''remove''
      then mutate (\<lambda>ctx. client_remove_member link ctx sid mid ''operator removal'') nonce s
      else if action = ''withdraw''
      then mutate (\<lambda>ctx. client_withdraw_member link ctx sid mid ''operator withdrawal'') nonce s
      else if action = ''revalidate''
      then mutate (\<lambda>ctx. client_revalidate_member link ctx sid mid) nonce s
      else if action = ''replace''
      then (if length ps < 6 then usage_exit
            else case (parse_path_id (positional_at ps 4), gen_from_value (typed_number (positional_at ps 5))) of
              (Some path, Some generation) \<Rightarrow>
                mutate (\<lambda>ctx. client_replace_member link ctx sid mid path generation ''operator replacement'') nonce s
            | _ \<Rightarrow> usage_error ''member replace requires SETID MEMBERID PATH GENERATION'')
      else if action = ''enable'' \<or> action = ''disable''
      then mutate (\<lambda>ctx. client_set_member_admin_enabled link ctx sid mid (action = ''enable'')) nonce s
      else usage_exit)"

definition run_member_command :: "string \<Rightarrow> link \<Rightarrow> string list \<Rightarrow> cli_session \<Rightarrow> cli_result" where
  "run_member_command nonce link ps s =
     (if length ps < 4 then usage_exit
      else let action = positional_at ps 1
      in case parse_set_id (positional_at ps 2) of
        None \<Rightarrow> usage_error ''invalid set identity''
      | Some sid \<Rightarrow>
          if action = ''add''
          then (if length ps < 5 then usage_exit
                else case (parse_path_id (positional_at ps 3), gen_from_value (typed_number (positional_at ps 4))) of
                  (Some path, Some generation) \<Rightarrow> mutate (\<lambda>ctx. client_add_member link ctx sid path generation) nonce s
                | _ \<Rightarrow> usage_error ''member add requires SETID PATH GENERATION with GENERATION >= 1'')
          else if action = ''add-bulk''
          then (case member_tokens (drop 3 ps) of
                  None \<Rightarrow> usage_error ''add-bulk requires PATH:GENERATION entries''
                | Some requests \<Rightarrow>
                    if requests = [] then usage_error ''add-bulk requires at least one PATH:GENERATION entry''
                    else mutate (\<lambda>ctx. client_add_members link ctx sid requests) nonce s)
          else case parse_member_id (positional_at ps 3) of
            None \<Rightarrow> usage_error ''invalid member identity''
          | Some mid \<Rightarrow> run_existing_member nonce link ps sid mid s)"

section \<open>Commands on sets\<close>

text \<open>A fresh \<open>SetSnapshot\<close> and \<open>SetExplanation\<close>, printed when a successful answer carries none.\<close>

definition blank_key :: set_key where
  "blank_key = SetKey invalid_id invalid_id invalid_id"

definition blank_provenance :: membership_provenance where
  "blank_provenance =
     \<lparr>pv_publisher = invalid_id, pv_worker_boot = invalid_id, pv_epoch = gen_invalid, pv_attempt = invalid_id,
      pv_set_generation = gen_invalid, pv_cause = CA_DECLARED\<rparr>"

definition blank_snapshot :: set_snapshot where
  "blank_snapshot =
     \<lparr>ss_snapshot_id = invalid_id, ss_set_id = invalid_id, ss_key = blank_key, ss_generation = gen_invalid,
      ss_membership_generation = gen_invalid, ss_authority_generation = gen_invalid, ss_lifecycle = SL_DECLARED,
      ss_currentness = SC_CURRENT, ss_readiness = RR_NOT_PUBLISHED, ss_admin_enabled = True, ss_minimum = 0,
      ss_conditional = False, ss_usable_count = 0, ss_member_count = 0, ss_governing_epoch = gen_invalid,
      ss_provenance = blank_provenance, ss_superseded_by = None, ss_supersedes = None, ss_revocation = None,
      ss_withdrawal_reason = [], ss_members = [], ss_history = [], ss_digest = Digest128 0 0\<rparr>"

definition blank_explanation :: set_explanation where
  "blank_explanation =
     \<lparr>se_set_id = invalid_id, se_key = blank_key, se_lifecycle = SL_DECLARED, se_currentness = SC_CURRENT,
      se_readiness = RR_NOT_PUBLISHED, se_member_count = 0, se_usable_count = 0, se_minimum = 0,
      se_minimum_satisfied = False, se_admin_enabled = True, se_conditional = False, se_governing_epoch = gen_invalid,
      se_authority_generation = gen_invalid, se_last_publisher = None, se_last_cause = CA_DECLARED, se_reasons = [],
      se_members = [], se_truncated = False\<rparr>"

text \<open>A query reported, followed by what is printed of a successful answer.\<close>

definition show_query :: "('a \<Rightarrow> cli_output list) \<Rightarrow> 'a \<Rightarrow> fabric_outcome \<times> 'a option \<times> client \<Rightarrow> cli_result" where
  "show_query print blank answer =
     (case answer of
        (outcome, received, _) \<Rightarrow>
          (report_code outcome,
           print_outcome outcome #
             (if succeeded outcome then print (case received of None \<Rightarrow> blank | Some x \<Rightarrow> x) else [])))"

definition run_create :: "string \<Rightarrow> link \<Rightarrow> string list \<Rightarrow> cli_session \<Rightarrow> cli_result" where
  "run_create nonce link arguments s =
     (case parse_set_name (arg_text ''--name'' [] arguments) of
        None \<Rightarrow> usage_error ''set create requires --name NAME''
      | Some name \<Rightarrow>
          mutate (\<lambda>ctx. client_create_set link ctx
            (SetKey (sc_fabric (cs_scope s)) (sc_name_space (cs_scope s)) name)
            \<lparr>so_minimum = unat (arg_number ''--minimum'' 1 arguments),
             so_admin_enabled = (\<not> arg_has ''--admin-disabled'' arguments),
             so_conditional = arg_has ''--conditional'' arguments\<rparr>) nonce s)"

definition run_list :: "link \<Rightarrow> cli_session \<Rightarrow> cli_result" where
  "run_list link s =
     (case client_list_sets link (cs_client s) of
        (outcome, ids, _) \<Rightarrow>
          (report_code outcome,
           print_outcome outcome # map (\<lambda>i. Out (''set '' @ id_text i)) (case ids of None \<Rightarrow> [] | Some ids \<Rightarrow> ids)))"

definition run_existing_set ::
  "string \<Rightarrow> link \<Rightarrow> string list \<Rightarrow> string list \<Rightarrow> set_id \<Rightarrow> cli_session \<Rightarrow> cli_result" where
  "run_existing_set nonce link arguments ps sid s =
     (let action = positional_at ps 1
      in if action = ''show''
      then show_query (\<lambda>snapshot. [Out (set_snapshot_render snapshot)]) blank_snapshot
             (client_query_set link sid (cs_client s))
      else if action = ''publish'' then mutate (\<lambda>ctx. client_publish_set link ctx sid) nonce s
      else if action = ''withdraw''
      then mutate (\<lambda>ctx. client_withdraw_set link ctx sid (arg_text ''--reason'' ''operator withdrawal'' arguments)) nonce s
      else if action = ''complete-withdrawal'' then mutate (\<lambda>ctx. client_complete_withdrawal link ctx sid) nonce s
      else if action = ''revalidate'' then mutate (\<lambda>ctx. client_revalidate_set link ctx sid) nonce s
      else if action = ''enable'' \<or> action = ''disable''
      then mutate (\<lambda>ctx. client_set_admin_enabled link ctx sid (action = ''enable'')) nonce s
      else if action = ''minimum''
      then (if length ps < 4 then usage_exit
            else mutate (\<lambda>ctx. client_set_minimum link ctx sid (typed_number (positional_at ps 3))) nonce s)
      else if action = ''policy''
      then (if length ps < 4 then usage_exit
            else let mode = positional_at ps 3
            in if mode \<noteq> ''authorized'' \<and> mode \<noteq> ''conditional''
            then usage_error ''set policy requires authorized|conditional''
            else mutate (\<lambda>ctx. client_set_conditional_policy link ctx sid (mode = ''conditional'')) nonce s)
      else if action = ''revoke''
      then (if length ps < 4 then usage_exit
            else case parse_revocation_reason (positional_at ps 3) of
              None \<Rightarrow> usage_error (''revocation reason must be one of ADMINISTRATIVE SECURITY POLICY_VIOLATION '' @
                ''AUTHORITY_REVOKED OPERATOR_REQUEST'')
            | Some reason \<Rightarrow>
                mutate (\<lambda>ctx. client_revoke_set link ctx sid reason (arg_text ''--detail'' [] arguments)) nonce s)
      else if action = ''retire''
      then mutate (\<lambda>ctx. client_retire_set link ctx sid (arg_text ''--reason'' ''operator'' arguments)) nonce s
      else if action = ''supersede''
      then (if length ps < 4 then usage_exit
            else case parse_set_id (positional_at ps 3) of
              None \<Rightarrow> usage_error ''invalid successor set identity''
            | Some successor \<Rightarrow> mutate (\<lambda>ctx. client_supersede_set link ctx sid successor) nonce s)
      else usage_exit)"

definition run_set_command :: "string \<Rightarrow> link \<Rightarrow> string list \<Rightarrow> string list \<Rightarrow> cli_session \<Rightarrow> cli_result" where
  "run_set_command nonce link arguments ps s =
     (if length ps < 2 then usage_exit
      else if positional_at ps 1 = ''create'' then run_create nonce link arguments s
      else if positional_at ps 1 = ''list'' then run_list link s
      else if length ps < 3 then usage_exit
      else case parse_set_id (positional_at ps 2) of
        None \<Rightarrow> usage_error ''invalid set identity''
      | Some sid \<Rightarrow> run_existing_set nonce link arguments ps sid s)"

section \<open>The other commands\<close>

definition run_epoch_command :: "string \<Rightarrow> link \<Rightarrow> link \<Rightarrow> string list \<Rightarrow> cli_session \<Rightarrow> cli_result" where
  "run_epoch_command nonce link refresh ps s =
     (if length ps < 2 \<or> positional_at ps 1 \<noteq> ''advance'' then usage_exit
      else case client_advance_epoch link (next_context nonce s) (cl_epoch (cs_client s)) (cs_client s) of
        (outcome, c) \<Rightarrow>
          (report_code outcome,
           print_outcome outcome #
             (if report_code outcome = exit_ok
              then (case refresh_epoch refresh c of
                      (refreshed, c) \<Rightarrow>
                        if succeeded refreshed then [Out (''governing_epoch='' @ gen_text (cl_epoch c))] else [])
              else [])))"

definition run_snapshot_command :: "link \<Rightarrow> string list \<Rightarrow> cli_session \<Rightarrow> cli_result" where
  "run_snapshot_command link ps s =
     (let print = (\<lambda>snapshot. [Out (set_snapshot_render snapshot), Out (''digest '' @ digest_to_hex (ss_digest snapshot))])
      in if length ps < 2 then usage_exit
      else case parse_set_id (positional_at ps 1) of
        None \<Rightarrow> usage_error ''invalid set identity''
      | Some sid \<Rightarrow>
          if length ps \<ge> 3
          then (case parse_snapshot_id (positional_at ps 2) of
                  None \<Rightarrow> usage_error ''invalid snapshot identity''
                | Some snapshot_id \<Rightarrow>
                    show_query print blank_snapshot (client_request_snapshot link sid snapshot_id (cs_client s)))
          else show_query print blank_snapshot (client_query_set link sid (cs_client s)))"

definition run_diff_command :: "link \<Rightarrow> string list \<Rightarrow> cli_session \<Rightarrow> cli_result" where
  "run_diff_command link ps s =
     (if length ps < 2 then usage_exit
      else case parse_set_id (positional_at ps 1) of
        None \<Rightarrow> usage_error ''invalid set identity''
      | Some sid \<Rightarrow>
          (case client_query_set link sid (cs_client s) of
             (outcome, received, _) \<Rightarrow>
               if \<not> succeeded outcome then report outcome
               else let current = (case received of None \<Rightarrow> blank_snapshot | Some snapshot \<Rightarrow> snapshot)
               in (exit_ok,
                   Out (''set '' @ id_text sid @ '' snapshot='' @ id_text (ss_snapshot_id current) @ '' generation='' @
                        gen_text (ss_generation current)) #
                   map (\<lambda>entry. Out (''history '' @ history_render entry)) (ss_history current))))"

definition run_explain_command :: "link \<Rightarrow> string list \<Rightarrow> cli_session \<Rightarrow> cli_result" where
  "run_explain_command link ps s =
     (if length ps < 2 then usage_exit
      else case parse_set_id (positional_at ps 1) of
        None \<Rightarrow> usage_error ''invalid set identity''
      | Some sid \<Rightarrow>
          show_query (\<lambda>explanation. [Out (set_explanation_render explanation)]) blank_explanation
            (client_explain_set link sid (cs_client s)))"

definition run_authority_command :: "cli_session \<Rightarrow> cli_result" where
  "run_authority_command s =
     (exit_ok, [Out (''epoch='' @ gen_text (cl_epoch (cs_client s)) @ '' session='' @ id_text (cl_session (cs_client s)) @
        '' publisher='' @ id_text (cs_publisher s) @ '' boot='' @ id_text (cs_boot s) @
        '' scope='' @ scope_render (cs_scope s))])"

definition run_command :: "string \<Rightarrow> link \<Rightarrow> link \<Rightarrow> string list \<Rightarrow> string list \<Rightarrow> cli_session \<Rightarrow> cli_result" where
  "run_command nonce link refresh arguments ps s =
     (let command = positional_at ps 0
      in if command = ''authority'' then run_authority_command s
      else if command = ''epoch'' then run_epoch_command nonce link refresh ps s
      else if command = ''path'' then run_path_command nonce link ps s
      else if command = ''set'' then run_set_command nonce link arguments ps s
      else if command = ''member'' then run_member_command nonce link ps s
      else if command = ''snapshot'' then run_snapshot_command link ps s
      else if command = ''diff'' then run_diff_command link ps s
      else if command = ''explain'' then run_explain_command link ps s
      else usage_exit)"

definition run_store_command :: "(string \<Rightarrow> bool) \<Rightarrow> files \<Rightarrow> string list \<Rightarrow> cli_result" where
  "run_store_command readable fs ps =
     (if length ps < 3 \<or> positional_at ps 1 \<noteq> ''inspect'' then usage_exit
      else case inspect_store_file readable fs (positional_at ps 2) of
        (outcome, statistics) \<Rightarrow>
          if succeeded outcome
          then (exit_ok, print_outcome outcome #
                  (case statistics of None \<Rightarrow> [] | Some st \<Rightarrow> [Out (statistics_render st)]))
          else (exit_rejected, [print_outcome outcome]))"

section \<open>The process\<close>

text \<open>What the process meets outside: the connect and the peer behind it, and the link of each call.\<close>

record surroundings =
  su_nonce :: string
  su_readable :: "string \<Rightarrow> bool"
  su_files :: files
  su_connect :: "string \<Rightarrow> u16 \<Rightarrow> fabric_outcome"
  su_hello :: peer
  su_links :: "nat \<Rightarrow> link"

definition run_connected :: "surroundings \<Rightarrow> string list \<Rightarrow> string list \<Rightarrow> client \<Rightarrow> cli_result" where
  "run_connected world arguments ps c =
     (case (parse_publisher_id (arg_text ''--publisher'' ''mpf-cli'' arguments),
            parse_worker_boot_id (arg_text ''--boot'' (''mpf-cli-'' @ su_nonce world) arguments),
            parse_fabric_id (arg_text ''--fabric'' ''fabric-main'' arguments),
            parse_namespace_id (arg_text ''--namespace'' ''mp-ns'' arguments)) of
        (Some publisher, Some boot, Some fabric, Some name_space) \<Rightarrow>
          (let scope = \<lparr>sc_fabric = fabric, sc_name_space = name_space, sc_set_ids = []\<rparr>
           in case client_register_publisher (su_links world 0) publisher boot scope c of
             (registered, c) \<Rightarrow>
               if \<not> succeeded registered then (exit_rejected, [print_outcome registered])
               else run_command (su_nonce world) (su_links world 1) (su_links world 2) arguments ps
                 \<lparr>cs_client = c, cs_publisher = publisher, cs_boot = boot, cs_scope = scope, cs_attempts = 0\<rparr>)
      | _ \<Rightarrow> usage_error ''publisher, boot, fabric and namespace must be valid identities'')"

definition mpf_main :: "surroundings \<Rightarrow> string list \<Rightarrow> cli_result" where
  "mpf_main world arguments =
     (let ps = positionals arguments; command = positional_at ps 0; port = arg_number ''--port'' 0 arguments;
          host = arg_text ''--host'' ''127.0.0.1'' arguments
      in if ps = [] \<or> arg_has ''--help'' arguments
      then (if arg_has ''--help'' arguments then exit_ok else exit_usage, [Usage])
      else if command = ''version''
      then (exit_ok, [Out (''Multipath Fabric 1.0.0 persistence_format='' @ nat_string (unat persistence_format_version) @
              '' wire_protocol='' @ nat_string (unat wire_protocol_version))])
      else if command = ''limits''
      then (exit_ok, map (\<lambda>(name, value). Out (name @ ''='' @ nat_string value)) (limits_describe default_limits))
      else if command = ''store'' then run_store_command (su_readable world) (su_files world) ps
      else if port = 0 \<or> port > 65535 then usage_error ''mpf requires --port N for coordinator commands''
      else case client_connect (su_connect world host (ucast port)) (su_hello world) (new_client (2 ^ 20)) of
        (connected, c) \<Rightarrow>
          if \<not> succeeded connected then (exit_transport, [print_outcome connected])
          else run_connected world arguments ps c)"

section \<open>Exit codes\<close>

lemma report_ok [simp]: "report_code outcome = exit_ok \<longleftrightarrow> succeeded outcome"
  by (cases "o_code outcome")
    (simp_all add: report_code_def is_transport_failure_def exit_ok_def exit_rejected_def exit_transport_def succeeded_def
      outcome_is_success_def)

text \<open>The header of \<open>mpf.cpp\<close> calls 3 a transport failure; a connection that is lost is PROTOCOL_ERROR and exits with 1.\<close>

lemma lost_connection_exit: "o_code outcome = OC_PROTOCOL_ERROR \<Longrightarrow> report_code outcome = exit_rejected"
  by (simp add: report_code_def is_transport_failure_def succeeded_def outcome_is_success_def)

text \<open>A command about paths, members or sets that exits with 0 starts its output with an outcome that succeeded.\<close>

definition accepted_result :: "cli_result \<Rightarrow> bool" where
  "accepted_result result \<longleftrightarrow>
     (fst result = exit_ok \<longrightarrow> (\<exists>outcome rest. snd result = print_outcome outcome # rest \<and> succeeded outcome))"

lemma usage_not_ok: "exit_usage \<noteq> exit_ok"
  by (simp add: exit_ok_def exit_usage_def)

lemma accepted_basic [simp, intro]: "accepted_result usage_exit" "accepted_result (usage_error text)"
  "accepted_result (mutate operation nonce s)" "accepted_result (show_query print blank answer)" "accepted_result (report outcome)"
  using usage_not_ok by (auto simp: accepted_result_def usage_exit_def usage_error_def mutate_def report_def show_query_def split: prod.split)

lemma accepted_list [simp, intro]: "accepted_result (run_list link s)"
  by (auto simp: accepted_result_def run_list_def split: prod.split)

lemma accepted_commands:
  "accepted_result (run_path_command nonce link ps s)"
  "accepted_result (run_member_command nonce link ps s)"
  "accepted_result (run_set_command nonce link arguments ps s)"
  "accepted_result (run_snapshot_command link ps s)"
  "accepted_result (run_explain_command link ps s)"
  by (simp_all add: run_path_command_def run_member_command_def run_existing_member_def run_set_command_def run_create_def
      run_existing_set_def run_snapshot_command_def run_explain_command_def Let_def split: option.split)

section \<open>Numbers\<close>

lemma of_nat_digits_val:
  "(of_nat m :: u64) = of_nat n \<Longrightarrow> (of_nat (digits_val m cs) :: u64) = of_nat (digits_val n cs)"
  by (induction cs arbitrary: m n) simp_all

lemma digits_value_eq:
  "\<forall>c \<in> set cs. \<exists>d < 10. c = digit_char d \<Longrightarrow> digits_value v cs = Some (of_nat (digits_val (unat v) cs))"
proof (induction cs arbitrary: v)
  case (Cons c cs)
  then obtain d where d: "d < 10" "c = digit_char d" by auto
  have "of_nat (digits_val (unat (v * 10 + of_nat d)) cs) = (of_nat (digits_val (unat v * 10 + d) cs) :: u64)"
    by (rule of_nat_digits_val) simp
  then show ?case using Cons d digit_char_range [OF d(1)] by (simp add: not_less)
qed simp

text \<open>What is printed of a number is read back; a number that does not fit wraps, and what is no number is 0.\<close>

lemma typed_number_string: "typed_number (u64_string n) = n"
  using digits_value_eq [of "u64_string n" 0] nat_string_digits
  by (auto simp: typed_number_def u64_string_def digits_val_nat_string)

lemma typed_number_wraps: "typed_number ''18446744073709551617'' = 1"
  by code_simp

lemma typed_number_malformed: "typed_number ''many'' = 0"
  by code_simp

section \<open>Options\<close>

text \<open>An option with its value may stand before, between or behind the words of a command.\<close>

lemma positionals_words: "\<forall>w \<in> set ws. \<not> is_option w \<Longrightarrow> positionals (ws @ tokens) = ws @ positionals tokens"
  by (induction ws) auto

lemma positionals_option:
  assumes "\<forall>w \<in> set ws. \<not> is_option w" and "is_option option" and "\<not> is_boolean_option option"
  shows "positionals (ws @ option # argument # tokens) = positionals (ws @ tokens)"
  using assms by (simp add: positionals_words)

end
