(* ===== verification/Processes.thy ===== *)
theory Processes
  imports Command_Line Coordinator_System Store_Saving
begin

text \<open>
  The two processes of \<open>src/tools\<close>: \<open>mpf_coordinator\<close>, which loads a store, serves the engine, saves it
  after every committed answer and at the end; and \<open>mpf_publisher\<close>, which registers a worker and publishes
  a population of sets. \<open>None\<close> as exit code is a process that goes on.
\<close>

section \<open>The coordinator process: start\<close>

definition server_limits :: "string list \<Rightarrow> limits" where
  "server_limits arguments =
     (let sessions = arg_number ''--max-sessions'' 0 arguments
      in if sessions \<noteq> 0 then default_limits\<lparr>max_sessions := unat sessions\<rparr> else default_limits)"

definition quietly :: "string list \<Rightarrow> cli_output list \<Rightarrow> cli_output list" where
  "quietly arguments output = (if arg_has ''--quiet'' arguments then [] else output)"

definition autosaves :: "string list \<Rightarrow> bool" where
  "autosaves arguments \<longleftrightarrow> \<not> arg_has ''--no-autosave'' arguments \<and> arg_text ''--store'' [] arguments \<noteq> []"

definition load_phase ::
  "(string \<Rightarrow> bool) \<Rightarrow> files \<Rightarrow> string list \<Rightarrow> engine \<Rightarrow> nat option \<times> cli_output list \<times> engine" where
  "load_phase readable fs arguments e =
     (let store = arg_text ''--store'' [] arguments
      in if store \<noteq> [] \<and> fs store \<noteq> None
      then (case load_store readable fs store e of
              (loaded, e) \<Rightarrow>
                if \<not> succeeded loaded
                then (Some 3, quietly arguments [Out (''LOAD '' @ outcome_render loaded)] @ [Out ''EXIT LOAD_FAILED''], e)
                else (None, quietly arguments [Out (''LOAD '' @ outcome_render loaded)], e))
      else (None, quietly arguments [Out (''LOAD FRESH epoch='' @ gen_text (e_epoch e))], e))"

text \<open>
  The port and the frame timeout are narrowed to 16 and 32 bits. \<open>listen\<close> is \<open>tcp_listen\<close>; \<open>announce\<close> is whether
  the announcement file can be written, with its name and content; \<open>nonce\<close> is that of the process.
\<close>

definition frame_timeout_option :: "string list \<Rightarrow> u32" where
  "frame_timeout_option arguments = ucast (arg_number ''--frame-timeout-ms'' 30000 arguments)"

definition serve_phase ::
  "string \<Rightarrow> (string \<Rightarrow> u16 \<Rightarrow> fabric_outcome \<times> u16) \<Rightarrow> (string \<Rightarrow> string \<Rightarrow> bool) \<Rightarrow> string list \<Rightarrow> engine \<Rightarrow>
   nat option \<times> cli_output list \<times> server" where
  "serve_phase nonce listen announce arguments e =
     (let host = arg_text ''--bind'' ''127.0.0.1'' arguments;
          port_file = arg_text ''--port-file'' [] arguments;
          sv = \<lparr>se_running = False, se_stopping = False, se_port = 0,
                se_coordinator = coordinator_init (server_limits arguments) nonce e\<rparr>
      in case server_start host (listen host (ucast (arg_number ''--port'' 0 arguments))) sv of
        (started, sv) \<Rightarrow>
          if \<not> succeeded started then (Some 4, [Out (''EXIT '' @ outcome_render started)], sv)
          else
            (let port = nat_string (unat (se_port sv));
                 output = quietly arguments [Out (''LISTENING '' @ host @ '':'' @ port @ '' epoch='' @ gen_text (e_epoch e))]
             in if port_file \<noteq> [] \<and> \<not> announce port_file (''READY '' @ port @ '' '' @ gen_text (e_epoch e) @ [CHR 0x0A])
             then (Some 5, output @ [Err (''cannot write readiness announcement to '' @ port_file)], server_stop [] sv)
             else (None, output, sv)))"

definition coordinator_startup ::
  "(string \<Rightarrow> bool) \<Rightarrow> files \<Rightarrow> string \<Rightarrow> (string \<Rightarrow> u16 \<Rightarrow> fabric_outcome \<times> u16) \<Rightarrow> (string \<Rightarrow> string \<Rightarrow> bool) \<Rightarrow>
   string list \<Rightarrow> engine \<Rightarrow> nat option \<times> cli_output list \<times> server option" where
  "coordinator_startup readable fs nonce listen announce arguments e =
     (if arg_has ''--help'' arguments then (Some 0, [Usage], None)
      else case load_phase readable fs arguments e of
        (Some code, output, _) \<Rightarrow> (Some code, output, None)
      | (None, output, e) \<Rightarrow>
          (case serve_phase nonce listen announce arguments e of
             (code, output', sv) \<Rightarrow> (code, output @ output', Some sv)))"

section \<open>The coordinator process: saving\<close>

text \<open>The hook behind a committed answer; its failure is printed and changes nothing else.\<close>

definition autosave ::
  "(io_call \<Rightarrow> bool) \<Rightarrow> u8 list \<Rightarrow> string list \<Rightarrow> engine \<Rightarrow> files \<Rightarrow> cli_output list \<times> files" where
  "autosave io partial arguments e fs =
     (if \<not> autosaves arguments then ([], fs)
      else case save_store io partial (arg_text ''--store'' [] arguments) e fs of
        (saved, states) \<Rightarrow>
          (if succeeded saved then [] else [Err (''autosave failed: '' @ outcome_render saved)], last states))"

definition coordinator_shutdown ::
  "(io_call \<Rightarrow> bool) \<Rightarrow> u8 list \<Rightarrow> string list \<Rightarrow> session_id list \<Rightarrow> server \<Rightarrow> files \<Rightarrow>
   cli_output list \<times> server \<times> files" where
  "coordinator_shutdown io partial arguments order sv fs =
     (let sv = server_stop order sv; e = co_engine (se_coordinator sv);
          stopped = Out (''STOPPED sets='' @ nat_string (om_size (e_sets e)))
      in if \<not> autosaves arguments then ([stopped], sv, fs)
         else case save_store io partial (arg_text ''--store'' [] arguments) e fs of
           (saved, states) \<Rightarrow> (quietly arguments [Out (''FINAL '' @ outcome_render saved)] @ [stopped], sv, last states))"

section \<open>The publisher process\<close>

record publisher_run =
  pb_client :: client
  pb_attempts :: u64
  pb_calls :: nat
  pb_output :: "cli_output list"

type_synonym remote_mutation = "link \<Rightarrow> mutation_context \<Rightarrow> client \<Rightarrow> fabric_outcome \<times> client"

text \<open>A call with the next attempt identity; the links answer the calls in order.\<close>

definition publisher_call :: "(nat \<Rightarrow> link) \<Rightarrow> remote_mutation \<Rightarrow> publisher_run \<Rightarrow> fabric_outcome \<times> publisher_run" where
  "publisher_call links operation p =
     (let n = pb_attempts p + 1
      in case operation (links (pb_calls p)) (empty_context\<lparr>cx_attempt := StrongId (''at-'' @ u64_string n)\<rparr>) (pb_client p) of
           (outcome, c) \<Rightarrow> (outcome, p\<lparr>pb_client := c, pb_attempts := n, pb_calls := Suc (pb_calls p)\<rparr>))"

definition say :: "string \<Rightarrow> publisher_run \<Rightarrow> publisher_run" where
  "say line p = p\<lparr>pb_output := pb_output p @ [Out line]\<rparr>"

text \<open>A loop whose body may leave the process with an exit code.\<close>

fun until_exit :: "('a \<Rightarrow> 's \<Rightarrow> nat option \<times> 's) \<Rightarrow> 'a list \<Rightarrow> 's \<Rightarrow> nat option \<times> 's" where
  "until_exit body [] p = (None, p)"
| "until_exit body (x # xs) p =
     (case body x p of
        (Some code, p) \<Rightarrow> (Some code, p)
      | (None, p) \<Rightarrow> until_exit body xs p)"

definition add_path ::
  "(nat \<Rightarrow> link) \<Rightarrow> string \<Rightarrow> path_authority_generation \<Rightarrow> set_id \<Rightarrow> nat \<Rightarrow> nat \<Rightarrow> publisher_run \<Rightarrow> nat option \<times> publisher_run" where
  "add_path links fabric_text generation sid s m p =
     (case parse_path_id (fabric_text @ ''/p'' @ nat_string s @ ''-'' @ nat_string m) of
        None \<Rightarrow> (Some 7, p\<lparr>pb_output := pb_output p @ [Err ''generated path identity is invalid'']\<rparr>)
      | Some path \<Rightarrow>
        (case publisher_call links (\<lambda>link ctx. client_declare_path_authority link ctx
                \<lparr>v_path = path, v_generation = generation, v_state = PA_AUTHORIZED\<rparr>) p of
           (declared, p) \<Rightarrow>
             if \<not> succeeded declared
             then (Some 8, say (''DECLARE '' @ id_text path @ '' '' @ outcome_render declared) p)
             else (case publisher_call links (\<lambda>link ctx. client_add_member link ctx sid path generation) p of
               (added, p) \<Rightarrow>
                 (if \<not> succeeded added then Some 9 else None,
                  say (''ADD_MEMBER '' @ id_text path @ '' '' @ outcome_render added) p))))"

definition populate_set ::
  "(nat \<Rightarrow> link) \<Rightarrow> string list \<Rightarrow> fabric_id \<Rightarrow> namespace_id \<Rightarrow> path_authority_generation \<Rightarrow> nat \<Rightarrow>
   publisher_run \<times> string \<Rightarrow> nat option \<times> (publisher_run \<times> string)" where
  "populate_set links arguments fabric name_space generation s state =
     (let (p, announced) = state;
          key = SetKey fabric name_space (StrongId (''set'' @ nat_string s));
          options = \<lparr>so_minimum = unat (arg_number ''--minimum'' 1 arguments), so_admin_enabled = True, so_conditional = False\<rparr>
      in case publisher_call links (\<lambda>link ctx. client_create_set link ctx key options) p of
        (created, p) \<Rightarrow>
          (let p = say (''CREATE_SET '' @ key_render key @ '' '' @ outcome_render created) p
           in case (succeeded created, o_set_id created) of
             (True, Some sid) \<Rightarrow>
               (let (code, p) =
                      (if arg_has ''--no-publish'' arguments then (None, p)
                       else case publisher_call links (\<lambda>link ctx. client_publish_set link ctx sid) p of
                         (published, p) \<Rightarrow>
                           (if \<not> succeeded published then Some 6 else None,
                            say (''PUBLISH '' @ id_text sid @ '' '' @ outcome_render published) p))
                in if code \<noteq> None then (code, p, announced)
                   else case until_exit (add_path links (arg_text ''--fabric'' ''fabric-main'' arguments) generation sid s)
                               [0..<unat (arg_number ''--members'' 3 arguments)] p of
                     (Some code, p) \<Rightarrow> (Some code, p, announced)
                   | (None, p) \<Rightarrow> (None, p, announced @ id_text sid @ '' ''))
           | _ \<Rightarrow> (Some 5, p, announced)))"

text \<open>Behind the registration, which is call 0. With a lifetime the process ends, without one it goes on.\<close>

definition publisher_serves ::
  "(nat \<Rightarrow> link) \<Rightarrow> (string \<Rightarrow> string \<Rightarrow> bool) \<Rightarrow> string list \<Rightarrow> fabric_id \<Rightarrow> namespace_id \<Rightarrow> publisher_run \<Rightarrow>
   nat option \<times> cli_output list" where
  "publisher_serves links announce arguments fabric name_space p =
     (let sets = arg_number ''--sets'' 1 arguments; ready_file = arg_text ''--ready-file'' [] arguments
      in case gen_from_value (arg_number ''--generation'' 1 arguments) of
        None \<Rightarrow> (Some 2, pb_output p @ [Err ''--generation must be at least 1''])
      | Some generation \<Rightarrow>
        (case until_exit (populate_set links arguments fabric name_space generation) [0..<unat sets] (p, []) of
           (Some code, p, _) \<Rightarrow> (Some code, pb_output p)
         | (None, p, announced) \<Rightarrow>
             (let output = pb_output p @ [Out (''READY sets='' @ u64_string sets @ '' members='' @
                        u64_string (arg_number ''--members'' 3 arguments))]
              in if ready_file \<noteq> [] \<and> \<not> announce ready_file (''READY '' @ u64_string sets @ '' '' @ announced @ [CHR 0x0A])
              then (Some 10, output @ [Err (''cannot write readiness announcement to '' @ ready_file)])
              else if arg_number ''--lifetime-ms'' 0 arguments = 0 then (None, output)
              else (Some 0, output @ [Out ''DONE'']))))"

definition publisher_main ::
  "(string \<Rightarrow> u16 \<Rightarrow> fabric_outcome) \<Rightarrow> peer \<Rightarrow> (nat \<Rightarrow> link) \<Rightarrow> (string \<Rightarrow> string \<Rightarrow> bool) \<Rightarrow> string list \<Rightarrow>
   nat option \<times> cli_output list" where
  "publisher_main tcp hello links announce arguments =
     (let port = arg_number ''--port'' 0 arguments
      in if arg_has ''--help'' arguments then (Some 0, [Usage])
      else if port = 0 \<or> port > 65535 then (Some 2, [Err ''mpf_publisher requires --port N''])
      else case (parse_publisher_id (arg_text ''--publisher'' ''publisher-a'' arguments),
                 parse_worker_boot_id (arg_text ''--boot'' ''boot-a1'' arguments),
                 parse_fabric_id (arg_text ''--fabric'' ''fabric-main'' arguments),
                 parse_namespace_id (arg_text ''--namespace'' ''mp-ns'' arguments)) of
        (Some publisher, Some boot, Some fabric, Some name_space) \<Rightarrow>
          (case client_connect (tcp (arg_text ''--host'' ''127.0.0.1'' arguments) (ucast port)) hello (new_client (2 ^ 20)) of
             (connected, c) \<Rightarrow>
               if \<not> succeeded connected then (Some 3, [Err (''connect failed: '' @ outcome_render connected)])
               else (case client_register_publisher (links 0) publisher boot
                       \<lparr>sc_fabric = fabric, sc_name_space = name_space, sc_set_ids = []\<rparr> c of
                 (registered, c) \<Rightarrow>
                   if \<not> succeeded registered then (Some 4, [Out (''REGISTER '' @ outcome_render registered)])
                   else publisher_serves links announce arguments fabric name_space
                     \<lparr>pb_client = c, pb_attempts = 0, pb_calls = 1,
                      pb_output = [Out (''REGISTER '' @ outcome_render registered)]\<rparr>))
      | _ \<Rightarrow> (Some 2, [Err ''publisher, boot, fabric and namespace must be valid identities'']))"

section \<open>What a started coordinator serves\<close>

lemma load_phase_registrations:
  assumes "load_phase readable fs arguments e = (code, output, e')" and "e_registrations e = om_empty"
  shows "e_registrations e' = om_empty"
proof (cases "e' = e")
  case False
  then obtain loaded where "load_store readable fs (arg_text ''--store'' [] arguments) e = (loaded, e')"
    using assms(1) by (auto simp: load_phase_def Let_def split: if_splits prod.splits)
  then have "dormant e'" using load_store_dormant False by blast
  then show ?thesis by (simp add: dormant_def)
qed (use assms(2) in simp)

text \<open>A coordinator that came up is in a start state of the coordinator, so that its reachable states are covered.\<close>

lemma startup_starts:
  assumes "coordinator_startup readable fs nonce listen announce arguments e = (None, output, Some sv)"
    and "e_registrations e = om_empty" and "factory_ok \<lparr>f_prefix = ''sess'', f_nonce = nonce, f_counter = 0\<rparr>"
    and "engine_ok (co_engine (se_coordinator sv))"
  shows "co_start (se_coordinator sv)" and "se_running sv"
proof -
  obtain output1 e' where l: "load_phase readable fs arguments e = (None, output1, e')"
    using assms(1) by (auto simp: coordinator_startup_def split: if_splits prod.splits option.splits)
  obtain output2 where s: "serve_phase nonce listen announce arguments e' = (None, output2, sv)"
    using assms(1) l by (auto simp: coordinator_startup_def split: if_splits prod.splits)
  have sv: "se_coordinator sv = coordinator_init (server_limits arguments) nonce e'" "se_running sv"
    using s by (auto simp: serve_phase_def server_start_def Let_def split: if_splits prod.splits)
  then show "co_start (se_coordinator sv)" "se_running sv"
    using assms(3,4) load_phase_registrations [OF l assms(2)] by (auto simp: co_start_def coordinator_init_def)
qed

text \<open>
  The backup of a save is not looked at when the store itself is missing: the process starts with a fresh
  engine although \<open>load_store\<close> would recover the previous state.
\<close>

lemma load_phase_fresh:
  "fs (arg_text ''--store'' [] arguments) = None \<Longrightarrow>
     load_phase readable fs arguments e = (None, quietly arguments [Out (''LOAD FRESH epoch='' @ gen_text (e_epoch e))], e)"
  by (simp add: load_phase_def)

lemma rotated_state:
  assumes save: "save_files io partial path file fs = (result, states)" and old: "fs path = Some old"
    and io: "io IO_open_temporary" "io IO_write_temporary" "io IO_stat_target" "io IO_rotate_target"
  shows "\<exists>fs' \<in> set states. fs' path = None \<and> fs' (backup_name path) = Some old"
proof -
  let ?written = "fs(temporary_name path := Some file)"
  let ?rotated = "rename_file path (backup_name path) (if io IO_remove_backup then ?written(backup_name path := None) else ?written)"
  have "?rotated \<in> set states"
    using save old io by (auto simp: save_files_def replace_target_def Let_def split: if_splits prod.splits)
  moreover have "?rotated path = None" "?rotated (backup_name path) = Some old" using old by (simp_all add: rename_file_def)
  ultimately show ?thesis by blast
qed

end
