(* ===== verification/Spec2Isabelle.thy ===== *)
theory Spec2Isabelle
  imports Bytes Diff Explanation_Facts Event_Callers Request_Replay Worked_Life Worked_Revalidation Worked_Remote
    Socket_Loops Processes
begin

text \<open>
  Multipath-Fabric is a library that keeps \<^emph>\<open>multipath sets\<close>: named groups of network paths with a
  minimum of usable members, an authority that may change them and a currentness that consumers can rely
  on. Its core is the engine \<open>FabricEngine\<close> (\<open>include/multipath_fabric/fabric.hpp\<close>,
  \<open>src/engine_impl.hpp\<close>, \<open>src/fabric_*.cpp\<close>): one state under one lock, changed by the operations
  of publishers, by the coordinator (registrations, fences, epochs) and by views of an external Path
  Authority, and read by queries. Around it are a durable store, a wire protocol, a coordinator that serves
  the engine to sessions over sockets, and a client. This development models the core, everything it is
  built from, and these parts around it.

  \<^bold>\<open>Theories and code.\<close>
  \<^item> \<open>MPF_Prelude\<close>, \<open>Ordered_Map\<close>: words, decimal texts, index laws; \<open>std::map\<close> and \<open>std::set\<close> as
    ordered association lists (the order is what iteration in the code sees). Diagnostic texts are wrapped
    in \<open>msg\<close>, which keeps them as the code builds them and out of the way of the simplifier.
  \<^item> \<open>Checked\<close> (\<open>detail/checked.hpp\<close>), \<open>Ids\<close> (\<open>ids.hpp\<close>, \<open>ids.cpp\<close>), \<open>Bytes\<close>
    (\<open>detail/bytes\<close>), \<open>Lifecycle\<close>, \<open>Outcome\<close>, \<open>Path_Authority\<close>, \<open>Authority\<close>, \<open>Records\<close>
    (\<open>detail/records\<close>, \<open>snapshot.hpp\<close>): the data, its grammars, tables and encodings.
  \<^item> \<open>Set_State\<close>: the steps of the engine on one set (\<open>recompute_locked\<close>, \<open>apply_transition_locked\<close>,
    watermarks, evaluation of members, consequences); \<open>Set_Invariant\<close>: what they keep.
  \<^item> \<open>Engine\<close>: the state \<open>FabricEngine::Impl\<close> as the record \<open>engine\<close>, admission of a request
    (\<open>authority_check_locked\<close>, \<open>attempt_check_locked\<close>), commit, archive pruning, indexes, snapshots,
    \<open>apply_view_locked\<close>; \<open>Engine_Invariant\<close>: the invariant \<open>engine_ok\<close> and what these keep of it.
  \<^item> \<open>Set_Ops\<close> (\<open>fabric_mutation.cpp\<close>), \<open>Membership_Ops\<close> (\<open>fabric_membership.cpp\<close>),
    \<open>Revalidation_Ops\<close> (\<open>fabric_revalidation.cpp\<close>), \<open>Authority_Ops\<close> (\<open>fabric_authority.cpp\<close>),
    \<open>Fabric_Query\<close> (\<open>fabric_query.cpp\<close>), \<open>Diff\<close> (\<open>diff.cpp\<close>): every operation, each with its
    lemma that it keeps \<open>engine_ok\<close>.
  \<^item> \<open>Explanation\<close> (\<open>explanation.cpp\<close>): the explanations of readiness and membership.
  \<^item> \<open>Fabric_System\<close>: the engine as a transition system. An event is one critical section; an operation
    that consults Path Authority before it takes the lock becomes the event of its locked part with
    arbitrary views, so every interleaving of callers is a sequence of events. Runs, reachability,
    invariants, monotonicity and simulation are the locales \<open>event_system\<close>, \<open>guarded_system\<close>,
    \<open>monotone_system\<close> and \<open>simulation\<close>, interpreted on the engine.
  \<^item> \<open>Engine_Order\<close> (what never goes back), \<open>Engine_Safety\<close> and \<open>Authority_Refinement\<close> (who may act),
    \<open>Event_Callers\<close> (which caller and which worker an event names), \<open>Fabric_Answers\<close> (rejections),
    \<open>Attempt_Replay\<close> and \<open>Request_Replay\<close> (exactly-once effects), \<open>Commit_Effects\<close>,
    \<open>Membership_Effects\<close>, \<open>Operation_Facts\<close>, \<open>Query_Facts\<close>, \<open>Explanation_Facts\<close> (what operations leave
    and queries tell), \<open>Known_Deviations\<close>: the lemmas behind the properties.
  \<^item> \<open>Fabric_Life\<close>: the engine over its whole life, a second interpretation of \<open>guarded_system\<close> whose events
    are the operations and the loads of a store.
  \<^item> \<open>Codec_Steps\<close>, \<open>Field_Codecs\<close>: encoders and decoders as compositions of fields, and the laws that
    carry every codec: what an encoder writes its decoder reads (\<open>carries\<close>), what a decoder accepts is
    well typed (\<open>ensures\<close>, \<open>Decoder_Post\<close>), how much an encoder writes (\<open>needs\<close>, \<open>Writer_Room\<close>).
  \<^item> \<open>Store_Codec\<close> (\<open>persistence.cpp\<close>: the format), \<open>Store_Files\<close> (its files, inspection and
    recovery); \<open>Store_Facts\<close> (round trip), \<open>Store_Types\<close> (what a file that decodes contains),
    \<open>Store_Crash\<close> (interrupted saves), \<open>Store_Recovery\<close>, \<open>Store_Saving\<close> (what a load leaves).
  \<^item> \<open>Wire_Frame\<close>, \<open>Wire_Request\<close>, \<open>Wire_Response\<close> (\<open>wire.cpp\<close>): message ids and frames, the
    codecs of requests and responses; \<open>Frame_Facts\<close> (which bytes are accepted), \<open>Request_Facts\<close> and
    \<open>Response_Facts\<close> (round trips), \<open>Wire_Types\<close> (what a message that decodes contains).
  \<^item> \<open>Coordinator\<close> (\<open>server.hpp\<close>, \<open>server.cpp\<close>): sessions, connections, the dispatch of every
    message to the engine, one frame, the loop and the thread of a session, start and stop; \<open>Client\<close>
    (\<open>client.hpp\<close>, \<open>client.cpp\<close>): connecting, the exchange of a frame, the remote form of every
    operation; \<open>Socket_Loops\<close> (\<open>socket.cpp\<close>): the loops that wait, receive and send, as partial
    functions over what the operating system answers, when they return and what their OK means.
  \<^item> \<open>Coordinator_System\<close>: the coordinator as a transition system over its engine. Events are accepts,
    frames, session ends and the reaper; the invariant \<open>co_ok\<close> ties every registration to an open
    session, and every run is a run of the engine (an interpretation of \<open>simulation\<close>). The thread of a
    session and a stop are such runs. \<open>Session_Authority\<close> (what the engine makes of the session in a
    request), \<open>Remote_Calls\<close> (client and coordinator over a connection that delivers).
  \<^item> \<open>Command_Line\<close> (\<open>tools/tool_common.hpp\<close>, \<open>tools/mpf.cpp\<close>): arguments, commands, exit codes;
    \<open>Processes\<close> (\<open>tools/mpf_coordinator.cpp\<close>, \<open>tools/mpf_publisher.cpp\<close>): the start and the end of the
    coordinator process and its saves, and the population of a publisher.
  \<^item> \<open>Worked_Example\<close>, \<open>Worked_Aftermath\<close>, \<open>Worked_Revalidation\<close>, \<open>Worked_Digest\<close>, \<open>Worked_Store\<close>,
    \<open>Worked_Wire\<close>, \<open>Worked_Remote\<close>, \<open>Worked_Life\<close>: one concrete history of the engine and of a coordinator over it, from
    which the examples of the properties are taken.

  \<^bold>\<open>Conventions.\<close> An operation is a function from its inputs and the engine to its outcome and the new
  engine; a rejection is an outcome whose code is not a success code. Generations, watermarks, digests
  and pending counters keep their width; limits, counts and thresholds, which the code compares but
  cannot overflow within the limits, are natural numbers. The nonce of the identity factory, the answers
  of the external Path Authority and the content of configured limits are parameters. The identity factory
  counts with 64 bits: creating operations are enabled while it has identities left
  (\<open>event_enabled\<close>); the code terminates otherwise.

  \<^bold>\<open>Runs and loads.\<close> \<open>fabric_event\<close> has every operation of the engine that changes its state but
  \<open>load_store\<close>, which replaces the state by the content of a file; \<open>life_event\<close> adds it. A reachable state is
  one that is reached by operations and loads (\<open>life.reach\<close>), where a load is enabled if the files hold nothing
  that decodes or the state of an engine that satisfied the invariant, with the same limits and identities that
  the loading engine will not issue (\<open>life_enabled\<close>; what a successful save of a storable state wrote is
  such a store). Properties of single states hold in all of these. Of the properties of runs, the refinement of the authority
  tables has the load as a transition of its own, the persistence of a fence asks that the loaded stores
  hold it, and those of the order of events and of stale tickets are about runs in which no store is loaded, because the load of
  an older store takes epoch, fences, sets and watermarks back. The runs of the coordinator contain no load: it
  loads before it serves, and they start from any engine that satisfies the invariant and has no registrations.

  What a socket answers -- the bytes of a receive, the outcome of a send -- is an input of the coordinator and
  of the client; a frame is dispatched in one event of the coordinator, whose critical sections are the
  events of the engine. A frame event requires identities for the largest batch a request can carry.
  No function uses fuel: loops over data are structural, and the loops over a socket, which need not end, are
  partial functions whose value is \<open>None\<close> when they do not; timeouts up to 2 to the 32 minus 100
  milliseconds end because the counter of waited milliseconds cannot wrap below them.

  \<^bold>\<open>Not modelled.\<close> The calls of the operating system under the sockets, the thread objects, signals. The file system is a map from names to contents
  whose operations can fail; which fail, and what a failed write leaves, are parameters. The mutex itself: the critical sections
  are the events. The random source of the nonce.
\<close>

section \<open>The state of the engine\<close>

text \<open>
  C1: every state that the engine reaches from its construction by any sequence of operations and loads -- any
  callers, any interleaving of critical sections, any answers of Path Authority, and any \<open>load_store\<close> whose
  files hold either nothing that decodes or the state of an engine that satisfied the invariant under the same
  limits and with identities the loading engine will not issue again -- satisfies the invariant
  \<open>engine_ok\<close>: every stored set has consistent tables and a derived lifecycle, the key index and the path
  index describe exactly the stored sets, registrations belong to the governing epoch and are not
  fenced, the attempt index is covered by the log, snapshots and counters are within their bounds and
  every identity drawn so far lies below the counter of the factory. (A file that decodes but was made by other
  means can hold a state that does not satisfy the invariant, and loading it installs that state.)
\<close>

theorem reachable_engine_ok: "life.reach config e \<Longrightarrow> engine_ok e"
  by (rule life.reach_inv)

theorem reachable_engine_ok_witness: "engine_ok ex_published \<and> engine_ok ex_reloaded"
  using reachable_engine_ok [OF ex_published_life] reachable_engine_ok [OF ex_reloaded_reach] by blast

text \<open>
  C2: a member counts as usable only on evidence. In every reachable state, a member whose lifecycle and
  currentness make it usable is administratively enabled, and the Path Authority view it was last
  evaluated against was at exactly the generation the member is bound to, in a state that authorises
  the path under the policy of the set.
\<close>

theorem usable_member_has_evidence:
  assumes "life.reach config e" and "om_find (e_sets e) sid = Some r" and "om_find (s_members r) path = Some m"
    and "m_usable m"
  shows "m_admin_enabled m \<and> m_path_id m = path \<and> m_observed_generation m = Some (m_bound m) \<and>
    (m_observed_state m = Some PA_AUTHORIZED \<or>
     s_conditional r \<and> m_observed_state m = Some PA_CONDITIONALLY_AUTHORIZED)"
  using set_coreD(1,2) [OF stored_set(3) [OF life.reach_inv [OF assms(1)] assms(2)]] assms(3,4)
  by (auto simp: tables_ok_def evidence_ok_def member_evidence_def)

theorem usable_member_has_evidence_witness:
  "\<exists>r m. om_find (e_sets ex_joined) ex_sid = Some r \<and> om_find (s_members r) ex_path = Some m \<and>
     m_admin_enabled m \<and> m_observed_generation m = Some (m_bound m)"
proof -
  obtain r m where m: "om_find (e_sets ex_joined) ex_sid = Some r" "om_find (s_members r) ex_path = Some m"
    "granted ex_request m" by (rule ex_joined_member)
  then have "m_usable m" by (simp add: granted_def)
  from usable_member_has_evidence [OF ex_joined_life m(1,2) this] m show ?thesis by blast
qed

section \<open>Authority\<close>

text \<open>
  C3: the engine refines the abstract authority machine. Along every run from a reachable state, loads
  included, the epoch, the workers that may act and the workers that are fenced move only by transitions of that
  machine: a worker is admitted only when it is not fenced, workers are dropped, one worker is fenced, the
  epoch grows and every worker of the old epoch is fenced with it, or a store is loaded, which sets the epoch to
  the successor of a stored epoch, admits nobody and leaves exactly the fences of that store. The last transition
  can lower the epoch and lift fences; it is possible only for the stores the run did load, so a run that
  loads none has only the others.
\<close>

theorem authority_refined:
  assumes "life.reach config e" and "life.run e levs e'"
  shows "(authority_life (loaded_authorities (e_limits e) levs))\<^sup>*\<^sup>* (abs_authority e) (abs_authority e') \<and>
    (no_store_loaded (e_limits e) levs \<longrightarrow> authority_transition\<^sup>*\<^sup>* (abs_authority e) (abs_authority e'))"
  using life_run_authority [OF assms(2) life.reach_inv [OF assms(1)]]
    quiet_run_authority [OF assms(2) life.reach_inv [OF assms(1)]] by blast

theorem authority_refined_witness:
  "authority_transition\<^sup>*\<^sup>* (abs_authority ex_start) (abs_authority ex_registered) \<and>
   (authority_life (loaded_authorities (e_limits ex_created) [ex_load]))\<^sup>*\<^sup>* (abs_authority ex_created) (abs_authority ex_reloaded)"
  using authority_refined [OF ex_start_life life_run_operations [OF ex_register_run]]
    authority_refined [OF ex_created_life ex_reload_run] by simp

text \<open>
  C4: a caller without authority is refused and changes nothing. An event with a mutation context is
  authorised if the caller has an identity, names the governing epoch, is not fenced and is registered under this
  epoch; \<open>advance_epoch\<close> is authorised if its caller has an identity, expects the governing epoch, is
  not fenced and is registered on the session it names. An event that is not authorised leaves the engine
  exactly as it was, and its answer is not a success. The other operations name no caller and are not covered:
  \<open>register_publisher\<close>, \<open>unregister_publisher\<close>, \<open>fence_worker\<close>, \<open>abandon_member_revalidation\<close>,
  the binding of a Path Authority and the reconciliation of a path, which anybody can call.
\<close>

theorem unauthorised_changes_nothing:
  assumes "\<not> event_authorised ev e"
  shows "perform ev e = e \<and> (\<forall>o1 e'. respond ev e = Some (o1, e') \<longrightarrow> \<not> succeeded o1)"
  using event_unauthorised [OF assms] .

theorem unauthorised_changes_nothing_witness:
  "perform (Ev_publish (ex_ctx ''a-2'') ex_sid) ex_start = ex_start \<and>
   perform (Ev_advance_epoch ex_publisher ex_boot ex_session gen_first (StrongId ''a-3'')) ex_start = ex_start"
proof -
  have "\<not> event_authorised (Ev_publish (ex_ctx ''a-2'') ex_sid) ex_start"
    "\<not> event_authorised (Ev_advance_epoch ex_publisher ex_boot ex_session gen_first (StrongId ''a-3'')) ex_start"
    by (simp_all add: event_authorised_def event_context_def caller_authorised_def ex_start_def engine_init_def)
  from this [THEN unauthorised_changes_nothing] show ?thesis by blast
qed

text \<open>
  C5: a fence is for ever, as long as the stores hold it. Once a worker boot is fenced, it stays fenced along
  every run, and no later event that names it changes the engine: no request with a context of that
  worker, no \<open>advance_epoch\<close> by it, no \<open>register_publisher\<close>, \<open>unregister_publisher\<close> or
  \<open>fence_worker\<close> of it; it cannot register again. The condition is on the loads of the run: every store it loads
  holds the fence. A load of a store from before the fence lifts it. Events that name no worker -- a ticket
  abandoned, a Path Authority bound, a path reconciled -- are not about it.
\<close>

theorem fenced_worker_is_powerless:
  assumes "life.reach config e" and "om_has (e_fences e) (publisher, boot)" and "life.run e levs e'"
    and "loads_keep_fence (e_limits e) levs (publisher, boot)"
  shows "om_has (e_fences e') (publisher, boot) \<and>
    (\<forall>ev. event_worker ev = Some (publisher, boot) \<longrightarrow> perform ev e' = e') \<and>
    (\<forall>scope session. \<not> succeeded (fst (register_publisher publisher boot scope session e')))"
proof -
  have fenced: "om_has (e_fences e') (publisher, boot)"
    by (rule life_run_fenced [OF assms(3) life.reach_inv [OF assms(1)] assms(2,4)])
  have "engine_ok e'" by (rule life.reach_inv [OF life.reach_run [OF assms(1,3)]])
  with fenced show ?thesis
    using fenced_worker_event fenced_cannot_register by (auto simp: om_has_def)
qed

theorem fenced_worker_is_powerless_witness:
  "perform (Ev_publish (ex_ctx ''a-2'') ex_sid) ex_fenced = ex_fenced \<and>
   perform (Ev_unregister ex_publisher ex_boot) ex_fenced = ex_fenced"
proof -
  have w: "event_worker (Ev_publish (ex_ctx ''a-2'') ex_sid) = Some (ex_publisher, ex_boot)"
    "event_worker (Ev_unregister ex_publisher ex_boot) = Some (ex_publisher, ex_boot)"
    by (simp_all add: event_worker_def event_context_def worker_of_def ex_ctx_def)
  have "loads_keep_fence (e_limits ex_fenced) [] (ex_publisher, ex_boot)" by (simp add: loads_keep_fence_def)
  from fenced_worker_is_powerless [OF ex_fenced_life ex_fenced_has life.run_nil this] w
  show ?thesis by blast
qed

text \<open>
  C6: an epoch ends the authority of the one before. After a successful \<open>advance_epoch\<close> the epoch has
  grown, nobody is registered, every worker that was registered is fenced, and every set stays in its
  lifecycle but needs revalidation at the new epoch, so that no set is consumable.
\<close>

theorem epoch_advance_invalidates:
  assumes "engine_ok e" and "advance_epoch publisher boot session expected attempt e = (o1, e')"
    and "o_code o1 = OC_EPOCH_ADVANCED"
  shows "gen_next (e_epoch e) = Some (e_epoch e') \<and> e_registrations e' = om_empty \<and>
    (\<forall>k. om_has (e_registrations e) k \<longrightarrow> om_has (e_fences e') k) \<and>
    (\<forall>sid r. om_find (e_sets e) sid = Some r \<longrightarrow> (\<exists>r'. om_find (e_sets e') sid = Some r' \<and>
       s_lifecycle r' = s_lifecycle r \<and> s_currentness r' = SC_REVALIDATION_REQUIRED \<and>
       s_governing_epoch r' = e_epoch e' \<and> \<not> set_is_consumable r'))"
  using epoch_advanced_effects [OF assms] .

theorem epoch_advance_invalidates_witness: "e_registrations ex_advanced = om_empty"
proof -
  obtain o1 where a: "advance_epoch ex_publisher ex_boot ex_session gen_first (StrongId ''a-3'') ex_created = (o1, ex_advanced)"
    by (simp add: ex_advanced_def prod_eq_iff)
  moreover from this have "o_code o1 = OC_EPOCH_ADVANCED" using ex_advance_code by simp
  ultimately show ?thesis using epoch_advance_invalidates [OF ex_created_ok] by blast
qed

text \<open>
  C7: a fence reaches the sets of its publisher and no other. After \<open>fence_worker\<close> succeeded, the worker
  is fenced and not registered; the sets whose last change the publisher made need revalidation and keep
  lifecycle and generation; every other set is the same record as before.
\<close>

theorem fence_is_selective:
  assumes "engine_ok e" and "fence_worker publisher boot cause e = (o1, e')" and "o_code o1 = OC_WORKER_FENCED"
  shows "om_has (e_fences e') (publisher, boot) \<and> \<not> om_has (e_registrations e') (publisher, boot) \<and>
    (\<forall>sid r. om_find (e_sets e) sid = Some r \<longrightarrow> (\<exists>r'. om_find (e_sets e') sid = Some r' \<and>
       (if pv_publisher (s_provenance r) = publisher
        then s_currentness r' = SC_REVALIDATION_REQUIRED \<and> s_lifecycle r' = s_lifecycle r \<and> s_generation r' = s_generation r
        else r' = r)))"
  using fence_effects [OF assms] .

theorem fence_is_selective_witness: "\<not> om_has (e_registrations ex_fenced) (ex_publisher, ex_boot)"
proof -
  obtain o1 where a: "fence_worker ex_publisher ex_boot ''crash'' ex_created = (o1, ex_fenced)"
    by (simp add: ex_fenced_def prod_eq_iff)
  moreover from this have "o_code o1 = OC_WORKER_FENCED" using ex_fence_code by simp
  ultimately show ?thesis using fence_is_selective [OF ex_created_ok] by blast
qed

section \<open>The order of events\<close>

text \<open>
  C8: nothing goes back while no store is loaded. Along every run from a reachable state in which no
  \<open>load_store\<close> finds a store that decodes, the epoch and the authority generation
  only grow and no fence is lifted; no set disappears; a set keeps its identity and its key, its generation,
  its membership generation and its watermark never decrease, it never becomes DECLARED again, a
  terminal lifecycle stays terminal and RETIRED stays RETIRED. A load is excluded because it replaces all of
  this by what the file holds: the load of an older store lowers the epoch, lifts fences and brings sets back.
\<close>

theorem history_moves_forward:
  assumes "life.reach config e" and "life.run e levs e'" and "no_store_loaded (e_limits e) levs"
  shows "e_epoch e \<le> e_epoch e' \<and> e_authority_generation e \<le> e_authority_generation e' \<and>
    (\<forall>k f. om_find (e_fences e) k = Some f \<longrightarrow> om_find (e_fences e') k = Some f) \<and>
    (\<forall>sid r. om_find (e_sets e) sid = Some r \<longrightarrow> (\<exists>r'. om_find (e_sets e') sid = Some r' \<and>
       s_id r' = s_id r \<and> s_key r' = s_key r \<and> s_generation r \<le> s_generation r' \<and>
       s_membership_generation r \<le> s_membership_generation r' \<and> s_watermark r \<le> s_watermark r' \<and>
       (s_lifecycle r \<noteq> SL_DECLARED \<longrightarrow> s_lifecycle r' \<noteq> SL_DECLARED) \<and>
       (s_terminal r \<longrightarrow> s_terminal r') \<and> (s_lifecycle r = SL_RETIRED \<longrightarrow> s_lifecycle r' = SL_RETIRED)))"
  using quiet_run_forward [OF assms(2) life.reach_inv [OF assms(1)] assms(3)]
  unfolding engine_forward_def sets_forward_def record_forward_def clocks_frame_def lifecycle_forward_def
    terminal_lifecycle_record [symmetric] by blast

theorem history_moves_forward_witness: "\<exists>r. om_find (e_sets ex_published) ex_sid = Some r \<and> s_key r = ex_key"
  using history_moves_forward [OF ex_created_life life_run_operations [OF ex_publish_run]] by force

section \<open>Requests and their answers\<close>

text \<open>
  C9: a logged request takes effect once. The logged requests are \<open>create_set\<close>, \<open>supersede_set\<close>, the fifteen
  mutations of one set and its members (publication, minimum, policy, administrative state, withdrawal and its
  completion, revocation, retirement, \<open>add_members\<close>, removal, withdrawal, replacement and administrative
  state of a member, \<open>revalidate_set\<close>, \<open>revalidate_member\<close>), \<open>declare_path_authority\<close> and
  \<open>apply_path_authority\<close>. When one of them succeeded under an attempt identity that was
  not in the log, the same request under that identity is answered from the log -- IDEMPOTENT, with the
  code of the original in its text -- and leaves the engine as it is. The two halves of a two-phase revalidation are
  not logged requests: \<open>complete_member_revalidation\<close> records its attempt without looking it up, so that a
  repetition is executed or rejected anew.
\<close>

theorem replay_has_no_effect:
  assumes "life.reach config e" and "logged_request ev = Some (ctx, operation, flds)" and "event_enabled ev e"
    and "respond ev e = Some (o1, e')" and "succeeded o1" and "fresh_attempt ctx e" and "0 < max_attempts (e_limits e)"
  shows "respond ev e' = Some (replay_of o1, e') \<and> o_code (replay_of o1) = OC_IDEMPOTENT"
  using request_replayed [OF life.reach_inv [OF assms(1)] assms(2-)] by (simp add: replay_of_def)

theorem replay_has_no_effect_witness:
  "respond (Ev_publish (ex_ctx ''a-2'') ex_sid) ex_published = Some (replay_of ex_published_outcome, ex_published)"
  using replay_has_no_effect [OF ex_created_life set_requests_are_logged [OF ex_publish_request(1)] ex_publish_request(2)
      ex_publish(2) ex_publish_request(3) ex_fresh ex_publish_request(4)] by simp

text \<open>
  C10: an attempt identity names one request. After a logged request (the operations of C9) succeeded under an
  attempt identity that was not in the log, another logged request under the same
  attempt identity, with another fingerprint and from whatever caller, fails and leaves the engine as it is. The second request is not
  \<open>complete_member_revalidation\<close>, which does not consult the log and can succeed under a used identity.
\<close>

theorem reused_attempt_conflicts:
  assumes "life.reach config e" and "logged_request ev = Some (ctx, operation, flds)"
    and "respond ev e = Some (o1, e')" and "succeeded o1" and "fresh_attempt ctx e" and "0 < max_attempts (e_limits e)"
    and "logged_request ev' = Some (ctx', operation', flds')" and "cx_attempt ctx' = cx_attempt ctx"
    and "fingerprint_request operation flds \<noteq> fingerprint_request operation' flds'"
    and "respond ev' e' = Some (o2, e'')"
  shows "\<not> succeeded o2 \<and> e'' = e'"
  by (rule request_conflict [OF life.reach_inv [OF assms(1)] assms(2-)])

theorem reused_attempt_conflicts_witness:
  "snd (publish_set (ex_ctx ''a-2'') (StrongId ''x'') ex_published) = ex_published"
proof -
  let ?ev = "Ev_publish (ex_ctx ''a-2'') (StrongId ''x'')"
  have r: "set_request ?ev = Some (ex_ctx ''a-2'', StrongId ''x'', ''publish_set'', [''publish_set'', ''x''])"
    by (simp add: set_request_def)
  have a: "respond ?ev ex_published = Some (fst (publish_set (ex_ctx ''a-2'') (StrongId ''x'') ex_published),
      snd (publish_set (ex_ctx ''a-2'') (StrongId ''x'') ex_published))" by simp
  show ?thesis
    using reused_attempt_conflicts [OF ex_created_life set_requests_are_logged [OF ex_publish_request(1)] ex_publish(2)
        ex_publish_request(3) ex_fresh ex_publish_request(4) set_requests_are_logged [OF r] refl ex_other_fingerprint a] by simp
qed

text \<open>
  C11: a rejected mutation has no effect. An answer that is not a success comes with the unchanged engine, for
  every operation with an answer but these: \<open>set_minimum_usable_members\<close>, \<open>set_conditional_authority_policy\<close>,
  \<open>set_admin_enabled\<close>, \<open>revalidate_set\<close>, \<open>revalidate_member\<close> and \<open>complete_member_revalidation\<close>, which can
  change the state before they reject, and \<open>register_publisher\<close> when the authority generation is
  exhausted, where it has already dropped the other registrations of the session.
\<close>

theorem rejection_has_no_effect:
  assumes "checks_first ev e" and "respond ev e = Some (o1, e')" and "\<not> succeeded o1"
  shows "e' = e"
  using checks_first_atomic [OF assms(1,2)] assms(3) by (simp add: atomic_answer_def)

theorem rejection_has_no_effect_witness:
  "snd (retire_set (ex_ctx ''a-2'') (StrongId []) ''done'' ex_created) = ex_created"
proof -
  have r: "respond (Ev_retire (ex_ctx ''a-2'') (StrongId []) ''done'') ex_created =
      Some (fst (retire_set (ex_ctx ''a-2'') (StrongId []) ''done'' ex_created),
        snd (retire_set (ex_ctx ''a-2'') (StrongId []) ''done'' ex_created))" by simp
  moreover have "\<not> succeeded (fst (retire_set (ex_ctx ''a-2'') (StrongId []) ''done'' ex_created))"
    by (simp add: retire_set_def id_valid_def malformed_def outcome_is_success_def)
  ultimately show ?thesis by (rule rejection_has_no_effect [rotated]) (simp add: checks_first_def)
qed

section \<open>Members and Path Authority\<close>

text \<open>
  C12: an applied view leaves nothing stale behind and touches nothing else. After \<open>apply_view\<close> has brought a
  Path Authority view of a path to all dependent sets -- the answer that there is no record counts as a
  view -- every member on that path that is still usable in a set that is not terminal is bound to exactly
  the generation of the view, and the state of the view authorises it; a set without a relation to the
  path is the same record as before.
\<close>

theorem applied_view_is_binding:
  assumes "life.reach config e" and "e' = snd (apply_view path view ctx cause e)"
  shows "(\<forall>sid r m. om_find (e_sets e') sid = Some r \<and> \<not> s_terminal r \<and> om_find (s_members r) path = Some m \<and> m_usable m \<longrightarrow>
      (\<exists>v. view = Some v \<and> v_generation v = m_bound m \<and>
        (v_state v = PA_AUTHORIZED \<or> s_conditional r \<and> v_state v = PA_CONDITIONALLY_AUTHORIZED))) \<and>
    (\<forall>sid r. om_find (e_sets e) sid = Some r \<and> \<not> om_has (s_members r) path \<longrightarrow> om_find (e_sets e') sid = Some r)"
  using apply_view_matches [OF life.reach_inv [OF assms(1)]] apply_view_untouched [OF life.reach_inv [OF assms(1)]]
  unfolding assms(2) view_matches_def classify_current_iff by blast

theorem applied_view_is_binding_witness:
  "\<exists>r. om_find (e_sets (snd (apply_view ex_path None None CA_PATH_INVALIDATED ex_joined))) ex_sid = Some r \<and>
     (s_terminal r \<or> (\<forall>m. om_find (s_members r) ex_path = Some m \<longrightarrow> \<not> m_usable m))"
proof -
  obtain r0 where r0: "om_find (e_sets ex_joined) ex_sid = Some r0" by (rule ex_joined_member)
  obtain r where r: "om_find (e_sets (snd (apply_view ex_path None None CA_PATH_INVALIDATED ex_joined))) ex_sid = Some r"
    using apply_view_forward [OF life.reach_inv [OF ex_joined_life], of ex_path None None CA_PATH_INVALIDATED] r0
    unfolding engine_forward_def sets_forward_def by blast
  with applied_view_is_binding [OF ex_joined_life refl] show ?thesis by blast
qed

text \<open>
  C13: a batch is admitted whole. When \<open>add_members\<close> went through -- one critical section with one view per
  request -- every request of the batch has its relation in the stored set: on its path, bound to its
  generation, new, enabled and usable; and the archive of the set respects its bound.
\<close>

theorem batch_is_published:
  assumes "life.reach config e" and "length views = length requests"
    and "add_members_locked ctx sid requests operation bulk views e = ((o1, e'), True)" and "succeeded o1"
  shows "\<exists>r'. om_find (e_sets e') sid = Some r' \<and>
    archived_member_count r' \<le> max_archived_members_per_set (e_limits e) \<and>
    (\<forall>q \<in> set requests. \<exists>m. om_find (s_members r') (mr_path_id q) = Some m \<and> m_path_id m = mr_path_id q \<and>
       m_bound m = mr_generation q \<and> m_usable m \<and> m_admin_enabled m \<and> m_generation m = gen_first \<and> m_pending m = 0)"
  using add_members_stored [OF assms(3,4) life.reach_inv [OF assms(1)] assms(2)] unfolding granted_def by blast

theorem batch_is_published_witness:
  "\<exists>r m. om_find (e_sets ex_joined) ex_sid = Some r \<and> om_find (s_members r) ex_path = Some m \<and> m_usable m"
proof -
  obtain o1 where "add_members_locked (ex_ctx ''a-2'') ex_sid [ex_request] ''add_member'' False [Some ex_view] ex_created =
     ((o1, ex_joined), True)" "succeeded o1" using ex_join_reached by blast
  from batch_is_published [OF ex_created_life _ this] show ?thesis by (auto simp: ex_request_def)
qed

text \<open>
  C14: a revalidation cannot outlive what it was based on, as long as no store is loaded. If, at some moment after
  \<open>begin_member_revalidation\<close> issued a ticket, the set had another watermark or the engine another epoch
  than when it was issued, then completing the ticket fails at every later moment of every run in which no
  \<open>load_store\<close> finds a store that decodes, whatever operations happened in
  between and whatever view it brings. (A load of an older store can bring the epoch and the watermarks back to the
  values in the ticket.)
\<close>

theorem stale_ticket_never_completes:
  assumes "life.reach config e" and "begin_member_revalidation ctx sid mid attempt e = (b, e1)" and "rb_ticket b = Some tk"
    and "life.run e1 levs em" and "life.run em levs' e2" and "no_store_loaded (e_limits e1) (levs @ levs')"
    and "e_epoch em \<noteq> e_epoch e1 \<or>
      (\<exists>r r'. om_find (e_sets e1) sid = Some r \<and> om_find (e_sets em) sid = Some r' \<and> s_watermark r' \<noteq> s_watermark r)"
  shows "\<not> succeeded (fst (complete_member_revalidation ctx' tk view e2))"
  by (rule quiet_stale_ticket [OF life.reach_inv [OF assms(1)] assms(2-)])

theorem stale_ticket_never_completes_witness:
  "\<exists>tk. \<forall>ctx view. \<not> succeeded (fst (complete_member_revalidation ctx tk view ex_begun_advanced))"
proof -
  obtain b tk where b: "begin_member_revalidation (ex_ctx ''a-3'') ex_sid ex_mid (StrongId ''rv-1'') ex_joined = (b, ex_begun)"
    "rb_ticket b = Some tk" by (rule ex_begin)
  show ?thesis
    using stale_ticket_never_completes [OF ex_joined_life b life_run_operations [OF ex_begun_run] life.run_nil] ex_begun_epoch
    by force
qed

section \<open>What consumers read\<close>

text \<open>
  C15: what consumable means. In every reachable state a stored set is consumable exactly when its lifecycle
  is a derived one other than ADMIN_DISABLED, it is enabled and current, and the members that are usable
  now -- counted from the members, not from the stored counter -- meet its minimum or are at least one;
  and it is consumable exactly when the readiness a consumer reads is READY or DEGRADED_BUT_READY.
\<close>

theorem consumable_means:
  assumes "life.reach config e" and "om_find (e_sets e) sid = Some r"
  shows "(set_is_consumable r \<longleftrightarrow> derived_lifecycle (s_lifecycle r) \<and> s_lifecycle r \<noteq> SL_ADMIN_DISABLED \<and>
      s_admin_enabled r \<and> s_currentness r = SC_CURRENT \<and>
      (s_minimum r \<le> recompute_usable_members r \<or> 1 \<le> recompute_usable_members r)) \<and>
    (set_is_consumable r \<longleftrightarrow> readiness sid e \<in> {Some RR_READY, Some RR_DEGRADED_BUT_READY})"
proof -
  note ok = life.reach_inv [OF assms(1)]
  show ?thesis
    using consumable_iff [OF ok assms(2)] readiness_iff [OF ok assms(2)] active_enabled [OF ok assms(2)]
    by (auto simp: set_is_consumable_def s_published_def split: if_splits)
qed

theorem consumable_means_witness: "\<not> set_is_consumable ex_record \<and> readiness ex_sid ex_created = Some RR_NOT_PUBLISHED"
proof -
  have f: "om_find (e_sets ex_created) ex_sid = Some ex_record" by simp
  have "readiness ex_sid ex_created = Some RR_NOT_PUBLISHED" by (simp add: readiness_def route_readiness_def)
  with consumable_means [OF ex_created_life f] show ?thesis by (simp add: derived_lifecycle_def)
qed

text \<open>
  C16: the integrity check can only report the member counter. In every reachable state the scan of all
  tables and indexes finds nothing but, possibly, that \<open>total_members\<close> differs from the number of member
  records; the report is consistent exactly when the two agree.
\<close>

theorem integrity_is_the_counter:
  assumes "life.reach config e"
  shows "integrity_problems e = counter_problems e \<and>
    (ir_consistent (check_integrity e) \<longleftrightarrow> e_total_members e = relation_count e)"
  using integrity_only_counter consistent_iff_counter life.reach_inv [OF assms] by blast

theorem integrity_is_the_counter_witness: "ir_consistent (check_integrity ex_created)"
  using integrity_is_the_counter [OF ex_created_life] by (simp add: relation_count_def om_find_empty_fun)

text \<open>
  C17: the indexes are the table. In every reachable state \<open>find_set_by_key\<close> answers with a set exactly when
  that set is stored under the key, so that no two sets share a key; and \<open>sets_for_path\<close> lists, in the order of
  the set identities, exactly the stored sets that have a relation to the path.
\<close>

theorem index_lookups_are_scans:
  assumes "life.reach config e"
  shows "(find_set_by_key key e = Some sid \<longleftrightarrow> (\<exists>r. om_find (e_sets e) sid = Some r \<and> s_key r = key)) \<and>
    sets_for_path path e =
      filter (\<lambda>sid. \<exists>r. om_find (e_sets e) sid = Some r \<and> om_has (s_members r) path) (list_sets e)"
  using find_set_by_key_scan [OF life.reach_inv [OF assms]] sets_for_path_scan [OF life.reach_inv [OF assms]] by simp

theorem index_lookups_are_scans_witness: "find_set_by_key ex_key ex_created = Some ex_sid \<and> sets_for_path ex_path ex_created = []"
proof
  show "find_set_by_key ex_key ex_created = Some ex_sid"
    unfolding index_lookups_are_scans [OF ex_created_life, THEN conjunct1] by simp
  show "sets_for_path ex_path ex_created = []"
    unfolding index_lookups_are_scans [OF ex_created_life, THEN conjunct2] by (simp add: om_has_def)
qed

text \<open>
  C18: a snapshot shows the set. In every reachable state the snapshot of a stored set has its lifecycle,
  generation and readiness, a usable count that is the number of members usable now, and for each path
  exactly the member the set stores there.
\<close>

theorem snapshot_shows_set:
  assumes "life.reach config e" and "om_find (e_sets e) sid = Some r"
  shows "\<exists>s. set_snapshot_of sid e = Some s \<and> ss_set_id s = sid \<and> ss_lifecycle s = s_lifecycle r \<and>
    ss_generation s = s_generation r \<and> Some (ss_readiness s) = readiness sid e \<and>
    ss_usable_count s = om_count m_usable (s_members r) \<and> ss_member_count s = om_size (s_members r) \<and>
    (\<forall>path. find_member_by_path path s = map_option make_member_snapshot (om_find (s_members r) path))"
proof -
  note stored = stored_set [OF life.reach_inv [OF assms(1)] assms(2)]
  show ?thesis
    using assms(2) stored(1) set_coreD(1,3) [OF stored(3)]
    by (simp add: set_snapshot_of_def make_snapshot_fields find_make_member readiness_def derived_ok_def
        recompute_usable_members_def)
qed

theorem snapshot_shows_set_witness:
  "\<exists>s m. set_snapshot_of ex_sid ex_joined = Some s \<and> find_member_by_path ex_path s = Some (make_member_snapshot m) \<and> m_usable m"
proof -
  obtain r m where m: "om_find (e_sets ex_joined) ex_sid = Some r" "om_find (s_members r) ex_path = Some m" "m_usable m"
    by (rule ex_joined_detail)
  from snapshot_shows_set [OF ex_joined_life m(1)] m(2,3) show ?thesis by force
qed


text \<open>
  C19: what a diff without entries means. For two snapshots of one set whose members have identities
  other than the dash, the diff says identical exactly when the sets agree on generations, lifecycle,
  currentness, readiness, policy, epoch, usable count and end-of-life records, and have on every path
  either no member or members that agree on the compared fields: identity, binding, lifecycle, currentness,
  enablement, generation and pending revalidations. The fields of a member that are not compared are its
  predecessor, its successor, its watermark and its provenance: whatever they are set to, the diff is the same,
  although the README promises every field. The entries come in the order of \<open>DiffEntry::operator<\<close>.
\<close>

theorem identical_diff_means_agreement:
  assumes "diff_snapshots before after = Some d"
    and "\<forall>s \<in> {before, after}. \<forall>m \<in> set (ss_members s). id_text (ms_id m) \<noteq> ''-''"
  shows "(sd_identical d \<longleftrightarrow> same_governance before after \<and>
      (\<forall>path. rel_option same_view (om_find (members_by_path before) path) (om_find (members_by_path after) path))) \<and>
    (\<forall>predecessor successor mark provenance.
      diff_snapshots before (after\<lparr>ss_members := map (relabelled predecessor successor mark provenance) (ss_members after)\<rparr>) =
      Some d) \<and>
    sorted_wrt (\<lambda>a b. \<not> diff_entry_less b a) (sd_entries d)"
proof -
  have d: "sd_identical d \<longleftrightarrow> diff_entries before after = []" "sd_entries d = sort_key diff_key (diff_entries before after)"
    using assms(1) by (auto simp: diff_snapshots_def Let_def split: if_splits)
  have "sorted (map diff_key (sd_entries d))" by (simp add: d(2))
  then have "sorted_wrt (\<lambda>a b. \<not> diff_entry_less b a) (sd_entries d)"
    by (simp add: sorted_map diff_entry_less_key not_less)
  moreover have "sd_identical d \<longleftrightarrow> same_governance before after \<and>
      (\<forall>path. rel_option same_view (om_find (members_by_path before) path) (om_find (members_by_path after) path))"
    using diff_entries_Nil [of before after] assms(2) members_by_path_mem set_entries_Nil d(1) by blast
  ultimately show ?thesis using relabelled_unseen [where before = before and after = after] assms(1) by simp
qed

theorem identical_diff_means_agreement_witness:
  "\<exists>d. diff_snapshots (make_snapshot ex_record) (make_snapshot (ex_record\<lparr>s_minimum := 2\<rparr>)) = Some d \<and> \<not> sd_identical d"
proof -
  let ?a = "make_snapshot ex_record" and ?b = "make_snapshot (ex_record\<lparr>s_minimum := 2\<rparr>)"
  obtain d where d: "diff_snapshots ?a ?b = Some d" by (simp add: diff_snapshots_def make_snapshot_fields Let_def)
  have "ss_members ?a = []" "ss_members ?b = []" "ss_minimum ?a = 1" "ss_minimum ?b = 2"
    by (simp_all add: make_snapshot_def om_values_def)
  then show ?thesis
    using identical_diff_means_agreement [OF d] d by (auto simp: same_governance_def)
qed

text \<open>
  C20: explanations are true. In every reachable state the explanation of a set has the readiness consumers
  read and its usable count is the number of members usable now. Every member it lists is the member stored on
  its path, with its identity, lifecycle, currentness, enablement, binding and pending revalidations; it is called
  usable exactly when the stored member is one of those counted, and exactly then its reason is MEMBER_USABLE or
  MEMBER_PENDING_REVALIDATION, the latter exactly when revalidations are pending. Unless the explanation is
  truncated, every member is listed, and no more than \<open>max_explanation_entries\<close> are in any case. For a set in a derived
  lifecycle (published, and neither withdrawing, withdrawn, superseded, revoked nor retired) that is not
  ADMIN_DISABLED, MINIMUM_MEMBERSHIP_UNSATISFIED is among its reasons exactly when the members usable now are
  fewer than its minimum.
\<close>

theorem explanation_is_true:
  assumes "life.reach config e" and "om_find (e_sets e) sid = Some r" and "explain_set external sid before e = Some x"
  shows "Some (se_readiness x) = readiness sid e \<and> se_usable_count x = recompute_usable_members r \<and>
    (\<forall>me \<in> set (se_members x). \<exists>m. om_find (s_members r) (me_path_id me) = Some m \<and> me_id me = m_id m \<and>
       me_lifecycle me = m_lifecycle m \<and> me_currentness me = m_currentness m \<and> me_admin_enabled me = m_admin_enabled m \<and>
       me_bound me = m_bound m \<and> me_pending me = m_pending m \<and> (me_usable me \<longleftrightarrow> m_usable m) \<and>
       (me_reason me \<in> {ER_MEMBER_USABLE, ER_MEMBER_PENDING_REVALIDATION} \<longleftrightarrow> m_usable m) \<and>
       (me_reason me = ER_MEMBER_PENDING_REVALIDATION \<longleftrightarrow> m_usable m \<and> 0 < m_pending m)) \<and>
    (\<not> se_truncated x \<longrightarrow> (\<forall>path. om_has (s_members r) path \<longrightarrow> (\<exists>me \<in> set (se_members x). me_path_id me = path))) \<and>
    length (se_members x) \<le> max_explanation_entries (fc_limits config) \<and>
    (derived_lifecycle (s_lifecycle r) \<and> s_lifecycle r \<noteq> SL_ADMIN_DISABLED \<longrightarrow>
      (ER_MINIMUM_MEMBERSHIP_UNSATISFIED \<in> set (se_reasons x) \<longleftrightarrow> recompute_usable_members r < s_minimum r))"
proof -
  note core = stored_set(3) [OF life.reach_inv [OF assms(1)] assms(2)]
  obtain obs where x: "x = make_explanation (e_limits e) obs r" using assms(2,3) by (auto simp: explain_set_def Let_def)
  have reasons: "ER_MINIMUM_MEMBERSHIP_UNSATISFIED \<in> set (se_reasons x) \<longleftrightarrow>
      ER_MINIMUM_MEMBERSHIP_UNSATISFIED \<in> set (set_reasons r)" by (simp add: x make_explanation_def Let_def)
  have members: "\<forall>me \<in> set (se_members x). \<exists>m. om_find (s_members r) (me_path_id me) = Some m \<and> me_id me = m_id m \<and>
       me_lifecycle me = m_lifecycle m \<and> me_currentness me = m_currentness m \<and> me_admin_enabled me = m_admin_enabled m \<and>
       me_bound me = m_bound m \<and> me_pending me = m_pending m \<and> (me_usable me \<longleftrightarrow> m_usable m) \<and>
       (me_reason me \<in> {ER_MEMBER_USABLE, ER_MEMBER_PENDING_REVALIDATION} \<longleftrightarrow> m_usable m) \<and>
       (me_reason me = ER_MEMBER_PENDING_REVALIDATION \<longleftrightarrow> m_usable m \<and> 0 < m_pending m)"
  proof
    fix me assume "me \<in> set (se_members x)"
    from explained_member [OF core this [unfolded x]] obtain m where m: "om_find (s_members r) (me_path_id me) = Some m"
      "me_id me = m_id m \<and> me_lifecycle me = m_lifecycle m \<and> me_currentness me = m_currentness m \<and>
       me_admin_enabled me = m_admin_enabled m \<and> me_bound me = m_bound m \<and> me_pending me = m_pending m \<and>
       (me_usable me \<longleftrightarrow> m_usable m) \<and> me_reason me = member_reason m" by blast
    with usable_reason [OF core m(1)] pending_reason [of m]
    show "\<exists>m. om_find (s_members r) (me_path_id me) = Some m \<and> me_id me = m_id m \<and>
       me_lifecycle me = m_lifecycle m \<and> me_currentness me = m_currentness m \<and> me_admin_enabled me = m_admin_enabled m \<and>
       me_bound me = m_bound m \<and> me_pending me = m_pending m \<and> (me_usable me \<longleftrightarrow> m_usable m) \<and>
       (me_reason me \<in> {ER_MEMBER_USABLE, ER_MEMBER_PENDING_REVALIDATION} \<longleftrightarrow> m_usable m) \<and>
       (me_reason me = ER_MEMBER_PENDING_REVALIDATION \<longleftrightarrow> m_usable m \<and> 0 < m_pending m)"
      unfolding insert_iff empty_iff by metis
  qed
  have listed: "\<not> se_truncated x \<longrightarrow> (\<forall>path. om_has (s_members r) path \<longrightarrow> (\<exists>me \<in> set (se_members x). me_path_id me = path))"
    using explained_all [OF core, of "e_limits e" obs] unfolding x by (auto simp: om_has_def)
  have "se_usable_count x = recompute_usable_members r"
    using derived_okD [OF set_coreD(3) [OF core]] by (simp add: x)
  then show ?thesis
    using assms(2) members listed reasons minimum_reason [OF core] life_reach_limits [OF assms(1)]
    by (simp add: x readiness_def)
qed

theorem explanation_is_true_witness:
  "\<exists>x. explain_set (\<lambda>_. None) ex_sid ex_created ex_created = Some x \<and> se_readiness x = RR_NOT_PUBLISHED"
proof -
  have f: "om_find (e_sets ex_created) ex_sid = Some ex_record" by simp
  obtain x where x: "explain_set (\<lambda>_. None) ex_sid ex_created ex_created = Some x"
    by (simp add: explain_set_def Let_def)
  from explanation_is_true [OF ex_created_life f x] x show ?thesis
    by (simp add: readiness_def route_readiness_def)
qed

section \<open>Creation, pruning and bounds\<close>

text \<open>
  Creation draws a fresh identity. When \<open>create_set\<close> answers CREATED with identities left, its set
  identity was not in use, the key was free, the table gained exactly this record -- declared, empty, at
  the first generation -- and the key now resolves to it.
\<close>

lemma created_set_is_fresh:
  assumes "life.reach config e" and "counter_room 1 e" and "create_set ctx key options e = (o1, e')"
    and "o_code o1 = OC_CREATED"
  shows "\<exists>sid r. o_set_id o1 = Some sid \<and> om_find (e_sets e) sid = None \<and> find_set_by_key key e = None \<and>
    e_sets e' = om_put sid r (e_sets e) \<and> find_set_by_key key e' = Some sid \<and>
    s_id r = sid \<and> s_key r = key \<and> s_lifecycle r = SL_DECLARED \<and> s_members r = om_empty \<and> s_generation r = gen_first"
  using create_set_created [OF life.reach_inv [OF assms(1)] assms(2), of ctx key options] assms(3,4) by (metis fst_conv snd_conv)

lemma created_set_is_fresh_example: "\<exists>sid. e_sets ex_created = om_put sid ex_record om_empty \<and> find_set_by_key ex_key ex_created = Some sid"
proof -
  have c: "create_set (ex_ctx ''a-1'') ex_key ex_options ex_registered = (ex_create_outcome, ex_created)"
    by (simp add: ex_created_eq ex_create)
  have o: "o_code ex_create_outcome = OC_CREATED" by (simp add: ex_create_outcome_def)
  have room: "counter_room 1 ex_registered"
    by (simp add: counter_room_def unsigned_minus_1_eq_mask mask_eq_exp_minus_1)
  obtain sid r where "e_sets ex_created = om_put sid r (e_sets ex_registered)" "find_set_by_key ex_key ex_created = Some sid" "s_id r = sid"
    using created_set_is_fresh [OF ex_registered_life room c o] by blast
  then show ?thesis by (auto simp: find_set_by_key_def)
qed

text \<open>
  Pruning the archive forgets only the dead. After \<open>prune_archive\<close> the archive of the set is within its
  bound, the number of live members is the same, every live member is still on its path with everything
  but its lineage unchanged, and no path gained a member.
\<close>

lemma pruning_keeps_the_living:
  assumes "prune_archive r e = (r', e')"
  shows "archived_member_count r' \<le> max_archived_members_per_set (e_limits e) \<and>
    live_member_count r' = live_member_count r \<and>
    (\<forall>p m. om_find (s_members r) p = Some m \<and> \<not> member_is_terminal m \<longrightarrow>
       (\<exists>m'. om_find (s_members r') p = Some m' \<and> same_member m m')) \<and>
    (\<forall>p. om_find (s_members r) p = None \<longrightarrow> om_find (s_members r') p = None)"
  using prune_archive_live_count [of r e] prune_archive_bound [OF assms] prune_archive_live [OF assms]
    prune_archive_find(3) [OF assms] assms by auto

lemma pruning_keeps_the_living_example: "live_member_count (fst (prune_archive ex_record ex_created)) = 0"
proof -
  obtain r' e' where "prune_archive ex_record ex_created = (r', e')" by fastforce
  from this pruning_keeps_the_living [OF this] show ?thesis by (simp add: live_member_count_def)
qed

text \<open>
  C21: resources are bounded. In every reachable state the limits are those of the configuration, and the
  sets, the relations, the registrations, the attempt log and the retained snapshots of each set are
  within them; no set asks for more usable members than it can have.
\<close>

theorem resources_are_bounded:
  assumes "life.reach config e"
  shows "e_limits e = fc_limits config \<and> om_size (e_sets e) \<le> max_sets (fc_limits config) \<and>
    relation_count e \<le> max_total_members (fc_limits config) \<and>
    om_size (e_registrations e) \<le> max_publishers (fc_limits config) \<and>
    length (e_attempts e) \<le> max_attempts (fc_limits config) \<and>
    (\<forall>sid. length (snapshots_of sid e) \<le> max_snapshot_history (fc_limits config)) \<and>
    (\<forall>sid r. om_find (e_sets e) sid = Some r \<longrightarrow> s_minimum r \<le> max_members_per_set (fc_limits config))"
proof -
  note ok = life.reach_inv [OF assms] and lim = life_reach_limits [OF assms]
  show ?thesis
    using engine_okD(4,5,8) [OF ok] snapshots_of_bound [OF ok] set_coreD(5) [OF stored_set(3) [OF ok]] lim
    by (auto simp: counts_ok_def attempts_ok_def authority_ok_def intro: order_trans)
qed

theorem resources_are_bounded_witness: "length (e_attempts ex_published) \<le> 8192"
  using resources_are_bounded [OF ex_published_life] by (simp add: ex_config_def default_limits_def)


section \<open>The coordinator and its clients\<close>

text \<open>
  C22: every registration has its session. In every reachable state of the coordinator -- connections,
  frames, disconnects and reaping in any order -- a worker that the engine holds as registered is bound to a
  session that is still open and claims exactly this worker, so a registration never outlives its session;
  the engine is in a state that satisfies its invariant and the table of sessions is within its bound. (The
  registrations are only followed while the authority generation is not exhausted: with it, \<open>fence_worker\<close>
  refuses.)
\<close>

theorem session_owns_registrations:
  assumes "coord.reach c"
  shows "engine_ok (co_engine c) \<and> om_size (co_sessions c) \<le> max_sessions (co_limits c) \<and>
    (\<forall>k reg. om_find (e_registrations (co_engine c)) k = Some reg \<longrightarrow> gen_next (e_authority_generation (co_engine c)) \<noteq> None \<longrightarrow>
       (\<exists>s. live_session c (pr_session reg) s \<and> session_claims s k))"
  using coord.reach_inv [OF assms] unfolding co_ok_def sessions_ok_def registrations_held_def by blast

theorem session_owns_registrations_witness:
  "\<exists>s. live_session ex_co_registered ex_conn s \<and> session_claims s (ex_publisher, ex_boot)"
  using session_owns_registrations [OF ex_co_registered_reach] ex_co_registered_holds by metis

text \<open>
  C23: the coordinator refines the engine. Every run of the coordinator from a reachable state is, on its
  engine, a run of the engine in which each event is caused by one of the events of the coordinator: a
  request that carries the identity of its session, a registration bound to the session, the reconciliation
  behind an operation, or the fence at the end of a session. What is proved of the runs of the engine
  holds behind the coordinator.
\<close>

theorem coordinator_refines_engine:
  assumes "coord.reach c" and "coord.run c evs c'"
  shows "\<exists>fevs. fabric.run (co_engine c) fevs (co_engine c') \<and> (\<forall>fev \<in> set fevs. \<exists>ev \<in> set evs. caused_by ev fev)"
  using coord_run_engine [OF assms(2) coord.reach_inv [OF assms(1)]] by (simp add: engine_runs_def list_all_iff)

theorem coordinator_refines_engine_witness: "\<exists>fevs. fabric.run ex_start fevs ex_worker_engine"
proof -
  have "coord.run ex_co_connected [ex_register_event] ex_co_registered"
    by (rule coord.run_cons [OF ex_co_registered_step coord.run_nil])
  from coordinator_refines_engine [OF ex_co_connected_reach this] show ?thesis
    by (auto simp: ex_co_connected_fields ex_co_registered_engine)
qed

text \<open>
  C24: a lost session is the end of its worker. When a session ends, by whatever the connection did, the worker
  it claims is fenced from then on in every later state of every run of the coordinator, and no registration
  is bound to the session any more, as long as the authority generation is not exhausted.
\<close>

theorem lost_session_fences_its_worker:
  assumes "coord.reach c" and "live_session c sid s" and "co_step c (Co_end sid) c'" and "coord.run c' evs c''"
    and "gen_next (e_authority_generation (co_engine c)) \<noteq> None"
  shows "(session_claims s k \<longrightarrow> om_has (e_fences (co_engine c'')) k) \<and>
    (gen_next (e_authority_generation (co_engine c')) \<noteq> None \<longrightarrow>
       (\<forall>k reg. om_find (e_registrations (co_engine c')) k = Some reg \<longrightarrow> pr_session reg \<noteq> sid))"
proof (intro conjI impI allI)
  note ok = coord.reach_inv [OF assms(1)]
  note ok' = co_step_ok [OF ok assms(3)]
  show "om_has (e_fences (co_engine c'')) k" if "session_claims s k"
    using forward_fenced [OF coord_run_forward [OF assms(4) ok'] ended_session_fences [OF ok assms(2,3,5) that]] .
  show "pr_session reg \<noteq> sid" if "gen_next (e_authority_generation (co_engine c')) \<noteq> None"
      "om_find (e_registrations (co_engine c')) k = Some reg" for k reg
    using ok' that ended_session_finished [OF ok assms(3)] registrations_heldD by (metis co_ok_def)
qed

theorem lost_session_fences_its_worker_witness:
  "\<exists>c'. co_step ex_co_registered (Co_end ex_conn) c' \<and> om_has (e_fences (co_engine c')) (ex_publisher, ex_boot)"
proof -
  obtain s where s: "live_session ex_co_registered ex_conn s" "session_claims s (ex_publisher, ex_boot)"
    using ex_co_registered_session by blast
  obtain s' d where "end_session s ''SESSION_LOST'' ex_co_registered = (s', d)" by fastforce
  from co_end [OF s(1) this]
  show ?thesis
    using lost_session_fences_its_worker [OF ex_co_registered_reach s(1) _ coord.run_nil ex_co_registered_holds(2)] s(2) by blast
qed

text \<open>
  C25: a remote call is a local one. Over a connection that delivers what is sent, a call of a connected
  client with a request whose fields are valid and whose frames fit the limits of both sides returns
  exactly the response that \<open>dispatch\<close> computes from the engine for the request, and the client stays
  connected with both of its counters one higher.
\<close>

theorem remote_call_is_dispatch:
  assumes "cl_connected cl" and "sendable_request q" "wq_id q \<noteq> MI_HELLO"
    and "encode_request q = Inr bs" "frame_fits bs (cl_max_frame_bytes cl)" "frame_fits bs (max_frame_bytes (co_limits c))"
    and "dispatch before after s (sent_request q) (co_engine c) = (result, s', e')"
    and "sendable_response (sn_response s')" "encode_response (sn_response s') = Inr rb"
      "frame_fits rb (max_frame_bytes (co_limits c))" "frame_fits rb (cl_max_frame_bytes cl)"
  shows "call (connection before after s c) q cl = (Inr (sn_response s'), frame_arrived (frame_sent cl))"
  using remote_call [OF assms] .

theorem remote_call_is_dispatch_witness:
  "client_list_sets (connection no_views no_views (new_session ex_conn) ex_co_connected) ex_client =
     (wr_outcome ex_listing, Some [], frame_arrived (frame_sent ex_client))"
proof -
  obtain rb where rb: "encode_response ex_listing = Inr rb" "frame_fits rb (2 ^ 20)" using ex_listing_encoded by blast
  have "call (connection no_views no_views (new_session ex_conn) ex_co_connected) (empty_request MI_LIST_SETS) ex_client =
      (Inr (sn_response ((new_session ex_conn)\<lparr>sn_response := ex_listing\<rparr>)), frame_arrived (frame_sent ex_client))"
    by (rule remote_call_is_dispatch [where bs = "[]" and result = "make_outcome OC_OK []" and e' = ex_start and rb = rb])
      (use rb ex_list_dispatched ex_list_encoded ex_listing_sendable in
        \<open>simp_all add: ex_client_def new_client_def empty_request_def frame_fits_def ex_co_connected_fields\<close>)
  then show ?thesis
    by (simp add: client_list_sets_def remote_query_def ex_listing_def succeeded_def outcome_is_success_def)
qed

text \<open>
  C26: when the loops over a socket end, and what they report as OK. With timeouts from one millisecond up to the
  32-bit bound where the count of waited milliseconds wraps and clocks that pass every bound, a wait and a
  send return; a receive returns exactly when nothing is wanted or the peer is not idle for ever -- before the
  first byte of what is wanted, the frame budget does not run. An OK of a receive comes with exactly
  the bytes it was asked for, the first ones of those the rounds delivered, an OK of a send after every
  byte was handed over.
\<close>

theorem socket_loops_end:
  assumes "timeout_ms \<noteq> 0" "timeout_ms \<le> 4294967196" "poll_ms \<noteq> 0" "poll_ms \<le> 4294967196" "frame_ms \<noteq> 0"
    and "\<And>t. \<exists>N. \<forall>k \<ge> N. t < rr_clock (rounds k)" "\<And>t. \<exists>N. \<forall>k \<ge> N. t < sr_clock (passes k)"
  shows "(\<exists>r. socket_wait_readable True polls timeout_ms = Some r) \<and>
    ((\<exists>r. socket_recv_exact True rounds wanted poll_ms frame_ms = Some r) \<longleftrightarrow>
       wanted = 0 \<or> (\<exists>k. \<not> quiet_round poll_ms (rounds k))) \<and>
    (\<forall>outcome bytes. socket_recv_exact True rounds wanted poll_ms frame_ms = Some (outcome, bytes) \<and> succeeded outcome \<longrightarrow>
       length bytes = wanted \<and> (\<exists>m. bytes = take wanted (received_in poll_ms rounds [0..<m]))) \<and>
    (\<exists>outcome sent. socket_send_all True start passes message timeout_ms = Some (outcome, sent) \<and> sent \<le> length message \<and>
       (succeeded outcome \<longrightarrow> sent = length message))"
proof (intro conjI)
  show "\<exists>r. socket_wait_readable True polls timeout_ms = Some r" using wait_returns [OF assms(1,2)] .
  show "(\<exists>r. socket_recv_exact True rounds wanted poll_ms frame_ms = Some r) \<longleftrightarrow>
      wanted = 0 \<or> (\<exists>k. \<not> quiet_round poll_ms (rounds k))"
    unfolding socket_recv_exact_def using receive_returns_iff [OF assms(3-6)] .
  show "\<forall>outcome bytes. socket_recv_exact True rounds wanted poll_ms frame_ms = Some (outcome, bytes) \<and> succeeded outcome \<longrightarrow>
       length bytes = wanted \<and> (\<exists>m. bytes = take wanted (received_in poll_ms rounds [0..<m]))"
    using receive_rounds_correct [of True rounds wanted poll_ms frame_ms 0 "[]" None] by (fastforce simp: socket_recv_exact_def)
  obtain t where "socket_send_all True start passes message timeout_ms = Some t"
    using send_returns [OF assms(1,2,7)] by blast
  then show "\<exists>outcome sent. socket_send_all True start passes message timeout_ms = Some (outcome, sent) \<and>
      sent \<le> length message \<and> (succeeded outcome \<longrightarrow> sent = length message)"
    using send_rounds_correct [of True passes message timeout_ms _ 0 0 t] by (cases t) (auto simp: socket_send_all_def)
qed

theorem socket_loops_end_witness:
  "\<exists>r. socket_recv_exact True (\<lambda>k. \<lparr>rr_polls = \<lambda>_. Ready, rr_recv = Some [7], rr_start = 0, rr_clock = k\<rparr>) 24 50 30000 = Some r"
proof -
  have "\<not> quiet_round 50 \<lparr>rr_polls = \<lambda>_. Ready, rr_recv = Some [7], rr_start = 0, rr_clock = k\<rparr>" for k
    by (simp add: quiet_round_def socket_wait_readable_def wait_rounds.simps)
  moreover have "\<exists>N. \<forall>k \<ge> N. t < k" for t :: nat by (intro exI [of _ "Suc t"]) simp
  ultimately show ?thesis
    using socket_loops_end [of 30000 50 30000 "\<lambda>k. \<lparr>rr_polls = \<lambda>_. Ready, rr_recv = Some [7], rr_start = 0, rr_clock = k\<rparr>"
        "\<lambda>k. \<lparr>sr_stopping = False, sr_clock = k, sr_sent = None, sr_polls = \<lambda>_. Ready\<rparr>" "\<lambda>_. Ready" 24 0 "[]"] by auto
qed

section \<open>Tables and codecs\<close>

text \<open>
  The end of a set is final in the transition table. From WITHDRAWN, SUPERSEDED, REVOKED and RETIRED the
  table of \<open>lifecycle.cpp\<close> rejects every event but the epoch advance, which it leaves in place, the
  retirement of a set that is not RETIRED yet and the revocation of a WITHDRAWN one; and a member that was
  withdrawn, superseded or retired stays in one of these states under every event the member table
  accepts.
\<close>

lemma terminal_states_absorb:
  "(terminal_lifecycle l \<longrightarrow> set_transition l ev =
      (if ev = SE_EPOCH_ADVANCE then SA_STAY
       else if ev = SE_RETIRE \<and> l \<noteq> SL_RETIRED then SA_BECOME_RETIRED
       else if ev = SE_REVOKE \<and> l = SL_WITHDRAWN then SA_BECOME_REVOKED
       else SA_REJECT)) \<and>
   (member_terminal_lifecycle k \<and> member_transition k ev' = Some k' \<longrightarrow> member_terminal_lifecycle k')"
  using set_transition_terminal [of l ev] member_transition_terminal [of k ev' k'] by blast

lemma terminal_states_absorb_example: "set_transition SL_REVOKED SE_PUBLISH = SA_REJECT"
  using terminal_states_absorb [of SL_REVOKED SE_PUBLISH] by (simp add: terminal_lifecycle_def)

text \<open>
  The texts and numbers of the enumerations are codes. Every lifecycle, currentness, event and outcome
  code is recovered from its text, every lifecycle, currentness and outcome code from its number, and the
  validity tests accept exactly the numbers that name a value.
\<close>

lemma enumerations_round_trip:
  "parse_set_lifecycle (set_lifecycle_text l) = Some l \<and> set_lifecycle_of_raw (set_lifecycle_raw l) = Some l \<and>
   (valid_set_lifecycle raw \<longleftrightarrow> set_lifecycle_of_raw raw \<noteq> None) \<and>
   parse_member_lifecycle (member_lifecycle_text k) = Some k \<and> member_lifecycle_of_raw (member_lifecycle_raw k) = Some k \<and>
   (valid_member_lifecycle raw \<longleftrightarrow> member_lifecycle_of_raw raw \<noteq> None) \<and>
   parse_member_currentness (member_currentness_text c) = Some c \<and>
   member_currentness_of_raw (member_currentness_raw c) = Some c \<and>
   (valid_member_currentness raw \<longleftrightarrow> member_currentness_of_raw raw \<noteq> None) \<and>
   parse_set_event (set_event_text ev) = Some ev \<and>
   parse_outcome_code (outcome_text o1) = Some o1 \<and> outcome_of_raw (outcome_raw o1) = Some o1 \<and>
   parse_path_authority_state (path_authority_state_text s) = Some s"
  using parse_set_lifecycle_text set_lifecycle_of_raw_raw valid_set_lifecycle_iff parse_member_lifecycle_text
    member_lifecycle_of_raw_raw valid_member_lifecycle_iff parse_member_currentness_text member_currentness_of_raw_raw
    valid_member_currentness_iff parse_set_event_text parse_outcome_code_text outcome_of_raw_raw
    parse_path_authority_state_text by blast

text \<open>
  Outcomes and their stages. A rejection stage is NONE exactly for the codes that count as success, and
  the number of a code is below 28 or from 100 to 143.
\<close>

lemma outcome_stage_is_success:
  "(stage_of c = ST_NONE \<longleftrightarrow> outcome_is_success c) \<and>
   (outcome_raw c \<le> 27 \<or> 100 \<le> outcome_raw c \<and> outcome_raw c \<le> 143)"
  using stage_of_success stage_of_rejection outcome_raw_range by blast

text \<open>
  What a bounded string field writes, it reads. If a writer accepted a string under a bound, its buffer
  is within its limit and the reader gives exactly that string back and is at the end of the bytes.
\<close>

lemma string_field_round_trip:
  assumes "bw_ok (bw_string bound s (new_writer limit))" and "length s < 2 ^ 32"
  shows "\<exists>r. rd_string bound (new_reader (bw_buffer (bw_string bound s (new_writer limit)))) = (Some s, r) \<and> rd_at_end r \<and>
    length (bw_buffer (bw_string bound s (new_writer limit))) \<le> limit"
  using written_string [OF assms] .

lemma string_field_round_trip_example:
  "\<exists>r. rd_string 8 (new_reader (bw_buffer (bw_string 8 ''web'' (new_writer 64)))) = (Some ''web'', r) \<and> rd_at_end r"
proof -
  have "bw_ok (bw_string 8 ''web'' (new_writer 64))" by code_simp
  from string_field_round_trip [OF this] show ?thesis by auto
qed

section \<open>The durable store\<close>

text \<open>
  C27: what is saved is what is loaded. If the state of an engine can be represented in the format
  (\<open>storable\<close>) and is within the bounds of a file, the file \<open>save_store\<close> writes decodes under the same
  limits, and gives the epoch, the authority generation, the fences and every set with its members,
  lineage, revocation and provenance; what the format leaves out (the history, the watermark of a set, a
  half-known observation) is at its initial value.
\<close>

theorem store_round_trip:
  assumes "storable e" and "encode_store e = Inr file" and "max_store_bytes (e_limits e) < 2 ^ 63"
  shows "\<exists>body. file = frame_store body \<and> decode_store file (e_limits e) = Inr (stored_engine e body)"
  by (rule decode_encode_store [OF assms])

theorem store_round_trip_witness:
  "\<exists>file body. encode_store ex_created = Inr file \<and> decode_store file default_limits = Inr (stored_engine ex_created body)"
proof -
  obtain content where "encode_store ex_created = Inr content" using ex_encoded by blast
  from this store_round_trip [OF ex_storable this] show ?thesis by (auto simp: default_limits_def)
qed

text \<open>
  C28: nothing malformed comes out of a file. A file that decodes at all has the magic, exactly the length
  its header declares, the bounds of the limits and a checksum over everything before it that matches; and what is
  decoded has valid identities and generations only, tables that agree, counts within the limits and a
  usable count that is the recomputed one.
\<close>

theorem decoded_store_is_typed:
  assumes "decode_store file lim = Inr st"
  shows "well_typed_store lim st \<and>
    (\<exists>n. length file = 32 + n \<and> take 8 file = store_magic_bytes \<and>
       n \<le> max_persistence_record_bytes lim \<and> length file \<le> max_store_bytes lim \<and>
       le_value 8 (take 8 (drop (24 + n) file)) = fnv1a64 fnv1a64_offset_basis (take (24 + n) file))"
  using decode_store_typed [OF assms] decode_store_framed [OF assms] by blast

theorem decoded_store_is_typed_witness:
  "\<exists>st body. decode_store (frame_store body) default_limits = Inr st \<and> well_typed_store default_limits st"
proof -
  obtain content body where f: "content = frame_store body"
    and d: "decode_store content (e_limits ex_created) = Inr (stored_engine ex_created body)"
    using ex_decoded by blast
  from decoded_store_is_typed [OF d] d f show ?thesis by auto
qed

text \<open>
  C29: an interrupted save keeps a store. Whatever fails while a store is saved over one that decodes, and at
  whichever moment the process stops, the files left behind are readable as the previous store, or as the new one once the
  save was complete and reported success.
\<close>

theorem interrupted_save_keeps_a_store:
  assumes "save_store io partial path e fs = (outcome, states)" and "fs' \<in> set states"
    and "fs path = Some old" and "decode_store old (e_limits e) = Inr before"
    and "readable path" and "readable (backup_name path)"
    and "storable e" and "max_store_bytes (e_limits e) < 2 ^ 63"
  shows "\<exists>st from_backup. read_and_decode readable fs' path (e_limits e) = Inr (st, from_backup) \<and>
    (st = before \<or> succeeded outcome \<and> fs' = last states \<and> (\<exists>body. st = stored_engine e body))"
  using assms by (rule saved_or_before)

theorem interrupted_save_keeps_a_store_witness:
  "\<exists>old st from_backup. read_and_decode (\<lambda>_. True)
     (last (snd (save_store (\<lambda>call. call \<noteq> IO_replace_target) [] ''store'' ex_created [''store'' \<mapsto> old]))) ''store''
     default_limits = Inr (st, from_backup)"
proof -
  obtain old body where d: "decode_store old (e_limits ex_created) = Inr (stored_engine ex_created body)"
    using ex_decoded by blast
  let ?s = "save_store (\<lambda>call. call \<noteq> IO_replace_target) [] ''store'' ex_created [''store'' \<mapsto> old]"
  have "last (snd ?s) \<in> set (snd ?s)" by (simp add: save_store_states)
  from interrupted_save_keeps_a_store [OF surjective_pairing this _ d _ _ ex_storable, of "\<lambda>_. True"]
  show ?thesis by (force simp: default_limits_def)
qed



text \<open>
  C31: loading grants nothing. Whatever bytes the files hold, a load that changes the engine leaves it at the
  epoch after the stored one without registrations and without attempts, every set needs revalidation under that epoch and
  offers no consumable member, and every request for a set is refused until its publisher registers again.
\<close>

theorem loading_grants_nothing:
  assumes "load_store readable fs path e = (outcome, e')" and "e' \<noteq> e"
  shows "dormant e' \<and> \<not> succeeded (authority_check ctx key sid e')"
  using load_store_dormant [OF assms] dormant_refuses by blast

theorem loading_grants_nothing_witness:
  "\<exists>fs answer e'. load_store (\<lambda>_. True) fs ''store'' ex_created = (answer, e') \<and> e' \<noteq> ex_created \<and> dormant e'"
proof -
  obtain fs answer e' where "load_store (\<lambda>_. True) fs ''store'' ex_created = (answer, e')" and "e' \<noteq> ex_created"
    using ex_loaded by blast
  from this loading_grants_nothing [OF this] show ?thesis by blast
qed

section \<open>The wire protocol\<close>

text \<open>
  C32: a frame is accepted exactly when it is an encoding. For a payload that a frame can hold, the bytes whose
  header decodes to a message id and the length of the payload, and whose integrity field verifies, are
  exactly the bytes \<open>encode_frame\<close> produces for that message id and payload under the same bound.
\<close>

theorem frame_accepted_iff_encoded:
  assumes "length payload < 2 ^ 32"
  shows "encode_frame i payload bound = Inr frame \<longleftrightarrow>
    drop 24 frame = payload \<and> 24 \<le> length frame \<and> decode_header (take 24 frame) bound = Inr (i, of_nat (length payload)) \<and>
    succeeded (verify_integrity (take 24 frame) payload)"
  by (rule frame_accepted_iff [OF assms])

theorem frame_accepted_iff_encoded_witness:
  "\<exists>frame. encode_frame MI_LIST_SETS [] 0 = Inr frame \<and> decode_header (take 24 frame) 0 = Inr (MI_LIST_SETS, 0)"
proof -
  obtain frame where "encode_frame MI_LIST_SETS [] 0 = Inr frame"
    by (auto simp: encode_frame_eq Let_def)
  with frame_accepted_iff_encoded [of "[]" MI_LIST_SETS 0 frame] show ?thesis by auto
qed

text \<open>
  C33: a request arrives as it was sent. What \<open>encode_request\<close> writes for a request whose fields are valid,
  \<open>decode_request\<close> reads completely under the same message id, and gives the fields that the message id
  carries, over the default of every other field.
\<close>

theorem request_round_trip:
  assumes "sendable_request q" and "encode_request q = Inr bs"
  shows "\<exists>r. decode_request (wq_id q) (new_reader bs) = Inr (sent_request q, r) \<and> rd_at_end r"
  by (rule decode_encode_request [OF assms])

theorem request_round_trip_witness:
  "\<exists>bs r. encode_request ex_wire_request = Inr bs \<and>
     decode_request MI_ADD_MEMBERS (new_reader bs) = Inr (ex_wire_request, r) \<and> rd_at_end r"
proof -
  obtain bs where bs: "encode_request ex_wire_request = Inr bs" using ex_request_encoded by blast
  have "wq_id ex_wire_request = MI_ADD_MEMBERS" "sent_request ex_wire_request = ex_wire_request"
    by (simp_all add: ex_wire_request_def sent_request_def empty_request_def)
  with bs request_round_trip [OF ex_request_sendable bs] show ?thesis by auto
qed

text \<open>
  C34: a response arrives as it was sent. What \<open>encode_response\<close> writes for a response with a valid outcome,
  snapshot, explanation and list of sets, \<open>decode_response\<close> reads completely and gives that response back.
\<close>

theorem response_round_trip:
  assumes "sendable_response p" and "encode_response p = Inr bs"
  shows "\<exists>r. decode_response (new_reader bs) = Inr (p, r) \<and> rd_at_end r"
  by (rule decode_encode_response [OF assms])

theorem response_round_trip_witness:
  "\<exists>bs r. encode_response ex_wire_response = Inr bs \<and> decode_response (new_reader bs) = Inr (ex_wire_response, r)"
proof -
  obtain bs where bs: "encode_response ex_wire_response = Inr bs" using ex_response_encoded by blast
  with response_round_trip [OF ex_response_sendable bs] show ?thesis by auto
qed

text \<open>
  C35: no bytes get past the decoders. Whatever a peer sends, the decoders of requests and responses only move forward
  inside the bytes they were given; a request they accept has the message id of its frame, valid identities and
  generations, counts within their bounds and nothing in the fields its message id does not carry, and a
  response they accept is typed in the same way.
\<close>

theorem decoded_messages_are_typed:
  assumes "inside r"
  shows "(decode_request i r = Inr (q, r') \<longrightarrow>
      received_request i q \<and> inside r' \<and> rd_data r' = rd_data r \<and> rd_offset r \<le> rd_offset r') \<and>
    (decode_response r = Inr (p, r'') \<longrightarrow>
      typed_response p \<and> inside r'' \<and> rd_data r'' = rd_data r \<and> rd_offset r \<le> rd_offset r'')"
  using assms ensuresD [OF ensures_request] ensuresD [OF ensures_response] consumes_request [of i] consumes_response
  unfolding consumes_def by blast

theorem decoded_messages_are_typed_witness:
  "\<exists>bs r. decode_request MI_ADD_MEMBERS (new_reader bs) = Inr (ex_wire_request, r) \<and>
     received_request MI_ADD_MEMBERS ex_wire_request"
proof -
  obtain bs where bs: "encode_request ex_wire_request = Inr bs" using ex_request_encoded by blast
  have "wq_id ex_wire_request = MI_ADD_MEMBERS" "sent_request ex_wire_request = ex_wire_request"
    by (simp_all add: ex_wire_request_def sent_request_def empty_request_def)
  with decode_encode_request [OF ex_request_sendable bs]
  obtain r where "decode_request MI_ADD_MEMBERS (new_reader bs) = Inr (ex_wire_request, r)" by auto
  moreover have "inside (new_reader bs)" by (simp add: inside_def new_reader_def)
  ultimately show ?thesis using decoded_messages_are_typed by blast
qed

section \<open>Where the code leaves its documentation\<close>

text \<open>
  C36: a set that was never published can be answered SET_WITHDRAWING and stay DECLARED. The transition table
  gives RECOMPUTE for BEGIN_WITHDRAW in DECLARED, so \<open>withdraw_set\<close> commits and reports success, but the
  stored lifecycle does not change.
\<close>

theorem withdrawal_of_declared_set_stays_declared:
  assumes "id_valid sid" and "length reason \<le> 256"
    and "admit ctx sid ''withdraw_set'' [''withdraw_set'', id_text sid, reason] e = Inr r"
    and "engine_ok e" and "s_lifecycle r = SL_DECLARED" and "expected_set_generation_matches ctx r"
    and "set_generation_available r"
  shows "\<exists>r'. o_code (fst (withdraw_set ctx sid reason e)) = OC_SET_WITHDRAWING \<and>
    om_find (e_sets (snd (withdraw_set ctx sid reason e))) sid = Some r' \<and> s_lifecycle r' = SL_DECLARED"
  by (rule withdraw_declared [OF assms])

theorem withdrawal_of_declared_set_stays_declared_witness:
  "\<exists>r'. om_find (e_sets (snd (withdraw_set (ex_ctx ''a-2'') ex_sid ''moved'' ex_created))) ex_sid = Some r' \<and>
     s_lifecycle r' = SL_DECLARED"
proof -
  have "id_valid ex_sid" by (simp add: ex_sid_def id_valid_def)
  moreover have "expected_set_generation_matches (ex_ctx ''a-2'') ex_record"
    by (simp add: expected_set_generation_matches_def ex_ctx_def)
  moreover have "set_generation_available ex_record" by (simp add: set_generation_available_def gen_next_first)
  ultimately show ?thesis
    using withdrawal_of_declared_set_stays_declared [OF _ _ ex_admit ex_created_ok, of "''moved''"] by auto
qed

text \<open>
  C37: a refused administrative change can have taken effect. On an active set whose generation counter is
  exhausted, \<open>set_admin_enabled\<close> answers GENERATION_OVERFLOW, but the stored set is ADMIN_DISABLED.
\<close>

theorem refused_disable_takes_effect:
  assumes "id_valid sid" and "admit ctx sid ''set_admin_enabled'' [''set_admin_enabled'', id_text sid, ''0''] e = Inr r"
    and "engine_ok e" and "s_lifecycle r = SL_ACTIVE" and "s_admin_enabled r" and "expected_set_generation_matches ctx r"
    and "gen_next (s_generation r) = None"
  shows "o_code (fst (set_admin_enabled ctx sid False e)) = OC_GENERATION_OVERFLOW \<and>
    om_find (e_sets (snd (set_admin_enabled ctx sid False e))) sid = Some (r\<lparr>s_lifecycle := SL_ADMIN_DISABLED\<rparr>)"
  using admin_disable_half_applied [OF assms] by blast

theorem refused_disable_takes_effect_witness:
  "s_lifecycle ex_spent = SL_ACTIVE \<and>
   om_find (e_sets (snd (set_admin_enabled (ex_ctx ''a-2'') ex_sid False (put_set ex_spent ex_created)))) ex_sid =
     Some (ex_spent\<lparr>s_lifecycle := SL_ADMIN_DISABLED\<rparr>)"
  using refused_disable_takes_effect [OF ex_spent_facts(1,2,3,4,5,6,7)] ex_spent_facts(4) by blast

text \<open>
  C38: knowing a worker is being it. For the operations on sets, members and paths the engine never looks at the
  session in the context, and the coordinator compares it only with the connection the request came on:
  a request that names the publisher, the boot and the epoch of a registered worker has the same answer and the same
  effect on the engine on every connection, whether the worker registered there or not.
\<close>

theorem any_session_acts_for_a_worker:
  assumes "has_caller_identity (wq_context q)" and "id_valid (sn_id s)" "id_valid (sn_id s')"
    and "requires_session (wq_id q)" "wq_id q \<notin> {MI_REGISTER_PUBLISHER, MI_EPOCH_ADVANCE}"
  shows "on_session before after s q e = on_session before after s' q e"
  using on_session_eq [OF assms(1,2,4,5), of before after e] on_session_eq [OF assms(1,3,4,5), of before after e] by simp

theorem any_session_acts_for_a_worker_witness:
  "on_session no_views no_views (new_session ex_conn)
      ((empty_request MI_CREATE_SET)\<lparr>wq_context := ex_ctx ''a-1'', wq_key := ex_key, wq_options := ex_options\<rparr>) ex_registered =
   on_session no_views no_views (new_session ex_session)
      ((empty_request MI_CREATE_SET)\<lparr>wq_context := ex_ctx ''a-1'', wq_key := ex_key, wq_options := ex_options\<rparr>) ex_registered"
  by (rule any_session_acts_for_a_worker)
    (simp_all add: requires_session_def empty_request_def new_session_def has_caller_identity_def ex_ctx_def ex_party_defs ex_conn_def
      id_valid_def gen_valid_def gen_first_def)

text \<open>
  C39: a set cannot be superseded remotely. The client puts the successor into the text of the request and the
  encoder sends the path identity in its place. Whatever sendable context and sets are named, the coordinator answers
  the frame of such a request with MALFORMED_REQUEST without touching the engine and ends the session, and the worker
  the session had registered is fenced for it.
\<close>

theorem remote_supersession_fails:
  assumes "sendable_context ctx" and "encode_request (supersede_request ctx predecessor successor) = Inr bs"
    and "encode_frame MI_SUPERSEDE_SET bs m = Inr frame" "frame_fits bs (max_frame_bytes (co_limits c))"
    and "handle_frame (delivering frame) before after s c = h"
  shows "\<not> hd_continue h \<and> co_engine (hd_coordinator h) = co_engine c \<and>
    o_code (wr_outcome (sn_response (hd_session h))) = OC_MALFORMED_REQUEST \<and>
    (sn_has_registration s \<longrightarrow> co_engine (snd (end_session (hd_session h) ''SESSION_LOST'' (hd_coordinator h))) =
       snd (fence_worker (sn_publisher s) (sn_worker_boot s) ''SESSION_LOST'' (co_engine c)))"
  using supersede_ends_session [OF assms(1-4), where before = before and after = after and s = s] unfolding assms(5) by (simp add: wire_malformed_def)

theorem remote_supersession_fails_witness:
  "\<exists>frame. \<not> hd_continue (handle_frame (delivering frame) no_views no_views ex_worker_session ex_co_connected)"
proof -
  obtain bs where bs: "encode_request (supersede_request (ex_ctx ''a-2'') ex_sid ex_sid) = Inr bs" "frame_fits bs (2 ^ 20)"
    using ex_supersede_encoded by blast
  obtain frame where "encode_frame MI_SUPERSEDE_SET bs (2 ^ 20) = Inr frame"
    using bs(2) by (simp add: encode_frame_eq frame_fits_def Let_def)
  from remote_supersession_fails [OF ex_context_sendable bs(1) this _ refl, of ex_co_connected] bs(2) show ?thesis
    by (auto simp: ex_co_connected_fields)
qed

text \<open>
  C40: a restart after an interrupted save forgets. When a save over an existing store stops between its two renames, the store
  file is missing and its backup holds the previous state, which \<open>load_store\<close> would recover; \<open>mpf_coordinator\<close> asks
  only whether the store file exists, and starts with its fresh engine: epoch, fences and sets are
  those of a new coordinator, and its first save replaces the backed-up state.
\<close>

theorem restart_ignores_the_backup:
  assumes "save_files io partial path file fs = (result, states)" and "fs path = Some old"
    and "io IO_open_temporary" "io IO_write_temporary" "io IO_stat_target" "io IO_rotate_target"
    and "readable (backup_name path)" "decode_store old (e_limits e) = Inr st"
    and "arg_text ''--store'' [] arguments = path"
  shows "\<exists>fs' \<in> set states. read_and_decode readable fs' path (e_limits e) = Inr (st, True) \<and>
    (\<exists>output. load_phase readable fs' arguments e = (None, output, e))"
proof -
  obtain fs' where fs': "fs' \<in> set states" "fs' path = None" "fs' (backup_name path) = Some old"
    using rotated_state [OF assms(1-6)] by blast
  have "read_and_decode readable fs' path (e_limits e) = Inr (st, True)"
    using read_backup [of fs' path old readable] fs' assms(7,8) by blast
  moreover have "\<exists>output. load_phase readable fs' arguments e = (None, output, e)"
    using load_phase_fresh [of fs' arguments readable e] fs'(2) assms(9) by simp
  ultimately show ?thesis using fs'(1) by blast
qed

theorem restart_ignores_the_backup_witness:
  "\<exists>fs' st output. read_and_decode (\<lambda>_. True) fs' ''store'' (e_limits ex_created) = Inr (st, True) \<and>
     load_phase (\<lambda>_. True) fs' [''--store'', ''store''] ex_created = (None, output, ex_created)"
proof -
  obtain content body where c: "decode_store content (e_limits ex_created) = Inr (stored_engine ex_created body)"
    using ex_decoded by blast
  obtain result states where s: "save_files (\<lambda>_. True) [] ''store'' content [''store'' \<mapsto> content] = (result, states)" by fastforce
  have "arg_text ''--store'' [] [''--store'', ''store''] = ''store''" by (simp add: arg_text_def)
  from restart_ignores_the_backup [OF s _ _ _ _ _ _ c this] show ?thesis by fastforce
qed

end
